(* ===== verification/Prelude.thy ===== *)
theory Prelude
  imports Main "HOL-Library.Word" "HOL-Library.Multiset" "HOL-Library.List_Lexorder" "HOL-Library.Char_ord"
begin

text \<open>
  Shared vocabulary of the development: the machine integer types of \<^verbatim>\<open>Types.hpp\<close>, the
  named collections of simplification rules, generic facts on lists, and the models of the parts
  of the C++ standard library on which several components rely: \<open>std::upper_bound\<close> (the
  binary search of the reference implementation), \<open>std::sort\<close>, \<open>std::unordered_map\<close>
  and \<open>std::to_string\<close>. Each of them comes with the contract its clients use, as a locale.
\<close>

unbundle bit_operations_syntax

type_synonym u8 = "8 word"
type_synonym u16 = "16 word"
type_synonym u32 = "32 word"
type_synonym u64 = "64 word"

text \<open>An \<^verbatim>\<open>int\<close> of the source that holds a set of flags; \<open>-1\<close> is "all flags".\<close>

type_synonym flags = "32 word"

named_theorems storage_simps \<open>effect of the storage operations on the four maps\<close>
named_theorems list_frame \<open>fields of the connection list an operation leaves alone\<close>

section \<open>Lists\<close>

lemma take_butlast_snoc: "xs \<noteq> [] \<Longrightarrow> butlast xs @ [last xs] = xs"
  by simp

lemma set_butlast_subset: "set (butlast xs) \<subseteq> set xs"
  by (auto dest: in_set_butlastD)

lemma map_eq_nth_update:
  assumes "i < length xs" and "f (g (xs ! i)) = f (xs ! i)"
  shows "map f (xs[i := g (xs ! i)]) = map f xs"
  using assms by (simp add: map_update) (metis list_update_id nth_map)

lemma filter_neq_id: "k \<notin> set xs \<Longrightarrow> filter (\<lambda>x. x \<noteq> k) xs = xs"
  by (auto simp: filter_id_conv)

lemma take_update_drop:
  assumes "n \<le> length xs"
  shows "take n xs @ (drop n xs)[k := y] = xs[n + k := y]"
proof -
  have "(take n xs @ drop n xs)[n + k := y] = take n xs @ (drop n xs)[k := y]"
    using assms by (simp only: list_update_append) (simp add: min_def)
  then show ?thesis by simp
qed

lemma last_take_Suc: "j < length xs \<Longrightarrow> last (take (Suc j) xs) = xs ! j"
  by (simp add: take_Suc_conv_app_nth)

lemma distinct_map_filter_one:
  assumes "distinct (map f xs)"
  shows "length (filter (\<lambda>x. f x \<noteq> k) xs) = length xs - (if k \<in> f ` set xs then 1 else 0)"
  using assms
proof (induction xs)
  case Nil
  then show ?case by simp
next
  case (Cons a xs)
  show ?case
  proof (cases "f a = k")
    case True
    with Cons.prems have "filter (\<lambda>x. f x \<noteq> k) xs = xs"
      by (force simp: filter_id_conv image_iff)
    with True show ?thesis by simp
  next
    case False
    have "k \<in> f ` set xs \<Longrightarrow> 0 < length xs" by (cases xs) auto
    with False Cons show ?thesis by (auto simp: Suc_diff_le)
  qed
qed

text \<open>Erasing the first element that satisfies a test: \<open>std::find_if\<close> then \<open>erase\<close>.\<close>

fun remove_first :: "('a \<Rightarrow> bool) \<Rightarrow> 'a list \<Rightarrow> 'a list" where
  "remove_first p [] = []"
| "remove_first p (x # xs) = (if p x then xs else x # remove_first p xs)"

text \<open>Index of the first element that satisfies a test; the length of the list if none does.\<close>

fun find_index :: "('a \<Rightarrow> bool) \<Rightarrow> 'a list \<Rightarrow> nat" where
  "find_index p [] = 0"
| "find_index p (x # xs) = (if p x then 0 else Suc (find_index p xs))"

lemma find_index_le: "find_index p xs \<le> length xs"
  by (induction xs) auto

lemma find_index_less_iff: "find_index p xs < length xs \<longleftrightarrow> (\<exists>x\<in>set xs. p x)"
  by (induction xs) auto

lemma find_index_nth: "find_index p xs < length xs \<Longrightarrow> p (xs ! find_index p xs)"
  by (induction xs) auto

lemma remove_first_eq_filter:
  "distinct (map f xs) \<Longrightarrow> remove_first (\<lambda>x. f x = k) xs = filter (\<lambda>x. f x \<noteq> k) xs"
proof (induction xs)
  case (Cons a xs)
  have "f a = k \<Longrightarrow> filter (\<lambda>x. f x \<noteq> k) xs = xs"
    using Cons.prems by (force simp: filter_id_conv image_iff)
  with Cons show ?case by auto
qed simp

section \<open>Decimal strings: std::to\_string\<close>

fun to_string :: "nat \<Rightarrow> string" where
  "to_string n =
     (if n < 10 then [char_of (48 + n)] else to_string (n div 10) @ [char_of (48 + n mod 10)])"

declare to_string.simps [simp del]

definition digit_value :: "char \<Rightarrow> nat" where
  "digit_value c = of_char c - 48"

definition decimal_value :: "string \<Rightarrow> nat" where
  "decimal_value s = foldl (\<lambda>n c. 10 * n + digit_value c) 0 s"

lemma digit_value_char: "n < 10 \<Longrightarrow> digit_value (char_of (48 + n)) = n"
  by (simp add: digit_value_def)

lemma decimal_value_to_string: "decimal_value (to_string n) = n"
proof (induction n rule: to_string.induct)
  case (1 n)
  show ?case
  proof (cases "n < 10")
    case True
    then show ?thesis by (simp add: to_string.simps [of n] decimal_value_def digit_value_char)
  next
    case False
    with 1 have "decimal_value (to_string (n div 10)) = n div 10" by simp
    with False show ?thesis
      by (simp add: to_string.simps [of n] decimal_value_def digit_value_char)
  qed
qed

lemma to_string_inj: "to_string m = to_string n \<Longrightarrow> m = n"
  by (metis decimal_value_to_string)

lemma to_string_digits: "c \<in> set (to_string n) \<Longrightarrow> 48 \<le> (of_char c :: nat) \<and> (of_char c :: nat) < 58"
proof (induction n rule: to_string.induct)
  case (1 n)
  then show ?case by (auto simp: to_string.simps [of n] split: if_splits)
qed

lemma to_string_no_nul: "CHR 0x00 \<notin> set (to_string n)"
  using to_string_digits [of "CHR 0x00" n] by auto

lemma to_string_not_Nil: "to_string n \<noteq> []"
  by (simp add: to_string.simps [of n])

section \<open>Strict weak orders and binary search\<close>

text \<open>
  \<open>std::upper_bound\<close>: the interval \<open>[first, first + len)\<close> is halved until it is empty.
\<close>

function ub_loop :: "('a \<Rightarrow> 'a \<Rightarrow> bool) \<Rightarrow> 'a list \<Rightarrow> 'a \<Rightarrow> nat \<Rightarrow> nat \<Rightarrow> nat" where
  "ub_loop lt xs x first len =
     (if len = 0 then first
      else let half = len div 2; middle = first + half
           in if lt x (xs ! middle) then ub_loop lt xs x first half
              else ub_loop lt xs x (middle + 1) (len - half - 1))"
  by pat_completeness auto
termination
  by (relation "measure (\<lambda>(lt, xs, x, first, len). len)") auto

declare ub_loop.simps [simp del]

definition upper_bound :: "('a \<Rightarrow> 'a \<Rightarrow> bool) \<Rightarrow> 'a list \<Rightarrow> 'a \<Rightarrow> nat" where
  "upper_bound lt xs x = ub_loop lt xs x 0 (length xs)"

text \<open>\<open>v.insert(std::upper_bound(...), x)\<close>.\<close>

definition insert_upper :: "('a \<Rightarrow> 'a \<Rightarrow> bool) \<Rightarrow> 'a list \<Rightarrow> 'a \<Rightarrow> 'a list" where
  "insert_upper lt xs x = take (upper_bound lt xs x) xs @ x # drop (upper_bound lt xs x) xs"

text \<open>
  \<open>std::sort\<close>. The order of equivalent elements is unspecified in C++; this instance keeps it.
  Clients use only the contract \<open>sorter\<close> below: a permutation, sorted.
\<close>

definition std_sort :: "('a \<Rightarrow> 'a \<Rightarrow> bool) \<Rightarrow> 'a list \<Rightarrow> 'a list" where
  "std_sort lt xs = foldl (insert_upper lt) [] xs"

definition sorted_by :: "('a \<Rightarrow> 'a \<Rightarrow> bool) \<Rightarrow> 'a list \<Rightarrow> bool" where
  "sorted_by lt xs = sorted_wrt (\<lambda>x y. \<not> lt y x) xs"

lemma sorted_by_Nil [simp]: "sorted_by lt []"
  by (simp add: sorted_by_def)

lemma sorted_by_single [simp]: "sorted_by lt [x]"
  by (simp add: sorted_by_def)

lemma sorted_by_append:
  "sorted_by lt (xs @ ys) \<longleftrightarrow>
     sorted_by lt xs \<and> sorted_by lt ys \<and> (\<forall>x\<in>set xs. \<forall>y\<in>set ys. \<not> lt y x)"
  by (simp add: sorted_by_def sorted_wrt_append)

lemma sorted_by_Cons: "sorted_by lt (x # xs) \<longleftrightarrow> sorted_by lt xs \<and> (\<forall>y\<in>set xs. \<not> lt y x)"
  by (auto simp: sorted_by_def)

lemma sorted_by_butlast: "sorted_by lt xs \<Longrightarrow> sorted_by lt (butlast xs)"
  by (cases xs rule: rev_cases) (auto simp: sorted_by_append)

lemma sorted_by_take: "sorted_by lt xs \<Longrightarrow> sorted_by lt (take n xs)"
  by (simp add: sorted_by_def sorted_wrt_take)

lemma sorted_by_filter: "sorted_by lt xs \<Longrightarrow> sorted_by lt (filter p xs)"
  by (simp add: sorted_by_def sorted_wrt_filter)

lemma sorted_by_remove_first: "sorted_by lt xs \<Longrightarrow> sorted_by lt (remove_first p xs)"
proof (induction xs)
  case (Cons x xs)
  have "set (remove_first p xs) \<subseteq> set xs" for xs :: "'a list" by (induction xs) auto
  with Cons show ?case by (auto simp: sorted_by_Cons)
qed simp

lemma sorted_by_nth: "sorted_by lt xs \<Longrightarrow> i < j \<Longrightarrow> j < length xs \<Longrightarrow> \<not> lt (xs ! j) (xs ! i)"
  by (simp add: sorted_by_def sorted_wrt_iff_nth_less)

lemma mset_insert_upper: "mset (insert_upper lt xs x) = add_mset x (mset xs)"
proof -
  have "mset (take n xs) + mset (drop n xs) = mset xs" for n
    by (metis append_take_drop_id mset_append)
  then show ?thesis by (simp add: insert_upper_def)
qed

lemma set_insert_upper: "set (insert_upper lt xs x) = insert x (set xs)"
  by (metis mset_insert_upper set_mset_add_mset_insert set_mset_mset)

lemma length_insert_upper: "length (insert_upper lt xs x) = Suc (length xs)"
  by (metis mset_insert_upper size_add_mset size_mset)

lemma insert_upper_not_Nil: "insert_upper lt xs x \<noteq> []"
  by (simp add: insert_upper_def)

text \<open>Comparing by a key commutes with taking the keys.\<close>

lemma ub_loop_map:
  "first + len \<le> length xs \<Longrightarrow>
     ub_loop (\<lambda>a b. lt (f a) (f b)) xs x first len = ub_loop lt (map f xs) (f x) first len"
proof (induction len arbitrary: first rule: less_induct)
  case (less len)
  show ?case
  proof (cases "len = 0")
    case True
    then show ?thesis by (simp add: ub_loop.simps [of _ _ _ first 0])
  next
    case False
    let ?lt = "\<lambda>a b. lt (f a) (f b)"
    have "ub_loop ?lt xs x first (len div 2) = ub_loop lt (map f xs) (f x) first (len div 2)"
      and "ub_loop ?lt xs x (first + len div 2 + 1) (len - len div 2 - 1)
        = ub_loop lt (map f xs) (f x) (first + len div 2 + 1) (len - len div 2 - 1)"
      using less False by simp_all
    moreover have "map f xs ! (first + len div 2) = f (xs ! (first + len div 2))"
      using less.prems False by (intro nth_map) linarith
    ultimately show ?thesis
      by (simp add: ub_loop.simps [of _ _ _ first len] Let_def)
  qed
qed

lemma upper_bound_map:
  "upper_bound (\<lambda>a b. lt (f a) (f b)) xs x = upper_bound lt (map f xs) (f x)"
  by (simp add: upper_bound_def ub_loop_map)

lemma map_insert_upper:
  "map f (insert_upper (\<lambda>a b. lt (f a) (f b)) xs x) = insert_upper lt (map f xs) (f x)"
  by (simp add: insert_upper_def upper_bound_map take_map drop_map)

lemma sorted_by_map: "sorted_by (\<lambda>a b. lt (f a) (f b)) xs = sorted_by lt (map f xs)"
  by (simp add: sorted_by_def sorted_wrt_map)

locale sorter =
  fixes srt :: "('a \<Rightarrow> 'a \<Rightarrow> bool) \<Rightarrow> 'a list \<Rightarrow> 'a list"
  assumes mset_srt: "mset (srt lt xs) = mset xs"
    and sorted_srt: "\<lbrakk>\<And>x. \<not> lt x x; \<And>x y z. \<lbrakk>lt x y; lt y z\<rbrakk> \<Longrightarrow> lt x z;
                      \<And>x y z. lt x z \<Longrightarrow> lt x y \<or> lt y z\<rbrakk> \<Longrightarrow> sorted_by lt (srt lt xs)"
begin

lemma set_srt: "set (srt lt xs) = set xs"
  by (metis mset_srt set_mset_mset)

lemma length_srt: "length (srt lt xs) = length xs"
  by (metis mset_srt size_mset)

lemma distinct_map_srt: "distinct (map f (srt lt xs)) = distinct (map f xs)"
  by (metis mset_srt distinct_map mset_eq_imp_distinct_iff set_srt)

end

locale strict_weak_order =
  fixes lt :: "'a \<Rightarrow> 'a \<Rightarrow> bool"
  assumes irrefl: "\<not> lt x x"
    and trans: "lt x y \<Longrightarrow> lt y z \<Longrightarrow> lt x z"
    and neg_trans: "lt x z \<Longrightarrow> lt x y \<or> lt y z"
begin

lemma asym: "lt x y \<Longrightarrow> \<not> lt y x"
  using irrefl trans by blast

lemma ge_trans: "\<not> lt y x \<Longrightarrow> \<not> lt z y \<Longrightarrow> \<not> lt z x"
  using neg_trans by blast

lemma lt_ge_trans: "lt x y \<Longrightarrow> \<not> lt z y \<Longrightarrow> lt x z"
  using neg_trans by blast

lemma ub_loop_partition:
  assumes "\<forall>i < length xs. lt x (xs ! i) \<longleftrightarrow> p \<le> i"
    and "first \<le> p" and "p \<le> first + len" and "first + len \<le> length xs"
  shows "ub_loop lt xs x first len = p"
  using assms
proof (induction lt xs x first len rule: ub_loop.induct)
  case (1 lt xs x first len)
  show ?case
  proof (cases "len = 0")
    case True
    with "1.prems" show ?thesis by (simp add: ub_loop.simps [of lt xs x first 0])
  next
    case False
    let ?m = "first + len div 2"
    from False "1.prems" have m: "?m < length xs" by linarith
    show ?thesis
    proof (cases "lt x (xs ! ?m)")
      case True
      with "1.prems" m have "p \<le> ?m" by simp
      with True False "1.prems" "1.IH"(1) [OF False refl refl] m show ?thesis
        by (simp add: ub_loop.simps [of lt xs x first len] Let_def)
    next
      case F: False
      with "1.prems" m have "?m < p" by simp
      with F False "1.prems" "1.IH"(2) [OF False refl refl] m show ?thesis
        by (simp add: ub_loop.simps [of lt xs x first len] Let_def)
    qed
  qed
qed

lemma sorted_gt_iff:
  assumes "sorted_by lt xs" and "i < length xs"
  shows "lt x (xs ! i) \<longleftrightarrow> length (takeWhile (\<lambda>y. \<not> lt x y) xs) \<le> i"
proof
  let ?p = "length (takeWhile (\<lambda>y. \<not> lt x y) xs)"
  assume "?p \<le> i"
  with assms(2) have p: "?p < length xs" by simp
  have "lt x (xs ! ?p)" using nth_length_takeWhile [OF p] by simp
  moreover have "?p = i \<or> \<not> lt (xs ! i) (xs ! ?p)"
    using assms \<open>?p \<le> i\<close> sorted_by_nth [of lt xs ?p i] by linarith
  ultimately show "lt x (xs ! i)" using lt_ge_trans [of x "xs ! ?p" "xs ! i"] by metis
next
  let ?t = "takeWhile (\<lambda>y. \<not> lt x y) xs"
  assume lt: "lt x (xs ! i)"
  show "length ?t \<le> i"
  proof (rule ccontr)
    assume "\<not> length ?t \<le> i"
    then have i: "i < length ?t" by simp
    then have "?t ! i \<in> set ?t" by (rule nth_mem)
    with i lt show False by (auto simp: takeWhile_nth dest!: set_takeWhileD)
  qed
qed

text \<open>The binary search finds the first element that is greater.\<close>

lemma upper_bound_sorted:
  assumes "sorted_by lt xs"
  shows "upper_bound lt xs x = length (takeWhile (\<lambda>y. \<not> lt x y) xs)"
  unfolding upper_bound_def
  by (rule ub_loop_partition) (use assms sorted_gt_iff length_takeWhile_le in auto)

lemma insert_upper_sorted_eq:
  assumes "sorted_by lt xs"
  shows "insert_upper lt xs x
    = takeWhile (\<lambda>y. \<not> lt x y) xs @ x # dropWhile (\<lambda>y. \<not> lt x y) xs"
  by (simp add: insert_upper_def upper_bound_sorted [OF assms] takeWhile_eq_take [symmetric]
      dropWhile_eq_drop [symmetric])

lemma sorted_insert_upper:
  assumes "sorted_by lt xs"
  shows "sorted_by lt (insert_upper lt xs x)"
proof -
  let ?t = "takeWhile (\<lambda>y. \<not> lt x y) xs" and ?d = "dropWhile (\<lambda>y. \<not> lt x y) xs"
  from assms have s: "sorted_by lt ?t \<and> sorted_by lt ?d \<and> (\<forall>x\<in>set ?t. \<forall>y\<in>set ?d. \<not> lt y x)"
    unfolding sorted_by_append [symmetric] by simp
  have d: "\<not> lt y x" if "y \<in> set ?d" for y
  proof (cases ?d)
    case Nil
    with that show ?thesis by simp
  next
    case (Cons z zs)
    then have z: "lt x z" by (metis (full_types) dropWhile_eq_Cons_conv)
    from s Cons that have "y = z \<or> \<not> lt y z" by (auto simp: sorted_by_append sorted_by_Cons)
    with z asym [of x z] lt_ge_trans [of x z y] asym [of x y] show ?thesis by metis
  qed
  have t: "\<forall>y\<in>set ?t. \<not> lt x y" using set_takeWhileD by fast
  have "\<forall>a\<in>set ?t. \<forall>b\<in>set (x # ?d). \<not> lt b a"
    using s t set_ConsD by fast
  with s d show ?thesis
    unfolding insert_upper_sorted_eq [OF assms] sorted_by_append sorted_by_Cons by blast
qed

lemma last_insert_upper:
  assumes "sorted_by lt xs" and "xs \<noteq> []" and "lt x (last xs)"
  shows "last (insert_upper lt xs x) = last xs"
proof -
  let ?t = "takeWhile (\<lambda>y. \<not> lt x y) xs" and ?d = "dropWhile (\<lambda>y. \<not> lt x y) xs"
  have d: "?d \<noteq> []"
    using assms by (metis (mono_tags, lifting) dropWhile_eq_Nil_conv last_in_set)
  then have "last xs = last ?d" by (metis last_appendR takeWhile_dropWhile_id)
  with d show ?thesis unfolding insert_upper_sorted_eq [OF assms(1)] by (cases ?d) auto
qed

lemma sorted_std_sort: "sorted_by lt (std_sort lt xs)"
proof -
  have "sorted_by lt acc \<Longrightarrow> sorted_by lt (foldl (insert_upper lt) acc xs)" for acc
    by (induction xs arbitrary: acc) (auto intro: sorted_insert_upper)
  then show ?thesis by (simp add: std_sort_def)
qed

lemma sorted_last_max: "sorted_by lt xs \<Longrightarrow> x \<in> set xs \<Longrightarrow> \<not> lt (last xs) x"
  by (cases xs rule: rev_cases) (auto simp: sorted_by_append irrefl)

text \<open>
  A list sorted but for one element is sorted as soon as that element is in order with its two
  neighbours.
\<close>

lemma sorted_but_one:
  assumes "sorted_by lt (xs @ ys)"
    and "xs = [] \<or> \<not> lt x (last xs)" and "ys = [] \<or> \<not> lt (hd ys) x"
  shows "sorted_by lt (xs @ x # ys)"
proof -
  have l: "\<not> lt x y" if "y \<in> set xs" for y
    using assms(1,2) that sorted_last_max [of xs y] ge_trans [of "last xs" y x]
    by (auto simp: sorted_by_append)
  have r: "\<not> lt y x" if "y \<in> set ys" for y
    using assms(1,3) that ge_trans [of "hd ys" x y]
    by (cases ys) (auto simp: sorted_by_append sorted_by_Cons)
  from assms(1) l r show ?thesis by (auto simp: sorted_by_append sorted_by_Cons)
qed

end

interpretation std: sorter std_sort
proof
  show "mset (std_sort lt xs) = mset xs" for lt and xs :: "'a list"
  proof -
    have "mset (foldl (insert_upper lt) acc xs) = mset acc + mset xs" for acc
      by (induction xs arbitrary: acc) (auto simp: mset_insert_upper)
    then show ?thesis by (simp add: std_sort_def)
  qed
qed (rule strict_weak_order.sorted_std_sort, unfold_locales, blast+)
end
