(* ===== verification/KString.thy ===== *)
theory KString
  imports Prelude
begin

text \<open>
  \<^verbatim>\<open>KString.hpp\<close>: a constant string view. A view is modelled by the characters it spans;
  a view built from a C string (\<open>KString_of_cstr\<close>) ends before the first NUL. The characters are
  compared as the source does, as values of the type \<^verbatim>\<open>char\<close>, which is signed on the
  supported platforms. \<open>operator<\<close> is what \<open>std::map<KString, ...>\<close> is ordered by, so
  it has to be a strict weak order.
\<close>

type_synonym KString = string

definition schar :: "char \<Rightarrow> int" where
  "schar c = (let n = of_char c in if n < 128 then n else n - 256)"

fun ComputeLength :: "string \<Rightarrow> nat" where
  "ComputeLength [] = 0"
| "ComputeLength (c # cs) = (if c = CHR 0x00 then 0 else Suc (ComputeLength cs))"

definition KString_of_cstr :: "string \<Rightarrow> KString" where
  "KString_of_cstr s = take (ComputeLength s) s"

function compare_loop :: "KString \<Rightarrow> KString \<Rightarrow> nat \<Rightarrow> nat \<Rightarrow> int option" where
  "compare_loop a b i len =
     (if i < len then
        if a ! i \<noteq> b ! i then Some (if schar (a ! i) < schar (b ! i) then - 1 else 1)
        else compare_loop a b (i + 1) len
      else None)"
  by pat_completeness auto
termination
  by (relation "measure (\<lambda>(a, b, i, len). len - i)") auto

declare compare_loop.simps [simp del]

definition compare :: "KString \<Rightarrow> KString \<Rightarrow> int" where
  "compare a b =
     (let len = (if length a \<le> length b then length a else length b)
      in case compare_loop a b 0 len of
           Some r \<Rightarrow> r
         | None \<Rightarrow> if length a \<noteq> length b then (if length a < length b then - 1 else 1) else 0)"

definition kstring_less :: "KString \<Rightarrow> KString \<Rightarrow> bool" where
  "kstring_less a b = (compare a b < 0)"

definition kstring_eq :: "KString \<Rightarrow> KString \<Rightarrow> bool" where
  "kstring_eq a b = (compare a b = 0)"

section \<open>Lemmas\<close>

lemma of_char_int_range: "0 \<le> (of_char c :: int) \<and> (of_char c :: int) < 256"
  using of_char_mod_256 [of c, where ?'a = int] by (metis pos_mod_bound pos_mod_sign zero_less_numeral)

lemma schar_inj: "schar c = schar d \<Longrightarrow> c = d"
proof -
  assume "schar c = schar d"
  then have "(of_char c :: int) = of_char d"
    using of_char_int_range [of c] of_char_int_range [of d]
    by (auto simp: schar_def Let_def split: if_splits)
  then show ?thesis by simp
qed

text \<open>The index loop is the structural comparison of the two spans.\<close>

fun compare_ref :: "KString \<Rightarrow> KString \<Rightarrow> int" where
  "compare_ref [] [] = 0"
| "compare_ref [] (_ # _) = - 1"
| "compare_ref (_ # _) [] = 1"
| "compare_ref (x # xs) (y # ys) =
     (if x \<noteq> y then (if schar x < schar y then - 1 else 1) else compare_ref xs ys)"

lemma compare_loop_Cons:
  "compare_loop (x # xs) (y # ys) (Suc i) (Suc len) = compare_loop xs ys i len"
proof (induction xs ys i len rule: compare_loop.induct)
  case (1 a b i len)
  then show ?case
    by (simp add: compare_loop.simps [of "x # a" "y # b" "Suc i" "Suc len"]
        compare_loop.simps [of a b i len])
qed

lemma compare_eq_ref: "compare a b = compare_ref a b"
proof (induction a b rule: compare_ref.induct)
  case (4 x xs y ys)
  let ?len = "if length xs \<le> length ys then length xs else length ys"
  have "(if length (x # xs) \<le> length (y # ys) then length (x # xs) else length (y # ys)) = Suc ?len"
    by simp
  moreover have "compare_loop (x # xs) (y # ys) 0 (Suc ?len)
      = (if x \<noteq> y then Some (if schar x < schar y then - 1 else 1) else compare_loop xs ys 0 ?len)"
    by (simp add: compare_loop.simps [of "x # xs" "y # ys" 0 "Suc ?len"] compare_loop_Cons)
  ultimately have "compare (x # xs) (y # ys)
      = (if x \<noteq> y then (if schar x < schar y then - 1 else 1) else compare xs ys)"
    unfolding compare_def Let_def by simp
  with 4 show ?case by simp
qed (simp_all add: compare_def compare_loop.simps [of _ _ 0 0])

lemma compare_ref_zero_iff: "compare_ref a b = 0 \<longleftrightarrow> a = b"
  by (induction a b rule: compare_ref.induct) auto

lemma compare_ref_flip: "compare_ref a b = - compare_ref b a"
  by (induction a b rule: compare_ref.induct) (auto dest: schar_inj)

lemma compare_ref_trans: "compare_ref a b < 0 \<Longrightarrow> compare_ref b c < 0 \<Longrightarrow> compare_ref a c < 0"
proof (induction a c arbitrary: b rule: compare_ref.induct)
  case (1 b) then show ?case by (cases b) auto
next
  case (3 x xs b) then show ?case by (cases b) (auto split: if_splits)
next
  case (4 x xs y ys b)
  then show ?case by (cases b) (auto split: if_splits)
qed auto

lemma kstring_eq_iff: "kstring_eq a b \<longleftrightarrow> a = b"
  by (simp add: kstring_eq_def compare_eq_ref compare_ref_zero_iff)

text \<open>The comparison is total: exactly one of less, equal, greater.\<close>

lemma kstring_less_total: "kstring_less a b \<or> a = b \<or> kstring_less b a"
  using compare_ref_flip [of a b] compare_ref_zero_iff [of a b]
  by (auto simp: kstring_less_def compare_eq_ref)

lemma kstring_less_irrefl: "\<not> kstring_less a a"
  using compare_ref_zero_iff [of a a] by (simp add: kstring_less_def compare_eq_ref)

lemma kstring_less_trans: "kstring_less a b \<Longrightarrow> kstring_less b c \<Longrightarrow> kstring_less a c"
  using compare_ref_trans by (simp add: kstring_less_def compare_eq_ref)

interpretation kstr: strict_weak_order kstring_less
proof
  show "kstring_less x y \<or> kstring_less y z" if "kstring_less x z" for x y z
    using that kstring_less_total [of x y] kstring_less_trans [of y x z] by blast
qed (auto simp: kstring_less_irrefl intro: kstring_less_trans)

lemma KString_of_cstr_takeWhile: "KString_of_cstr s = takeWhile (\<lambda>c. c \<noteq> CHR 0x00) s"
  unfolding KString_of_cstr_def by (induction s) auto

lemma KString_of_cstr_id: "CHR 0x00 \<notin> set s \<Longrightarrow> KString_of_cstr s = s"
  by (auto simp: KString_of_cstr_takeWhile takeWhile_eq_all_conv)

text \<open>
  \<^verbatim>\<open>KString::compare\<close> is a total three-way comparison: it is zero exactly on equal
  strings, swapping the arguments flips the sign, and "less" is transitive. So \<open>operator<\<close> is
  a strict total order, as the \<open>std::map\<close>s keyed by \<open>KString\<close> require.
\<close>

theorem kstring_compare_total_order:
  "(compare a b = 0 \<longleftrightarrow> a = b) \<and> compare a b = - compare b a
    \<and> (compare a b < 0 \<and> compare b c < 0 \<longrightarrow> compare a c < 0)"
  using compare_ref_zero_iff compare_ref_flip compare_ref_trans by (metis compare_eq_ref)

theorem kstring_compare_total_order_witness:
  "compare ''HELLO'' ''tcp4'' < 0 \<and> compare ''tcp4'' ''tcp6'' < 0 \<and> compare ''HELLO'' ''tcp6'' < 0"
proof -
  have "compare ''HELLO'' ''tcp4'' < 0 \<and> compare ''tcp4'' ''tcp6'' < 0"
    by (simp add: compare_eq_ref schar_def)
  with kstring_compare_total_order [of "''HELLO''" "''tcp4''" "''tcp6''"] show ?thesis by blast
qed

end
