(* ===== verification/CharBuffer.thy ===== *)
theory CharBuffer
  imports KString
begin

text \<open>
  \<^verbatim>\<open>CharBuffer.hpp\<close>: a fixed-size, always NUL-terminated character buffer. The template
  argument \<open>Size\<close> is the length of the array. Indexing past the array is undefined behaviour in
  C++; the invariant \<open>cb_wf\<close> and its preservation show that no operation does so. A formatted
  append takes the text the format expands to (\<open>None\<close> when \<open>vsnprintf\<close> reports an error).
\<close>

record CharBuffer =
  cb_buffer :: string
  cb_pos :: nat

text \<open>The array is uninitialised but for its first character: \<open>junk\<close> is what it held.\<close>

definition CharBuffer_init :: "string \<Rightarrow> CharBuffer" where
  "CharBuffer_init junk = \<lparr>cb_buffer = junk[0 := CHR 0x00], cb_pos = 0\<rparr>"

definition getCapacity :: "CharBuffer \<Rightarrow> nat" where
  "getCapacity b = length (cb_buffer b)"

definition getAvailableLength :: "CharBuffer \<Rightarrow> nat" where
  "getAvailableLength b = getCapacity b - cb_pos b - 1"

definition cb_isEmpty :: "CharBuffer \<Rightarrow> bool" where
  "cb_isEmpty b = (cb_pos b = 0)"

definition cb_isFull :: "CharBuffer \<Rightarrow> bool" where
  "cb_isFull b = (getAvailableLength b = 0)"

definition cb_get :: "CharBuffer \<Rightarrow> KString" where
  "cb_get b = take (cb_pos b) (cb_buffer b)"

text \<open>\<open>std::memcpy(m_buffer + pos, s, length s)\<close>.\<close>

definition copy_at :: "nat \<Rightarrow> string \<Rightarrow> string \<Rightarrow> string" where
  "copy_at pos s buf = take pos buf @ s @ drop (pos + length s) buf"

definition append_char :: "CharBuffer \<Rightarrow> char \<Rightarrow> CharBuffer \<times> nat" where
  "append_char b c =
     (if getAvailableLength b > 0
      then (b\<lparr>cb_buffer := ((cb_buffer b)[cb_pos b := c])[cb_pos b + 1 := CHR 0x00],
              cb_pos := cb_pos b + 1\<rparr>, 1)
      else (b, 0))"

definition append_string :: "CharBuffer \<Rightarrow> KString \<Rightarrow> CharBuffer \<times> nat" where
  "append_string b s =
     (if length s = 0 then (b, 0)
      else
        let availableLength = getAvailableLength b;
            len = (if length s > availableLength then availableLength else length s);
            buf = copy_at (cb_pos b) (take len s) (cb_buffer b);
            pos = cb_pos b + len
        in (b\<lparr>cb_buffer := buf[pos := CHR 0x00], cb_pos := pos\<rparr>, len))"

text \<open>\<open>vsnprintf(buf + pos, size, ...)\<close> writes at most \<open>size - 1\<close> characters and a NUL.\<close>

definition vsnprintf :: "string \<Rightarrow> nat \<Rightarrow> nat \<Rightarrow> string \<Rightarrow> string" where
  "vsnprintf buf pos sz txt =
     (if sz = 0 then buf else copy_at pos (take (sz - 1) txt @ [CHR 0x00]) buf)"

definition append_f :: "CharBuffer \<Rightarrow> string option \<Rightarrow> CharBuffer \<times> int" where
  "append_f b formatted =
     (case formatted of
        None \<Rightarrow> (b, - 1)
      | Some txt \<Rightarrow>
          let status = int (length txt);
              b1 = b\<lparr>cb_buffer := vsnprintf (cb_buffer b) (cb_pos b) (getCapacity b - cb_pos b) txt\<rparr>
          in if status > 0
             then (let availableLength = getAvailableLength b1
                   in (b1\<lparr>cb_pos := cb_pos b1 +
                          (if length txt > availableLength then availableLength else length txt)\<rparr>,
                       status))
             else (b1, status))"

definition cb_wf :: "CharBuffer \<Rightarrow> bool" where
  "cb_wf b = (cb_pos b < length (cb_buffer b) \<and> cb_buffer b ! cb_pos b = CHR 0x00)"

section \<open>Lemmas\<close>

lemma length_copy_at: "pos + length s \<le> length buf \<Longrightarrow> length (copy_at pos s buf) = length buf"
  by (simp add: copy_at_def)

lemma take_copy_at:
  "pos + length s \<le> length buf \<Longrightarrow> take (pos + length s) (copy_at pos s buf) = take pos buf @ s"
  by (cases s) (auto simp: copy_at_def)

lemma cb_wf_init: "junk \<noteq> [] \<Longrightarrow> cb_wf (CharBuffer_init junk)"
  by (cases junk) (simp_all add: cb_wf_def CharBuffer_init_def)

lemma take_get_append:
  assumes "cb_wf b"
  shows "take (getCapacity b - 1) (cb_get b @ s) = cb_get b @ take (getAvailableLength b) s"
proof -
  from assms have "length (cb_get b) = cb_pos b" and "cb_pos b \<le> getCapacity b - 1"
    by (auto simp: cb_get_def cb_wf_def getCapacity_def)
  then show ?thesis by (simp add: getAvailableLength_def diff_diff_add)
qed

lemma append_string_wf:
  assumes "cb_wf b"
  shows "cb_wf (fst (append_string b s)) \<and> getCapacity (fst (append_string b s)) = getCapacity b"
  using assms length_copy_at [of "cb_pos b" "take (getAvailableLength b) s" "cb_buffer b"]
    length_copy_at [of "cb_pos b" s "cb_buffer b"]
  by (auto simp: append_string_def cb_wf_def getAvailableLength_def getCapacity_def Let_def)

lemma append_string_get:
  assumes "cb_wf b"
  shows "cb_get (fst (append_string b s)) = take (getCapacity b - 1) (cb_get b @ s)
    \<and> snd (append_string b s) = min (length s) (getAvailableLength b)"
proof -
  let ?len = "min (length s) (getAvailableLength b)"
  let ?buf = "copy_at (cb_pos b) (take ?len s) (cb_buffer b)"
  from assms have p: "cb_pos b + ?len < length (cb_buffer b)"
    by (auto simp: cb_wf_def getAvailableLength_def getCapacity_def)
  have "take (cb_pos b + ?len) (?buf[cb_pos b + ?len := CHR 0x00]) = cb_get b @ take ?len s"
    using p take_copy_at [of "cb_pos b" "take ?len s" "cb_buffer b"] by (simp add: cb_get_def)
  moreover have "cb_get b @ take ?len s = take (getCapacity b - 1) (cb_get b @ s)"
    unfolding take_get_append [OF assms] by (simp add: min_def)
  moreover have "append_string b s =
      (if s = [] then (b, 0)
       else (b\<lparr>cb_buffer := ?buf[cb_pos b + ?len := CHR 0x00], cb_pos := cb_pos b + ?len\<rparr>, ?len))"
    by (auto simp: append_string_def Let_def min_def)
  ultimately show ?thesis by (cases s) (auto simp: cb_get_def)
qed

lemma append_char_as_string: "append_char b c = append_string b [c]" if "cb_wf b"
proof (cases "getAvailableLength b")
  case 0
  with that show ?thesis
    using list_update_id [of "cb_buffer b" "cb_pos b"]
    by (cases b) (auto simp: append_char_def append_string_def Let_def copy_at_def cb_wf_def
        getAvailableLength_def getCapacity_def)
next
  case (Suc n)
  with that show ?thesis
    by (auto simp: append_char_def append_string_def Let_def copy_at_def cb_wf_def
        getAvailableLength_def getCapacity_def upd_conv_take_nth_drop)
qed

lemma append_f_get:
  assumes "cb_wf b"
  shows "cb_wf (fst (append_f b (Some txt)))
    \<and> cb_get (fst (append_f b (Some txt))) = take (getCapacity b - 1) (cb_get b @ txt)"
proof -
  let ?len = "min (length txt) (getAvailableLength b)"
  let ?s = "take (getCapacity b - cb_pos b - 1) txt @ [CHR 0x00]"
  let ?buf = "copy_at (cb_pos b) ?s (cb_buffer b)"
  from assms have p: "cb_pos b + length ?s \<le> length (cb_buffer b)"
    by (auto simp: cb_wf_def getCapacity_def)
  have len: "length ?s = Suc ?len" by (auto simp: getAvailableLength_def)
  have t: "take (cb_pos b + Suc ?len) ?buf = cb_get b @ ?s"
    using take_copy_at [OF p] unfolding len by (simp add: cb_get_def)
  then have nul: "?buf ! (cb_pos b + ?len) = CHR 0x00"
    using assms nth_take [of "cb_pos b + ?len" "cb_pos b + Suc ?len" ?buf]
    by (auto simp: nth_append cb_get_def cb_wf_def getAvailableLength_def getCapacity_def min_def)
  have "take (cb_pos b + ?len) ?buf = take (cb_pos b + ?len) (cb_get b @ ?s)"
    unfolding t [symmetric] by (simp add: min_def)
  also have "\<dots> = take (getCapacity b - 1) (cb_get b @ txt)"
  proof -
    have "length (cb_get b) = cb_pos b" using assms by (simp add: cb_get_def cb_wf_def)
    then show ?thesis unfolding take_get_append [OF assms]
      by (auto simp: getAvailableLength_def min_def)
  qed
  finally have g: "take (cb_pos b + ?len) ?buf = take (getCapacity b - 1) (cb_get b @ txt)" .
  have f: "fst (append_f b (Some txt)) = b\<lparr>cb_buffer := ?buf, cb_pos := cb_pos b + ?len\<rparr>"
    using assms length_copy_at [OF p]
    by (auto simp: append_f_def vsnprintf_def Let_def cb_wf_def getAvailableLength_def
        getCapacity_def min_def)
  show ?thesis unfolding f using g nul p len length_copy_at [OF p]
    by (simp add: cb_wf_def cb_get_def)
qed

text \<open>
  C21: appending to a \<^verbatim>\<open>CharBuffer\<close> (a character, a string or a formatted text) never writes
  outside the array, keeps the terminating NUL in place, and leaves exactly the concatenation cut at
  \<open>Size - 1\<close> characters; the two plain appends report how many characters were taken.
\<close>

theorem charbuffer_append_truncates:
  assumes "cb_wf b"
  shows "cb_wf (fst (append_string b s))
    \<and> cb_get (fst (append_string b s)) = take (getCapacity b - 1) (cb_get b @ s)
    \<and> snd (append_string b s) = min (length s) (getAvailableLength b)
    \<and> append_char b c = append_string b [c]
    \<and> cb_wf (fst (append_f b (Some s)))
    \<and> cb_get (fst (append_f b (Some s))) = take (getCapacity b - 1) (cb_get b @ s)"
  using assms append_string_wf append_string_get append_char_as_string append_f_get by blast

theorem charbuffer_append_truncates_witness:
  "cb_get (fst (append_string (CharBuffer_init ''xxxx'') ''hello'')) = ''hel''
    \<and> snd (append_string (CharBuffer_init ''xxxx'') ''hello'') = 3"
proof -
  have w: "cb_wf (CharBuffer_init ''xxxx'')" by (rule cb_wf_init) simp
  show ?thesis using charbuffer_append_truncates [OF w, of "''hello''"]
    by (simp add: CharBuffer_init_def cb_get_def getAvailableLength_def getCapacity_def)
qed

end
