(* ===== verification/Country.thy ===== *)
theory Country
  imports KString
begin

text \<open>
  \<^verbatim>\<open>Country.hpp\<close> and \<^verbatim>\<open>Country.cpp\<close>: country codes. The enumeration
  \<open>ECode\<close> numbers the codes from \<open>ZZ = 0\<close> in the order of the table, so a code is
  modelled by its number, an index of \<open>COUNTRY_TABLE\<close>.
\<close>

datatype Country = Country (m_code: nat)

definition COUNTRY_TABLE :: "(KString \<times> KString) list" where
  "COUNTRY_TABLE = [
      (''?'', ''Unknown''),
      (''AD'', ''Andorra''),
      (''AE'', ''United Arab Emirates''),
      (''AF'', ''Afghanistan''),
      (''AG'', ''Antigua and Barbuda''),
      (''AI'', ''Anguilla''),
      (''AL'', ''Albania''),
      (''AM'', ''Armenia''),
      (''AO'', ''Angola''),
      (''AQ'', ''Antarctica''),
      (''AR'', ''Argentina''),
      (''AS'', ''American Samoa''),
      (''AT'', ''Austria''),
      (''AU'', ''Australia''),
      (''AW'', ''Aruba''),
      (''AX'', [CHR 0xC3, CHR 0x85] @ ''land Islands''),
      (''AZ'', ''Azerbaijan''),
      (''BA'', ''Bosnia and Herzegovina''),
      (''BB'', ''Barbados''),
      (''BD'', ''Bangladesh''),
      (''BE'', ''Belgium''),
      (''BF'', ''Burkina Faso''),
      (''BG'', ''Bulgaria''),
      (''BH'', ''Bahrain''),
      (''BI'', ''Burundi''),
      (''BJ'', ''Benin''),
      (''BL'', ''Saint Barth'' @ [CHR 0xC3, CHR 0xA9] @ ''lemy''),
      (''BM'', ''Bermuda''),
      (''BN'', ''Brunei Darussalam''),
      (''BO'', ''Bolivia, Plurinational State of''),
      (''BQ'', ''Bonaire, Sint Eustatius and Saba''),
      (''BR'', ''Brazil''),
      (''BS'', ''Bahamas''),
      (''BT'', ''Bhutan''),
      (''BV'', ''Bouvet Island''),
      (''BW'', ''Botswana''),
      (''BY'', ''Belarus''),
      (''BZ'', ''Belize''),
      (''CA'', ''Canada''),
      (''CC'', ''Cocos (Keeling) Islands''),
      (''CD'', ''Congo, the Democratic Republic of the''),
      (''CF'', ''Central African Republic''),
      (''CG'', ''Congo''),
      (''CH'', ''Switzerland''),
      (''CI'', ''C'' @ [CHR 0xC3, CHR 0xB4] @ ''te d'' @ [CHR 0x27] @ ''Ivoire''),
      (''CK'', ''Cook Islands''),
      (''CL'', ''Chile''),
      (''CM'', ''Cameroon''),
      (''CN'', ''China''),
      (''CO'', ''Colombia''),
      (''CR'', ''Costa Rica''),
      (''CU'', ''Cuba''),
      (''CV'', ''Cabo Verde''),
      (''CW'', ''Cura'' @ [CHR 0xC3, CHR 0xA7] @ ''ao''),
      (''CX'', ''Christmas Island''),
      (''CY'', ''Cyprus''),
      (''CZ'', ''Czech Republic''),
      (''DE'', ''Germany''),
      (''DJ'', ''Djibouti''),
      (''DK'', ''Denmark''),
      (''DM'', ''Dominica''),
      (''DO'', ''Dominican Republic''),
      (''DZ'', ''Algeria''),
      (''EC'', ''Ecuador''),
      (''EE'', ''Estonia''),
      (''EG'', ''Egypt''),
      (''EH'', ''Western Sahara''),
      (''ER'', ''Eritrea''),
      (''ES'', ''Spain''),
      (''ET'', ''Ethiopia''),
      (''FI'', ''Finland''),
      (''FJ'', ''Fiji''),
      (''FK'', ''Falkland Islands (Malvinas)''),
      (''FM'', ''Micronesia, Federated States of''),
      (''FO'', ''Faroe Islands''),
      (''FR'', ''France''),
      (''GA'', ''Gabon''),
      (''GB'', ''United Kingdom of Great Britain and Northern Ireland''),
      (''GD'', ''Grenada''),
      (''GE'', ''Georgia''),
      (''GF'', ''French Guiana''),
      (''GG'', ''Guernsey''),
      (''GH'', ''Ghana''),
      (''GI'', ''Gibraltar''),
      (''GL'', ''Greenland''),
      (''GM'', ''Gambia''),
      (''GN'', ''Guinea''),
      (''GP'', ''Guadeloupe''),
      (''GQ'', ''Equatorial Guinea''),
      (''GR'', ''Greece''),
      (''GS'', ''South Georgia and the South Sandwich Islands''),
      (''GT'', ''Guatemala''),
      (''GU'', ''Guam''),
      (''GW'', ''Guinea-Bissau''),
      (''GY'', ''Guyana''),
      (''HK'', ''Hong Kong''),
      (''HM'', ''Heard Island and McDonald Islands''),
      (''HN'', ''Honduras''),
      (''HR'', ''Croatia''),
      (''HT'', ''Haiti''),
      (''HU'', ''Hungary''),
      (''ID'', ''Indonesia''),
      (''IE'', ''Ireland''),
      (''IL'', ''Israel''),
      (''IM'', ''Isle of Man''),
      (''IN'', ''India''),
      (''IO'', ''British Indian Ocean Territory''),
      (''IQ'', ''Iraq''),
      (''IR'', ''Iran, Islamic Republic of''),
      (''IS'', ''Iceland''),
      (''IT'', ''Italy''),
      (''JE'', ''Jersey''),
      (''JM'', ''Jamaica''),
      (''JO'', ''Jordan''),
      (''JP'', ''Japan''),
      (''KE'', ''Kenya''),
      (''KG'', ''Kyrgyzstan''),
      (''KH'', ''Cambodia''),
      (''KI'', ''Kiribati''),
      (''KM'', ''Comoros''),
      (''KN'', ''Saint Kitts and Nevis''),
      (''KP'', ''Korea, Democratic People'' @ [CHR 0x27] @ ''s Republic of''),
      (''KR'', ''Korea, Republic of''),
      (''KW'', ''Kuwait''),
      (''KY'', ''Cayman Islands''),
      (''KZ'', ''Kazakhstan''),
      (''LA'', ''Lao People'' @ [CHR 0x27] @ ''s Democratic Republic''),
      (''LB'', ''Lebanon''),
      (''LC'', ''Saint Lucia''),
      (''LI'', ''Liechtenstein''),
      (''LK'', ''Sri Lanka''),
      (''LR'', ''Liberia''),
      (''LS'', ''Lesotho''),
      (''LT'', ''Lithuania''),
      (''LU'', ''Luxembourg''),
      (''LV'', ''Latvia''),
      (''LY'', ''Libya''),
      (''MA'', ''Morocco''),
      (''MC'', ''Monaco''),
      (''MD'', ''Moldova, Republic of''),
      (''ME'', ''Montenegro''),
      (''MF'', ''Saint Martin (French part)''),
      (''MG'', ''Madagascar''),
      (''MH'', ''Marshall Islands''),
      (''MK'', ''Macedonia, the former Yugoslav Republic of''),
      (''ML'', ''Mali''),
      (''MM'', ''Myanmar''),
      (''MN'', ''Mongolia''),
      (''MO'', ''Macao''),
      (''MP'', ''Northern Mariana Islands''),
      (''MQ'', ''Martinique''),
      (''MR'', ''Mauritania''),
      (''MS'', ''Montserrat''),
      (''MT'', ''Malta''),
      (''MU'', ''Mauritius''),
      (''MV'', ''Maldives''),
      (''MW'', ''Malawi''),
      (''MX'', ''Mexico''),
      (''MY'', ''Malaysia''),
      (''MZ'', ''Mozambique''),
      (''NA'', ''Namibia''),
      (''NC'', ''New Caledonia''),
      (''NE'', ''Niger''),
      (''NF'', ''Norfolk Island''),
      (''NG'', ''Nigeria''),
      (''NI'', ''Nicaragua''),
      (''NL'', ''Netherlands''),
      (''NO'', ''Norway''),
      (''NP'', ''Nepal''),
      (''NR'', ''Nauru''),
      (''NU'', ''Niue''),
      (''NZ'', ''New Zealand''),
      (''OM'', ''Oman''),
      (''PA'', ''Panama''),
      (''PE'', ''Peru''),
      (''PF'', ''French Polynesia''),
      (''PG'', ''Papua New Guinea''),
      (''PH'', ''Philippines''),
      (''PK'', ''Pakistan''),
      (''PL'', ''Poland''),
      (''PM'', ''Saint Pierre and Miquelon''),
      (''PN'', ''Pitcairn''),
      (''PR'', ''Puerto Rico''),
      (''PS'', ''Palestine, State of''),
      (''PT'', ''Portugal''),
      (''PW'', ''Palau''),
      (''PY'', ''Paraguay''),
      (''QA'', ''Qatar''),
      (''RE'', ''R'' @ [CHR 0xC3, CHR 0xA9] @ ''union''),
      (''RO'', ''Romania''),
      (''RS'', ''Serbia''),
      (''RU'', ''Russian Federation''),
      (''RW'', ''Rwanda''),
      (''SA'', ''Saudi Arabia''),
      (''SB'', ''Solomon Islands''),
      (''SC'', ''Seychelles''),
      (''SD'', ''Sudan''),
      (''SE'', ''Sweden''),
      (''SG'', ''Singapore''),
      (''SH'', ''Saint Helena, Ascension and Tristan da Cunha''),
      (''SI'', ''Slovenia''),
      (''SJ'', ''Svalbard and Jan Mayen''),
      (''SK'', ''Slovakia''),
      (''SL'', ''Sierra Leone''),
      (''SM'', ''San Marino''),
      (''SN'', ''Senegal''),
      (''SO'', ''Somalia''),
      (''SR'', ''Suriname''),
      (''SS'', ''South Sudan''),
      (''ST'', ''Sao Tome and Principe''),
      (''SV'', ''El Salvador''),
      (''SX'', ''Sint Maarten (Dutch part)''),
      (''SY'', ''Syrian Arab Republic''),
      (''SZ'', ''Swaziland''),
      (''TC'', ''Turks and Caicos Islands''),
      (''TD'', ''Chad''),
      (''TF'', ''French Southern Territories''),
      (''TG'', ''Togo''),
      (''TH'', ''Thailand''),
      (''TJ'', ''Tajikistan''),
      (''TK'', ''Tokelau''),
      (''TL'', ''Timor-Leste''),
      (''TM'', ''Turkmenistan''),
      (''TN'', ''Tunisia''),
      (''TO'', ''Tonga''),
      (''TR'', ''Turkey''),
      (''TT'', ''Trinidad and Tobago''),
      (''TV'', ''Tuvalu''),
      (''TW'', ''Taiwan, Province of China''),
      (''TZ'', ''Tanzania, United Republic of''),
      (''UA'', ''Ukraine''),
      (''UG'', ''Uganda''),
      (''UM'', ''United States Minor Outlying Islands''),
      (''US'', ''United States of America''),
      (''UY'', ''Uruguay''),
      (''UZ'', ''Uzbekistan''),
      (''VA'', ''Vatican City State (Holy See)''),
      (''VC'', ''Saint Vincent and the Grenadines''),
      (''VE'', ''Venezuela, Bolivarian Republic of''),
      (''VG'', ''Virgin Islands, British''),
      (''VI'', ''Virgin Islands, U.S.''),
      (''VN'', ''Vietnam''),
      (''VU'', ''Vanuatu''),
      (''WF'', ''Wallis and Futuna''),
      (''WS'', ''Samoa''),
      (''YE'', ''Yemen''),
      (''YT'', ''Mayotte''),
      (''ZA'', ''South Africa''),
      (''ZM'', ''Zambia''),
      (''ZW'', ''Zimbabwe'')]"

definition COUNTRY_TABLE_SIZE :: nat where
  "COUNTRY_TABLE_SIZE = length COUNTRY_TABLE"

definition ZZ :: Country where
  "ZZ = Country 0"

definition getCodeString :: "Country \<Rightarrow> KString" where
  "getCodeString c = fst (COUNTRY_TABLE ! m_code c)"

definition getNameString :: "Country \<Rightarrow> KString" where
  "getNameString c = snd (COUNTRY_TABLE ! m_code c)"

definition isUnknown :: "Country \<Rightarrow> bool" where
  "isUnknown c = (m_code c = 0)"

definition country_less :: "Country \<Rightarrow> Country \<Rightarrow> bool" where
  "country_less a b = (m_code a < m_code b)"

text \<open>The linear search of \<open>ParseCodeString\<close>, from index \<open>i\<close>.\<close>

function parse_loop :: "KString \<Rightarrow> nat \<Rightarrow> Country" where
  "parse_loop code i =
     (if i < COUNTRY_TABLE_SIZE then
        if kstring_eq code (fst (COUNTRY_TABLE ! i)) then Country i else parse_loop code (i + 1)
      else ZZ)"
  by pat_completeness auto
termination
  by (relation "measure (\<lambda>(code, i). COUNTRY_TABLE_SIZE - i)") auto

declare parse_loop.simps [simp del]

definition ParseCodeString :: "KString \<Rightarrow> Country" where
  "ParseCodeString code =
     (if length code = 2 \<and> \<not> kstring_eq code ''ZZ'' then parse_loop code 1 else ZZ)"

section \<open>Lemmas\<close>

lemma table_size: "COUNTRY_TABLE_SIZE = 250"
  by (simp add: COUNTRY_TABLE_SIZE_def COUNTRY_TABLE_def)

lemma table_sorted: "sorted_wrt (<) (map fst (tl COUNTRY_TABLE))"
  unfolding COUNTRY_TABLE_def by (simp del: sorted_wrt.simps add: sorted_wrt2_simps)

lemma table_shape: "list_all (\<lambda>p. length (fst p) = 2 \<and> fst p \<noteq> ''ZZ'') (tl COUNTRY_TABLE)"
  unfolding COUNTRY_TABLE_def by simp

lemma table_tl_nth: "0 < i \<Longrightarrow> COUNTRY_TABLE ! i = tl COUNTRY_TABLE ! (i - 1)"
  by (cases i) (simp_all add: COUNTRY_TABLE_def nth_tl)

lemma table_code_inj:
  assumes "0 < i" and "i < j" and "j < COUNTRY_TABLE_SIZE"
  shows "fst (COUNTRY_TABLE ! i) < fst (COUNTRY_TABLE ! j)"
proof -
  have "j - 1 < length (map fst (tl COUNTRY_TABLE))" and "i - 1 < j - 1"
    using assms by (auto simp: COUNTRY_TABLE_SIZE_def)
  then have "map fst (tl COUNTRY_TABLE) ! (i - 1) < map fst (tl COUNTRY_TABLE) ! (j - 1)"
    using table_sorted unfolding sorted_wrt_iff_nth_less by blast
  moreover have "0 < j" using assms by simp
  ultimately show ?thesis unfolding table_tl_nth [OF assms(1)] table_tl_nth [OF \<open>0 < j\<close>]
    using \<open>j - 1 < _\<close> \<open>i - 1 < j - 1\<close> by (metis length_map nth_map order.strict_trans)
qed

lemma table_code_shape:
  assumes "0 < i" and "i < COUNTRY_TABLE_SIZE"
  shows "length (fst (COUNTRY_TABLE ! i)) = 2 \<and> fst (COUNTRY_TABLE ! i) \<noteq> ''ZZ''"
proof -
  have "i - 1 < length (tl COUNTRY_TABLE)" using assms by (auto simp: COUNTRY_TABLE_SIZE_def)
  with table_shape have "length (fst (tl COUNTRY_TABLE ! (i - 1))) = 2
      \<and> fst (tl COUNTRY_TABLE ! (i - 1)) \<noteq> ''ZZ''"
    unfolding list_all_length by blast
  then show ?thesis unfolding table_tl_nth [OF assms(1)] .
qed

lemma parse_loop_found:
  "0 < j \<Longrightarrow> j \<le> i \<Longrightarrow> i < COUNTRY_TABLE_SIZE \<Longrightarrow> parse_loop (fst (COUNTRY_TABLE ! i)) j = Country i"
proof (induction "i - j" arbitrary: j)
  case 0
  then show ?case by (simp add: parse_loop.simps [of _ j] kstring_eq_iff)
next
  case (Suc n)
  then have "fst (COUNTRY_TABLE ! j) < fst (COUNTRY_TABLE ! i)" by (intro table_code_inj) auto
  then have "fst (COUNTRY_TABLE ! i) \<noteq> fst (COUNTRY_TABLE ! j)" by simp
  with Suc show ?case by (simp add: parse_loop.simps [of _ j] kstring_eq_iff)
qed

lemma parse_loop_sound:
  "parse_loop code j = Country i \<Longrightarrow> i \<noteq> 0 \<Longrightarrow> i < COUNTRY_TABLE_SIZE \<and> fst (COUNTRY_TABLE ! i) = code"
proof (induction code j rule: parse_loop.induct)
  case (1 code j)
  then show ?case
    by (auto simp: parse_loop.simps [of code j] kstring_eq_iff ZZ_def split: if_splits)
qed

text \<open>
  Country codes survive printing and parsing. Every known country of the table is found again
  from its code string, and whatever \<open>ParseCodeString\<close> returns other than "unknown" has the
  parsed string as its code.
\<close>

theorem country_parse_print:
  "(0 < i \<and> i < COUNTRY_TABLE_SIZE \<longrightarrow> ParseCodeString (getCodeString (Country i)) = Country i)
    \<and> (\<not> isUnknown (ParseCodeString s) \<longrightarrow> getCodeString (ParseCodeString s) = s)"
proof
  show "0 < i \<and> i < COUNTRY_TABLE_SIZE \<longrightarrow> ParseCodeString (getCodeString (Country i)) = Country i"
    using table_code_shape [of i] parse_loop_found [of 1 i]
    by (simp add: ParseCodeString_def getCodeString_def kstring_eq_iff)
next
  show "\<not> isUnknown (ParseCodeString s) \<longrightarrow> getCodeString (ParseCodeString s) = s"
    using parse_loop_sound [of s 1 "m_code (parse_loop s 1)"]
    by (auto simp: ParseCodeString_def isUnknown_def getCodeString_def ZZ_def)
qed

theorem country_parse_print_witness:
  "ParseCodeString (getCodeString (Country 1)) = Country 1 \<and> getCodeString (Country 1) = ''AD''"
proof -
  have "0 < (1::nat) \<and> 1 < COUNTRY_TABLE_SIZE" by (simp add: table_size)
  moreover have "getCodeString (Country 1) = ''AD''"
    by (simp add: getCodeString_def COUNTRY_TABLE_def)
  ultimately show ?thesis using country_parse_print [of 1] by blast
qed

end
