(* ===== verification/Address.thy ===== *)
theory Address
  imports KString Country
begin

text \<open>
  \<^verbatim>\<open>Address.hpp\<close>, \<^verbatim>\<open>Platform/Unix/Address.cpp\<close>, \<^verbatim>\<open>Port.hpp\<close>,
  \<^verbatim>\<open>ASN.hpp\<close>, \<^verbatim>\<open>WhoisData.hpp\<close>: addresses and ports with the data the
  resolver attaches to them. The operating system's \<open>inet_ntop\<close> and \<open>inet_pton\<close> are not
  part of the repository: they are the parameter \<open>inet\<close> of the definitions that use them, and
  what is relied upon is the hypothesis \<open>inet_roundtrip\<close>, their documented round trip.
\<close>

section \<open>Addresses\<close>

datatype EAddressType = IP4 | IP6

type_synonym RawAddr = "u32 \<times> u32 \<times> u32 \<times> u32"

datatype IAddress = AddressIP4 u32 | AddressIP6 RawAddr

fun address_getType :: "IAddress \<Rightarrow> EAddressType" where
  "address_getType (AddressIP4 _) = IP4"
| "address_getType (AddressIP6 _) = IP6"

fun address_getTypeName :: "IAddress \<Rightarrow> KString" where
  "address_getTypeName (AddressIP4 _) = ''IPv4''"
| "address_getTypeName (AddressIP6 _) = ''IPv6''"

text \<open>\<open>None\<close> is the error return of the system call.\<close>

record inet =
  inet_ntop4 :: "u32 \<Rightarrow> string option"
  inet_ntop6 :: "RawAddr \<Rightarrow> string option"
  inet_pton4 :: "string \<Rightarrow> u32 option"
  inet_pton6 :: "string \<Rightarrow> RawAddr option"

definition inet_roundtrip :: "inet \<Rightarrow> bool" where
  "inet_roundtrip net \<longleftrightarrow>
     (\<forall>a. \<exists>s. inet_ntop4 net a = Some s \<and> inet_pton4 net s = Some a \<and> CHR 0x00 \<notin> set s) \<and>
     (\<forall>a. \<exists>s. inet_ntop6 net a = Some s \<and> inet_pton6 net s = Some a \<and> CHR 0x00 \<notin> set s)"

fun address_toString :: "inet \<Rightarrow> IAddress \<Rightarrow> string" where
  "address_toString net (AddressIP4 a) = (case inet_ntop4 net a of None \<Rightarrow> [] | Some s \<Rightarrow> s)"
| "address_toString net (AddressIP6 a) = (case inet_ntop6 net a of None \<Rightarrow> [] | Some s \<Rightarrow> s)"

text \<open>
  The message of a thrown \<open>std::invalid_argument\<close>; a failed \<open>RAPIDJSON_ASSERT\<close>, which
  aborts the program or, in a release build, is undefined behaviour; a read through a dangling pointer;
  the program's own \<open>Exception\<close>, which ends it.
\<close>

datatype exception = invalid_argument string | assertion_failed | undefined_behaviour | Exception string

type_synonym 'a result = "exception + 'a"

definition AddressIP4_CreateFromString :: "inet \<Rightarrow> KString \<Rightarrow> IAddress result" where
  "AddressIP4_CreateFromString net s =
     (case inet_pton4 net (KString_of_cstr s) of
        None \<Rightarrow> Inl (invalid_argument ''Invalid IPv4 address string'')
      | Some a \<Rightarrow> Inr (AddressIP4 a))"

definition AddressIP6_CreateFromString :: "inet \<Rightarrow> KString \<Rightarrow> IAddress result" where
  "AddressIP6_CreateFromString net s =
     (case inet_pton6 net (KString_of_cstr s) of
        None \<Rightarrow> Inl (invalid_argument ''Invalid IPv6 address string'')
      | Some a \<Rightarrow> Inr (AddressIP6 a))"

section \<open>Autonomous systems\<close>

record ASN =
  asn_number :: u32
  asn_string :: string
  asn_orgName :: string

definition ASN_empty :: ASN where
  "ASN_empty = \<lparr>asn_number = 0, asn_string = [], asn_orgName = []\<rparr>"

definition ASN_create :: "u32 \<Rightarrow> string \<Rightarrow> ASN" where
  "ASN_create number orgName =
     \<lparr>asn_number = number, asn_string = ''AS'' @ to_string (unat number), asn_orgName = orgName\<rparr>"

definition asn_isEmpty :: "ASN \<Rightarrow> bool" where
  "asn_isEmpty a = (asn_number a = 0)"

definition asn_less :: "ASN \<Rightarrow> ASN \<Rightarrow> bool" where
  "asn_less a b = (asn_number a < asn_number b)"

section \<open>WHOIS data\<close>

datatype WhoisType = UNKNOWN | IP_ADDRESS | DOMAIN_NAME | AUTONOMOUS_SYSTEM

record WhoisData =
  wd_type :: WhoisType
  wd_hasStatus :: bool
  wd_data :: string

definition GetEmptyUnknown :: WhoisData where
  "GetEmptyUnknown = \<lparr>wd_type = UNKNOWN, wd_hasStatus = False, wd_data = []\<rparr>"

section \<open>Address data\<close>

record AddressData =
  ad_address :: IAddress
  ad_isHostnameResolved :: bool
  ad_isASNResolved :: bool
  ad_isCountryResolved :: bool
  ad_isWhoisAddressResolved :: bool
  ad_isWhoisHostnameResolved :: bool
  ad_isWhoisASResolved :: bool
  ad_hostname :: string
  ad_asn :: ASN
  ad_country :: Country
  ad_whois :: "WhoisData list"
  ad_numericString :: string

definition AddressData_create :: "inet \<Rightarrow> IAddress \<Rightarrow> AddressData" where
  "AddressData_create net address =
     \<lparr>ad_address = address, ad_isHostnameResolved = False, ad_isASNResolved = False,
      ad_isCountryResolved = False, ad_isWhoisAddressResolved = False,
      ad_isWhoisHostnameResolved = False, ad_isWhoisASResolved = False, ad_hostname = [],
      ad_asn = ASN_empty, ad_country = ZZ, ad_whois = [],
      ad_numericString = address_toString net address\<rparr>"

definition setAddress :: "IAddress \<Rightarrow> AddressData \<Rightarrow> AddressData" where
  "setAddress address d = d\<lparr>ad_address := address\<rparr>"

definition isHostnameAvailable :: "AddressData \<Rightarrow> bool" where
  "isHostnameAvailable d = (ad_hostname d \<noteq> [])"

definition address_getString :: "AddressData \<Rightarrow> string" where
  "address_getString d = (if isHostnameAvailable d then ad_hostname d else ad_numericString d)"

definition setResolvedHostname :: "string \<Rightarrow> AddressData \<Rightarrow> AddressData" where
  "setResolvedHostname hostname d = d\<lparr>ad_hostname := hostname, ad_isHostnameResolved := True\<rparr>"

definition setResolvedASN :: "ASN \<Rightarrow> AddressData \<Rightarrow> AddressData" where
  "setResolvedASN asn d = d\<lparr>ad_asn := asn, ad_isASNResolved := True\<rparr>"

definition setResolvedCountry :: "Country \<Rightarrow> AddressData \<Rightarrow> AddressData" where
  "setResolvedCountry country d = d\<lparr>ad_country := country, ad_isCountryResolved := True\<rparr>"

fun getWhois_loop :: "WhoisType \<Rightarrow> WhoisData list \<Rightarrow> WhoisData" where
  "getWhois_loop t [] = GetEmptyUnknown"
| "getWhois_loop t (d # ds) = (if wd_type d = t then d else getWhois_loop t ds)"

definition getWhois :: "WhoisType \<Rightarrow> AddressData \<Rightarrow> WhoisData" where
  "getWhois t d = getWhois_loop t (ad_whois d)"

fun isWhoisAvailable_loop :: "WhoisType \<Rightarrow> WhoisData list \<Rightarrow> bool" where
  "isWhoisAvailable_loop t [] = False"
| "isWhoisAvailable_loop t (d # ds) =
     (if wd_type d = t then \<not> wd_hasStatus d \<and> wd_data d \<noteq> [] else isWhoisAvailable_loop t ds)"

definition isWhoisAvailable :: "WhoisType \<Rightarrow> AddressData \<Rightarrow> bool" where
  "isWhoisAvailable t d = isWhoisAvailable_loop t (ad_whois d)"

text \<open>The replacement loop of \<open>setWhois\<close>, with the \<open>emplace_back\<close> when nothing matched.\<close>

fun whois_replace :: "WhoisData \<Rightarrow> WhoisData list \<Rightarrow> WhoisData list" where
  "whois_replace w [] = [w]"
| "whois_replace w (d # ds) = (if wd_type d = wd_type w then w # ds else d # whois_replace w ds)"

definition setWhois :: "WhoisData \<Rightarrow> AddressData \<Rightarrow> AddressData" where
  "setWhois w d =
     (case wd_type w of
        UNKNOWN \<Rightarrow> d
      | IP_ADDRESS \<Rightarrow>
          d\<lparr>ad_isWhoisAddressResolved := True, ad_whois := whois_replace w (ad_whois d)\<rparr>
      | DOMAIN_NAME \<Rightarrow>
          d\<lparr>ad_isWhoisHostnameResolved := True, ad_whois := whois_replace w (ad_whois d)\<rparr>
      | AUTONOMOUS_SYSTEM \<Rightarrow>
          d\<lparr>ad_isWhoisASResolved := True, ad_whois := whois_replace w (ad_whois d)\<rparr>)"

section \<open>Ports\<close>

datatype EPortType = UDP | TCP

datatype Port = Port (port_type: EPortType) (port_number: u16)

fun portTypeName :: "EPortType \<Rightarrow> KString" where
  "portTypeName UDP = ''UDP''"
| "portTypeName TCP = ''TCP''"

record PortData =
  pd_port :: Port
  pd_isServiceResolved :: bool
  pd_service :: string
  pd_numeric :: string

definition PortData_create :: "Port \<Rightarrow> PortData" where
  "PortData_create port =
     \<lparr>pd_port = port, pd_isServiceResolved = False, pd_service = [],
      pd_numeric = to_string (unat (port_number port))\<rparr>"

definition setPort :: "Port \<Rightarrow> PortData \<Rightarrow> PortData" where
  "setPort port d = d\<lparr>pd_port := port\<rparr>"

definition isServiceAvailable :: "PortData \<Rightarrow> bool" where
  "isServiceAvailable d = (pd_service d \<noteq> [])"

definition port_getString :: "PortData \<Rightarrow> string" where
  "port_getString d = (if isServiceAvailable d then pd_service d else pd_numeric d)"

definition setResolvedService :: "string \<Rightarrow> PortData \<Rightarrow> PortData" where
  "setResolvedService service d = d\<lparr>pd_service := service, pd_isServiceResolved := True\<rparr>"

text \<open>\<^verbatim>\<open>Util.cpp\<close>: an IPv6 address is bracketed before the port.\<close>

definition AddressPortToString :: "inet \<Rightarrow> IAddress \<Rightarrow> u16 \<Rightarrow> string" where
  "AddressPortToString net address portNumber =
     (if address_getType address = IP6
      then ''['' @ address_toString net address @ '']''
      else address_toString net address)
     @ '':'' @ to_string (unat portNumber)"

section \<open>Lemmas\<close>

lemma getWhois_replace:
  "getWhois_loop t (whois_replace w ds) = (if t = wd_type w then w else getWhois_loop t ds)"
  by (induction ds) auto

lemma available_replace:
  "isWhoisAvailable_loop t (whois_replace w ds) =
     (if t = wd_type w then \<not> wd_hasStatus w \<and> wd_data w \<noteq> [] else isWhoisAvailable_loop t ds)"
  by (induction ds) auto

lemma types_replace:
  "map wd_type (whois_replace w ds) =
     (if wd_type w \<in> wd_type ` set ds then map wd_type ds else map wd_type ds @ [wd_type w])"
  by (induction ds) (auto simp: image_iff)

text \<open>
  \<^verbatim>\<open>AddressData::setWhois\<close> stores a record under its type: afterwards that record is
  what \<open>getWhois\<close> returns for the type, records of other types are untouched, there is still at
  most one record per type, and data of unknown type is ignored.
\<close>

theorem setWhois_stores:
  assumes "distinct (map wd_type (ad_whois d))"
  shows "distinct (map wd_type (ad_whois (setWhois w d)))
    \<and> getWhois t (setWhois w d) = (if wd_type w \<noteq> UNKNOWN \<and> t = wd_type w then w else getWhois t d)
    \<and> (wd_type w = UNKNOWN \<longrightarrow> setWhois w d = d)
    \<and> (wd_type w \<noteq> UNKNOWN \<longrightarrow>
        isWhoisAvailable (wd_type w) (setWhois w d) = (\<not> wd_hasStatus w \<and> wd_data w \<noteq> []))"
proof -
  have "distinct (map wd_type (whois_replace w (ad_whois d)))"
    using assms by (auto simp: types_replace simp del: map_map)
  with assms show ?thesis
    by (cases "wd_type w")
      (auto simp: setWhois_def getWhois_def isWhoisAvailable_def getWhois_replace available_replace)
qed

text \<open>
  An instance of \<open>inet\<close> that satisfies the documented round trip, for witnesses: an address is
  printed as one decimal number.
\<close>

definition raw_to_nat :: "RawAddr \<Rightarrow> nat" where
  "raw_to_nat r = (case r of (a, b, c, d) \<Rightarrow>
     ((unat a * 2 ^ 32 + unat b) * 2 ^ 32 + unat c) * 2 ^ 32 + unat d)"

definition nat_to_raw :: "nat \<Rightarrow> RawAddr" where
  "nat_to_raw n = (of_nat (n div 2 ^ 96), of_nat (n div 2 ^ 64 mod 2 ^ 32),
     of_nat (n div 2 ^ 32 mod 2 ^ 32), of_nat (n mod 2 ^ 32))"

definition sample_net :: inet where
  "sample_net = \<lparr>inet_ntop4 = (\<lambda>a. Some (to_string (unat a))),
     inet_ntop6 = (\<lambda>r. Some (to_string (raw_to_nat r))),
     inet_pton4 = (\<lambda>s. Some (of_nat (decimal_value s))),
     inet_pton6 = (\<lambda>s. Some (nat_to_raw (decimal_value s)))\<rparr>"

lemma nat_to_raw_inverse: "nat_to_raw (raw_to_nat r) = r"
proof -
  obtain a b c d where r: "r = (a, b, c, d)" by (cases r)
  have w: "unat x < 4294967296" for x :: u32 using unsigned_less [of x] by simp
  let ?n = "((unat a * 4294967296 + unat b) * 4294967296 + unat c) * 4294967296 + unat d"
  have "?n mod 4294967296 = unat d" using w [of d] by (simp only: mod_mult_self3 mod_less)
  moreover have n1: "?n div 4294967296 = (unat a * 4294967296 + unat b) * 4294967296 + unat c"
    using w [of d] by simp
  moreover have n2: "?n div 18446744073709551616 = unat a * 4294967296 + unat b"
    using w [of c] n1 div_mult2_eq [of ?n 4294967296 4294967296] by simp
  moreover have "?n div 79228162514264337593543950336 = unat a"
    using w [of b] n2 div_mult2_eq [of ?n 18446744073709551616 4294967296] by simp
  moreover have "((unat a * 4294967296 + unat b) * 4294967296 + unat c) mod 4294967296 = unat c"
    using w [of c] by (simp only: mod_mult_self3 mod_less)
  ultimately show ?thesis using w [of b] by (simp add: r nat_to_raw_def raw_to_nat_def)
qed

lemma sample_net_roundtrip: "inet_roundtrip sample_net"
  by (simp add: inet_roundtrip_def sample_net_def decimal_value_to_string nat_to_raw_inverse
      to_string_no_nul)

theorem setWhois_stores_witness:
  "getWhois DOMAIN_NAME
     (setWhois \<lparr>wd_type = DOMAIN_NAME, wd_hasStatus = False, wd_data = ''x''\<rparr>
       (AddressData_create sample_net (AddressIP4 1)))
   = \<lparr>wd_type = DOMAIN_NAME, wd_hasStatus = False, wd_data = ''x''\<rparr>"
proof -
  have "distinct (map wd_type (ad_whois (AddressData_create sample_net (AddressIP4 1))))"
    by (simp add: AddressData_create_def)
  from setWhois_stores [OF this, of "\<lparr>wd_type = DOMAIN_NAME, wd_hasStatus = False, wd_data = ''x''\<rparr>"]
  show ?thesis by simp
qed

end
