(* ===== verification/Connection.thy ===== *)
theory Connection
  imports Address
begin

text \<open>
  \<^verbatim>\<open>Connection.hpp\<close> and the name tables of \<^verbatim>\<open>Connection.cpp\<close>: connection types,
  actions, sort modes, update flags, protocol states, connections and their data. A connection holds
  pointers to the data of its two addresses and two ports. Those nodes are never removed from their
  containers, so a pointer is modelled by the key of the node, and comparing pointers is comparing
  keys.
\<close>

section \<open>Enumerations and flags\<close>

datatype EConnectionType = UDP4 | UDP6 | TCP4 | TCP6

datatype EConnectionAction = CREATE | UPDATE | REMOVE

datatype EConnectionSortMode =
  NONE | PROTO | PROTO_STATE
| SRC_ADDRESS | SRC_HOSTNAME | SRC_ASN | SRC_COUNTRY | SRC_PORT | SRC_SERVICE
| DST_ADDRESS | DST_HOSTNAME | DST_ASN | DST_COUNTRY | DST_PORT | DST_SERVICE
| RX_PACKETS | TX_PACKETS | RX_BYTES | TX_BYTES | RX_SPEED | TX_SPEED

text \<open>The order of the enumerators, which the comparison functions use.\<close>

fun type_ordinal :: "EConnectionType \<Rightarrow> nat" where
  "type_ordinal UDP4 = 0"
| "type_ordinal UDP6 = 1"
| "type_ordinal TCP4 = 2"
| "type_ordinal TCP6 = 3"

instantiation EConnectionType :: linorder
begin

definition less_eq_EConnectionType :: "EConnectionType \<Rightarrow> EConnectionType \<Rightarrow> bool" where
  "a \<le> b \<longleftrightarrow> type_ordinal a \<le> type_ordinal b"

definition less_EConnectionType :: "EConnectionType \<Rightarrow> EConnectionType \<Rightarrow> bool" where
  "a < b \<longleftrightarrow> type_ordinal a < type_ordinal b"

instance
proof
  show "a = b" if "a \<le> b" and "b \<le> a" for a b :: EConnectionType
    using that by (cases a; cases b) (simp_all add: less_eq_EConnectionType_def)
qed (auto simp: less_eq_EConnectionType_def less_EConnectionType_def)

end

fun address_ordinal :: "EAddressType \<Rightarrow> nat" where
  "address_ordinal IP4 = 0"
| "address_ordinal IP6 = 1"

instantiation EAddressType :: linorder
begin

definition less_eq_EAddressType :: "EAddressType \<Rightarrow> EAddressType \<Rightarrow> bool" where
  "a \<le> b \<longleftrightarrow> address_ordinal a \<le> address_ordinal b"

definition less_EAddressType :: "EAddressType \<Rightarrow> EAddressType \<Rightarrow> bool" where
  "a < b \<longleftrightarrow> address_ordinal a < address_ordinal b"

instance
proof
  show "a = b" if "a \<le> b" and "b \<le> a" for a b :: EAddressType
    using that by (cases a; cases b) (simp_all add: less_eq_EAddressType_def)
qed (auto simp: less_eq_EAddressType_def less_EAddressType_def)

end

definition F_PROTO :: flags where "F_PROTO = push_bit 0 1"
definition F_PROTO_STATE :: flags where "F_PROTO_STATE = push_bit 1 1"
definition F_SRC_ADDRESS :: flags where "F_SRC_ADDRESS = push_bit 2 1"
definition F_DST_ADDRESS :: flags where "F_DST_ADDRESS = push_bit 3 1"
definition F_SRC_PORT :: flags where "F_SRC_PORT = push_bit 4 1"
definition F_DST_PORT :: flags where "F_DST_PORT = push_bit 5 1"
definition F_RX_PACKETS :: flags where "F_RX_PACKETS = push_bit 6 1"
definition F_TX_PACKETS :: flags where "F_TX_PACKETS = push_bit 7 1"
definition F_RX_BYTES :: flags where "F_RX_BYTES = push_bit 8 1"
definition F_TX_BYTES :: flags where "F_TX_BYTES = push_bit 9 1"
definition F_RX_SPEED :: flags where "F_RX_SPEED = push_bit 10 1"
definition F_TX_SPEED :: flags where "F_TX_SPEED = push_bit 11 1"

lemmas flag_defs = F_PROTO_def F_PROTO_STATE_def F_SRC_ADDRESS_def F_DST_ADDRESS_def F_SRC_PORT_def
  F_DST_PORT_def F_RX_PACKETS_def F_TX_PACKETS_def F_RX_BYTES_def F_TX_BYTES_def F_RX_SPEED_def
  F_TX_SPEED_def

text \<open>The C++ test \<open>if (flags & FLAG)\<close>.\<close>

definition has_flag :: "flags \<Rightarrow> flags \<Rightarrow> bool" where
  "has_flag f g = (f AND g \<noteq> 0)"

section \<open>Protocol states\<close>

definition UDP_LISTEN :: int where "UDP_LISTEN = - 1"
definition UDP_UNKNOWN :: int where "UDP_UNKNOWN = 0"

definition TCP_LISTEN :: int where "TCP_LISTEN = - 1"
definition TCP_UNKNOWN :: int where "TCP_UNKNOWN = 0"
definition TCP_SYN_SENT :: int where "TCP_SYN_SENT = 1"
definition TCP_SYN_RECEIVED :: int where "TCP_SYN_RECEIVED = 2"
definition TCP_ESTABLISHED :: int where "TCP_ESTABLISHED = 3"
definition TCP_FIN_WAIT :: int where "TCP_FIN_WAIT = 4"
definition TCP_FIN_WAIT_1 :: int where "TCP_FIN_WAIT_1 = 5"
definition TCP_FIN_WAIT_2 :: int where "TCP_FIN_WAIT_2 = 6"
definition TCP_CLOSE_WAIT :: int where "TCP_CLOSE_WAIT = 7"
definition TCP_CLOSING :: int where "TCP_CLOSING = 8"
definition TCP_LAST_ACK :: int where "TCP_LAST_ACK = 9"
definition TCP_TIME_WAIT :: int where "TCP_TIME_WAIT = 10"
definition TCP_CLOSED :: int where "TCP_CLOSED = 11"

lemmas tcp_state_defs = TCP_LISTEN_def TCP_UNKNOWN_def TCP_SYN_SENT_def TCP_SYN_RECEIVED_def
  TCP_ESTABLISHED_def TCP_FIN_WAIT_def TCP_FIN_WAIT_1_def TCP_FIN_WAIT_2_def TCP_CLOSE_WAIT_def
  TCP_CLOSING_def TCP_LAST_ACK_def TCP_TIME_WAIT_def TCP_CLOSED_def
lemmas udp_state_defs = UDP_LISTEN_def UDP_UNKNOWN_def

definition g_connectionTypeMap :: "(KString \<times> EConnectionType) list" where
  "g_connectionTypeMap = [(''udp4'', UDP4), (''udp6'', UDP6), (''tcp4'', TCP4), (''tcp6'', TCP6)]"

definition g_connectionActionMap :: "(KString \<times> EConnectionAction) list" where
  "g_connectionActionMap = [(''CREATE'', CREATE), (''UPDATE'', UPDATE), (''REMOVE'', REMOVE)]"

definition g_udpStateMap :: "(KString \<times> int) list" where
  "g_udpStateMap = [(''LISTEN'', UDP_LISTEN)]"

definition g_tcpStateMap :: "(KString \<times> int) list" where
  "g_tcpStateMap =
     [(''LISTEN'', TCP_LISTEN), (''SYN_SENT'', TCP_SYN_SENT), (''SYN_RECEIVED'', TCP_SYN_RECEIVED),
      (''ESTABLISHED'', TCP_ESTABLISHED), (''FIN_WAIT'', TCP_FIN_WAIT),
      (''FIN_WAIT_1'', TCP_FIN_WAIT_1), (''FIN_WAIT_2'', TCP_FIN_WAIT_2),
      (''CLOSE_WAIT'', TCP_CLOSE_WAIT), (''CLOSING'', TCP_CLOSING), (''LAST_ACK'', TCP_LAST_ACK),
      (''TIME_WAIT'', TCP_TIME_WAIT), (''CLOSED'', TCP_CLOSED)]"

fun TypeToString :: "EConnectionType \<Rightarrow> KString" where
  "TypeToString UDP4 = ''udp4''"
| "TypeToString UDP6 = ''udp6''"
| "TypeToString TCP4 = ''tcp4''"
| "TypeToString TCP6 = ''tcp6''"

fun ActionToString :: "EConnectionAction \<Rightarrow> KString" where
  "ActionToString CREATE = ''CREATE''"
| "ActionToString UPDATE = ''UPDATE''"
| "ActionToString REMOVE = ''REMOVE''"

definition UDP_StateToString :: "int \<Rightarrow> KString" where
  "UDP_StateToString state =
     (if state = UDP_UNKNOWN then '''' else if state = UDP_LISTEN then ''LISTEN'' else ''?'')"

definition TCP_StateToString :: "int \<Rightarrow> KString" where
  "TCP_StateToString state =
     (if state = TCP_UNKNOWN then ''?''
      else if state = TCP_LISTEN then ''LISTEN''
      else if state = TCP_SYN_SENT then ''SYN_SENT''
      else if state = TCP_SYN_RECEIVED then ''SYN_RECEIVED''
      else if state = TCP_ESTABLISHED then ''ESTABLISHED''
      else if state = TCP_FIN_WAIT then ''FIN_WAIT''
      else if state = TCP_FIN_WAIT_1 then ''FIN_WAIT_1''
      else if state = TCP_FIN_WAIT_2 then ''FIN_WAIT_2''
      else if state = TCP_CLOSE_WAIT then ''CLOSE_WAIT''
      else if state = TCP_CLOSING then ''CLOSING''
      else if state = TCP_LAST_ACK then ''LAST_ACK''
      else if state = TCP_TIME_WAIT then ''TIME_WAIT''
      else if state = TCP_CLOSED then ''CLOSED''
      else ''?'')"

definition TypeToEnum :: "KString \<Rightarrow> EConnectionType result" where
  "TypeToEnum s = (case map_of g_connectionTypeMap s of
     Some t \<Rightarrow> Inr t | None \<Rightarrow> Inl (invalid_argument ''Unknown connection type''))"

definition ActionToEnum :: "KString \<Rightarrow> EConnectionAction result" where
  "ActionToEnum s = (case map_of g_connectionActionMap s of
     Some a \<Rightarrow> Inr a | None \<Rightarrow> Inl (invalid_argument ''Unknown connection action''))"

definition UDP_StateToEnum :: "KString \<Rightarrow> int" where
  "UDP_StateToEnum s =
     (if s = [] \<or> s = ''?'' then UDP_UNKNOWN
      else case map_of g_udpStateMap s of Some st \<Rightarrow> st | None \<Rightarrow> UDP_UNKNOWN)"

definition TCP_StateToEnum :: "KString \<Rightarrow> int" where
  "TCP_StateToEnum s =
     (if s = [] \<or> s = ''?'' then TCP_UNKNOWN
      else case map_of g_tcpStateMap s of Some st \<Rightarrow> st | None \<Rightarrow> TCP_UNKNOWN)"

fun StateToString :: "int \<Rightarrow> EConnectionType \<Rightarrow> KString" where
  "StateToString state UDP4 = UDP_StateToString state"
| "StateToString state UDP6 = UDP_StateToString state"
| "StateToString state TCP4 = TCP_StateToString state"
| "StateToString state TCP6 = TCP_StateToString state"

section \<open>Connections\<close>

fun CreateType :: "EAddressType \<Rightarrow> EPortType \<Rightarrow> EConnectionType" where
  "CreateType IP4 UDP = UDP4"
| "CreateType IP4 TCP = TCP4"
| "CreateType IP6 UDP = UDP6"
| "CreateType IP6 TCP = TCP6"

definition IsProtoEqual :: "EConnectionType \<Rightarrow> EConnectionType \<Rightarrow> bool" where
  "IsProtoEqual a b = (case a of
     UDP4 \<Rightarrow> b = UDP4 \<or> b = UDP6
   | UDP6 \<Rightarrow> b = UDP4 \<or> b = UDP6
   | TCP4 \<Rightarrow> b = TCP4 \<or> b = TCP6
   | TCP6 \<Rightarrow> b = TCP4 \<or> b = TCP6)"

datatype Connection =
  Connection (c_type: EConnectionType) (c_srcAddr: IAddress) (c_srcPort: Port)
    (c_dstAddr: IAddress) (c_dstPort: Port)

definition Connection_create :: "IAddress \<Rightarrow> Port \<Rightarrow> IAddress \<Rightarrow> Port \<Rightarrow> Connection" where
  "Connection_create srcAddr srcPort dstAddr dstPort =
     Connection (CreateType (address_getType srcAddr) (port_type srcPort))
       srcAddr srcPort dstAddr dstPort"

definition connection_hasPorts :: "Connection \<Rightarrow> bool" where
  "connection_hasPorts c = (case c_type c of UDP4 \<Rightarrow> True | UDP6 \<Rightarrow> True | TCP4 \<Rightarrow> True | TCP6 \<Rightarrow> True)"

definition connection_isEqual :: "Connection \<Rightarrow> Connection \<Rightarrow> bool" where
  "connection_isEqual a b \<longleftrightarrow>
     c_srcAddr a = c_srcAddr b \<and> c_dstAddr a = c_dstAddr b \<and>
     (c_type a = c_type b \<and> c_srcPort a = c_srcPort b \<and> c_dstPort a = c_dstPort b)"

record ConnectionTraffic =
  rxPackets :: u64
  txPackets :: u64
  rxBytes :: u64
  txBytes :: u64
  rxSpeed :: u64
  txSpeed :: u64

definition ConnectionTraffic_zero :: ConnectionTraffic where
  "ConnectionTraffic_zero =
     \<lparr>rxPackets = 0, txPackets = 0, rxBytes = 0, txBytes = 0, rxSpeed = 0, txSpeed = 0\<rparr>"

record ConnectionData =
  cd_connection :: Connection
  cd_traffic :: ConnectionTraffic
  cd_state :: int
  cd_hasPorts :: bool
  cd_typeName :: KString

definition ConnectionData_create :: "Connection \<Rightarrow> ConnectionTraffic \<Rightarrow> int \<Rightarrow> ConnectionData" where
  "ConnectionData_create c traffic state =
     \<lparr>cd_connection = c, cd_traffic = traffic, cd_state = state,
      cd_hasPorts = connection_hasPorts c, cd_typeName = TypeToString (c_type c)\<rparr>"

definition setConnection :: "Connection \<Rightarrow> ConnectionData \<Rightarrow> ConnectionData" where
  "setConnection c d = d\<lparr>cd_connection := c\<rparr>"

definition setState :: "int \<Rightarrow> ConnectionData \<Rightarrow> ConnectionData" where
  "setState state d = d\<lparr>cd_state := state\<rparr>"

definition getStateName :: "ConnectionData \<Rightarrow> KString" where
  "getStateName d = StateToString (cd_state d) (c_type (cd_connection d))"

section \<open>Lemmas\<close>

lemma connection_isEqual_iff: "connection_isEqual a b \<longleftrightarrow> a = b"
  by (cases a; cases b) (auto simp: connection_isEqual_def)

lemma hasPorts_True [simp]: "connection_hasPorts c"
  by (simp add: connection_hasPorts_def split: EConnectionType.split)

lemma has_flag_0: "\<not> has_flag 0 g"
  by (simp add: has_flag_def)

lemma has_flag_or: "has_flag (f OR g) h \<longleftrightarrow> has_flag f h \<or> has_flag g h"
  by (simp add: has_flag_def bit.conj_disj_distrib2 or_eq_0_iff)

lemma has_flag_bit: "has_flag f (push_bit n 1) \<longleftrightarrow> bit f n"
  by (simp add: has_flag_def push_bit_eq_mult and_exp_eq_0_iff_not_bit)

text \<open>The states the program uses for each protocol.\<close>

fun state_ok :: "EConnectionType \<Rightarrow> int \<Rightarrow> bool" where
  "state_ok UDP4 s = (- 1 \<le> s \<and> s \<le> 0)"
| "state_ok UDP6 s = (- 1 \<le> s \<and> s \<le> 0)"
| "state_ok TCP4 s = (- 1 \<le> s \<and> s \<le> 11)"
| "state_ok TCP6 s = (- 1 \<le> s \<and> s \<le> 11)"

fun StateToEnum_of :: "EConnectionType \<Rightarrow> KString \<Rightarrow> int" where
  "StateToEnum_of UDP4 s = UDP_StateToEnum s"
| "StateToEnum_of UDP6 s = UDP_StateToEnum s"
| "StateToEnum_of TCP4 s = TCP_StateToEnum s"
| "StateToEnum_of TCP6 s = TCP_StateToEnum s"

lemma tcp_state_cases:
  "- 1 \<le> s \<Longrightarrow> s \<le> 11 \<Longrightarrow> s \<in> {- 1, 0, 1, 2, 3, 4, 5, 6, 7, 8, 9, 10, 11 :: int}"
  by (simp only: insert_iff empty_iff) presburger

lemma tcp_state_roundtrip: "- 1 \<le> s \<Longrightarrow> s \<le> 11 \<Longrightarrow> TCP_StateToEnum (TCP_StateToString s) = s"
  by (drule (1) tcp_state_cases)
    (auto simp: TCP_StateToEnum_def TCP_StateToString_def tcp_state_defs g_tcpStateMap_def)

lemma udp_state_roundtrip: "- 1 \<le> s \<Longrightarrow> s \<le> 0 \<Longrightarrow> UDP_StateToEnum (UDP_StateToString s) = s"
  by (auto simp: UDP_StateToEnum_def UDP_StateToString_def udp_state_defs g_udpStateMap_def)

lemma state_roundtrip: "state_ok t s \<Longrightarrow> StateToEnum_of t (StateToString s t) = s"
  by (cases t) (auto simp: tcp_state_roundtrip udp_state_roundtrip)

lemma type_roundtrip: "TypeToEnum (TypeToString t) = Inr t"
  by (cases t) (simp_all add: TypeToEnum_def g_connectionTypeMap_def)

lemma action_roundtrip: "ActionToEnum (ActionToString a) = Inr a"
  by (cases a) (simp_all add: ActionToEnum_def g_connectionActionMap_def)

lemma type_no_nul: "CHR 0x00 \<notin> set (TypeToString t)"
  by (cases t) simp_all

lemma action_no_nul: "CHR 0x00 \<notin> set (ActionToString a)"
  by (cases a) simp_all

lemma state_no_nul: "CHR 0x00 \<notin> set (StateToString s t)"
  by (cases t) (simp_all add: TCP_StateToString_def UDP_StateToString_def)

lemmas names_no_nul = type_no_nul action_no_nul state_no_nul

text \<open>
  The wire names of connection types, actions and states are faithful: each parses back to the
  value it was printed from, for every state the program uses with the protocol at hand.
\<close>

theorem connection_names_roundtrip:
  "TypeToEnum (TypeToString t) = Inr t \<and> ActionToEnum (ActionToString a) = Inr a
    \<and> (state_ok t s \<longrightarrow> StateToEnum_of t (StateToString s t) = s)"
  by (simp add: type_roundtrip action_roundtrip state_roundtrip)

theorem connection_names_roundtrip_witness:
  "state_ok TCP6 TCP_TIME_WAIT
    \<and> StateToEnum_of TCP6 (StateToString TCP_TIME_WAIT TCP6) = TCP_TIME_WAIT"
  using connection_names_roundtrip [of TCP6 CREATE TCP_TIME_WAIT] by (simp add: TCP_TIME_WAIT_def)

end
