(* ===== verification/StdMap.thy ===== *)
theory StdMap
  imports Prelude
begin

text \<open>
  \<open>std::unordered_map\<close> as an association list in iteration order. The iteration order of the
  real container is unspecified; the model puts a new node at the front, and no property of the
  development depends on the position. A node never moves while it is in the container, so a pointer
  to a mapped value is modelled by the key of its node, and a write through such a pointer by
  \<open>um_write\<close>. The contract the components use is the locale \<open>node_map\<close>.
\<close>

type_synonym ('k, 'v) umap = "('k \<times> 'v) list"

definition um_find :: "'k \<Rightarrow> ('k, 'v) umap \<Rightarrow> 'v option" where
  "um_find k m = map_of m k"

definition um_emplace :: "'k \<Rightarrow> 'v \<Rightarrow> ('k, 'v) umap \<Rightarrow> ('k, 'v) umap" where
  "um_emplace k v m = (case um_find k m of None \<Rightarrow> (k, v) # m | Some _ \<Rightarrow> m)"

definition um_erase :: "'k \<Rightarrow> ('k, 'v) umap \<Rightarrow> ('k, 'v) umap" where
  "um_erase k m = filter (\<lambda>p. fst p \<noteq> k) m"

definition um_write :: "'k \<Rightarrow> ('v \<Rightarrow> 'v) \<Rightarrow> ('k, 'v) umap \<Rightarrow> ('k, 'v) umap" where
  "um_write k f m = map (\<lambda>(k', v). (k', if k' = k then f v else v)) m"

definition um_keys :: "('k, 'v) umap \<Rightarrow> 'k list" where
  "um_keys m = map fst m"

definition um_wf :: "('k, 'v) umap \<Rightarrow> bool" where
  "um_wf m = distinct (um_keys m)"

locale node_map =
  fixes find :: "'k \<Rightarrow> 'm \<Rightarrow> 'v option"
    and emplace :: "'k \<Rightarrow> 'v \<Rightarrow> 'm \<Rightarrow> 'm"
    and erase :: "'k \<Rightarrow> 'm \<Rightarrow> 'm"
    and put :: "'k \<Rightarrow> ('v \<Rightarrow> 'v) \<Rightarrow> 'm \<Rightarrow> 'm"
    and keys :: "'m \<Rightarrow> 'k list"
    and wf :: "'m \<Rightarrow> bool"
  assumes wf_emplace: "wf m \<Longrightarrow> wf (emplace k v m)"
    and wf_erase: "wf m \<Longrightarrow> wf (erase k m)"
    and wf_write: "wf (put k f m) = wf m"
    and find_emplace:
      "find k' (emplace k v m) = (if k' = k \<and> find k m = None then Some v else find k' m)"
    and find_erase: "find k' (erase k m) = (if k' = k then None else find k' m)"
    and find_write: "find k' (put k f m) = (if k' = k then map_option f (find k m) else find k' m)"
    and distinct_keys: "wf m = distinct (keys m)"
    and set_keys: "set (keys m) = {k. find k m \<noteq> None}"
    and keys_write: "keys (put k f m) = keys m"
begin

lemma set_keys_emplace: "set (keys (emplace k v m)) = insert k (set (keys m))"
  by (auto simp: set_keys find_emplace)

lemma set_keys_erase: "set (keys (erase k m)) = set (keys m) - {k}"
  by (auto simp: set_keys find_erase split: if_splits)

lemma size_keys_emplace:
  assumes "wf m"
  shows "length (keys (emplace k v m)) = length (keys m) + (if find k m = None then 1 else 0)"
proof -
  from assms have "length (keys m) = card (set (keys m))"
    and "length (keys (emplace k v m)) = card (insert k (set (keys m)))"
    using wf_emplace [OF assms] set_keys_emplace
    by (metis distinct_keys distinct_card)+
  moreover have "k \<in> set (keys m) \<longleftrightarrow> find k m \<noteq> None" by (simp add: set_keys)
  ultimately show ?thesis by (simp add: card_insert_if)
qed

lemma size_keys_erase:
  assumes "wf m" and "find k m \<noteq> None"
  shows "Suc (length (keys (erase k m))) = length (keys m)"
proof -
  from assms(2) have k: "k \<in> set (keys m)" by (simp add: set_keys)
  have "length (keys m) = card (set (keys m))"
    and "length (keys (erase k m)) = card (set (keys m) - {k})"
    using assms(1) wf_erase [OF assms(1)] set_keys_erase by (metis distinct_keys distinct_card)+
  with k show ?thesis by (metis List.finite_set card_Suc_Diff1)
qed

end

lemma map_of_filter_neq: "map_of (filter (\<lambda>p. fst p \<noteq> k) m) k' = (if k' = k then None else map_of m k')"
  by (induction m) auto

lemma map_of_map_write:
  "map_of (map (\<lambda>(k', v). (k', if k' = k then f v else v)) m) k'
     = (if k' = k then map_option f (map_of m k) else map_of m k')"
  by (induction m) auto

interpretation um: node_map um_find um_emplace um_erase um_write um_keys um_wf
proof
  show "um_wf (um_erase k m)" if "um_wf m" for m :: "('a, 'b) umap" and k
    using that by (simp add: um_wf_def um_keys_def um_erase_def distinct_map_filter)
  show "um_wf (um_emplace k v m)" if "um_wf m" for m :: "('a, 'b) umap" and k v
    using that by (auto simp: um_wf_def um_keys_def um_emplace_def um_find_def map_of_eq_None_iff
        split: option.split)
  show "um_keys (um_write k f m) = um_keys m" for m :: "('a, 'b) umap" and k f
    by (simp add: um_keys_def um_write_def case_prod_unfold)
  then show "um_wf (um_write k f m) = um_wf m" for m :: "('a, 'b) umap" and k f
    by (simp add: um_wf_def)
  show "set (um_keys m) = {k. um_find k m \<noteq> None}" for m :: "('a, 'b) umap"
    by (auto simp: um_keys_def um_find_def map_of_eq_None_iff)
qed (auto simp: um_find_def um_emplace_def um_erase_def um_write_def um_wf_def map_of_filter_neq
    map_of_map_write split: option.split)

end
