(* ===== verification/Storage.thy ===== *)
theory Storage
  imports Connection StdMap
begin

text \<open>
  \<^verbatim>\<open>ConnectionStorage.hpp\<close>: the four containers that own connections, addresses and
  ports. A pointer to a mapped value is the key of its node; reading through a pointer whose node is
  gone is undefined behaviour and here yields a fixed or unspecified value, on which nothing rests:
  the invariants of the clients exclude such reads. The invariant
  \<open>storage_wf\<close> says that every stored value points back to its own key and that every stored
  connection refers to stored addresses and ports.
\<close>

record ConnectionStorage =
  m_connectionMap :: "(Connection, ConnectionData) umap"
  m_addressIP4Map :: "(u32, AddressData) umap"
  m_addressIP6Map :: "(RawAddr, AddressData) umap"
  m_portMap :: "(Port, PortData) umap"

definition ConnectionStorage_init :: ConnectionStorage where
  "ConnectionStorage_init =
     \<lparr>m_connectionMap = [], m_addressIP4Map = [], m_addressIP6Map = [], m_portMap = []\<rparr>"

text \<open>The additions return the pointer, whether a node was created, and the new state.\<close>

definition addIP4Address ::
  "inet \<Rightarrow> u32 \<Rightarrow> ConnectionStorage \<Rightarrow> (IAddress \<times> bool) \<times> ConnectionStorage" where
  "addIP4Address net a st =
     (let isNew = (um_find a (m_addressIP4Map st) = None);
          m = um_emplace a (AddressData_create net (AddressIP4 a)) (m_addressIP4Map st);
          m' = (if isNew then um_write a (setAddress (AddressIP4 a)) m else m)
      in ((AddressIP4 a, isNew), st\<lparr>m_addressIP4Map := m'\<rparr>))"

definition addIP6Address ::
  "inet \<Rightarrow> RawAddr \<Rightarrow> ConnectionStorage \<Rightarrow> (IAddress \<times> bool) \<times> ConnectionStorage" where
  "addIP6Address net a st =
     (let isNew = (um_find a (m_addressIP6Map st) = None);
          m = um_emplace a (AddressData_create net (AddressIP6 a)) (m_addressIP6Map st);
          m' = (if isNew then um_write a (setAddress (AddressIP6 a)) m else m)
      in ((AddressIP6 a, isNew), st\<lparr>m_addressIP6Map := m'\<rparr>))"

definition addPort :: "Port \<Rightarrow> ConnectionStorage \<Rightarrow> (Port \<times> bool) \<times> ConnectionStorage" where
  "addPort port st =
     (let isNew = (um_find port (m_portMap st) = None);
          m = um_emplace port (PortData_create port) (m_portMap st);
          m' = (if isNew then um_write port (setPort port) m else m)
      in ((port, isNew), st\<lparr>m_portMap := m'\<rparr>))"

definition addConnection ::
  "Connection \<Rightarrow> ConnectionTraffic \<Rightarrow> int \<Rightarrow> ConnectionStorage
     \<Rightarrow> (Connection \<times> bool) \<times> ConnectionStorage" where
  "addConnection c traffic state st =
     (let isNew = (um_find c (m_connectionMap st) = None);
          m = um_emplace c (ConnectionData_create c traffic state) (m_connectionMap st);
          m' = (if isNew then um_write c (setConnection c) m else m)
      in ((c, isNew), st\<lparr>m_connectionMap := m'\<rparr>))"

text \<open>The returned pointer is used for identity only: its node is gone.\<close>

definition removeConnection ::
  "Connection \<Rightarrow> ConnectionStorage \<Rightarrow> Connection option \<times> ConnectionStorage" where
  "removeConnection c st =
     (case um_find c (m_connectionMap st) of
        None \<Rightarrow> (None, st)
      | Some _ \<Rightarrow> (Some c, st\<lparr>m_connectionMap := um_erase c (m_connectionMap st)\<rparr>))"

definition clearConnections :: "ConnectionStorage \<Rightarrow> ConnectionStorage" where
  "clearConnections st = st\<lparr>m_connectionMap := []\<rparr>"

definition getConnection :: "Connection \<Rightarrow> ConnectionStorage \<Rightarrow> Connection option" where
  "getConnection c st = (case um_find c (m_connectionMap st) of None \<Rightarrow> None | Some _ \<Rightarrow> Some c)"

definition getIP4Address :: "u32 \<Rightarrow> ConnectionStorage \<Rightarrow> IAddress option" where
  "getIP4Address a st =
     (case um_find a (m_addressIP4Map st) of None \<Rightarrow> None | Some _ \<Rightarrow> Some (AddressIP4 a))"

definition getIP6Address :: "RawAddr \<Rightarrow> ConnectionStorage \<Rightarrow> IAddress option" where
  "getIP6Address a st =
     (case um_find a (m_addressIP6Map st) of None \<Rightarrow> None | Some _ \<Rightarrow> Some (AddressIP6 a))"

definition storage_getPort :: "Port \<Rightarrow> ConnectionStorage \<Rightarrow> Port option" where
  "storage_getPort port st =
     (case um_find port (m_portMap st) of None \<Rightarrow> None | Some _ \<Rightarrow> Some port)"

text \<open>The connections in iteration order.\<close>

definition connections :: "ConnectionStorage \<Rightarrow> Connection list" where
  "connections st = um_keys (m_connectionMap st)"

definition getConnectionCount :: "ConnectionStorage \<Rightarrow> nat" where
  "getConnectionCount st = length (m_connectionMap st)"

definition dataCount :: "ConnectionStorage \<Rightarrow> nat" where
  "dataCount st = length (m_addressIP4Map st) + length (m_addressIP6Map st) + length (m_portMap st)"

section \<open>Reading and writing through pointers\<close>

definition derefConnection :: "ConnectionStorage \<Rightarrow> Connection \<Rightarrow> ConnectionData" where
  "derefConnection st c =
     (case um_find c (m_connectionMap st) of
        Some d \<Rightarrow> d | None \<Rightarrow> ConnectionData_create c ConnectionTraffic_zero 0)"

fun findAddress :: "ConnectionStorage \<Rightarrow> IAddress \<Rightarrow> AddressData option" where
  "findAddress st (AddressIP4 a) = um_find a (m_addressIP4Map st)"
| "findAddress st (AddressIP6 a) = um_find a (m_addressIP6Map st)"

definition derefAddress :: "ConnectionStorage \<Rightarrow> IAddress \<Rightarrow> AddressData" where
  "derefAddress st a = the (findAddress st a)"

definition derefPort :: "ConnectionStorage \<Rightarrow> Port \<Rightarrow> PortData" where
  "derefPort st p = the (um_find p (m_portMap st))"

definition writeConnection ::
  "Connection \<Rightarrow> (ConnectionData \<Rightarrow> ConnectionData) \<Rightarrow> ConnectionStorage \<Rightarrow> ConnectionStorage" where
  "writeConnection c f st = st\<lparr>m_connectionMap := um_write c f (m_connectionMap st)\<rparr>"

fun writeAddress ::
  "IAddress \<Rightarrow> (AddressData \<Rightarrow> AddressData) \<Rightarrow> ConnectionStorage \<Rightarrow> ConnectionStorage" where
  "writeAddress (AddressIP4 a) f st = st\<lparr>m_addressIP4Map := um_write a f (m_addressIP4Map st)\<rparr>"
| "writeAddress (AddressIP6 a) f st = st\<lparr>m_addressIP6Map := um_write a f (m_addressIP6Map st)\<rparr>"

definition writePort :: "Port \<Rightarrow> (PortData \<Rightarrow> PortData) \<Rightarrow> ConnectionStorage \<Rightarrow> ConnectionStorage" where
  "writePort p f st = st\<lparr>m_portMap := um_write p f (m_portMap st)\<rparr>"

section \<open>Invariant\<close>

definition address_live :: "ConnectionStorage \<Rightarrow> IAddress \<Rightarrow> bool" where
  "address_live st a = (findAddress st a \<noteq> None)"

definition port_live :: "ConnectionStorage \<Rightarrow> Port \<Rightarrow> bool" where
  "port_live st p = (um_find p (m_portMap st) \<noteq> None)"

definition refs_live :: "ConnectionStorage \<Rightarrow> Connection \<Rightarrow> bool" where
  "refs_live st c \<longleftrightarrow>
     address_live st (c_srcAddr c) \<and> address_live st (c_dstAddr c) \<and>
     port_live st (c_srcPort c) \<and> port_live st (c_dstPort c)"

definition storage_wf :: "ConnectionStorage \<Rightarrow> bool" where
  "storage_wf st \<longleftrightarrow>
     um_wf (m_connectionMap st) \<and> um_wf (m_addressIP4Map st) \<and> um_wf (m_addressIP6Map st) \<and>
     um_wf (m_portMap st) \<and>
     (\<forall>c d. um_find c (m_connectionMap st) = Some d \<longrightarrow>
        cd_connection d = c \<and> cd_hasPorts d = connection_hasPorts c
          \<and> cd_typeName d = TypeToString (c_type c) \<and> refs_live st c) \<and>
     (\<forall>a d. findAddress st a = Some d \<longrightarrow> ad_address d = a) \<and>
     (\<forall>p d. um_find p (m_portMap st) = Some d \<longrightarrow> pd_port d = p)"

section \<open>Lemmas\<close>

lemma connection_count_keys: "getConnectionCount st = length (connections st)"
  by (simp add: getConnectionCount_def connections_def um_keys_def)

lemma set_connections: "set (connections st) = {c. um_find c (m_connectionMap st) \<noteq> None}"
  by (simp add: connections_def um.set_keys)

lemma distinct_connections: "storage_wf st \<Longrightarrow> distinct (connections st)"
  by (simp add: storage_wf_def connections_def um.distinct_keys)

lemma storage_wf_init: "storage_wf ConnectionStorage_init"
proof -
  have "findAddress ConnectionStorage_init a = None" for a
    by (cases a) (simp_all add: ConnectionStorage_init_def um_find_def)
  then show ?thesis
    by (simp add: storage_wf_def ConnectionStorage_init_def um_find_def um_wf_def um_keys_def)
qed

lemma addConnection_fst: "fst (addConnection c t s st) = (c, c \<notin> set (connections st))"
  by (simp add: addConnection_def Let_def set_connections)

lemma addIP4Address_fst:
  "fst (addIP4Address net a st) = (AddressIP4 a, \<not> address_live st (AddressIP4 a))"
  by (simp add: addIP4Address_def Let_def address_live_def)

lemma addIP6Address_fst:
  "fst (addIP6Address net a st) = (AddressIP6 a, \<not> address_live st (AddressIP6 a))"
  by (simp add: addIP6Address_def Let_def address_live_def)

lemma addPort_fst: "fst (addPort p st) = (p, \<not> port_live st p)"
  by (simp add: addPort_def Let_def port_live_def)

text \<open>What each operation leaves of the connection map.\<close>

lemma find_addConnection [storage_simps]:
  "um_find c' (m_connectionMap (snd (addConnection c t s st))) =
     (if c' = c \<and> um_find c (m_connectionMap st) = None
      then Some (ConnectionData_create c t s) else um_find c' (m_connectionMap st))"
  by (auto simp: addConnection_def Let_def um.find_emplace um.find_write setConnection_def
      ConnectionData_create_def)

lemma set_connections_add [storage_simps]:
  "set (connections (snd (addConnection c t s st))) = insert c (set (connections st))"
  by (auto simp: set_connections find_addConnection split: if_splits)

lemma set_connections_remove [storage_simps]:
  "set (connections (snd (removeConnection c st))) = set (connections st) - {c}"
  by (auto simp: set_connections removeConnection_def um.find_erase split: option.splits if_splits)

lemma find_removeConnection [storage_simps]:
  "um_find c' (m_connectionMap (snd (removeConnection c st))) =
     (if c' = c then None else um_find c' (m_connectionMap st))"
  by (auto simp: removeConnection_def um.find_erase split: option.splits)

lemma removeConnection_fst:
  "fst (removeConnection c st) = (if c \<in> set (connections st) then Some c else None)"
  by (auto simp: removeConnection_def set_connections split: option.splits)

lemma connections_clear [storage_simps]: "connections (clearConnections st) = []"
  by (simp add: connections_def clearConnections_def um_keys_def)

lemma connections_writeConnection [storage_simps]: "connections (writeConnection c f st) = connections st"
  by (simp add: connections_def writeConnection_def um.keys_write)

lemma connections_writeAddress [storage_simps]: "connections (writeAddress a f st) = connections st"
  by (cases a) (simp_all add: connections_def)

lemma connections_writePort [storage_simps]: "connections (writePort p f st) = connections st"
  by (simp add: connections_def writePort_def)

lemma connections_addAddress [storage_simps]:
  "connections (snd (addIP4Address net a st)) = connections st"
  "connections (snd (addIP6Address net b st)) = connections st"
  "connections (snd (addPort p st)) = connections st"
  by (simp_all add: connections_def addIP4Address_def addIP6Address_def addPort_def Let_def)

lemma count_add:
  assumes "storage_wf st"
  shows "getConnectionCount (snd (addConnection c t s st))
    = getConnectionCount st + (if c \<in> set (connections st) then 0 else 1)"
proof -
  have "um_wf (m_connectionMap st)" using assms by (simp add: storage_wf_def)
  from um.size_keys_emplace [OF this] show ?thesis
    by (auto simp: connection_count_keys connections_def addConnection_def Let_def um.keys_write
        um.set_keys)
qed

lemma count_remove:
  assumes "storage_wf st" and "c \<in> set (connections st)"
  shows "Suc (getConnectionCount (snd (removeConnection c st))) = getConnectionCount st"
proof -
  have "um_wf (m_connectionMap st)" using assms(1) by (simp add: storage_wf_def)
  moreover have "um_find c (m_connectionMap st) \<noteq> None" using assms(2) by (simp add: set_connections)
  ultimately show ?thesis
    using um.size_keys_erase [of "m_connectionMap st" c]
    by (auto simp: connection_count_keys connections_def removeConnection_def)
qed

text \<open>A node, once created, stays: pointers to addresses and ports never dangle.\<close>

lemma findAddress_addIP4:
  "findAddress (snd (addIP4Address net a st)) x =
     (if x = AddressIP4 a \<and> findAddress st x = None then Some (AddressData_create net x)
      else findAddress st x)"
  by (cases x) (auto simp: addIP4Address_def Let_def um.find_emplace um.find_write setAddress_def
      AddressData_create_def)

lemma findAddress_addIP6:
  "findAddress (snd (addIP6Address net a st)) x =
     (if x = AddressIP6 a \<and> findAddress st x = None then Some (AddressData_create net x)
      else findAddress st x)"
  by (cases x) (auto simp: addIP6Address_def Let_def um.find_emplace um.find_write setAddress_def
      AddressData_create_def)

lemma findAddress_writeAddress:
  "findAddress (writeAddress a f st) x = (if x = a then map_option f (findAddress st a) else findAddress st x)"
  by (cases a; cases x) (auto simp: um.find_write)

lemma find_addPort:
  "um_find x (m_portMap (snd (addPort p st))) =
     (if x = p \<and> um_find p (m_portMap st) = None then Some (PortData_create p)
      else um_find x (m_portMap st))"
  by (auto simp: addPort_def Let_def um.find_emplace um.find_write setPort_def PortData_create_def)

lemma findAddress_cong:
  assumes "m_addressIP4Map x = m_addressIP4Map y" and "m_addressIP6Map x = m_addressIP6Map y"
  shows "findAddress x = findAddress y"
proof
  show "findAddress x a = findAddress y a" for a using assms by (cases a) simp_all
qed

lemma findAddress_frame:
  "findAddress (snd (addConnection c t s st)) = findAddress st"
  "findAddress (snd (removeConnection c st)) = findAddress st"
  "findAddress (clearConnections st) = findAddress st"
  "findAddress (writeConnection c f st) = findAddress st"
  "findAddress (writePort p g st) = findAddress st"
  "findAddress (snd (addPort p st)) = findAddress st"
  by (rule findAddress_cong; simp add: addConnection_def removeConnection_def clearConnections_def
        writeConnection_def writePort_def addPort_def Let_def split: option.split)+

lemma writeAddress_frame:
  "m_portMap (writeAddress a h st) = m_portMap st"
  "m_connectionMap (writeAddress a h st) = m_connectionMap st"
  by (cases a; simp)+

lemma port_map_frame:
  "m_portMap (snd (addConnection c t s st)) = m_portMap st"
  "m_portMap (snd (removeConnection c st)) = m_portMap st"
  "m_portMap (clearConnections st) = m_portMap st"
  "m_portMap (writeConnection c f st) = m_portMap st"
  "m_portMap (snd (addIP4Address net b st)) = m_portMap st"
  "m_portMap (snd (addIP6Address net r st)) = m_portMap st"
  by (simp_all add: addConnection_def removeConnection_def clearConnections_def
      writeConnection_def addIP4Address_def addIP6Address_def Let_def split: option.split)

lemma connection_map_frame:
  "m_connectionMap (writePort p g st) = m_connectionMap st"
  "m_connectionMap (snd (addIP4Address net b st)) = m_connectionMap st"
  "m_connectionMap (snd (addIP6Address net r st)) = m_connectionMap st"
  "m_connectionMap (snd (addPort p st)) = m_connectionMap st"
  by (simp_all add: writePort_def addIP4Address_def addIP6Address_def addPort_def Let_def)

lemmas storage_frame = findAddress_frame writeAddress_frame port_map_frame connection_map_frame

subsection \<open>Liveness of references and preservation of the invariant\<close>

lemma live_mono:
  assumes "\<And>x. findAddress st x \<noteq> None \<Longrightarrow> findAddress st' x \<noteq> None"
    and "\<And>p. um_find p (m_portMap st) \<noteq> None \<Longrightarrow> um_find p (m_portMap st') \<noteq> None"
  shows "refs_live st c \<Longrightarrow> refs_live st' c"
  using assms by (simp add: refs_live_def address_live_def port_live_def)

lemma storage_wfD:
  assumes "storage_wf st" and "um_find c (m_connectionMap st) = Some d"
  shows "cd_connection d = c" and "cd_hasPorts d" and "cd_typeName d = TypeToString (c_type c)"
    and "refs_live st c"
  using assms by (auto simp: storage_wf_def)

text \<open>One rule for all operations: what they do to the lookups decides the invariant.\<close>

lemma storage_wfI:
  assumes wf: "storage_wf st"
    and maps: "um_wf (m_connectionMap st')" "um_wf (m_addressIP4Map st')"
      "um_wf (m_addressIP6Map st')" "um_wf (m_portMap st')"
    and conn: "\<And>c d. um_find c (m_connectionMap st') = Some d \<Longrightarrow>
        cd_connection d = c \<and> cd_hasPorts d \<and> cd_typeName d = TypeToString (c_type c)
        \<and> (refs_live st c \<or> refs_live st' c)"
    and addr: "\<And>a d. findAddress st' a = Some d \<Longrightarrow> ad_address d = a"
    and port: "\<And>p d. um_find p (m_portMap st') = Some d \<Longrightarrow> pd_port d = p"
    and keepa: "\<And>x. findAddress st x \<noteq> None \<Longrightarrow> findAddress st' x \<noteq> None"
    and keepp: "\<And>p. um_find p (m_portMap st) \<noteq> None \<Longrightarrow> um_find p (m_portMap st') \<noteq> None"
  shows "storage_wf st'"
proof -
  have "refs_live st' c" if "um_find c (m_connectionMap st') = Some d" for c d
    using conn [OF that] live_mono [OF keepa keepp] by blast
  then show ?thesis using maps conn addr port by (simp add: storage_wf_def)
qed

lemma storage_wf_addConnection:
  assumes "storage_wf st" and "refs_live st c"
  shows "storage_wf (snd (addConnection c t s st))"
proof (rule storage_wfI [OF assms(1)])
  show "um_wf (m_connectionMap (snd (addConnection c t s st)))"
    using assms(1) by (simp add: addConnection_def Let_def um.wf_write um.wf_emplace storage_wf_def)
  show "um_wf (m_addressIP4Map (snd (addConnection c t s st)))"
    and "um_wf (m_addressIP6Map (snd (addConnection c t s st)))"
    and "um_wf (m_portMap (snd (addConnection c t s st)))"
    using assms(1) by (simp_all add: addConnection_def Let_def storage_wf_def)
qed (use assms in \<open>auto simp: storage_frame find_addConnection ConnectionData_create_def
      storage_wf_def split: if_splits\<close>)

lemma storage_wf_removeConnection:
  assumes "storage_wf st"
  shows "storage_wf (snd (removeConnection c st))"
proof (rule storage_wfI [OF assms])
  show "um_wf (m_connectionMap (snd (removeConnection c st)))"
    and "um_wf (m_addressIP4Map (snd (removeConnection c st)))"
    and "um_wf (m_addressIP6Map (snd (removeConnection c st)))"
    and "um_wf (m_portMap (snd (removeConnection c st)))"
    using assms by (simp_all add: removeConnection_def um.wf_erase storage_wf_def split: option.split)
qed (use assms in \<open>auto simp: storage_frame find_removeConnection storage_wf_def split: if_splits\<close>)

lemma storage_wf_clear:
  assumes "storage_wf st"
  shows "storage_wf (clearConnections st)"
proof (rule storage_wfI [OF assms])
  show "um_wf (m_connectionMap (clearConnections st))"
    by (simp add: clearConnections_def um_wf_def um_keys_def)
  show "cd_connection d = c \<and> cd_hasPorts d \<and> cd_typeName d = TypeToString (c_type c)
        \<and> (refs_live st c \<or> refs_live (clearConnections st) c)"
    if "um_find c (m_connectionMap (clearConnections st)) = Some d" for c d
    using that by (simp add: clearConnections_def um_find_def)
  show "um_wf (m_addressIP4Map (clearConnections st))" and "um_wf (m_addressIP6Map (clearConnections st))"
    using assms by (simp_all add: clearConnections_def storage_wf_def)
qed (use assms in \<open>auto simp: storage_frame storage_wf_def\<close>)

lemma storage_wf_writeConnection:
  assumes "storage_wf st"
    and "\<And>d. cd_connection (f d) = cd_connection d \<and> cd_hasPorts (f d) = cd_hasPorts d
      \<and> cd_typeName (f d) = cd_typeName d"
  shows "storage_wf (writeConnection c f st)"
proof (rule storage_wfI [OF assms(1)])
  show "um_wf (m_connectionMap (writeConnection c f st))"
    and "um_wf (m_addressIP4Map (writeConnection c f st))"
    and "um_wf (m_addressIP6Map (writeConnection c f st))"
    using assms(1) by (simp_all add: writeConnection_def um.wf_write storage_wf_def)
  show "cd_connection d = k \<and> cd_hasPorts d \<and> cd_typeName d = TypeToString (c_type k)
        \<and> (refs_live st k \<or> refs_live (writeConnection c f st) k)"
    if "um_find k (m_connectionMap (writeConnection c f st)) = Some d" for k d
    using that assms storage_wfD [OF assms(1)]
    by (auto simp: writeConnection_def um.find_write split: if_splits)
qed (use assms(1) in \<open>auto simp: storage_frame storage_wf_def\<close>)

lemma storage_wf_writeAddress:
  assumes "storage_wf st" and "\<And>d. ad_address (f d) = ad_address d"
  shows "storage_wf (writeAddress a f st)"
proof (rule storage_wfI [OF assms(1)])
  show "um_wf (m_addressIP4Map (writeAddress a f st))" and "um_wf (m_addressIP6Map (writeAddress a f st))"
    using assms(1) by (cases a; simp add: um.wf_write storage_wf_def)+
qed (use assms in \<open>auto simp: storage_frame findAddress_writeAddress storage_wf_def split: if_splits\<close>)

lemma storage_wf_writePort:
  assumes "storage_wf st" and "\<And>d. pd_port (f d) = pd_port d"
  shows "storage_wf (writePort p f st)"
proof (rule storage_wfI [OF assms(1)])
  show "um_wf (m_portMap (writePort p f st))" and "um_wf (m_addressIP4Map (writePort p f st))"
    and "um_wf (m_addressIP6Map (writePort p f st))"
    using assms(1) by (simp_all add: writePort_def um.wf_write storage_wf_def)
  show "pd_port d = q" if "um_find q (m_portMap (writePort p f st)) = Some d" for q d
    using that assms by (auto simp: writePort_def um.find_write storage_wf_def split: if_splits)
  show "um_find q (m_portMap (writePort p f st)) \<noteq> None" if "um_find q (m_portMap st) \<noteq> None" for q
    using that by (auto simp: writePort_def um.find_write)
qed (use assms(1) in \<open>auto simp: storage_frame storage_wf_def\<close>)

lemma storage_wf_addIP4Address:
  assumes "storage_wf st"
  shows "storage_wf (snd (addIP4Address net a st))"
proof (rule storage_wfI [OF assms])
  show "um_wf (m_addressIP4Map (snd (addIP4Address net a st)))"
    and "um_wf (m_addressIP6Map (snd (addIP4Address net a st)))"
    using assms by (simp_all add: addIP4Address_def Let_def um.wf_write um.wf_emplace storage_wf_def)
qed (use assms in \<open>auto simp: storage_frame findAddress_addIP4 AddressData_create_def storage_wf_def
    split: if_splits\<close>)

lemma storage_wf_addIP6Address:
  assumes "storage_wf st"
  shows "storage_wf (snd (addIP6Address net a st))"
proof (rule storage_wfI [OF assms])
  show "um_wf (m_addressIP4Map (snd (addIP6Address net a st)))"
    and "um_wf (m_addressIP6Map (snd (addIP6Address net a st)))"
    using assms by (simp_all add: addIP6Address_def Let_def um.wf_write um.wf_emplace storage_wf_def)
qed (use assms in \<open>auto simp: storage_frame findAddress_addIP6 AddressData_create_def storage_wf_def
    split: if_splits\<close>)

lemma storage_wf_addPort:
  assumes "storage_wf st"
  shows "storage_wf (snd (addPort p st))"
proof (rule storage_wfI [OF assms])
  show "um_wf (m_portMap (snd (addPort p st)))"
    and "um_wf (m_addressIP4Map (snd (addPort p st)))"
    and "um_wf (m_addressIP6Map (snd (addPort p st)))"
    using assms by (simp_all add: addPort_def Let_def um.wf_write um.wf_emplace storage_wf_def)
qed (use assms in \<open>auto simp: storage_frame find_addPort PortData_create_def storage_wf_def
    split: if_splits\<close>)

lemmas storage_wf_intros = storage_wf_addConnection storage_wf_removeConnection storage_wf_clear
  storage_wf_writeConnection storage_wf_writeAddress storage_wf_writePort storage_wf_addIP4Address
  storage_wf_addIP6Address storage_wf_addPort

end
