(* ===== verification/Compare.thy ===== *)
theory Compare
  imports Storage
begin

text \<open>
  \<^verbatim>\<open>ConnectionList::updateCompareFunc\<close>: the comparison function of every sort mode and
  direction. The lambdas of the source read the connection, its data and the data of its addresses
  and ports through pointers, so each takes the storage as an argument. \<open>std::sort\<close> and
  \<open>std::upper_bound\<close> require a strict weak order; the interpretation at the end of the theory
  shows that each of the 42 functions is one.
\<close>

text \<open>The source and the destination variants of a mode differ in the pointer they follow.\<close>

definition compare_proto :: "bool \<Rightarrow> Connection \<Rightarrow> Connection \<Rightarrow> bool" where
  "compare_proto asc a b = (if asc then c_type a < c_type b else c_type b < c_type a)"

definition compare_proto_state :: "bool \<Rightarrow> ConnectionStorage \<Rightarrow> Connection \<Rightarrow> Connection \<Rightarrow> bool" where
  "compare_proto_state asc st a b =
     (let aState = cd_state (derefConnection st a); bState = cd_state (derefConnection st b)
      in if asc
         then (if IsProtoEqual (c_type a) (c_type b) then aState < bState else c_type a < c_type b)
         else (if IsProtoEqual (c_type a) (c_type b) then bState < aState else c_type b < c_type a))"

definition compare_address ::
  "(Connection \<Rightarrow> IAddress) \<Rightarrow> bool \<Rightarrow> ConnectionStorage \<Rightarrow> Connection \<Rightarrow> Connection \<Rightarrow> bool" where
  "compare_address getAddr asc st a b =
     (let aAddr = derefAddress st (getAddr a); bAddr = derefAddress st (getAddr b);
          aType = address_getType (ad_address aAddr); bType = address_getType (ad_address bAddr)
      in if asc
         then (if aType = bType then ad_numericString aAddr < ad_numericString bAddr else aType < bType)
         else (if aType = bType then ad_numericString bAddr < ad_numericString aAddr else bType < aType))"

definition compare_hostname ::
  "(Connection \<Rightarrow> IAddress) \<Rightarrow> bool \<Rightarrow> ConnectionStorage \<Rightarrow> Connection \<Rightarrow> Connection \<Rightarrow> bool" where
  "compare_hostname getAddr asc st a b =
     (let aAddr = derefAddress st (getAddr a); bAddr = derefAddress st (getAddr b)
      in if asc then ad_hostname aAddr < ad_hostname bAddr else ad_hostname bAddr < ad_hostname aAddr)"

definition compare_asn ::
  "(Connection \<Rightarrow> IAddress) \<Rightarrow> bool \<Rightarrow> ConnectionStorage \<Rightarrow> Connection \<Rightarrow> Connection \<Rightarrow> bool" where
  "compare_asn getAddr asc st a b =
     (let aAddr = derefAddress st (getAddr a); bAddr = derefAddress st (getAddr b)
      in if asc then asn_less (ad_asn aAddr) (ad_asn bAddr) else asn_less (ad_asn bAddr) (ad_asn aAddr))"

definition compare_country ::
  "(Connection \<Rightarrow> IAddress) \<Rightarrow> bool \<Rightarrow> ConnectionStorage \<Rightarrow> Connection \<Rightarrow> Connection \<Rightarrow> bool" where
  "compare_country getAddr asc st a b =
     (let aAddr = derefAddress st (getAddr a); bAddr = derefAddress st (getAddr b)
      in if asc then country_less (ad_country aAddr) (ad_country bAddr)
         else country_less (ad_country bAddr) (ad_country aAddr))"

definition compare_port ::
  "(Connection \<Rightarrow> Port) \<Rightarrow> bool \<Rightarrow> ConnectionStorage \<Rightarrow> Connection \<Rightarrow> Connection \<Rightarrow> bool" where
  "compare_port getPortOf asc st a b =
     (if \<not> cd_hasPorts (derefConnection st a) \<or> \<not> cd_hasPorts (derefConnection st b) then False
      else let aPort = port_number (pd_port (derefPort st (getPortOf a)));
               bPort = port_number (pd_port (derefPort st (getPortOf b)))
           in if asc then aPort < bPort else bPort < aPort)"

definition compare_service ::
  "(Connection \<Rightarrow> Port) \<Rightarrow> bool \<Rightarrow> ConnectionStorage \<Rightarrow> Connection \<Rightarrow> Connection \<Rightarrow> bool" where
  "compare_service getPortOf asc st a b =
     (if \<not> cd_hasPorts (derefConnection st a) \<or> \<not> cd_hasPorts (derefConnection st b) then False
      else let aPort = pd_service (derefPort st (getPortOf a));
               bPort = pd_service (derefPort st (getPortOf b))
           in if asc then aPort < bPort else bPort < aPort)"

definition compare_traffic ::
  "(ConnectionTraffic \<Rightarrow> u64) \<Rightarrow> bool \<Rightarrow> ConnectionStorage \<Rightarrow> Connection \<Rightarrow> Connection \<Rightarrow> bool" where
  "compare_traffic counter asc st a b =
     (let x = counter (cd_traffic (derefConnection st a)); y = counter (cd_traffic (derefConnection st b))
      in if asc then x < y else y < x)"

lemmas compare_defs [simp] = compare_proto_def compare_proto_state_def compare_address_def compare_hostname_def
  compare_asn_def compare_country_def compare_port_def compare_service_def compare_traffic_def

fun compareFunc ::
  "EConnectionSortMode \<Rightarrow> bool \<Rightarrow> ConnectionStorage \<Rightarrow> Connection \<Rightarrow> Connection \<Rightarrow> bool" where
  "compareFunc NONE asc st a b = False"
| "compareFunc PROTO asc st a b = compare_proto asc a b"
| "compareFunc PROTO_STATE asc st a b = compare_proto_state asc st a b"
| "compareFunc SRC_ADDRESS asc st a b = compare_address c_srcAddr asc st a b"
| "compareFunc DST_ADDRESS asc st a b = compare_address c_dstAddr asc st a b"
| "compareFunc SRC_HOSTNAME asc st a b = compare_hostname c_srcAddr asc st a b"
| "compareFunc DST_HOSTNAME asc st a b = compare_hostname c_dstAddr asc st a b"
| "compareFunc SRC_ASN asc st a b = compare_asn c_srcAddr asc st a b"
| "compareFunc DST_ASN asc st a b = compare_asn c_dstAddr asc st a b"
| "compareFunc SRC_COUNTRY asc st a b = compare_country c_srcAddr asc st a b"
| "compareFunc DST_COUNTRY asc st a b = compare_country c_dstAddr asc st a b"
| "compareFunc SRC_PORT asc st a b = compare_port c_srcPort asc st a b"
| "compareFunc DST_PORT asc st a b = compare_port c_dstPort asc st a b"
| "compareFunc SRC_SERVICE asc st a b = compare_service c_srcPort asc st a b"
| "compareFunc DST_SERVICE asc st a b = compare_service c_dstPort asc st a b"
| "compareFunc RX_PACKETS asc st a b = compare_traffic rxPackets asc st a b"
| "compareFunc TX_PACKETS asc st a b = compare_traffic txPackets asc st a b"
| "compareFunc RX_BYTES asc st a b = compare_traffic rxBytes asc st a b"
| "compareFunc TX_BYTES asc st a b = compare_traffic txBytes asc st a b"
| "compareFunc RX_SPEED asc st a b = compare_traffic rxSpeed asc st a b"
| "compareFunc TX_SPEED asc st a b = compare_traffic txSpeed asc st a b"

section \<open>Every comparison function is a strict weak order\<close>

lemma hasPorts_wf: "storage_wf st \<Longrightarrow> c \<in> set (connections st) \<Longrightarrow> cd_hasPorts (derefConnection st c)"
  by (auto simp: set_connections derefConnection_def storage_wf_def)

lemma deref_hasPorts: "storage_wf st \<Longrightarrow> cd_hasPorts (derefConnection st c)"
  by (auto simp: derefConnection_def storage_wf_def ConnectionData_create_def split: option.split)

lemma swo_False: "strict_weak_order (\<lambda>_ _. False)"
  by unfold_locales auto

lemma swo_key: "strict_weak_order (\<lambda>a b. (k a :: 'b::linorder) < k b)"
  by unfold_locales auto

lemma swo_flip: "strict_weak_order lt \<Longrightarrow> strict_weak_order (\<lambda>a b. lt b a)"
  unfolding strict_weak_order_def by blast

lemma swo_lex:
  fixes k :: "'a \<Rightarrow> 'b::linorder" and l :: "'a \<Rightarrow> 'c::linorder"
  shows "strict_weak_order (\<lambda>a b. if k a = k b then l a < l b else k a < k b)"
  by unfold_locales (auto split: if_splits)

text \<open>\<open>IsProtoEqual\<close> compares the protocol, the even part of the type number.\<close>

definition proto_class :: "EConnectionType \<Rightarrow> nat" where
  "proto_class t = type_ordinal t div 2"

lemma IsProtoEqual_iff: "IsProtoEqual a b \<longleftrightarrow> proto_class a = proto_class b"
  by (cases a; cases b) (simp_all add: IsProtoEqual_def proto_class_def)

lemma type_less_class: "\<not> IsProtoEqual a b \<Longrightarrow> a < b \<longleftrightarrow> proto_class a < proto_class b"
  by (cases a; cases b) (simp_all add: IsProtoEqual_def proto_class_def less_EConnectionType_def)

lemma swo_proto_state:
  fixes s :: "Connection \<Rightarrow> int"
  shows "strict_weak_order (\<lambda>a b. if IsProtoEqual (c_type a) (c_type b) then s a < s b
    else c_type a < c_type b)"
proof -
  have "(\<lambda>a b. if IsProtoEqual (c_type a) (c_type b) then s a < s b else c_type a < c_type b)
      = (\<lambda>a b. if proto_class (c_type a) = proto_class (c_type b) then s a < s b
           else proto_class (c_type a) < proto_class (c_type b))"
    by (intro ext) (simp add: type_less_class flip: IsProtoEqual_iff)
  then show ?thesis using swo_lex [of "\<lambda>a. proto_class (c_type a)" s] by simp
qed

lemma IsProtoEqual_sym: "IsProtoEqual a b = IsProtoEqual b a"
  by (auto simp: IsProtoEqual_iff)

lemmas swo_rules = swo_False swo_key swo_flip [OF swo_key] swo_lex swo_flip [OF swo_lex]

lemma swo_proto_state_desc:
  fixes s :: "Connection \<Rightarrow> int"
  shows "strict_weak_order (\<lambda>a b. if IsProtoEqual (c_type a) (c_type b) then s b < s a
    else c_type b < c_type a)"
  using swo_flip [OF swo_proto_state [of s]] by (subst IsProtoEqual_sym)

text \<open>The address modes compare the type first and the printed address second.\<close>

lemma swo_address:
  fixes k :: "'a \<Rightarrow> EAddressType" and l :: "'a \<Rightarrow> string"
  shows "strict_weak_order (\<lambda>a b. if k a = k b then l b < l a else k b < k a)"
  using swo_flip [OF swo_lex [of k l]] by (simp add: eq_commute)

lemma swo_compareFunc:
  assumes "storage_wf st"
  shows "strict_weak_order (compareFunc mode asc st)"
proof -
  note swo = swo_False swo_key swo_flip [OF swo_key] swo_lex swo_address swo_proto_state
    swo_proto_state_desc
  have "compareFunc mode asc st = (\<lambda>a b. compareFunc mode asc st a b)" by simp
  then show ?thesis
    by (cases mode; cases asc)
      (simp_all add: swo Let_def asn_less_def country_less_def deref_hasPorts [OF assms]
        cong: if_cong)
qed

section \<open>What a comparison reads\<close>

text \<open>Two storages that show the same data of a connection, its addresses and its ports.\<close>

definition same_view :: "ConnectionStorage \<Rightarrow> ConnectionStorage \<Rightarrow> Connection \<Rightarrow> bool" where
  "same_view st st' c \<longleftrightarrow>
     derefConnection st' c = derefConnection st c \<and>
     derefAddress st' (c_srcAddr c) = derefAddress st (c_srcAddr c) \<and>
     derefAddress st' (c_dstAddr c) = derefAddress st (c_dstAddr c) \<and>
     derefPort st' (c_srcPort c) = derefPort st (c_srcPort c) \<and>
     derefPort st' (c_dstPort c) = derefPort st (c_dstPort c)"

lemma compareFunc_view:
  "same_view st st' a \<Longrightarrow> same_view st st' b \<Longrightarrow>
     compareFunc mode asc st' a b = compareFunc mode asc st a b"
  by (cases mode) (simp_all add: same_view_def)

lemma sorted_by_cong:
  assumes "\<And>a b. a \<in> set xs \<Longrightarrow> b \<in> set xs \<Longrightarrow> lt' a b = lt a b" and "sorted_by lt xs"
  shows "sorted_by lt' xs"
  using assms unfolding sorted_by_def by (induction xs) auto

lemma sorted_by_view:
  assumes "\<And>c. c \<in> set xs \<Longrightarrow> same_view st st' c" and "sorted_by (compareFunc mode asc st) xs"
  shows "sorted_by (compareFunc mode asc st') xs"
  by (rule sorted_by_cong [OF _ assms(2)]) (use assms(1) compareFunc_view in blast)

lemma stored_live:
  "storage_wf st \<Longrightarrow> c \<in> set (connections st) \<Longrightarrow>
     um_find c (m_connectionMap st) \<noteq> None \<and> refs_live st c"
  by (auto simp: set_connections storage_wf_def)

lemma derefAddress_add:
  "address_live st x \<Longrightarrow> derefAddress (snd (addIP4Address net a st)) x = derefAddress st x"
  "address_live st x \<Longrightarrow> derefAddress (snd (addIP6Address net b st)) x = derefAddress st x"
  by (auto simp: derefAddress_def address_live_def findAddress_addIP4 findAddress_addIP6)

lemma derefPort_add: "port_live st x \<Longrightarrow> derefPort (snd (addPort p st)) x = derefPort st x"
  by (auto simp: derefPort_def port_live_def find_addPort)

lemmas view_defs = same_view_def derefConnection_def derefAddress_def derefPort_def

lemma view_addConnection:
  "c' \<in> set (connections st) \<Longrightarrow> same_view st (snd (addConnection c t s st)) c'"
  by (auto simp: view_defs storage_frame find_addConnection set_connections)

lemma view_removeConnection: "c' \<noteq> c \<Longrightarrow> same_view st (snd (removeConnection c st)) c'"
  by (simp add: view_defs storage_frame find_removeConnection)

lemma view_writeConnection: "c' \<noteq> c \<Longrightarrow> same_view st (writeConnection c f st) c'"
  by (simp add: view_defs storage_frame) (simp add: writeConnection_def um.find_write)

lemma view_addAddress:
  "refs_live st c \<Longrightarrow> same_view st (snd (addIP4Address net a st)) c"
  "refs_live st c \<Longrightarrow> same_view st (snd (addIP6Address net b st)) c"
  "refs_live st c \<Longrightarrow> same_view st (snd (addPort p st)) c"
  by (simp_all add: same_view_def refs_live_def derefAddress_add derefPort_add)
    (simp_all add: derefConnection_def derefAddress_def derefPort_def storage_frame)

lemma view_writeAddress:
  "c_srcAddr c \<noteq> a \<Longrightarrow> c_dstAddr c \<noteq> a \<Longrightarrow> same_view st (writeAddress a f st) c"
  by (simp add: view_defs storage_frame findAddress_writeAddress)

lemma view_writePort:
  "c_srcPort c \<noteq> p \<Longrightarrow> c_dstPort c \<noteq> p \<Longrightarrow> same_view st (writePort p f st) c"
  by (simp add: view_defs storage_frame) (simp add: writePort_def um.find_write)

text \<open>Resolving an address or a port changes the order only of the modes that show the result.\<close>

lemma compareFunc_writeAddress:
  assumes "\<And>d. ad_address (f d) = ad_address d \<and> ad_numericString (f d) = ad_numericString d"
    and "mode \<notin> {SRC_HOSTNAME, DST_HOSTNAME, SRC_COUNTRY, DST_COUNTRY, SRC_ASN, DST_ASN}"
    and "refs_live st a" and "refs_live st b"
  shows "compareFunc mode asc (writeAddress x f st) a b = compareFunc mode asc st a b"
proof -
  have "ad_address (derefAddress (writeAddress x f st) y) = ad_address (derefAddress st y)
      \<and> ad_numericString (derefAddress (writeAddress x f st) y) = ad_numericString (derefAddress st y)"
    if "address_live st y" for y
    using that assms(1) by (auto simp: derefAddress_def address_live_def findAddress_writeAddress)
  then show ?thesis
    using assms(2-4)
    by (cases mode) (simp_all add: Let_def refs_live_def derefConnection_def derefPort_def storage_frame)
qed

lemma compareFunc_writePort:
  assumes "\<And>d. pd_port (f d) = pd_port d"
    and "mode \<notin> {SRC_SERVICE, DST_SERVICE}"
    and "refs_live st a" and "refs_live st b"
  shows "compareFunc mode asc (writePort x f st) a b = compareFunc mode asc st a b"
proof -
  have "pd_port (derefPort (writePort x f st) y) = pd_port (derefPort st y)" if "port_live st y" for y
    using that assms(1) by (auto simp: derefPort_def port_live_def writePort_def um.find_write)
  then show ?thesis
    using assms(2-4)
    by (cases mode) (simp_all add: Let_def refs_live_def derefConnection_def derefAddress_def storage_frame)
qed

section \<open>Strict weak order\<close>

text \<open>
  C12: for every sort mode and both directions, the comparison function installed by
  \<^verbatim>\<open>updateCompareFunc\<close> is a strict weak order on the connections of a well-formed storage:
  irreflexive, transitive, and with transitive incomparability. This is the requirement of
  \<open>std::sort\<close> and \<open>std::upper_bound\<close>; violating it is undefined behaviour.
\<close>

theorem compareFunc_strict_weak_order:
  assumes "storage_wf st"
  shows "\<not> compareFunc mode asc st a a
    \<and> (compareFunc mode asc st a b \<and> compareFunc mode asc st b c \<longrightarrow> compareFunc mode asc st a c)
    \<and> (compareFunc mode asc st a c \<longrightarrow> compareFunc mode asc st a b \<or> compareFunc mode asc st b c)"
  using swo_compareFunc [OF assms, of mode asc] unfolding strict_weak_order_def by blast

theorem compareFunc_strict_weak_order_witness:
  "\<not> compareFunc PROTO True ConnectionStorage_init
       (Connection UDP4 (AddressIP4 0) (Port UDP 0) (AddressIP4 1) (Port UDP 0))
       (Connection UDP4 (AddressIP4 0) (Port UDP 0) (AddressIP4 1) (Port UDP 0))"
  using compareFunc_strict_weak_order [OF storage_wf_init] by blast

end
