(* ===== verification/TopList.thy ===== *)
theory TopList
  imports Prelude
begin

text \<open>
  The abstract specification of the visible list: a sorted, duplicate-free selection of at most
  \<open>off + tgt\<close> elements of a finite collection \<open>cs\<close>, kept up to date by insertion
  (\<open>pinsert\<close>) and by scanning the collection (\<open>pfill\<close>). \<open>off\<close> is the number of
  rows scrolled out at the top and \<open>tgt\<close> the number of rows on the screen. The operations of
  \<^verbatim>\<open>ConnectionList\<close> refine these (theory \<open>ConnList\<close>).
\<close>

definition pinsert :: "('a \<Rightarrow> 'a \<Rightarrow> bool) \<Rightarrow> nat \<Rightarrow> nat \<Rightarrow> 'a list \<Rightarrow> 'a \<Rightarrow> 'a list" where
  "pinsert lt off tgt ys c =
     (let zs = insert_upper lt ys c in if length zs - off > tgt then butlast zs else zs)"

definition pfill_step :: "('a \<Rightarrow> 'a \<Rightarrow> bool) \<Rightarrow> nat \<Rightarrow> nat \<Rightarrow> 'a list \<Rightarrow> 'a \<Rightarrow> 'a list" where
  "pfill_step lt off tgt ys c =
     (if lt c (last ys) then (if c \<notin> set ys then pinsert lt off tgt ys c else ys)
      else if length ys - off < tgt then (if c \<notin> set ys then ys @ [c] else ys)
      else ys)"

definition pfill :: "('a \<Rightarrow> 'a \<Rightarrow> bool) \<Rightarrow> nat \<Rightarrow> nat \<Rightarrow> 'a list \<Rightarrow> 'a list \<Rightarrow> 'a list" where
  "pfill lt off tgt cs ys =
     (if tgt \<le> length ys - off \<or> length cs \<le> length ys then ys
      else foldl (pfill_step lt off tgt) (if ys = [] then [hd cs] else ys) cs)"

text \<open>What is kept of a selection \<open>ys\<close> of \<open>A\<close>.\<close>

definition selection :: "('a \<Rightarrow> 'a \<Rightarrow> bool) \<Rightarrow> 'a set \<Rightarrow> 'a list \<Rightarrow> bool" where
  "selection lt A ys \<longleftrightarrow> sorted_by lt ys \<and> distinct ys \<and> set ys \<subseteq> A"

text \<open>Nothing left out is smaller than the last row.\<close>

definition top_rows :: "('a \<Rightarrow> 'a \<Rightarrow> bool) \<Rightarrow> 'a set \<Rightarrow> 'a list \<Rightarrow> bool" where
  "top_rows lt A ys \<longleftrightarrow> ys = [] \<or> (\<forall>c \<in> A - set ys. \<not> lt c (last ys))"

definition sized :: "nat \<Rightarrow> nat \<Rightarrow> nat \<Rightarrow> nat \<Rightarrow> bool" where
  "sized off tgt cnt len = (if tgt = 0 then len \<le> off else len = min cnt (off + tgt))"

text \<open>Scanning: every scanned element is in the list, or the list is full and it is no better.\<close>

definition scanned :: "('a \<Rightarrow> 'a \<Rightarrow> bool) \<Rightarrow> nat \<Rightarrow> nat \<Rightarrow> 'a set \<Rightarrow> 'a list \<Rightarrow> bool" where
  "scanned lt off tgt P ys \<longleftrightarrow>
     ys \<noteq> [] \<and> length ys \<le> off + tgt \<and>
     (\<forall>c\<in>P. c \<in> set ys \<or> (length ys = off + tgt \<and> \<not> lt c (last ys)))"

lemma sized_le: "sized off tgt cnt len \<Longrightarrow> len \<le> off + tgt"
  by (auto simp: sized_def split: if_splits)

lemma selection_length:
  assumes "selection lt (set cs) ys"
  shows "length ys \<le> length cs"
proof -
  have "length ys = card (set ys)" using assms by (simp add: selection_def distinct_card)
  also have "\<dots> \<le> card (set cs)" using assms by (simp add: selection_def card_mono)
  also have "\<dots> \<le> length cs" by (rule card_length)
  finally show ?thesis .
qed

lemma selection_mono: "selection lt A ys \<Longrightarrow> A \<subseteq> B \<Longrightarrow> selection lt B ys"
  by (auto simp: selection_def)

lemma selection_butlast: "selection lt A ys \<Longrightarrow> selection lt A (butlast ys)"
  by (auto simp: selection_def sorted_by_butlast distinct_butlast dest: in_set_butlastD)

lemma selection_take: "selection lt A ys \<Longrightarrow> selection lt A (take n ys)"
  by (auto simp: selection_def sorted_by_take dest: in_set_takeD)

lemma selection_remove1: "selection lt A ys \<Longrightarrow> selection lt (A - {c}) (filter (\<lambda>y. y \<noteq> c) ys)"
  by (auto simp: selection_def sorted_by_filter)

lemma full_selection:
  assumes "selection lt (set cs) ys" and "set cs \<subseteq> set ys" and "distinct cs"
  shows "length ys = length cs"
  using assms by (metis selection_def distinct_card subset_antisym)

lemma pinsert_full:
  "length ys = off + tgt \<Longrightarrow> pinsert lt off tgt ys c = butlast (insert_upper lt ys c)"
  by (simp add: pinsert_def Let_def length_insert_upper)

lemma pinsert_room: "length ys < off + tgt \<Longrightarrow> pinsert lt off tgt ys c = insert_upper lt ys c"
  by (simp add: pinsert_def Let_def length_insert_upper less_diff_conv2 not_less) linarith

lemma length_pinsert:
  "length ys \<le> off + tgt \<Longrightarrow>
     length (pinsert lt off tgt ys c) = (if length ys = off + tgt then off + tgt else Suc (length ys))"
  by (auto simp: pinsert_full pinsert_room length_insert_upper)

lemma pinsert_not_Nil: "ys \<noteq> [] \<Longrightarrow> length ys \<le> off + tgt \<Longrightarrow> pinsert lt off tgt ys c \<noteq> []"
  using length_pinsert [of ys off tgt lt c] by (auto split: if_splits)

context strict_weak_order
begin

lemma selection_insert_upper:
  assumes "selection lt A ys" and "c \<in> A" and "c \<notin> set ys"
  shows "selection lt A (insert_upper lt ys c)"
proof -
  have "distinct (insert_upper lt ys c)"
    using assms by (metis (no_types) distinct.simps(2) mset_eq_imp_distinct_iff mset_insert_upper
        mset.simps(2) selection_def)
  with assms show ?thesis by (auto simp: selection_def sorted_insert_upper set_insert_upper)
qed

lemma selection_pinsert:
  assumes "selection lt A ys" and "c \<in> A" and "c \<notin> set ys"
  shows "selection lt A (pinsert lt off tgt ys c)"
  using selection_insert_upper [OF assms] by (simp add: pinsert_def Let_def selection_butlast)

text \<open>Dropping the last of a sorted selection keeps the best rows.\<close>

lemma top_rows_butlast:
  assumes "selection lt A ys" and "top_rows lt A ys"
  shows "top_rows lt A (butlast ys)"
proof (cases "butlast ys = []")
  case False
  then have ys: "ys \<noteq> []" by auto
  then have s: "ys = butlast ys @ [last ys]" by simp
  have le: "\<not> lt (last ys) (last (butlast ys))"
    using assms(1) False by (subst (asm) s) (auto simp: selection_def sorted_by_append)
  have "\<not> lt c (last (butlast ys))" if "c \<in> A" "c \<notin> set (butlast ys)" for c
  proof (cases "c = last ys")
    case True
    with le show ?thesis by simp
  next
    case F: False
    then have "c \<notin> set ys" using that(2) by (subst s) simp
    with assms(2) ys that(1) have "\<not> lt c (last ys)" by (auto simp: top_rows_def)
    with le show ?thesis using ge_trans by blast
  qed
  then show ?thesis by (auto simp: top_rows_def)
qed (simp add: top_rows_def)

lemma top_rows_take:
  assumes "selection lt A ys" and "top_rows lt A ys"
  shows "top_rows lt A ((butlast ^^ n) ys)"
proof (induction n)
  case (Suc n)
  have "selection lt A ((butlast ^^ n) ys)"
    using assms(1) by (induction n) (auto intro: selection_butlast)
  with Suc show ?case by (simp add: top_rows_butlast)
qed (use assms in simp)

text \<open>Inserting an element that belongs before the last row keeps the best rows.\<close>

lemma top_rows_pinsert:
  assumes sel: "selection lt A ys" and top: "top_rows lt (A - {c}) ys" and ne: "ys \<noteq> []"
    and c: "c \<in> A" "c \<notin> set ys" and lt: "lt c (last ys)"
  shows "top_rows lt A (pinsert lt off tgt ys c)"
proof -
  let ?zs = "insert_upper lt ys c"
  have last: "last ?zs = last ys"
    using sel ne lt by (simp add: last_insert_upper selection_def)
  have "top_rows lt A ?zs"
    using top ne by (auto simp: top_rows_def last set_insert_upper)
  then show ?thesis
    using top_rows_butlast [OF selection_insert_upper [OF sel c]]
    by (simp add: pinsert_def Let_def)
qed

lemma pfill_step_scanned:
  assumes "selection lt A ys" and "scanned lt off tgt P ys" and "c \<in> A" and "0 < tgt"
  shows "selection lt A (pfill_step lt off tgt ys c)
    \<and> scanned lt off tgt (insert c P) (pfill_step lt off tgt ys c)"
proof -
  from assms(2) have ne: "ys \<noteq> []" and len: "length ys \<le> off + tgt"
    and P: "\<And>x. x \<in> P \<Longrightarrow> x \<in> set ys \<or> (length ys = off + tgt \<and> \<not> lt x (last ys))"
    by (auto simp: scanned_def)
  have room: "length ys - off < tgt \<longleftrightarrow> length ys < off + tgt" using assms(4) by linarith
  consider (listed) "c \<in> set ys" | (skip) "c \<notin> set ys" "\<not> lt c (last ys)" "length ys = off + tgt"
    | (push) "c \<notin> set ys" "\<not> lt c (last ys)" "length ys < off + tgt"
    | (ins) "c \<notin> set ys" "lt c (last ys)" "length ys < off + tgt"
    | (repl) "c \<notin> set ys" "lt c (last ys)" "length ys = off + tgt"
    using len by linarith
  then show ?thesis
  proof cases
    case listed
    then have "pfill_step lt off tgt ys c = ys" by (simp add: pfill_step_def)
    with listed assms show ?thesis by (auto simp: scanned_def)
  next
    case skip
    then have "pfill_step lt off tgt ys c = ys" by (simp add: pfill_step_def room)
    with skip assms show ?thesis by (auto simp: scanned_def)
  next
    case push
    then have e: "pfill_step lt off tgt ys c = ys @ [c]" by (simp add: pfill_step_def room)
    have "\<not> lt c y" if "y \<in> set ys" for y
      using sorted_last_max [of ys y] that push(2) assms(1) ge_trans [of "last ys" y c]
      by (auto simp: selection_def)
    with push assms(1,3) have "selection lt A (ys @ [c])"
      by (auto simp: selection_def sorted_by_append)
    with push P show ?thesis by (fastforce simp: e scanned_def)
  next
    case ins
    then have e: "pfill_step lt off tgt ys c = insert_upper lt ys c"
      by (simp add: pfill_step_def pinsert_room)
    with ins P selection_insert_upper [OF assms(1,3)] show ?thesis
      by (fastforce simp: scanned_def insert_upper_not_Nil set_insert_upper length_insert_upper)
  next
    case repl
    let ?zs = "insert_upper lt ys c"
    have e: "pfill_step lt off tgt ys c = butlast ?zs"
      using repl by (simp add: pfill_step_def pinsert_full)
    have sel: "selection lt A ?zs" using repl assms by (intro selection_insert_upper)
    have sel': "selection lt (insert c (P \<union> set ys)) ?zs"
      using sel by (auto simp: selection_def set_insert_upper)
    have "top_rows lt (insert c (P \<union> set ys)) ?zs"
      using P repl ne assms(1)
      by (auto simp: top_rows_def set_insert_upper last_insert_upper selection_def)
    then have top: "top_rows lt (insert c (P \<union> set ys)) (butlast ?zs)"
      by (rule top_rows_butlast [OF sel'])
    have "butlast ?zs \<noteq> []" using ne repl length_insert_upper [of lt ys c]
      by (metis e pfill_step_def len pinsert_not_Nil)
    with top sel repl show ?thesis
      by (auto simp: e scanned_def top_rows_def length_insert_upper selection_butlast)
  qed
qed

lemma foldl_pfill_scanned:
  assumes "selection lt A ys" and "scanned lt off tgt P ys" and "set cs \<subseteq> A" and "0 < tgt"
  shows "selection lt A (foldl (pfill_step lt off tgt) ys cs)
    \<and> scanned lt off tgt (P \<union> set cs) (foldl (pfill_step lt off tgt) ys cs)"
  using assms
proof (induction cs arbitrary: ys P)
  case (Cons c cs)
  from Cons.prems have "selection lt A (pfill_step lt off tgt ys c)
      \<and> scanned lt off tgt (insert c P) (pfill_step lt off tgt ys c)"
    by (intro pfill_step_scanned) auto
  with Cons.IH [of "pfill_step lt off tgt ys c" "insert c P"] Cons.prems show ?case by simp
qed simp

lemma scanned_final:
  assumes "selection lt (set cs) ys" and "scanned lt off tgt (set cs) ys" and "distinct cs" and "0 < tgt"
  shows "sized off tgt (length cs) (length ys)" and "top_rows lt (set cs) ys"
proof -
  have "length ys \<le> length cs" using assms(1) by (rule selection_length)
  moreover have "length ys = off + tgt \<or> length ys = length cs"
    using assms full_selection [OF assms(1) _ assms(3)] by (auto simp: scanned_def)
  ultimately show "sized off tgt (length cs) (length ys)"
    using assms by (auto simp: sized_def scanned_def)
  show "top_rows lt (set cs) ys" using assms(2) by (auto simp: scanned_def top_rows_def)
qed

text \<open>
  Filling a selection that is not too long gives a selection of exactly the right size; and unless
  the list was already full, the best one.
\<close>

lemma pfill_selection:
  assumes "selection lt (set cs) ys" and "length ys \<le> off + tgt" and "distinct cs"
  shows "selection lt (set cs) (pfill lt off tgt cs ys)"
    and "sized off tgt (length cs) (length (pfill lt off tgt cs ys))"
    and "top_rows lt (set cs) ys \<Longrightarrow> top_rows lt (set cs) (pfill lt off tgt cs ys)"
proof -
  let ?ys = "if ys = [] then [hd cs] else ys"
  have "selection lt (set cs) (pfill lt off tgt cs ys)
    \<and> sized off tgt (length cs) (length (pfill lt off tgt cs ys))
    \<and> (top_rows lt (set cs) ys \<longrightarrow> top_rows lt (set cs) (pfill lt off tgt cs ys))"
  proof (cases "tgt \<le> length ys - off \<or> length cs \<le> length ys")
    case True
    then have "pfill lt off tgt cs ys = ys" by (simp add: pfill_def)
    moreover have "sized off tgt (length cs) (length ys)"
      using True assms(2) selection_length [OF assms(1)] by (auto simp: sized_def)
    ultimately show ?thesis using assms(1) by simp
  next
    case False
    then have tgt: "0 < tgt" and cs: "cs \<noteq> []" by auto
    then have e: "pfill lt off tgt cs ys = foldl (pfill_step lt off tgt) ?ys cs"
      using False by (simp add: pfill_def)
    have "selection lt (set cs) ?ys" using assms(1) cs by (auto simp: selection_def)
    moreover have "scanned lt off tgt {} ?ys" using assms(2) tgt by (simp add: scanned_def)
    ultimately have "selection lt (set cs) (pfill lt off tgt cs ys)"
      and "scanned lt off tgt (set cs) (pfill lt off tgt cs ys)"
      using foldl_pfill_scanned [of "set cs" ?ys off tgt "{}" cs] tgt by (simp_all add: e)
    with scanned_final [OF this assms(3) tgt] show ?thesis by blast
  qed
  then show "selection lt (set cs) (pfill lt off tgt cs ys)"
    and "sized off tgt (length cs) (length (pfill lt off tgt cs ys))"
    and "top_rows lt (set cs) ys \<Longrightarrow> top_rows lt (set cs) (pfill lt off tgt cs ys)" by blast+
qed

lemma pfill_top_rows:
  assumes "selection lt (set cs) ys" and "length ys < off + tgt" and "distinct cs" and "0 < tgt"
  shows "top_rows lt (set cs) (pfill lt off tgt cs ys)"
proof (cases "length cs \<le> length ys")
  case True
  then have "set cs = set ys"
    using assms(1,3) selection_length [OF assms(1)]
    by (metis card_subset_eq distinct_card selection_def List.finite_set order.antisym)
  moreover have "pfill lt off tgt cs ys = ys" using True by (simp add: pfill_def)
  ultimately show ?thesis by (simp add: top_rows_def)
next
  case False
  let ?ys = "if ys = [] then [hd cs] else ys"
  have cs: "cs \<noteq> []" using False by auto
  have e: "pfill lt off tgt cs ys = foldl (pfill_step lt off tgt) ?ys cs"
    using False assms(2,4) by (auto simp: pfill_def)
  have "selection lt (set cs) ?ys" using assms(1) cs by (auto simp: selection_def)
  moreover have "scanned lt off tgt {} ?ys" using assms(2) by (simp add: scanned_def)
  ultimately have "selection lt (set cs) (foldl (pfill_step lt off tgt) ?ys cs)"
    and "scanned lt off tgt (set cs) (foldl (pfill_step lt off tgt) ?ys cs)"
    using foldl_pfill_scanned [of "set cs" ?ys off tgt "{}" cs] assms(4) by simp_all
  from scanned_final(2) [OF this assms(3,4)] show ?thesis unfolding e .
qed

end

end
