(* ===== verification/ConnList.thy ===== *)
theory ConnList
  imports Compare TopList
begin

text \<open>
  \<^verbatim>\<open>ConnectionList.hpp\<close> and \<^verbatim>\<open>ConnectionList.cpp\<close>: the sorted window onto the
  stored connections that the user interface shows. \<open>m_list\<close> holds the rows scrolled out at the
  top (\<open>m_scrollOffset\<close>) followed by the visible rows (at most \<open>m_targetSize\<close>). An item's
  \<open>pConnection\<close> is a pointer into the storage. \<open>m_effects\<close> records, in order, the calls
  the list makes to the resolver and to the user interface. Sizes and positions are natural numbers;
  the source's \<open>unsigned int\<close> holds them as long as there are fewer than \<open>2 ^ 31\<close>
  connections.
\<close>

section \<open>State\<close>

record Item =
  pConnection :: Connection
  updateFlags :: flags
  isRefreshRequired :: bool

definition Item_create :: "Connection \<Rightarrow> Item" where
  "Item_create p = \<lparr>pConnection = p, updateFlags = - 1, isRefreshRequired = True\<rparr>"

record ConnectionListUpdate =
  lu_data :: "Connection option"
  lu_updateFlags :: flags
  lu_rowNumber :: nat
  lu_isCursor :: bool

definition ConnectionListUpdate_empty :: ConnectionListUpdate where
  "ConnectionListUpdate_empty =
     \<lparr>lu_data = None, lu_updateFlags = - 1, lu_rowNumber = 0, lu_isCursor = False\<rparr>"

datatype ListEffect = ResolveAddress IAddress | ResolvePort Port | RefreshUI

record ConnectionList =
  m_storage :: ConnectionStorage
  m_list :: "Item list"
  m_targetSize :: nat
  m_scrollOffset :: nat
  m_cursorPos :: nat
  m_dataTotalCount :: nat
  m_dataResolvedCount :: nat
  m_connectionDetail :: "Connection option"
  m_connectionDetailUpdateFlags :: flags
  m_sortMode :: EConnectionSortMode
  m_isSortAscending :: bool
  m_isRefreshRequired :: bool
  m_compareFunc :: "ConnectionStorage \<Rightarrow> Connection \<Rightarrow> Connection \<Rightarrow> bool"
  m_effects :: "ListEffect list"

definition updateCompareFunc :: "ConnectionList \<Rightarrow> ConnectionList" where
  "updateCompareFunc l = l\<lparr>m_compareFunc := compareFunc (m_sortMode l) (m_isSortAscending l)\<rparr>"

definition ConnectionList_init :: ConnectionList where
  "ConnectionList_init = updateCompareFunc
     \<lparr>m_storage = ConnectionStorage_init, m_list = [], m_targetSize = 0, m_scrollOffset = 0,
      m_cursorPos = 0, m_dataTotalCount = 0, m_dataResolvedCount = 0, m_connectionDetail = None,
      m_connectionDetailUpdateFlags = 0, m_sortMode = NONE, m_isSortAscending = False,
      m_isRefreshRequired = True, m_compareFunc = (\<lambda>_ _ _. False), m_effects = []\<rparr>"

text \<open>The installed comparison of two items.\<close>

definition item_less :: "ConnectionList \<Rightarrow> Item \<Rightarrow> Item \<Rightarrow> bool" where
  "item_less l a b = m_compareFunc l (m_storage l) (pConnection a) (pConnection b)"

section \<open>Sizes and positions\<close>

definition getSize :: "ConnectionList \<Rightarrow> nat" where
  "getSize l = (if length (m_list l) > m_scrollOffset l then length (m_list l) - m_scrollOffset l else 0)"

definition getCursorMaxPos :: "ConnectionList \<Rightarrow> nat" where
  "getCursorMaxPos l = (let visibleSize = getSize l in if visibleSize > 0 then visibleSize - 1 else 0)"

definition getListBeginIndex :: "ConnectionList \<Rightarrow> nat" where
  "getListBeginIndex l = (if length (m_list l) > m_scrollOffset l then m_scrollOffset l else 0)"

definition getListBeginIt :: "ConnectionList \<Rightarrow> nat" where
  "getListBeginIt l = (if length (m_list l) > m_scrollOffset l then m_scrollOffset l else length (m_list l))"

definition containsItem :: "ConnectionList \<Rightarrow> Item \<Rightarrow> bool" where
  "containsItem l item = list_ex (\<lambda>listItem. pConnection listItem = pConnection item) (m_list l)"

definition isEverythingResolved :: "ConnectionList \<Rightarrow> bool" where
  "isEverythingResolved l = (m_dataResolvedCount l = m_dataTotalCount l)"

definition getResolvedPercentage :: "ConnectionList \<Rightarrow> int" where
  "getResolvedPercentage l =
     (if m_dataTotalCount l > 0 then int (m_dataResolvedCount l * 1000 div m_dataTotalCount l) else - 1)"

section \<open>Invalidating rows\<close>

definition invalidate :: "Item \<Rightarrow> Item" where
  "invalidate i = i\<lparr>isRefreshRequired := True, updateFlags := - 1\<rparr>"

text \<open>The loops that invalidate every item from a position to the end.\<close>

definition invalidate_from :: "nat \<Rightarrow> Item list \<Rightarrow> Item list" where
  "invalidate_from n xs = take n xs @ map invalidate (drop n xs)"

definition invalidateAllVisible :: "ConnectionList \<Rightarrow> ConnectionList" where
  "invalidateAllVisible l =
     l\<lparr>m_list := invalidate_from (getListBeginIt l) (m_list l), m_isRefreshRequired := True\<rparr>"

definition invalidateCursor :: "ConnectionList \<Rightarrow> ConnectionList" where
  "invalidateCursor l =
     (let it = getListBeginIt l
      in if it \<noteq> length (m_list l)
         then let it = it + m_cursorPos l
              in l\<lparr>m_list := (m_list l)[it := invalidate (m_list l ! it)], m_isRefreshRequired := True\<rparr>
         else l)"

section \<open>Inserting, filling and sorting\<close>

definition insertItem :: "ConnectionList \<Rightarrow> Item \<Rightarrow> ConnectionList" where
  "insertItem l item =
     (let index = upper_bound (item_less l) (m_list l) item;
          l1 = l\<lparr>m_list := insert_upper (item_less l) (m_list l) item\<rparr>;
          l2 = (if getSize l1 > m_targetSize l1 then l1\<lparr>m_list := butlast (m_list l1)\<rparr> else l1);
          visibleBeginIndex = getListBeginIndex l2;
          index = (if index < visibleBeginIndex then visibleBeginIndex else index)
      in l2\<lparr>m_list := invalidate_from index (m_list l2), m_isRefreshRequired := True\<rparr>)"

definition fill_step :: "ConnectionList \<Rightarrow> Connection \<Rightarrow> ConnectionList" where
  "fill_step l p =
     (let item = Item_create p
      in if item_less l item (last (m_list l))
         then (if \<not> containsItem l item then insertItem l item else l)
         else if getSize l < m_targetSize l
         then (if \<not> containsItem l item then l\<lparr>m_list := m_list l @ [item]\<rparr> else l)
         else l)"

definition fill :: "ConnectionList \<Rightarrow> ConnectionList" where
  "fill l =
     (if m_targetSize l \<le> getSize l \<or> getConnectionCount (m_storage l) \<le> length (m_list l) then l
      else
        let l1 = (if m_list l = []
                  then l\<lparr>m_list := [Item_create (hd (connections (m_storage l)))]\<rparr> else l);
            l2 = foldl fill_step l1 (connections (m_storage l))
        in l2\<lparr>m_isRefreshRequired := True\<rparr>)"

definition sort :: "ConnectionList \<Rightarrow> ConnectionList" where
  "sort l = invalidateAllVisible (l\<lparr>m_list := std_sort (item_less l) (m_list l)\<rparr>)"

section \<open>Adding and removing connections\<close>

definition handleNewConnection :: "Connection \<Rightarrow> ConnectionList \<Rightarrow> ConnectionList" where
  "handleNewConnection p l =
     (let item = Item_create p
      in if m_list l \<noteq> [] \<and> item_less l item (last (m_list l)) then insertItem l item
         else if getSize l < m_targetSize l
         then l\<lparr>m_list := m_list l @ [item], m_isRefreshRequired := True\<rparr>
         else l)"

text \<open>The clamping of the cursor after the list may have become shorter.\<close>

definition clampCursor :: "ConnectionList \<Rightarrow> ConnectionList" where
  "clampCursor l =
     (let maxCursorPos = getCursorMaxPos l
      in if m_cursorPos l > maxCursorPos then invalidateCursor (l\<lparr>m_cursorPos := maxCursorPos\<rparr>) else l)"

definition handleRemovedConnection :: "Connection \<Rightarrow> ConnectionList \<Rightarrow> ConnectionList" where
  "handleRemovedConnection p l =
     (let l1 = (if m_connectionDetail l = Some p
                then l\<lparr>m_connectionDetail := None, m_connectionDetailUpdateFlags := - 1\<rparr> else l);
          it = find_index (\<lambda>i. pConnection i = p) (m_list l1);
          l2 = l1\<lparr>m_list := remove_first (\<lambda>i. pConnection i = p) (m_list l1)\<rparr>;
          visibleBegin = getListBeginIt l2;
          it = (if it < visibleBegin then visibleBegin else it);
          l3 = l2\<lparr>m_list := invalidate_from it (m_list l2)\<rparr>;
          l4 = clampCursor (fill l3)
      in l4\<lparr>m_isRefreshRequired := True\<rparr>)"

definition add :: "Connection \<Rightarrow> ConnectionTraffic \<Rightarrow> int \<Rightarrow> ConnectionList \<Rightarrow> ConnectionList" where
  "add c traffic state l =
     (let ((p, isNew), st) = addConnection c traffic state (m_storage l);
          l1 = l\<lparr>m_storage := st\<rparr>
      in if isNew then handleNewConnection p l1 else l1)"

text \<open>The overload without traffic and state.\<close>

definition add_new :: "Connection \<Rightarrow> ConnectionList \<Rightarrow> ConnectionList" where
  "add_new c l = add c ConnectionTraffic_zero 0 l"

definition remove :: "Connection \<Rightarrow> ConnectionList \<Rightarrow> ConnectionList" where
  "remove c l =
     (let (pData, st) = removeConnection c (m_storage l);
          l1 = l\<lparr>m_storage := st\<rparr>
      in case pData of None \<Rightarrow> l1 | Some p \<Rightarrow> handleRemovedConnection p l1)"

definition clear :: "ConnectionList \<Rightarrow> ConnectionList" where
  "clear l =
     l\<lparr>m_list := [], m_storage := clearConnections (m_storage l), m_cursorPos := 0,
       m_connectionDetail := None, m_connectionDetailUpdateFlags := - 1, m_isRefreshRequired := True\<rparr>"

definition find :: "Connection \<Rightarrow> ConnectionList \<Rightarrow> Connection option" where
  "find c l = getConnection c (m_storage l)"

section \<open>Addresses and ports\<close>

definition getAddress :: "inet \<Rightarrow> IAddress \<Rightarrow> bool \<Rightarrow> ConnectionList \<Rightarrow> IAddress option \<times> ConnectionList" where
  "getAddress net address addFlag l =
     (let (pData, isNew, st) =
        (case address of
           AddressIP4 a \<Rightarrow>
             (if addFlag
              then (let ((p, n), st) = addIP4Address net a (m_storage l) in (Some p, n, st))
              else (getIP4Address a (m_storage l), False, m_storage l))
         | AddressIP6 a \<Rightarrow>
             (if addFlag
              then (let ((p, n), st) = addIP6Address net a (m_storage l) in (Some p, n, st))
              else (getIP6Address a (m_storage l), False, m_storage l)));
          l1 = l\<lparr>m_storage := st\<rparr>
      in (pData,
          if isNew
          then l1\<lparr>m_dataTotalCount := m_dataTotalCount l1 + 1,
                  m_effects := m_effects l1 @ [ResolveAddress address]\<rparr>
          else l1))"

definition getPort :: "Port \<Rightarrow> bool \<Rightarrow> ConnectionList \<Rightarrow> Port option \<times> ConnectionList" where
  "getPort port addFlag l =
     (let (pData, isNew, st) =
        (if addFlag
         then (let ((p, n), st) = addPort port (m_storage l) in (Some p, n, st))
         else (storage_getPort port (m_storage l), False, m_storage l));
          l1 = l\<lparr>m_storage := st\<rparr>
      in (pData,
          if isNew
          then l1\<lparr>m_dataTotalCount := m_dataTotalCount l1 + 1,
                  m_effects := m_effects l1 @ [ResolvePort port]\<rparr>
          else l1))"

section \<open>Updates\<close>

text \<open>The updated row at position \<open>i\<close> is marked when it is visible.\<close>

definition update_mark :: "nat \<Rightarrow> flags \<Rightarrow> ConnectionList \<Rightarrow> ConnectionList" where
  "update_mark i flags l =
     (if i \<ge> getListBeginIndex l
      then l\<lparr>m_list := (m_list l)[i := (m_list l ! i)\<lparr>isRefreshRequired := True,
                updateFlags := updateFlags (m_list l ! i) OR flags\<rparr>],
             m_isRefreshRequired := True\<rparr>
      else l)"

text \<open>The comparisons of the updated row with its neighbours and with the last row.\<close>

definition is_sort_prev :: "nat \<Rightarrow> ConnectionList \<Rightarrow> bool" where
  "is_sort_prev i l = (i > 0 \<and> item_less l (m_list l ! i) (m_list l ! (i - 1)))"

definition is_sort_next :: "nat \<Rightarrow> ConnectionList \<Rightarrow> bool" where
  "is_sort_next i l = (i + 1 < length (m_list l) \<and> item_less l (m_list l ! (i + 1)) (m_list l ! i))"

definition is_fill_required :: "nat \<Rightarrow> ConnectionList \<Rightarrow> bool" where
  "is_fill_required i l =
     (if i + 1 < length (m_list l) then item_less l (last (m_list l)) (m_list l ! i)
      else \<not> is_sort_prev i l)"

definition update_order :: "nat \<Rightarrow> ConnectionList \<Rightarrow> ConnectionList" where
  "update_order i l =
     (let isSortRequired = (is_sort_prev i l \<or> is_sort_next i l);
          isFillRequired = is_fill_required i l;
          l2 = (if isSortRequired then sort l else l)
      in if isFillRequired then fill l2 else l2)"

definition update_rows :: "Connection \<Rightarrow> flags \<Rightarrow> ConnectionList \<Rightarrow> ConnectionList" where
  "update_rows p flags l =
     (if m_list l = [] then l
      else
        let i = find_index (\<lambda>it. pConnection it = p) (m_list l)
        in if i < length (m_list l) then update_order i (update_mark i flags l)
           else
             let item = Item_create p
             in if item_less l item (last (m_list l)) then insertItem l item else l)"

definition update :: "Connection \<Rightarrow> flags \<Rightarrow> ConnectionList \<Rightarrow> ConnectionList" where
  "update p flags l =
     update_rows p flags
       (if m_connectionDetail l = Some p then l\<lparr>m_connectionDetailUpdateFlags := flags\<rparr> else l)"

fun address_affects_order :: "EConnectionSortMode \<Rightarrow> bool" where
  "address_affects_order SRC_HOSTNAME = True"
| "address_affects_order DST_HOSTNAME = True"
| "address_affects_order SRC_COUNTRY = True"
| "address_affects_order DST_COUNTRY = True"
| "address_affects_order SRC_ASN = True"
| "address_affects_order DST_ASN = True"
| "address_affects_order _ = False"

fun port_affects_order :: "EConnectionSortMode \<Rightarrow> bool" where
  "port_affects_order SRC_SERVICE = True"
| "port_affects_order DST_SERVICE = True"
| "port_affects_order _ = False"

definition uses_address :: "IAddress \<Rightarrow> Connection \<Rightarrow> bool" where
  "uses_address a c = (c_srcAddr c = a \<or> c_dstAddr c = a)"

definition uses_port :: "Port \<Rightarrow> Connection \<Rightarrow> bool" where
  "uses_port p c = (connection_hasPorts c \<and> (c_srcPort c = p \<or> c_dstPort c = p))"

definition mark_address :: "IAddress \<Rightarrow> Item \<Rightarrow> Item" where
  "mark_address a i =
     (let i1 = (if c_srcAddr (pConnection i) = a
                then i\<lparr>updateFlags := updateFlags i OR F_SRC_ADDRESS, isRefreshRequired := True\<rparr> else i)
      in if c_dstAddr (pConnection i1) = a
         then i1\<lparr>updateFlags := updateFlags i1 OR F_DST_ADDRESS, isRefreshRequired := True\<rparr> else i1)"

definition mark_port :: "Port \<Rightarrow> Item \<Rightarrow> Item" where
  "mark_port p i =
     (if \<not> connection_hasPorts (pConnection i) then i
      else
        let i1 = (if c_srcPort (pConnection i) = p
                  then i\<lparr>updateFlags := updateFlags i OR F_SRC_PORT, isRefreshRequired := True\<rparr> else i)
        in if c_dstPort (pConnection i1) = p
           then i1\<lparr>updateFlags := updateFlags i1 OR F_DST_PORT, isRefreshRequired := True\<rparr> else i1)"

text \<open>The scan for stored connections that belong in the list now.\<close>

definition rescan_step :: "(Connection \<Rightarrow> bool) \<Rightarrow> ConnectionList \<Rightarrow> Connection \<Rightarrow> ConnectionList" where
  "rescan_step uses l p =
     (if uses p
      then let item = Item_create p
           in if item_less l item (last (m_list l)) \<and> \<not> containsItem l item then insertItem l item else l
      else l)"

text \<open>
  The common part of \<open>addressDataUpdated\<close> and \<open>portDataUpdated\<close> after the connection detail
  was marked: the two functions are the same but for which rows are concerned, how a row is marked
  and which sort modes depend on the data.
\<close>

definition dataUpdated_rows ::
  "bool \<Rightarrow> (Connection \<Rightarrow> bool) \<Rightarrow> (Item \<Rightarrow> Item) \<Rightarrow> ConnectionList \<Rightarrow> ConnectionList" where
  "dataUpdated_rows mayAffectOrder uses mark l =
     (if m_list l = [] then l
      else
        let begin = getListBeginIt l;
            hidden = (mayAffectOrder \<and> list_ex (\<lambda>i. uses (pConnection i)) (take begin (m_list l)));
            isVisible = list_ex (\<lambda>i. uses (pConnection i)) (drop begin (m_list l));
            l1 = l\<lparr>m_list := take begin (m_list l) @ map mark (drop begin (m_list l))\<rparr>;
            l2 = (if isVisible then l1\<lparr>m_isRefreshRequired := True\<rparr> else l1);
            contains = (hidden \<or> isVisible)
        in if mayAffectOrder
           then let l3 = (if contains then sort l2 else l2)
                in foldl (rescan_step uses) l3 (connections (m_storage l3))
           else l2)"

definition addressDataUpdated :: "IAddress \<Rightarrow> ConnectionList \<Rightarrow> ConnectionList" where
  "addressDataUpdated a l =
     (let f0 = m_connectionDetailUpdateFlags l;
          f = (case m_connectionDetail l of
                 None \<Rightarrow> f0
               | Some c \<Rightarrow>
                   let f1 = (if c_srcAddr c = a then f0 OR F_SRC_ADDRESS else f0)
                   in if c_dstAddr c = a then f1 OR F_DST_ADDRESS else f1)
      in dataUpdated_rows (address_affects_order (m_sortMode l)) (uses_address a) (mark_address a)
           (l\<lparr>m_connectionDetailUpdateFlags := f\<rparr>))"

definition portDataUpdated :: "Port \<Rightarrow> ConnectionList \<Rightarrow> ConnectionList" where
  "portDataUpdated p l =
     (let f0 = m_connectionDetailUpdateFlags l;
          f = (case m_connectionDetail l of
                 None \<Rightarrow> f0
               | Some c \<Rightarrow>
                   if \<not> connection_hasPorts c then f0
                   else
                     let f1 = (if c_srcPort c = p then f0 OR F_SRC_PORT else f0)
                     in if c_dstPort c = p then f1 OR F_DST_PORT else f1)
      in dataUpdated_rows (port_affects_order (m_sortMode l)) (uses_port p) (mark_port p)
           (l\<lparr>m_connectionDetailUpdateFlags := f\<rparr>))"

definition ResolverCallbackAddress ::
  "IAddress \<Rightarrow> string \<Rightarrow> Country \<Rightarrow> ASN \<Rightarrow> ConnectionList \<Rightarrow> ConnectionList" where
  "ResolverCallbackAddress a hostname country asn l =
     (let st = writeAddress a (\<lambda>d. setResolvedASN asn (setResolvedCountry country
                 (setResolvedHostname hostname d))) (m_storage l);
          l1 = l\<lparr>m_storage := st, m_dataResolvedCount := m_dataResolvedCount l + 1\<rparr>;
          l2 = addressDataUpdated a l1
      in l2\<lparr>m_effects := m_effects l2 @ [RefreshUI]\<rparr>)"

definition ResolverCallbackPort :: "Port \<Rightarrow> string \<Rightarrow> ConnectionList \<Rightarrow> ConnectionList" where
  "ResolverCallbackPort p service l =
     (let st = writePort p (setResolvedService service) (m_storage l);
          l1 = l\<lparr>m_storage := st, m_dataResolvedCount := m_dataResolvedCount l + 1\<rparr>;
          l2 = portDataUpdated p l1
      in l2\<lparr>m_effects := m_effects l2 @ [RefreshUI]\<rparr>)"

section \<open>Drawing, cursor and scrolling\<close>

fun next_loop :: "nat \<Rightarrow> nat \<Rightarrow> Item list \<Rightarrow> (ConnectionListUpdate \<times> Item list) option" where
  "next_loop row cursor [] = None"
| "next_loop row cursor (i # is) =
     (if isRefreshRequired i
      then Some (\<lparr>lu_data = Some (pConnection i), lu_updateFlags = updateFlags i, lu_rowNumber = row,
                  lu_isCursor = (row = cursor)\<rparr>,
                 i\<lparr>isRefreshRequired := False, updateFlags := 0\<rparr> # is)
      else map_option (\<lambda>(u, is'). (u, i # is')) (next_loop (row + 1) cursor is))"

definition getNextUpdate :: "ConnectionList \<Rightarrow> ConnectionListUpdate \<times> ConnectionList" where
  "getNextUpdate l =
     (if m_isRefreshRequired l
      then (let begin = getListBeginIt l
            in case next_loop 0 (m_cursorPos l) (drop begin (m_list l)) of
                 Some (u, is) \<Rightarrow> (u, l\<lparr>m_list := take begin (m_list l) @ is\<rparr>)
               | None \<Rightarrow> (ConnectionListUpdate_empty, l\<lparr>m_isRefreshRequired := False\<rparr>))
      else (ConnectionListUpdate_empty, l))"

definition doScroll :: "int \<Rightarrow> ConnectionList \<Rightarrow> ConnectionList" where
  "doScroll amount0 l =
     (if amount0 < 0
      then
        let maxAmount = int (m_scrollOffset l);
            amount = (if - amount0 > maxAmount then maxAmount else - amount0)
        in if amount > 0
           then
             let l1 = l\<lparr>m_scrollOffset := m_scrollOffset l - nat amount\<rparr>;
                 diff = int (getSize l1) - int (m_targetSize l1);
                 l2 = l1\<lparr>m_list := (butlast ^^ nat diff) (m_list l1)\<rparr>
             in invalidateAllVisible l2
           else l
      else if amount0 > 0
      then
        let maxAmount = int (getConnectionCount (m_storage l)) - int (length (m_list l));
            amount = (if amount0 > maxAmount then maxAmount else amount0)
        in if amount > 0
           then fill (invalidateAllVisible (l\<lparr>m_scrollOffset := m_scrollOffset l + nat amount\<rparr>))
           else l
      else l)"

definition moveCursor :: "int \<Rightarrow> ConnectionList \<Rightarrow> ConnectionList" where
  "moveCursor amount0 l =
     (if amount0 < 0
      then
        let amount = - amount0; maxAmount = int (m_cursorPos l)
        in if amount > maxAmount \<and> m_scrollOffset l > 0
           then doScroll (maxAmount - amount) (l\<lparr>m_cursorPos := 0\<rparr>)
           else if m_cursorPos l > 0
           then
             let amount = (if amount > maxAmount then maxAmount else amount);
                 l1 = invalidateCursor l
             in invalidateCursor (l1\<lparr>m_cursorPos := nat (int (m_cursorPos l1) - amount)\<rparr>)
           else l
      else if amount0 > 0
      then
        let amount = amount0; maxPos = getCursorMaxPos l;
            maxAmount = int maxPos - int (m_cursorPos l)
        in if amount > maxAmount \<and> getConnectionCount (m_storage l) > length (m_list l)
           then doScroll (amount - maxAmount) (l\<lparr>m_cursorPos := maxPos\<rparr>)
           else if m_cursorPos l < maxPos
           then
             let amount = (if amount > maxAmount then maxAmount else amount);
                 l1 = invalidateCursor l
             in invalidateCursor (l1\<lparr>m_cursorPos := nat (int (m_cursorPos l1) + amount)\<rparr>)
           else l
      else l)"

definition initConnectionDetail :: "ConnectionList \<Rightarrow> ConnectionList" where
  "initConnectionDetail l =
     (let it = getListBeginIt l
      in if it \<noteq> length (m_list l)
         then l\<lparr>m_connectionDetail := Some (pConnection (m_list l ! (it + m_cursorPos l))),
                m_connectionDetailUpdateFlags := - 1\<rparr>
         else l\<lparr>m_connectionDetail := None, m_connectionDetailUpdateFlags := - 1\<rparr>)"

definition resetConnectionDetailRefresh :: "ConnectionList \<Rightarrow> ConnectionList" where
  "resetConnectionDetailRefresh l = l\<lparr>m_connectionDetailUpdateFlags := 0\<rparr>"

definition setTargetSize :: "nat \<Rightarrow> ConnectionList \<Rightarrow> ConnectionList" where
  "setTargetSize sz l =
     (if m_targetSize l \<noteq> sz
      then
        let l1 = l\<lparr>m_targetSize := sz\<rparr>;
            currentSize = getSize l1;
            l2 = (if currentSize > m_targetSize l1
                  then l1\<lparr>m_list := (butlast ^^ (currentSize - m_targetSize l1)) (m_list l1),
                          m_isRefreshRequired := True\<rparr>
                  else if currentSize < m_targetSize l1 then fill l1
                  else l1)
        in clampCursor l2
      else l)"

definition setSortMode :: "EConnectionSortMode \<Rightarrow> bool \<Rightarrow> ConnectionList \<Rightarrow> ConnectionList" where
  "setSortMode sortMode isAscending l =
     (if m_sortMode l \<noteq> sortMode \<or> m_isSortAscending l \<noteq> isAscending
      then
        let l1 = updateCompareFunc (l\<lparr>m_sortMode := sortMode, m_isSortAscending := isAscending\<rparr>);
            l2 = fill (l1\<lparr>m_list := []\<rparr>)
        in l2\<lparr>m_isRefreshRequired := True\<rparr>
      else l)"

end
