(* ===== verification/ConnListInv.thy ===== *)
theory ConnListInv
  imports ConnList
begin

text \<open>
  The correctness of \<^verbatim>\<open>ConnectionList\<close>. The pointers held by the rows (\<open>ptrs\<close>)
  refine the abstract list of theory \<open>TopList\<close>; every operation keeps \<open>list_inv\<close>: the
  rows are sorted, without duplicates, point to stored connections only, are exactly as many as fit,
  and the cursor is on a row.
\<close>

definition ptrs :: "ConnectionList \<Rightarrow> Connection list" where
  "ptrs l = map pConnection (m_list l)"

definition cmp :: "ConnectionList \<Rightarrow> Connection \<Rightarrow> Connection \<Rightarrow> bool" where
  "cmp l = m_compareFunc l (m_storage l)"

definition stored :: "ConnectionList \<Rightarrow> Connection set" where
  "stored l = set (connections (m_storage l))"

text \<open>The operation changed nothing but the rows and the refresh flag.\<close>

definition rows_only :: "ConnectionList \<Rightarrow> ConnectionList \<Rightarrow> bool" where
  "rows_only l l' \<longleftrightarrow> l' = l\<lparr>m_list := m_list l', m_isRefreshRequired := m_isRefreshRequired l'\<rparr>"

definition visible_rows :: "ConnectionList \<Rightarrow> nat" where
  "visible_rows l = min (getConnectionCount (m_storage l) - m_scrollOffset l) (m_targetSize l)"

text \<open>Everything but the order and the number of the rows.\<close>

definition list_base :: "ConnectionList \<Rightarrow> bool" where
  "list_base l \<longleftrightarrow>
     storage_wf (m_storage l) \<and>
     m_compareFunc l = compareFunc (m_sortMode l) (m_isSortAscending l) \<and>
     distinct (ptrs l) \<and> set (ptrs l) \<subseteq> stored l \<and>
     length (m_list l) \<le> m_scrollOffset l + m_targetSize l \<and>
     (\<forall>c. m_connectionDetail l = Some c \<longrightarrow> c \<in> stored l)"

definition list_rows :: "ConnectionList \<Rightarrow> bool" where
  "list_rows l \<longleftrightarrow>
     list_base l \<and> sorted_by (cmp l) (ptrs l) \<and>
     sized (m_scrollOffset l) (m_targetSize l) (getConnectionCount (m_storage l)) (length (m_list l))"

definition list_inv :: "ConnectionList \<Rightarrow> bool" where
  "list_inv l \<longleftrightarrow> list_rows l \<and> m_cursorPos l \<le> getCursorMaxPos l"

section \<open>Frames\<close>

lemma rows_only_refl [simp]: "rows_only l l"
  by (simp add: rows_only_def)

lemma rows_only_trans [trans]: "rows_only a b \<Longrightarrow> rows_only b c \<Longrightarrow> rows_only a c"
  by (cases a; cases b; cases c) (simp add: rows_only_def)

lemma rows_onlyD:
  assumes "rows_only l l'"
  shows "m_storage l' = m_storage l" "m_targetSize l' = m_targetSize l"
    "m_scrollOffset l' = m_scrollOffset l" "m_cursorPos l' = m_cursorPos l"
    "m_connectionDetail l' = m_connectionDetail l" "m_sortMode l' = m_sortMode l"
    "m_isSortAscending l' = m_isSortAscending l" "m_compareFunc l' = m_compareFunc l"
    "m_dataTotalCount l' = m_dataTotalCount l" "m_dataResolvedCount l' = m_dataResolvedCount l"
    "cmp l' = cmp l" "stored l' = stored l" "visible_rows l' = visible_rows l"
  using assms by (cases l; cases l'; simp add: rows_only_def cmp_def stored_def visible_rows_def)+

lemma frame_ptrs [simp]:
  "ptrs (l\<lparr>m_cursorPos := n\<rparr>) = ptrs l"
  "ptrs (l\<lparr>m_connectionDetailUpdateFlags := f\<rparr>) = ptrs l"
  "ptrs (l\<lparr>m_isRefreshRequired := b\<rparr>) = ptrs l"
  "ptrs (l\<lparr>m_dataTotalCount := n\<rparr>) = ptrs l"
  "ptrs (l\<lparr>m_dataResolvedCount := n\<rparr>) = ptrs l"
  "ptrs (l\<lparr>m_effects := es\<rparr>) = ptrs l"
  "ptrs (l\<lparr>m_connectionDetail := d\<rparr>) = ptrs l"
  "ptrs (l\<lparr>m_storage := st\<rparr>) = ptrs l"
  "ptrs (l\<lparr>m_targetSize := n\<rparr>) = ptrs l"
  "ptrs (l\<lparr>m_scrollOffset := n\<rparr>) = ptrs l"
  "ptrs (l\<lparr>m_sortMode := sm\<rparr>) = ptrs l"
  "ptrs (l\<lparr>m_isSortAscending := b\<rparr>) = ptrs l"
  "ptrs (l\<lparr>m_compareFunc := cf\<rparr>) = ptrs l"
  by (simp_all add: ptrs_def)

lemma ptrs_list [simp]: "ptrs (l\<lparr>m_list := xs\<rparr>) = map pConnection xs"
  by (simp add: ptrs_def)

lemma frame_cmp [simp]:
  "cmp (l\<lparr>m_cursorPos := n\<rparr>) = cmp l"
  "cmp (l\<lparr>m_connectionDetailUpdateFlags := f\<rparr>) = cmp l"
  "cmp (l\<lparr>m_isRefreshRequired := b\<rparr>) = cmp l"
  "cmp (l\<lparr>m_dataTotalCount := n\<rparr>) = cmp l"
  "cmp (l\<lparr>m_dataResolvedCount := n\<rparr>) = cmp l"
  "cmp (l\<lparr>m_effects := es\<rparr>) = cmp l"
  "cmp (l\<lparr>m_connectionDetail := d\<rparr>) = cmp l"
  "cmp (l\<lparr>m_list := xs\<rparr>) = cmp l"
  "cmp (l\<lparr>m_targetSize := n\<rparr>) = cmp l"
  "cmp (l\<lparr>m_scrollOffset := n\<rparr>) = cmp l"
  "cmp (l\<lparr>m_sortMode := sm\<rparr>) = cmp l"
  "cmp (l\<lparr>m_isSortAscending := b\<rparr>) = cmp l"
  by (simp_all add: cmp_def)

lemma frame_stored [simp]:
  "stored (l\<lparr>m_cursorPos := n\<rparr>) = stored l"
  "stored (l\<lparr>m_connectionDetailUpdateFlags := f\<rparr>) = stored l"
  "stored (l\<lparr>m_isRefreshRequired := b\<rparr>) = stored l"
  "stored (l\<lparr>m_dataTotalCount := n\<rparr>) = stored l"
  "stored (l\<lparr>m_dataResolvedCount := n\<rparr>) = stored l"
  "stored (l\<lparr>m_effects := es\<rparr>) = stored l"
  "stored (l\<lparr>m_connectionDetail := d\<rparr>) = stored l"
  "stored (l\<lparr>m_list := xs\<rparr>) = stored l"
  "stored (l\<lparr>m_targetSize := n\<rparr>) = stored l"
  "stored (l\<lparr>m_scrollOffset := n\<rparr>) = stored l"
  "stored (l\<lparr>m_sortMode := sm\<rparr>) = stored l"
  "stored (l\<lparr>m_isSortAscending := b\<rparr>) = stored l"
  "stored (l\<lparr>m_compareFunc := cf\<rparr>) = stored l"
  by (simp_all add: stored_def)

lemma frame_visible_rows [simp]:
  "visible_rows (l\<lparr>m_cursorPos := n\<rparr>) = visible_rows l"
  "visible_rows (l\<lparr>m_connectionDetailUpdateFlags := f\<rparr>) = visible_rows l"
  "visible_rows (l\<lparr>m_isRefreshRequired := b\<rparr>) = visible_rows l"
  "visible_rows (l\<lparr>m_dataTotalCount := n\<rparr>) = visible_rows l"
  "visible_rows (l\<lparr>m_dataResolvedCount := n\<rparr>) = visible_rows l"
  "visible_rows (l\<lparr>m_effects := es\<rparr>) = visible_rows l"
  "visible_rows (l\<lparr>m_connectionDetail := d\<rparr>) = visible_rows l"
  "visible_rows (l\<lparr>m_list := xs\<rparr>) = visible_rows l"
  "visible_rows (l\<lparr>m_sortMode := sm\<rparr>) = visible_rows l"
  "visible_rows (l\<lparr>m_isSortAscending := b\<rparr>) = visible_rows l"
  "visible_rows (l\<lparr>m_compareFunc := cf\<rparr>) = visible_rows l"
  by (simp_all add: visible_rows_def)

lemma frame_list_base [simp]:
  "list_base (l\<lparr>m_cursorPos := n\<rparr>) = list_base l"
  "list_base (l\<lparr>m_connectionDetailUpdateFlags := f\<rparr>) = list_base l"
  "list_base (l\<lparr>m_isRefreshRequired := b\<rparr>) = list_base l"
  "list_base (l\<lparr>m_dataTotalCount := n\<rparr>) = list_base l"
  "list_base (l\<lparr>m_dataResolvedCount := n\<rparr>) = list_base l"
  "list_base (l\<lparr>m_effects := es\<rparr>) = list_base l"
  by (simp_all add: list_base_def)

lemma frame_list_rows [simp]:
  "list_rows (l\<lparr>m_cursorPos := n\<rparr>) = list_rows l"
  "list_rows (l\<lparr>m_connectionDetailUpdateFlags := f\<rparr>) = list_rows l"
  "list_rows (l\<lparr>m_isRefreshRequired := b\<rparr>) = list_rows l"
  "list_rows (l\<lparr>m_dataTotalCount := n\<rparr>) = list_rows l"
  "list_rows (l\<lparr>m_dataResolvedCount := n\<rparr>) = list_rows l"
  "list_rows (l\<lparr>m_effects := es\<rparr>) = list_rows l"
  by (simp_all add: list_rows_def)

lemma rows_only_insertItem: "rows_only l (insertItem l it)"
  by (simp add: rows_only_def insertItem_def Let_def)

lemma rows_only_fill_step: "rows_only l (fill_step l p)"
  by (simp add: fill_step_def Let_def rows_only_insertItem) (simp add: rows_only_def)

lemma rows_only_foldl: "(\<And>l p. rows_only l (f l p)) \<Longrightarrow> rows_only l (foldl f l ps)"
  by (induction ps arbitrary: l) (auto intro: rows_only_trans)

lemma rows_only_set: "rows_only l l' \<Longrightarrow> rows_only l (l'\<lparr>m_isRefreshRequired := b\<rparr>)"
  and rows_only_list: "rows_only l l' \<Longrightarrow> rows_only l (l'\<lparr>m_list := xs\<rparr>)"
  by (cases l; cases l'; simp add: rows_only_def)+

lemma rows_only_fill: "rows_only l (fill l)"
proof -
  have "rows_only l (foldl fill_step (if m_list l = [] then l\<lparr>m_list := x\<rparr> else l) ps)" for x ps
    by (rule rows_only_trans [OF _ rows_only_foldl [OF rows_only_fill_step]])
      (simp add: rows_only_def)
  then show ?thesis by (simp add: fill_def Let_def rows_only_set)
qed

lemma rows_only_invalidateAllVisible: "rows_only l (invalidateAllVisible l)"
  by (simp add: rows_only_def invalidateAllVisible_def)

lemma rows_only_invalidateCursor: "rows_only l (invalidateCursor l)"
  by (simp add: rows_only_def invalidateCursor_def Let_def)

lemma rows_only_sort: "rows_only l (sort l)"
  by (simp add: rows_only_def sort_def invalidateAllVisible_def)

lemma rows_only_rescan_step: "rows_only l (rescan_step uses l p)"
  by (simp add: rescan_step_def Let_def rows_only_insertItem)

lemmas rows_only_intros = rows_only_refl rows_only_insertItem rows_only_fill
  rows_only_invalidateAllVisible rows_only_invalidateCursor rows_only_sort rows_only_rescan_step

lemmas rows_only_frames [list_frame] =
  rows_onlyD [OF rows_only_insertItem] rows_onlyD [OF rows_only_fill] rows_onlyD [OF rows_only_sort]
  rows_onlyD [OF rows_only_invalidateAllVisible] rows_onlyD [OF rows_only_invalidateCursor]
  rows_onlyD [OF rows_only_fill_step] rows_onlyD [OF rows_only_rescan_step]

section \<open>The rows refine the abstract list\<close>

lemma length_ptrs [simp]: "length (ptrs l) = length (m_list l)"
  by (simp add: ptrs_def)

lemma ptrs_Nil [simp]: "ptrs l = [] \<longleftrightarrow> m_list l = []"
  by (simp add: ptrs_def)

lemma last_ptrs: "m_list l \<noteq> [] \<Longrightarrow> last (ptrs l) = pConnection (last (m_list l))"
  by (simp add: ptrs_def last_map)

lemma pConnection_invalidate [simp]: "pConnection (invalidate i) = pConnection i"
  by (simp add: invalidate_def)

lemma pConnection_Item_create [simp]: "pConnection (Item_create p) = p"
  by (simp add: Item_create_def)

lemma map_invalidate_from [simp]: "map pConnection (invalidate_from n xs) = map pConnection xs"
proof -
  have "map pConnection (map invalidate ys) = map pConnection ys" for ys by simp
  then show ?thesis by (metis invalidate_from_def append_take_drop_id map_append)
qed

lemma length_invalidate_from [simp]: "length (invalidate_from n xs) = length xs"
  by (metis length_map map_invalidate_from)

lemma item_less_cmp: "item_less l = (\<lambda>a b. cmp l (pConnection a) (pConnection b))"
  by (intro ext) (simp add: item_less_def cmp_def)

lemma containsItem_iff: "containsItem l it \<longleftrightarrow> pConnection it \<in> set (ptrs l)"
  by (simp add: containsItem_def list_ex_iff ptrs_def image_iff) metis

lemma getSize_eq: "getSize l = length (m_list l) - m_scrollOffset l"
  by (simp add: getSize_def)

lemma ptrs_invalidateAllVisible: "ptrs (invalidateAllVisible l) = ptrs l"
  by (simp add: ptrs_def invalidateAllVisible_def)

lemma ptrs_invalidateCursor: "ptrs (invalidateCursor l) = ptrs l"
proof -
  have "map pConnection (xs[i := invalidate (xs ! i)]) = map pConnection xs" for xs i
    by (cases "i < length xs") (simp_all add: map_eq_nth_update list_update_beyond)
  then show ?thesis by (simp add: ptrs_def invalidateCursor_def Let_def)
qed

lemma ptrs_insertItem:
  "ptrs (insertItem l it) =
     pinsert (cmp l) (m_scrollOffset l) (m_targetSize l) (ptrs l) (pConnection it)"
proof -
  have "map pConnection (insert_upper (item_less l) (m_list l) it)
      = insert_upper (cmp l) (ptrs l) (pConnection it)"
    unfolding item_less_cmp ptrs_def by (rule map_insert_upper)
  moreover have "length (insert_upper (item_less l) (m_list l) it)
      = length (insert_upper (cmp l) (ptrs l) (pConnection it))"
    by (simp add: length_insert_upper)
  ultimately show ?thesis
    by (simp add: ptrs_def insertItem_def Let_def pinsert_def getSize_eq map_butlast)
qed

lemma ptrs_fill_step:
  assumes "m_list l \<noteq> []"
  shows "ptrs (fill_step l p) = pfill_step (cmp l) (m_scrollOffset l) (m_targetSize l) (ptrs l) p"
  using assms ptrs_insertItem [of l "Item_create p"]
  by (auto simp: fill_step_def pfill_step_def Let_def containsItem_iff item_less_cmp last_ptrs getSize_eq)
    (simp_all add: ptrs_def)

lemma pfill_step_not_Nil:
  "ys \<noteq> [] \<Longrightarrow> length ys \<le> off + tgt \<Longrightarrow> 0 < tgt \<Longrightarrow>
     pfill_step lt off tgt ys c \<noteq> [] \<and> length (pfill_step lt off tgt ys c) \<le> off + tgt"
  using length_pinsert [of ys off tgt lt c] pinsert_not_Nil [of ys off tgt lt c]
  by (auto simp: pfill_step_def)

lemma ptrs_foldl_fill_step:
  assumes "m_list l \<noteq> []" and "length (m_list l) \<le> m_scrollOffset l + m_targetSize l"
    and "0 < m_targetSize l"
  shows "ptrs (foldl fill_step l ps)
    = foldl (pfill_step (cmp l) (m_scrollOffset l) (m_targetSize l)) (ptrs l) ps"
  using assms
proof (induction ps arbitrary: l)
  case (Cons p ps)
  let ?l = "fill_step l p"
  have e: "ptrs ?l = pfill_step (cmp l) (m_scrollOffset l) (m_targetSize l) (ptrs l) p"
    using Cons.prems by (simp add: ptrs_fill_step)
  have "ptrs ?l \<noteq> []" and "length (ptrs ?l) \<le> m_scrollOffset l + m_targetSize l"
    using pfill_step_not_Nil [of "ptrs l" "m_scrollOffset l" "m_targetSize l" "cmp l" p] Cons.prems
    by (simp_all add: e)
  then have "ptrs (foldl fill_step ?l ps)
      = foldl (pfill_step (cmp l) (m_scrollOffset l) (m_targetSize l)) (ptrs ?l) ps"
    using Cons.IH [of ?l] Cons.prems(3) by (simp add: list_frame)
  then show ?case by (simp add: e)
qed simp

text \<open>\<open>fill\<close> refines the abstract scan.\<close>

lemma ptrs_fill:
  assumes "length (m_list l) \<le> m_scrollOffset l + m_targetSize l"
  shows "ptrs (fill l)
    = pfill (cmp l) (m_scrollOffset l) (m_targetSize l) (connections (m_storage l)) (ptrs l)"
proof (cases "m_targetSize l \<le> getSize l \<or> getConnectionCount (m_storage l) \<le> length (m_list l)")
  case True
  then show ?thesis by (auto simp: fill_def pfill_def getSize_eq connection_count_keys)
next
  case False
  let ?l = "if m_list l = [] then l\<lparr>m_list := [Item_create (hd (connections (m_storage l)))]\<rparr> else l"
  have frame: "cmp ?l = cmp l" "m_scrollOffset ?l = m_scrollOffset l" "m_targetSize ?l = m_targetSize l"
    by (simp_all add: cmp_def)
  have tgt: "0 < m_targetSize l" using False by simp
  have "ptrs (fill l) = ptrs (foldl fill_step ?l (connections (m_storage l)))"
    using False by (simp add: fill_def Let_def ptrs_def)
  also have "\<dots> = foldl (pfill_step (cmp l) (m_scrollOffset l) (m_targetSize l)) (ptrs ?l)
      (connections (m_storage l))"
    using assms tgt ptrs_foldl_fill_step [of ?l] unfolding frame by simp
  also have "ptrs ?l = (if ptrs l = [] then [hd (connections (m_storage l))] else ptrs l)"
    by (simp add: ptrs_def)
  finally show ?thesis
    using False by (auto simp: pfill_def getSize_eq connection_count_keys)
qed

lemma ptrs_sort: "mset (ptrs (sort l)) = mset (ptrs l)"
  by (simp add: sort_def ptrs_invalidateAllVisible)
    (simp add: ptrs_def std.mset_srt)

lemma sorted_ptrs_sort:
  assumes "strict_weak_order (cmp l)"
  shows "sorted_by (cmp l) (ptrs (sort l))"
proof -
  have "strict_weak_order (item_less l)"
    using assms unfolding item_less_cmp strict_weak_order_def by blast
  then have "sorted_by (item_less l) (std_sort (item_less l) (m_list l))"
    by (rule strict_weak_order.sorted_std_sort)
  then show ?thesis
    by (simp add: sort_def ptrs_invalidateAllVisible)
      (simp add: ptrs_def item_less_cmp sorted_by_map)
qed


section \<open>Preservation by the parts\<close>

lemma sized_visible:
  "sized off tgt cnt len \<Longrightarrow> len - off = min (cnt - off) tgt"
  by (auto simp: sized_def split: if_splits)

lemma cursorMax_rows: "list_rows l \<Longrightarrow> getCursorMaxPos l = visible_rows l - 1"
  using sized_visible
  by (fastforce simp: list_rows_def getCursorMaxPos_def getSize_eq visible_rows_def Let_def)

lemma list_inv_iff: "list_inv l \<longleftrightarrow> list_rows l \<and> m_cursorPos l \<le> visible_rows l - 1"
  by (auto simp: list_inv_def cursorMax_rows)

lemma list_base_swo: "list_base l \<Longrightarrow> strict_weak_order (cmp l)"
  by (simp add: list_base_def cmp_def swo_compareFunc)

lemma list_base_distinct: "list_base l \<Longrightarrow> distinct (connections (m_storage l))"
  by (simp add: list_base_def distinct_connections)

lemma list_base_selection:
  "list_base l \<Longrightarrow> sorted_by (cmp l) (ptrs l) \<Longrightarrow> selection (cmp l) (stored l) (ptrs l)"
  by (simp add: list_base_def selection_def)

lemma list_base_rows_only:
  assumes "list_base l" and "rows_only l l'"
    and "distinct (ptrs l')" and "set (ptrs l') \<subseteq> stored l"
    and "length (m_list l') \<le> m_scrollOffset l + m_targetSize l"
  shows "list_base l'"
  using assms unfolding list_base_def by (simp add: rows_onlyD [OF assms(2)])

lemma list_rows_rows_only:
  assumes "list_base l" and "rows_only l l'" and "selection (cmp l) (stored l) (ptrs l')"
    and "sized (m_scrollOffset l) (m_targetSize l) (getConnectionCount (m_storage l)) (length (ptrs l'))"
  shows "list_rows l'"
  using assms list_base_rows_only [OF assms(1,2)] sized_le
  by (auto simp: list_rows_def rows_onlyD [OF assms(2)] selection_def)

lemma list_rows_same_ptrs:
  assumes "list_rows l" and "rows_only l l'" and "ptrs l' = ptrs l"
  shows "list_rows l'"
  using assms list_base_selection by (intro list_rows_rows_only [of l]) (auto simp: list_rows_def)

lemma list_inv_rows_only:
  "list_inv l \<Longrightarrow> rows_only l l' \<Longrightarrow> list_rows l' \<Longrightarrow> list_inv l'"
  by (simp add: list_inv_iff rows_onlyD)

lemma list_rows_fill:
  assumes "list_base l" and "sorted_by (cmp l) (ptrs l)"
  shows "list_rows (fill l)"
proof (rule list_rows_rows_only [OF assms(1) rows_only_fill])
  note swo = list_base_swo [OF assms(1)] and sel = list_base_selection [OF assms]
  have len: "length (m_list l) \<le> m_scrollOffset l + m_targetSize l"
    using assms(1) by (simp add: list_base_def)
  note fill = strict_weak_order.pfill_selection [OF swo, of "connections (m_storage l)" "ptrs l"
      "m_scrollOffset l" "m_targetSize l"]
  show "selection (cmp l) (stored l) (ptrs (fill l))"
    using fill(1) sel len list_base_distinct [OF assms(1)]
    by (simp add: ptrs_fill stored_def)
  show "sized (m_scrollOffset l) (m_targetSize l) (getConnectionCount (m_storage l))
      (length (ptrs (fill l)))"
    using fill(2) sel len list_base_distinct [OF assms(1)]
    unfolding ptrs_fill [OF len] connection_count_keys by (simp add: stored_def)
qed

lemma sized_grow:
  "sized off tgt cnt len \<Longrightarrow> len < cnt \<Longrightarrow>
     sized off tgt cnt (if len = off + tgt then off + tgt else Suc len)"
  by (auto simp: sized_def split: if_splits)

lemma unlisted_room:
  assumes "list_base l" and "p \<in> stored l" and "p \<notin> set (ptrs l)"
  shows "length (m_list l) < getConnectionCount (m_storage l)"
proof -
  have "set (ptrs l) \<subset> set (connections (m_storage l))"
    using assms by (auto simp: list_base_def stored_def)
  then have "card (set (ptrs l)) < card (set (connections (m_storage l)))"
    by (simp add: psubset_card_mono)
  moreover have "card (set (ptrs l)) = length (m_list l)"
    using assms(1) distinct_card [of "ptrs l"] by (simp add: list_base_def)
  moreover have "card (set (connections (m_storage l))) = getConnectionCount (m_storage l)"
    using distinct_card [OF list_base_distinct [OF assms(1)]] by (simp add: connection_count_keys)
  ultimately show ?thesis by simp
qed

lemma list_rows_insertItem:
  assumes "list_rows l" and "pConnection it \<in> stored l" and "pConnection it \<notin> set (ptrs l)"
  shows "list_rows (insertItem l it)"
proof (rule list_rows_rows_only [OF _ rows_only_insertItem])
  show base: "list_base l" using assms(1) by (simp add: list_rows_def)
  note swo = list_base_swo [OF base]
  have "selection (cmp l) (stored l) (ptrs l)"
    using assms(1) by (simp add: list_base_selection list_rows_def)
  with assms(2,3) show "selection (cmp l) (stored l) (ptrs (insertItem l it))"
    unfolding ptrs_insertItem by (intro strict_weak_order.selection_pinsert [OF swo])
  have len: "length (ptrs l) \<le> m_scrollOffset l + m_targetSize l" using base by (simp add: list_base_def)
  show "sized (m_scrollOffset l) (m_targetSize l) (getConnectionCount (m_storage l))
      (length (ptrs (insertItem l it)))"
    unfolding ptrs_insertItem length_pinsert [OF len]
    unfolding length_ptrs using assms(1)
    by (intro sized_grow [OF _ unlisted_room [OF base assms(2,3)]]) (simp add: list_rows_def)
qed

lemma list_base_sort: "list_base l \<Longrightarrow> list_base (sort l)"
  using ptrs_sort [of l] mset_eq_setD [OF ptrs_sort [of l]] mset_eq_length [OF ptrs_sort [of l]]
  by (intro list_base_rows_only [OF _ rows_only_sort])
    (auto simp: list_base_def dest: mset_eq_imp_distinct_iff)

lemma sort_sorted: "list_base l \<Longrightarrow> sorted_by (cmp (sort l)) (ptrs (sort l))"
  using sorted_ptrs_sort [OF list_base_swo] by (simp add: list_frame)

lemma list_rows_sort:
  assumes "list_base l"
    and "sized (m_scrollOffset l) (m_targetSize l) (getConnectionCount (m_storage l)) (length (m_list l))"
  shows "list_rows (sort l)"
  using list_base_sort [OF assms(1)] sort_sorted [OF assms(1)] assms(2)
    mset_eq_length [OF ptrs_sort [of l]]
  by (simp add: list_rows_def list_frame)

lemma list_inv_clampCursor:
  assumes "list_rows l"
  shows "list_inv (clampCursor l)"
proof -
  let ?l = "l\<lparr>m_cursorPos := getCursorMaxPos l\<rparr>"
  have "list_rows ?l" using assms by simp
  then have "list_inv ?l"
    using cursorMax_rows [OF assms] by (simp add: list_inv_iff visible_rows_def)
  moreover have "list_inv (invalidateCursor ?l)" if "list_inv ?l"
    by (rule list_inv_rows_only [OF that rows_only_invalidateCursor])
      (rule list_rows_same_ptrs [OF _ rows_only_invalidateCursor ptrs_invalidateCursor],
        use that in \<open>simp add: list_inv_def\<close>)
  ultimately show ?thesis using assms by (simp add: clampCursor_def Let_def list_inv_def)
qed

end
