(* ===== verification/ConnListOps.thy ===== *)
theory ConnListOps
  imports ConnListInv
begin

text \<open>
  Every operation of \<^verbatim>\<open>ConnectionList\<close> keeps \<open>list_inv\<close>, and the invariant holds in
  every state reachable through the public interface.
\<close>

section \<open>The storage below the list changes\<close>

lemma list_base_storage:
  assumes "list_base l" and "storage_wf st" and "set (connections (m_storage l)) \<subseteq> set (connections st)"
  shows "list_base (l\<lparr>m_storage := st\<rparr>)"
  using assms by (auto simp: list_base_def stored_def)

lemma sorted_storage:
  assumes "list_base l" and "sorted_by (cmp l) (ptrs l)"
    and "\<And>c. c \<in> set (ptrs l) \<Longrightarrow> same_view (m_storage l) st c"
  shows "sorted_by (cmp (l\<lparr>m_storage := st\<rparr>)) (ptrs l)"
  using assms sorted_by_view [of "ptrs l" "m_storage l" st]
  by (simp add: list_base_def cmp_def)

lemma sorted_but_storage:
  assumes "list_base l" and "sorted_by (cmp l) (ptrs l)"
    and "\<And>x. x \<noteq> c \<Longrightarrow> same_view (m_storage l) st x"
  shows "sorted_by (compareFunc (m_sortMode l) (m_isSortAscending l) st) (filter (\<lambda>x. x \<noteq> c) (ptrs l))"
proof (rule sorted_by_view)
  show "sorted_by (compareFunc (m_sortMode l) (m_isSortAscending l) (m_storage l))
      (filter (\<lambda>x. x \<noteq> c) (ptrs l))"
    using assms(1) sorted_by_filter [OF assms(2)] by (simp add: list_base_def cmp_def)
qed (use assms(3) in simp)

lemma list_inv_storage:
  assumes "list_inv l" and "storage_wf st" and "connections st = connections (m_storage l)"
    and "\<And>c. c \<in> stored l \<Longrightarrow> same_view (m_storage l) st c"
  shows "list_inv (l\<lparr>m_storage := st\<rparr>)"
proof -
  have base: "list_base l" and sub: "set (ptrs l) \<subseteq> stored l"
    using assms(1) by (auto simp: list_inv_def list_rows_def list_base_def)
  have "list_base (l\<lparr>m_storage := st\<rparr>)"
    using base assms by (intro list_base_storage) auto
  moreover have "sorted_by (cmp (l\<lparr>m_storage := st\<rparr>)) (ptrs l)"
    using assms sub base by (intro sorted_storage) (auto simp: list_inv_def list_rows_def)
  ultimately show ?thesis
    using assms(1,3)
    by (simp add: list_inv_iff list_rows_def visible_rows_def connection_count_keys)
qed

section \<open>Adding and removing\<close>

lemma sized_Suc_full: "sized off tgt cnt len \<Longrightarrow> \<not> len - off < tgt \<Longrightarrow> sized off tgt (Suc cnt) len"
  by (auto simp: sized_def split: if_splits)

lemma sized_Suc_room: "sized off tgt cnt len \<Longrightarrow> len - off < tgt \<Longrightarrow> sized off tgt (Suc cnt) (Suc len)"
  by (auto simp: sized_def split: if_splits)

lemma sized_Suc_insert:
  "sized off tgt cnt len \<Longrightarrow> sized off tgt (Suc cnt) (if len = off + tgt then off + tgt else Suc len)"
  by (auto simp: sized_def split: if_splits)

lemma visible_rows_grow:
  "m_cursorPos l \<le> visible_rows l - 1 \<Longrightarrow>
     getConnectionCount (m_storage l) \<le> getConnectionCount st \<Longrightarrow>
     m_cursorPos l \<le> visible_rows (l\<lparr>m_storage := st\<rparr>) - 1"
  by (auto simp: visible_rows_def)

text \<open>A new connection: the storage has grown by \<open>p\<close>, the list is still the old one.\<close>

lemma list_rows_handleNewConnection:
  assumes base: "list_base l" and sorted: "sorted_by (cmp l) (ptrs l)"
    and p: "p \<in> stored l" "p \<notin> set (ptrs l)"
    and cnt: "getConnectionCount (m_storage l) = Suc n"
    and sz: "sized (m_scrollOffset l) (m_targetSize l) n (length (m_list l))"
  shows "list_rows (handleNewConnection p l) \<and> rows_only l (handleNewConnection p l)"
proof -
  let ?it = "Item_create p"
  note swo = list_base_swo [OF base] and sel = list_base_selection [OF base sorted]
  have len: "length (ptrs l) \<le> m_scrollOffset l + m_targetSize l" using base by (simp add: list_base_def)
  consider (ins) "m_list l \<noteq> []" "item_less l ?it (last (m_list l))"
    | (push) "\<not> (m_list l \<noteq> [] \<and> item_less l ?it (last (m_list l)))" "getSize l < m_targetSize l"
    | (full) "\<not> (m_list l \<noteq> [] \<and> item_less l ?it (last (m_list l)))" "\<not> getSize l < m_targetSize l"
    by blast
  then show ?thesis
  proof cases
    case ins
    have "selection (cmp l) (stored l) (ptrs (insertItem l ?it))"
      unfolding ptrs_insertItem using strict_weak_order.selection_pinsert [OF swo sel] p by simp
    moreover have "sized (m_scrollOffset l) (m_targetSize l) (getConnectionCount (m_storage l))
        (length (ptrs (insertItem l ?it)))"
      unfolding ptrs_insertItem length_pinsert [OF len] cnt length_ptrs by (rule sized_Suc_insert [OF sz])
    ultimately show ?thesis
      using ins list_rows_rows_only [OF base rows_only_insertItem]
      by (simp add: handleNewConnection_def rows_only_insertItem)
  next
    case push
    let ?l = "l\<lparr>m_list := m_list l @ [?it], m_isRefreshRequired := True\<rparr>"
    have e: "ptrs ?l = ptrs l @ [p]" by (simp add: ptrs_def)
    have "\<not> cmp l p y" if "y \<in> set (ptrs l)" for y
    proof -
      from that have "m_list l \<noteq> []" by (auto simp: ptrs_def)
      with push(1) have "\<not> cmp l p (last (ptrs l))" by (simp add: item_less_cmp last_ptrs)
      with strict_weak_order.sorted_last_max [OF swo sorted that] show ?thesis
        using strict_weak_order.ge_trans [OF swo] by blast
    qed
    then have "selection (cmp l) (stored l) (ptrs ?l)"
      using sel p unfolding e by (auto simp: selection_def sorted_by_append)
    moreover have "sized (m_scrollOffset l) (m_targetSize l) (getConnectionCount (m_storage l))
        (length (ptrs ?l))"
      unfolding e cnt using sized_Suc_room [OF sz] push(2) by (simp add: getSize_eq)
    moreover have "rows_only l ?l" by (simp add: rows_only_def)
    moreover have "handleNewConnection p l = ?l"
      using push by (auto simp: handleNewConnection_def Let_def)
    ultimately show ?thesis using list_rows_rows_only [OF base, of ?l] by metis
  next
    case full
    then have "handleNewConnection p l = l" by (auto simp: handleNewConnection_def Let_def)
    with full show ?thesis
      using base sorted sized_Suc_full [OF sz] cnt by (simp add: list_rows_def getSize_eq)
  qed
qed

lemma list_inv_add:
  assumes "list_inv l" and "refs_live (m_storage l) c"
  shows "list_inv (add c t s l)"
proof -
  let ?st = "snd (addConnection c t s (m_storage l))" and ?new = "c \<notin> stored l"
  let ?l = "l\<lparr>m_storage := ?st\<rparr>"
  have wf: "storage_wf (m_storage l)" and base: "list_base l" and sorted: "sorted_by (cmp l) (ptrs l)"
    and sub: "set (ptrs l) \<subseteq> stored l" and cur: "m_cursorPos l \<le> visible_rows l - 1"
    and sz: "sized (m_scrollOffset l) (m_targetSize l) (getConnectionCount (m_storage l))
      (length (m_list l))"
    using assms(1) by (auto simp: list_inv_iff list_rows_def list_base_def)
  have add: "add c t s l = (if ?new then handleNewConnection c ?l else ?l)"
    by (simp add: add_def Let_def stored_def case_prod_unfold addConnection_fst)
  have wf': "storage_wf ?st" using wf assms(2) by (rule storage_wf_addConnection)
  have base': "list_base ?l"
    using base wf' by (intro list_base_storage) (auto simp: storage_simps)
  have sorted': "sorted_by (cmp ?l) (ptrs ?l)"
    using sub by (simp add: sorted_storage [OF base sorted] view_addConnection stored_def subset_iff)
  have cnt: "getConnectionCount ?st = getConnectionCount (m_storage l) + (if ?new then 1 else 0)"
    using count_add [OF wf] by (simp add: stored_def)
  have cur': "m_cursorPos ?l \<le> visible_rows ?l - 1"
    using visible_rows_grow [OF cur, of ?st] cnt by simp
  show ?thesis
  proof (cases ?new)
    case True
    have "c \<in> stored ?l" "c \<notin> set (ptrs ?l)"
      using True sub by (auto simp: stored_def storage_simps)
    with list_rows_handleNewConnection [OF base' sorted', of c] True cnt sz
    have "list_rows (handleNewConnection c ?l)" and r: "rows_only ?l (handleNewConnection c ?l)"
      by auto
    with cur' True show ?thesis by (simp add: add list_inv_iff rows_onlyD [OF r])
  next
    case False
    with base' sorted' cur' cnt sz show ?thesis by (simp add: add list_inv_iff list_rows_def)
  qed
qed

lemma list_rows_handleRemoved_fill:
  assumes "list_base l" and "sorted_by (cmp l) (ptrs l)" and "ptrs l' = ptrs l" and "rows_only l l'"
  shows "list_rows (fill l')"
  using assms list_base_rows_only [OF assms(1,4)]
  by (intro list_rows_fill) (auto simp: list_base_def rows_onlyD [OF assms(4)] simp flip: length_ptrs)

lemma handleRemoved_fill:
  "\<exists>n. handleRemovedConnection p l =
     (clampCursor (fill ((if m_connectionDetail l = Some p
         then l\<lparr>m_connectionDetail := None, m_connectionDetailUpdateFlags := - 1\<rparr> else l)
       \<lparr>m_list := invalidate_from n (remove_first (\<lambda>i. pConnection i = p) (m_list l))\<rparr>)))
     \<lparr>m_isRefreshRequired := True\<rparr>"
  by (cases "m_connectionDetail l = Some p"; simp add: handleRemovedConnection_def Let_def; blast)

text \<open>Removal of a stored connection: the row goes, the list is filled, the cursor is clamped.\<close>

lemma remove_stored:
  assumes "list_inv l" and "c \<in> stored l"
  shows "\<exists>m. remove c l = (clampCursor (fill m))\<lparr>m_isRefreshRequired := True\<rparr>
    \<and> list_base m \<and> sorted_by (cmp m) (ptrs m) \<and> ptrs m = filter (\<lambda>x. x \<noteq> c) (ptrs l)
    \<and> m_storage m = snd (removeConnection c (m_storage l)) \<and> m_compareFunc m = m_compareFunc l"
proof -
  let ?st = "snd (removeConnection c (m_storage l))"
  let ?rm = "remove_first (\<lambda>i. pConnection i = c) (m_list l)"
  define l2 where "l2 = (if m_connectionDetail l = Some c
    then l\<lparr>m_storage := ?st, m_connectionDetail := None, m_connectionDetailUpdateFlags := - 1\<rparr>
    else l\<lparr>m_storage := ?st\<rparr>)"
  have l2: "m_storage l2 = ?st" "m_list l2 = m_list l" "m_targetSize l2 = m_targetSize l"
    "m_scrollOffset l2 = m_scrollOffset l" "m_sortMode l2 = m_sortMode l"
    "m_isSortAscending l2 = m_isSortAscending l" "m_compareFunc l2 = m_compareFunc l"
    and detail: "m_connectionDetail l2 = Some x \<Longrightarrow> m_connectionDetail l = Some x \<and> x \<noteq> c" for x
    by (auto simp: l2_def split: if_splits)
  have wf: "storage_wf (m_storage l)" and base: "list_base l" and sorted: "sorted_by (cmp l) (ptrs l)"
    using assms(1) by (auto simp: list_inv_iff list_rows_def list_base_def)
  have "distinct (map pConnection (m_list l))" using base by (simp add: list_base_def ptrs_def)
  then have rm: "?rm = filter (\<lambda>i. pConnection i \<noteq> c) (m_list l)" by (rule remove_first_eq_filter)
  have p3: "map pConnection ?rm = filter (\<lambda>x. x \<noteq> c) (ptrs l)"
    by (simp add: ptrs_def rm filter_map comp_def)
  have base3: "list_base (l2\<lparr>m_list := ?rm\<rparr>)"
    unfolding list_base_def
  proof (intro conjI allI impI)
    show "length (m_list (l2\<lparr>m_list := ?rm\<rparr>))
        \<le> m_scrollOffset (l2\<lparr>m_list := ?rm\<rparr>) + m_targetSize (l2\<lparr>m_list := ?rm\<rparr>)"
      using base le_trans [OF length_filter_le [of "\<lambda>i. pConnection i \<noteq> c" "m_list l"]]
      by (simp add: l2 rm list_base_def)
    show "x \<in> stored (l2\<lparr>m_list := ?rm\<rparr>)" if "m_connectionDetail (l2\<lparr>m_list := ?rm\<rparr>) = Some x" for x
      using that detail base by (auto simp: list_base_def stored_def storage_simps l2)
  qed (use base storage_wf_removeConnection [OF wf]
      in \<open>auto simp: list_base_def stored_def storage_simps l2 p3\<close>)
  have "sorted_by (compareFunc (m_sortMode l) (m_isSortAscending l) ?st)
      (filter (\<lambda>x. x \<noteq> c) (ptrs l))"
    using sorted_but_storage [OF base sorted] view_removeConnection by blast
  then have sorted3: "sorted_by (cmp (l2\<lparr>m_list := ?rm\<rparr>)) (ptrs (l2\<lparr>m_list := ?rm\<rparr>))"
    using base by (simp add: p3 list_base_def cmp_def l2)
  obtain n where e: "remove c l =
      (clampCursor (fill (l2\<lparr>m_list := invalidate_from n ?rm\<rparr>)))\<lparr>m_isRefreshRequired := True\<rparr>"
    using assms(2) handleRemoved_fill [of c "l\<lparr>m_storage := ?st\<rparr>"]
    by (auto simp: remove_def removeConnection_fst case_prod_unfold Let_def stored_def l2_def)
  let ?m = "l2\<lparr>m_list := invalidate_from n ?rm\<rparr>"
  have "list_base ?m" using base3 by (simp add: list_base_def)
  moreover have "sorted_by (cmp ?m) (ptrs ?m)" using sorted3 by simp
  ultimately show ?thesis using e by (intro exI [of _ ?m]) (simp add: p3 l2)
qed

lemma list_inv_remove:
  assumes "list_inv l"
  shows "list_inv (remove c l)"
proof (cases "c \<in> stored l")
  case False
  then have "remove c l = l"
    by (auto simp: remove_def removeConnection_def stored_def set_connections)
  with assms show ?thesis by simp
next
  case True
  from remove_stored [OF assms this] obtain m
    where e: "remove c l = (clampCursor (fill m))\<lparr>m_isRefreshRequired := True\<rparr>"
      and m: "list_base m" "sorted_by (cmp m) (ptrs m)" by blast
  from list_inv_clampCursor [OF list_rows_fill [OF m]] show ?thesis by (simp add: e list_inv_iff)
qed

lemma list_inv_clear: "list_inv l \<Longrightarrow> list_inv (clear l)"
  by (auto simp: clear_def list_inv_iff list_rows_def list_base_def ptrs_def sized_def
      getConnectionCount_def clearConnections_def storage_wf_clear [unfolded clearConnections_def])


section \<open>Updating a connection\<close>

text \<open>
  \<open>upd_ready p l\<close>: the data of connection \<open>p\<close> was written, so the rows are in order but
  perhaps for \<open>p\<close>.
\<close>

definition upd_ready :: "Connection \<Rightarrow> ConnectionList \<Rightarrow> bool" where
  "upd_ready p l \<longleftrightarrow>
     list_base l \<and> p \<in> stored l \<and> m_cursorPos l \<le> visible_rows l - 1 \<and>
     sized (m_scrollOffset l) (m_targetSize l) (getConnectionCount (m_storage l)) (length (m_list l)) \<and>
     sorted_by (cmp l) (filter (\<lambda>c. c \<noteq> p) (ptrs l))"

lemma sorted_in_place:
  assumes "upd_ready p l" and i: "i < length (m_list l)" "pConnection (m_list l ! i) = p"
    and "\<not> is_sort_prev i l" and "\<not> is_sort_next i l"
  shows "sorted_by (cmp l) (ptrs l)"
proof -
  let ?xs = "take i (ptrs l)" and ?ys = "drop (Suc i) (ptrs l)"
  have nth: "ptrs l ! j = pConnection (m_list l ! j)" if "j < length (m_list l)" for j
    using that by (simp add: ptrs_def)
  have split: "ptrs l = ?xs @ p # ?ys"
    using id_take_nth_drop [of i "ptrs l"] i nth by simp
  have d: "distinct (?xs @ p # ?ys)" using assms(1) split by (simp add: upd_ready_def list_base_def)
  have "filter (\<lambda>c. c \<noteq> p) (ptrs l) = ?xs @ ?ys"
  proof -
    have "filter (\<lambda>c. c \<noteq> p) (?xs @ p # ?ys) = filter (\<lambda>c. c \<noteq> p) ?xs @ filter (\<lambda>c. c \<noteq> p) ?ys"
      by simp
    also have "\<dots> = ?xs @ ?ys" using d filter_neq_id [of p ?xs] filter_neq_id [of p ?ys] by auto
    finally show ?thesis using split by simp
  qed
  then have s: "sorted_by (cmp l) (?xs @ ?ys)" using assms(1) by (simp add: upd_ready_def)
  have "?xs = [] \<or> \<not> cmp l p (last ?xs)"
  proof (cases i)
    case (Suc j)
    then have "last ?xs = ptrs l ! j" using i by (simp add: last_take_Suc)
    with Suc assms(4) i nth show ?thesis by (simp add: is_sort_prev_def item_less_cmp)
  qed simp
  moreover have "?ys = [] \<or> \<not> cmp l (hd ?ys) p"
    using assms(5) i nth [of "Suc i"] by (auto simp: is_sort_next_def item_less_cmp hd_drop_conv_nth)
  moreover have "strict_weak_order (cmp l)" using assms(1) list_base_swo by (simp add: upd_ready_def)
  ultimately show ?thesis using strict_weak_order.sorted_but_one [OF _ s] split by metis
qed

lemma update_mark_rows:
  assumes "i < length (m_list l)"
  shows "rows_only l (update_mark i f l)" and "ptrs (update_mark i f l) = ptrs l"
proof -
  show "rows_only l (update_mark i f l)" by (simp add: rows_only_def update_mark_def)
  show "ptrs (update_mark i f l) = ptrs l"
    using assms map_eq_nth_update [of i "m_list l" pConnection
        "\<lambda>it. it\<lparr>isRefreshRequired := True, updateFlags := updateFlags it OR f\<rparr>"]
    by (simp add: update_mark_def ptrs_def)
qed

lemma rows_only_update_order: "rows_only l (update_order i l)"
  by (simp add: update_order_def Let_def rows_only_intros rows_only_trans [OF rows_only_sort rows_only_fill])

lemma list_rows_update_order:
  assumes "upd_ready p l" and "i < length (m_list l)" and "pConnection (m_list l ! i) = p"
  shows "list_rows (update_order i l)"
proof -
  let ?l = "if is_sort_prev i l \<or> is_sort_next i l then sort l else l"
  have base: "list_base l" and sz: "sized (m_scrollOffset l) (m_targetSize l)
      (getConnectionCount (m_storage l)) (length (m_list l))"
    using assms(1) by (simp_all add: upd_ready_def)
  have "list_rows ?l"
    using sorted_in_place [OF assms] list_rows_sort [OF base sz] base sz
    by (simp add: list_rows_def)
  moreover from this have "list_rows (fill ?l)" by (intro list_rows_fill) (auto simp: list_rows_def)
  ultimately show ?thesis by (simp add: update_order_def Let_def)
qed

lemma upd_ready_rows_only:
  assumes "upd_ready p l" and "rows_only l l'" and "ptrs l' = ptrs l"
  shows "upd_ready p l'"
proof -
  have "length (m_list l') = length (m_list l)" using assms(3) by (metis length_ptrs)
  then show ?thesis
    using assms list_base_rows_only [OF _ assms(2)]
    by (simp add: upd_ready_def rows_onlyD [OF assms(2)] list_base_def)
qed

lemma update_rows_inv:
  assumes "upd_ready p l"
  shows "list_inv (update_rows p f l)"
proof -
  let ?i = "find_index (\<lambda>it. pConnection it = p) (m_list l)"
  have base: "list_base l" and p: "p \<in> stored l" and cur: "m_cursorPos l \<le> visible_rows l - 1"
    using assms by (simp_all add: upd_ready_def)
  show ?thesis
  proof (cases "?i < length (m_list l)")
    case True
    let ?l = "update_mark ?i f l"
    note r = update_mark_rows [OF True, of f]
    have len: "length (m_list ?l) = length (m_list l)" using r(2) by (metis length_ptrs)
    have "pConnection (m_list ?l ! ?i) = p"
      using True r(2) len find_index_nth [OF True] by (metis nth_map ptrs_def)
    then have "list_rows (update_order ?i ?l)"
      using list_rows_update_order [OF upd_ready_rows_only [OF assms r]] True len by simp
    moreover have "rows_only l (update_order ?i ?l)"
      using r(1) rows_only_update_order by (rule rows_only_trans)
    ultimately show ?thesis
      using True cur by (auto simp: update_rows_def Let_def list_inv_iff rows_onlyD)
  next
    case False
    then have out: "p \<notin> set (ptrs l)"
      using find_index_less_iff [of _ "m_list l"] by (auto simp: ptrs_def)
    then have rows: "list_rows l"
      using assms by (simp add: upd_ready_def list_rows_def filter_neq_id)
    then have "list_inv l" using cur by (simp add: list_inv_iff)
    moreover have "list_inv (insertItem l (Item_create p))" if "list_inv l"
      using list_inv_rows_only [OF that rows_only_insertItem] list_rows_insertItem [OF rows] p out by simp
    ultimately show ?thesis using False by (simp add: update_rows_def Let_def)
  qed
qed

lemma list_inv_update: "upd_ready p l \<Longrightarrow> list_inv (update p f l)"
  unfolding update_def by (rule update_rows_inv) (simp add: upd_ready_def)

text \<open>A collector or a client writes the data of a stored connection and reports the change.\<close>

definition writeAndUpdate ::
  "Connection \<Rightarrow> (ConnectionData \<Rightarrow> ConnectionData) \<Rightarrow> flags \<Rightarrow> ConnectionList \<Rightarrow> ConnectionList" where
  "writeAndUpdate c g f l = update c f (l\<lparr>m_storage := writeConnection c g (m_storage l)\<rparr>)"

text \<open>The setters of \<open>ConnectionData\<close> that are used for it leave its identity alone.\<close>

definition keeps_identity :: "(ConnectionData \<Rightarrow> ConnectionData) \<Rightarrow> bool" where
  "keeps_identity g \<longleftrightarrow> (\<forall>d. cd_connection (g d) = cd_connection d \<and> cd_hasPorts (g d) = cd_hasPorts d
     \<and> cd_typeName (g d) = cd_typeName d)"

lemma upd_ready_write:
  assumes "list_inv l" and "c \<in> stored l" and "keeps_identity g"
  shows "upd_ready c (l\<lparr>m_storage := writeConnection c g (m_storage l)\<rparr>)"
proof -
  let ?st = "writeConnection c g (m_storage l)"
  have base: "list_base l" and sorted: "sorted_by (cmp l) (ptrs l)"
    using assms(1) by (simp_all add: list_inv_def list_rows_def)
  have "storage_wf ?st"
    using base assms(3) by (intro storage_wf_writeConnection) (auto simp: list_base_def keeps_identity_def)
  then have "list_base (l\<lparr>m_storage := ?st\<rparr>)"
    using base by (simp add: list_base_storage storage_simps)
  moreover have "sorted_by (compareFunc (m_sortMode l) (m_isSortAscending l) ?st)
      (filter (\<lambda>x. x \<noteq> c) (ptrs l))"
    using sorted_but_storage [OF base sorted] view_writeConnection by blast
  ultimately show ?thesis
    using assms(1,2) base
    by (simp add: upd_ready_def stored_def storage_simps list_inv_iff list_rows_def visible_rows_def
        connection_count_keys list_base_def cmp_def)
qed

lemma list_inv_writeAndUpdate:
  "list_inv l \<Longrightarrow> c \<in> stored l \<Longrightarrow> keeps_identity g \<Longrightarrow> list_inv (writeAndUpdate c g f l)"
  unfolding writeAndUpdate_def by (intro list_inv_update upd_ready_write)


section \<open>Resolved addresses and ports\<close>

lemma list_inv_rescan_step:
  assumes "list_inv l" and "p \<in> stored l"
  shows "list_inv (rescan_step uses l p)"
proof -
  have "list_inv (insertItem l (Item_create p))" if "p \<notin> set (ptrs l)"
    using list_inv_rows_only [OF assms(1) rows_only_insertItem] list_rows_insertItem [of l] that assms
    by (simp add: list_inv_def)
  with assms(1) show ?thesis by (simp add: rescan_step_def Let_def containsItem_iff)
qed

lemma list_inv_rescan:
  "list_inv l \<Longrightarrow> set ps \<subseteq> stored l \<Longrightarrow> list_inv (foldl (rescan_step uses) l ps)"
proof (induction ps arbitrary: l)
  case (Cons p ps)
  then show ?case using list_inv_rescan_step [of l p uses] by (simp add: list_frame)
qed simp

text \<open>
  \<open>data_ready m uses l\<close>: the rows are in order unless the order may depend on the data written
  (\<open>m\<close>) and some row refers to it (\<open>uses\<close>).
\<close>

definition data_ready :: "bool \<Rightarrow> (Connection \<Rightarrow> bool) \<Rightarrow> ConnectionList \<Rightarrow> bool" where
  "data_ready m uses l \<longleftrightarrow>
     list_base l \<and> m_cursorPos l \<le> visible_rows l - 1 \<and>
     sized (m_scrollOffset l) (m_targetSize l) (getConnectionCount (m_storage l)) (length (m_list l)) \<and>
     (sorted_by (cmp l) (ptrs l) \<or> m \<and> (\<exists>c\<in>set (ptrs l). uses c))"

lemma list_inv_dataUpdated:
  assumes "data_ready m uses l" and "\<And>i. pConnection (mark i) = pConnection i"
  shows "list_inv (dataUpdated_rows m uses mark l)"
proof (cases "m_list l = []")
  case True
  with assms(1) show ?thesis
    by (simp add: dataUpdated_rows_def data_ready_def list_inv_iff list_rows_def ptrs_def)
next
  case False
  define n where "n = getListBeginIt l"
  define vis where "vis = list_ex (\<lambda>i. uses (pConnection i)) (drop n (m_list l))"
  define cont where "cont \<longleftrightarrow> (m \<and> list_ex (\<lambda>i. uses (pConnection i)) (take n (m_list l))) \<or> vis"
  define l1 where "l1 = l\<lparr>m_list := take n (m_list l) @ map mark (drop n (m_list l)),
    m_isRefreshRequired := vis \<or> m_isRefreshRequired l\<rparr>"
  have e: "dataUpdated_rows m uses mark l =
      (if m then foldl (rescan_step uses) (if cont then sort l1 else l1)
         (connections (m_storage (if cont then sort l1 else l1))) else l1)"
    using False unfolding dataUpdated_rows_def n_def [symmetric] vis_def [symmetric] Let_def
    by (simp add: l1_def cont_def)
  have mk: "pConnection \<circ> mark = pConnection" using assms(2) by (intro ext) simp
  have ptrs: "ptrs l1 = ptrs l"
    by (simp add: l1_def mk) (metis append_take_drop_id map_append ptrs_def)
  have rows: "rows_only l l1" by (simp add: rows_only_def l1_def)
  have len: "length (m_list l1) = length (m_list l)" using ptrs by (metis length_ptrs)
  have base: "list_base l1"
    using assms(1) ptrs len list_base_rows_only [OF _ rows] by (simp add: data_ready_def list_base_def)
  have cur: "m_cursorPos l1 \<le> visible_rows l1 - 1" and sz: "sized (m_scrollOffset l1)
      (m_targetSize l1) (getConnectionCount (m_storage l1)) (length (m_list l1))"
    using assms(1) by (simp_all add: data_ready_def rows_onlyD [OF rows] len)
  have cont_iff: "m \<Longrightarrow> cont \<longleftrightarrow> (\<exists>c\<in>set (ptrs l). uses c)"
  proof -
    assume m: m
    have "cont \<longleftrightarrow> list_ex (\<lambda>i. uses (pConnection i)) (take n (m_list l) @ drop n (m_list l))"
      by (simp only: cont_def vis_def list_ex_append m simp_thms)
    then show ?thesis by (simp add: list_ex_iff ptrs_def)
  qed
  have sorted: "sorted_by (cmp l1) (ptrs l1)" if "\<not> m \<or> \<not> cont"
    using that cont_iff assms(1) by (auto simp: data_ready_def ptrs rows_onlyD [OF rows])
  have inv: "list_inv (if m \<and> cont then sort l1 else l1)"
    using list_rows_sort [OF base sz] sorted base sz cur
    by (simp add: list_inv_iff list_frame) (auto simp: list_rows_def)
  show ?thesis
  proof (cases m)
    case True
    with inv have "list_inv (if cont then sort l1 else l1)" by simp
    from list_inv_rescan [OF this, of "connections (m_storage (if cont then sort l1 else l1))"] True
    show ?thesis unfolding e by (simp add: stored_def)
  next
    case False
    with inv show ?thesis unfolding e by simp
  qed
qed

lemma pConnection_mark [simp]:
  "pConnection (mark_address a i) = pConnection i" "pConnection (mark_port p i) = pConnection i"
  by (simp_all add: mark_address_def mark_port_def Let_def)

lemma frame_data_ready [simp]:
  "data_ready m uses (l\<lparr>m_connectionDetailUpdateFlags := f\<rparr>) = data_ready m uses l"
  "data_ready m uses (l\<lparr>m_dataResolvedCount := k\<rparr>) = data_ready m uses l"
  by (simp_all add: data_ready_def)

lemma list_inv_addressDataUpdated:
  "data_ready (address_affects_order (m_sortMode l)) (uses_address a) l \<Longrightarrow>
     list_inv (addressDataUpdated a l)"
  unfolding addressDataUpdated_def Let_def by (intro list_inv_dataUpdated) simp_all

lemma list_inv_portDataUpdated:
  "data_ready (port_affects_order (m_sortMode l)) (uses_port p) l \<Longrightarrow> list_inv (portDataUpdated p l)"
  unfolding portDataUpdated_def Let_def by (intro list_inv_dataUpdated) simp_all

lemma data_ready_storage:
  assumes "list_inv l" and "storage_wf st" and "connections st = connections (m_storage l)"
    and "sorted_by (compareFunc (m_sortMode l) (m_isSortAscending l) st) (ptrs l)
      \<or> m \<and> (\<exists>c\<in>set (ptrs l). uses c)"
  shows "data_ready m uses (l\<lparr>m_storage := st\<rparr>)"
proof -
  have base: "list_base l" using assms(1) by (simp add: list_inv_def list_rows_def)
  then have "list_base (l\<lparr>m_storage := st\<rparr>)" using assms(2,3) by (simp add: list_base_storage)
  moreover have "cmp (l\<lparr>m_storage := st\<rparr>) = compareFunc (m_sortMode l) (m_isSortAscending l) st"
    using base by (simp add: cmp_def list_base_def)
  ultimately show ?thesis
    using assms(1,3,4)
    by (simp add: data_ready_def list_inv_iff list_rows_def visible_rows_def connection_count_keys)
qed


lemma list_inv_sorted:
  assumes "list_inv l"
  shows "sorted_by (compareFunc (m_sortMode l) (m_isSortAscending l) (m_storage l)) (ptrs l)"
    and "c \<in> set (ptrs l) \<Longrightarrow> refs_live (m_storage l) c" and "storage_wf (m_storage l)"
  using assms stored_live
  by (auto simp: list_inv_def list_rows_def list_base_def cmp_def stored_def)

lemma data_ready_writeAddress:
  assumes "list_inv l"
    and f: "\<And>d. ad_address (f d) = ad_address d \<and> ad_numericString (f d) = ad_numericString d"
  shows "data_ready (address_affects_order (m_sortMode l)) (uses_address a)
    (l\<lparr>m_storage := writeAddress a f (m_storage l)\<rparr>)"
proof (rule data_ready_storage [OF assms(1)])
  note inv = list_inv_sorted [OF assms(1)]
  show "storage_wf (writeAddress a f (m_storage l))"
    using inv(3) f by (intro storage_wf_writeAddress) auto
  show "connections (writeAddress a f (m_storage l)) = connections (m_storage l)"
    by (rule connections_writeAddress)
  show "sorted_by (compareFunc (m_sortMode l) (m_isSortAscending l) (writeAddress a f (m_storage l))) (ptrs l)
    \<or> address_affects_order (m_sortMode l) \<and> (\<exists>c\<in>set (ptrs l). uses_address a c)"
  proof (cases "address_affects_order (m_sortMode l)")
    case True
    show ?thesis
      using True sorted_by_view [OF _ inv(1), of "writeAddress a f (m_storage l)"] view_writeAddress
      by (auto simp: uses_address_def)
  next
    case False
    then have "m_sortMode l \<notin> {SRC_HOSTNAME, DST_HOSTNAME, SRC_COUNTRY, DST_COUNTRY, SRC_ASN, DST_ASN}"
      by (cases "m_sortMode l") auto
    then show ?thesis
      using sorted_by_cong [OF _ inv(1)] compareFunc_writeAddress [OF f] inv(2) by metis
  qed
qed

lemma data_ready_writePort:
  assumes "list_inv l" and f: "\<And>d. pd_port (f d) = pd_port d"
  shows "data_ready (port_affects_order (m_sortMode l)) (uses_port p)
    (l\<lparr>m_storage := writePort p f (m_storage l)\<rparr>)"
proof (rule data_ready_storage [OF assms(1)])
  note inv = list_inv_sorted [OF assms(1)]
  show "storage_wf (writePort p f (m_storage l))"
    using inv(3) f by (intro storage_wf_writePort) auto
  show "connections (writePort p f (m_storage l)) = connections (m_storage l)"
    by (rule connections_writePort)
  show "sorted_by (compareFunc (m_sortMode l) (m_isSortAscending l) (writePort p f (m_storage l))) (ptrs l)
    \<or> port_affects_order (m_sortMode l) \<and> (\<exists>c\<in>set (ptrs l). uses_port p c)"
  proof (cases "port_affects_order (m_sortMode l)")
    case True
    show ?thesis
      using True sorted_by_view [OF _ inv(1), of "writePort p f (m_storage l)"] view_writePort
      by (auto simp: uses_port_def)
  next
    case False
    then have "m_sortMode l \<notin> {SRC_SERVICE, DST_SERVICE}" by (cases "m_sortMode l") auto
    then show ?thesis
      using sorted_by_cong [OF _ inv(1)] compareFunc_writePort [OF f] inv(2) by metis
  qed
qed

lemma frame_list_inv [simp]:
  "list_inv (l\<lparr>m_effects := es\<rparr>) = list_inv l"
  "list_inv (l\<lparr>m_dataTotalCount := n\<rparr>) = list_inv l"
  "list_inv (l\<lparr>m_dataResolvedCount := n\<rparr>) = list_inv l"
  "list_inv (l\<lparr>m_isRefreshRequired := b\<rparr>) = list_inv l"
  "list_inv (l\<lparr>m_connectionDetailUpdateFlags := f\<rparr>) = list_inv l"
  by (simp_all add: list_inv_iff)

lemma list_inv_ResolverCallbackAddress:
  assumes "list_inv l"
  shows "list_inv (ResolverCallbackAddress a h co asn l)"
  using list_inv_addressDataUpdated [of "l\<lparr>m_storage := writeAddress a (\<lambda>d. setResolvedASN asn
      (setResolvedCountry co (setResolvedHostname h d))) (m_storage l),
      m_dataResolvedCount := m_dataResolvedCount l + 1\<rparr>" a]
    data_ready_writeAddress [OF assms]
  by (simp add: ResolverCallbackAddress_def Let_def setResolvedASN_def setResolvedCountry_def
      setResolvedHostname_def)

lemma list_inv_ResolverCallbackPort:
  assumes "list_inv l"
  shows "list_inv (ResolverCallbackPort p s l)"
  using list_inv_portDataUpdated [of "l\<lparr>m_storage := writePort p (setResolvedService s) (m_storage l),
      m_dataResolvedCount := m_dataResolvedCount l + 1\<rparr>" p]
    data_ready_writePort [OF assms]
  by (simp add: ResolverCallbackPort_def Let_def setResolvedService_def)

lemma list_inv_getAddress:
  assumes "list_inv l"
  shows "list_inv (snd (getAddress net a addFlag l))"
proof -
  note inv = list_inv_sorted [OF assms]
  have "list_inv (l\<lparr>m_storage := snd (addIP4Address net x (m_storage l))\<rparr>)" for x
    using stored_live [OF inv(3)] view_addAddress(1)
    by (intro list_inv_storage [OF assms]) (auto simp: storage_wf_addIP4Address inv(3) storage_simps stored_def)
  moreover have "list_inv (l\<lparr>m_storage := snd (addIP6Address net x (m_storage l))\<rparr>)" for x
    using stored_live [OF inv(3)] view_addAddress(2)
    by (intro list_inv_storage [OF assms]) (auto simp: storage_wf_addIP6Address inv(3) storage_simps stored_def)
  ultimately show ?thesis
    using assms by (cases a) (simp_all add: getAddress_def Let_def case_prod_unfold)
qed

lemma list_inv_getPort:
  assumes "list_inv l"
  shows "list_inv (snd (getPort p addFlag l))"
proof -
  note inv = list_inv_sorted [OF assms]
  have "list_inv (l\<lparr>m_storage := snd (addPort p (m_storage l))\<rparr>)"
    using stored_live [OF inv(3)] view_addAddress(3)
    by (intro list_inv_storage [OF assms]) (auto simp: storage_wf_addPort inv(3) storage_simps stored_def)
  with assms show ?thesis by (simp add: getPort_def Let_def case_prod_unfold)
qed

section \<open>Drawing, cursor and scrolling\<close>

lemma next_loop_ptrs: "next_loop row cur is = Some (u, is') \<Longrightarrow> map pConnection is' = map pConnection is"
  by (induction row cur "is" arbitrary: u is' rule: next_loop.induct) (auto split: if_splits)

lemma list_inv_same_ptrs: "list_inv l \<Longrightarrow> rows_only l l' \<Longrightarrow> ptrs l' = ptrs l \<Longrightarrow> list_inv l'"
  by (meson list_inv_rows_only list_rows_same_ptrs list_inv_def)

lemma ptrs_getNextUpdate: "ptrs (snd (getNextUpdate l)) = ptrs l"
proof (cases "next_loop 0 (m_cursorPos l) (drop (getListBeginIt l) (m_list l))")
  case (Some r)
  obtain u rs where r: "r = (u, rs)" by (cases r)
  have "map pConnection (take n xs) @ map pConnection (drop n xs) = map pConnection xs"
    for n and xs :: "Item list"
    by (metis append_take_drop_id map_append)
  then show ?thesis
    using next_loop_ptrs [OF Some [unfolded r]] Some r by (simp add: getNextUpdate_def Let_def ptrs_def)
qed (simp add: getNextUpdate_def Let_def)

lemma list_inv_getNextUpdate:
  assumes "list_inv l"
  shows "list_inv (snd (getNextUpdate l))"
proof (rule list_inv_same_ptrs [OF assms])
  show "rows_only l (snd (getNextUpdate l))"
    by (simp add: getNextUpdate_def Let_def rows_only_def split: option.split prod.split)
qed (rule ptrs_getNextUpdate)

lemma invalidateAllVisible_inv: "list_inv l \<Longrightarrow> list_inv (invalidateAllVisible l)"
  by (rule list_inv_same_ptrs [OF _ rows_only_invalidateAllVisible ptrs_invalidateAllVisible])

lemma invalidateCursor_inv: "list_inv l \<Longrightarrow> list_inv (invalidateCursor l)"
  by (rule list_inv_same_ptrs [OF _ rows_only_invalidateCursor ptrs_invalidateCursor])

lemma list_inv_cursor: "list_inv l \<Longrightarrow> n \<le> getCursorMaxPos l \<Longrightarrow> list_inv (l\<lparr>m_cursorPos := n\<rparr>)"
  by (simp add: list_inv_iff list_inv_def cursorMax_rows)

lemma list_inv_initConnectionDetail:
  assumes "list_inv l"
  shows "list_inv (initConnectionDetail l)"
proof -
  have rows: "list_rows l" using assms by (simp add: list_inv_def)
  have "pConnection (m_list l ! (getListBeginIt l + m_cursorPos l)) \<in> stored l"
    if "getListBeginIt l \<noteq> length (m_list l)"
  proof -
    have "getListBeginIt l + m_cursorPos l < length (m_list l)"
      using assms that by (auto simp: list_inv_def getCursorMaxPos_def getSize_eq getListBeginIt_def Let_def
          split: if_splits)
    then have "pConnection (m_list l ! (getListBeginIt l + m_cursorPos l)) \<in> set (ptrs l)"
      by (simp add: ptrs_def)
    then show ?thesis using rows by (auto simp: list_rows_def list_base_def)
  qed
  then show ?thesis
    using assms by (auto simp: initConnectionDetail_def Let_def list_inv_iff list_rows_def list_base_def)
qed


lemma butlast_pow_take: "(butlast ^^ n) xs = take (length xs - n) xs"
proof (induction n)
  case (Suc n)
  then show ?case by (simp add: butlast_take)
qed simp

text \<open>Cutting the list down to a window.\<close>

lemma list_rows_cut:
  assumes "list_rows l" and "sized off tgt (getConnectionCount (m_storage l)) n" and "n \<le> length (m_list l)"
  shows "list_rows (l\<lparr>m_scrollOffset := off, m_targetSize := tgt, m_list := take n (m_list l)\<rparr>)"
proof -
  have "selection (cmp l) (stored l) (take n (ptrs l))"
    using assms(1) by (intro selection_take list_base_selection) (simp_all add: list_rows_def)
  then show ?thesis
    using assms sized_le [OF assms(2)]
    by (simp add: list_rows_def list_base_def selection_def flip: take_map) (simp add: ptrs_def)
qed

lemma sized_cut:
  "sized off tgt cnt len \<Longrightarrow> off' \<le> off \<Longrightarrow> sized off' tgt cnt (len - (len - off' - tgt))"
  by (auto simp: sized_def split: if_splits)

lemma scroll_up_inv:
  assumes "list_inv l" and "k \<le> m_scrollOffset l"
  shows "list_inv (l\<lparr>m_scrollOffset := k,
    m_list := take (length (m_list l) - (length (m_list l) - k - m_targetSize l)) (m_list l)\<rparr>)"
proof -
  have "list_rows (l\<lparr>m_scrollOffset := k, m_targetSize := m_targetSize l,
      m_list := take (length (m_list l) - (length (m_list l) - k - m_targetSize l)) (m_list l)\<rparr>)"
    using assms by (intro list_rows_cut sized_cut) (auto simp: list_inv_def list_rows_def)
  with assms show ?thesis by (auto simp: list_inv_iff visible_rows_def)
qed

lemma scroll_down_inv:
  assumes "list_inv l" and "length (m_list l) + k \<le> getConnectionCount (m_storage l)"
  shows "list_inv (fill (invalidateAllVisible (l\<lparr>m_scrollOffset := m_scrollOffset l + k\<rparr>)))"
proof -
  let ?l = "l\<lparr>m_scrollOffset := m_scrollOffset l + k\<rparr>"
  let ?m = "invalidateAllVisible ?l"
  have "list_base ?l" and s: "sorted_by (cmp ?l) (ptrs ?l)"
    using assms(1) by (auto simp: list_inv_def list_rows_def list_base_def)
  then have "list_rows (fill ?m)"
    by (rule list_rows_handleRemoved_fill [OF _ _ ptrs_invalidateAllVisible rows_only_invalidateAllVisible])
  moreover have "m_cursorPos l \<le> visible_rows ?l - 1"
    using assms by (auto simp: list_inv_iff list_rows_def sized_def visible_rows_def split: if_splits)
  ultimately show ?thesis by (simp add: list_inv_iff list_frame)
qed

lemma list_inv_doScroll:
  assumes "list_inv l"
  shows "list_inv (doScroll n l)"
proof -
  consider (up) "n < 0" "0 < min (- n) (int (m_scrollOffset l))"
    | (down) "0 < n" "0 < min n (int (getConnectionCount (m_storage l)) - int (length (m_list l)))"
    | (stay) "doScroll n l = l"
    by (fastforce simp: doScroll_def Let_def min_def split: if_splits)
  then show ?thesis
  proof cases
    case up
    let ?k = "m_scrollOffset l - nat (min (- n) (int (m_scrollOffset l)))"
    have "doScroll n l = invalidateAllVisible (l\<lparr>m_scrollOffset := ?k,
        m_list := take (length (m_list l) - (length (m_list l) - ?k - m_targetSize l)) (m_list l)\<rparr>)"
      using up by (auto simp: doScroll_def Let_def butlast_pow_take getSize_eq min_def nat_diff_distrib')
    with scroll_up_inv [OF assms, of ?k] show ?thesis by (simp add: invalidateAllVisible_inv)
  next
    case down
    let ?k = "nat (min n (int (getConnectionCount (m_storage l)) - int (length (m_list l))))"
    have "doScroll n l
        = fill (invalidateAllVisible (l\<lparr>m_scrollOffset := m_scrollOffset l + ?k\<rparr>))"
      using down by (auto simp: doScroll_def Let_def min_def)
    moreover have "length (m_list l) + ?k \<le> getConnectionCount (m_storage l)" using down(2) by linarith
    ultimately show ?thesis using scroll_down_inv [OF assms, of ?k] by simp
  qed (use assms in simp)
qed

lemma list_inv_moveCursor:
  assumes "list_inv l"
  shows "list_inv (moveCursor n l)"
proof -
  have move: "list_inv (invalidateCursor ((invalidateCursor l)\<lparr>m_cursorPos := k\<rparr>))"
    if "k \<le> getCursorMaxPos l" for k
  proof -
    have i: "list_inv (invalidateCursor l)" using assms by (rule invalidateCursor_inv)
    then have "getCursorMaxPos (invalidateCursor l) = getCursorMaxPos l"
      using assms by (simp add: list_inv_def cursorMax_rows list_frame)
    with that i show ?thesis by (simp add: invalidateCursor_inv list_inv_cursor)
  qed
  have up: "nat (int (m_cursorPos l) - k) \<le> getCursorMaxPos l" if "0 \<le> k" for k
    using assms that unfolding list_inv_def by linarith
  have down: "nat (int (m_cursorPos l) + k) \<le> getCursorMaxPos l"
    if "k \<le> int (getCursorMaxPos l) - int (m_cursorPos l)" for k
    using that by linarith
  have scroll: "list_inv (doScroll k (l\<lparr>m_cursorPos := j\<rparr>))" if "j \<le> getCursorMaxPos l" for j k
    using assms that by (intro list_inv_doScroll list_inv_cursor)
  have cur: "m_cursorPos (invalidateCursor l) = m_cursorPos l" by (simp add: list_frame)
  have "m_cursorPos l \<le> getCursorMaxPos l" using assms by (simp add: list_inv_def)
  show ?thesis
    unfolding moveCursor_def Let_def cur
    using assms \<open>m_cursorPos l \<le> getCursorMaxPos l\<close> by (auto intro!: move scroll up down)
qed

lemma list_inv_setTargetSize:
  assumes "list_inv l"
  shows "list_inv (setTargetSize n l)"
proof -
  have rows: "list_rows l" using assms by (simp add: list_inv_def)
  let ?l = "l\<lparr>m_targetSize := n\<rparr>"
  have cut: "list_rows (?l\<lparr>m_list := (butlast ^^ (getSize ?l - n)) (m_list l), m_isRefreshRequired := True\<rparr>)"
    if "getSize ?l > n"
  proof -
    have "list_rows (l\<lparr>m_scrollOffset := m_scrollOffset l, m_targetSize := n,
        m_list := take (m_scrollOffset l + n) (m_list l)\<rparr>)"
      using rows that
      by (intro list_rows_cut) (auto simp: list_rows_def sized_def getSize_eq split: if_splits)
    moreover have "(butlast ^^ (getSize ?l - n)) (m_list l) = take (m_scrollOffset l + n) (m_list l)"
      using that by (simp add: butlast_pow_take getSize_eq)
    ultimately show ?thesis by simp
  qed
  have fill: "list_rows (fill ?l)" if "getSize ?l < n"
    using rows that by (intro list_rows_fill) (auto simp: list_rows_def list_base_def getSize_eq)
  have same: "list_rows ?l" if "getSize ?l = n"
    using rows that
    by (auto simp: list_rows_def list_base_def getSize_eq sized_def split: if_splits)
  show ?thesis
    using assms cut fill same list_inv_clampCursor
    by (simp add: setTargetSize_def Let_def not_less)
qed

lemma list_inv_setSortMode:
  assumes "list_inv l"
  shows "list_inv (setSortMode m b l)"
proof -
  let ?l = "(updateCompareFunc (l\<lparr>m_sortMode := m, m_isSortAscending := b\<rparr>))\<lparr>m_list := []\<rparr>"
  have base: "list_base ?l"
    using assms by (simp add: list_inv_def list_rows_def list_base_def updateCompareFunc_def)
  then have "list_rows (fill ?l)" by (rule list_rows_fill) simp
  then have "list_inv (fill ?l)"
    using assms by (simp add: list_inv_iff list_frame) (simp add: updateCompareFunc_def)
  with assms show ?thesis by (simp add: setSortMode_def Let_def)
qed

lemma list_inv_init: "list_inv ConnectionList_init"
  by (simp add: ConnectionList_init_def updateCompareFunc_def list_inv_iff list_rows_def list_base_def
      ptrs_def sized_def storage_wf_init)


section \<open>Reachable states\<close>

text \<open>The public interface of the list as a step relation; fetching the next row to draw is apart.\<close>

inductive list_step :: "inet \<Rightarrow> ConnectionList \<Rightarrow> ConnectionList \<Rightarrow> bool" for net where
  step_add: "refs_live (m_storage l) c \<Longrightarrow> list_step net l (add c t s l)"
| step_remove: "list_step net l (remove c l)"
| step_clear: "list_step net l (clear l)"
| step_update: "c \<in> stored l \<Longrightarrow> keeps_identity g \<Longrightarrow> list_step net l (writeAndUpdate c g f l)"
| step_address: "list_step net l (snd (getAddress net a b l))"
| step_port: "list_step net l (snd (getPort p b l))"
| step_resolved_address: "list_step net l (ResolverCallbackAddress a h co asn l)"
| step_resolved_port: "list_step net l (ResolverCallbackPort p s l)"
| step_cursor: "list_step net l (moveCursor n l)"
| step_scroll: "list_step net l (doScroll n l)"
| step_detail: "list_step net l (initConnectionDetail l)"
| step_detail_reset: "list_step net l (resetConnectionDetailRefresh l)"
| step_resize: "list_step net l (setTargetSize n l)"
| step_sort: "list_step net l (setSortMode m b l)"
| step_invalidate: "list_step net l (invalidateAllVisible l)"
| step_invalidate_cursor: "list_step net l (invalidateCursor l)"

inductive list_reach :: "inet \<Rightarrow> ConnectionList \<Rightarrow> bool" for net where
  reach_init: "list_reach net ConnectionList_init"
| reach_step: "list_reach net l \<Longrightarrow> list_step net l l' \<Longrightarrow> list_reach net l'"
| reach_draw: "list_reach net l \<Longrightarrow> list_reach net (snd (getNextUpdate l))"

lemma list_inv_step: "list_step net l l' \<Longrightarrow> list_inv l \<Longrightarrow> list_inv l'"
  by (induction rule: list_step.induct)
    (simp_all add: list_inv_add list_inv_remove list_inv_clear list_inv_writeAndUpdate list_inv_getAddress
      list_inv_getPort list_inv_ResolverCallbackAddress list_inv_ResolverCallbackPort
      list_inv_moveCursor list_inv_doScroll list_inv_initConnectionDetail
      resetConnectionDetailRefresh_def list_inv_setTargetSize list_inv_setSortMode invalidateAllVisible_inv
      invalidateCursor_inv)

lemma list_inv_reach: "list_reach net l \<Longrightarrow> list_inv l"
  by (induction rule: list_reach.induct) (auto simp: list_inv_init list_inv_getNextUpdate intro: list_inv_step)

end
