(* ===== verification/ConnListProps.thy ===== *)
theory ConnListProps
  imports ConnListOps
begin

text \<open>
  The properties of \<^verbatim>\<open>ConnectionList\<close>: the invariant of the reachable states, that the
  rows are the first ones of the order, that each address and port is resolved once, and the two
  places where the list does not do what its comments say.
\<close>

section \<open>The rows are the first ones\<close>

text \<open>No stored connection that is left out belongs before the last row.\<close>

definition best_rows :: "ConnectionList \<Rightarrow> bool" where
  "best_rows l \<longleftrightarrow> top_rows (cmp l) (stored l) (ptrs l)"

lemma top_rows_cong:
  assumes "\<And>a b. a \<in> A \<Longrightarrow> b \<in> A \<Longrightarrow> lt' a b = lt a b" and "set ys \<subseteq> A" and "top_rows lt A ys"
  shows "top_rows lt' A ys"
  using assms last_in_set [of ys] by (cases "ys = []") (auto simp: top_rows_def subset_iff)

lemma best_rows_fill:
  assumes "list_base l" and "sorted_by (cmp l) (ptrs l)" and "best_rows l"
  shows "best_rows (fill l)"
proof -
  have "top_rows (cmp l) (stored l) (ptrs (fill l))"
    using strict_weak_order.pfill_selection(3) [OF list_base_swo [OF assms(1)], of
        "connections (m_storage l)" "ptrs l" "m_scrollOffset l" "m_targetSize l"]
      assms list_base_selection [OF assms(1,2)] list_base_distinct [OF assms(1)]
    by (simp add: ptrs_fill list_base_def stored_def best_rows_def)
  then show ?thesis by (simp add: best_rows_def list_frame)
qed

lemma best_rows_frame [simp]:
  "best_rows (l\<lparr>m_isRefreshRequired := b\<rparr>) = best_rows l"
  "best_rows (l\<lparr>m_cursorPos := n\<rparr>) = best_rows l"
  by (simp_all add: best_rows_def)

lemma best_rows_same: "rows_only l l' \<Longrightarrow> ptrs l' = ptrs l \<Longrightarrow> best_rows l \<Longrightarrow> best_rows l'"
  by (simp add: best_rows_def rows_onlyD)

lemma best_rows_clampCursor: "best_rows l \<Longrightarrow> best_rows (clampCursor l)"
  by (simp add: clampCursor_def Let_def)
    (simp add: best_rows_def list_frame ptrs_invalidateCursor)

text \<open>Removing one element of the collection.\<close>

lemma top_rows_remove:
  assumes swo: "strict_weak_order lt" and sel: "selection lt A ys" and top: "top_rows lt A ys"
  shows "top_rows lt (A - {c}) (filter (\<lambda>x. x \<noteq> c) ys)"
proof (cases "ys = [] \<or> c \<noteq> last ys")
  case True
  have "last (filter (\<lambda>x. x \<noteq> c) ys) = last ys" if "ys \<noteq> []"
    using that True by (cases ys rule: rev_cases) auto
  with top show ?thesis by (cases "ys = []") (auto simp: top_rows_def)
next
  case False
  then obtain zs where ys: "ys = zs @ [c]" by (metis append_butlast_last_id)
  then have "filter (\<lambda>x. x \<noteq> c) ys = butlast ys"
    using sel by (simp add: selection_def filter_neq_id)
  moreover have "top_rows lt A (butlast ys)"
    using strict_weak_order.top_rows_butlast [OF swo sel top] .
  ultimately show ?thesis by (auto simp: top_rows_def)
qed


lemma best_rows_add:
  assumes "list_inv l" and "best_rows l" and "refs_live (m_storage l) c"
  shows "best_rows (add c t s l)"
proof -
  let ?st = "snd (addConnection c t s (m_storage l))"
  let ?l = "l\<lparr>m_storage := ?st\<rparr>" and ?it = "Item_create c"
  have base: "list_base l" and sorted: "sorted_by (cmp l) (ptrs l)" and sub: "set (ptrs l) \<subseteq> stored l"
    and wf: "storage_wf (m_storage l)"
    using assms(1) by (auto simp: list_inv_def list_rows_def list_base_def)
  have st: "stored ?l = insert c (stored l)" by (simp add: stored_def storage_simps)
  have cmp: "cmp ?l a b = cmp l a b" if "a \<in> stored l" "b \<in> stored l" for a b
    using that base compareFunc_view [OF view_addConnection view_addConnection]
    by (simp add: cmp_def list_base_def stored_def)
  have old: "top_rows (cmp ?l) (stored l) (ptrs l)"
    using top_rows_cong [OF cmp sub] assms(2) by (simp add: best_rows_def)
  have base': "list_base ?l"
    using base storage_wf_addConnection [OF wf assms(3)]
    by (intro list_base_storage) (auto simp: storage_simps)
  have sorted': "sorted_by (cmp ?l) (ptrs l)"
    using sub by (simp add: sorted_storage [OF base sorted] view_addConnection stored_def subset_iff)
  have swo: "strict_weak_order (cmp ?l)" using base' by (rule list_base_swo)
  have add: "add c t s l = (if c \<notin> stored l then handleNewConnection c ?l else ?l)"
    by (simp add: add_def Let_def stored_def case_prod_unfold addConnection_fst)
  show ?thesis
  proof (cases "c \<in> stored l")
    case True
    then show ?thesis using old st by (simp add: add best_rows_def insert_absorb)
  next
    case False
    then have out: "c \<notin> set (ptrs l)" and st': "stored ?l - {c} = stored l" using sub st by auto
    have sel: "selection (cmp ?l) (stored ?l) (ptrs l)"
      using list_base_selection [OF base'] sorted' by simp
    consider (ins) "m_list l \<noteq> []" "item_less ?l ?it (last (m_list l))"
      | (push) "\<not> (m_list l \<noteq> [] \<and> item_less ?l ?it (last (m_list l)))" "getSize ?l < m_targetSize l"
      | (full) "\<not> (m_list l \<noteq> [] \<and> item_less ?l ?it (last (m_list l)))" "\<not> getSize ?l < m_targetSize l"
      by blast
    then have "best_rows (handleNewConnection c ?l)"
    proof cases
      case ins
      then have "top_rows (cmp ?l) (stored ?l) (ptrs (insertItem ?l ?it))"
        unfolding ptrs_insertItem
        using strict_weak_order.top_rows_pinsert [OF swo sel, of c "m_scrollOffset l" "m_targetSize l"]
          old st st' out by (simp add: item_less_cmp last_ptrs)
      with ins show ?thesis by (simp add: handleNewConnection_def best_rows_def list_frame)
    next
      case push
      let ?m = "?l\<lparr>m_list := m_list l @ [?it], m_isRefreshRequired := True\<rparr>"
      have e: "handleNewConnection c ?l = ?m"
        using push by (auto simp: handleNewConnection_def Let_def)
      have "set (ptrs l) = stored l"
      proof (rule ccontr)
        assume "set (ptrs l) \<noteq> stored l"
        then obtain p where "p \<in> stored l" "p \<notin> set (ptrs l)" using sub by blast
        with unlisted_room [OF base] have "length (m_list l) < getConnectionCount (m_storage l)" by blast
        with push(2) assms(1) show False
          by (auto simp: list_inv_def list_rows_def sized_def getSize_eq split: if_splits)
      qed
      then show ?thesis using st by (auto simp: e best_rows_def top_rows_def ptrs_def)
    next
      case full
      then have "handleNewConnection c ?l = ?l" by (auto simp: handleNewConnection_def Let_def)
      moreover have "top_rows (cmp ?l) (stored ?l) (ptrs l)"
        using old full(1) st by (auto simp: top_rows_def item_less_cmp last_ptrs)
      ultimately show ?thesis by (simp add: best_rows_def)
    qed
    with False show ?thesis by (simp add: add)
  qed
qed

lemma best_rows_remove:
  assumes "list_inv l" and "best_rows l"
  shows "best_rows (remove c l)"
proof (cases "c \<in> stored l")
  case False
  then have "remove c l = l"
    by (auto simp: remove_def removeConnection_def stored_def set_connections)
  with assms show ?thesis by simp
next
  case True
  from remove_stored [OF assms(1) this] obtain m
    where e: "remove c l = (clampCursor (fill m))\<lparr>m_isRefreshRequired := True\<rparr>"
      and m: "list_base m" "sorted_by (cmp m) (ptrs m)" "ptrs m = filter (\<lambda>x. x \<noteq> c) (ptrs l)"
        "m_storage m = snd (removeConnection c (m_storage l))" "m_compareFunc m = m_compareFunc l"
    by blast
  have base: "list_base l" and sorted: "sorted_by (cmp l) (ptrs l)"
    using assms(1) by (auto simp: list_inv_def list_rows_def)
  have st: "stored m = stored l - {c}" by (simp add: stored_def m(4) storage_simps)
  have cmp: "cmp m a b = cmp l a b" if "a \<in> stored l - {c}" "b \<in> stored l - {c}" for a b
    using that base compareFunc_view [OF view_removeConnection view_removeConnection]
    by (simp add: cmp_def list_base_def m(4,5))
  have "top_rows (cmp l) (stored l - {c}) (ptrs m)"
    unfolding m(3) using assms(2) list_base_selection [OF base sorted] list_base_swo [OF base]
    by (intro top_rows_remove) (simp_all add: best_rows_def)
  then have "best_rows m"
    unfolding best_rows_def st using m(1) st by (intro top_rows_cong [OF cmp]) (auto simp: list_base_def)
  then show ?thesis using best_rows_fill [OF m(1,2)] by (simp add: e best_rows_clampCursor)
qed

lemma best_rows_cut:
  assumes "list_rows l" and "best_rows l" and "k \<le> length (m_list l)"
  shows "best_rows (l\<lparr>m_scrollOffset := off, m_targetSize := tgt, m_list := take k (m_list l)\<rparr>)"
proof -
  have base: "list_base l" using assms(1) by (simp add: list_rows_def)
  have "top_rows (cmp l) (stored l) ((butlast ^^ (length (m_list l) - k)) (ptrs l))"
    using assms by (intro strict_weak_order.top_rows_take [OF list_base_swo [OF base]] list_base_selection)
      (auto simp: list_rows_def best_rows_def)
  then show ?thesis
    using assms(3) by (simp add: best_rows_def butlast_pow_take take_map ptrs_def)
qed

lemma best_rows_doScroll:
  assumes "list_inv l" and "best_rows l"
  shows "best_rows (doScroll n l)"
proof -
  have rows: "list_rows l" and base: "list_base l" and sorted: "sorted_by (cmp l) (ptrs l)"
    using assms(1) by (auto simp: list_inv_def list_rows_def)
  let ?down = "\<lambda>k. invalidateAllVisible (l\<lparr>m_scrollOffset := m_scrollOffset l + k\<rparr>)"
  have "best_rows (fill (?down k))" for k
  proof -
    let ?l = "l\<lparr>m_scrollOffset := m_scrollOffset l + k\<rparr>"
    have "list_base ?l" using base by (simp add: list_base_def)
    then have "list_base (?down k)"
      using ptrs_invalidateAllVisible [of ?l] length_ptrs [of "?down k"] length_ptrs [of ?l]
      by (intro list_base_rows_only [OF _ rows_only_invalidateAllVisible]) (simp_all add: list_base_def)
    moreover have "sorted_by (cmp (?down k)) (ptrs (?down k))" "best_rows (?down k)"
      using sorted assms(2) by (simp_all add: best_rows_def list_frame ptrs_invalidateAllVisible)
    ultimately show ?thesis by (rule best_rows_fill)
  qed
  moreover have "best_rows (invalidateAllVisible (l\<lparr>m_scrollOffset := k, m_list := (butlast ^^ j) (m_list l)\<rparr>))"
    for k j
    using best_rows_cut [OF rows assms(2), of "length (m_list l) - j" k "m_targetSize l"]
    by (simp add: butlast_pow_take)
      (simp add: best_rows_def list_frame ptrs_invalidateAllVisible)
  ultimately show ?thesis using assms(2) by (simp add: doScroll_def Let_def)
qed

lemma best_rows_setTargetSize:
  assumes "list_inv l" and "best_rows l"
  shows "best_rows (setTargetSize n l)"
proof -
  have rows: "list_rows l" and base: "list_base l" and sorted: "sorted_by (cmp l) (ptrs l)"
    using assms(1) by (auto simp: list_inv_def list_rows_def)
  let ?l = "l\<lparr>m_targetSize := n\<rparr>"
  have "best_rows (?l\<lparr>m_list := (butlast ^^ j) (m_list l), m_isRefreshRequired := True\<rparr>)" for j
    using best_rows_cut [OF rows assms(2), where k = "length (m_list l) - j"
        and off = "m_scrollOffset l" and tgt = n]
    by (simp add: butlast_pow_take)
  moreover have "best_rows ?l" using assms(2) by (simp add: best_rows_def)
  moreover have "best_rows (fill ?l)" if "getSize ?l < n" "best_rows ?l"
    using that base sorted by (intro best_rows_fill) (auto simp: list_base_def getSize_eq)
  ultimately show ?thesis
    using assms(2) by (simp add: setTargetSize_def Let_def best_rows_clampCursor)
qed

lemma best_rows_setSortMode:
  assumes "list_inv l" and "best_rows l"
  shows "best_rows (setSortMode m b l)"
proof -
  let ?l = "(updateCompareFunc (l\<lparr>m_sortMode := m, m_isSortAscending := b\<rparr>))\<lparr>m_list := []\<rparr>"
  have "list_base ?l"
    using assms(1) by (simp add: list_inv_def list_rows_def list_base_def updateCompareFunc_def)
  then have "best_rows (fill ?l)" by (rule best_rows_fill) (simp_all add: best_rows_def top_rows_def)
  with assms(2) show ?thesis by (simp add: setSortMode_def Let_def)
qed


section \<open>What the code does not do\<close>

text \<open>\<open>fill\<close> does nothing to a list that has the right number of rows.\<close>

lemma fill_noop:
  assumes "sized (m_scrollOffset l) (m_targetSize l) (getConnectionCount (m_storage l)) (length (m_list l))"
  shows "fill l = l"
  using assms by (auto simp: fill_def sized_def getSize_eq split: if_splits)

lemma set_ptrs_update_order:
  assumes "upd_ready p l"
  shows "set (ptrs (update_order i l)) = set (ptrs l)"
proof -
  have base: "list_base l" and sz: "sized (m_scrollOffset l) (m_targetSize l)
      (getConnectionCount (m_storage l)) (length (m_list l))"
    using assms by (simp_all add: upd_ready_def)
  have len: "length (m_list (sort l)) = length (m_list l)"
    using mset_eq_length [OF ptrs_sort [of l]] by simp
  have "fill l = l" and "fill (sort l) = sort l"
    using sz by (simp_all add: fill_noop list_frame len)
  then show ?thesis using mset_eq_setD [OF ptrs_sort [of l]] by (simp add: update_order_def Let_def)
qed

lemma set_ptrs_update:
  assumes "upd_ready p l" and "p \<in> set (ptrs l)"
  shows "set (ptrs (update p f l)) = set (ptrs l)"
proof -
  define l0 where
    "l0 = (if m_connectionDetail l = Some p then l\<lparr>m_connectionDetailUpdateFlags := f\<rparr> else l)"
  have l0: "upd_ready p l0" "ptrs l0 = ptrs l" "m_list l0 = m_list l"
    using assms(1) by (simp_all add: l0_def upd_ready_def)
  let ?i = "find_index (\<lambda>it. pConnection it = p) (m_list l0)"
  have i: "?i < length (m_list l0)"
    using assms(2) unfolding find_index_less_iff by (auto simp: ptrs_def l0)
  have ne: "m_list l0 \<noteq> []" using i by auto
  note mk = update_mark_rows [OF i, of f]
  have "set (ptrs (update_order ?i (update_mark ?i f l0))) = set (ptrs l)"
    using set_ptrs_update_order [OF upd_ready_rows_only [OF l0(1) mk]] mk(2) l0(2) by simp
  then show ?thesis
    unfolding update_def l0_def [symmetric] using i ne by (simp add: update_rows_def Let_def)
qed

section \<open>A sample list\<close>

definition sample_conn :: "u16 \<Rightarrow> Connection" where
  "sample_conn n = Connection TCP4 (AddressIP4 1) (Port TCP n) (AddressIP4 1) (Port TCP 0)"

definition sample_speed :: "u64 \<Rightarrow> ConnectionTraffic" where
  "sample_speed n = ConnectionTraffic_zero\<lparr>rxSpeed := n\<rparr>"

text \<open>One row on the screen, sorted by the receiving speed, the fastest first.\<close>

definition sample_start :: ConnectionList where
  "sample_start =
     snd (getPort (Port TCP 2) True (snd (getPort (Port TCP 1) True (snd (getPort (Port TCP 0) True
       (snd (getAddress sample_net (AddressIP4 1) True
         (setSortMode RX_SPEED False (setTargetSize 1 ConnectionList_init)))))))))"

definition sample_one :: ConnectionList where
  "sample_one = add (sample_conn 1) (sample_speed 10) 0 sample_start"

definition sample_two :: ConnectionList where
  "sample_two = add (sample_conn 2) (sample_speed 5) 0 sample_one"

lemmas list_eval = getPort_def getAddress_def setSortMode_def setTargetSize_def ConnectionList_init_def
  addPort_def addIP4Address_def addConnection_def um_find_def um_emplace_def um_write_def Let_def
  fill_def getSize_def updateCompareFunc_def ConnectionStorage_init_def getConnectionCount_def
  clampCursor_def getCursorMaxPos_def add_def handleNewConnection_def item_less_def
  derefConnection_def ConnectionData_create_def setConnection_def sample_conn_def sample_speed_def

lemma sample_start_reach: "list_reach sample_net sample_start"
  unfolding sample_start_def
  by (intro reach_step [OF _ step_port] reach_step [OF _ step_address] reach_step [OF _ step_sort]
      reach_step [OF _ step_resize] reach_init)

lemma sample_start_refs: "n \<in> {1, 2} \<Longrightarrow> refs_live (m_storage sample_start) (sample_conn n)"
  by (auto simp: sample_start_def list_eval refs_live_def address_live_def port_live_def)

lemma rows_only_handleNewConnection: "rows_only l (handleNewConnection p l)"
  by (simp add: handleNewConnection_def Let_def rows_only_insertItem) (simp add: rows_only_def)

lemma storage_add: "m_storage (add c t s l) = snd (addConnection c t s (m_storage l))"
  by (simp add: add_def Let_def case_prod_unfold rows_onlyD [OF rows_only_handleNewConnection])

lemma scroll_add: "m_scrollOffset (add c t s l) = m_scrollOffset l"
  by (simp add: add_def Let_def case_prod_unfold rows_onlyD [OF rows_only_handleNewConnection])

lemma storage_update: "m_storage (update p f l) = m_storage l"
  by (simp add: update_def update_rows_def Let_def list_frame rows_onlyD [OF rows_only_update_order])
    (simp add: update_mark_def)

lemma refs_live_add: "refs_live (m_storage (add c t s l)) d = refs_live (m_storage l) d"
  by (simp add: storage_add refs_live_def address_live_def port_live_def storage_frame)

lemma sample_one_reach: "list_reach sample_net sample_one"
  unfolding sample_one_def using sample_start_refs by (intro reach_step [OF sample_start_reach] step_add) simp

lemma sample_two_reach: "list_reach sample_net sample_two"
  unfolding sample_two_def
proof (intro reach_step [OF sample_one_reach] step_add)
  show "refs_live (m_storage sample_one) (sample_conn 2)"
    unfolding sample_one_def refs_live_add by (rule sample_start_refs) simp
qed

lemma sample_one_rows:
  "map pConnection (m_list sample_one) = [sample_conn 1]" "connections (m_storage sample_one) = [sample_conn 1]"
  "m_storage sample_one = snd (addConnection (sample_conn 1) (sample_speed 10) 0 (m_storage sample_start))"
  by (simp_all add: sample_one_def sample_start_def list_eval Item_create_def connections_def um_keys_def)

lemma sample_two_rows:
  "map pConnection (m_list sample_two) = [sample_conn 1]"
  "connections (m_storage sample_two) = [sample_conn 2, sample_conn 1]"
  by (simp_all add: sample_two_def sample_one_def sample_start_def list_eval Item_create_def connections_def
      um_keys_def ConnectionTraffic_zero_def)

lemma sample_two_scroll: "m_scrollOffset sample_two = 0"
  unfolding sample_two_def sample_one_def scroll_add by (simp add: sample_start_def list_eval)

section \<open>Properties\<close>

text \<open>
  C5: in every state the list can reach through its interface, each row points to a connection that
  is still stored (no dangling pointer), no connection has two rows, the rows are in the order of the
  selected sort mode, the number of visible rows is the number of connections below the scroll
  offset or the size of the screen, whichever is less, the cursor is on a visible row whenever there
  is one, and the connection shown in detail is still stored.
\<close>

theorem list_reach_safe:
  assumes "list_reach net l"
  shows "(\<forall>i \<in> set (m_list l). um_find (pConnection i) (m_connectionMap (m_storage l)) \<noteq> None)
    \<and> distinct (map pConnection (m_list l))
    \<and> sorted_by (\<lambda>a b. compareFunc (m_sortMode l) (m_isSortAscending l) (m_storage l)
          (pConnection a) (pConnection b)) (m_list l)
    \<and> getSize l = min (getConnectionCount (m_storage l) - m_scrollOffset l) (m_targetSize l)
    \<and> (0 < getSize l \<longrightarrow> m_scrollOffset l + m_cursorPos l < length (m_list l))
    \<and> (\<forall>c. m_connectionDetail l = Some c \<longrightarrow> um_find c (m_connectionMap (m_storage l)) \<noteq> None)"
proof -
  have inv: "list_inv l" using assms by (rule list_inv_reach)
  then have rows: "list_rows l" and cur: "m_cursorPos l \<le> getCursorMaxPos l"
    by (simp_all add: list_inv_def)
  have "set (ptrs l) \<subseteq> stored l" using rows by (simp add: list_rows_def list_base_def)
  then have "\<forall>i \<in> set (m_list l). um_find (pConnection i) (m_connectionMap (m_storage l)) \<noteq> None"
    by (auto simp: ptrs_def stored_def set_connections)
  moreover have "getSize l = min (getConnectionCount (m_storage l) - m_scrollOffset l) (m_targetSize l)"
    using rows sized_visible by (fastforce simp: list_rows_def getSize_eq)
  moreover have "0 < getSize l \<longrightarrow> m_scrollOffset l + m_cursorPos l < length (m_list l)"
    using cur by (auto simp: getCursorMaxPos_def getSize_eq Let_def)
  moreover have "distinct (map pConnection (m_list l))"
    using rows by (simp add: list_rows_def list_base_def ptrs_def)
  ultimately show ?thesis
    using rows by (auto simp: list_rows_def list_base_def stored_def set_connections cmp_def
        sorted_by_map ptrs_def)
qed

theorem list_reach_safe_witness:
  "um_find (sample_conn 1) (m_connectionMap (m_storage sample_two)) \<noteq> None
   \<and> getSize sample_two = min (2 - m_scrollOffset sample_two) (m_targetSize sample_two)"
  using list_reach_safe [OF sample_two_reach] sample_two_rows
  by (auto simp: connection_count_keys)

text \<open>
  C19: as long as the data of the connections does not change, the list shows the first connections of
  the order: adding and removing connections, scrolling, resizing the screen and choosing another sort
  mode keep that no connection left out belongs before the last row.
\<close>

theorem best_rows_preserved:
  assumes "list_reach net l" and "best_rows l"
  shows "(refs_live (m_storage l) c \<longrightarrow> best_rows (add c t s l))
    \<and> best_rows (remove d l) \<and> best_rows (doScroll n l) \<and> best_rows (setTargetSize k l)
    \<and> best_rows (setSortMode m b l)"
  using list_inv_reach [OF assms(1)] assms(2)
  by (simp add: best_rows_add best_rows_remove best_rows_doScroll best_rows_setTargetSize
      best_rows_setSortMode)


theorem best_rows_preserved_witness: "best_rows (add (sample_conn 2) (sample_speed 5) 0 sample_one)"
proof -
  have "best_rows sample_one"
    using sample_one_rows by (simp add: best_rows_def top_rows_def ptrs_def stored_def)
  moreover have "refs_live (m_storage sample_one) (sample_conn 2)"
    unfolding sample_one_def refs_live_add by (rule sample_start_refs) simp
  ultimately show ?thesis using best_rows_preserved [OF sample_one_reach] by blast
qed

text \<open>
  C20: updating a connection that has a row never changes which connections have rows. The calls of
  \<open>fill\<close> in \<open>update\<close>, made because "maybe the updated connection shouldn't be in the list
  anymore", have no effect: the list is full, or it already holds everything.
\<close>

theorem update_never_evicts:
  assumes "list_reach net l" and "c \<in> set (map pConnection (m_list l))" and "keeps_identity g"
  shows "set (map pConnection (m_list (writeAndUpdate c g f l))) = set (map pConnection (m_list l))"
proof -
  have inv: "list_inv l" using assms(1) by (rule list_inv_reach)
  then have "c \<in> stored l" using assms(2) by (auto simp: list_inv_def list_rows_def list_base_def ptrs_def)
  from upd_ready_write [OF inv this assms(3)] assms(2) show ?thesis
    using set_ptrs_update [of c "l\<lparr>m_storage := writeConnection c g (m_storage l)\<rparr>" f]
    by (simp add: writeAndUpdate_def ptrs_def)
qed

text \<open>
  With one row on the screen, sorted by speed: connection 1 slows down below connection 2, which is
  not listed, and keeps the only row.
\<close>

theorem update_never_evicts_witness:
  "let l = writeAndUpdate (sample_conn 1) (\<lambda>d. d\<lparr>cd_traffic := sample_speed 1\<rparr>) 1 sample_two
   in set (map pConnection (m_list l)) = {sample_conn 1} \<and>
      compareFunc RX_SPEED False (m_storage l) (sample_conn 2) (sample_conn 1)"
proof -
  let ?g = "\<lambda>d. d\<lparr>cd_traffic := sample_speed 1\<rparr>"
  have "keeps_identity ?g" by (simp add: keeps_identity_def)
  from update_never_evicts [OF sample_two_reach _ this, of "sample_conn 1" 1] sample_two_rows(1)
  have "set (map pConnection (m_list (writeAndUpdate (sample_conn 1) ?g 1 sample_two))) = {sample_conn 1}"
    by simp
  moreover have "m_storage (writeAndUpdate (sample_conn 1) ?g 1 sample_two)
      = writeConnection (sample_conn 1) ?g (m_storage sample_two)"
    by (simp add: writeAndUpdate_def storage_update)
  moreover have "compareFunc RX_SPEED False (writeConnection (sample_conn 1) ?g (m_storage sample_two))
      (sample_conn 2) (sample_conn 1)"
    by (simp add: writeConnection_def sample_two_def sample_one_def sample_start_def list_eval
        ConnectionTraffic_zero_def)
  ultimately show ?thesis by simp
qed

text \<open>
  \<open>clear\<close> forgets the rows and the cursor but keeps the scroll offset. On a list that was
  scrolled, connections added afterwards stay out of sight until there are more of them than the old
  offset.
\<close>

theorem clear_keeps_scroll:
  assumes "list_reach net l" and "0 < m_scrollOffset l" and "refs_live (m_storage l) c"
  shows "getSize (add c t s (clear l)) = 0 \<and> getConnectionCount (m_storage (add c t s (clear l))) = 1"
proof -
  let ?l = "clear l"
  have inv: "list_inv ?l" using list_inv_clear [OF list_inv_reach [OF assms(1)]] .
  have live: "refs_live (m_storage ?l) c"
    using assms(3) by (simp add: clear_def refs_live_def address_live_def port_live_def storage_frame)
  have count: "getConnectionCount (m_storage (add c t s ?l)) = 1"
    using list_inv_sorted(3) [OF inv] count_add [of "m_storage ?l" c t s]
    by (simp add: storage_add connection_count_keys clear_def connections_clear)
  have "list_inv (add c t s ?l)" using list_inv_add [OF inv live] .
  then have "getSize (add c t s ?l) = visible_rows (add c t s ?l)"
    using sized_visible by (fastforce simp: list_inv_def list_rows_def getSize_eq visible_rows_def)
  moreover have "m_scrollOffset (add c t s ?l) = m_scrollOffset l"
    by (simp add: scroll_add clear_def)
  ultimately show ?thesis using count assms(2) by (simp add: visible_rows_def)
qed

theorem clear_keeps_scroll_witness:
  "getSize (add (sample_conn 1) (sample_speed 10) 0 (clear (doScroll 1 sample_two))) = 0"
proof -
  have s: "m_scrollOffset (doScroll 1 sample_two) = 1"
    using sample_two_rows(2) arg_cong [OF sample_two_rows(1), of length] sample_two_scroll
    by (simp add: doScroll_def Let_def list_frame connection_count_keys)
  have "list_reach sample_net (doScroll 1 sample_two)"
    by (rule reach_step [OF sample_two_reach step_scroll])
  moreover have "refs_live (m_storage (doScroll 1 sample_two)) (sample_conn 1)"
  proof -
    have "m_storage (doScroll 1 sample_two) = m_storage sample_two"
      by (simp add: doScroll_def Let_def list_frame)
    then show ?thesis
      unfolding sample_two_def sample_one_def by (simp add: refs_live_add sample_start_refs)
  qed
  ultimately show ?thesis using clear_keeps_scroll [of sample_net "doScroll 1 sample_two"] s by simp
qed

end
