(* ===== verification/Serialize.thy ===== *)
theory Serialize
  imports ConnListProps
begin

text \<open>
  \<^verbatim>\<open>ConnectionData::serialize\<close> and \<^verbatim>\<open>ConnectionData::Deserialize\<close>
  (\<^verbatim>\<open>Connection.cpp\<close>), over the JSON values of RapidJSON, and the interface
  \<^verbatim>\<open>IConnectionUpdateCallback\<close> through which a deserialized connection reaches its
  receiver.
\<close>

section \<open>JSON values\<close>

text \<open>The values the program builds and inspects; \<open>JDouble\<close> keeps the text of the number.\<close>

datatype json = JNull | JBool bool | JInt int | JDouble string | JString string
  | JArray "json list" | JObject "(string \<times> json) list"

fun FindMember :: "json \<Rightarrow> string \<Rightarrow> json option" where
  "FindMember (JObject ms) key = map_of ms key"
| "FindMember _ key = None"

fun IsObject :: "json \<Rightarrow> bool" where
  "IsObject (JObject _) = True"
| "IsObject _ = False"

definition result_bind :: "'a result \<Rightarrow> ('a \<Rightarrow> 'b result) \<Rightarrow> 'b result" where
  "result_bind r f = (case r of Inl e \<Rightarrow> Inl e | Inr a \<Rightarrow> f a)"

text \<open>
  The pattern "find the member, throw if it is missing, throw if it has the wrong type, get it".
  \<open>GetString\<close> yields a C string, so what follows a NUL is lost.
\<close>

definition get_string :: "json \<Rightarrow> string \<Rightarrow> string \<Rightarrow> string \<Rightarrow> KString result" where
  "get_string doc key missing invalid =
     (case FindMember doc key of
        None \<Rightarrow> Inl (invalid_argument missing)
      | Some (JString s) \<Rightarrow> Inr (KString_of_cstr s)
      | Some _ \<Rightarrow> Inl (invalid_argument invalid))"

definition get_int :: "json \<Rightarrow> string \<Rightarrow> string \<Rightarrow> string \<Rightarrow> int result" where
  "get_int doc key missing invalid =
     (case FindMember doc key of
        None \<Rightarrow> Inl (invalid_argument missing)
      | Some (JInt n) \<Rightarrow>
          (if - (2 ^ 31) \<le> n \<and> n < 2 ^ 31 then Inr n else Inl (invalid_argument invalid))
      | Some _ \<Rightarrow> Inl (invalid_argument invalid))"

definition get_uint :: "json \<Rightarrow> string \<Rightarrow> string \<Rightarrow> string \<Rightarrow> int result" where
  "get_uint doc key missing invalid =
     (case FindMember doc key of
        None \<Rightarrow> Inl (invalid_argument missing)
      | Some (JInt n) \<Rightarrow> (if 0 \<le> n \<and> n < 2 ^ 32 then Inr n else Inl (invalid_argument invalid))
      | Some _ \<Rightarrow> Inl (invalid_argument invalid))"

definition get_uint64 :: "json \<Rightarrow> string \<Rightarrow> string \<Rightarrow> string \<Rightarrow> u64 result" where
  "get_uint64 doc key missing invalid =
     (case FindMember doc key of
        None \<Rightarrow> Inl (invalid_argument missing)
      | Some (JInt n) \<Rightarrow> (if 0 \<le> n \<and> n < 2 ^ 64 then Inr (of_int n) else Inl (invalid_argument invalid))
      | Some _ \<Rightarrow> Inl (invalid_argument invalid))"

definition get_bool :: "json \<Rightarrow> string \<Rightarrow> string \<Rightarrow> string \<Rightarrow> bool result" where
  "get_bool doc key missing invalid =
     (case FindMember doc key of
        None \<Rightarrow> Inl (invalid_argument missing)
      | Some (JBool b) \<Rightarrow> Inr b
      | Some _ \<Rightarrow> Inl (invalid_argument invalid))"

section \<open>The callback interface\<close>

text \<open>
  The virtual functions, over the state \<open>'s\<close> of the implementing object. \<open>cb_write\<close> is the
  write through the pointer that \<open>find\<close> returned, \<open>cb_addNew\<close> the overload of
  \<open>add\<close> without traffic and state.
\<close>

record 's IConnectionUpdateCallback =
  cb_getAddress :: "IAddress \<Rightarrow> bool \<Rightarrow> 's \<Rightarrow> IAddress option \<times> 's"
  cb_getPort :: "Port \<Rightarrow> bool \<Rightarrow> 's \<Rightarrow> Port option \<times> 's"
  cb_find :: "Connection \<Rightarrow> 's \<Rightarrow> Connection option"
  cb_write :: "Connection \<Rightarrow> (ConnectionData \<Rightarrow> ConnectionData) \<Rightarrow> 's \<Rightarrow> 's"
  cb_addNew :: "Connection \<Rightarrow> 's \<Rightarrow> 's"
  cb_add :: "Connection \<Rightarrow> ConnectionTraffic \<Rightarrow> int \<Rightarrow> 's \<Rightarrow> 's"
  cb_update :: "Connection \<Rightarrow> flags \<Rightarrow> 's \<Rightarrow> 's"
  cb_remove :: "Connection \<Rightarrow> 's \<Rightarrow> 's"
  cb_clear :: "'s \<Rightarrow> 's"

section \<open>Serialization\<close>

definition json_u64 :: "string \<Rightarrow> u64 \<Rightarrow> string \<times> json" where
  "json_u64 key n = (key, JInt (uint n))"

definition serialize_create :: "ConnectionData \<Rightarrow> (string \<times> json) list" where
  "serialize_create d =
     [(''state'', JString (getStateName d)),
      json_u64 ''rxPackets'' (rxPackets (cd_traffic d)), json_u64 ''txPackets'' (txPackets (cd_traffic d)),
      json_u64 ''rxBytes'' (rxBytes (cd_traffic d)), json_u64 ''txBytes'' (txBytes (cd_traffic d)),
      json_u64 ''rxSpeed'' (rxSpeed (cd_traffic d)), json_u64 ''txSpeed'' (txSpeed (cd_traffic d))]"

definition serialize_update :: "ConnectionData \<Rightarrow> flags \<Rightarrow> (string \<times> json) list" where
  "serialize_update d uflags =
     [(''updateFlags'', JInt (sint uflags))]
     @ (if has_flag uflags F_PROTO_STATE then [(''state'', JString (getStateName d))] else [])
     @ (if has_flag uflags F_RX_PACKETS then [json_u64 ''rxPackets'' (rxPackets (cd_traffic d))] else [])
     @ (if has_flag uflags F_TX_PACKETS then [json_u64 ''txPackets'' (txPackets (cd_traffic d))] else [])
     @ (if has_flag uflags F_RX_BYTES then [json_u64 ''rxBytes'' (rxBytes (cd_traffic d))] else [])
     @ (if has_flag uflags F_TX_BYTES then [json_u64 ''txBytes'' (txBytes (cd_traffic d))] else [])
     @ (if has_flag uflags F_RX_SPEED then [json_u64 ''rxSpeed'' (rxSpeed (cd_traffic d))] else [])
     @ (if has_flag uflags F_TX_SPEED then [json_u64 ''txSpeed'' (txSpeed (cd_traffic d))] else [])"

definition serialize :: "ConnectionStorage \<Rightarrow> Connection \<Rightarrow> EConnectionAction \<Rightarrow> flags \<Rightarrow> json" where
  "serialize st p action uflags =
     (let d = derefConnection st p; c = cd_connection d
      in JObject (
        [(''action'', JString (ActionToString action)),
         (''type'', JString (cd_typeName d)),
         (''srcAddress'', JString (ad_numericString (derefAddress st (c_srcAddr c)))),
         (''dstAddress'', JString (ad_numericString (derefAddress st (c_dstAddr c))))]
        @ (if cd_hasPorts d
           then [(''srcPort'', JInt (uint (port_number (pd_port (derefPort st (c_srcPort c)))))),
                 (''dstPort'', JInt (uint (port_number (pd_port (derefPort st (c_dstPort c))))))]
           else [])
        @ (case action of
             CREATE \<Rightarrow> serialize_create d
           | UPDATE \<Rightarrow> serialize_update d uflags
           | REMOVE \<Rightarrow> [])))"

section \<open>Deserialization\<close>

fun portType_of :: "EConnectionType \<Rightarrow> EPortType" where
  "portType_of UDP4 = UDP"
| "portType_of UDP6 = UDP"
| "portType_of TCP4 = TCP"
| "portType_of TCP6 = TCP"

text \<open>What the first half of \<open>Deserialize\<close> has read when it calls the receiver.\<close>

record ConnectionMsg =
  cm_action :: EConnectionAction
  cm_type :: EConnectionType
  cm_srcAddress :: KString
  cm_dstAddress :: KString
  cm_srcPort :: u16
  cm_dstPort :: u16
  cm_updateFlags :: flags
  cm_state :: int
  cm_traffic :: ConnectionTraffic

definition read_state :: "json \<Rightarrow> EPortType \<Rightarrow> int result" where
  "read_state doc portType =
     result_bind (get_string doc ''state'' ''Missing connection state'' ''Invalid connection state value type'')
       (\<lambda>s. Inr (case portType of UDP \<Rightarrow> UDP_StateToEnum s | TCP \<Rightarrow> TCP_StateToEnum s))"

definition read_counter :: "bool \<Rightarrow> json \<Rightarrow> string \<Rightarrow> string \<Rightarrow> string \<Rightarrow> u64 result" where
  "read_counter wanted doc key missing invalid =
     (if wanted then get_uint64 doc key missing invalid else Inr 0)"

definition read_traffic :: "json \<Rightarrow> EConnectionAction \<Rightarrow> flags \<Rightarrow> ConnectionTraffic result" where
  "read_traffic doc action f =
     (if action = REMOVE then Inr ConnectionTraffic_zero
      else
        let wanted = (\<lambda>g. action = CREATE \<or> has_flag f g)
        in result_bind (read_counter (wanted F_RX_PACKETS) doc ''rxPackets''
               ''Missing received packets count'' ''Invalid received packets count value type'') (\<lambda>rp.
           result_bind (read_counter (wanted F_TX_PACKETS) doc ''txPackets''
               ''Missing sent packets count'' ''Invalid sent packets count value type'') (\<lambda>tp.
           result_bind (read_counter (wanted F_RX_BYTES) doc ''rxBytes''
               ''Missing received bytes count'' ''Invalid received bytes count value type'') (\<lambda>rb.
           result_bind (read_counter (wanted F_TX_BYTES) doc ''txBytes''
               ''Missing sent bytes count'' ''Invalid sent bytes count value type'') (\<lambda>tb.
           result_bind (read_counter (wanted F_RX_SPEED) doc ''rxSpeed''
               ''Missing receive speed'' ''Invalid receive speed value type'') (\<lambda>rs.
           result_bind (read_counter (wanted F_TX_SPEED) doc ''txSpeed''
               ''Missing send speed'' ''Invalid send speed value type'') (\<lambda>ts.
           Inr \<lparr>rxPackets = rp, txPackets = tp, rxBytes = rb, txBytes = tb, rxSpeed = rs, txSpeed = ts\<rparr>)))))))"

definition read_flags :: "json \<Rightarrow> EConnectionAction \<Rightarrow> flags result" where
  "read_flags doc action =
     (if action = UPDATE
      then result_bind (get_int doc ''updateFlags'' ''Missing update flags'' ''Invalid update flags value type'')
             (\<lambda>n. Inr (of_int n))
      else Inr 0)"

definition Deserialize_read :: "json \<Rightarrow> ConnectionMsg result" where
  "Deserialize_read doc =
     (if \<not> IsObject doc then Inl assertion_failed
      else
     result_bind (get_string doc ''action'' ''Missing connection action'' ''Invalid connection action value type'') (\<lambda>an.
     result_bind (ActionToEnum an) (\<lambda>action.
     result_bind (get_string doc ''type'' ''Missing connection type'' ''Invalid connection type value type'') (\<lambda>tn.
     result_bind (TypeToEnum tn) (\<lambda>type.
     result_bind (get_string doc ''srcAddress'' ''Missing source address'' ''Invalid source address value type'') (\<lambda>sa.
     result_bind (get_string doc ''dstAddress'' ''Missing destination address'' ''Invalid destination address value type'') (\<lambda>da.
     result_bind (get_uint doc ''srcPort'' ''Missing source port'' ''Invalid source port value type'') (\<lambda>sp.
     result_bind (get_uint doc ''dstPort'' ''Missing destination port'' ''Invalid destination port value type'') (\<lambda>dp.
     result_bind (read_flags doc action) (\<lambda>f.
     result_bind (if action = CREATE \<or> has_flag f F_PROTO_STATE then read_state doc (portType_of type) else Inr 0) (\<lambda>state.
     result_bind (read_traffic doc action f) (\<lambda>traffic.
     Inr \<lparr>cm_action = action, cm_type = type, cm_srcAddress = sa, cm_dstAddress = da,
          cm_srcPort = of_int sp, cm_dstPort = of_int dp, cm_updateFlags = f, cm_state = state,
          cm_traffic = traffic\<rparr>))))))))))))"

text \<open>The fields written by an \<open>UPDATE\<close>, and the flags reported for them.\<close>

definition apply_update :: "ConnectionMsg \<Rightarrow> ConnectionData \<Rightarrow> ConnectionData" where
  "apply_update m d =
     (let f = cm_updateFlags m; new = cm_traffic m;
          d0 = (if has_flag f F_PROTO_STATE then setState (cm_state m) d else d);
          t0 = cd_traffic d0;
          t1 = (if has_flag f F_RX_PACKETS then t0\<lparr>rxPackets := rxPackets new\<rparr> else t0);
          t2 = (if has_flag f F_TX_PACKETS then t1\<lparr>txPackets := txPackets new\<rparr> else t1);
          t3 = (if has_flag f F_RX_BYTES then t2\<lparr>rxBytes := rxBytes new\<rparr> else t2);
          t4 = (if has_flag f F_TX_BYTES then t3\<lparr>txBytes := txBytes new\<rparr> else t3);
          t5 = (if has_flag f F_RX_SPEED then t4\<lparr>rxSpeed := rxSpeed new\<rparr> else t4);
          t6 = (if has_flag f F_TX_SPEED then t5\<lparr>txSpeed := txSpeed new\<rparr> else t5)
      in d0\<lparr>cd_traffic := t6\<rparr>)"

definition data_flags :: "flags list" where
  "data_flags = [F_PROTO_STATE, F_RX_PACKETS, F_TX_PACKETS, F_RX_BYTES, F_TX_BYTES, F_RX_SPEED, F_TX_SPEED]"

definition reported_flags :: "flags \<Rightarrow> flags" where
  "reported_flags f = foldl (\<lambda>acc g. if has_flag f g then acc OR g else acc) 0 data_flags"

definition CreateFromString_of :: "inet \<Rightarrow> EConnectionType \<Rightarrow> KString \<Rightarrow> IAddress result" where
  "CreateFromString_of net type s =
     (case type of
        UDP4 \<Rightarrow> AddressIP4_CreateFromString net s
      | TCP4 \<Rightarrow> AddressIP4_CreateFromString net s
      | UDP6 \<Rightarrow> AddressIP6_CreateFromString net s
      | TCP6 \<Rightarrow> AddressIP6_CreateFromString net s)"

definition Deserialize_deliver ::
  "'s IConnectionUpdateCallback \<Rightarrow> ConnectionMsg \<Rightarrow> Connection \<Rightarrow> 's \<Rightarrow> bool result \<times> 's" where
  "Deserialize_deliver cb m c s =
     (case cm_action m of
        CREATE \<Rightarrow> (Inr True, cb_add cb c (cm_traffic m) (cm_state m) s)
      | UPDATE \<Rightarrow>
          (case cb_find cb c s of
             None \<Rightarrow> (Inr False, s)
           | Some p \<Rightarrow>
               let s' = cb_write cb p (apply_update m) s; f = reported_flags (cm_updateFlags m)
               in (Inr True, if f \<noteq> 0 then cb_update cb p f s' else s'))
      | REMOVE \<Rightarrow> (Inr True, cb_remove cb c s))"

definition Deserialize_ports ::
  "'s IConnectionUpdateCallback \<Rightarrow> ConnectionMsg \<Rightarrow> IAddress \<Rightarrow> IAddress \<Rightarrow> 's \<Rightarrow> bool result \<times> 's" where
  "Deserialize_ports cb m srcAddress dstAddress s =
     (let add = (cm_action m = CREATE); portType = portType_of (cm_type m);
          (srcPort, s1) = cb_getPort cb (Port portType (cm_srcPort m)) add s;
          (dstPort, s2) = cb_getPort cb (Port portType (cm_dstPort m)) add s1
      in case (srcPort, dstPort) of
           (Some sp, Some dp) \<Rightarrow>
             Deserialize_deliver cb m (Connection_create srcAddress sp dstAddress dp) s2
         | _ \<Rightarrow> (Inr False, s2))"

definition Deserialize ::
  "inet \<Rightarrow> 's IConnectionUpdateCallback \<Rightarrow> json \<Rightarrow> 's \<Rightarrow> bool result \<times> 's" where
  "Deserialize net cb doc s =
     (case Deserialize_read doc of
        Inl e \<Rightarrow> (Inl e, s)
      | Inr m \<Rightarrow>
          let add = (cm_action m = CREATE)
          in case CreateFromString_of net (cm_type m) (cm_srcAddress m) of
               Inl e \<Rightarrow> (Inl e, s)
             | Inr a \<Rightarrow>
                 let (srcAddress, s1) = cb_getAddress cb a add s
                 in case CreateFromString_of net (cm_type m) (cm_dstAddress m) of
                      Inl e \<Rightarrow> (Inl e, s1)
                    | Inr b \<Rightarrow>
                        let (dstAddress, s2) = cb_getAddress cb b add s1
                        in case (srcAddress, dstAddress) of
                             (Some sa, Some da) \<Rightarrow> Deserialize_ports cb m sa da s2
                           | _ \<Rightarrow> (Inr False, s2))"

end
