(* ===== verification/SerializeProps.thy ===== *)
theory SerializeProps
  imports Serialize
begin

text \<open>
  What \<open>Deserialize\<close> makes of a serialized connection, for every receiver that implements the
  callback interface over a storage, and that it keeps the connection list consistent whatever the
  document.
\<close>

section \<open>Reading back what was written\<close>

text \<open>The printed form of every stored address is the one the system prints.\<close>

definition storage_names :: "inet \<Rightarrow> ConnectionStorage \<Rightarrow> bool" where
  "storage_names net st \<longleftrightarrow>
     (\<forall>a d. findAddress st a = Some d \<longrightarrow> ad_numericString d = address_toString net a)"

lemma map_of_if_append:
  "map_of ((if b then [(k, v)] else []) @ xs) key = (if b \<and> k = key then Some v else map_of xs key)"
  "map_of (if b then [(k, v)] else []) key = (if b \<and> k = key then Some v else None)"
  by auto

lemma get_u64:
  assumes "FindMember doc key = Some (JInt (uint (n :: u64)))"
  shows "get_uint64 doc key m i = Inr n"
proof -
  have "0 \<le> uint n" "uint n < 2 ^ 64" using unsigned_less [of n, where ?'a = int] by simp_all
  then show ?thesis using assms by (simp add: get_uint64_def)
qed

lemma get_u16:
  assumes "FindMember doc key = Some (JInt (uint (n :: u16)))"
  shows "get_uint doc key m i = Inr (uint n)"
proof -
  have "0 \<le> uint n" "uint n < 2 ^ 16" using unsigned_less [of n, where ?'a = int] by simp_all
  then show ?thesis using assms by (simp add: get_uint_def)
qed

lemma get_flags:
  assumes "FindMember doc key = Some (JInt (sint (n :: flags)))"
  shows "get_int doc key m i = Inr (sint n)"
proof -
  have "- (2 ^ 31) \<le> sint n" "sint n < 2 ^ 31"
    using sint_greater_eq [of n] sint_less [of n] by simp_all
  then show ?thesis using assms by (simp add: get_int_def)
qed

lemma get_name:
  assumes "FindMember doc key = Some (JString s)" and "CHR 0x00 \<notin> set s"
  shows "get_string doc key m i = Inr s"
  using assms by (simp add: get_string_def KString_of_cstr_id)

text \<open>The traffic that a document with the given flags carries.\<close>

definition sent_traffic :: "EConnectionAction \<Rightarrow> flags \<Rightarrow> ConnectionTraffic \<Rightarrow> ConnectionTraffic" where
  "sent_traffic action f t =
     (if action = REMOVE then ConnectionTraffic_zero
      else let w = (\<lambda>g. action = CREATE \<or> has_flag f g)
           in \<lparr>rxPackets = (if w F_RX_PACKETS then rxPackets t else 0),
               txPackets = (if w F_TX_PACKETS then txPackets t else 0),
               rxBytes = (if w F_RX_BYTES then rxBytes t else 0),
               txBytes = (if w F_TX_BYTES then txBytes t else 0),
               rxSpeed = (if w F_RX_SPEED then rxSpeed t else 0),
               txSpeed = (if w F_TX_SPEED then txSpeed t else 0)\<rparr>)"

definition sent_msg ::
  "inet \<Rightarrow> Connection \<Rightarrow> ConnectionData \<Rightarrow> EConnectionAction \<Rightarrow> flags \<Rightarrow> ConnectionMsg" where
  "sent_msg net c d action f =
     (let f' = (if action = UPDATE then f else 0)
      in \<lparr>cm_action = action, cm_type = c_type c,
          cm_srcAddress = address_toString net (c_srcAddr c), cm_dstAddress = address_toString net (c_dstAddr c),
          cm_srcPort = port_number (c_srcPort c), cm_dstPort = port_number (c_dstPort c),
          cm_updateFlags = f',
          cm_state = (if action = CREATE \<or> has_flag f' F_PROTO_STATE then cd_state d else 0),
          cm_traffic = sent_traffic action f' (cd_traffic d)\<rparr>)"

lemma state_of_port: "(case portType_of t of UDP \<Rightarrow> UDP_StateToEnum s | TCP \<Rightarrow> TCP_StateToEnum s) = StateToEnum_of t s"
  by (cases t) simp_all

text \<open>The documented round trip of the system's address conversions, per address.\<close>

lemma toString_roundtrip:
  assumes "inet_roundtrip net"
  shows "CHR 0x00 \<notin> set (address_toString net a)"
    and "address_getType a = IP4 \<Longrightarrow> AddressIP4_CreateFromString net (address_toString net a) = Inr a"
    and "address_getType a = IP6 \<Longrightarrow> AddressIP6_CreateFromString net (address_toString net a) = Inr a"
proof -
  have 4: "\<exists>s. inet_ntop4 net x = Some s \<and> inet_pton4 net s = Some x \<and> CHR 0x00 \<notin> set s" for x
    using assms unfolding inet_roundtrip_def by blast
  have 6: "\<exists>s. inet_ntop6 net x = Some s \<and> inet_pton6 net s = Some x \<and> CHR 0x00 \<notin> set s" for x
    using assms unfolding inet_roundtrip_def by blast
  show "CHR 0x00 \<notin> set (address_toString net a)"
    using 4 6 by (cases a) (metis address_toString.simps option.simps(5))+
  show "AddressIP4_CreateFromString net (address_toString net a) = Inr a" if "address_getType a = IP4"
  proof (cases a)
    case (AddressIP4 x)
    with 4 [of x] show ?thesis by (auto simp: AddressIP4_CreateFromString_def KString_of_cstr_id)
  qed (use that in simp)
  show "AddressIP6_CreateFromString net (address_toString net a) = Inr a" if "address_getType a = IP6"
  proof (cases a)
    case (AddressIP6 x)
    with 6 [of x] show ?thesis by (auto simp: AddressIP6_CreateFromString_def KString_of_cstr_id)
  qed (use that in simp)
qed

section \<open>The document of a stored connection\<close>

lemma stored_data:
  assumes "storage_wf st" and "storage_names net st" and "c \<in> set (connections st)"
  shows "cd_connection (derefConnection st c) = c"
    and "cd_typeName (derefConnection st c) = TypeToString (c_type c)"
    and "ad_numericString (derefAddress st (c_srcAddr c)) = address_toString net (c_srcAddr c)"
    and "ad_numericString (derefAddress st (c_dstAddr c)) = address_toString net (c_dstAddr c)"
    and "pd_port (derefPort st (c_srcPort c)) = c_srcPort c"
    and "pd_port (derefPort st (c_dstPort c)) = c_dstPort c"
proof -
  obtain d where d: "um_find c (m_connectionMap st) = Some d"
    using assms(3) by (auto simp: set_connections)
  then have "cd_connection d = c" "cd_typeName d = TypeToString (c_type c)" "refs_live st c"
    using assms(1) by (auto simp: storage_wf_def)
  with d show "cd_connection (derefConnection st c) = c"
    and "cd_typeName (derefConnection st c) = TypeToString (c_type c)"
    by (simp_all add: derefConnection_def)
  from \<open>refs_live st c\<close> assms(1,2)
  show "ad_numericString (derefAddress st (c_srcAddr c)) = address_toString net (c_srcAddr c)"
    and "ad_numericString (derefAddress st (c_dstAddr c)) = address_toString net (c_dstAddr c)"
    and "pd_port (derefPort st (c_srcPort c)) = c_srcPort c"
    and "pd_port (derefPort st (c_dstPort c)) = c_dstPort c"
    by (auto simp: refs_live_def address_live_def port_live_def derefAddress_def derefPort_def
        storage_names_def storage_wf_def)
qed

definition head_members :: "inet \<Rightarrow> Connection \<Rightarrow> EConnectionAction \<Rightarrow> (string \<times> json) list" where
  "head_members net c action =
     [(''action'', JString (ActionToString action)), (''type'', JString (TypeToString (c_type c))),
      (''srcAddress'', JString (address_toString net (c_srcAddr c))),
      (''dstAddress'', JString (address_toString net (c_dstAddr c))),
      (''srcPort'', JInt (uint (port_number (c_srcPort c)))),
      (''dstPort'', JInt (uint (port_number (c_dstPort c))))]"

lemma serialize_eq:
  assumes "storage_wf st" and "storage_names net st" and "c \<in> set (connections st)"
  shows "serialize st c action f = JObject (head_members net c action
    @ (case action of CREATE \<Rightarrow> serialize_create (derefConnection st c)
       | UPDATE \<Rightarrow> serialize_update (derefConnection st c) f | REMOVE \<Rightarrow> []))"
  using stored_data [OF assms] deref_hasPorts [OF assms(1)]
  by (simp add: serialize_def Let_def head_members_def)

lemma read_state_roundtrip:
  assumes "FindMember doc ''state'' = Some (JString (getStateName d))"
    and "state_ok (c_type (cd_connection d)) (cd_state d)"
  shows "read_state doc (portType_of (c_type (cd_connection d))) = Inr (cd_state d)"
  using get_name [OF assms(1)] state_no_nul state_roundtrip [OF assms(2)]
  by (simp add: read_state_def result_bind_def state_of_port getStateName_def)


lemma read_head:
  assumes "inet_roundtrip net" and doc: "doc = JObject (head_members net c action @ t)"
  shows "get_string doc ''action'' m i = Inr (ActionToString action)"
    and "get_string doc ''type'' m i = Inr (TypeToString (c_type c))"
    and "get_string doc ''srcAddress'' m i = Inr (address_toString net (c_srcAddr c))"
    and "get_string doc ''dstAddress'' m i = Inr (address_toString net (c_dstAddr c))"
    and "get_uint doc ''srcPort'' m i = Inr (uint (port_number (c_srcPort c)))"
    and "get_uint doc ''dstPort'' m i = Inr (uint (port_number (c_dstPort c)))"
  by (rule get_name get_u16; simp add: doc head_members_def names_no_nul toString_roundtrip [OF assms(1)])+

lemma tail_keys:
  "key \<in> {''state'', ''updateFlags'', ''rxPackets'', ''txPackets'', ''rxBytes'', ''txBytes'', ''rxSpeed'', ''txSpeed''}
     \<Longrightarrow> FindMember (JObject (head_members net c action @ t)) key = map_of t key"
  by (auto simp: head_members_def)

lemma read_create_traffic:
  assumes "doc = JObject (head_members net c CREATE @ serialize_create d)"
  shows "read_traffic doc CREATE 0 = Inr (sent_traffic CREATE 0 (cd_traffic d))"
    and "FindMember doc ''state'' = Some (JString (getStateName d))"
proof -
  have counter: "read_counter b doc key m i = Inr (if b then n else 0)"
    if "(key, n) \<in> {(''rxPackets'', rxPackets (cd_traffic d)), (''txPackets'', txPackets (cd_traffic d)),
      (''rxBytes'', rxBytes (cd_traffic d)), (''txBytes'', txBytes (cd_traffic d)),
      (''rxSpeed'', rxSpeed (cd_traffic d)), (''txSpeed'', txSpeed (cd_traffic d))}" for b key n m i
    using that by (auto simp: read_counter_def assms(1) head_members_def serialize_create_def json_u64_def
        intro!: get_u64)
  show "read_traffic doc CREATE 0 = Inr (sent_traffic CREATE 0 (cd_traffic d))"
    by (simp add: read_traffic_def sent_traffic_def Let_def counter result_bind_def)
  show "FindMember doc ''state'' = Some (JString (getStateName d))"
    by (simp add: assms(1) head_members_def serialize_create_def)
qed

lemma update_members:
  assumes "doc = JObject (head_members net c UPDATE @ serialize_update d f)"
  shows "FindMember doc ''updateFlags'' = Some (JInt (sint f))"
    and "has_flag f F_PROTO_STATE \<Longrightarrow> FindMember doc ''state'' = Some (JString (getStateName d))"
    and "has_flag f F_RX_PACKETS \<Longrightarrow> FindMember doc ''rxPackets'' = Some (JInt (uint (rxPackets (cd_traffic d))))"
    and "has_flag f F_TX_PACKETS \<Longrightarrow> FindMember doc ''txPackets'' = Some (JInt (uint (txPackets (cd_traffic d))))"
    and "has_flag f F_RX_BYTES \<Longrightarrow> FindMember doc ''rxBytes'' = Some (JInt (uint (rxBytes (cd_traffic d))))"
    and "has_flag f F_TX_BYTES \<Longrightarrow> FindMember doc ''txBytes'' = Some (JInt (uint (txBytes (cd_traffic d))))"
    and "has_flag f F_RX_SPEED \<Longrightarrow> FindMember doc ''rxSpeed'' = Some (JInt (uint (rxSpeed (cd_traffic d))))"
    and "has_flag f F_TX_SPEED \<Longrightarrow> FindMember doc ''txSpeed'' = Some (JInt (uint (txSpeed (cd_traffic d))))"
  unfolding assms(1) serialize_update_def json_u64_def
  by (simp_all add: head_members_def map_of_if_append del: map_of_append)

lemma read_update_traffic:
  assumes "doc = JObject (head_members net c UPDATE @ serialize_update d f)"
  shows "read_traffic doc UPDATE f = Inr (sent_traffic UPDATE f (cd_traffic d))"
proof -
  note mem = update_members [OF assms]
  have counter: "read_counter b doc key m i = Inr (if b then n else 0)"
    if "b \<Longrightarrow> FindMember doc key = Some (JInt (uint n))" for b key n m i
    using that by (simp add: read_counter_def get_u64)
  show ?thesis
    by (simp add: read_traffic_def sent_traffic_def Let_def result_bind_def counter [OF mem(3)] counter [OF mem(4)]
        counter [OF mem(5)] counter [OF mem(6)] counter [OF mem(7)] counter [OF mem(8)])
qed

text \<open>The first half of \<open>Deserialize\<close> recovers what \<open>serialize\<close> wrote.\<close>

lemma read_serialize:
  assumes "inet_roundtrip net" and "storage_wf st" and "storage_names net st" and "c \<in> set (connections st)"
    and "state_ok (c_type c) (cd_state (derefConnection st c))"
  shows "Deserialize_read (serialize st c action f) = Inr (sent_msg net c (derefConnection st c) action f)"
proof -
  let ?d = "derefConnection st c" and ?doc = "serialize st c action f"
  have cd: "cd_connection ?d = c" by (rule stored_data [OF assms(2-4)])
  note e = serialize_eq [OF assms(2-4), of action f]
  note head = read_head [OF assms(1) e]
  have obj: "IsObject ?doc" unfolding e by simp
  have rd: "Deserialize_read ?doc = Inr (sent_msg net c ?d action f)"
    if "read_flags ?doc action = Inr f'" "f' = (if action = UPDATE then f else 0)"
      "action = CREATE \<or> has_flag f' F_PROTO_STATE \<Longrightarrow>
         read_state ?doc (portType_of (c_type c)) = Inr (cd_state ?d)"
      "read_traffic ?doc action f' = Inr (sent_traffic action f' (cd_traffic ?d))" for f'
    using that
    by (simp add: Deserialize_read_def obj result_bind_def head action_roundtrip type_roundtrip sent_msg_def Let_def)
  show ?thesis
  proof (cases action)
    case CREATE
    then have doc: "?doc = JObject (head_members net c CREATE @ serialize_create ?d)" using e by simp
    have "read_state ?doc (portType_of (c_type c)) = Inr (cd_state ?d)"
      using read_state_roundtrip [of ?doc ?d] read_create_traffic(2) [OF doc] assms(5) cd by simp
    with CREATE read_create_traffic(1) [OF doc] show ?thesis by (intro rd [of 0]) (simp_all add: read_flags_def)
  next
    case UPDATE
    then have doc: "?doc = JObject (head_members net c UPDATE @ serialize_update ?d f)" using e by simp
    have "read_state ?doc (portType_of (c_type c)) = Inr (cd_state ?d)" if "has_flag f F_PROTO_STATE"
      using read_state_roundtrip [of ?doc ?d] update_members(2) [OF doc that] assms(5) cd by simp
    moreover have "read_flags ?doc UPDATE = Inr f"
      using get_flags [OF update_members(1) [OF doc]] by (simp add: read_flags_def result_bind_def)
    ultimately show ?thesis using UPDATE read_update_traffic [OF doc] by (intro rd [of f]) simp_all
  next
    case REMOVE
    then show ?thesis
      by (intro rd [of 0]) (simp_all add: read_flags_def has_flag_0 read_traffic_def sent_traffic_def)
  qed
qed

end
