(* ===== verification/Replay.thy ===== *)
theory Replay
  imports SerializeProps
begin

text \<open>
  What receiving serialized connections does to a receiver. The contract of the callback interface is
  the locale \<open>update_callback\<close>; inside it, every document leaves the receiver's storage
  well-formed, and a document written by \<open>serialize\<close> has on the receiver's view (traffic and
  state per connection) the effect of the abstract \<open>view_replay\<close>.
\<close>

section \<open>The effect of a document on the receiver\<close>

text \<open>What a storage says of each connection: its traffic and its state.\<close>

type_synonym view = "Connection \<rightharpoonup> ConnectionTraffic \<times> int"

definition conn_view :: "ConnectionStorage \<Rightarrow> view" where
  "conn_view st c = map_option (\<lambda>d. (cd_traffic d, cd_state d)) (um_find c (m_connectionMap st))"

fun storeAddress :: "inet \<Rightarrow> IAddress \<Rightarrow> ConnectionStorage \<Rightarrow> ConnectionStorage" where
  "storeAddress net (AddressIP4 a) st = snd (addIP4Address net a st)"
| "storeAddress net (AddressIP6 a) st = snd (addIP6Address net a st)"

text \<open>Both addresses are of the family and both ports of the protocol that the type says.\<close>

definition conn_typed :: "Connection \<Rightarrow> bool" where
  "conn_typed c \<longleftrightarrow>
     address_getType (c_dstAddr c) = address_getType (c_srcAddr c) \<and>
     port_type (c_dstPort c) = port_type (c_srcPort c) \<and>
     c_type c = CreateType (address_getType (c_srcAddr c)) (port_type (c_srcPort c))"

lemma conn_typedD:
  assumes "conn_typed c"
  shows "Connection_create (c_srcAddr c) (c_srcPort c) (c_dstAddr c) (c_dstPort c) = c"
    and "Port (portType_of (c_type c)) (port_number (c_srcPort c)) = c_srcPort c"
    and "Port (portType_of (c_type c)) (port_number (c_dstPort c)) = c_dstPort c"
proof -
  obtain t where "c_type c = t" by simp
  have *: "portType_of (CreateType a p) = p" for a p by (cases a; cases p) simp_all
  show "Connection_create (c_srcAddr c) (c_srcPort c) (c_dstAddr c) (c_dstPort c) = c"
    using assms by (cases c) (simp add: conn_typed_def Connection_create_def)
  show "Port (portType_of (c_type c)) (port_number (c_srcPort c)) = c_srcPort c"
    and "Port (portType_of (c_type c)) (port_number (c_dstPort c)) = c_dstPort c"
    using assms by (simp_all add: conn_typed_def *) (metis Port.collapse)+
qed

lemma CreateFromString_roundtrip:
  assumes "inet_roundtrip net" and "conn_typed c"
  shows "CreateFromString_of net (c_type c) (address_toString net (c_srcAddr c)) = Inr (c_srcAddr c)"
    and "CreateFromString_of net (c_type c) (address_toString net (c_dstAddr c)) = Inr (c_dstAddr c)"
proof -
  have *: "CreateFromString_of net (CreateType (address_getType a) p) (address_toString net a) = Inr a" for a p
    using toString_roundtrip [OF assms(1), of a]
    by (cases "address_getType a"; cases p) (simp_all add: CreateFromString_of_def)
  show "CreateFromString_of net (c_type c) (address_toString net (c_srcAddr c)) = Inr (c_srcAddr c)"
    and "CreateFromString_of net (c_type c) (address_toString net (c_dstAddr c)) = Inr (c_dstAddr c)"
    using assms(2) * by (simp_all add: conn_typed_def) metis
qed

lemma view_storeAddress [storage_simps]: "conn_view (storeAddress net a st) = conn_view st"
  by (cases a) (simp_all add: fun_eq_iff conn_view_def storage_frame)

lemma view_addPort [storage_simps]: "conn_view (snd (addPort p st)) = conn_view st"
  by (simp add: fun_eq_iff conn_view_def storage_frame)

lemma conn_view_addConnection [storage_simps]:
  "conn_view (snd (addConnection c t s st)) =
     (case conn_view st c of None \<Rightarrow> (conn_view st)(c \<mapsto> (t, s)) | Some _ \<Rightarrow> conn_view st)"
  by (auto simp: fun_eq_iff conn_view_def find_addConnection ConnectionData_create_def split: option.split)

lemma conn_view_removeConnection [storage_simps]:
  "conn_view (snd (removeConnection c st)) = (conn_view st)(c := None)"
  by (auto simp: fun_eq_iff conn_view_def find_removeConnection)

lemma view_clear [storage_simps]: "conn_view (clearConnections st) = Map.empty"
  by (simp add: fun_eq_iff conn_view_def clearConnections_def um_find_def)

lemma find_writeConnection:
  "um_find k (m_connectionMap (writeConnection c g st)) =
     (if k = c then map_option g (um_find c (m_connectionMap st)) else um_find k (m_connectionMap st))"
  by (simp add: writeConnection_def um.find_write)

lemma stored_view: "c \<in> set (connections st) \<longleftrightarrow> conn_view st c \<noteq> None"
  by (simp add: set_connections conn_view_def)

lemma getConnection_view: "getConnection c st = (if conn_view st c = None then None else Some c)"
  by (auto simp: getConnection_def conn_view_def split: option.split)

lemma storage_wf_storeAddress: "storage_wf st \<Longrightarrow> storage_wf (storeAddress net a st)"
  by (cases a) (simp_all add: storage_wf_intros)

lemma live_storeAddress:
  "address_live (storeAddress net a st) x \<longleftrightarrow> x = a \<or> address_live st x"
  "port_live (storeAddress net a st) p = port_live st p"
  "address_live (snd (addPort q st)) x = address_live st x"
  "port_live (snd (addPort q st)) p \<longleftrightarrow> p = q \<or> port_live st p"
  by (cases a; auto simp: address_live_def port_live_def findAddress_addIP4 findAddress_addIP6 storage_frame
      find_addPort)+

text \<open>The connection a document is about, once its addresses are parsed.\<close>

definition conn_of :: "ConnectionMsg \<Rightarrow> IAddress \<Rightarrow> IAddress \<Rightarrow> Connection" where
  "conn_of m a d = Connection_create a (Port (portType_of (cm_type m)) (cm_srcPort m)) d
     (Port (portType_of (cm_type m)) (cm_dstPort m))"

lemma conn_of_refs:
  "c_srcAddr (conn_of m a d) = a" "c_dstAddr (conn_of m a d) = d"
  "c_srcPort (conn_of m a d) = Port (portType_of (cm_type m)) (cm_srcPort m)"
  "c_dstPort (conn_of m a d) = Port (portType_of (cm_type m)) (cm_dstPort m)"
  by (simp_all add: conn_of_def Connection_create_def)

text \<open>What a document does to the receiver's view: the abstract specification of a replayed item.\<close>

definition merge_traffic :: "flags \<Rightarrow> ConnectionTraffic \<Rightarrow> ConnectionTraffic \<Rightarrow> ConnectionTraffic" where
  "merge_traffic f new old =
     \<lparr>rxPackets = rxPackets (if has_flag f F_RX_PACKETS then new else old),
      txPackets = txPackets (if has_flag f F_TX_PACKETS then new else old),
      rxBytes = rxBytes (if has_flag f F_RX_BYTES then new else old),
      txBytes = txBytes (if has_flag f F_TX_BYTES then new else old),
      rxSpeed = rxSpeed (if has_flag f F_RX_SPEED then new else old),
      txSpeed = txSpeed (if has_flag f F_TX_SPEED then new else old)\<rparr>"

fun view_replay :: "EConnectionAction \<Rightarrow> flags \<Rightarrow> Connection \<Rightarrow> ConnectionTraffic \<times> int \<Rightarrow> view \<Rightarrow> view" where
  "view_replay CREATE f c td v = (case v c of None \<Rightarrow> v(c \<mapsto> td) | Some _ \<Rightarrow> v)"
| "view_replay UPDATE f c td v =
     (case v c of
        None \<Rightarrow> v
      | Some (t, s) \<Rightarrow> v(c \<mapsto> (merge_traffic f (fst td) t, if has_flag f F_PROTO_STATE then snd td else s)))"
| "view_replay REMOVE f c td v = v(c := None)"

lemma apply_update_view:
  "cd_traffic (apply_update m d) = merge_traffic (cm_updateFlags m) (cm_traffic m) (cd_traffic d)"
  "cd_state (apply_update m d) = (if has_flag (cm_updateFlags m) F_PROTO_STATE then cm_state m else cd_state d)"
  by (simp_all add: apply_update_def merge_traffic_def Let_def setState_def)

lemma merge_sent: "merge_traffic f (sent_traffic UPDATE f new) old = merge_traffic f new old"
  by (simp add: merge_traffic_def sent_traffic_def Let_def)

lemma sent_create: "sent_traffic CREATE f t = t"
  by (simp add: sent_traffic_def Let_def)

text \<open>The loop over the received array; an exception ends it.\<close>

fun deserialize_all :: "inet \<Rightarrow> 's IConnectionUpdateCallback \<Rightarrow> json list \<Rightarrow> 's \<Rightarrow> unit result \<times> 's" where
  "deserialize_all net cb [] s = (Inr (), s)"
| "deserialize_all net cb (doc # docs) s =
     (case Deserialize net cb doc s of
        (Inl e, s') \<Rightarrow> (Inl e, s')
      | (Inr _, s') \<Rightarrow> deserialize_all net cb docs s')"

text \<open>
  The documents of a list of items: connection, its data when it was serialized, action and flags.
\<close>

type_synonym item = "Connection \<times> ConnectionData \<times> EConnectionAction \<times> flags"

definition sent_doc :: "inet \<Rightarrow> json \<Rightarrow> item \<Rightarrow> bool" where
  "sent_doc net doc = (\<lambda>(c, d, action, f). conn_typed c \<and> Deserialize_read doc = Inr (sent_msg net c d action f))"

definition replay_item :: "view \<Rightarrow> item \<Rightarrow> view" where
  "replay_item v = (\<lambda>(c, d, action, f). view_replay action f c (cd_traffic d, cd_state d) v)"

text \<open>
  The contract of \<^verbatim>\<open>IConnectionUpdateCallback\<close> for a receiver that owns a storage: every
  function acts on the storage as the storage function of the same name.
\<close>

locale update_callback =
  fixes net :: inet
    and cb :: "'s IConnectionUpdateCallback"
    and sto :: "'s \<Rightarrow> ConnectionStorage"
  assumes getAddress_found: "fst (cb_getAddress cb a b s) = (if b \<or> address_live (sto s) a then Some a else None)"
    and getAddress_sto: "sto (snd (cb_getAddress cb a b s)) = (if b then storeAddress net a (sto s) else sto s)"
    and getPort_found: "fst (cb_getPort cb p b s) = (if b \<or> port_live (sto s) p then Some p else None)"
    and getPort_sto: "sto (snd (cb_getPort cb p b s)) = (if b then snd (addPort p (sto s)) else sto s)"
    and find_getConnection: "cb_find cb c s = getConnection c (sto s)"
    and write_sto: "sto (cb_write cb c g s) = writeConnection c g (sto s)"
    and addNew_sto: "sto (cb_addNew cb c s) = snd (addConnection c ConnectionTraffic_zero 0 (sto s))"
    and add_sto: "sto (cb_add cb c t n s) = snd (addConnection c t n (sto s))"
    and update_sto: "sto (cb_update cb c f s) = sto s"
    and remove_sto: "sto (cb_remove cb c s) = snd (removeConnection c (sto s))"
    and clear_sto: "sto (cb_clear cb s) = clearConnections (sto s)"
begin

abbreviation view_of :: "'s \<Rightarrow> view" where
  "view_of s \<equiv> conn_view (sto s)"

lemma deliver_create:
  assumes "cm_action m = CREATE"
  shows "view_of (snd (Deserialize_deliver cb m c s)) =
    (case view_of s c of None \<Rightarrow> (view_of s)(c \<mapsto> (cm_traffic m, cm_state m)) | Some _ \<Rightarrow> view_of s)"
  using assms by (simp add: Deserialize_deliver_def add_sto storage_simps)

lemma deliver_remove:
  assumes "cm_action m = REMOVE"
  shows "view_of (snd (Deserialize_deliver cb m c s)) = (view_of s)(c := None)"
  using assms by (simp add: Deserialize_deliver_def remove_sto storage_simps)

lemma deliver_update:
  assumes "cm_action m = UPDATE"
  shows "sto (snd (Deserialize_deliver cb m c s)) =
    (if view_of s c = None then sto s else writeConnection c (apply_update m) (sto s))"
  using assms by (simp add: Deserialize_deliver_def find_getConnection getConnection_view write_sto update_sto Let_def)

text \<open>Looking up or creating addresses and ports changes no connection.\<close>

definition getter_step :: "'s \<Rightarrow> 's \<Rightarrow> bool" where
  "getter_step s s' \<longleftrightarrow>
     (\<exists>a b. s' = snd (cb_getAddress cb a b s)) \<or> (\<exists>p b. s' = snd (cb_getPort cb p b s))"

definition touched :: "'s \<Rightarrow> 's \<Rightarrow> bool" where
  "touched = getter_step\<^sup>*\<^sup>*"

lemma touched_refl: "touched s s"
  by (simp add: touched_def)

lemma touched_getAddress: "touched s (snd (cb_getAddress cb a b s))"
  unfolding touched_def by (rule r_into_rtranclp) (auto simp: getter_step_def)

lemma touched_getPort: "touched s (snd (cb_getPort cb p b s))"
  unfolding touched_def by (rule r_into_rtranclp) (auto simp: getter_step_def)

lemma touched_trans: "touched a b \<Longrightarrow> touched b c \<Longrightarrow> touched a c"
  by (simp add: touched_def)

lemma touchedD:
  assumes "touched s s'"
  shows "view_of s' = view_of s" and "storage_wf (sto s) \<Longrightarrow> storage_wf (sto s')"
proof -
  have step: "view_of b = view_of a \<and> (storage_wf (sto a) \<longrightarrow> storage_wf (sto b))" if "getter_step a b" for a b
    using that unfolding getter_step_def
    by (auto simp: getAddress_sto getPort_sto view_storeAddress view_addPort storage_wf_storeAddress
        storage_wf_addPort)
  have "view_of s' = view_of s \<and> (storage_wf (sto s) \<longrightarrow> storage_wf (sto s'))"
    using assms unfolding touched_def by (induction rule: rtranclp_induct) (use step in auto)
  then show "view_of s' = view_of s" and "storage_wf (sto s) \<Longrightarrow> storage_wf (sto s')" by auto
qed

lemmas getters = getAddress_found getAddress_sto getPort_found getPort_sto live_storeAddress

lemma Deserialize_resolved:
  assumes "Deserialize_read doc = Inr m"
    and "CreateFromString_of net (cm_type m) (cm_srcAddress m) = Inr a"
    and "CreateFromString_of net (cm_type m) (cm_dstAddress m) = Inr d"
  obtains (lost) s' where "Deserialize net cb doc s = (Inr False, s')" "touched s s'" "cm_action m \<noteq> CREATE"
      "\<not> refs_live (sto s) (conn_of m a d)"
  | (found) s' where "Deserialize net cb doc s = Deserialize_deliver cb m (conn_of m a d) s'" "touched s s'"
      "refs_live (sto s') (conn_of m a d)"
proof -
  define b where "b = (cm_action m = CREATE)"
  define sp where "sp = Port (portType_of (cm_type m)) (cm_srcPort m)"
  define dp where "dp = Port (portType_of (cm_type m)) (cm_dstPort m)"
  define s1 where "s1 = snd (cb_getAddress cb a b s)"
  define s2 where "s2 = snd (cb_getAddress cb d b s1)"
  define s3 where "s3 = snd (cb_getPort cb sp b s2)"
  define s4 where "s4 = snd (cb_getPort cb dp b s3)"
  have c: "conn_of m a d = Connection_create a sp d dp" by (simp add: conn_of_def sp_def dp_def)
  have refs: "refs_live st (conn_of m a d) \<longleftrightarrow>
      address_live st a \<and> address_live st d \<and> port_live st sp \<and> port_live st dp" for st
    by (simp add: refs_live_def conn_of_refs sp_def dp_def)
  have t: "touched s s2" "touched s s4"
    using touched_trans touched_getAddress touched_getPort unfolding s1_def s2_def s3_def s4_def by metis+
  have ports: "Deserialize_ports cb m a d s2 =
      (if fst (cb_getPort cb sp b s2) \<noteq> None \<and> fst (cb_getPort cb dp b s3) \<noteq> None
       then Deserialize_deliver cb m (conn_of m a d) s4 else (Inr False, s4))"
    by (auto simp: Deserialize_ports_def case_prod_beta Let_def c s3_def s4_def sp_def dp_def b_def getPort_found
        split: option.split)
  have addrs: "Deserialize net cb doc s =
      (if fst (cb_getAddress cb a b s) \<noteq> None \<and> fst (cb_getAddress cb d b s1) \<noteq> None
       then Deserialize_ports cb m a d s2 else (Inr False, s2))"
    unfolding Deserialize_def assms(1) sum.case Let_def b_def [symmetric] assms(2,3)
    by (auto simp: case_prod_beta s1_def s2_def getAddress_found split: option.split)
  show thesis
  proof (cases "b \<or> refs_live (sto s) (conn_of m a d)")
    case True
    then have "refs_live (sto s4) (conn_of m a d)"
      by (auto simp: refs s1_def s2_def s3_def s4_def getters)
    moreover have "Deserialize net cb doc s = Deserialize_deliver cb m (conn_of m a d) s4"
      using True unfolding addrs ports by (auto simp: refs s1_def s2_def s3_def getters)
    ultimately show thesis using t(2) found by blast
  next
    case False
    then have "Deserialize net cb doc s \<in> {(Inr False, s2), (Inr False, s4)}"
      unfolding addrs ports by (auto simp: refs s1_def s2_def s3_def getters)
    with False t lost show thesis by (auto simp: b_def)
  qed
qed

lemma Deserialize_cases:
  obtains (error) e s' where "Deserialize net cb doc s = (Inl e, s')" "touched s s'"
  | (lost) s' where "Deserialize net cb doc s = (Inr False, s')" "touched s s'"
  | (found) m a d s' where "Deserialize net cb doc s = Deserialize_deliver cb m (conn_of m a d) s'"
      "touched s s'" "refs_live (sto s') (conn_of m a d)"
proof (cases "Deserialize_read doc")
  case (Inl e)
  then show thesis using error touched_refl by (simp add: Deserialize_def)
next
  case (Inr m)
  show thesis
  proof (cases "CreateFromString_of net (cm_type m) (cm_srcAddress m)")
    case (Inl e)
    with Inr show thesis using error touched_refl by (simp add: Deserialize_def)
  next
    case a: (Inr a)
    show thesis
    proof (cases "CreateFromString_of net (cm_type m) (cm_dstAddress m)")
      case (Inl e)
      with Inr a have "Deserialize net cb doc s = (Inl e, snd (cb_getAddress cb a (cm_action m = CREATE) s))"
        by (simp add: Deserialize_def Let_def case_prod_beta)
      then show thesis using error touched_getAddress by blast
    next
      case d: (Inr d)
      from Deserialize_resolved [OF Inr a d, of s] show thesis by cases (use lost found in blast)+
    qed
  qed
qed

text \<open>Whatever the document, the receiver's storage stays well-formed.\<close>

lemma storage_wf_deliver:
  assumes "storage_wf (sto s)" and "refs_live (sto s) c"
  shows "storage_wf (sto (snd (Deserialize_deliver cb m c s)))"
proof (cases "cm_action m")
  case UPDATE
  have "cd_connection (apply_update m d) = cd_connection d \<and> cd_hasPorts (apply_update m d) = cd_hasPorts d
      \<and> cd_typeName (apply_update m d) = cd_typeName d" for d
    by (simp add: apply_update_def Let_def setState_def)
  with UPDATE assms show ?thesis by (simp add: deliver_update storage_wf_writeConnection)
qed (use assms in \<open>simp_all add: Deserialize_deliver_def add_sto remove_sto storage_wf_intros\<close>)

lemma storage_wf_Deserialize:
  assumes "storage_wf (sto s)"
  shows "storage_wf (sto (snd (Deserialize net cb doc s)))"
  by (rule Deserialize_cases [of doc s]) (use assms storage_wf_deliver touchedD(2) in auto)

text \<open>A property kept by every call that \<open>Deserialize\<close> can make is kept by \<open>Deserialize\<close>.\<close>

lemma Deserialize_preserves:
  assumes "P s"
    and getA: "\<And>a b s. P s \<Longrightarrow> P (snd (cb_getAddress cb a b s))"
    and getP: "\<And>p b s. P s \<Longrightarrow> P (snd (cb_getPort cb p b s))"
    and add: "\<And>c t n s. P s \<Longrightarrow> refs_live (sto s) c \<Longrightarrow> P (cb_add cb c t n s)"
    and upd: "\<And>c m s. P s \<Longrightarrow> c \<in> set (connections (sto s)) \<Longrightarrow> reported_flags (cm_updateFlags m) \<noteq> 0 \<Longrightarrow>
      P (cb_update cb c (reported_flags (cm_updateFlags m)) (cb_write cb c (apply_update m) s))"
    and wr: "\<And>c m s. P s \<Longrightarrow> c \<in> set (connections (sto s)) \<Longrightarrow> reported_flags (cm_updateFlags m) = 0 \<Longrightarrow>
      P (cb_write cb c (apply_update m) s)"
    and rem: "\<And>c s. P s \<Longrightarrow> P (cb_remove cb c s)"
  shows "P (snd (Deserialize net cb doc s))"
proof -
  have t: "P s'" if "touched s s'" for s'
    using that unfolding touched_def
    by (induction rule: rtranclp_induct) (auto simp: getter_step_def intro: assms)
  have "P (snd (Deserialize_deliver cb m c s'))" if "P s'" and "refs_live (sto s') c" for m c s'
    using that by (auto simp: Deserialize_deliver_def find_getConnection getConnection_view Let_def stored_view
        intro: add upd wr rem split: EConnectionAction.split)
  with t show ?thesis by (auto intro: Deserialize_cases [of doc s])
qed

lemma deserialize_all_preserves:
  assumes "P s" and "\<And>doc s. P s \<Longrightarrow> P (snd (Deserialize net cb doc s))"
  shows "P (snd (deserialize_all net cb docs s))"
  using assms(1)
proof (induction docs arbitrary: s)
  case (Cons doc docs)
  have "P (snd (Deserialize net cb doc s))" using Cons.prems by (rule assms(2))
  with Cons.IH show ?case by (cases "Deserialize net cb doc s") (auto split: sum.split)
qed simp

text \<open>The effect of a document that \<open>serialize\<close> produced.\<close>

lemma Deserialize_sent:
  assumes "inet_roundtrip net" and "conn_typed c" and "storage_wf (sto s)"
    and "Deserialize_read doc = Inr (sent_msg net c d action f)"
  shows "view_of (snd (Deserialize net cb doc s)) = view_replay action f c (cd_traffic d, cd_state d) (view_of s)"
proof -
  let ?m = "sent_msg net c d action f"
  have m: "cm_type ?m = c_type c" "cm_srcAddress ?m = address_toString net (c_srcAddr c)"
    "cm_dstAddress ?m = address_toString net (c_dstAddr c)" "cm_action ?m = action"
    "conn_of ?m (c_srcAddr c) (c_dstAddr c) = c"
    using conn_typedD [OF assms(2)] by (simp_all add: sent_msg_def Let_def conn_of_def)
  note ab = CreateFromString_roundtrip [OF assms(1,2)]
  show ?thesis
  proof (rule Deserialize_resolved [OF assms(4), unfolded m, OF ab, unfolded m, of s])
    fix s'
    assume *: "Deserialize net cb doc s = (Inr False, s')" "touched s s'" "action \<noteq> CREATE" "\<not> refs_live (sto s) c"
    then have "view_of s c = None"
      using storage_wfD(4) [OF assms(3)] by (cases "um_find c (m_connectionMap (sto s))") (auto simp: conn_view_def)
    with * touchedD(1) [OF *(2)] show ?thesis by (cases action) auto
  next
    fix s'
    assume *: "Deserialize net cb doc s = Deserialize_deliver cb ?m c s'" "touched s s'" "refs_live (sto s') c"
    show ?thesis
    proof (cases action)
      case UPDATE
      have "view_of (snd (Deserialize_deliver cb ?m c s')) = view_replay UPDATE f c (cd_traffic d, cd_state d) (view_of s')"
      proof
        fix k
        show "view_of (snd (Deserialize_deliver cb ?m c s')) k
            = view_replay UPDATE f c (cd_traffic d, cd_state d) (view_of s') k"
          using UPDATE m(4)
          by (auto simp: deliver_update find_writeConnection apply_update_view conn_view_def sent_msg_def Let_def
              merge_sent split: option.split)
      qed
      with UPDATE * touchedD(1) [OF *(2)] show ?thesis by simp
    qed (use * m(4) touchedD(1) [OF *(2)] in \<open>simp_all add: deliver_create deliver_remove sent_msg_def sent_create Let_def split: option.split\<close>)
  qed
qed

lemma Deserialize_sent_returns:
  assumes "inet_roundtrip net" and "sent_doc net doc it"
  shows "\<exists>b. fst (Deserialize net cb doc s) = Inr b"
proof -
  obtain c d action f where it: "it = (c, d, action, f)" by (cases it)
  let ?m = "sent_msg net c d action f"
  have typed: "conn_typed c" and read: "Deserialize_read doc = Inr ?m"
    using assms(2) by (simp_all add: it sent_doc_def)
  have m: "cm_type ?m = c_type c" "cm_srcAddress ?m = address_toString net (c_srcAddr c)"
    "cm_dstAddress ?m = address_toString net (c_dstAddr c)"
    by (simp_all add: sent_msg_def Let_def)
  have deliver: "\<exists>b. fst (Deserialize_deliver cb ?m c' s') = Inr b" for c' s'
    by (auto simp: Deserialize_deliver_def Let_def split: EConnectionAction.split option.split)
  from Deserialize_resolved [OF read, unfolded m, OF CreateFromString_roundtrip [OF assms(1) typed], of s]
  show ?thesis by cases (use deliver in auto)
qed

lemma replay_docs:
  assumes "inet_roundtrip net" and "list_all2 (sent_doc net) docs its" and "storage_wf (sto s)"
  shows "fst (deserialize_all net cb docs s) = Inr ()
    \<and> view_of (snd (deserialize_all net cb docs s)) = foldl replay_item (view_of s) its"
  using assms(2,3)
proof (induction docs its arbitrary: s rule: list_all2_induct)
  case (Cons doc docs it its)
  let ?s = "snd (Deserialize net cb doc s)"
  obtain b where b: "fst (Deserialize net cb doc s) = Inr b"
    using Deserialize_sent_returns [OF assms(1) Cons.hyps(1)] by blast
  have "view_of ?s = replay_item (view_of s) it"
    using Deserialize_sent [OF assms(1) _ Cons.prems] Cons.hyps(1)
    by (auto simp: sent_doc_def replay_item_def split: prod.splits)
  moreover have "storage_wf (sto ?s)" using Cons.prems by (rule storage_wf_Deserialize)
  ultimately show ?case using Cons.IH [of ?s] b by (cases "Deserialize net cb doc s") simp
qed simp

end

end
