(* ===== verification/UpdateSerializer.thy ===== *)
theory UpdateSerializer
  imports Replay
begin

text \<open>
  The server side of the connection data (\<^verbatim>\<open>Server.hpp\<close>): the item array of
  \<^verbatim>\<open>ServerDataSerializer\<close>, \<^verbatim>\<open>ConnectionStorageSerializer\<close> for a full
  snapshot and \<^verbatim>\<open>ConnectionUpdateSerializer\<close>, through which the collector changes the
  server's storage and which writes down every change. It implements the callback interface, and what
  it writes, replayed by any receiver, reproduces the changes.
\<close>

section \<open>The item array\<close>

type_synonym ServerDataSerializer = "json list"

definition addItem ::
  "ConnectionStorage \<Rightarrow> Connection \<Rightarrow> EConnectionAction \<Rightarrow> flags \<Rightarrow> ServerDataSerializer \<Rightarrow> ServerDataSerializer" where
  "addItem st p action f items = items @ [serialize st p action f]"

text \<open>All stored connections, in iteration order.\<close>

definition ConnectionStorageSerializer :: "ConnectionStorage \<Rightarrow> ServerDataSerializer" where
  "ConnectionStorageSerializer st = foldl (\<lambda>items p. addItem st p CREATE (- 1) items) [] (connections st)"

section \<open>The update serializer\<close>

text \<open>\<open>us_storage\<close> is the server's storage, to which the serializer has a pointer.\<close>

record ConnectionUpdateSerializer =
  us_storage :: ConnectionStorage
  us_serializer :: ServerDataSerializer
  us_isSerializationEnabled :: bool

definition ConnectionUpdateSerializer_init :: ConnectionUpdateSerializer where
  "ConnectionUpdateSerializer_init =
     \<lparr>us_storage = ConnectionStorage_init, us_serializer = [], us_isSerializationEnabled = True\<rparr>"

definition setSerializationEnabled :: "bool \<Rightarrow> ConnectionUpdateSerializer \<Rightarrow> ConnectionUpdateSerializer" where
  "setSerializationEnabled enable u =
     (if us_isSerializationEnabled u \<and> \<not> enable then u\<lparr>us_serializer := []\<rparr> else u)
       \<lparr>us_isSerializationEnabled := enable\<rparr>"

definition us_getAddress ::
  "inet \<Rightarrow> IAddress \<Rightarrow> bool \<Rightarrow> ConnectionUpdateSerializer \<Rightarrow> IAddress option \<times> ConnectionUpdateSerializer" where
  "us_getAddress net address addFlag u =
     (case address of
        AddressIP4 a \<Rightarrow>
          (if addFlag
           then let ((p, n), st) = addIP4Address net a (us_storage u) in (Some p, u\<lparr>us_storage := st\<rparr>)
           else (getIP4Address a (us_storage u), u))
      | AddressIP6 a \<Rightarrow>
          (if addFlag
           then let ((p, n), st) = addIP6Address net a (us_storage u) in (Some p, u\<lparr>us_storage := st\<rparr>)
           else (getIP6Address a (us_storage u), u)))"

definition us_getPort ::
  "Port \<Rightarrow> bool \<Rightarrow> ConnectionUpdateSerializer \<Rightarrow> Port option \<times> ConnectionUpdateSerializer" where
  "us_getPort port addFlag u =
     (if addFlag
      then let ((p, n), st) = addPort port (us_storage u) in (Some p, u\<lparr>us_storage := st\<rparr>)
      else (storage_getPort port (us_storage u), u))"

definition us_find :: "Connection \<Rightarrow> ConnectionUpdateSerializer \<Rightarrow> Connection option" where
  "us_find c u = getConnection c (us_storage u)"

definition us_add ::
  "Connection \<Rightarrow> ConnectionTraffic \<Rightarrow> int \<Rightarrow> ConnectionUpdateSerializer \<Rightarrow> ConnectionUpdateSerializer" where
  "us_add c traffic state u =
     (let ((p, isNew), st) = addConnection c traffic state (us_storage u);
          u1 = u\<lparr>us_storage := st\<rparr>
      in if isNew \<and> us_isSerializationEnabled u1
         then u1\<lparr>us_serializer := addItem st p CREATE (- 1) (us_serializer u1)\<rparr> else u1)"

definition us_add_new :: "Connection \<Rightarrow> ConnectionUpdateSerializer \<Rightarrow> ConnectionUpdateSerializer" where
  "us_add_new c u = us_add c ConnectionTraffic_zero 0 u"

definition us_update :: "Connection \<Rightarrow> flags \<Rightarrow> ConnectionUpdateSerializer \<Rightarrow> ConnectionUpdateSerializer" where
  "us_update p f u =
     (if us_isSerializationEnabled u
      then u\<lparr>us_serializer := addItem (us_storage u) p UPDATE f (us_serializer u)\<rparr> else u)"

definition us_remove :: "Connection \<Rightarrow> ConnectionUpdateSerializer \<Rightarrow> ConnectionUpdateSerializer" where
  "us_remove c u =
     (case getConnection c (us_storage u) of
        None \<Rightarrow> u
      | Some p \<Rightarrow>
          let u1 = (if us_isSerializationEnabled u
                    then u\<lparr>us_serializer := addItem (us_storage u) p REMOVE (- 1) (us_serializer u)\<rparr> else u)
          in u1\<lparr>us_storage := snd (removeConnection c (us_storage u1))\<rparr>)"

definition us_clear :: "ConnectionUpdateSerializer \<Rightarrow> ConnectionUpdateSerializer" where
  "us_clear u = setSerializationEnabled False (u\<lparr>us_storage := clearConnections (us_storage u)\<rparr>)"

definition us_write ::
  "Connection \<Rightarrow> (ConnectionData \<Rightarrow> ConnectionData) \<Rightarrow> ConnectionUpdateSerializer \<Rightarrow> ConnectionUpdateSerializer" where
  "us_write p g u = u\<lparr>us_storage := writeConnection p g (us_storage u)\<rparr>"

definition us_callback :: "inet \<Rightarrow> ConnectionUpdateSerializer IConnectionUpdateCallback" where
  "us_callback net =
     \<lparr>cb_getAddress = us_getAddress net, cb_getPort = us_getPort, cb_find = us_find, cb_write = us_write,
      cb_addNew = us_add_new, cb_add = us_add, cb_update = us_update, cb_remove = us_remove, cb_clear = us_clear\<rparr>"

lemma getter_live:
  "getIP4Address a st = (if address_live st (AddressIP4 a) then Some (AddressIP4 a) else None)"
  "getIP6Address b st = (if address_live st (AddressIP6 b) then Some (AddressIP6 b) else None)"
  "storage_getPort p st = (if port_live st p then Some p else None)"
  by (auto simp: getIP4Address_def getIP6Address_def storage_getPort_def address_live_def port_live_def
      split: option.split)

lemmas adder_fst = addIP4Address_fst addIP6Address_fst addPort_fst addConnection_fst

lemma us_getAddress_eq:
  "us_getAddress net a b u =
     (if b \<or> address_live (us_storage u) a then Some a else None,
      if b then u\<lparr>us_storage := storeAddress net a (us_storage u)\<rparr> else u)"
  by (cases a) (simp_all add: us_getAddress_def getter_live adder_fst case_prod_beta Let_def)

lemma us_getPort_eq:
  "us_getPort p b u =
     (if b \<or> port_live (us_storage u) p then Some p else None,
      if b then u\<lparr>us_storage := snd (addPort p (us_storage u))\<rparr> else u)"
  by (simp add: us_getPort_def getter_live adder_fst case_prod_beta Let_def)

lemma storage_us_remove: "us_storage (us_remove c u) = snd (removeConnection c (us_storage u))"
  by (simp add: us_remove_def getConnection_def Let_def removeConnection_def split: option.split)

interpretation us: update_callback net "us_callback net" us_storage
  for net
  by unfold_locales
    (simp_all add: us_callback_def us_getAddress_eq us_getPort_eq us_find_def us_write_def us_add_new_def us_add_def
      us_update_def storage_us_remove us_clear_def setSerializationEnabled_def case_prod_beta Let_def)

end
