(* ===== verification/Replication.thy ===== *)
theory Replication
  imports UpdateSerializer
begin

text \<open>
  The connection list as a receiver of serialized connections, and the two facts the client relies
  on: no document whatsoever can bring the list out of its reachable states, and replaying what the
  server wrote makes the client's connections equal to the server's.
\<close>

section \<open>The connection list as receiver\<close>

definition list_write ::
  "Connection \<Rightarrow> (ConnectionData \<Rightarrow> ConnectionData) \<Rightarrow> ConnectionList \<Rightarrow> ConnectionList" where
  "list_write p g l = l\<lparr>m_storage := writeConnection p g (m_storage l)\<rparr>"

definition list_callback :: "inet \<Rightarrow> ConnectionList IConnectionUpdateCallback" where
  "list_callback net =
     \<lparr>cb_getAddress = getAddress net, cb_getPort = getPort, cb_find = find, cb_write = list_write,
      cb_addNew = add_new, cb_add = add, cb_update = update, cb_remove = remove, cb_clear = clear\<rparr>"

lemma getAddress_found: "fst (getAddress net a b l) = (if b \<or> address_live (m_storage l) a then Some a else None)"
  by (cases a) (simp_all add: getAddress_def getter_live adder_fst case_prod_beta Let_def)

lemma getAddress_storage:
  "m_storage (snd (getAddress net a b l)) = (if b then storeAddress net a (m_storage l) else m_storage l)"
  by (cases a) (simp_all add: getAddress_def case_prod_beta Let_def)

lemma getPort_found: "fst (getPort p b l) = (if b \<or> port_live (m_storage l) p then Some p else None)"
  by (simp add: getPort_def getter_live adder_fst case_prod_beta Let_def)

lemma getPort_storage:
  "m_storage (snd (getPort p b l)) = (if b then snd (addPort p (m_storage l)) else m_storage l)"
  by (simp add: getPort_def case_prod_beta Let_def)

lemma clampCursor_storage: "m_storage (clampCursor l) = m_storage l"
  by (simp add: clampCursor_def Let_def list_frame)

lemma remove_storage: "m_storage (remove c l) = snd (removeConnection c (m_storage l))"
  by (simp add: remove_def case_prod_beta Let_def handleRemovedConnection_def clampCursor_storage list_frame
      split: option.split)

interpretation lc: update_callback net "list_callback net" m_storage
  for net
  by unfold_locales
    (simp_all add: list_callback_def getAddress_found getAddress_storage getPort_found getPort_storage find_def
      list_write_def add_new_def storage_add storage_update remove_storage clear_def)

section \<open>Any document\<close>

lemma F_nonzero:
  "F_PROTO_STATE \<noteq> 0" "F_RX_PACKETS \<noteq> 0" "F_TX_PACKETS \<noteq> 0" "F_RX_BYTES \<noteq> 0" "F_TX_BYTES \<noteq> 0"
  "F_RX_SPEED \<noteq> 0" "F_TX_SPEED \<noteq> 0"
  by (simp_all add: F_PROTO_STATE_def F_RX_PACKETS_def F_TX_PACKETS_def F_RX_BYTES_def F_TX_BYTES_def
      F_RX_SPEED_def F_TX_SPEED_def)

lemma or_zero_iff: "(a :: flags) OR b = 0 \<longleftrightarrow> a = 0 \<and> b = 0"
  by (metis or.right_neutral or.left_neutral or_eq_0_iff)

lemma reported_zero:
  assumes "reported_flags f = 0" and "g \<in> set data_flags"
  shows "\<not> has_flag f g"
  using assms by (auto simp: reported_flags_def data_flags_def or_zero_iff F_nonzero split: if_splits)

lemma apply_update_identity: "keeps_identity (apply_update m)"
  by (simp add: keeps_identity_def apply_update_def Let_def setState_def)

lemma list_write_nothing:
  assumes "reported_flags (cm_updateFlags m) = 0"
  shows "list_write c (apply_update m) l = l"
proof -
  have "apply_update m d = d" for d
    using reported_zero [OF assms] by (simp add: apply_update_def data_flags_def Let_def)
  then have "writeConnection c (apply_update m) st = st" for st
    by (simp add: writeConnection_def um_write_def if_distrib cong: if_cong)
  then show ?thesis by (simp add: list_write_def)
qed

lemma list_reach_Deserialize:
  assumes "list_reach net l"
  shows "list_reach net (snd (Deserialize net (list_callback net) doc l))"
proof (rule lc.Deserialize_preserves [where P = "list_reach net"])
  show "list_reach net (cb_update (list_callback net) c (reported_flags (cm_updateFlags m))
      (cb_write (list_callback net) c (apply_update m) s))"
    if "list_reach net s" "c \<in> set (connections (m_storage s))" for c m s
  proof -
    have "list_step net s (writeAndUpdate c (apply_update m) (reported_flags (cm_updateFlags m)) s)"
      using that(2) by (intro step_update apply_update_identity) (simp add: stored_def)
    from reach_step [OF that(1) this] show ?thesis
      by (simp add: list_callback_def writeAndUpdate_def list_write_def)
  qed
qed (use assms in \<open>auto simp: list_callback_def list_write_nothing intro: reach_step list_step.intros\<close>)

section \<open>The documents of the server\<close>

text \<open>The data of every stored connection can be sent.\<close>

definition us_ok :: "inet \<Rightarrow> ConnectionUpdateSerializer \<Rightarrow> bool" where
  "us_ok net u \<longleftrightarrow>
     storage_wf (us_storage u) \<and> storage_names net (us_storage u) \<and>
     (\<forall>c d. um_find c (m_connectionMap (us_storage u)) = Some d \<longrightarrow> conn_typed c \<and> state_ok (c_type c) (cd_state d))"

text \<open>The new data differs from the old in nothing but the fields the flags name.\<close>

definition flagged :: "flags \<Rightarrow> ConnectionData \<Rightarrow> ConnectionData \<Rightarrow> bool" where
  "flagged f old new \<longleftrightarrow>
     merge_traffic f (cd_traffic new) (cd_traffic old) = cd_traffic new \<and>
     (\<not> has_flag f F_PROTO_STATE \<longrightarrow> cd_state new = cd_state old)"

text \<open>What a collector does through the callback interface.\<close>

inductive collect :: "inet \<Rightarrow> ConnectionUpdateSerializer \<Rightarrow> ConnectionUpdateSerializer \<Rightarrow> bool" for net where
  collect_address: "collect net u (snd (us_getAddress net a b u))"
| collect_port: "collect net u (snd (us_getPort p b u))"
| collect_add: "refs_live (us_storage u) c \<Longrightarrow> conn_typed c \<Longrightarrow> state_ok (c_type c) n \<Longrightarrow>
    collect net u (us_add c t n u)"
| collect_update: "um_find c (m_connectionMap (us_storage u)) = Some d \<Longrightarrow> keeps_identity g \<Longrightarrow>
    flagged f d (g d) \<Longrightarrow> state_ok (c_type c) (cd_state (g d)) \<Longrightarrow> collect net u (us_update c f (us_write c g u))"
| collect_remove: "collect net u (us_remove c u)"

lemma findAddress_storeAddress:
  "findAddress (storeAddress net a st) x =
     (if x = a \<and> findAddress st x = None then Some (AddressData_create net x) else findAddress st x)"
  by (cases a) (simp_all add: findAddress_addIP4 findAddress_addIP6)

lemma us_ok_storage:
  assumes "us_ok net u" and "storage_wf (us_storage u')"
    and "\<And>a d. findAddress (us_storage u') a = Some d \<Longrightarrow>
      findAddress (us_storage u) a = Some d \<or> ad_numericString d = address_toString net a"
    and "\<And>c d. um_find c (m_connectionMap (us_storage u')) = Some d \<Longrightarrow>
      um_find c (m_connectionMap (us_storage u)) = Some d \<or> conn_typed c \<and> state_ok (c_type c) (cd_state d)"
  shows "us_ok net u'"
  using assms unfolding us_ok_def storage_names_def by blast

lemma us_storages:
  "us_storage (us_add c t n u) = snd (addConnection c t n (us_storage u))"
  "us_storage (us_update c f u) = us_storage u"
  "us_storage (us_write c g u) = writeConnection c g (us_storage u)"
  by (simp_all add: us_add_def us_update_def us_write_def case_prod_beta Let_def)

lemma connectionMap_storeAddress: "m_connectionMap (storeAddress net a st) = m_connectionMap st"
  by (cases a) (simp_all add: storage_frame)

lemma us_ok_collect:
  assumes "collect net u u'" and "us_ok net u"
  shows "us_ok net u'"
proof -
  have wf: "storage_wf (us_storage u)" using assms(2) by (simp add: us_ok_def)
  note rule = us_ok_storage [OF assms(2)]
  from assms(1) show ?thesis
  proof cases
    case (collect_address a b)
    with wf show ?thesis
      by (intro rule) (auto simp: us_getAddress_eq storage_wf_storeAddress findAddress_storeAddress
          AddressData_create_def connectionMap_storeAddress split: if_splits)
  next
    case (collect_port p b)
    with wf show ?thesis
      by (intro rule) (auto simp: us_getPort_eq storage_wf_addPort storage_frame split: if_splits)
  next
    case (collect_add c n t)
    with wf show ?thesis
      by (intro rule) (auto simp: us_storages storage_wf_addConnection storage_frame find_addConnection
          ConnectionData_create_def split: if_splits)
  next
    case (collect_update c d g f)
    have "storage_wf (writeConnection c g (us_storage u))"
      using wf collect_update(3) by (intro storage_wf_writeConnection) (auto simp: keeps_identity_def)
    moreover have "conn_typed c" using assms(2) collect_update(2) by (auto simp: us_ok_def)
    ultimately show ?thesis
      using collect_update
      by (intro rule) (auto simp: us_storages storage_frame find_writeConnection split: if_splits)
  next
    case (collect_remove c)
    with wf show ?thesis
      by (intro rule) (auto simp: storage_us_remove storage_wf_removeConnection storage_frame
          find_removeConnection split: if_splits)
  qed
qed

lemma sent_serialize:
  assumes "inet_roundtrip net" and "us_ok net u" and "um_find c (m_connectionMap (us_storage u)) = Some d"
  shows "sent_doc net (serialize (us_storage u) c action f) (c, d, action, f)"
proof -
  have d: "derefConnection (us_storage u) c = d" using assms(3) by (simp add: derefConnection_def)
  have "c \<in> set (connections (us_storage u))" using assms(3) by (simp add: set_connections)
  with assms d show ?thesis
    using read_serialize [OF assms(1), of "us_storage u" c action f] by (auto simp: us_ok_def sent_doc_def)
qed

text \<open>The items written so far turn the view \<open>v\<close> into the present one.\<close>

definition tracks :: "inet \<Rightarrow> view \<Rightarrow> ConnectionUpdateSerializer \<Rightarrow> bool" where
  "tracks net v u \<longleftrightarrow> us_isSerializationEnabled u \<and>
     (\<exists>its. list_all2 (sent_doc net) (us_serializer u) its \<and> foldl replay_item v its = conn_view (us_storage u))"

lemma tracks_snoc:
  assumes "tracks net v u" and "sent_doc net doc it" and "us_isSerializationEnabled u'"
    and "us_serializer u' = us_serializer u @ [doc]"
    and "conn_view (us_storage u') = replay_item (conn_view (us_storage u)) it"
  shows "tracks net v u'"
proof -
  obtain its where "list_all2 (sent_doc net) (us_serializer u) its" "foldl replay_item v its = conn_view (us_storage u)"
    using assms(1) by (auto simp: tracks_def)
  then have "list_all2 (sent_doc net) (us_serializer u') (its @ [it])"
    and "foldl replay_item v (its @ [it]) = conn_view (us_storage u')"
    using assms(2,4,5) by (simp_all add: list_all2_appendI)
  with assms(3) show ?thesis by (auto simp: tracks_def)
qed

lemma tracks_same:
  assumes "tracks net v u" and "us_isSerializationEnabled u' = us_isSerializationEnabled u"
    and "us_serializer u' = us_serializer u" and "conn_view (us_storage u') = conn_view (us_storage u)"
  shows "tracks net v u'"
  using assms by (simp add: tracks_def)

lemma view_find: "um_find c (m_connectionMap st) = Some d \<Longrightarrow> conn_view st c = Some (cd_traffic d, cd_state d)"
  by (simp add: conn_view_def)

lemma tracks_add:
  assumes "inet_roundtrip net" and "us_ok net (us_add c t n u)" and "tracks net v u"
  shows "tracks net v (us_add c t n u)"
proof (cases "um_find c (m_connectionMap (us_storage u))")
  case None
  let ?u = "us_add c t n u" and ?d = "ConnectionData_create c t n"
  have on: "us_isSerializationEnabled u" using assms(3) by (simp add: tracks_def)
  have new: "um_find c (m_connectionMap (us_storage ?u)) = Some ?d"
    using None by (simp add: us_storages find_addConnection)
  show ?thesis
  proof (rule tracks_snoc [OF assms(3) sent_serialize [OF assms(1,2) new]])
    show "us_isSerializationEnabled ?u" and "us_serializer ?u = us_serializer u @ [serialize (us_storage ?u) c CREATE (- 1)]"
      using None on by (simp_all add: us_add_def case_prod_beta Let_def addItem_def adder_fst set_connections)
    show "conn_view (us_storage ?u) = replay_item (conn_view (us_storage u)) (c, ?d, CREATE, - 1)"
      using None by (simp add: replay_item_def us_storages conn_view_addConnection conn_view_def ConnectionData_create_def)
  qed
next
  case (Some d)
  then show ?thesis
    by (intro tracks_same [OF assms(3)])
      (simp_all add: us_add_def case_prod_beta Let_def adder_fst set_connections conn_view_addConnection view_find)
qed

lemma tracks_update:
  assumes "inet_roundtrip net" and "us_ok net (us_update c f (us_write c g u))" and "tracks net v u"
    and "um_find c (m_connectionMap (us_storage u)) = Some d" and "flagged f d (g d)"
  shows "tracks net v (us_update c f (us_write c g u))"
proof -
  let ?u = "us_update c f (us_write c g u)"
  have on: "us_isSerializationEnabled u" using assms(3) by (simp add: tracks_def)
  have new: "um_find c (m_connectionMap (us_storage ?u)) = Some (g d)"
    using assms(4) by (simp add: us_storages find_writeConnection)
  show ?thesis
  proof (rule tracks_snoc [OF assms(3) sent_serialize [OF assms(1,2) new]])
    show "us_isSerializationEnabled ?u" and "us_serializer ?u = us_serializer u @ [serialize (us_storage ?u) c UPDATE f]"
      using on by (simp_all add: us_update_def us_write_def addItem_def)
    show "conn_view (us_storage ?u) = replay_item (conn_view (us_storage u)) (c, g d, UPDATE, f)"
      using assms(5) view_find [OF assms(4)] assms(4)
      by (auto simp: fun_eq_iff replay_item_def us_storages conn_view_def find_writeConnection flagged_def)
  qed
qed

lemma tracks_remove:
  assumes "inet_roundtrip net" and "us_ok net u" and "tracks net v u"
  shows "tracks net v (us_remove c u)"
proof (cases "um_find c (m_connectionMap (us_storage u))")
  case None
  with assms(3) show ?thesis by (simp add: us_remove_def getConnection_def)
next
  case (Some d)
  have on: "us_isSerializationEnabled u" using assms(3) by (simp add: tracks_def)
  show ?thesis
  proof (rule tracks_snoc [OF assms(3) sent_serialize [OF assms(1,2) Some]])
    show "us_isSerializationEnabled (us_remove c u)"
      and "us_serializer (us_remove c u) = us_serializer u @ [serialize (us_storage u) c REMOVE (- 1)]"
      using on Some by (simp_all add: us_remove_def getConnection_def addItem_def Let_def)
    show "conn_view (us_storage (us_remove c u)) = replay_item (conn_view (us_storage u)) (c, d, REMOVE, - 1)"
      by (simp add: replay_item_def storage_us_remove conn_view_removeConnection)
  qed
qed

lemma tracks_collect:
  assumes "inet_roundtrip net" and "collect net u u'" and "us_ok net u" and "tracks net v u"
  shows "tracks net v u'"
proof -
  note ok' = us_ok_collect [OF assms(2,3)]
  from assms(2) show ?thesis
  proof cases
    case (collect_address a b)
    then show ?thesis by (intro tracks_same [OF assms(4)]) (simp_all add: us_getAddress_eq view_storeAddress)
  next
    case (collect_port p b)
    then show ?thesis by (intro tracks_same [OF assms(4)]) (simp_all add: us_getPort_eq view_addPort)
  qed (use assms(1,3,4) ok' tracks_add tracks_update tracks_remove in blast)+
qed

section \<open>Reachable states of the server's data\<close>

text \<open>\<open>build\<close> hands the items over to the message and empties the array.\<close>

definition us_build :: "ConnectionUpdateSerializer \<Rightarrow> json list \<times> ConnectionUpdateSerializer" where
  "us_build u = (us_serializer u, u\<lparr>us_serializer := []\<rparr>)"

inductive us_reach :: "inet \<Rightarrow> ConnectionUpdateSerializer \<Rightarrow> bool" for net where
  us_init: "us_reach net ConnectionUpdateSerializer_init"
| us_collect: "us_reach net u \<Longrightarrow> collect net u u' \<Longrightarrow> us_reach net u'"
| us_built: "us_reach net u \<Longrightarrow> us_reach net (snd (us_build u))"
| us_cleared: "us_reach net u \<Longrightarrow> us_reach net (us_clear u)"
| us_enabled: "us_reach net u \<Longrightarrow> us_reach net (setSerializationEnabled b u)"

lemma storage_enabled: "us_storage (setSerializationEnabled b u) = us_storage u"
  by (simp add: setSerializationEnabled_def)

lemma us_ok_clear:
  assumes "us_ok net u"
  shows "us_ok net (us_clear u)"
proof (rule us_ok_storage [OF assms])
  show "storage_wf (us_storage (us_clear u))"
    using assms by (simp add: us_clear_def storage_enabled us_ok_def storage_wf_clear)
qed (simp_all add: us_clear_def storage_enabled storage_frame, simp add: clearConnections_def um_find_def)

lemma us_reach_ok: "us_reach net u \<Longrightarrow> us_ok net u"
proof (induction rule: us_reach.induct)
  case us_init
  have "findAddress ConnectionStorage_init a = None" for a
    by (cases a) (simp_all add: ConnectionStorage_init_def um_find_def)
  then show ?case
    by (simp add: us_ok_def ConnectionUpdateSerializer_init_def storage_wf_init storage_names_def)
      (simp add: ConnectionStorage_init_def um_find_def)
next
  case (us_collect u u')
  then show ?case using us_ok_collect by blast
next
  case (us_cleared u)
  then show ?case by (simp add: us_ok_clear)
qed (simp_all add: us_ok_def us_build_def storage_enabled)

lemma collected:
  assumes "(collect net)\<^sup>*\<^sup>* u u'" and "inet_roundtrip net" and "us_reach net u" and "tracks net v u"
  shows "us_reach net u'" and "tracks net v u'"
  using assms(1)
proof (induction rule: rtranclp_induct)
  case base
  show "us_reach net u" and "tracks net v u" by fact+
next
  case (step y z)
  show "us_reach net z" using step.hyps(2) step.IH(1) by (blast intro: us_collect)
  show "tracks net v z" using tracks_collect [OF assms(2) step.hyps(2)] us_reach_ok step.IH by blast
qed

lemma tracks_start:
  "us_serializer u = [] \<Longrightarrow> us_isSerializationEnabled u \<Longrightarrow> tracks net (conn_view (us_storage u)) u"
  by (simp add: tracks_def)

lemma reach_storage_wf: "list_reach net l \<Longrightarrow> storage_wf (m_storage l)"
  using list_inv_reach by (fastforce simp: list_inv_def list_rows_def list_base_def)

text \<open>A client that had the view \<open>v\<close> catches up with the items.\<close>

lemma tracks_replay:
  assumes "inet_roundtrip net" and "tracks net (conn_view (m_storage l)) u" and "list_reach net l"
  shows "fst (deserialize_all net (list_callback net) (us_serializer u) l) = Inr ()
    \<and> conn_view (m_storage (snd (deserialize_all net (list_callback net) (us_serializer u) l)))
      = conn_view (us_storage u)"
  using lc.replay_docs [OF assms(1) _ reach_storage_wf [OF assms(3)], of "us_serializer u"] assms(2)
  by (auto simp: tracks_def)

text \<open>A snapshot, replayed on an empty view, yields the whole view.\<close>

lemma snapshot_eq: "ConnectionStorageSerializer st = map (\<lambda>p. serialize st p CREATE (- 1)) (connections st)"
proof -
  have "foldl (\<lambda>items p. addItem st p CREATE (- 1) items) xs ps = xs @ map (\<lambda>p. serialize st p CREATE (- 1)) ps"
    for xs ps
    by (induction ps arbitrary: xs) (simp_all add: addItem_def)
  then show ?thesis by (simp add: ConnectionStorageSerializer_def)
qed

lemma replay_creates:
  "foldl replay_item v (map (\<lambda>c. (c, derefConnection st c, CREATE, f)) cs) c =
     (case v c of
        Some x \<Rightarrow> Some x
      | None \<Rightarrow> if c \<in> set cs then Some (cd_traffic (derefConnection st c), cd_state (derefConnection st c)) else None)"
proof (induction cs arbitrary: v)
  case (Cons a cs)
  then show ?case by (auto simp: replay_item_def split: option.split)
qed (simp split: option.split)

lemma snapshot_sent:
  assumes "inet_roundtrip net" and "us_ok net u"
  shows "list_all2 (sent_doc net) (ConnectionStorageSerializer (us_storage u))
    (map (\<lambda>c. (c, derefConnection (us_storage u) c, CREATE, - 1)) (connections (us_storage u)))"
  unfolding snapshot_eq list_all2_map1 list_all2_map2
proof (rule list_all2_same [THEN iffD2, rule_format])
  fix c
  assume "c \<in> set (connections (us_storage u))"
  then obtain d where d: "um_find c (m_connectionMap (us_storage u)) = Some d" by (auto simp: set_connections)
  then have "derefConnection (us_storage u) c = d" by (simp add: derefConnection_def)
  with sent_serialize [OF assms d]
  show "sent_doc net (serialize (us_storage u) c CREATE (- 1)) (c, derefConnection (us_storage u) c, CREATE, - 1)"
    by simp
qed

lemma snapshot_view:
  "foldl replay_item Map.empty (map (\<lambda>c. (c, derefConnection st c, CREATE, f)) (connections st)) = conn_view st"
proof
  show "foldl replay_item Map.empty (map (\<lambda>c. (c, derefConnection st c, CREATE, f)) (connections st)) c = conn_view st c"
    for c
    unfolding replay_creates by (auto simp: stored_view conn_view_def derefConnection_def)
qed

lemma snapshot_replay:
  assumes "inet_roundtrip net" and "us_reach net u" and "list_reach net l"
  shows "fst (deserialize_all net (list_callback net) (ConnectionStorageSerializer (us_storage u)) (clear l)) = Inr ()
    \<and> conn_view (m_storage (snd (deserialize_all net (list_callback net)
        (ConnectionStorageSerializer (us_storage u)) (clear l)))) = conn_view (us_storage u)"
proof -
  have "storage_wf (m_storage (clear l))" using reach_storage_wf [OF reach_step [OF assms(3) step_clear]] .
  moreover have "conn_view (m_storage (clear l)) = Map.empty" by (simp add: clear_def view_clear)
  ultimately show ?thesis
    using lc.replay_docs [OF assms(1) snapshot_sent [OF assms(1) us_reach_ok [OF assms(2)]], of "clear l"]
    by (simp add: snapshot_view)
qed

section \<open>A sample server\<close>

definition sample_us :: ConnectionUpdateSerializer where
  "sample_us = snd (us_getPort (Port TCP 1) True (snd (us_getPort (Port TCP 0) True
     (snd (us_getAddress sample_net (AddressIP4 1) True ConnectionUpdateSerializer_init)))))"

definition sample_us1 :: ConnectionUpdateSerializer where
  "sample_us1 = us_add (sample_conn 1) (sample_speed 10) 3 sample_us"

lemma sample_us_collect: "(collect sample_net)\<^sup>*\<^sup>* ConnectionUpdateSerializer_init sample_us1"
proof -
  have "refs_live (us_storage sample_us) (sample_conn 1)"
    by (simp add: sample_us_def us_getPort_eq us_getAddress_eq ConnectionUpdateSerializer_init_def refs_live_def
        sample_conn_def live_storeAddress flip: storeAddress.simps)
  then have "collect sample_net sample_us sample_us1"
    unfolding sample_us1_def by (rule collect_add) (simp_all add: sample_conn_def conn_typed_def)
  then show ?thesis
    unfolding sample_us_def
    by (meson collect_address collect_port rtranclp.rtrancl_refl rtranclp.rtrancl_into_rtrancl)
qed

lemma view_init: "conn_view ConnectionStorage_init = Map.empty"
  by (simp add: fun_eq_iff conn_view_def ConnectionStorage_init_def um_find_def)

lemma init_views:
  "conn_view (m_storage ConnectionList_init) = conn_view (us_storage ConnectionUpdateSerializer_init)"
  by (simp add: ConnectionList_init_def updateCompareFunc_def ConnectionUpdateSerializer_init_def)

lemma sample_us1_view: "conn_view (us_storage sample_us1) (sample_conn 1) = Some (sample_speed 10, 3)"
  by (simp add: sample_us1_def us_storages conn_view_addConnection sample_us_def us_getPort_eq us_getAddress_eq view_addPort
      view_storeAddress ConnectionUpdateSerializer_init_def view_init flip: storeAddress.simps)

section \<open>Properties\<close>

text \<open>
  C15: no received data can corrupt the client's list. Whatever the elements of the received array are
  (missing members, wrong types, unknown names, addresses that do not parse, updates and removals of
  connections that do not exist), the loop of \<open>Deserialize\<close> calls leaves the list in a state that
  its public interface can reach, so all the invariants of such states hold, also when an exception
  ends the loop early.
\<close>

theorem received_data_keeps_list:
  assumes "list_reach net l"
  shows "list_reach net (snd (deserialize_all net (list_callback net) docs l))"
  by (rule lc.deserialize_all_preserves [where P = "list_reach net"]) (rule assms, rule list_reach_Deserialize)

theorem received_data_keeps_list_witness:
  "list_reach sample_net (snd (deserialize_all sample_net (list_callback sample_net)
     [JNull, JObject [(''action'', JString ''UPDATE'')]] ConnectionList_init))"
  by (rule received_data_keeps_list) (rule reach_init)

text \<open>
  C13: the update protocol replicates. Start from a server whose item array is empty and a client whose
  connections, with traffic and state, are the server's. After any work of the collector, replaying the
  items on the client succeeds and gives the client exactly the server's connections again.
\<close>

theorem updates_replicate:
  assumes "inet_roundtrip net" and "us_reach net u" and "us_serializer u = []" and "us_isSerializationEnabled u"
    and "(collect net)\<^sup>*\<^sup>* u u'"
    and "list_reach net l" and "conn_view (m_storage l) = conn_view (us_storage u)"
  shows "fst (deserialize_all net (list_callback net) (us_serializer u') l) = Inr ()
    \<and> conn_view (m_storage (snd (deserialize_all net (list_callback net) (us_serializer u') l)))
      = conn_view (us_storage u')"
proof (rule tracks_replay [OF assms(1) _ assms(6)])
  show "tracks net (conn_view (m_storage l)) u'"
    unfolding assms(7) using assms by (intro collected(2) [OF assms(5)] tracks_start)
qed

theorem updates_replicate_witness:
  "conn_view (m_storage (snd (deserialize_all sample_net (list_callback sample_net) (us_serializer sample_us1)
     ConnectionList_init))) (sample_conn 1) = Some (sample_speed 10, 3)"
proof -
  have "us_serializer ConnectionUpdateSerializer_init = []"
    and "us_isSerializationEnabled ConnectionUpdateSerializer_init"
    by (simp_all add: ConnectionUpdateSerializer_init_def)
  from updates_replicate [OF sample_net_roundtrip us_init this sample_us_collect reach_init init_views]
  show ?thesis by (simp add: sample_us1_view)
qed

text \<open>
  C16: a snapshot replicates. A client that clears its list and replays the snapshot of the server's
  storage has exactly the server's connections, whatever it had before.
\<close>

theorem snapshot_replicates:
  assumes "inet_roundtrip net" and "us_reach net u" and "list_reach net l"
  shows "fst (deserialize_all net (list_callback net) (ConnectionStorageSerializer (us_storage u)) (clear l)) = Inr ()
    \<and> conn_view (m_storage (snd (deserialize_all net (list_callback net)
        (ConnectionStorageSerializer (us_storage u)) (clear l)))) = conn_view (us_storage u)"
  using assms by (rule snapshot_replay)

theorem snapshot_replicates_witness:
  "conn_view (m_storage (snd (deserialize_all sample_net (list_callback sample_net)
     (ConnectionStorageSerializer (us_storage sample_us1)) (clear sample_two)))) (sample_conn 1)
     = Some (sample_speed 10, 3)"
proof -
  have "us_reach sample_net sample_us1"
    using collected(1) [OF sample_us_collect sample_net_roundtrip us_init tracks_start]
    by (simp add: ConnectionUpdateSerializer_init_def)
  from snapshot_replicates [OF sample_net_roundtrip this sample_two_reach] show ?thesis
    by (simp add: sample_us1_view)
qed

end
