(* ===== verification/Conntrack.thy ===== *)
theory Conntrack
  imports Replication
begin

text \<open>
  The Netfilter collector (\<^verbatim>\<open>Collector_Netfilter/Conntrack.cpp\<close>). The attributes the code
  reads from an \<open>nf_conntrack\<close> object of libnetfilter\_conntrack are the fields of a record; the
  dump of the kernel's table, which the library delivers entry by entry to the query callback, is an
  argument, \<open>None\<close> for a failed query. The enumerations of the kernel and of the library are
  datatypes, so that nothing depends on their numbers. The receiver is any implementation of the
  callback interface.
\<close>

section \<open>Kernel objects\<close>

datatype L3Proto = AF_INET | AF_INET6 | AF_OTHER
datatype L4Proto = IPPROTO_UDP | IPPROTO_TCP | IPPROTO_OTHER

datatype ConntrackTCPState =
  TCP_CONNTRACK_NONE | TCP_CONNTRACK_SYN_SENT | TCP_CONNTRACK_SYN_SENT2 | TCP_CONNTRACK_SYN_RECV
  | TCP_CONNTRACK_ESTABLISHED | TCP_CONNTRACK_FIN_WAIT | TCP_CONNTRACK_CLOSE_WAIT | TCP_CONNTRACK_LAST_ACK
  | TCP_CONNTRACK_TIME_WAIT | TCP_CONNTRACK_CLOSE | TCP_CONNTRACK_OTHER

record nf_conntrack =
  ATTR_L3PROTO :: L3Proto
  ATTR_L4PROTO :: L4Proto
  ATTR_IPV4_SRC :: u32
  ATTR_IPV4_DST :: u32
  ATTR_IPV6_SRC :: RawAddr
  ATTR_IPV6_DST :: RawAddr
  ATTR_PORT_SRC :: u16
  ATTR_PORT_DST :: u16
  ATTR_TCP_STATE :: ConntrackTCPState
  ATTR_REPL_COUNTER_PACKETS :: u64
  ATTR_ORIG_COUNTER_PACKETS :: u64
  ATTR_REPL_COUNTER_BYTES :: u64
  ATTR_ORIG_COUNTER_BYTES :: u64

text \<open>On a little-endian machine.\<close>

definition ntohs :: "u16 \<Rightarrow> u16" where
  "ntohs n = push_bit 8 n OR drop_bit 8 n"

fun TCPStateToEnum :: "ConntrackTCPState \<Rightarrow> int" where
  "TCPStateToEnum TCP_CONNTRACK_NONE = TCP_UNKNOWN"
| "TCPStateToEnum TCP_CONNTRACK_SYN_SENT = TCP_SYN_SENT"
| "TCPStateToEnum TCP_CONNTRACK_SYN_SENT2 = TCP_SYN_SENT"
| "TCPStateToEnum TCP_CONNTRACK_SYN_RECV = TCP_SYN_RECEIVED"
| "TCPStateToEnum TCP_CONNTRACK_ESTABLISHED = TCP_ESTABLISHED"
| "TCPStateToEnum TCP_CONNTRACK_FIN_WAIT = TCP_FIN_WAIT"
| "TCPStateToEnum TCP_CONNTRACK_CLOSE_WAIT = TCP_CLOSE_WAIT"
| "TCPStateToEnum TCP_CONNTRACK_LAST_ACK = TCP_LAST_ACK"
| "TCPStateToEnum TCP_CONNTRACK_TIME_WAIT = TCP_TIME_WAIT"
| "TCPStateToEnum TCP_CONNTRACK_CLOSE = TCP_CLOSING"
| "TCPStateToEnum TCP_CONNTRACK_OTHER = TCP_UNKNOWN"

fun TCPStateIsEqual :: "int \<Rightarrow> ConntrackTCPState \<Rightarrow> bool" where
  "TCPStateIsEqual s TCP_CONNTRACK_NONE = (s = TCP_UNKNOWN)"
| "TCPStateIsEqual s TCP_CONNTRACK_SYN_SENT = (s = TCP_SYN_SENT)"
| "TCPStateIsEqual s TCP_CONNTRACK_SYN_SENT2 = (s = TCP_SYN_SENT)"
| "TCPStateIsEqual s TCP_CONNTRACK_SYN_RECV = (s = TCP_SYN_RECEIVED)"
| "TCPStateIsEqual s TCP_CONNTRACK_ESTABLISHED = (s = TCP_ESTABLISHED)"
| "TCPStateIsEqual s TCP_CONNTRACK_FIN_WAIT = (s = TCP_FIN_WAIT)"
| "TCPStateIsEqual s TCP_CONNTRACK_CLOSE_WAIT = (s = TCP_CLOSE_WAIT)"
| "TCPStateIsEqual s TCP_CONNTRACK_LAST_ACK = (s = TCP_LAST_ACK)"
| "TCPStateIsEqual s TCP_CONNTRACK_TIME_WAIT = (s = TCP_TIME_WAIT)"
| "TCPStateIsEqual s TCP_CONNTRACK_CLOSE = (s = TCP_CLOSING)"
| "TCPStateIsEqual s TCP_CONNTRACK_OTHER = False"

section \<open>Addresses and ports of an entry\<close>

definition extract_addresses :: "nf_conntrack \<Rightarrow> (IAddress \<times> IAddress) option" where
  "extract_addresses ct =
     (case ATTR_L3PROTO ct of
        AF_INET \<Rightarrow> Some (AddressIP4 (ATTR_IPV4_SRC ct), AddressIP4 (ATTR_IPV4_DST ct))
      | AF_INET6 \<Rightarrow> Some (AddressIP6 (ATTR_IPV6_SRC ct), AddressIP6 (ATTR_IPV6_DST ct))
      | AF_OTHER \<Rightarrow> None)"

definition extract_portType :: "nf_conntrack \<Rightarrow> EPortType option" where
  "extract_portType ct =
     (case ATTR_L4PROTO ct of IPPROTO_UDP \<Rightarrow> Some UDP | IPPROTO_TCP \<Rightarrow> Some TCP | IPPROTO_OTHER \<Rightarrow> None)"

text \<open>
  \<open>ExtractAddressPort\<close> followed by the construction of the \<open>Connection\<close>, which both callers
  do next; \<open>None\<close> is the result \<open>false\<close>.
\<close>

definition ExtractAddressPort ::
  "'s IConnectionUpdateCallback \<Rightarrow> nf_conntrack \<Rightarrow> bool \<Rightarrow> 's \<Rightarrow> Connection option \<times> 's" where
  "ExtractAddressPort cb ct addFlag s =
     (case (extract_addresses ct, extract_portType ct) of
        (Some (a, d), Some portType) \<Rightarrow>
          (let (srcAddress, s1) = cb_getAddress cb a addFlag s;
               (dstAddress, s2) = cb_getAddress cb d addFlag s1
           in case (srcAddress, dstAddress) of
                (Some sa, Some da) \<Rightarrow>
                  (let (srcPort, s3) = cb_getPort cb (Port portType (ntohs (ATTR_PORT_SRC ct))) addFlag s2;
                       (dstPort, s4) = cb_getPort cb (Port portType (ntohs (ATTR_PORT_DST ct))) addFlag s3
                   in case (srcPort, dstPort) of
                        (Some sp, Some dp) \<Rightarrow> (Some (Connection_create sa sp da dp), s4)
                      | _ \<Rightarrow> (None, s4))
              | _ \<Rightarrow> (None, s2))
      | _ \<Rightarrow> (None, s))"

section \<open>Queries\<close>

definition isTCP :: "EConnectionType \<Rightarrow> bool" where
  "isTCP t = (t = TCP4 \<or> t = TCP6)"

definition query_traffic :: "nf_conntrack \<Rightarrow> ConnectionTraffic" where
  "query_traffic ct = ConnectionTraffic_zero\<lparr>rxPackets := ATTR_REPL_COUNTER_PACKETS ct,
     txPackets := ATTR_ORIG_COUNTER_PACKETS ct, rxBytes := ATTR_REPL_COUNTER_BYTES ct,
     txBytes := ATTR_ORIG_COUNTER_BYTES ct\<rparr>"

definition query_state :: "EConnectionType \<Rightarrow> nf_conntrack \<Rightarrow> int" where
  "query_state t ct = (if isTCP t then TCPStateToEnum (ATTR_TCP_STATE ct) else 0)"

text \<open>
  The writes to the connection's data and the flags for them, in the order of the code. The
  differences of the byte counters are unsigned 64-bit.
\<close>

definition update_state :: "nf_conntrack \<Rightarrow> ConnectionData \<times> flags \<Rightarrow> ConnectionData \<times> flags" where
  "update_state ct = (\<lambda>(d, f).
     if isTCP (c_type (cd_connection d)) \<and> \<not> TCPStateIsEqual (cd_state d) (ATTR_TCP_STATE ct)
     then (setState (TCPStateToEnum (ATTR_TCP_STATE ct)) d, f OR F_PROTO_STATE)
     else (d, f))"

definition update_rxPackets :: "u64 \<Rightarrow> ConnectionTraffic \<times> flags \<Rightarrow> ConnectionTraffic \<times> flags" where
  "update_rxPackets v = (\<lambda>(t, f). if rxPackets t \<noteq> v then (t\<lparr>rxPackets := v\<rparr>, f OR F_RX_PACKETS) else (t, f))"

definition update_txPackets :: "u64 \<Rightarrow> ConnectionTraffic \<times> flags \<Rightarrow> ConnectionTraffic \<times> flags" where
  "update_txPackets v = (\<lambda>(t, f). if txPackets t \<noteq> v then (t\<lparr>txPackets := v\<rparr>, f OR F_TX_PACKETS) else (t, f))"

definition update_rxBytes :: "u64 \<Rightarrow> ConnectionTraffic \<times> flags \<Rightarrow> ConnectionTraffic \<times> flags" where
  "update_rxBytes v = (\<lambda>(t, f).
     let speed = v - rxBytes t
     in if speed \<noteq> 0
        then let t1 = t\<lparr>rxBytes := v\<rparr>; f1 = f OR F_RX_BYTES
             in if speed \<noteq> rxSpeed t1 then (t1\<lparr>rxSpeed := speed\<rparr>, f1 OR F_RX_SPEED) else (t1, f1)
        else if rxSpeed t \<noteq> 0 then (t\<lparr>rxSpeed := 0\<rparr>, f OR F_RX_SPEED) else (t, f))"

definition update_txBytes :: "u64 \<Rightarrow> ConnectionTraffic \<times> flags \<Rightarrow> ConnectionTraffic \<times> flags" where
  "update_txBytes v = (\<lambda>(t, f).
     let speed = v - txBytes t
     in if speed \<noteq> 0
        then let t1 = t\<lparr>txBytes := v\<rparr>; f1 = f OR F_TX_BYTES
             in if speed \<noteq> txSpeed t1 then (t1\<lparr>txSpeed := speed\<rparr>, f1 OR F_TX_SPEED) else (t1, f1)
        else if txSpeed t \<noteq> 0 then (t\<lparr>txSpeed := 0\<rparr>, f OR F_TX_SPEED) else (t, f))"

definition query_update :: "nf_conntrack \<Rightarrow> ConnectionData \<Rightarrow> ConnectionData \<times> flags" where
  "query_update ct d =
     (let (d1, f1) = update_state ct (d, 0);
          (t, f) = update_txBytes (ATTR_ORIG_COUNTER_BYTES ct) (update_rxBytes (ATTR_REPL_COUNTER_BYTES ct)
                     (update_txPackets (ATTR_ORIG_COUNTER_PACKETS ct)
                       (update_rxPackets (ATTR_REPL_COUNTER_PACKETS ct) (cd_traffic d1, f1))))
      in (d1\<lparr>cd_traffic := t\<rparr>, f))"

text \<open>\<open>rd\<close> reads the data behind the pointer that \<open>find\<close> returned.\<close>

definition handleQuery ::
  "('s \<Rightarrow> Connection \<Rightarrow> ConnectionData) \<Rightarrow> 's IConnectionUpdateCallback \<Rightarrow> bool \<Rightarrow> nf_conntrack \<Rightarrow> 's \<Rightarrow> 's" where
  "handleQuery rd cb isRefillRequired ct s =
     (case ExtractAddressPort cb ct isRefillRequired s of
        (None, s1) \<Rightarrow> s1
      | (Some c, s1) \<Rightarrow>
          (if isRefillRequired then cb_add cb c (query_traffic ct) (query_state (c_type c) ct) s1
           else
             case cb_find cb c s1 of
               None \<Rightarrow> s1
             | Some p \<Rightarrow>
                 let f = snd (query_update ct (rd s1 p));
                     s2 = cb_write cb p (\<lambda>d. fst (query_update ct d)) s1
                 in if f \<noteq> 0 then cb_update cb p f s2 else s2))"

section \<open>The collector\<close>

datatype ConntrackEventType = NEW_CONNECTION | REMOVED_CONNECTION

record Conntrack =
  ct_eventQueue :: "(ConntrackEventType \<times> Connection) list"
  ct_isInitialized :: bool
  ct_isRefillRequired :: bool
  ct_isPaused :: bool

definition Conntrack_create :: Conntrack where
  "Conntrack_create =
     \<lparr>ct_eventQueue = [], ct_isInitialized = False, ct_isRefillRequired = True, ct_isPaused = False\<rparr>"

definition Conntrack_init :: "Conntrack \<Rightarrow> Conntrack" where
  "Conntrack_init k = k\<lparr>ct_isInitialized := True, ct_isRefillRequired := True, ct_isPaused := False\<rparr>"

definition Conntrack_setPaused :: "bool \<Rightarrow> Conntrack \<Rightarrow> Conntrack" where
  "Conntrack_setPaused paused k =
     (if ct_isPaused k \<noteq> paused then k\<lparr>ct_isPaused := paused, ct_isRefillRequired := True\<rparr> else k)"

definition process_event :: "'s IConnectionUpdateCallback \<Rightarrow> 's \<Rightarrow> ConntrackEventType \<times> Connection \<Rightarrow> 's" where
  "process_event cb s = (\<lambda>(type, c).
     case type of NEW_CONNECTION \<Rightarrow> cb_addNew cb c s | REMOVED_CONNECTION \<Rightarrow> cb_remove cb c s)"

text \<open>The result is the error of a failed dump.\<close>

definition Conntrack_onUpdate ::
  "('s \<Rightarrow> Connection \<Rightarrow> ConnectionData) \<Rightarrow> 's IConnectionUpdateCallback \<Rightarrow> nf_conntrack list option \<Rightarrow>
     Conntrack \<times> 's \<Rightarrow> string option \<times> Conntrack \<times> 's" where
  "Conntrack_onUpdate rd cb dump = (\<lambda>(k, s).
     if \<not> ct_isInitialized k \<or> ct_isPaused k then (None, k, s)
     else
       let s1 = (if ct_isRefillRequired k then cb_clear cb s else foldl (process_event cb) s (ct_eventQueue k));
           k1 = k\<lparr>ct_eventQueue := []\<rparr>
       in case dump of
            None \<Rightarrow> (Some ''Unable to dump content of conntrack table'', k1, s1)
          | Some cts \<Rightarrow>
              (None, k1\<lparr>ct_isRefillRequired := False\<rparr>,
               foldl (\<lambda>s ct. handleQuery rd cb (ct_isRefillRequired k1) ct s) s1 cts))"

definition handleEvent ::
  "'s IConnectionUpdateCallback \<Rightarrow> nf_conntrack \<Rightarrow> ConntrackEventType \<Rightarrow> Conntrack \<times> 's \<Rightarrow> Conntrack \<times> 's" where
  "handleEvent cb ct eventType = (\<lambda>(k, s).
     case ExtractAddressPort cb ct (eventType = NEW_CONNECTION) s of
       (None, s1) \<Rightarrow> (k, s1)
     | (Some c, s1) \<Rightarrow> (k\<lparr>ct_eventQueue := ct_eventQueue k @ [(eventType, c)]\<rparr>, s1))"

datatype nf_msg_type = NFCT_T_NEW | NFCT_T_DESTROY | NFCT_T_OTHER

definition EventCallback ::
  "'s IConnectionUpdateCallback \<Rightarrow> nf_msg_type \<times> nf_conntrack \<Rightarrow> Conntrack \<times> 's \<Rightarrow> Conntrack \<times> 's" where
  "EventCallback cb = (\<lambda>(type, ct) (k, s).
     if \<not> ct_isRefillRequired k
     then (case type of
             NFCT_T_NEW \<Rightarrow> handleEvent cb ct NEW_CONNECTION (k, s)
           | NFCT_T_DESTROY \<Rightarrow> handleEvent cb ct REMOVED_CONNECTION (k, s)
           | NFCT_T_OTHER \<Rightarrow> (k, s))
     else (k, s))"

text \<open>How \<open>nfct_catch\<close> ended after delivering its events.\<close>

datatype catch_result = CATCH_OK | ENOBUFS | EAGAIN | CATCH_ERROR

definition EventPollHandler ::
  "'s IConnectionUpdateCallback \<Rightarrow> bool \<Rightarrow> bool \<Rightarrow> (nf_msg_type \<times> nf_conntrack) list \<Rightarrow> catch_result \<Rightarrow>
     Conntrack \<times> 's \<Rightarrow> string option \<times> Conntrack \<times> 's" where
  "EventPollHandler cb isInput isError msgs res = (\<lambda>(k, s).
     let (k1, s1) = (if isInput then foldl (\<lambda>ks m. EventCallback cb m ks) (k, s) msgs else (k, s))
     in if isInput \<and> res = CATCH_ERROR then (Some ''Unable to receive conntrack events'', k1, s1)
        else
          let k2 = (if isInput \<and> res = ENOBUFS then k1\<lparr>ct_isRefillRequired := True\<rparr> else k1)
          in if isError then (Some ''Conntrack event socket poll failed'', k2, s1) else (None, k2, s1))"

end
