(* ===== verification/ConntrackProps.thy ===== *)
theory ConntrackProps
  imports Conntrack
begin

text \<open>
  The collector against its specification: what one entry of the kernel's table does to the data of
  its connection, that a refill makes the storage a copy of the table, and that all other work is made
  of the steps of \<open>collect\<close>, so that the server's updates replicate it.
\<close>

section \<open>One entry\<close>

lemmas F_bits = F_PROTO_STATE_def F_RX_PACKETS_def F_TX_PACKETS_def F_RX_BYTES_def F_TX_BYTES_def
  F_RX_SPEED_def F_TX_SPEED_def

text \<open>A flag raised under a condition.\<close>

definition raise :: "flags \<Rightarrow> bool \<Rightarrow> flags \<Rightarrow> flags" where
  "raise g b f = (if b then f OR g else f)"

lemma has_flag_raise: "has_flag (raise g b f) h \<longleftrightarrow> has_flag f h \<or> b \<and> has_flag g h"
  by (simp add: raise_def has_flag_or)

lemma state_equal: "TCPStateIsEqual s raw \<longleftrightarrow> raw \<noteq> TCP_CONNTRACK_OTHER \<and> s = TCPStateToEnum raw"
  by (cases raw) auto

text \<open>The specification: take over the counters, the speeds are the differences of the byte counters.\<close>

definition spec_traffic :: "nf_conntrack \<Rightarrow> ConnectionTraffic \<Rightarrow> ConnectionTraffic" where
  "spec_traffic ct t =
     \<lparr>rxPackets = ATTR_REPL_COUNTER_PACKETS ct, txPackets = ATTR_ORIG_COUNTER_PACKETS ct,
      rxBytes = ATTR_REPL_COUNTER_BYTES ct, txBytes = ATTR_ORIG_COUNTER_BYTES ct,
      rxSpeed = ATTR_REPL_COUNTER_BYTES ct - rxBytes t, txSpeed = ATTR_ORIG_COUNTER_BYTES ct - txBytes t\<rparr>"

lemma update_steps:
  "update_rxPackets v (t, f) = (t\<lparr>rxPackets := v\<rparr>, raise F_RX_PACKETS (rxPackets t \<noteq> v) f)"
  "update_txPackets v (t, f) = (t\<lparr>txPackets := v\<rparr>, raise F_TX_PACKETS (txPackets t \<noteq> v) f)"
  "update_rxBytes v (t, f) = (t\<lparr>rxBytes := v, rxSpeed := v - rxBytes t\<rparr>,
     raise F_RX_SPEED (v - rxBytes t \<noteq> rxSpeed t) (raise F_RX_BYTES (rxBytes t \<noteq> v) f))"
  "update_txBytes v (t, f) = (t\<lparr>txBytes := v, txSpeed := v - txBytes t\<rparr>,
     raise F_TX_SPEED (v - txBytes t \<noteq> txSpeed t) (raise F_TX_BYTES (txBytes t \<noteq> v) f))"
  "update_state ct (d, f) = (if isTCP (c_type (cd_connection d)) then setState (TCPStateToEnum (ATTR_TCP_STATE ct)) d else d,
     raise F_PROTO_STATE (isTCP (c_type (cd_connection d)) \<and> \<not> TCPStateIsEqual (cd_state d) (ATTR_TCP_STATE ct)) f)"
  by (auto simp: update_rxPackets_def update_txPackets_def update_rxBytes_def update_txBytes_def update_state_def
      raise_def Let_def state_equal setState_def)

lemma query_update_eq:
  "query_update ct d =
     ((if isTCP (c_type (cd_connection d)) then setState (TCPStateToEnum (ATTR_TCP_STATE ct)) d else d)
        \<lparr>cd_traffic := spec_traffic ct (cd_traffic d)\<rparr>,
      raise F_TX_SPEED (txSpeed (spec_traffic ct (cd_traffic d)) \<noteq> txSpeed (cd_traffic d))
     (raise F_TX_BYTES (txBytes (cd_traffic d) \<noteq> ATTR_ORIG_COUNTER_BYTES ct)
     (raise F_RX_SPEED (rxSpeed (spec_traffic ct (cd_traffic d)) \<noteq> rxSpeed (cd_traffic d))
     (raise F_RX_BYTES (rxBytes (cd_traffic d) \<noteq> ATTR_REPL_COUNTER_BYTES ct)
     (raise F_TX_PACKETS (txPackets (cd_traffic d) \<noteq> ATTR_ORIG_COUNTER_PACKETS ct)
     (raise F_RX_PACKETS (rxPackets (cd_traffic d) \<noteq> ATTR_REPL_COUNTER_PACKETS ct)
     (raise F_PROTO_STATE (isTCP (c_type (cd_connection d)) \<and> \<not> TCPStateIsEqual (cd_state d) (ATTR_TCP_STATE ct)) 0)))))))"
  by (simp add: query_update_def update_steps Let_def spec_traffic_def setState_def)

lemma query_update_data:
  "cd_traffic (fst (query_update ct d)) = spec_traffic ct (cd_traffic d)"
  "cd_state (fst (query_update ct d)) =
     (if isTCP (c_type (cd_connection d)) then TCPStateToEnum (ATTR_TCP_STATE ct) else cd_state d)"
  by (simp_all add: query_update_eq setState_def)

lemma query_update_identity: "keeps_identity (\<lambda>d. fst (query_update ct d))"
  by (simp add: keeps_identity_def query_update_eq setState_def)

lemma query_update_flags:
  fixes ct d
  defines "f \<equiv> snd (query_update ct d)" and "old \<equiv> cd_traffic d" and "new \<equiv> spec_traffic ct (cd_traffic d)"
  shows "has_flag f F_RX_PACKETS \<longleftrightarrow> rxPackets new \<noteq> rxPackets old"
    and "has_flag f F_TX_PACKETS \<longleftrightarrow> txPackets new \<noteq> txPackets old"
    and "has_flag f F_RX_BYTES \<longleftrightarrow> rxBytes new \<noteq> rxBytes old"
    and "has_flag f F_TX_BYTES \<longleftrightarrow> txBytes new \<noteq> txBytes old"
    and "has_flag f F_RX_SPEED \<longleftrightarrow> rxSpeed new \<noteq> rxSpeed old"
    and "has_flag f F_TX_SPEED \<longleftrightarrow> txSpeed new \<noteq> txSpeed old"
    and "has_flag f F_PROTO_STATE \<longleftrightarrow>
      isTCP (c_type (cd_connection d)) \<and> \<not> TCPStateIsEqual (cd_state d) (ATTR_TCP_STATE ct)"
  unfolding f_def old_def new_def query_update_eq snd_conv has_flag_raise
  by (simp_all add: has_flag_0 spec_traffic_def) (simp_all add: has_flag_def F_bits eq_commute)

lemma query_update_flagged: "flagged (snd (query_update ct d)) d (fst (query_update ct d))"
  unfolding flagged_def merge_traffic_def query_update_data query_update_flags
  by (simp add: state_equal)

lemma query_update_state_ok:
  assumes "state_ok (c_type (cd_connection d)) (cd_state d)"
  shows "state_ok (c_type (cd_connection d)) (cd_state (fst (query_update ct d)))"
proof -
  have tcp: "- 1 \<le> TCPStateToEnum r \<and> TCPStateToEnum r \<le> 11" for r
    by (cases r) (simp_all add: tcp_state_defs)
  show ?thesis
    unfolding query_update_data using assms tcp [of "ATTR_TCP_STATE ct"]
    by (cases "c_type (cd_connection d)") (simp_all add: isTCP_def)
qed

lemma query_state_ok: "state_ok t (query_state t ct)"
proof -
  have "- 1 \<le> TCPStateToEnum r \<and> TCPStateToEnum r \<le> 11" for r
    by (cases r) (simp_all add: tcp_state_defs)
  then show ?thesis by (cases t) (simp_all add: query_state_def isTCP_def)
qed

section \<open>The connection of an entry\<close>

definition entry_conn :: "nf_conntrack \<Rightarrow> Connection option" where
  "entry_conn ct =
     (case (extract_addresses ct, extract_portType ct) of
        (Some (a, d), Some t) \<Rightarrow>
          Some (Connection_create a (Port t (ntohs (ATTR_PORT_SRC ct))) d (Port t (ntohs (ATTR_PORT_DST ct))))
      | _ \<Rightarrow> None)"

lemma entry_conn_typed: "entry_conn ct = Some c \<Longrightarrow> conn_typed c"
  by (auto simp: entry_conn_def extract_addresses_def conn_typed_def Connection_create_def
      split: option.splits prod.splits L3Proto.splits)

context update_callback
begin

lemma ExtractAddressPort_cases:
  obtains (none) s' where "ExtractAddressPort cb ct b s = (None, s')" "touched s s'"
      "entry_conn ct = None \<or> (\<exists>c. entry_conn ct = Some c \<and> \<not> b \<and> \<not> refs_live (sto s) c)"
  | (some) c s' where "ExtractAddressPort cb ct b s = (Some c, s')" "touched s s'" "entry_conn ct = Some c"
      "refs_live (sto s') c"
proof (cases "entry_conn ct")
  case None
  then have "ExtractAddressPort cb ct b s = (None, s)"
    by (auto simp: entry_conn_def ExtractAddressPort_def split: option.splits)
  with None show thesis using none touched_refl by blast
next
  case (Some c)
  then obtain a d t where ex: "extract_addresses ct = Some (a, d)" "extract_portType ct = Some t"
    by (auto simp: entry_conn_def split: option.splits)
  define sp where "sp = Port t (ntohs (ATTR_PORT_SRC ct))"
  define dp where "dp = Port t (ntohs (ATTR_PORT_DST ct))"
  define s1 where "s1 = snd (cb_getAddress cb a b s)"
  define s2 where "s2 = snd (cb_getAddress cb d b s1)"
  define s3 where "s3 = snd (cb_getPort cb sp b s2)"
  define s4 where "s4 = snd (cb_getPort cb dp b s3)"
  have c: "c = Connection_create a sp d dp" using Some ex by (simp add: entry_conn_def sp_def dp_def)
  have refs: "refs_live st c \<longleftrightarrow> address_live st a \<and> address_live st d \<and> port_live st sp \<and> port_live st dp" for st
    by (simp add: refs_live_def c Connection_create_def)
  have t: "touched s s2" "touched s s4"
    using touched_trans touched_getAddress touched_getPort unfolding s1_def s2_def s3_def s4_def by metis+
  have eq: "ExtractAddressPort cb ct b s =
      (if fst (cb_getAddress cb a b s) \<noteq> None \<and> fst (cb_getAddress cb d b s1) \<noteq> None
       then if fst (cb_getPort cb sp b s2) \<noteq> None \<and> fst (cb_getPort cb dp b s3) \<noteq> None then (Some c, s4) else (None, s4)
       else (None, s2))"
    by (auto simp: ExtractAddressPort_def ex case_prod_beta Let_def c sp_def dp_def s1_def s2_def s3_def s4_def
        getAddress_found getPort_found split: option.split)
  show thesis
  proof (cases "b \<or> refs_live (sto s) c")
    case True
    then have "ExtractAddressPort cb ct b s = (Some c, s4)" and "refs_live (sto s4) c"
      unfolding eq by (auto simp: refs s1_def s2_def s3_def s4_def getters)
    with Some t show thesis using some by blast
  next
    case False
    then have "ExtractAddressPort cb ct b s \<in> {(None, s2), (None, s4)}"
      unfolding eq by (auto simp: refs s1_def s2_def s3_def getters)
    with False Some t none show thesis by auto
  qed
qed

text \<open>An entry during a refill.\<close>

lemma handleQuery_refill:
  "view_of (handleQuery rd cb True ct s) =
     (case entry_conn ct of
        None \<Rightarrow> view_of s
      | Some c \<Rightarrow> (case view_of s c of
          None \<Rightarrow> (view_of s)(c \<mapsto> (query_traffic ct, query_state (c_type c) ct)) | Some _ \<Rightarrow> view_of s))"
proof (rule ExtractAddressPort_cases [of ct True s])
  fix c s'
  assume *: "ExtractAddressPort cb ct True s = (Some c, s')" "touched s s'" "entry_conn ct = Some c"
  then show ?thesis by (simp add: handleQuery_def add_sto conn_view_addConnection touchedD(1) [OF *(2)] split: option.split)
qed (auto simp: handleQuery_def touchedD(1))

end

text \<open>The copy of a dump: each connection with the values of its first entry.\<close>

definition dump_view :: "nf_conntrack list \<Rightarrow> view" where
  "dump_view cts = foldl (\<lambda>v ct.
     case entry_conn ct of
       None \<Rightarrow> v
     | Some c \<Rightarrow> (case v c of None \<Rightarrow> v(c \<mapsto> (query_traffic ct, query_state (c_type c) ct)) | Some _ \<Rightarrow> v))
     Map.empty cts"

context update_callback
begin

lemma refill_view:
  assumes "ct_isInitialized k" and "\<not> ct_isPaused k" and "ct_isRefillRequired k"
  shows "view_of (snd (snd (Conntrack_onUpdate rd cb (Some cts) (k, s)))) = dump_view cts"
proof -
  have "view_of (foldl (\<lambda>s ct. handleQuery rd cb True ct s) s' cts) =
      foldl (\<lambda>v ct. case entry_conn ct of None \<Rightarrow> v
       | Some c \<Rightarrow> (case v c of None \<Rightarrow> v(c \<mapsto> (query_traffic ct, query_state (c_type c) ct)) | Some _ \<Rightarrow> v))
        (view_of s') cts" for s'
    by (induction cts arbitrary: s') (simp_all add: handleQuery_refill)
  moreover have "view_of (cb_clear cb s) = Map.empty" by (simp add: clear_sto view_clear)
  ultimately show ?thesis
    using assms by (simp add: Conntrack_onUpdate_def Let_def dump_view_def)
qed

end

section \<open>The server's collector\<close>

abbreviation us_read :: "ConnectionUpdateSerializer \<Rightarrow> Connection \<Rightarrow> ConnectionData" where
  "us_read u \<equiv> derefConnection (us_storage u)"

lemma collect_touched:
  assumes "us.touched net u u'"
  shows "(collect net)\<^sup>*\<^sup>* u u'"
proof -
  have "collect net a b" if "us.getter_step net a b" for a b
    using that unfolding us.getter_step_def by (auto simp: us_callback_def intro: collect.intros)
  then show ?thesis
    using assms unfolding us.touched_def by (meson mono_rtranclp)
qed

lemma writeConnection_same:
  assumes "storage_wf st" and "um_find c (m_connectionMap st) = Some d" and "g d = d"
  shows "writeConnection c g st = st"
proof -
  have "v = d" if "(c, v) \<in> set (m_connectionMap st)" for v
    using assms(1,2) map_of_is_SomeI [OF _ that]
    by (simp add: storage_wf_def um_wf_def um_keys_def um_find_def)
  then have "um_write c g (m_connectionMap st) = m_connectionMap st"
    unfolding um_write_def using assms(3) by (intro map_idI) auto
  then show ?thesis by (simp add: writeConnection_def)
qed

lemma query_update_quiet:
  assumes "snd (query_update ct d) = 0"
  shows "fst (query_update ct d) = d"
proof -
  have none: "\<not> has_flag (snd (query_update ct d)) g" for g using assms by (simp add: has_flag_0)
  have "spec_traffic ct (cd_traffic d) = cd_traffic d"
    using none query_update_flags [of ct d] by (cases "cd_traffic d") (simp add: spec_traffic_def)
  moreover have "isTCP (c_type (cd_connection d)) \<Longrightarrow> TCPStateToEnum (ATTR_TCP_STATE ct) = cd_state d"
    using none query_update_flags(7) [of ct d] by (simp add: state_equal)
  ultimately show ?thesis by (simp add: query_update_eq setState_def)
qed

lemma collect_handleQuery:
  assumes "us_reach net u"
  shows "(collect net)\<^sup>*\<^sup>* u (handleQuery us_read (us_callback net) False ct u)"
proof (rule us.ExtractAddressPort_cases [of net ct False u])
  fix c u'
  assume *: "ExtractAddressPort (us_callback net) ct False u = (Some c, u')" "us.touched net u u'"
  note pre = collect_touched [OF *(2)]
  have ok: "us_ok net u'"
    using pre us_reach_ok [OF assms] by (induction rule: rtranclp_induct) (auto intro: us_ok_collect)
  show ?thesis
  proof (cases "um_find c (m_connectionMap (us_storage u'))")
    case None
    then have "handleQuery us_read (us_callback net) False ct u = u'"
      using * by (simp add: handleQuery_def us_callback_def us_find_def getConnection_def)
    with pre show ?thesis by simp
  next
    case (Some d)
    let ?g = "\<lambda>d. fst (query_update ct d)"
    have rd: "us_read u' c = d" using Some by (simp add: derefConnection_def)
    have d: "cd_connection d = c" "state_ok (c_type c) (cd_state d)"
      using ok Some by (auto simp: us_ok_def storage_wf_def)
    have step: "collect net u' (us_update c (snd (query_update ct d)) (us_write c ?g u'))"
      using query_update_state_ok [of d ct] d
      by (intro collect_update [OF Some query_update_identity query_update_flagged]) simp
    show ?thesis
    proof (cases "snd (query_update ct d) = 0")
      case True
      have "us_write c ?g u' = u'"
        using writeConnection_same [OF _ Some, of ?g] query_update_quiet [OF True] ok
        by (simp add: us_write_def us_ok_def)
      with True * Some rd pre show ?thesis
        by (simp add: handleQuery_def us_callback_def us_find_def getConnection_def Let_def)
    next
      case False
      then show ?thesis
        using * Some rd step pre
        by (simp add: handleQuery_def us_callback_def us_find_def getConnection_def Let_def)
    qed
  qed
qed (simp add: handleQuery_def collect_touched)

lemma collect_refill:
  "(collect net)\<^sup>*\<^sup>* u (handleQuery us_read (us_callback net) True ct u)"
proof (rule us.ExtractAddressPort_cases [of net ct True u])
  fix c u'
  assume *: "ExtractAddressPort (us_callback net) ct True u = (Some c, u')" "us.touched net u u'"
    "entry_conn ct = Some c" "refs_live (us_storage u') c"
  have "collect net u' (us_add c (query_traffic ct) (query_state (c_type c) ct) u')"
    using * by (intro collect_add entry_conn_typed query_state_ok)
  with collect_touched [OF *(2)] * show ?thesis by (simp add: handleQuery_def us_callback_def)
qed (simp add: handleQuery_def collect_touched)

lemma us_reach_collects: "(collect net)\<^sup>*\<^sup>* u u' \<Longrightarrow> us_reach net u \<Longrightarrow> us_reach net u'"
  by (induction rule: rtranclp_induct) (auto intro: us_collect)

lemma live_collect: "collect net u u' \<Longrightarrow> refs_live (us_storage u) c \<Longrightarrow> refs_live (us_storage u') c"
proof (induction rule: collect.induct)
  case (collect_address u a b)
  then show ?case by (simp add: us_getAddress_eq refs_live_def live_storeAddress)
next
  case (collect_port u p b)
  then show ?case by (simp add: us_getPort_eq refs_live_def live_storeAddress)
qed (simp_all add: us_storages storage_us_remove refs_live_def address_live_def port_live_def storage_frame)

lemma live_collects: "(collect net)\<^sup>*\<^sup>* u u' \<Longrightarrow> refs_live (us_storage u) c \<Longrightarrow> refs_live (us_storage u') c"
  by (induction rule: rtranclp_induct) (auto intro: live_collect)

text \<open>The connections of queued events can be added.\<close>

definition queue_ok :: "ConnectionUpdateSerializer \<Rightarrow> (ConntrackEventType \<times> Connection) list \<Rightarrow> bool" where
  "queue_ok u q \<longleftrightarrow> (\<forall>c. (NEW_CONNECTION, c) \<in> set q \<longrightarrow> refs_live (us_storage u) c \<and> conn_typed c)"

lemma queue_ok_mono: "queue_ok u q \<Longrightarrow> (collect net)\<^sup>*\<^sup>* u u' \<Longrightarrow> queue_ok u' q"
  unfolding queue_ok_def using live_collects by blast

lemma collect_events:
  "queue_ok u q \<Longrightarrow> (collect net)\<^sup>*\<^sup>* u (foldl (process_event (us_callback net)) u q)"
proof (induction q arbitrary: u)
  case (Cons e q)
  obtain type c where e: "e = (type, c)" by (cases e)
  let ?u = "process_event (us_callback net) u e"
  have step: "collect net u ?u"
  proof (cases type)
    case NEW_CONNECTION
    have "state_ok (c_type c) 0" by (cases "c_type c") simp_all
    with NEW_CONNECTION Cons.prems show ?thesis
      by (auto simp: e process_event_def us_callback_def us_add_new_def queue_ok_def intro: collect_add)
  next
    case REMOVED_CONNECTION
    then show ?thesis by (simp add: e process_event_def us_callback_def collect_remove)
  qed
  have "queue_ok u q" using Cons.prems by (simp add: queue_ok_def)
  then have "queue_ok ?u q" using queue_ok_mono step by blast
  from converse_rtranclp_into_rtranclp [OF step Cons.IH [OF this]] show ?case by simp
qed simp

lemma collect_dump:
  "us_reach net u \<Longrightarrow> (collect net)\<^sup>*\<^sup>* u (foldl (\<lambda>s ct. handleQuery us_read (us_callback net) b ct s) u cts)"
proof (induction cts arbitrary: u)
  case (Cons ct cts)
  let ?u = "handleQuery us_read (us_callback net) b ct u"
  have step: "(collect net)\<^sup>*\<^sup>* u ?u"
    using collect_handleQuery [OF Cons.prems] collect_refill by (cases b) auto
  show ?case using Cons.IH [OF us_reach_collects [OF step Cons.prems]] step by simp
qed simp

text \<open>One update of the collector without a refill consists of \<open>collect\<close> steps.\<close>

lemma collect_onUpdate:
  assumes "us_reach net u" and "queue_ok u (ct_eventQueue k)" and "\<not> ct_isRefillRequired k"
    and "Conntrack_onUpdate us_read (us_callback net) dump (k, u) = (e, k', u')"
  shows "(collect net)\<^sup>*\<^sup>* u u'"
proof -
  note ev = collect_events [OF assms(2), of net]
  show ?thesis
    using assms(3,4) ev rtranclp_trans [OF ev collect_dump [OF us_reach_collects [OF ev assms(1)]]]
    by (auto simp: Conntrack_onUpdate_def Let_def split: if_splits option.splits)
qed

section \<open>Reachable states of collector and server data\<close>

inductive ck_reach :: "inet \<Rightarrow> Conntrack \<Rightarrow> ConnectionUpdateSerializer \<Rightarrow> bool" for net where
  ck_create: "ck_reach net Conntrack_create ConnectionUpdateSerializer_init"
| ck_init: "ck_reach net k u \<Longrightarrow> ck_reach net (Conntrack_init k) u"
| ck_pause: "ck_reach net k u \<Longrightarrow> ck_reach net (Conntrack_setPaused b k) u"
| ck_update: "ck_reach net k u \<Longrightarrow> Conntrack_onUpdate us_read (us_callback net) dump (k, u) = (None, k', u') \<Longrightarrow>
    ck_reach net k' u'"
| ck_events: "ck_reach net k u \<Longrightarrow> EventPollHandler (us_callback net) i e msgs res (k, u) = (None, k', u') \<Longrightarrow>
    ck_reach net k' u'"
| ck_build: "ck_reach net k u \<Longrightarrow> ck_reach net k (snd (us_build u))"
| ck_enable: "ck_reach net k u \<Longrightarrow> ck_reach net k (setSerializationEnabled b u)"

lemma ck_onUpdate:
  assumes "us_reach net u" and "queue_ok u (ct_eventQueue k)"
    and "Conntrack_onUpdate us_read (us_callback net) dump (k, u) = (None, k', u')"
  shows "us_reach net u' \<and> queue_ok u' (ct_eventQueue k')"
proof (cases "ct_isRefillRequired k")
  case True
  have "us_reach net (us_clear u)" using assms(1) by (rule us_cleared)
  from us_reach_collects [OF collect_dump [OF this, where b = True] this] True assms show ?thesis
    by (auto simp: Conntrack_onUpdate_def Let_def queue_ok_def us_callback_def split: if_splits option.splits)
next
  case False
  have "queue_ok u' (ct_eventQueue k')"
    using False assms(2,3) by (auto simp: Conntrack_onUpdate_def Let_def queue_ok_def split: if_splits option.splits)
  with us_reach_collects [OF collect_onUpdate [OF assms(1,2) False assms(3)] assms(1)] show ?thesis by simp
qed

lemma ck_handleEvent:
  assumes "us_reach net u" and "queue_ok u (ct_eventQueue k)" and "handleEvent (us_callback net) ct type (k, u) = (k', u')"
  shows "us_reach net u' \<and> queue_ok u' (ct_eventQueue k')"
proof (rule us.ExtractAddressPort_cases [of net ct "type = NEW_CONNECTION" u])
  fix w
  assume *: "ExtractAddressPort (us_callback net) ct (type = NEW_CONNECTION) u = (None, w)" "us.touched net u w"
  note c = collect_touched [OF *(2)]
  from * assms(3) us_reach_collects [OF c assms(1)] queue_ok_mono [OF assms(2) c] show ?thesis
    by (simp add: handleEvent_def)
next
  fix c w
  assume *: "ExtractAddressPort (us_callback net) ct (type = NEW_CONNECTION) u = (Some c, w)" "us.touched net u w"
    "entry_conn ct = Some c" "refs_live (us_storage w) c"
  note t = collect_touched [OF *(2)]
  from * assms(3) us_reach_collects [OF t assms(1)] queue_ok_mono [OF assms(2) t] entry_conn_typed [OF *(3)]
  show ?thesis by (auto simp: handleEvent_def queue_ok_def)
qed

lemma ck_callbacks:
  "us_reach net u \<Longrightarrow> queue_ok u (ct_eventQueue k) \<Longrightarrow>
     foldl (\<lambda>ks m. EventCallback (us_callback net) m ks) (k, u) msgs = (k', u') \<Longrightarrow>
     us_reach net u' \<and> queue_ok u' (ct_eventQueue k')"
proof (induction msgs arbitrary: k u)
  case (Cons m msgs)
  obtain k1 u1 where m: "EventCallback (us_callback net) m (k, u) = (k1, u1)" by fastforce
  then have "us_reach net u1 \<and> queue_ok u1 (ct_eventQueue k1)"
    using Cons.prems(1,2) ck_handleEvent [OF Cons.prems(1,2)]
    by (auto simp: EventCallback_def split: prod.splits if_splits nf_msg_type.splits)
  with Cons.IH [of u1 k1] Cons.prems(3) m show ?case by simp
qed simp

lemma ck_reach_ok: "ck_reach net k u \<Longrightarrow> us_reach net u \<and> queue_ok u (ct_eventQueue k)"
proof (induction rule: ck_reach.induct)
  case ck_create
  show ?case by (simp add: us_init Conntrack_create_def queue_ok_def)
next
  case (ck_update k u dump k' u')
  then show ?case using ck_onUpdate by blast
next
  case (ck_events k u i e msgs res k' u')
  then show ?case
    using ck_callbacks [of net u k msgs]
    by (auto simp: EventPollHandler_def Let_def split: prod.splits if_splits)
next
  case (ck_build k u)
  then show ?case using us_built [of net u] by (auto simp: queue_ok_def us_build_def)
next
  case (ck_enable k u b)
  then show ?case by (auto simp: queue_ok_def storage_enabled intro: us_enabled)
qed (simp_all add: Conntrack_init_def Conntrack_setPaused_def)

lemma dump_view_find:
  "dump_view cts c =
     map_option (\<lambda>ct. (query_traffic ct, query_state (c_type c) ct)) (List.find (\<lambda>ct. entry_conn ct = Some c) cts)"
proof -
  have "foldl (\<lambda>v ct. case entry_conn ct of None \<Rightarrow> v
      | Some c \<Rightarrow> (case v c of None \<Rightarrow> v(c \<mapsto> (query_traffic ct, query_state (c_type c) ct)) | Some _ \<Rightarrow> v)) v cts c =
    (case v c of Some x \<Rightarrow> Some x
     | None \<Rightarrow> map_option (\<lambda>ct. (query_traffic ct, query_state (c_type c) ct)) (List.find (\<lambda>ct. entry_conn ct = Some c) cts))"
    for v
  proof (induction cts arbitrary: v)
    case (Cons ct cts)
    then show ?case by (auto split: option.split)
  qed (simp split: option.split)
  then show ?thesis by (simp add: dump_view_def)
qed

lemma collect_disabled:
  "collect net u u' \<Longrightarrow> \<not> us_isSerializationEnabled u \<Longrightarrow>
     \<not> us_isSerializationEnabled u' \<and> us_serializer u' = us_serializer u"
  by (induction rule: collect.induct)
    (auto simp: us_getAddress_eq us_getPort_eq us_add_def us_update_def us_write_def us_remove_def case_prod_beta Let_def
      split: option.splits)

lemma collects_disabled:
  "(collect net)\<^sup>*\<^sup>* u u' \<Longrightarrow> \<not> us_isSerializationEnabled u \<Longrightarrow>
     \<not> us_isSerializationEnabled u' \<and> us_serializer u' = us_serializer u"
  by (induction rule: rtranclp_induct) (use collect_disabled in auto)

section \<open>Properties\<close>

text \<open>
  C18: what an entry of the kernel's table does to the data of its connection. All counters are taken
  over, the speeds are the differences of the byte counters to the previous ones (modulo \<open>2 ^ 64\<close>),
  the state of a TCP connection is the translated one; and the reported flags are exactly the fields
  that changed (a state the translation does not know is reported every time).
\<close>

theorem conntrack_query_exact:
  "cd_traffic (fst (query_update ct d)) = spec_traffic ct (cd_traffic d)
    \<and> cd_state (fst (query_update ct d)) =
        (if isTCP (c_type (cd_connection d)) then TCPStateToEnum (ATTR_TCP_STATE ct) else cd_state d)
    \<and> (has_flag (snd (query_update ct d)) F_RX_PACKETS = (rxPackets (cd_traffic (fst (query_update ct d))) \<noteq> rxPackets (cd_traffic d)))
    \<and> (has_flag (snd (query_update ct d)) F_TX_PACKETS = (txPackets (cd_traffic (fst (query_update ct d))) \<noteq> txPackets (cd_traffic d)))
    \<and> (has_flag (snd (query_update ct d)) F_RX_BYTES = (rxBytes (cd_traffic (fst (query_update ct d))) \<noteq> rxBytes (cd_traffic d)))
    \<and> (has_flag (snd (query_update ct d)) F_TX_BYTES = (txBytes (cd_traffic (fst (query_update ct d))) \<noteq> txBytes (cd_traffic d)))
    \<and> (has_flag (snd (query_update ct d)) F_RX_SPEED = (rxSpeed (cd_traffic (fst (query_update ct d))) \<noteq> rxSpeed (cd_traffic d)))
    \<and> (has_flag (snd (query_update ct d)) F_TX_SPEED = (txSpeed (cd_traffic (fst (query_update ct d))) \<noteq> txSpeed (cd_traffic d)))
    \<and> (has_flag (snd (query_update ct d)) F_PROTO_STATE = (isTCP (c_type (cd_connection d))
        \<and> (ATTR_TCP_STATE ct = TCP_CONNTRACK_OTHER \<or> cd_state (fst (query_update ct d)) \<noteq> cd_state d)))"
  unfolding query_update_data query_update_flags by (auto simp: state_equal)

text \<open>An IPv4 TCP entry, ports in network byte order.\<close>

definition sample_ct :: nf_conntrack where
  "sample_ct = \<lparr>ATTR_L3PROTO = AF_INET, ATTR_L4PROTO = IPPROTO_TCP, ATTR_IPV4_SRC = 1, ATTR_IPV4_DST = 1,
     ATTR_IPV6_SRC = (0, 0, 0, 0), ATTR_IPV6_DST = (0, 0, 0, 0), ATTR_PORT_SRC = 0x100, ATTR_PORT_DST = 0,
     ATTR_TCP_STATE = TCP_CONNTRACK_ESTABLISHED, ATTR_REPL_COUNTER_PACKETS = 1, ATTR_ORIG_COUNTER_PACKETS = 2,
     ATTR_REPL_COUNTER_BYTES = 100, ATTR_ORIG_COUNTER_BYTES = 200\<rparr>"

lemma sample_ct_conn: "entry_conn sample_ct = Some (sample_conn 1)"
  by (simp add: entry_conn_def sample_ct_def extract_addresses_def extract_portType_def ntohs_def sample_conn_def
      Connection_create_def)

lemma sample_ct_state: "query_state (c_type (sample_conn 1)) sample_ct = 3"
  by (simp add: query_state_def isTCP_def sample_conn_def sample_ct_def tcp_state_defs)

theorem conntrack_query_exact_witness:
  "rxSpeed (cd_traffic (fst (query_update sample_ct
      (ConnectionData_create (sample_conn 1) (query_traffic (sample_ct\<lparr>ATTR_REPL_COUNTER_BYTES := 70\<rparr>)) 3)))) = 30
   \<and> has_flag (snd (query_update sample_ct
      (ConnectionData_create (sample_conn 1) (query_traffic (sample_ct\<lparr>ATTR_REPL_COUNTER_BYTES := 70\<rparr>)) 3))) F_RX_SPEED
   \<and> \<not> has_flag (snd (query_update sample_ct
      (ConnectionData_create (sample_conn 1) (query_traffic (sample_ct\<lparr>ATTR_REPL_COUNTER_BYTES := 70\<rparr>)) 3))) F_PROTO_STATE"
  using conntrack_query_exact [of sample_ct
      "ConnectionData_create (sample_conn 1) (query_traffic (sample_ct\<lparr>ATTR_REPL_COUNTER_BYTES := 70\<rparr>)) 3"]
  by (simp add: ConnectionData_create_def spec_traffic_def query_traffic_def sample_ct_def ConnectionTraffic_zero_def
      tcp_state_defs)

definition sample_refilled :: "Conntrack \<times> ConnectionUpdateSerializer" where
  "sample_refilled = snd (Conntrack_onUpdate us_read (us_callback sample_net) (Some [])
     (Conntrack_init Conntrack_create, ConnectionUpdateSerializer_init))"

lemma sample_refilled_reach: "ck_reach sample_net (fst sample_refilled) (snd sample_refilled)"
  by (rule ck_update [OF ck_init [OF ck_create], where dump = "Some []"])
    (simp add: sample_refilled_def Conntrack_onUpdate_def Conntrack_init_def Let_def)

text \<open>
  C17: a refill copies the table. After it the stored connections are those of the dump, each with the
  counters and the state of its first entry; and the server's serializer is left disabled and empty, so
  that no client is sent an update that misses the refill.
\<close>

theorem conntrack_refill_copies:
  assumes "ck_reach net k u" and "ct_isInitialized k" and "\<not> ct_isPaused k" and "ct_isRefillRequired k"
    and "Conntrack_onUpdate us_read (us_callback net) (Some cts) (k, u) = (e, k', u')"
  shows "conn_view (us_storage u') c =
      map_option (\<lambda>ct. (query_traffic ct, query_state (c_type c) ct)) (List.find (\<lambda>ct. entry_conn ct = Some c) cts)
    \<and> \<not> us_isSerializationEnabled u' \<and> (us_isSerializationEnabled u \<longrightarrow> us_serializer u' = [])
    \<and> e = None \<and> \<not> ct_isRefillRequired k'"
proof -
  have "us_reach net (us_clear u)" using ck_reach_ok [OF assms(1)] us_cleared by blast
  from collects_disabled [OF collect_dump [OF this, where b = True and cts = cts]]
  have "\<not> us_isSerializationEnabled u' \<and> us_serializer u' = us_serializer (us_clear u)"
    using assms(2-5) by (auto simp: Conntrack_onUpdate_def Let_def us_callback_def us_clear_def setSerializationEnabled_def)
  moreover have "us_isSerializationEnabled u \<Longrightarrow> us_serializer (us_clear u) = []"
    by (simp add: us_clear_def setSerializationEnabled_def)
  moreover have "conn_view (us_storage u') = dump_view cts"
    using us.refill_view [OF assms(2-4), of us_read net cts u] assms(5) by simp
  ultimately show ?thesis
    using assms(2-5) by (auto simp: dump_view_find Conntrack_onUpdate_def Let_def)
qed

theorem conntrack_refill_copies_witness:
  "conn_view (us_storage (snd (snd (Conntrack_onUpdate us_read (us_callback sample_net) (Some [sample_ct])
     (Conntrack_init Conntrack_create, ConnectionUpdateSerializer_init))))) (sample_conn 1) = Some (query_traffic sample_ct, 3)"
proof -
  have "ct_isInitialized (Conntrack_init Conntrack_create)" "\<not> ct_isPaused (Conntrack_init Conntrack_create)"
    "ct_isRefillRequired (Conntrack_init Conntrack_create)"
    by (simp_all add: Conntrack_init_def)
  note w = conntrack_refill_copies [OF ck_init [OF ck_create [of sample_net]] this, of "[sample_ct]" _ _ _ "sample_conn 1"]
  show ?thesis
    by (cases "Conntrack_onUpdate us_read (us_callback sample_net) (Some [sample_ct])
          (Conntrack_init Conntrack_create, ConnectionUpdateSerializer_init)")
      (use w in \<open>simp add: sample_ct_conn sample_ct_state\<close>)
qed

text \<open>
  C14: the collector's work reaches the clients. Take any reachable state of collector and server in
  which no refill is due and nothing is waiting to be sent, and a client with the server's connections.
  After the collector has processed its events and a dump, replaying the server's items gives the
  client the server's connections again.
\<close>

theorem collector_replicates:
  assumes "inet_roundtrip net" and "ck_reach net k u" and "\<not> ct_isRefillRequired k"
    and "us_serializer u = []" and "us_isSerializationEnabled u"
    and "Conntrack_onUpdate us_read (us_callback net) dump (k, u) = (e, k', u')"
    and "list_reach net l" and "conn_view (m_storage l) = conn_view (us_storage u)"
  shows "fst (deserialize_all net (list_callback net) (us_serializer u') l) = Inr ()
    \<and> conn_view (m_storage (snd (deserialize_all net (list_callback net) (us_serializer u') l)))
      = conn_view (us_storage u')"
proof -
  have u: "us_reach net u" and q: "queue_ok u (ct_eventQueue k)" using ck_reach_ok [OF assms(2)] by simp_all
  note c = collect_onUpdate [OF u q assms(3,6)]
  have "tracks net (conn_view (us_storage u)) u'"
    using assms(1,4,5) u by (intro collected(2) [OF c] tracks_start)
  then show ?thesis using tracks_replay [OF assms(1) _ assms(7)] assms(8) by simp
qed

definition sample_live :: "Conntrack \<times> ConnectionUpdateSerializer" where
  "sample_live = snd (EventPollHandler (us_callback sample_net) True False [(NFCT_T_NEW, sample_ct)] EAGAIN
     (fst sample_refilled, setSerializationEnabled True (snd sample_refilled)))"

lemma sample_live_reach: "ck_reach sample_net (fst sample_live) (snd sample_live)"
proof (rule ck_events)
  show "ck_reach sample_net (fst sample_refilled) (setSerializationEnabled True (snd sample_refilled))"
    using sample_refilled_reach by (rule ck_enable)
  show "EventPollHandler (us_callback sample_net) True False [(NFCT_T_NEW, sample_ct)] EAGAIN
     (fst sample_refilled, setSerializationEnabled True (snd sample_refilled)) = (None, fst sample_live, snd sample_live)"
    by (simp add: sample_live_def EventPollHandler_def case_prod_beta Let_def)
qed

lemma sample_live_state:
  "ct_eventQueue (fst sample_live) = [(NEW_CONNECTION, sample_conn 1)]"
  "\<not> ct_isRefillRequired (fst sample_live)" "us_serializer (snd sample_live) = []"
  "us_isSerializationEnabled (snd sample_live)"
  "conn_view (us_storage (snd sample_live)) = conn_view (m_storage ConnectionList_init)"
  unfolding sample_live_def sample_refilled_def
  by (simp_all add: EventPollHandler_def EventCallback_def handleEvent_def sample_ct_def ExtractAddressPort_def
      extract_addresses_def extract_portType_def us_callback_def us_getAddress_eq us_getPort_eq setSerializationEnabled_def
      us_clear_def Conntrack_onUpdate_def Conntrack_init_def Conntrack_create_def ConnectionUpdateSerializer_init_def
      ntohs_def sample_conn_def Connection_create_def view_addPort view_storeAddress view_clear init_views view_init
      flip: storeAddress.simps)

theorem collector_replicates_witness:
  "ct_eventQueue (fst sample_live) = [(NEW_CONNECTION, sample_conn 1)]
    \<and> conn_view (m_storage (snd (deserialize_all sample_net (list_callback sample_net)
       (us_serializer (snd (snd (Conntrack_onUpdate us_read (us_callback sample_net) (Some [sample_ct]) sample_live))))
       ConnectionList_init)))
    = conn_view (us_storage (snd (snd (Conntrack_onUpdate us_read (us_callback sample_net) (Some [sample_ct]) sample_live))))"
proof -
  have "Conntrack_onUpdate us_read (us_callback sample_net) (Some [sample_ct]) (fst sample_live, snd sample_live) =
     (fst (Conntrack_onUpdate us_read (us_callback sample_net) (Some [sample_ct]) sample_live),
      fst (snd (Conntrack_onUpdate us_read (us_callback sample_net) (Some [sample_ct]) sample_live)),
      snd (snd (Conntrack_onUpdate us_read (us_callback sample_net) (Some [sample_ct]) sample_live)))"
    by simp
  from collector_replicates [OF sample_net_roundtrip sample_live_reach sample_live_state(2-4) this reach_init
      sample_live_state(5) [symmetric]]
  show ?thesis by (simp add: sample_live_state(1))
qed

end
