(* ===== verification/Protocol.thy ===== *)
theory Protocol
  imports ConntrackProps
begin

text \<open>
  The vocabulary of the client/server protocol (\<^verbatim>\<open>ClientServerProtocol.hpp\<close> and
  \<^verbatim>\<open>.cpp\<close>): message types and their names, disconnect reasons, session states, the
  documents of all messages, and \<^verbatim>\<open>MessageParserHandler\<close>, the stack machine that turns the
  events of RapidJSON's reader into a value. RapidJSON's writer, the command line and the platform are
  the fields of the argument \<open>app_env\<close>.
\<close>

section \<open>Enumerations and names\<close>

datatype EClientMsg = CM_UNKNOWN | CM_HELLO | CM_DISCONNECT | CM_REQUEST_DATA

datatype EServerMsg = SM_UNKNOWN | SM_BANNER | SM_HELLO | SM_DISCONNECT | SM_UPDATE_TICK | SM_DATA_STATUS | SM_DATA

datatype EDisconnectReason = DR_UNKNOWN | TIMEOUT | USER_DECISION | SERVER_QUIT | VERSION_MISMATCH
  | CONNECTION_LOST | PROTOCOL_ERROR | SOCKET_ERROR

datatype ESessionState = DISCONNECTED | CLOSING | OPENING | CONNECTED

definition m_clientMsgMap :: "(KString \<times> EClientMsg) list" where
  "m_clientMsgMap = [(''HELLO'', CM_HELLO), (''DISCONNECT'', CM_DISCONNECT), (''REQUEST_DATA'', CM_REQUEST_DATA)]"

definition m_serverMsgMap :: "(KString \<times> EServerMsg) list" where
  "m_serverMsgMap =
     [(''BANNER'', SM_BANNER), (''HELLO'', SM_HELLO), (''DISCONNECT'', SM_DISCONNECT),
      (''UPDATE_TICK'', SM_UPDATE_TICK), (''DATA_STATUS'', SM_DATA_STATUS), (''DATA'', SM_DATA)]"

definition m_disconnectReasonMap :: "(KString \<times> EDisconnectReason) list" where
  "m_disconnectReasonMap =
     [(''TIMEOUT'', TIMEOUT), (''USER_DECISION'', USER_DECISION), (''SERVER_QUIT'', SERVER_QUIT),
      (''VERSION_MISMATCH'', VERSION_MISMATCH), (''CONNECTION_LOST'', CONNECTION_LOST),
      (''PROTOCOL_ERROR'', PROTOCOL_ERROR), (''SOCKET_ERROR'', SOCKET_ERROR)]"

fun getClientMsgName :: "EClientMsg \<Rightarrow> KString" where
  "getClientMsgName CM_UNKNOWN = ''?''"
| "getClientMsgName CM_HELLO = ''HELLO''"
| "getClientMsgName CM_DISCONNECT = ''DISCONNECT''"
| "getClientMsgName CM_REQUEST_DATA = ''REQUEST_DATA''"

fun getServerMsgName :: "EServerMsg \<Rightarrow> KString" where
  "getServerMsgName SM_UNKNOWN = ''?''"
| "getServerMsgName SM_BANNER = ''BANNER''"
| "getServerMsgName SM_HELLO = ''HELLO''"
| "getServerMsgName SM_DISCONNECT = ''DISCONNECT''"
| "getServerMsgName SM_UPDATE_TICK = ''UPDATE_TICK''"
| "getServerMsgName SM_DATA_STATUS = ''DATA_STATUS''"
| "getServerMsgName SM_DATA = ''DATA''"

fun getDisconnectReasonName :: "EDisconnectReason \<Rightarrow> KString" where
  "getDisconnectReasonName DR_UNKNOWN = ''?''"
| "getDisconnectReasonName TIMEOUT = ''TIMEOUT''"
| "getDisconnectReasonName USER_DECISION = ''USER_DECISION''"
| "getDisconnectReasonName SERVER_QUIT = ''SERVER_QUIT''"
| "getDisconnectReasonName VERSION_MISMATCH = ''VERSION_MISMATCH''"
| "getDisconnectReasonName CONNECTION_LOST = ''CONNECTION_LOST''"
| "getDisconnectReasonName PROTOCOL_ERROR = ''PROTOCOL_ERROR''"
| "getDisconnectReasonName SOCKET_ERROR = ''SOCKET_ERROR''"

definition getClientMsgEnum :: "KString \<Rightarrow> EClientMsg" where
  "getClientMsgEnum msg = (case map_of m_clientMsgMap msg of Some e \<Rightarrow> e | None \<Rightarrow> CM_UNKNOWN)"

definition getServerMsgEnum :: "KString \<Rightarrow> EServerMsg" where
  "getServerMsgEnum msg = (case map_of m_serverMsgMap msg of Some e \<Rightarrow> e | None \<Rightarrow> SM_UNKNOWN)"

definition getDisconnectReasonEnum :: "KString \<Rightarrow> EDisconnectReason" where
  "getDisconnectReasonEnum reason = (case map_of m_disconnectReasonMap reason of Some e \<Rightarrow> e | None \<Rightarrow> DR_UNKNOWN)"

fun SessionStateToString :: "ESessionState \<Rightarrow> KString" where
  "SessionStateToString DISCONNECTED = ''DISCONNECTED''"
| "SessionStateToString CLOSING = ''CLOSING''"
| "SessionStateToString OPENING = ''OPENING''"
| "SessionStateToString CONNECTED = ''CONNECTED''"

section \<open>Messages\<close>

record app_env =
  env_write :: "json \<Rightarrow> string"
  env_systemName :: KString
  env_hostName :: string
  env_nameArg :: "KString option"
  env_version :: string

record 'e SerializedMessage =
  sm_msg :: string
  sm_type :: 'e

type_synonym SerializedClientMessage = "EClientMsg SerializedMessage"
type_synonym SerializedServerMessage = "EServerMsg SerializedMessage"

definition CreateMsgString :: "app_env \<Rightarrow> json \<Rightarrow> string" where
  "CreateMsgString env message = env_write env message @ [CHR 0x0A]"

definition VERSION :: int where
  "VERSION = 1"

definition instance_name :: "app_env \<Rightarrow> string" where
  "instance_name env = (case env_nameArg env of Some name \<Rightarrow> name | None \<Rightarrow> env_hostName env)"

text \<open>Each message is its document, written to a string, with its type.\<close>

definition clientDoc_HELLO :: "app_env \<Rightarrow> json" where
  "clientDoc_HELLO env = JObject [(''message'', JString (getClientMsgName CM_HELLO)), (''name'', JString (instance_name env)),
     (''version'', JString (env_version env)), (''platform'', JString (env_systemName env))]"

definition clientDoc_DISCONNECT :: "EDisconnectReason \<Rightarrow> json" where
  "clientDoc_DISCONNECT reason =
     JObject [(''message'', JString (getClientMsgName CM_DISCONNECT)), (''reason'', JString (getDisconnectReasonName reason))]"

definition clientDoc_REQUEST_DATA :: "flags \<Rightarrow> flags \<Rightarrow> json" where
  "clientDoc_REQUEST_DATA dataFlags dataUpdateFlags =
     JObject [(''message'', JString (getClientMsgName CM_REQUEST_DATA)), (''dataFlags'', JInt (sint dataFlags)),
       (''dataUpdateFlags'', JInt (sint dataUpdateFlags))]"

definition serverDoc_BANNER :: json where
  "serverDoc_BANNER = JObject [(''conntop_server'', JInt VERSION)]"

definition serverDoc_HELLO :: "app_env \<Rightarrow> json" where
  "serverDoc_HELLO env = JObject [(''message'', JString (getServerMsgName SM_HELLO)), (''name'', JString (instance_name env)),
     (''version'', JString (env_version env)), (''platform'', JString (env_systemName env))]"

definition serverDoc_DISCONNECT :: "EDisconnectReason \<Rightarrow> json" where
  "serverDoc_DISCONNECT reason =
     JObject [(''message'', JString (getServerMsgName SM_DISCONNECT)), (''reason'', JString (getDisconnectReasonName reason))]"

definition serverDoc_UPDATE_TICK :: "u32 \<Rightarrow> json" where
  "serverDoc_UPDATE_TICK timestamp =
     JObject [(''message'', JString (getServerMsgName SM_UPDATE_TICK)), (''timestamp'', JInt (uint timestamp))]"

definition serverDoc_DATA_STATUS :: "flags \<Rightarrow> flags \<Rightarrow> json" where
  "serverDoc_DATA_STATUS dataFlags dataUpdateFlags =
     JObject [(''message'', JString (getServerMsgName SM_DATA_STATUS)), (''dataFlags'', JInt (sint dataFlags)),
       (''dataUpdateFlags'', JInt (sint dataUpdateFlags))]"

definition serverDoc_DATA :: "flags \<Rightarrow> bool \<Rightarrow> json \<Rightarrow> json" where
  "serverDoc_DATA type isUpdate data =
     JObject [(''message'', JString (getServerMsgName SM_DATA)), (''type'', JInt (sint type)), (''isUpdate'', JBool isUpdate),
       (''data'', data)]"

definition clientMsg :: "app_env \<Rightarrow> EClientMsg \<Rightarrow> json \<Rightarrow> SerializedClientMessage" where
  "clientMsg env type doc = \<lparr>sm_msg = CreateMsgString env doc, sm_type = type\<rparr>"

definition serverMsg :: "app_env \<Rightarrow> EServerMsg \<Rightarrow> json \<Rightarrow> SerializedServerMessage" where
  "serverMsg env type doc = \<lparr>sm_msg = CreateMsgString env doc, sm_type = type\<rparr>"

definition createClientMsg_HELLO :: "app_env \<Rightarrow> SerializedClientMessage" where
  "createClientMsg_HELLO env = clientMsg env CM_HELLO (clientDoc_HELLO env)"

definition createClientMsg_DISCONNECT :: "app_env \<Rightarrow> EDisconnectReason \<Rightarrow> SerializedClientMessage" where
  "createClientMsg_DISCONNECT env reason = clientMsg env CM_DISCONNECT (clientDoc_DISCONNECT reason)"

definition createClientMsg_REQUEST_DATA :: "app_env \<Rightarrow> flags \<Rightarrow> flags \<Rightarrow> SerializedClientMessage" where
  "createClientMsg_REQUEST_DATA env dataFlags dataUpdateFlags =
     clientMsg env CM_REQUEST_DATA (clientDoc_REQUEST_DATA dataFlags dataUpdateFlags)"

definition createServerMsg_BANNER :: "app_env \<Rightarrow> SerializedServerMessage" where
  "createServerMsg_BANNER env = serverMsg env SM_BANNER serverDoc_BANNER"

definition createServerMsg_HELLO :: "app_env \<Rightarrow> SerializedServerMessage" where
  "createServerMsg_HELLO env = serverMsg env SM_HELLO (serverDoc_HELLO env)"

definition createServerMsg_DISCONNECT :: "app_env \<Rightarrow> EDisconnectReason \<Rightarrow> SerializedServerMessage" where
  "createServerMsg_DISCONNECT env reason = serverMsg env SM_DISCONNECT (serverDoc_DISCONNECT reason)"

definition createServerMsg_UPDATE_TICK :: "app_env \<Rightarrow> u32 \<Rightarrow> SerializedServerMessage" where
  "createServerMsg_UPDATE_TICK env timestamp = serverMsg env SM_UPDATE_TICK (serverDoc_UPDATE_TICK timestamp)"

definition createServerMsg_DATA_STATUS :: "app_env \<Rightarrow> flags \<Rightarrow> flags \<Rightarrow> SerializedServerMessage" where
  "createServerMsg_DATA_STATUS env dataFlags dataUpdateFlags =
     serverMsg env SM_DATA_STATUS (serverDoc_DATA_STATUS dataFlags dataUpdateFlags)"

definition createServerMsg_DATA :: "app_env \<Rightarrow> flags \<Rightarrow> bool \<Rightarrow> json \<Rightarrow> SerializedServerMessage" where
  "createServerMsg_DATA env type isUpdate data = serverMsg env SM_DATA (serverDoc_DATA type isUpdate data)"

definition EDataFlags_CONNECTION :: flags where
  "EDataFlags_CONNECTION = push_bit 0 1"

section \<open>The parser's stack machine\<close>

text \<open>The calls of RapidJSON's reader to its handler; keys are passed like strings.\<close>

datatype sax_event = Ev_Null | Ev_Bool bool | Ev_Int "32 word" | Ev_Uint u32 | Ev_Int64 "64 word" | Ev_Uint64 u64
  | Ev_Double string | Ev_RawNumber string | Ev_String string | Ev_StartObject | Ev_Key string | Ev_EndObject nat
  | Ev_StartArray | Ev_EndArray nat

type_synonym parser_stack = "json list"

fun json_key :: "json \<Rightarrow> string" where
  "json_key (JString s) = s"
| "json_key _ = []"

text \<open>The members popped by \<open>EndObject\<close>: names and values alternate on the stack, the last on top.\<close>

fun pop_members :: "nat \<Rightarrow> parser_stack \<Rightarrow> ((string \<times> json) list \<times> parser_stack) option" where
  "pop_members 0 st = Some ([], st)"
| "pop_members (Suc n) (v # k # st) = map_option (\<lambda>(ms, st'). (ms @ [(json_key k, v)], st')) (pop_members n st)"
| "pop_members (Suc n) _ = None"

text \<open>\<open>None\<close> is a read below the bottom of the stack.\<close>

fun handler_step :: "sax_event \<Rightarrow> parser_stack \<Rightarrow> parser_stack option" where
  "handler_step Ev_Null st = Some (JNull # st)"
| "handler_step (Ev_Bool b) st = Some (JBool b # st)"
| "handler_step (Ev_Int n) st = Some (JInt (sint n) # st)"
| "handler_step (Ev_Uint n) st = Some (JInt (uint n) # st)"
| "handler_step (Ev_Int64 n) st = Some (JInt (sint n) # st)"
| "handler_step (Ev_Uint64 n) st = Some (JInt (uint n) # st)"
| "handler_step (Ev_Double d) st = Some (JDouble d # st)"
| "handler_step (Ev_RawNumber s) st = Some (JString s # st)"
| "handler_step (Ev_String s) st = Some (JString s # st)"
| "handler_step Ev_StartObject st = Some (JObject [] # st)"
| "handler_step (Ev_Key s) st = Some (JString s # st)"
| "handler_step (Ev_EndObject memberCount) st =
     (case pop_members memberCount st of
        Some (ms, JObject os # st') \<Rightarrow> Some (JObject (os @ ms) # st')
      | _ \<Rightarrow> None)"
| "handler_step Ev_StartArray st = Some (JArray [] # st)"
| "handler_step (Ev_EndArray elementCount) st =
     (if elementCount \<le> length st
      then (case drop elementCount st of
              JArray es # st' \<Rightarrow> Some (JArray (es @ rev (take elementCount st)) # st')
            | _ \<Rightarrow> None)
      else None)"

fun handler_run :: "sax_event list \<Rightarrow> parser_stack \<Rightarrow> parser_stack option" where
  "handler_run [] st = Some st"
| "handler_run (e # es) st = (case handler_step e st of None \<Rightarrow> None | Some st' \<Rightarrow> handler_run es st')"

definition popLastValue :: "parser_stack \<Rightarrow> parser_stack" where
  "popLastValue st = tl st"

definition handler_get :: "parser_stack \<Rightarrow> json option" where
  "handler_get st = (case st of [v] \<Rightarrow> Some v | _ \<Rightarrow> None)"

definition handler_init :: "parser_stack \<Rightarrow> parser_stack" where
  "handler_init st = []"

text \<open>
  The documented calls for a value: a number in any representation that holds it, the values of an
  array or the keys and values of an object between their start and end, with their number.
\<close>

inductive emits :: "json \<Rightarrow> sax_event list \<Rightarrow> bool"
  and emits_elements :: "json list \<Rightarrow> sax_event list \<Rightarrow> bool"
  and emits_members :: "(string \<times> json) list \<Rightarrow> sax_event list \<Rightarrow> bool" where
  emits_Null: "emits JNull [Ev_Null]"
| emits_Bool: "emits (JBool b) [Ev_Bool b]"
| emits_Int: "emits (JInt (sint n)) [Ev_Int n]"
| emits_Uint: "emits (JInt (uint m)) [Ev_Uint m]"
| emits_Int64: "emits (JInt (sint n')) [Ev_Int64 n']"
| emits_Uint64: "emits (JInt (uint m')) [Ev_Uint64 m']"
| emits_Double: "emits (JDouble d) [Ev_Double d]"
| emits_String: "emits (JString t) [Ev_String t]"
| emits_Array: "emits_elements vs es \<Longrightarrow> emits (JArray vs) (Ev_StartArray # es @ [Ev_EndArray (length vs)])"
| emits_Object: "emits_members ms es \<Longrightarrow> emits (JObject ms) (Ev_StartObject # es @ [Ev_EndObject (length ms)])"
| elements_Nil: "emits_elements [] []"
| elements_snoc: "emits_elements vs es \<Longrightarrow> emits v es' \<Longrightarrow> emits_elements (vs @ [v]) (es @ es')"
| members_Nil: "emits_members [] []"
| members_snoc: "emits_members ms es \<Longrightarrow> emits v es' \<Longrightarrow> emits_members (ms @ [(k, v)]) (es @ Ev_Key k # es')"

lemma handler_run_append:
  "handler_run (es @ es') st = (case handler_run es st of None \<Rightarrow> None | Some st' \<Rightarrow> handler_run es' st')"
  by (induction es arbitrary: st) (simp_all split: option.split)

text \<open>Members as they lie on the stack.\<close>

definition member_stack :: "(string \<times> json) list \<Rightarrow> parser_stack" where
  "member_stack ms = concat (map (\<lambda>(k, v). [v, JString k]) (rev ms))"

lemma pop_member_stack: "pop_members (length ms) (member_stack ms @ st) = Some (ms, st)"
proof (induction ms rule: rev_induct)
  case (snoc m ms)
  obtain k v where "m = (k, v)" by (cases m)
  with snoc show ?case by (simp add: member_stack_def)
qed (simp add: member_stack_def)

lemma handler_builds:
  "emits v es \<Longrightarrow> \<forall>st. handler_run es st = Some (v # st)"
  "emits_elements vs es \<Longrightarrow> \<forall>st. handler_run es st = Some (rev vs @ st)"
  "emits_members ms es \<Longrightarrow> \<forall>st. handler_run es st = Some (member_stack ms @ st)"
proof (induction rule: emits_emits_elements_emits_members.inducts)
  case (emits_Array vs es)
  then show ?case by (simp add: handler_run_append)
next
  case (emits_Object ms es)
  then show ?case by (simp add: handler_run_append pop_member_stack)
qed (simp_all add: handler_run_append member_stack_def)

section \<open>Properties\<close>

text \<open>
  C31: the handler rebuilds every value. Fed with the reader's calls for a value, it leaves exactly that
  value on top of what was on the stack before, never reads below the stack, and \<open>get\<close> returns the
  value when the stack was empty.
\<close>

theorem parser_handler_builds_value:
  assumes "emits v es"
  shows "handler_run es st = Some (v # st)
    \<and> (case handler_run es [] of None \<Rightarrow> None | Some st' \<Rightarrow> handler_get st') = Some v"
  using handler_builds(1) [OF assms] by (simp add: handler_get_def)

theorem parser_handler_builds_value_witness:
  "handler_run [Ev_StartObject, Ev_Key ''a'', Ev_StartArray, Ev_Uint 7, Ev_EndArray 1, Ev_EndObject 1] []
     = Some [JObject [(''a'', JArray [JInt 7])]]"
proof -
  have "emits_elements ([] @ [JInt (uint (7 :: u32))]) ([] @ [Ev_Uint 7])"
    by (intro elements_snoc elements_Nil emits_Uint)
  from emits_Array [OF this] have "emits_members ([] @ [(''a'', JArray [JInt (uint (7 :: u32))])])
      ([] @ Ev_Key ''a'' # [Ev_StartArray, Ev_Uint 7, Ev_EndArray 1])"
    by (intro members_snoc members_Nil) simp
  from parser_handler_builds_value [OF emits_Object [OF this]] show ?thesis by simp
qed

text \<open>
  The names of messages and disconnect reasons are faithful: every proper value is recovered from
  its name, a name is recovered from a value other than "unknown", and all other names are "unknown".
\<close>

theorem protocol_names_roundtrip:
  "(cm \<noteq> CM_UNKNOWN \<longrightarrow> getClientMsgEnum (getClientMsgName cm) = cm)
    \<and> (sm \<noteq> SM_UNKNOWN \<longrightarrow> getServerMsgEnum (getServerMsgName sm) = sm)
    \<and> getDisconnectReasonEnum (getDisconnectReasonName dr) = dr
    \<and> (getClientMsgEnum s \<noteq> CM_UNKNOWN \<longrightarrow> getClientMsgName (getClientMsgEnum s) = s)
    \<and> (getServerMsgEnum s \<noteq> SM_UNKNOWN \<longrightarrow> getServerMsgName (getServerMsgEnum s) = s)
    \<and> (getDisconnectReasonEnum s \<noteq> DR_UNKNOWN \<longrightarrow> getDisconnectReasonName (getDisconnectReasonEnum s) = s)"
proof (intro conjI impI)
  show "getClientMsgEnum (getClientMsgName cm) = cm" if "cm \<noteq> CM_UNKNOWN"
    using that by (cases cm) (simp_all add: getClientMsgEnum_def m_clientMsgMap_def)
  show "getServerMsgEnum (getServerMsgName sm) = sm" if "sm \<noteq> SM_UNKNOWN"
    using that by (cases sm) (simp_all add: getServerMsgEnum_def m_serverMsgMap_def)
  show "getDisconnectReasonEnum (getDisconnectReasonName dr) = dr"
    by (cases dr) (simp_all add: getDisconnectReasonEnum_def m_disconnectReasonMap_def)
  show "getClientMsgName (getClientMsgEnum s) = s" if "getClientMsgEnum s \<noteq> CM_UNKNOWN"
    using that by (simp add: getClientMsgEnum_def m_clientMsgMap_def split: if_splits)
  show "getServerMsgName (getServerMsgEnum s) = s" if "getServerMsgEnum s \<noteq> SM_UNKNOWN"
    using that by (simp add: getServerMsgEnum_def m_serverMsgMap_def split: if_splits)
  show "getDisconnectReasonName (getDisconnectReasonEnum s) = s" if "getDisconnectReasonEnum s \<noteq> DR_UNKNOWN"
    using that by (simp add: getDisconnectReasonEnum_def m_disconnectReasonMap_def split: if_splits)
qed

theorem protocol_names_roundtrip_witness:
  "getServerMsgEnum (getServerMsgName SM_DATA_STATUS) = SM_DATA_STATUS
    \<and> getClientMsgName (getClientMsgEnum ''HELLO'') = ''HELLO''"
  using protocol_names_roundtrip [of CM_HELLO SM_DATA_STATUS TIMEOUT "''HELLO''"]
  by (simp add: getClientMsgEnum_def m_clientMsgMap_def)

end
