(* ===== verification/StreamReader.thy ===== *)
theory StreamReader
  imports Protocol
begin

text \<open>
  \<^verbatim>\<open>StreamSocketReader\<close> (\<^verbatim>\<open>SocketReaderWriter.hpp\<close>) and \<^verbatim>\<open>MessageParser\<close>
  (\<^verbatim>\<open>ClientServerProtocol.hpp\<close>): received bytes are collected in an array and handed to the
  parser, which drives RapidJSON's token-by-token reader and leaves an unfinished token to the next call.

  The array has its size; every access of the code shown here checks its index, and an access out of
  range is the outcome \<open>Out_of_bounds\<close>. A loop that does not return is \<open>None\<close>.
  RapidJSON is third-party code. Its token loop with the chunk mode that this repository adds
  (\<^verbatim>\<open>IterativeParseNext\<close>, \<^verbatim>\<open>Rollback\<close>) is translated; a single transition
  (\<^verbatim>\<open>Tokenize\<close>, \<^verbatim>\<open>Predict\<close> and \<^verbatim>\<open>Transit\<close>, which read one token and call
  the handler) is an argument, as are the kernel's answers and the callback for a finished message.
\<close>

datatype 'a access = Out_of_bounds | Ok 'a

definition Peek :: "string \<Rightarrow> nat \<Rightarrow> char access" where
  "Peek data pos = (if pos < length data then Ok (data ! pos) else Out_of_bounds)"

section \<open>RapidJSON's token loop\<close>

datatype IterativeParsingState = IterativeParsingFinishState | IterativeParsingErrorState | IterativeParsingStartState
  | IterativeParsingObjectInitialState | IterativeParsingMemberKeyState | IterativeParsingMemberValueState
  | IterativeParsingObjectFinishState | IterativeParsingArrayInitialState | IterativeParsingElementState
  | IterativeParsingArrayFinishState | IterativeParsingValueState | IterativeParsingElementDelimiterState
  | IterativeParsingMemberDelimiterState | IterativeParsingKeyValueDelimiterState

datatype ParseErrorCode = kParseErrorDocumentEmpty | kParseErrorDocumentRootNotSingular | kParseErrorValueInvalid
  | kParseErrorObjectMissName | kParseErrorObjectMissColon | kParseErrorObjectMissCommaOrCurlyBracket
  | kParseErrorArrayMissCommaOrSquareBracket | kParseErrorStringUnicodeEscapeInvalidHex
  | kParseErrorStringUnicodeSurrogateInvalid | kParseErrorStringEscapeInvalid | kParseErrorStringMissQuotationMark
  | kParseErrorStringInvalidEncoding | kParseErrorNumberTooBig | kParseErrorNumberMissFraction
  | kParseErrorNumberMissExponent | kParseErrorTermination | kParseErrorUnspecificSyntaxError

record GenericReader =
  rj_stack :: "nat list"
  rj_parseResult :: "ParseErrorCode option"
  rj_state :: IterativeParsingState
  rj_isLastValueInvalid :: bool
  rj_isLastValueNumber :: bool

definition GenericReader_create :: GenericReader where
  "GenericReader_create = \<lparr>rj_stack = [], rj_parseResult = None, rj_state = IterativeParsingStartState,
     rj_isLastValueInvalid = False, rj_isLastValueNumber = False\<rparr>"

definition IterativeParseInit :: "GenericReader \<Rightarrow> GenericReader" where
  "IterativeParseInit rd =
     rd\<lparr>rj_stack := [], rj_parseResult := None, rj_state := IterativeParsingStartState, rj_isLastValueInvalid := False\<rparr>"

definition IsIterativeParsingDelimiterState :: "IterativeParsingState \<Rightarrow> bool" where
  "IsIterativeParsingDelimiterState s \<longleftrightarrow>
     s \<in> {IterativeParsingElementDelimiterState, IterativeParsingMemberDelimiterState, IterativeParsingKeyValueDelimiterState}"

definition IsIterativeParsingCompleteState :: "IterativeParsingState \<Rightarrow> bool" where
  "IsIterativeParsingCompleteState s \<longleftrightarrow> s \<in> {IterativeParsingFinishState, IterativeParsingErrorState}"

definition IterativeParseComplete :: "GenericReader \<Rightarrow> bool" where
  "IterativeParseComplete rd = IsIterativeParsingCompleteState (rj_state rd)"

text \<open>The number on top of the stack counts the members or elements so far.\<close>

definition Rollback :: "IterativeParsingState \<Rightarrow> GenericReader \<Rightarrow> GenericReader" where
  "Rollback prevState rd =
     (let rd1 =
        (if prevState \<noteq> rj_state rd
         then (if rj_state rd \<in> {IterativeParsingMemberDelimiterState, IterativeParsingElementDelimiterState}
               then rd\<lparr>rj_stack := (case rj_stack rd of [] \<Rightarrow> [] | c # cs \<Rightarrow> (c - 1) # cs)\<rparr> else rd)\<lparr>rj_state := prevState\<rparr>
         else rd)
      in rd1\<lparr>rj_parseResult := None\<rparr>)"

fun state_error :: "IterativeParsingState \<Rightarrow> ParseErrorCode" where
  "state_error IterativeParsingStartState = kParseErrorDocumentEmpty"
| "state_error IterativeParsingFinishState = kParseErrorDocumentRootNotSingular"
| "state_error IterativeParsingObjectInitialState = kParseErrorObjectMissName"
| "state_error IterativeParsingMemberDelimiterState = kParseErrorObjectMissName"
| "state_error IterativeParsingMemberKeyState = kParseErrorObjectMissColon"
| "state_error IterativeParsingMemberValueState = kParseErrorObjectMissCommaOrCurlyBracket"
| "state_error IterativeParsingKeyValueDelimiterState = kParseErrorValueInvalid"
| "state_error IterativeParsingArrayInitialState = kParseErrorValueInvalid"
| "state_error IterativeParsingElementDelimiterState = kParseErrorValueInvalid"
| "state_error _ = kParseErrorArrayMissCommaOrSquareBracket"

definition HandleError :: "IterativeParsingState \<Rightarrow> GenericReader \<Rightarrow> GenericReader" where
  "HandleError src rd = (case rj_parseResult rd of Some _ \<Rightarrow> rd | None \<Rightarrow> rd\<lparr>rj_parseResult := Some (state_error src)\<rparr>)"

function SkipWhitespace :: "string \<Rightarrow> nat \<Rightarrow> nat access" where
  "SkipWhitespace data pos =
     (case Peek data pos of
        Out_of_bounds \<Rightarrow> Out_of_bounds
      | Ok c \<Rightarrow> if c \<in> {CHR 0x20, CHR 0x0A, CHR 0x0D, CHR 0x09} then SkipWhitespace data (pos + 1) else Ok pos)"
  by pat_completeness auto
termination
  by (relation "measure (\<lambda>(data, pos). length data - pos)") (auto simp: Peek_def split: if_splits)

declare SkipWhitespace.simps [simp del]

text \<open>
  One transition from a position of the stream: the predicted state, the state reached, the new position,
  and the reader and the handler's stack afterwards.
\<close>

type_synonym transition =
  "string \<Rightarrow> nat \<Rightarrow> GenericReader \<times> parser_stack \<Rightarrow>
     IterativeParsingState \<times> IterativeParsingState \<times> nat \<times> GenericReader \<times> parser_stack"

type_synonym next_result = "bool \<times> nat \<times> GenericReader \<times> parser_stack"

text \<open>After a transition: what \<open>IterativeParseNext\<close> returns, or \<open>None\<close> to go on after a delimiter.\<close>

definition after_transition ::
  "string \<Rightarrow> IterativeParsingState \<Rightarrow>
     IterativeParsingState \<times> IterativeParsingState \<times> nat \<times> GenericReader \<times> parser_stack \<Rightarrow>
     next_result option access" where
  "after_transition data prevState = (\<lambda>(n, d, pos, rd, st).
     let advance = (\<lambda>_. if IsIterativeParsingDelimiterState n then Ok None else Ok (Some (True, pos, rd\<lparr>rj_state := d\<rparr>, st)))
     in if IsIterativeParsingCompleteState d
        then if d = IterativeParsingErrorState
          then (case Peek data pos of
                  Out_of_bounds \<Rightarrow> Out_of_bounds
                | Ok c \<Rightarrow>
                    Ok (Some (False, pos, if c = CHR 0x00 then Rollback prevState rd else HandleError (rj_state rd) rd, st)))
          else Ok (Some (True, pos, rd\<lparr>rj_state := d\<rparr>, st))
        else if rj_isLastValueNumber rd
        then (case Peek data pos of
                Out_of_bounds \<Rightarrow> Out_of_bounds
              | Ok c \<Rightarrow>
                  if c = CHR 0x00
                  then Ok (Some (False, pos, (Rollback prevState rd)\<lparr>rj_isLastValueInvalid := True\<rparr>, st))
                  else advance ())
        else advance ())"

partial_function (option) next_loop ::
  "transition \<Rightarrow> string \<Rightarrow> IterativeParsingState \<Rightarrow> nat \<Rightarrow> GenericReader \<Rightarrow> parser_stack \<Rightarrow> next_result access option" where
  "next_loop T data prevState pos rd st =
     (case Peek data pos of
        Out_of_bounds \<Rightarrow> Some Out_of_bounds
      | Ok c \<Rightarrow>
          if c \<noteq> CHR 0x00
          then (case SkipWhitespace data pos of
                  Out_of_bounds \<Rightarrow> Some Out_of_bounds
                | Ok pos1 \<Rightarrow>
                    let t = T data pos1 (rd\<lparr>rj_isLastValueNumber := False\<rparr>, st)
                    in case after_transition data prevState t of
                         Out_of_bounds \<Rightarrow> Some Out_of_bounds
                       | Ok (Some r) \<Rightarrow> Some (Ok r)
                       | Ok None \<Rightarrow>
                           (case t of (n, d, pos2, rd2, st2) \<Rightarrow> next_loop T data prevState pos2 (rd2\<lparr>rj_state := d\<rparr>) st2))
          else if rj_state rd \<noteq> IterativeParsingFinishState then Some (Ok (False, pos, Rollback prevState rd, st))
          else Some (Ok (True, pos, rd, st)))"

definition IterativeParseNext ::
  "transition \<Rightarrow> string \<Rightarrow> nat \<Rightarrow> GenericReader \<Rightarrow> parser_stack \<Rightarrow> next_result access option" where
  "IterativeParseNext T data pos rd st =
     next_loop T data (rj_state rd) pos (rd\<lparr>rj_isLastValueInvalid := False\<rparr>) st"

section \<open>The message parser\<close>

datatype 'x parse_exception = JSON_PARSE_ERROR ParseErrorCode | MSG_TOKEN_TOO_BIG | MSG_DESERIALIZATION_FAILED
  | Callback_exception 'x

record 's MessageParser =
  mp_handler :: parser_stack
  mp_reader :: GenericReader
  mp_callback :: 's

definition MessageParser_create :: "'s \<Rightarrow> 's MessageParser" where
  "MessageParser_create callback = \<lparr>mp_handler = [], mp_reader = GenericReader_create, mp_callback = callback\<rparr>"

definition parser_init :: "'s MessageParser \<Rightarrow> 's MessageParser" where
  "parser_init p = p\<lparr>mp_handler := handler_init (mp_handler p), mp_reader := IterativeParseInit (mp_reader p)\<rparr>"

type_synonym ('x, 's) on_message = "json \<Rightarrow> 's \<Rightarrow> ('x + unit) \<times> 's"

type_synonym ('x, 's) doParse_result = "('x parse_exception + nat) \<times> nat \<times> 's MessageParser"

text \<open>The end of \<open>doParse\<close>, when the reader is complete. An exception of the callback leaves the reader complete.\<close>

definition finish_message :: "('x, 's) on_message \<Rightarrow> nat \<Rightarrow> nat \<Rightarrow> 's MessageParser \<Rightarrow> ('x, 's) doParse_result" where
  "finish_message onMessage parsedLength pos p =
     (case handler_get (mp_handler p) of
        None \<Rightarrow> (Inl MSG_DESERIALIZATION_FAILED, pos, parser_init p)
      | Some message \<Rightarrow>
          (case onMessage message (mp_callback p) of
             (Inl e, s) \<Rightarrow> (Inl (Callback_exception e), pos, p\<lparr>mp_callback := s\<rparr>)
           | (Inr _, s) \<Rightarrow> (Inr parsedLength, pos, parser_init (p\<lparr>mp_callback := s\<rparr>))))"

text \<open>When \<open>IterativeParseNext\<close> has returned false.\<close>

definition stop_parsing :: "nat \<Rightarrow> nat \<Rightarrow> 's MessageParser \<Rightarrow> ('x, 's) doParse_result" where
  "stop_parsing parsedLength pos p =
     (case rj_parseResult (mp_reader p) of
        Some errorCode \<Rightarrow> (Inl (JSON_PARSE_ERROR errorCode), pos, parser_init p)
      | None \<Rightarrow>
          (Inr parsedLength, pos,
           if rj_isLastValueInvalid (mp_reader p) then p\<lparr>mp_handler := popLastValue (mp_handler p)\<rparr> else p))"

partial_function (option) doParse ::
  "transition \<Rightarrow> ('x, 's) on_message \<Rightarrow> string \<Rightarrow> nat \<Rightarrow> nat \<Rightarrow> 's MessageParser \<Rightarrow> ('x, 's) doParse_result access option" where
  "doParse T onMessage data parsedLength pos p =
     (if IterativeParseComplete (mp_reader p) then Some (Ok (finish_message onMessage parsedLength pos p))
      else
        case IterativeParseNext T data pos (mp_reader p) (mp_handler p) of
          None \<Rightarrow> None
        | Some Out_of_bounds \<Rightarrow> Some Out_of_bounds
        | Some (Ok (isToken, pos', rd, st)) \<Rightarrow>
            let p' = p\<lparr>mp_reader := rd, mp_handler := st\<rparr>
            in if isToken then doParse T onMessage data pos' pos' p'
               else Some (Ok (stop_parsing parsedLength pos' p')))"

partial_function (option) parse_loop ::
  "transition \<Rightarrow> ('x, 's) on_message \<Rightarrow> string \<Rightarrow> nat \<Rightarrow> nat \<Rightarrow> nat \<Rightarrow> 's MessageParser \<Rightarrow>
     (('x parse_exception + nat) \<times> 's MessageParser) access option" where
  "parse_loop T onMessage data len pos parsedLength p =
     (if pos < len
      then (case Peek data pos of
              Out_of_bounds \<Rightarrow> Some Out_of_bounds
            | Ok c \<Rightarrow>
                if c = CHR 0x00 then parse_loop T onMessage data len (pos + 1) (pos + 1) p
                else (case doParse T onMessage data pos pos p of
                        None \<Rightarrow> None
                      | Some Out_of_bounds \<Rightarrow> Some Out_of_bounds
                      | Some (Ok (Inl e, pos', p')) \<Rightarrow> Some (Ok (Inl e, p'))
                      | Some (Ok (Inr parsed, pos', p')) \<Rightarrow> parse_loop T onMessage data len pos' parsed p'))
      else Some (Ok (Inr parsedLength, p)))"

definition parse ::
  "transition \<Rightarrow> ('x, 's) on_message \<Rightarrow> string \<Rightarrow> nat \<Rightarrow> nat \<Rightarrow> 's MessageParser \<Rightarrow>
     (('x parse_exception + nat) \<times> 's MessageParser) access option" where
  "parse T onMessage data len bufferSize p =
     (case parse_loop T onMessage data len 0 0 p of
        Some (Ok (Inr parsedLength, p')) \<Rightarrow>
          if parsedLength = 0 \<and> len \<ge> bufferSize - 1 then Some (Ok (Inl MSG_TOKEN_TOO_BIG, parser_init p'))
          else Some (Ok (Inr parsedLength, p'))
      | r \<Rightarrow> r)"

section \<open>The reader\<close>

record StreamSocketReader =
  r_buffer :: string
  r_bufferPos :: nat
  r_bufferSize :: nat

definition StreamSocketReader_create :: "nat \<Rightarrow> StreamSocketReader" where
  "StreamSocketReader_create bufferSize =
     \<lparr>r_buffer = replicate bufferSize (CHR 0x00), r_bufferPos = 0, r_bufferSize = bufferSize\<rparr>"

text \<open>Subtraction of \<open>size_t\<close> and the accesses to the array.\<close>

definition size_minus :: "nat \<Rightarrow> nat \<Rightarrow> nat" where
  "size_minus a b = (if b \<le> a then a - b else 2 ^ 64 + a - b)"

definition write_bytes :: "nat \<Rightarrow> string \<Rightarrow> string \<Rightarrow> string access" where
  "write_bytes pos bytes buffer =
     (if pos + length bytes \<le> length buffer then Ok (take pos buffer @ bytes @ drop (pos + length bytes) buffer)
      else Out_of_bounds)"

definition memmove_front :: "nat \<Rightarrow> nat \<Rightarrow> string \<Rightarrow> string access" where
  "memmove_front from n buffer =
     (if from + n \<le> length buffer then Ok (take n (drop from buffer) @ drop n buffer) else Out_of_bounds)"

text \<open>\<open>Received True\<close> is the report of a lost connection.\<close>

datatype 'x receive_result = Received bool | Receive_failed string | Parse_failed "'x parse_exception"

definition after_parse ::
  "nat \<Rightarrow> StreamSocketReader \<Rightarrow> ('x parse_exception + nat) \<times> 's MessageParser \<Rightarrow>
     ('x receive_result \<times> StreamSocketReader \<times> 's MessageParser) access" where
  "after_parse dataLength rd = (\<lambda>(r, p).
     case r of
       Inl e \<Rightarrow> Ok (Parse_failed e, rd, p)
     | Inr parsedLength \<Rightarrow>
         if parsedLength < dataLength
         then let chunkLength = dataLength - parsedLength
              in case memmove_front parsedLength chunkLength (r_buffer rd) of
                   Out_of_bounds \<Rightarrow> Out_of_bounds
                 | Ok buffer \<Rightarrow> Ok (Received False, rd\<lparr>r_buffer := buffer, r_bufferPos := chunkLength\<rparr>, p)
         else Ok (Received False, rd\<lparr>r_bufferPos := 0\<rparr>, p))"

text \<open>The kernel returns an error, or as many of the waiting bytes as it is asked for.\<close>

definition doReceive ::
  "transition \<Rightarrow> ('x, 's) on_message \<Rightarrow> string + string \<Rightarrow> StreamSocketReader \<times> 's MessageParser \<Rightarrow>
     ('x receive_result \<times> StreamSocketReader \<times> 's MessageParser) access option" where
  "doReceive T onMessage received = (\<lambda>(rd, p).
     case received of
       Inl e \<Rightarrow> Some (Ok (Receive_failed e, rd, p))
     | Inr waiting \<Rightarrow>
         let bytes = take (size_minus (size_minus (r_bufferSize rd) (r_bufferPos rd)) 1) waiting
         in case write_bytes (r_bufferPos rd) bytes (r_buffer rd) of
              Out_of_bounds \<Rightarrow> Some Out_of_bounds
            | Ok buffer1 \<Rightarrow>
                if bytes = [] then Some (Ok (Received True, rd, p))
                else
                  let dataLength = length bytes + r_bufferPos rd
                  in case write_bytes dataLength [CHR 0x00] buffer1 of
                       Out_of_bounds \<Rightarrow> Some Out_of_bounds
                     | Ok buffer \<Rightarrow>
                         (case parse T onMessage buffer dataLength (r_bufferSize rd) p of
                            None \<Rightarrow> None
                          | Some Out_of_bounds \<Rightarrow> Some Out_of_bounds
                          | Some (Ok r) \<Rightarrow> Some (after_parse dataLength (rd\<lparr>r_buffer := buffer\<rparr>) r)))"

section \<open>The loops return\<close>

text \<open>There is no NUL between two positions.\<close>

definition nul_free :: "string \<Rightarrow> nat \<Rightarrow> nat \<Rightarrow> bool" where
  "nul_free data i j \<longleftrightarrow> i \<le> j \<and> (\<forall>m. i \<le> m \<and> m < j \<longrightarrow> data ! m \<noteq> CHR 0x00)"

text \<open>
  What RapidJSON's transitions promise on a stream that ends with a NUL: they read up to the NUL at most,
  and a transition that does not fail has consumed its token.
\<close>

definition transition_ok :: "transition \<Rightarrow> bool" where
  "transition_ok T \<longleftrightarrow>
     (\<forall>data pos x n d pos' x'. T data pos x = (n, d, pos', x') \<and> (\<exists>k. pos \<le> k \<and> k < length data \<and> data ! k = CHR 0x00) \<longrightarrow>
        nul_free data pos pos' \<and> (d \<noteq> IterativeParsingErrorState \<longrightarrow> pos < pos'))"

lemma nul_free_refl [simp]: "nul_free data i i"
  by (auto simp: nul_free_def)

lemma nul_free_trans: "nul_free data i j \<Longrightarrow> nul_free data j k \<Longrightarrow> nul_free data i k"
  unfolding nul_free_def by (meson le_trans not_le)

lemma nul_free_before: "nul_free data i j \<Longrightarrow> i \<le> k \<Longrightarrow> data ! k = CHR 0x00 \<Longrightarrow> j \<le> k"
  unfolding nul_free_def by (meson not_le)

lemma nul_free_leD: "nul_free data i j \<Longrightarrow> i \<le> j"
  by (simp add: nul_free_def)

lemma Peek_Ok [simp]: "pos < length data \<Longrightarrow> Peek data pos = Ok (data ! pos)"
  by (simp add: Peek_def)

lemma SkipWhitespace_stops:
  "pos \<le> k \<Longrightarrow> k < length data \<Longrightarrow> data ! k = CHR 0x00 \<Longrightarrow>
    \<exists>pos'. SkipWhitespace data pos = Ok pos' \<and> nul_free data pos pos'"
proof (induction data pos rule: SkipWhitespace.induct)
  case (1 data pos)
  show ?case
  proof (cases "data ! pos \<in> {CHR 0x20, CHR 0x0A, CHR 0x0D, CHR 0x09}")
    case True
    with 1(2-4) have "pos \<noteq> k" by auto
    with 1(1) [of "data ! pos"] True 1(2-4) obtain pos' where s: "SkipWhitespace data (pos + 1) = Ok pos'" "nul_free data (pos + 1) pos'"
      by auto
    have "nul_free data pos (pos + 1)" using True by (auto simp: nul_free_def less_Suc_eq_le)
    from nul_free_trans [OF this s(2)] s(1) True 1(2,3) show ?thesis by (subst SkipWhitespace.simps) auto
  next
    case False
    with 1(2,3) show ?thesis by (subst SkipWhitespace.simps) auto
  qed
qed

lemma rollback_fields [simp]: "rj_parseResult (Rollback prev rd) = None"
  by (simp add: Rollback_def Let_def)

lemma HandleError_fails [simp]: "rj_parseResult (HandleError src rd) \<noteq> None"
  by (simp add: HandleError_def split: option.split)

text \<open>What a token of the reader does to the stream.\<close>

definition token_read :: "string \<Rightarrow> nat \<Rightarrow> next_result \<Rightarrow> bool" where
  "token_read data pos = (\<lambda>(isToken, pos', rd, st).
     nul_free data pos pos' \<and> (isToken \<longrightarrow> pos < pos') \<and> (\<not> isToken \<and> rj_parseResult rd = None \<longrightarrow> data ! pos' = CHR 0x00))"

lemma after_transition_reads:
  assumes "t = (n, d, pos', rd', st')" and "nul_free data pos pos'" and "d \<noteq> IterativeParsingErrorState \<longrightarrow> pos < pos'"
    and "pos' < length data"
  shows "(\<exists>r. after_transition data prev t = Ok (Some r) \<and> token_read data pos r)
    \<or> (after_transition data prev t = Ok None \<and> pos < pos' \<and> \<not> IsIterativeParsingCompleteState d)"
  using assms
  by (auto simp: after_transition_def token_read_def Let_def IsIterativeParsingCompleteState_def)

lemma next_loop_returns:
  assumes "transition_ok T" and "k < length data" and "data ! k = CHR 0x00"
  shows "pos \<le> k \<Longrightarrow> rj_state rd \<noteq> IterativeParsingFinishState \<Longrightarrow>
    \<exists>r. next_loop T data prev pos rd st = Some (Ok r) \<and> token_read data pos r"
proof (induction "k - pos" arbitrary: pos rd st rule: less_induct)
  case less
  show ?case
  proof (cases "data ! pos = CHR 0x00")
    case True
    with less.prems assms(2) show ?thesis by (subst next_loop.simps) (simp add: token_read_def)
  next
    case False
    obtain pos1 where s: "SkipWhitespace data pos = Ok pos1" "nul_free data pos pos1"
      using SkipWhitespace_stops [OF less.prems(1) assms(2,3)] by blast
    obtain n d pos2 rd2 st2 where t: "T data pos1 (rd\<lparr>rj_isLastValueNumber := False\<rparr>, st) = (n, d, pos2, rd2, st2)"
      by (cases "T data pos1 (rd\<lparr>rj_isLastValueNumber := False\<rparr>, st)")
    have p1: "pos1 \<le> k" using nul_free_before [OF s(2) less.prems(1) assms(3)] .
    have t1: "nul_free data pos1 pos2" "d \<noteq> IterativeParsingErrorState \<longrightarrow> pos1 < pos2"
      using assms t p1 unfolding transition_ok_def by blast+
    have p2: "pos2 \<le> k" using nul_free_before [OF t1(1) p1 assms(3)] .
    have t2: "nul_free data pos pos2" "d \<noteq> IterativeParsingErrorState \<longrightarrow> pos < pos2"
      using nul_free_trans [OF s(2) t1(1)] t1(2) nul_free_leD [OF s(2)] by auto
    consider r where "after_transition data prev (n, d, pos2, rd2, st2) = Ok (Some r)" "token_read data pos r"
      | "after_transition data prev (n, d, pos2, rd2, st2) = Ok None" "pos < pos2" "d \<noteq> IterativeParsingFinishState"
      using after_transition_reads [OF refl t2, of prev n rd2 st2] p2 assms(2) by (auto simp: IsIterativeParsingCompleteState_def)
    then show ?thesis
    proof cases
      case 1
      with False less.prems assms(2) s(1) t show ?thesis by (subst next_loop.simps) simp
    next
      case 2
      with p2 have "k - pos2 < k - pos" by linarith
      with less.hyps [of pos2 "rd2\<lparr>rj_state := d\<rparr>" st2] p2 2(3) obtain r
        where r: "next_loop T data prev pos2 (rd2\<lparr>rj_state := d\<rparr>) st2 = Some (Ok r)" "token_read data pos2 r" by auto
      have "token_read data pos r"
        using r(2) nul_free_trans [OF t2(1)] 2(2) by (auto simp: token_read_def)
      with 2 r(1) False less.prems assms(2) s(1) t show ?thesis by (subst next_loop.simps) simp
    qed
  qed
qed

lemma IterativeParseNext_returns:
  assumes "transition_ok T" and "k < length data" and "data ! k = CHR 0x00" and "pos \<le> k"
    and "\<not> IterativeParseComplete rd"
  obtains b pos' rd' st' where "IterativeParseNext T data pos rd st = Some (Ok (b, pos', rd', st'))"
    "token_read data pos (b, pos', rd', st')"
  using next_loop_returns [OF assms(1-4), of "rd\<lparr>rj_isLastValueInvalid := False\<rparr>" "rj_state rd" st] assms(5)
  by (auto simp: IterativeParseNext_def IterativeParseComplete_def IsIterativeParsingCompleteState_def)

lemma parser_init_incomplete: "\<not> IterativeParseComplete (mp_reader (parser_init p))"
  by (simp add: parser_init_def IterativeParseInit_def IterativeParseComplete_def IsIterativeParsingCompleteState_def)

text \<open>
  \<open>doParse\<close> returns. If it does not throw it has advanced, or it was called with a complete reader
  and leaves one that is not.
\<close>

definition parse_step :: "string \<Rightarrow> nat \<Rightarrow> 's MessageParser \<Rightarrow> ('x, 's) doParse_result \<Rightarrow> bool" where
  "parse_step data pos p = (\<lambda>(r, pos', p').
     nul_free data pos pos' \<and>
     (\<forall>n. r = Inr n \<longrightarrow> n \<le> pos' \<and>
        (pos < pos' \<or> data ! pos' = CHR 0x00
         \<or> IterativeParseComplete (mp_reader p) \<and> \<not> IterativeParseComplete (mp_reader p'))))"

lemma finish_message_step:
  "parsed \<le> pos \<Longrightarrow> IterativeParseComplete (mp_reader p) \<Longrightarrow> parse_step data pos p (finish_message onMessage parsed pos p)"
  by (auto simp: finish_message_def parse_step_def parser_init_incomplete split: option.splits sum.splits prod.splits)

lemma doParse_returns:
  assumes "transition_ok T" and "k < length data" and "data ! k = CHR 0x00"
  shows "pos \<le> k \<Longrightarrow> parsed \<le> pos \<Longrightarrow>
    \<exists>r. doParse T onMessage data parsed pos p = Some (Ok r) \<and> parse_step data pos p r"
proof (induction "k - pos" arbitrary: pos parsed p rule: less_induct)
  case less
  show ?case
  proof (cases "IterativeParseComplete (mp_reader p)")
    case True
    with less.prems show ?thesis by (subst doParse.simps) (simp add: finish_message_step)
  next
    case False
    obtain b pos' rd st where nx: "IterativeParseNext T data pos (mp_reader p) (mp_handler p) = Some (Ok (b, pos', rd, st))"
      and t: "token_read data pos (b, pos', rd, st)"
      using IterativeParseNext_returns [OF assms less.prems(1) False] by blast
    let ?p = "p\<lparr>mp_reader := rd, mp_handler := st\<rparr>"
    show ?thesis
    proof (cases b)
      case True
      with t have t1: "nul_free data pos pos'" "pos < pos'" by (simp_all add: token_read_def)
      have p': "pos' \<le> k" using nul_free_before [OF t1(1) less.prems(1) assms(3)] .
      with t1(2) have "k - pos' < k - pos" by linarith
      with less.hyps [of pos' pos' ?p] p' obtain r
        where r: "doParse T onMessage data pos' pos' ?p = Some (Ok r)" "parse_step data pos' ?p r" by auto
      have "parse_step data pos p r"
        using r(2) t1 nul_free_trans [OF t1(1)] nul_free_leD by (fastforce simp: parse_step_def)
      with True False nx r(1) show ?thesis by (subst doParse.simps) simp
    next
      case no: False
      have "parse_step data pos p (stop_parsing parsed pos' ?p)"
        using t no less.prems(2) nul_free_leD
        by (fastforce simp: token_read_def stop_parsing_def parse_step_def split: option.split)
      with False no nx show ?thesis by (subst doParse.simps) simp
    qed
  qed
qed

lemma parse_loop_returns:
  assumes "transition_ok T" and "len < length data" and "data ! len = CHR 0x00"
  shows "pos \<le> len \<Longrightarrow> parsed \<le> len \<Longrightarrow>
    \<exists>r p'. parse_loop T onMessage data len pos parsed p = Some (Ok (r, p')) \<and> (\<forall>n. r = Inr n \<longrightarrow> n \<le> len)"
proof (induction "2 * (len - pos) + (if IterativeParseComplete (mp_reader p) then 1 else 0)"
    arbitrary: pos parsed p rule: less_induct)
  case less
  consider "pos = len" | "pos < len" "data ! pos = CHR 0x00" | "pos < len" "data ! pos \<noteq> CHR 0x00"
    using less.prems(1) by fastforce
  then show ?case
  proof cases
    case 1
    with less.prems show ?thesis by (subst parse_loop.simps) simp
  next
    case 2
    with less.hyps [of "pos + 1" p "pos + 1"] assms(2) show ?thesis by (subst parse_loop.simps) simp
  next
    case 3
    obtain r pos' p' where d: "doParse T onMessage data pos pos p = Some (Ok (r, pos', p'))"
      and s: "parse_step data pos p (r, pos', p')"
      using doParse_returns [OF assms less.prems(1) order_refl, of onMessage p] by (metis prod_cases3)
    show ?thesis
    proof (cases r)
      case (Inl e)
      with 3 d assms(2) show ?thesis by (subst parse_loop.simps) simp
    next
      case (Inr n)
      have f: "nul_free data pos pos'" using s by (simp add: parse_step_def)
      have p': "pos' \<le> len" using nul_free_before [OF f less.prems(1) assms(3)] .
      have "pos < pos' \<or> IterativeParseComplete (mp_reader p) \<and> \<not> IterativeParseComplete (mp_reader p')"
        using s Inr 3(2) nul_free_leD [OF f] by (auto simp: parse_step_def)
      then have "2 * (len - pos') + (if IterativeParseComplete (mp_reader p') then 1 else 0)
          < 2 * (len - pos) + (if IterativeParseComplete (mp_reader p) then 1 else (0 :: nat))"
        using nul_free_leD [OF f] p' 3(1) by auto
      moreover have "n \<le> len" using s Inr p' by (auto simp: parse_step_def)
      ultimately have "\<exists>r p''. parse_loop T onMessage data len pos' n p' = Some (Ok (r, p'')) \<and> (\<forall>n. r = Inr n \<longrightarrow> n \<le> len)"
        using less.hyps [of pos' p' n] p' by blast
      with 3 d Inr assms(2) show ?thesis by (subst parse_loop.simps) simp
    qed
  qed
qed

lemma parse_returns:
  assumes "transition_ok T" and "len < length data" and "data ! len = CHR 0x00"
  obtains r p' where "parse T onMessage data len sz p = Some (Ok (r, p'))"
    "\<And>n. r = Inr n \<Longrightarrow> n \<le> len \<and> (n = 0 \<longrightarrow> len < sz - 1)"
proof -
  obtain r p' where l: "parse_loop T onMessage data len 0 0 p = Some (Ok (r, p'))" "\<And>n. r = Inr n \<Longrightarrow> n \<le> len"
    using parse_loop_returns [OF assms, of 0 0 onMessage p] by auto
  have "\<exists>r p'. parse T onMessage data len sz p = Some (Ok (r, p'))
      \<and> (\<forall>n. r = Inr n \<longrightarrow> n \<le> len \<and> (n = 0 \<longrightarrow> len < sz - 1))"
    using l by (cases r) (auto simp: parse_def)
  then show thesis using that by blast
qed

section \<open>Properties\<close>

text \<open>The array has its size and there is room for at least one more byte and the terminating NUL.\<close>

definition reader_ok :: "StreamSocketReader \<Rightarrow> bool" where
  "reader_ok rd \<longleftrightarrow> length (r_buffer rd) = r_bufferSize rd \<and> r_bufferPos rd < r_bufferSize rd - 1"

definition buffered :: "StreamSocketReader \<Rightarrow> string" where
  "buffered rd = take (r_bufferPos rd) (r_buffer rd)"

lemma reader_ok_create: "1 < bufferSize \<Longrightarrow> reader_ok (StreamSocketReader_create bufferSize)"
  by (simp add: reader_ok_def StreamSocketReader_create_def)

text \<open>What is received is written behind the kept bytes and terminated, inside the array.\<close>

lemma receive_writes:
  assumes "reader_ok rd" and "length bytes \<le> r_bufferSize rd - r_bufferPos rd - 1"
  defines "data \<equiv> buffered rd @ bytes"
  defines "buffer \<equiv> data @ CHR 0x00 # drop (length data + 1) (r_buffer rd)"
  shows "\<exists>b. write_bytes (r_bufferPos rd) bytes (r_buffer rd) = Ok b \<and> write_bytes (length bytes + r_bufferPos rd) [CHR 0x00] b = Ok buffer"
    and "length data = length bytes + r_bufferPos rd" and "length buffer = r_bufferSize rd" and "length data < length buffer"
proof -
  have len: "length (buffered rd) = r_bufferPos rd" "r_bufferPos rd + length bytes + 1 \<le> length (r_buffer rd)"
    "length (r_buffer rd) = r_bufferSize rd"
    using assms(1,2) by (auto simp: reader_ok_def buffered_def)
  then show "length data = length bytes + r_bufferPos rd" and "length buffer = r_bufferSize rd" and "length data < length buffer"
    by (simp_all add: data_def buffer_def)
  let ?b = "buffered rd @ bytes @ drop (r_bufferPos rd + length bytes) (r_buffer rd)"
  have "write_bytes (r_bufferPos rd) bytes (r_buffer rd) = Ok ?b" using len by (simp add: write_bytes_def buffered_def)
  moreover have "write_bytes (length bytes + r_bufferPos rd) [CHR 0x00] ?b = Ok buffer"
    using len by (simp add: write_bytes_def data_def buffer_def)
  ultimately show "\<exists>b. write_bytes (r_bufferPos rd) bytes (r_buffer rd) = Ok b
    \<and> write_bytes (length bytes + r_bufferPos rd) [CHR 0x00] b = Ok buffer" by blast
qed

text \<open>What the parser leaves is moved to the front, inside the array, and leaves room.\<close>

lemma after_parse_keeps:
  assumes "reader_ok rd" and "length buffer = r_bufferSize rd" and "length data < length buffer"
    and "buffer = data @ CHR 0x00 # rest" and "n \<le> length data" and "n = 0 \<longrightarrow> length data < r_bufferSize rd - 1"
  obtains rd' where "after_parse (length data) (rd\<lparr>r_buffer := buffer\<rparr>) (Inr n, p) = Ok (Received False, rd', p)"
    "reader_ok rd'" "r_bufferSize rd' = r_bufferSize rd" "buffered rd' = drop n data"
proof (cases "n < length data")
  case True
  let ?rd = "rd\<lparr>r_buffer := take (length data - n) (drop n buffer) @ drop (length data - n) buffer, r_bufferPos := length data - n\<rparr>"
  have "after_parse (length data) (rd\<lparr>r_buffer := buffer\<rparr>) (Inr n, p) = Ok (Received False, ?rd, p)"
    using True assms(3) by (simp add: after_parse_def memmove_front_def Let_def)
  moreover have "length data - n < r_bufferSize rd - 1" using assms(2,3,6) True by (cases "n = 0") linarith+
  then have "reader_ok ?rd" using assms(1-3) True by (auto simp: reader_ok_def)
  moreover have "buffered ?rd = drop n data" using True assms(4) by (simp add: buffered_def)
  ultimately show thesis using that by fastforce
next
  case False
  with assms that [of "rd\<lparr>r_buffer := buffer, r_bufferPos := 0\<rparr>"] show thesis
    by (auto simp: after_parse_def reader_ok_def buffered_def)
qed

text \<open>
  C30: the reader stays inside its array, always returns, loses no byte and is never full. Whatever
  bytes wait in the socket and whatever the state of the parser: no access is out of bounds and
  receiving ends with a result. A lost connection is reported exactly when nothing waits. Otherwise the
  parser is given the bytes kept before followed by as many of the waiting ones as fit before the NUL, and
  exactly what lies behind the length it reports as parsed is kept; after a
  parser's exception the old length stays. Afterwards there is again room for at least one byte, so the
  next \<open>receive\<close> never asks for zero bytes, which would be mistaken for a lost connection. RapidJSON is
  taken to consume a character with every token and to read no further than the terminating NUL.
\<close>

theorem reader_never_full:
  fixes rd bytes
  defines "data \<equiv> buffered rd @ take (r_bufferSize rd - r_bufferPos rd - 1) bytes"
  defines "buffer \<equiv> data @ CHR 0x00 # drop (length data + 1) (r_buffer rd)"
  assumes "transition_ok T" and "reader_ok rd"
  shows "\<exists>r rd' p'. doReceive T onMessage (Inr bytes) (rd, p) = Some (Ok (r, rd', p'))
    \<and> reader_ok rd' \<and> r_bufferSize rd' = r_bufferSize rd
    \<and> (if bytes = [] then r = Received True \<and> rd' = rd \<and> p' = p
       else (\<exists>n \<le> length data. parse T onMessage buffer (length data) (r_bufferSize rd) p = Some (Ok (Inr n, p'))
               \<and> r = Received False \<and> buffered rd' = drop n data)
         \<or> (\<exists>e. parse T onMessage buffer (length data) (r_bufferSize rd) p = Some (Ok (Inl e, p'))
               \<and> r = Parse_failed e \<and> r_bufferPos rd' = r_bufferPos rd))"
proof -
  define new where "new = take (r_bufferSize rd - r_bufferPos rd - 1) bytes"
  have "size_minus (size_minus (r_bufferSize rd) (r_bufferPos rd)) 1 = r_bufferSize rd - r_bufferPos rd - 1"
    using assms(4) by (auto simp: size_minus_def reader_ok_def)
  then have asked: "take (size_minus (size_minus (r_bufferSize rd) (r_bufferPos rd)) 1) bytes = new" by (simp add: new_def)
  have new: "length new \<le> r_bufferSize rd - r_bufferPos rd - 1" "new = [] \<longleftrightarrow> bytes = []"
    using assms(4) by (auto simp: new_def reader_ok_def)
  have data: "buffered rd @ new = data" by (simp add: data_def new_def)
  note w = receive_writes [OF assms(4) new(1), unfolded data, folded buffer_def]
  obtain b where b: "write_bytes (r_bufferPos rd) new (r_buffer rd) = Ok b"
    "write_bytes (length new + r_bufferPos rd) [CHR 0x00] b = Ok buffer" using w(1) by blast
  show ?thesis
  proof (cases "bytes = []")
    case True
    with b(1) new(2) assms(4) show ?thesis by (simp add: doReceive_def asked Let_def del: One_nat_def)
  next
    case False
    have "buffer ! length data = CHR 0x00" by (simp add: buffer_def)
    then obtain r p' where ps: "parse T onMessage buffer (length data) (r_bufferSize rd) p = Some (Ok (r, p'))"
      and n: "\<And>n. r = Inr n \<Longrightarrow> n \<le> length data \<and> (n = 0 \<longrightarrow> length data < r_bufferSize rd - 1)"
      using parse_returns [OF assms(3) w(4)] by blast
    have rec: "doReceive T onMessage (Inr bytes) (rd, p) = Some (after_parse (length data) (rd\<lparr>r_buffer := buffer\<rparr>) (r, p'))"
      using False b new(2) ps w(2) by (simp add: doReceive_def asked Let_def del: One_nat_def)
    show ?thesis
    proof (cases r)
      case (Inl e)
      with rec ps False w(3) assms(4) show ?thesis by (auto simp: after_parse_def reader_ok_def)
    next
      case (Inr k)
      with n have k: "k \<le> length data" "k = 0 \<longrightarrow> length data < r_bufferSize rd - 1" by blast+
      with after_parse_keeps [OF assms(4) w(3,4) meta_eq_to_obj_eq [OF buffer_def]] Inr rec ps False show ?thesis
        by metis
    qed
  qed
qed

text \<open>A reader of one-character values.\<close>

definition sample_transition :: transition where
  "sample_transition data pos = (\<lambda>(rd, st).
     if Peek data pos = Ok (CHR 0x00) then (IterativeParsingValueState, IterativeParsingErrorState, pos, rd, st)
     else (IterativeParsingValueState, IterativeParsingFinishState, pos + 1, rd, JNull # st))"

definition sample_onMessage :: "(unit, nat) on_message" where
  "sample_onMessage message n = (Inr (), n + 1)"

theorem reader_never_full_witness:
  "\<exists>r rd' p'. doReceive sample_transition sample_onMessage (Inr ''ab'') (StreamSocketReader_create 4096, MessageParser_create 0)
      = Some (Ok (r, rd', p'))
    \<and> reader_ok rd' \<and> r_bufferSize rd' = 4096"
proof -
  have "transition_ok sample_transition"
    by (auto simp: transition_ok_def sample_transition_def nul_free_def Peek_def less_Suc_eq split: if_splits)
  from reader_never_full [OF this reader_ok_create [of 4096], of sample_onMessage "''ab''" "MessageParser_create 0"]
  show ?thesis by (auto simp: StreamSocketReader_create_def)
qed

end
