(* ===== verification/SocketRW.thy ===== *)
theory SocketRW
  imports Protocol
begin

text \<open>
  \<^verbatim>\<open>SocketReaderWriter.hpp\<close>: the writer that sends one message at a time over a non-blocking
  socket. What the kernel answers is an argument of every call.

  A shared message is read through a pointer into the text of a message owned by somebody else. Such a
  text has a version that changes whenever its owner assigns it; a pointer is the place together with
  the version, and sending through a pointer whose version is no longer current is a read of freed
  memory, which is the outcome \<open>Send_undefined\<close>.
\<close>

section \<open>The writer\<close>

datatype send_result = Sent nat | Send_failed string

datatype EMessageType = MT_NONE | MT_OWN | MT_SHARED | MT_BUFFERED

record 'r StreamSocketWriter =
  w_msgType :: EMessageType
  w_place :: "('r \<times> nat) option"
  w_data :: string
  w_dataPos :: nat

definition StreamSocketWriter_init :: "'r StreamSocketWriter" where
  "StreamSocketWriter_init = \<lparr>w_msgType = MT_NONE, w_place = None, w_data = [], w_dataPos = 0\<rparr>"

definition isSending :: "'r StreamSocketWriter \<Rightarrow> bool" where
  "isSending w = (w_msgType w \<noteq> MT_NONE)"

definition writer_stop :: "'r StreamSocketWriter \<Rightarrow> bool \<times> 'r StreamSocketWriter" where
  "writer_stop w =
     (case w_msgType w of
        MT_NONE \<Rightarrow> (True, w)
      | MT_OWN \<Rightarrow>
          (if w_dataPos w \<noteq> 0 then (False, w) else (True, w\<lparr>w_msgType := MT_NONE\<rparr>))
      | MT_SHARED \<Rightarrow>
          (if w_dataPos w \<noteq> 0
           then (False, w\<lparr>w_data := drop (w_dataPos w) (w_data w), w_dataPos := 0, w_place := None,
                         w_msgType := MT_BUFFERED\<rparr>)
           else (True, w\<lparr>w_msgType := MT_NONE\<rparr>))
      | MT_BUFFERED \<Rightarrow> (False, w))"

definition writer_send :: "string \<Rightarrow> 'r StreamSocketWriter \<Rightarrow> bool \<times> 'r StreamSocketWriter" where
  "writer_send msg w =
     (if isSending w then (False, w)
      else (True, w\<lparr>w_data := msg, w_dataPos := 0, w_place := None, w_msgType := MT_OWN\<rparr>))"

definition writer_sendShared :: "'r \<times> nat \<Rightarrow> string \<Rightarrow> 'r StreamSocketWriter \<Rightarrow> bool \<times> 'r StreamSocketWriter" where
  "writer_sendShared place msg w =
     (if isSending w then (False, w)
      else (True, w\<lparr>w_data := msg, w_dataPos := 0, w_place := Some place, w_msgType := MT_SHARED\<rparr>))"

datatype doSend_result = Send_done | Send_pending | Send_error string | Send_undefined

text \<open>
  \<open>current\<close> gives the version of each shared message. The kernel accepts at most the bytes it is
  given; they are the second component of the result.
\<close>

definition doSend ::
  "('r \<Rightarrow> nat) \<Rightarrow> send_result \<Rightarrow> 'r StreamSocketWriter \<Rightarrow> doSend_result \<times> string \<times> 'r StreamSocketWriter" where
  "doSend current res w =
     (if \<not> isSending w then (Send_done, [], w)
      else if (case w_place w of Some (r, v) \<Rightarrow> current r \<noteq> v | None \<Rightarrow> False) then (Send_undefined, [], w)
      else
        case res of
          Send_failed e \<Rightarrow> (Send_error e, [], w)
        | Sent len0 \<Rightarrow>
            let len = min len0 (length (w_data w) - w_dataPos w);
                out = take len (drop (w_dataPos w) (w_data w)); w1 = w\<lparr>w_dataPos := w_dataPos w + len\<rparr>
            in if w_dataPos w1 \<ge> length (w_data w1) then (Send_done, out, w1\<lparr>w_msgType := MT_NONE\<rparr>)
               else (Send_pending, out, w1))"

text \<open>The bytes of the current message that are still to be sent.\<close>

definition writer_pending :: "'r StreamSocketWriter \<Rightarrow> string" where
  "writer_pending w = (if isSending w then drop (w_dataPos w) (w_data w) else [])"

text \<open>The pointer is used by a shared message only, and the position is inside the message.\<close>

definition writer_ok :: "'r StreamSocketWriter \<Rightarrow> bool" where
  "writer_ok w \<longleftrightarrow>
     (isSending w \<longrightarrow> (w_place w \<noteq> None \<longleftrightarrow> w_msgType w = MT_SHARED) \<and> w_dataPos w \<le> length (w_data w))"

text \<open>No pointer to a freed text.\<close>

definition writer_fresh :: "('r \<Rightarrow> nat) \<Rightarrow> 'r StreamSocketWriter \<Rightarrow> bool" where
  "writer_fresh current w \<longleftrightarrow> (isSending w \<longrightarrow> (\<forall>r v. w_place w = Some (r, v) \<longrightarrow> current r = v))"

lemma writer_ok_init: "writer_ok StreamSocketWriter_init" "\<not> isSending StreamSocketWriter_init"
  by (simp_all add: writer_ok_def isSending_def StreamSocketWriter_init_def)

lemma doSend_bytes:
  assumes "writer_ok w" and "writer_fresh current w" and "doSend current res w = (r, out, w')"
  shows "out @ writer_pending w' = writer_pending w" and "writer_ok w'" and "writer_fresh current w'"
    and "r \<noteq> Send_undefined" and "r = Send_done \<longleftrightarrow> \<not> isSending w'"
    and "res = Sent n \<Longrightarrow> r = Send_done \<longleftrightarrow> writer_pending w' = []"
proof -
  have fresh: "isSending w \<Longrightarrow> \<not> (case w_place w of Some (r, v) \<Rightarrow> current r \<noteq> v | None \<Rightarrow> False)"
    using assms(2) by (auto simp: writer_fresh_def split: option.split)
  have d: "take k (drop m ys) @ drop (m + k) ys = drop m ys" for ys :: string and m k
    by (metis add.commute append_take_drop_id drop_drop)
  show "out @ writer_pending w' = writer_pending w" and "writer_ok w'" and "writer_fresh current w'"
    and "r \<noteq> Send_undefined" and "r = Send_done \<longleftrightarrow> \<not> isSending w'"
    and "res = Sent n \<Longrightarrow> r = Send_done \<longleftrightarrow> writer_pending w' = []"
    using assms fresh d [where m = "w_dataPos w" and ys = "w_data w"]
    by (auto simp: doSend_def writer_pending_def isSending_def writer_ok_def writer_fresh_def Let_def
        split: if_splits send_result.splits)
qed

section \<open>Properties\<close>



end
