(* ===== verification/ServerSess.thy ===== *)
theory ServerSess
  imports SocketRW
begin

text \<open>
  \<^verbatim>\<open>ServerSession\<close> (\<^verbatim>\<open>ClientServerProtocol.hpp\<close> and \<^verbatim>\<open>.cpp\<close>): the server's
  end of a session. A session and the state \<open>'s\<close> of the object behind the callback interface are
  passed along as a pair. \<open>ss_pollOutput\<close> says whether the poll system was last told to wait for
  output too; a connected socket is always registered for input. Parsed messages arrive as documents.
\<close>

section \<open>State\<close>

text \<open>The messages of the server that sessions refer to instead of owning them.\<close>

datatype shared_msg = CachedBanner | CachedHello | CachedUpdateTick | SerializedConnections
  | SerializedConnectionUpdates

text \<open>Their current versions and contents.\<close>

type_synonym shared_store = "shared_msg \<Rightarrow> nat \<times> SerializedServerMessage"

datatype queued_msg = Own SerializedServerMessage | Shared shared_msg

record ServerSession =
  ss_isConnected :: bool
  ss_pollOutput :: bool
  ss_socketWriter :: "shared_msg StreamSocketWriter"
  ss_sendQueue :: "queued_msg list"
  ss_state :: ESessionState
  ss_isSendingData :: bool
  ss_sessionTTL :: int
  ss_dataFlags :: flags
  ss_dataUpdateFlags :: flags
  ss_clientName :: string
  ss_clientVersion :: string
  ss_clientPlatformName :: string
  ss_disconnectReason :: EDisconnectReason
  ss_disconnectError :: string

record 's IServerSessionCallback =
  scb_onSessionEstablished :: "ServerSession \<times> 's \<Rightarrow> ServerSession \<times> 's"
  scb_onSessionDisconnect :: "ServerSession \<times> 's \<Rightarrow> ServerSession \<times> 's"
  scb_onSessionDataRequest :: "flags \<Rightarrow> flags \<Rightarrow> ServerSession \<times> 's \<Rightarrow> ServerSession \<times> 's"

section \<open>Sending\<close>

definition ss_sendMessage :: "SerializedServerMessage \<Rightarrow> ServerSession \<Rightarrow> ServerSession" where
  "ss_sendMessage msg ss =
     (let ss1 = (if ss_sendQueue ss = [] then ss\<lparr>ss_pollOutput := True\<rparr> else ss)
      in ss1\<lparr>ss_sendQueue := ss_sendQueue ss1 @ [Own msg]\<rparr>)"

definition ss_sendSharedMessage :: "shared_msg \<Rightarrow> ServerSession \<Rightarrow> ServerSession" where
  "ss_sendSharedMessage msg ss =
     (let ss1 = (if ss_sendQueue ss = [] then ss\<lparr>ss_pollOutput := True\<rparr> else ss)
      in ss1\<lparr>ss_sendQueue := ss_sendQueue ss1 @ [Shared msg]\<rparr>)"

definition ServerSession_create :: "bool \<Rightarrow> ServerSession" where
  "ServerSession_create isConnected =
     (let ss = \<lparr>ss_isConnected = isConnected, ss_pollOutput = False, ss_socketWriter = StreamSocketWriter_init,
                ss_sendQueue = [], ss_state = DISCONNECTED, ss_isSendingData = False, ss_sessionTTL = 0,
                ss_dataFlags = 0, ss_dataUpdateFlags = 0, ss_clientName = [], ss_clientVersion = [],
                ss_clientPlatformName = [], ss_disconnectReason = DR_UNKNOWN, ss_disconnectError = []\<rparr>
      in if isConnected then ss_sendSharedMessage CachedBanner (ss\<lparr>ss_state := OPENING\<rparr>) else ss)"

definition ss_quickDisconnect ::
  "'s IServerSessionCallback \<Rightarrow> EDisconnectReason \<Rightarrow> string \<Rightarrow> ServerSession \<times> 's \<Rightarrow> ServerSession \<times> 's" where
  "ss_quickDisconnect cb reason error = (\<lambda>(ss, s).
     scb_onSessionDisconnect cb
       (ss\<lparr>ss_isConnected := False, ss_state := DISCONNECTED, ss_isSendingData := False, ss_sendQueue := [],
           ss_disconnectReason := reason, ss_disconnectError := error\<rparr>, s))"

definition sendDataStatus :: "app_env \<Rightarrow> flags \<Rightarrow> flags \<Rightarrow> ServerSession \<Rightarrow> ServerSession" where
  "sendDataStatus env dataFlags dataUpdateFlags ss =
     (if ss_state ss = CONNECTED
      then ss_sendMessage (createServerMsg_DATA_STATUS env dataFlags dataUpdateFlags)
             (ss\<lparr>ss_dataFlags := dataFlags, ss_dataUpdateFlags := dataUpdateFlags\<rparr>)
      else ss)"

definition sendData :: "shared_msg \<Rightarrow> ServerSession \<Rightarrow> ServerSession" where
  "sendData dataMsg ss = (if ss_state ss = CONNECTED then ss_sendSharedMessage dataMsg ss else ss)"

section \<open>Messages\<close>

text \<open>The cases of \<open>onMessage\<close>; an exception leaves the session as it is.\<close>

type_synonym 's sess = "ServerSession \<times> 's"

definition ss_onHello :: "'s IServerSessionCallback \<Rightarrow> json \<Rightarrow> 's sess \<Rightarrow> unit result \<times> 's sess" where
  "ss_onHello cb message = (\<lambda>(ss, s).
     if ss_state ss \<noteq> OPENING then (Inl (invalid_argument ''Unexpected HELLO message''), ss, s)
     else
       case result_bind (get_string message ''name'' ''Missing client name'' ''Invalid client name value type'') (\<lambda>name.
            result_bind (get_string message ''version'' ''Missing client version'' ''Invalid client version value type'') (\<lambda>version.
            result_bind (get_string message ''platform'' ''Missing client platform name''
              ''Invalid client platform name value type'') (\<lambda>platform. Inr (name, version, platform)))) of
         Inl e \<Rightarrow> (Inl e, ss, s)
       | Inr (name, version, platform) \<Rightarrow>
           (Inr (), scb_onSessionEstablished cb
             ((ss_sendSharedMessage CachedHello (ss\<lparr>ss_clientName := name, ss_clientVersion := version,
                 ss_clientPlatformName := platform\<rparr>))\<lparr>ss_state := CONNECTED\<rparr>, s)))"

definition ss_onDisconnect :: "'s IServerSessionCallback \<Rightarrow> json \<Rightarrow> 's sess \<Rightarrow> unit result \<times> 's sess" where
  "ss_onDisconnect cb message = (\<lambda>(ss, s).
     case get_string message ''reason'' ''Missing disconnect reason'' ''Invalid disconnect reason value type'' of
       Inl e \<Rightarrow> (Inl e, ss, s)
     | Inr reasonName \<Rightarrow>
         let reason = getDisconnectReasonEnum reasonName
         in (Inr (), ss_quickDisconnect cb reason (if reason = DR_UNKNOWN then reasonName else []) (ss, s)))"

definition ss_onRequestData :: "'s IServerSessionCallback \<Rightarrow> json \<Rightarrow> 's sess \<Rightarrow> unit result \<times> 's sess" where
  "ss_onRequestData cb message = (\<lambda>(ss, s).
     if ss_state ss = CLOSING then (Inr (), ss, s)
     else if ss_state ss \<noteq> CONNECTED then (Inl (invalid_argument ''Unexpected REQUEST_DATA message''), ss, s)
     else
       case result_bind (get_int message ''dataFlags'' ''Missing data status type''
              ''Invalid data status type value type'') (\<lambda>dataFlags.
            result_bind (get_int message ''dataUpdateFlags'' ''Missing data status update''
              ''Invalid data status update value type'') (\<lambda>dataUpdateFlags. Inr (dataFlags, dataUpdateFlags))) of
         Inl e \<Rightarrow> (Inl e, ss, s)
       | Inr (dataFlags, dataUpdateFlags) \<Rightarrow>
           (Inr (), scb_onSessionDataRequest cb (of_int dataFlags) (of_int dataUpdateFlags) (ss, s)))"

definition ss_onMessage :: "'s IServerSessionCallback \<Rightarrow> json \<Rightarrow> 's sess \<Rightarrow> unit result \<times> 's sess" where
  "ss_onMessage cb message x =
     (if \<not> IsObject message then (Inl (invalid_argument ''Invalid message''), x)
      else
        case get_string message ''message'' ''Missing message type'' ''Invalid message type value type'' of
          Inl e \<Rightarrow> (Inl e, x)
        | Inr name \<Rightarrow>
            (case getClientMsgEnum name of
               CM_UNKNOWN \<Rightarrow> (Inl (invalid_argument (''Unknown message '' @ [CHR 0x27] @ name @ [CHR 0x27])), x)
             | CM_HELLO \<Rightarrow> ss_onHello cb message x
             | CM_DISCONNECT \<Rightarrow> ss_onDisconnect cb message x
             | CM_REQUEST_DATA \<Rightarrow> ss_onRequestData cb message x))"

section \<open>Time and shutdown\<close>

definition ss_onUpdate :: "'s IServerSessionCallback \<Rightarrow> 's sess \<Rightarrow> 's sess" where
  "ss_onUpdate cb = (\<lambda>(ss, s).
     let ss1 = ss\<lparr>ss_dataFlags := 0, ss_dataUpdateFlags := 0\<rparr>
     in if ss_state ss1 = CONNECTED then (ss_sendSharedMessage CachedUpdateTick ss1, s)
        else if ss_state ss1 = CLOSING
        then (if ss_sessionTTL ss1 > 0 then (ss1\<lparr>ss_sessionTTL := ss_sessionTTL ss1 - 1\<rparr>, s)
              else ss_quickDisconnect cb TIMEOUT [] (ss1, s))
        else (ss1, s))"

definition ss_disconnect :: "app_env \<Rightarrow> 's IServerSessionCallback \<Rightarrow> 's sess \<Rightarrow> 's sess" where
  "ss_disconnect env cb = (\<lambda>(ss, s).
     if ss_state ss = CONNECTED
     then (ss_sendMessage (createServerMsg_DISCONNECT env SERVER_QUIT)
             (ss\<lparr>ss_state := CLOSING, ss_sessionTTL := 4, ss_disconnectReason := SERVER_QUIT,
                 ss_disconnectError := []\<rparr>), s)
     else if ss_state ss = OPENING then ss_quickDisconnect cb SERVER_QUIT [] (ss, s)
     else (ss, s))"

definition queued_type :: "shared_store \<Rightarrow> queued_msg \<Rightarrow> EServerMsg" where
  "queued_type store q = (case q of Own m \<Rightarrow> sm_type m | Shared r \<Rightarrow> sm_type (snd (store r)))"

definition queued_text :: "shared_store \<Rightarrow> queued_msg \<Rightarrow> string" where
  "queued_text store q = (case q of Own m \<Rightarrow> sm_msg m | Shared r \<Rightarrow> sm_msg (snd (store r)))"

definition stopSendingData :: "shared_store \<Rightarrow> ServerSession \<Rightarrow> bool \<times> ServerSession" where
  "stopSendingData store ss =
     (let wasQueued = list_ex (\<lambda>q. queued_type store q = SM_DATA) (ss_sendQueue ss);
          ss1 = ss\<lparr>ss_sendQueue := filter (\<lambda>q. queued_type store q \<noteq> SM_DATA) (ss_sendQueue ss)\<rparr>;
          (status, ss2, was) =
            (if ss_isSendingData ss1
             then let (status, w) = writer_stop (ss_socketWriter ss1)
                  in (status, ss1\<lparr>ss_socketWriter := w, ss_isSendingData := False\<rparr>, True)
             else (True, ss1, wasQueued))
      in (status, if was then ss2\<lparr>ss_dataFlags := 0, ss_dataUpdateFlags := 0\<rparr> else ss2))"

section \<open>Socket events\<close>

text \<open>
  What arrives on readable input: an error, the end of the connection, or documents, possibly followed
  by an error of the parser.
\<close>

datatype input = Input_error string | Input_lost | Input_docs "json list" "string option"

fun ss_onMessages :: "'s IServerSessionCallback \<Rightarrow> json list \<Rightarrow> 's sess \<Rightarrow> unit result \<times> 's sess" where
  "ss_onMessages cb [] x = (Inr (), x)"
| "ss_onMessages cb (d # ds) x =
     (case ss_onMessage cb d x of (Inl e, x') \<Rightarrow> (Inl e, x') | (Inr _, x') \<Rightarrow> ss_onMessages cb ds x')"

definition what :: "exception \<Rightarrow> string" where
  "what e = (case e of invalid_argument m \<Rightarrow> m | assertion_failed \<Rightarrow> [] | undefined_behaviour \<Rightarrow> [] | Exception m \<Rightarrow> m)"

definition ss_handleInput :: "'s IServerSessionCallback \<Rightarrow> input \<Rightarrow> 's sess \<Rightarrow> 's sess" where
  "ss_handleInput cb inp x =
     (case inp of
        Input_error e \<Rightarrow> ss_quickDisconnect cb SOCKET_ERROR (''Unable to receive data: '' @ e) x
      | Input_lost \<Rightarrow>
          (if ss_state (fst x) = CLOSING then ss_quickDisconnect cb (ss_disconnectReason (fst x)) [] x
           else ss_quickDisconnect cb CONNECTION_LOST [] x)
      | Input_docs docs err \<Rightarrow>
          (case ss_onMessages cb docs x of
             (Inl e, x') \<Rightarrow> ss_quickDisconnect cb PROTOCOL_ERROR (what e) x'
           | (Inr _, x') \<Rightarrow>
               (case err of None \<Rightarrow> x' | Some e \<Rightarrow> ss_quickDisconnect cb PROTOCOL_ERROR e x')))"

definition next_result :: "send_result list \<Rightarrow> send_result" where
  "next_result rs = (case rs of [] \<Rightarrow> Sent 0 | r # _ \<Rightarrow> r)"

definition load_message ::
  "shared_store \<Rightarrow> queued_msg \<Rightarrow> shared_msg StreamSocketWriter \<Rightarrow> shared_msg StreamSocketWriter" where
  "load_message store q w =
     (case q of
        Own m \<Rightarrow> snd (writer_send (sm_msg m) w)
      | Shared r \<Rightarrow> snd (writer_sendShared (r, fst (store r)) (sm_msg (snd (store r))) w))"

text \<open>
  The sending loop over the queue; a result of the kernel is used up by each actual \<open>send\<close>. The
  outcome is the bytes sent, the remaining queue, the writer, the flag \<open>m_isSendingData\<close>, and how
  the last \<open>doSend\<close> ended.
\<close>

fun send_loop ::
  "shared_store \<Rightarrow> send_result list \<Rightarrow> queued_msg list \<Rightarrow> shared_msg StreamSocketWriter \<Rightarrow> bool \<Rightarrow>
     doSend_result \<times> string \<times> queued_msg list \<times> shared_msg StreamSocketWriter \<times> bool" where
  "send_loop store rs [] w isData =
     (case doSend (fst \<circ> store) (next_result rs) w of
        (Send_done, out, w') \<Rightarrow> (Send_done, out, [], w', False)
      | (r, out, w') \<Rightarrow> (r, out, [], w', isData))"
| "send_loop store rs (q # qs) w isData =
     (case doSend (fst \<circ> store) (next_result rs) w of
        (Send_done, out, w') \<Rightarrow>
          (let (r, out', rest) = send_loop store (if isSending w then tl rs else rs) qs (load_message store q w')
                 (queued_type store q = SM_DATA)
           in (r, out @ out', rest))
      | (r, out, w') \<Rightarrow> (r, out, q # qs, w', isData))"

definition ss_handleOutput ::
  "'s IServerSessionCallback \<Rightarrow> shared_store \<Rightarrow> send_result list \<Rightarrow> 's sess \<Rightarrow> unit result \<times> string \<times> 's sess" where
  "ss_handleOutput cb store rs = (\<lambda>(ss, s).
     case send_loop store rs (ss_sendQueue ss) (ss_socketWriter ss) (ss_isSendingData ss) of
       (r, out, q, w, isData) \<Rightarrow>
         let ss1 = ss\<lparr>ss_sendQueue := q, ss_socketWriter := w, ss_isSendingData := isData\<rparr>
         in case r of
              Send_error e \<Rightarrow> (Inr (), out, ss_quickDisconnect cb SOCKET_ERROR (''Unable to send data: '' @ e) (ss1, s))
            | Send_undefined \<Rightarrow> (Inl undefined_behaviour, out, ss1, s)
            | _ \<Rightarrow> (Inr (), out, ss1, s))"

text \<open>\<open>inp\<close> and \<open>rs\<close> are present when the poll flags contain \<open>INPUT\<close> and \<open>OUTPUT\<close>.\<close>

definition ss_SocketPollHandler ::
  "'s IServerSessionCallback \<Rightarrow> shared_store \<Rightarrow> input option \<Rightarrow> send_result list option \<Rightarrow> bool \<Rightarrow> 's sess \<Rightarrow>
     unit result \<times> string \<times> 's sess" where
  "ss_SocketPollHandler cb store inp rs isError x =
     (let x1 = (case inp of None \<Rightarrow> x | Some i \<Rightarrow> ss_handleInput cb i x);
          (res, out, x2) =
            (case rs of
               None \<Rightarrow> (Inr (), [], x1)
             | Some r \<Rightarrow> if ss_state (fst x1) \<noteq> DISCONNECTED then ss_handleOutput cb store r x1 else (Inr (), [], x1))
      in case res of
           Inl e \<Rightarrow> (Inl e, out, x2)
         | Inr _ \<Rightarrow>
             let x3 = (if isError \<and> ss_state (fst x2) \<noteq> DISCONNECTED
                       then ss_quickDisconnect cb SOCKET_ERROR ''Socket poll failed'' x2 else x2)
             in (Inr (), out,
                 if ss_isConnected (fst x3)
                 then ((fst x3)\<lparr>ss_pollOutput := (ss_sendQueue (fst x3) \<noteq> [])\<rparr>, snd x3) else x3))"

end
