(* ===== verification/ServerModel.thy ===== *)
theory ServerModel
  imports ServerSess
begin

text \<open>
  \<^verbatim>\<open>Server\<close> and \<^verbatim>\<open>ServerContext\<close> (\<^verbatim>\<open>Server.hpp\<close>, \<^verbatim>\<open>Server.cpp\<close>,
  \<^verbatim>\<open>ClientServerProtocol.hpp\<close>): the sessions of all clients, the messages they share, and the
  periodic update that lets the collector work and sends the data. The collector is an argument: what
  it does to the update serializer. Log messages are recorded in \<open>sv_log\<close>. The poll system and the
  parser of a session hold pointers to it; \<open>sv_clientsMoved\<close> counts the sessions at the front of
  the deque whose pointers an \<open>erase\<close> from its inner part has invalidated. Sessions accepted later
  are behind them.
\<close>

datatype server_log = Log_connected string | Log_disconnected string string

record Server =
  sv_timestamp :: u32
  sv_store :: shared_store
  sv_clients :: "ServerSession list"
  sv_availableDataFlags :: flags
  sv_updateSerializer :: ConnectionUpdateSerializer
  sv_log :: "server_log list"
  sv_clientsMoved :: nat

text \<open>Assigning or clearing a shared message invalidates the pointers into its old text.\<close>

definition store_assign :: "shared_msg \<Rightarrow> SerializedServerMessage \<Rightarrow> shared_store \<Rightarrow> shared_store" where
  "store_assign r msg store = store(r := (Suc (fst (store r)), msg))"

definition emptyMsg :: SerializedServerMessage where
  "emptyMsg = \<lparr>sm_msg = [], sm_type = SM_UNKNOWN\<rparr>"

definition ServerContext_create :: "app_env \<Rightarrow> u32 \<times> shared_store" where
  "ServerContext_create env =
     (0, (\<lambda>_. (0, emptyMsg))
        (CachedBanner := (0, createServerMsg_BANNER env), CachedHello := (0, createServerMsg_HELLO env),
         CachedUpdateTick := (0, createServerMsg_UPDATE_TICK env 0)))"

definition ServerContext_onUpdate :: "app_env \<Rightarrow> Server \<Rightarrow> Server" where
  "ServerContext_onUpdate env sv =
     (let t = sv_timestamp sv + 1
      in sv\<lparr>sv_timestamp := t,
            sv_store := store_assign CachedUpdateTick (createServerMsg_UPDATE_TICK env t) (sv_store sv)\<rparr>)"

definition Server_create :: "app_env \<Rightarrow> bool \<Rightarrow> Server" where
  "Server_create env hasCollector =
     \<lparr>sv_timestamp = fst (ServerContext_create env), sv_store = snd (ServerContext_create env), sv_clients = [],
      sv_availableDataFlags = (if hasCollector then EDataFlags_CONNECTION else 0),
      sv_updateSerializer = ConnectionUpdateSerializer_init, sv_log = [], sv_clientsMoved = 0\<rparr>"

section \<open>Callbacks of the sessions\<close>

definition disconnect_text :: "EDisconnectReason \<Rightarrow> string \<Rightarrow> string" where
  "disconnect_text reason error =
     (if error \<noteq> []
      then (if reason = DR_UNKNOWN then ''Unknown reason'' else getDisconnectReasonName reason) @ '': '' @ error
      else getDisconnectReasonName reason)"

definition sv_onSessionEstablished :: "Server sess \<Rightarrow> Server sess" where
  "sv_onSessionEstablished = (\<lambda>(ss, sv). (ss, sv\<lparr>sv_log := sv_log sv @ [Log_connected (ss_clientName ss)]\<rparr>))"

definition sv_onSessionDisconnect :: "Server sess \<Rightarrow> Server sess" where
  "sv_onSessionDisconnect = (\<lambda>(ss, sv).
     (ss, sv\<lparr>sv_log := sv_log sv @ [Log_disconnected (ss_clientName ss)
        (disconnect_text (ss_disconnectReason ss) (ss_disconnectError ss))]\<rparr>))"

definition sv_onSessionDataRequest :: "app_env \<Rightarrow> flags \<Rightarrow> flags \<Rightarrow> Server sess \<Rightarrow> Server sess" where
  "sv_onSessionDataRequest env dataFlags0 dataUpdateFlags0 = (\<lambda>(ss, sv).
     let dataFlags = dataFlags0 AND sv_availableDataFlags sv;
         dataUpdateFlags = dataUpdateFlags0 AND sv_availableDataFlags sv;
         ss1 = sendDataStatus env dataFlags dataUpdateFlags ss
     in (ss1,
         if has_flag dataFlags EDataFlags_CONNECTION \<and> has_flag dataUpdateFlags EDataFlags_CONNECTION
         then sv\<lparr>sv_updateSerializer := setSerializationEnabled True (sv_updateSerializer sv)\<rparr> else sv))"

definition sv_callback :: "app_env \<Rightarrow> Server IServerSessionCallback" where
  "sv_callback env =
     \<lparr>scb_onSessionEstablished = sv_onSessionEstablished, scb_onSessionDisconnect = sv_onSessionDisconnect,
      scb_onSessionDataRequest = sv_onSessionDataRequest env\<rparr>"

section \<open>The periodic update\<close>

text \<open>The first loop: forget sessions that have ended, stop data still being sent, see what is asked for.\<close>

definition wants_updates :: "ServerSession \<Rightarrow> bool" where
  "wants_updates ss \<longleftrightarrow> has_flag (ss_dataFlags ss) EDataFlags_CONNECTION \<and> has_flag (ss_dataUpdateFlags ss) EDataFlags_CONNECTION"

definition wants_connections :: "ServerSession \<Rightarrow> bool" where
  "wants_connections ss \<longleftrightarrow>
     has_flag (ss_dataFlags ss) EDataFlags_CONNECTION \<and> \<not> has_flag (ss_dataUpdateFlags ss) EDataFlags_CONNECTION"

definition sweep_clients ::
  "shared_store \<Rightarrow> ServerSession list \<Rightarrow> ServerSession list \<times> bool \<times> bool" where
  "sweep_clients store cls =
     (let live = filter (\<lambda>ss. ss_state ss \<noteq> DISCONNECTED) cls
      in (map (\<lambda>ss. if ss_isSendingData ss then snd (stopSendingData store ss) else ss) live,
          list_ex (\<lambda>ss. \<not> ss_isSendingData ss \<and> wants_connections ss) live,
          list_ex (\<lambda>ss. \<not> ss_isSendingData ss \<and> wants_updates ss) live))"

text \<open>
  Whether the loop erases a session that is neither the first nor the last of the deque; such an
  \<open>erase\<close> invalidates every pointer to a session. \<open>kept\<close> says that a session before this
  part of the deque stays.
\<close>

fun erases_inside :: "bool \<Rightarrow> ServerSession list \<Rightarrow> bool" where
  "erases_inside kept [] = False"
| "erases_inside kept (ss # cls) =
     (if ss_state ss = DISCONNECTED then (kept \<and> cls \<noteq> []) \<or> erases_inside kept cls else erases_inside True cls)"

text \<open>
  How many sessions at the front have no valid pointers after the loop: all that are left if it erases
  inside the deque, otherwise those of before that are left.
\<close>

definition moved_clients :: "nat \<Rightarrow> ServerSession list \<Rightarrow> nat" where
  "moved_clients n cls =
     length (filter (\<lambda>ss. ss_state ss \<noteq> DISCONNECTED) (if erases_inside False cls then cls else take n cls))"

text \<open>The middle part: collect, and build the messages that are needed.\<close>

definition build_data ::
  "app_env \<Rightarrow> (ConnectionUpdateSerializer \<Rightarrow> ConnectionUpdateSerializer) \<Rightarrow> bool \<Rightarrow> bool \<Rightarrow> Server \<Rightarrow>
     bool \<times> bool \<times> Server" where
  "build_data env collector requiresConnections requiresConnectionUpdates sv =
     (if has_flag (sv_availableDataFlags sv) EDataFlags_CONNECTION
      then
        let u = collector (sv_updateSerializer sv);
            (connectionUpdatesAvailable, store1, u1) =
              (if us_isSerializationEnabled u
               then let (items, u1) = us_build u
                    in (requiresConnectionUpdates,
                        store_assign SerializedConnectionUpdates
                          (createServerMsg_DATA env EDataFlags_CONNECTION True (JArray items)) (sv_store sv), u1)
               else (False, store_assign SerializedConnectionUpdates emptyMsg (sv_store sv), u));
            store2 =
              (if requiresConnections
               then store_assign SerializedConnections
                      (createServerMsg_DATA env EDataFlags_CONNECTION False
                        (JArray (ConnectionStorageSerializer (us_storage u1)))) store1
               else store_assign SerializedConnections emptyMsg store1)
        in (requiresConnections, connectionUpdatesAvailable, sv\<lparr>sv_store := store2, sv_updateSerializer := u1\<rparr>)
      else (False, False, sv))"

text \<open>The last loop, for one client.\<close>

definition update_client ::
  "'s IServerSessionCallback \<Rightarrow> bool \<Rightarrow> bool \<Rightarrow> 's sess \<Rightarrow> 's sess" where
  "update_client cb connectionsAvailable connectionUpdatesAvailable = (\<lambda>(ss, s).
     let dataFlags = ss_dataFlags ss; dataUpdateFlags = ss_dataUpdateFlags ss;
         (ss1, s1) = ss_onUpdate cb (ss, s)
     in if ss_state ss1 \<noteq> CONNECTED then (ss1, s1)
        else if has_flag dataFlags EDataFlags_CONNECTION
        then (if connectionUpdatesAvailable \<and> has_flag dataUpdateFlags EDataFlags_CONNECTION
              then (sendData SerializedConnectionUpdates ss1, s1)
              else if connectionsAvailable then (sendData SerializedConnections ss1, s1)
              else (ss1, s1))
        else (ss1, s1))"

fun update_clients ::
  "'s IServerSessionCallback \<Rightarrow> bool \<Rightarrow> bool \<Rightarrow> ServerSession list \<Rightarrow> 's \<Rightarrow> ServerSession list \<times> 's" where
  "update_clients cb ca ua [] s = ([], s)"
| "update_clients cb ca ua (ss # cls) s =
     (let (ss', s1) = update_client cb ca ua (ss, s); (cls', s2) = update_clients cb ca ua cls s1 in (ss' # cls', s2))"

definition Server_onUpdate ::
  "app_env \<Rightarrow> (ConnectionUpdateSerializer \<Rightarrow> ConnectionUpdateSerializer) \<Rightarrow> Server \<Rightarrow> Server" where
  "Server_onUpdate env collector sv =
     (let (cls, requiresConnections, requiresConnectionUpdates) = sweep_clients (sv_store sv) (sv_clients sv);
          moved = moved_clients (sv_clientsMoved sv) (sv_clients sv);
          sv1 = ServerContext_onUpdate env (sv\<lparr>sv_clients := cls, sv_clientsMoved := moved\<rparr>);
          (connectionsAvailable, connectionUpdatesAvailable, sv2) =
            build_data env collector requiresConnections requiresConnectionUpdates sv1;
          (cls2, sv3) = update_clients (sv_callback env) connectionsAvailable connectionUpdatesAvailable (sv_clients sv2) sv2
      in sv3\<lparr>sv_clients := cls2\<rparr>)"

section \<open>Sockets\<close>

text \<open>
  An event on a listening socket: a connection accepted on readable input (\<open>Some False\<close> when
  \<open>accept\<close> failed), and the error flag of the poll.
\<close>

definition Server_pollHandler :: "bool option \<Rightarrow> bool \<Rightarrow> Server \<Rightarrow> unit result \<times> Server" where
  "Server_pollHandler accepted isError sv =
     (let sv1 = (if accepted = Some True then sv\<lparr>sv_clients := sv_clients sv @ [ServerSession_create True]\<rparr> else sv)
      in (if isError then Inl (Exception ''Server socket poll failed'') else Inr (), sv1))"

text \<open>An event on the socket of the client at position \<open>i\<close>.\<close>

definition Server_clientEvent ::
  "app_env \<Rightarrow> nat \<Rightarrow> input option \<Rightarrow> send_result list option \<Rightarrow> bool \<Rightarrow> Server \<Rightarrow> unit result \<times> string \<times> Server" where
  "Server_clientEvent env i inp rs isError sv =
     (if i < sv_clientsMoved sv then (Inl undefined_behaviour, [], sv)
      else
        case ss_SocketPollHandler (sv_callback env) (sv_store sv) inp rs isError (sv_clients sv ! i, sv) of
          (r, out, ss, sv1) \<Rightarrow> (r, out, sv1\<lparr>sv_clients := (sv_clients sv1)[i := ss]\<rparr>))"

end
