(* ===== verification/ServerProps.thy ===== *)
theory ServerProps
  imports ServerModel
begin

text \<open>
  What the server guarantees. The contract between a session and the object that owns it is the locale
  \<open>server_callback\<close>; the invariant \<open>ss_inv\<close> of a session is proved once inside it and holds
  in every reachable state of the server.
\<close>

section \<open>The invariant of a session\<close>

definition ss_inv :: "ServerSession \<Rightarrow> bool" where
  "ss_inv ss \<longleftrightarrow>
     (ss_isConnected ss \<longleftrightarrow> ss_state ss \<noteq> DISCONNECTED) \<and>
     (ss_state ss = DISCONNECTED \<longrightarrow> ss_sendQueue ss = [] \<and> \<not> ss_isSendingData ss) \<and>
     (ss_sendQueue ss \<noteq> [] \<longrightarrow> ss_pollOutput ss) \<and>
     (ss_state ss = OPENING \<longrightarrow> set (ss_sendQueue ss) \<subseteq> {Shared CachedBanner}) \<and>
     writer_ok (ss_socketWriter ss)"

lemma ss_inv_create: "ss_inv (ServerSession_create b)"
  by (simp add: ss_inv_def ServerSession_create_def ss_sendSharedMessage_def Let_def writer_ok_init)

lemma ss_inv_sendMessage:
  "ss_inv ss \<Longrightarrow> ss_state ss \<in> {CONNECTED, CLOSING} \<Longrightarrow> ss_inv (ss_sendMessage msg ss)"
  by (auto simp: ss_inv_def ss_sendMessage_def Let_def)

lemma ss_inv_sendShared:
  "ss_inv ss \<Longrightarrow> ss_state ss \<in> {CONNECTED, CLOSING} \<Longrightarrow> ss_inv (ss_sendSharedMessage msg ss)"
  by (auto simp: ss_inv_def ss_sendSharedMessage_def Let_def)

lemma ss_inv_flags [simp]:
  "ss_inv (ss\<lparr>ss_dataFlags := f, ss_dataUpdateFlags := g\<rparr>) = ss_inv ss"
  "ss_inv (ss\<lparr>ss_sessionTTL := n\<rparr>) = ss_inv ss"
  by (simp_all add: ss_inv_def)

lemma ss_inv_sendDataStatus: "ss_inv ss \<Longrightarrow> ss_inv (sendDataStatus env f g ss)"
  by (simp add: sendDataStatus_def ss_inv_sendMessage)

lemma ss_inv_sendData: "ss_inv ss \<Longrightarrow> ss_inv (sendData m ss)"
  by (simp add: sendData_def ss_inv_sendShared)

lemma writer_ok_stop: "writer_ok w \<Longrightarrow> writer_ok (snd (writer_stop w))"
  by (cases "w_msgType w"; cases "w_place w") (auto simp: writer_stop_def writer_ok_def isSending_def)

lemma ss_inv_stopSendingData: "ss_inv ss \<Longrightarrow> ss_inv (snd (stopSendingData store ss))"
  using writer_ok_stop [of "ss_socketWriter ss"]
  by (auto simp: stopSendingData_def Let_def ss_inv_def case_prod_beta)

lemma writer_ok_load: "writer_ok w \<Longrightarrow> writer_ok (load_message store q w)"
  by (cases q) (auto simp: load_message_def writer_send_def writer_sendShared_def writer_ok_def isSending_def)

lemma writer_ok_doSend: "writer_ok w \<Longrightarrow> doSend current res w = (r, out, w') \<Longrightarrow> writer_ok w'"
  by (auto simp: doSend_def writer_ok_def isSending_def Let_def split: if_splits send_result.splits)

lemma fresh_load: "\<not> isSending w \<Longrightarrow> writer_fresh (fst \<circ> store) (load_message store q w)
    \<and> writer_pending (load_message store q w) = queued_text store q"
  by (cases q) (auto simp: load_message_def writer_send_def writer_sendShared_def writer_fresh_def isSending_def
      writer_pending_def queued_text_def)

lemma send_loop_step:
  assumes "send_loop store rs (q # qs) w isData = (r, out, q', w', isData')"
    and "doSend (fst \<circ> store) (next_result rs) w = (r1, out1, w1)"
  obtains (stop) "r1 \<noteq> Send_done" "r = r1" "out = out1" "q' = q # qs" "w' = w1" "isData' = isData"
  | (go) out2 where "r1 = Send_done" "out = out1 @ out2"
      "send_loop store (if isSending w then tl rs else rs) qs (load_message store q w1) (queued_type store q = SM_DATA)
         = (r, out2, q', w', isData')"
  using assms by (cases r1) (auto split: prod.splits)

lemma send_loop_inv:
  "send_loop store rs q w isData = (r, out, q', w', isData') \<Longrightarrow> writer_ok w \<Longrightarrow>
     writer_ok w' \<and> set q' \<subseteq> set q"
proof (induction q arbitrary: rs w isData out)
  case Nil
  then show ?case by (auto dest: writer_ok_doSend split: prod.splits doSend_result.splits)
next
  case (Cons m qs)
  obtain r1 out1 w1 where d: "doSend (fst \<circ> store) (next_result rs) w = (r1, out1, w1)"
    by (cases "doSend (fst \<circ> store) (next_result rs) w")
  have w1: "writer_ok w1" using Cons.prems(2) d by (rule writer_ok_doSend)
  from Cons.prems(1) d show ?case
  proof (cases rule: send_loop_step)
    case (go out2)
    from Cons.IH [OF go(3) writer_ok_load [OF w1]] show ?thesis by auto
  qed (use w1 in auto)
qed

text \<open>The bytes leave in order: nothing is lost, repeated or reordered by the sending loop.\<close>

lemma send_loop_bytes:
  "send_loop store rs q w isData = (r, out, q', w', isData') \<Longrightarrow> writer_ok w \<Longrightarrow> writer_fresh (fst \<circ> store) w \<Longrightarrow>
     out @ writer_pending w' @ concat (map (queued_text store) q') = writer_pending w @ concat (map (queued_text store) q)
     \<and> r \<noteq> Send_undefined"
proof (induction q arbitrary: rs w isData out)
  case Nil
  obtain r1 out1 w1 where d: "doSend (fst \<circ> store) (next_result rs) w = (r1, out1, w1)"
    by (cases "doSend (fst \<circ> store) (next_result rs) w")
  then have "r = r1" "out = out1" "q' = []" "w' = w1" using Nil.prems(1) by (cases r1; simp)+
  then show ?case using doSend_bytes(1,4) [OF Nil.prems(2,3) d] by simp
next
  case (Cons m qs)
  obtain r1 out1 w1 where d: "doSend (fst \<circ> store) (next_result rs) w = (r1, out1, w1)"
    by (cases "doSend (fst \<circ> store) (next_result rs) w")
  note b = doSend_bytes [OF Cons.prems(2,3) d]
  from Cons.prems(1) d show ?case
  proof (cases rule: send_loop_step)
    case stop
    with b(1,4) show ?thesis by (metis append.assoc)
  next
    case (go out2)
    then have idle: "\<not> isSending w1" using b(5) by simp
    then have p: "writer_pending w1 = []" by (simp add: writer_pending_def)
    from Cons.IH [OF go(3) writer_ok_load [OF b(2)] conjunct1 [OF fresh_load [OF idle]]] fresh_load [OF idle] go(2) b(1) p
    show ?thesis by auto
  qed
qed

section \<open>Sessions and their owner\<close>

locale server_callback =
  fixes env :: app_env and cb :: "'s IServerSessionCallback"
  assumes established: "fst (scb_onSessionEstablished cb (ss, s)) = ss"
    and disconnected: "fst (scb_onSessionDisconnect cb (ss, s)) = ss"
    and requested: "\<exists>f' g'. fst (scb_onSessionDataRequest cb f g (ss, s)) = sendDataStatus env f' g' ss"
begin

lemma quickDisconnect_session:
  "fst (ss_quickDisconnect cb reason error (ss, s)) =
     ss\<lparr>ss_isConnected := False, ss_state := DISCONNECTED, ss_isSendingData := False, ss_sendQueue := [],
        ss_disconnectReason := reason, ss_disconnectError := error\<rparr>"
  by (simp add: ss_quickDisconnect_def disconnected)

lemma inv_quickDisconnect: "ss_inv (fst x) \<Longrightarrow> ss_inv (fst (ss_quickDisconnect cb reason error x))"
  by (cases x) (simp add: quickDisconnect_session ss_inv_def)

lemma inv_onHello: "ss_inv (fst x) \<Longrightarrow> ss_inv (fst (snd (ss_onHello cb message x)))"
  by (cases x)
    (auto simp: ss_onHello_def established ss_inv_def ss_sendSharedMessage_def Let_def split: sum.split prod.split)

lemma inv_onDisconnect: "ss_inv (fst x) \<Longrightarrow> ss_inv (fst (snd (ss_onDisconnect cb message x)))"
  by (cases x) (auto simp: ss_onDisconnect_def Let_def inv_quickDisconnect split: sum.split)

lemma inv_onRequestData: "ss_inv (fst x) \<Longrightarrow> ss_inv (fst (snd (ss_onRequestData cb message x)))"
proof (cases x)
  case (Pair ss s)
  have "ss_inv ss \<Longrightarrow> ss_inv (fst (scb_onSessionDataRequest cb f g (ss, s)))" for f g
    using requested [of f g ss s] ss_inv_sendDataStatus by metis
  then show "ss_inv (fst x) \<Longrightarrow> ?thesis"
    by (auto simp: ss_onRequestData_def Pair split: sum.split prod.split)
qed

lemma inv_onMessage: "ss_inv (fst x) \<Longrightarrow> ss_inv (fst (snd (ss_onMessage cb message x)))"
  by (auto simp: ss_onMessage_def inv_onHello inv_onDisconnect inv_onRequestData split: sum.split EClientMsg.split)

lemma inv_onMessages: "ss_inv (fst x) \<Longrightarrow> ss_inv (fst (snd (ss_onMessages cb docs x)))"
proof (induction docs arbitrary: x)
  case (Cons d ds)
  have "ss_inv (fst (snd (ss_onMessage cb d x)))" using Cons.prems by (rule inv_onMessage)
  with Cons.IH show ?case by (auto split: prod.split sum.split)
qed simp

lemma inv_handleInput: "ss_inv (fst x) \<Longrightarrow> ss_inv (fst (ss_handleInput cb inp x))"
proof (cases inp)
  case (Input_docs docs err)
  assume "ss_inv (fst x)"
  then have "ss_inv (fst (snd (ss_onMessages cb docs x)))" by (rule inv_onMessages)
  then show ?thesis
    using inv_quickDisconnect by (auto simp: ss_handleInput_def Input_docs split: prod.split sum.split option.split)
qed (auto simp: ss_handleInput_def inv_quickDisconnect)

text \<open>During output the queue may empty while the poll flag is still set; it is reset at the end.\<close>

lemma inv_handleOutput:
  assumes "ss_inv (fst x)" and "ss_state (fst x) \<noteq> DISCONNECTED"
  shows "ss_inv (fst (snd (snd (ss_handleOutput cb store rs x))))"
proof (cases x)
  case (Pair ss s)
  obtain r out q w d where l: "send_loop store rs (ss_sendQueue ss) (ss_socketWriter ss) (ss_isSendingData ss) = (r, out, q, w, d)"
    by (cases "send_loop store rs (ss_sendQueue ss) (ss_socketWriter ss) (ss_isSendingData ss)")
  have w: "writer_ok w" "set q \<subseteq> set (ss_sendQueue ss)"
    using send_loop_inv [OF l] assms(1) by (simp_all add: Pair ss_inv_def)
  then have "ss_sendQueue ss = [] \<Longrightarrow> q = []" by auto
  with assms w have "ss_inv (ss\<lparr>ss_sendQueue := q, ss_socketWriter := w, ss_isSendingData := d\<rparr>)"
    by (auto simp: Pair ss_inv_def)
  then show ?thesis
    using inv_quickDisconnect
    by (auto simp: Pair ss_handleOutput_def l Let_def quickDisconnect_session split: doSend_result.split)
      (simp add: ss_inv_def)
qed

lemma inv_SocketPollHandler:
  assumes "ss_inv (fst x)"
  shows "ss_inv (fst (snd (snd (ss_SocketPollHandler cb store inp rs isError x))))"
proof -
  let ?x1 = "case inp of None \<Rightarrow> x | Some i \<Rightarrow> ss_handleInput cb i x"
  have 1: "ss_inv (fst ?x1)" using assms inv_handleInput by (cases inp) auto
  define y where "y = (case rs of None \<Rightarrow> (Inr (), [], ?x1)
    | Some r \<Rightarrow> if ss_state (fst ?x1) \<noteq> DISCONNECTED then ss_handleOutput cb store r ?x1 else (Inr (), [], ?x1))"
  have 2: "ss_inv (fst (snd (snd y)))"
    using 1 inv_handleOutput [OF 1] by (auto simp: y_def split: option.split)
  have reset: "ss_inv ss \<Longrightarrow> ss_inv (ss\<lparr>ss_pollOutput := (ss_sendQueue ss \<noteq> [])\<rparr>)" for ss
    by (simp add: ss_inv_def)
  show ?thesis
    unfolding ss_SocketPollHandler_def Let_def y_def [symmetric]
    using 2 inv_quickDisconnect [OF 2] by (auto simp: case_prod_beta reset split: sum.split)
qed

lemma inv_onUpdate: "ss_inv (fst x) \<Longrightarrow> ss_inv (fst (ss_onUpdate cb x))"
  by (cases x) (auto simp: ss_onUpdate_def Let_def ss_inv_sendShared inv_quickDisconnect)

lemma inv_disconnect: "ss_inv (fst x) \<Longrightarrow> ss_inv (fst (ss_disconnect env cb x))"
  by (cases x) (auto simp: ss_disconnect_def quickDisconnect_session ss_inv_def ss_sendMessage_def Let_def)

text \<open>What the last loop of the server's update does to a session does not depend on the owner's state.\<close>

lemma update_client_session: "fst (update_client cb ca ua (ss, s)) = fst (update_client cb ca ua (ss, s'))"
  by (simp add: update_client_def ss_onUpdate_def Let_def case_prod_beta quickDisconnect_session)

lemma update_clients_map: "fst (update_clients cb ca ua cls s) = map (\<lambda>ss. fst (update_client cb ca ua (ss, s'))) cls"
proof (induction cls arbitrary: s)
  case (Cons ss cls)
  then show ?case using update_client_session [of ca ua ss s s'] by (simp add: case_prod_beta Let_def)
qed simp

lemma inv_update_client: "ss_inv (fst x) \<Longrightarrow> ss_inv (fst (update_client cb ca ua x))"
  using inv_onUpdate [of x] by (cases x) (auto simp: update_client_def Let_def case_prod_beta ss_inv_sendData)

end

interpretation sv: server_callback env "sv_callback env"
  for env
  by unfold_locales
    (auto simp: sv_callback_def sv_onSessionEstablished_def sv_onSessionDisconnect_def sv_onSessionDataRequest_def Let_def)

section \<open>Reachable states of the server\<close>

text \<open>Steps that throw end the program. The collector may report events of the kernel at any time.\<close>

inductive sv_reach :: "app_env \<Rightarrow> Server \<Rightarrow> bool" for env where
  sv_created: "sv_reach env (Server_create env b)"
| sv_accept: "sv_reach env sv \<Longrightarrow> sv_reach env (snd (Server_pollHandler a False sv))"
| sv_event: "sv_reach env sv \<Longrightarrow> i < length (sv_clients sv) \<Longrightarrow>
    Server_clientEvent env i inp rs isError sv = (Inr (), out, sv') \<Longrightarrow> sv_reach env sv'"
| sv_update: "sv_reach env sv \<Longrightarrow> sv_reach env (Server_onUpdate env collector sv)"
| sv_collected: "sv_reach env sv \<Longrightarrow> sv_reach env (sv\<lparr>sv_updateSerializer := u\<rparr>)"

text \<open>The callbacks leave the list of sessions alone.\<close>

lemma callback_clients:
  "sv_clients (snd (ss_quickDisconnect (sv_callback env) reason e x)) = sv_clients (snd x)"
  "sv_clients (snd (scb_onSessionEstablished (sv_callback env) x)) = sv_clients (snd x)"
  "sv_clients (snd (scb_onSessionDataRequest (sv_callback env) f g x)) = sv_clients (snd x)"
  by (cases x; simp add: ss_quickDisconnect_def sv_callback_def sv_onSessionDisconnect_def sv_onSessionEstablished_def
      sv_onSessionDataRequest_def Let_def)+

lemma onMessage_clients: "sv_clients (snd (snd (ss_onMessage (sv_callback env) m x))) = sv_clients (snd x)"
  by (cases x)
    (simp add: ss_onMessage_def ss_onHello_def ss_onDisconnect_def ss_onRequestData_def callback_clients Let_def
      split: sum.split EClientMsg.split prod.split)

lemma onMessages_clients: "sv_clients (snd (snd (ss_onMessages (sv_callback env) ms x))) = sv_clients (snd x)"
proof (induction ms arbitrary: x)
  case (Cons m ms)
  then show ?case using onMessage_clients [of env m x] by (auto split: prod.split sum.split)
qed simp

lemma handler_clients:
  "sv_clients (snd (snd (snd (ss_SocketPollHandler (sv_callback env) store inp rs isError x)))) = sv_clients (snd x)"
proof -
  have i: "sv_clients (snd (ss_handleInput (sv_callback env) i y)) = sv_clients (snd y)" for i y
    by (simp add: ss_handleInput_def callback_clients onMessages_clients case_prod_beta
        split: input.split sum.split option.split)
  have o: "sv_clients (snd (snd (snd (ss_handleOutput (sv_callback env) store r y)))) = sv_clients (snd y)" for r y
    by (cases y) (simp add: ss_handleOutput_def Let_def callback_clients split: prod.split doSend_result.split)
  show ?thesis
    by (simp add: ss_SocketPollHandler_def Let_def case_prod_beta i o callback_clients split: option.split sum.split)
qed

lemma onUpdate_sessions:
  fixes env collector sv
  defines "sw \<equiv> sweep_clients (sv_store sv) (sv_clients sv)"
    and "mv \<equiv> moved_clients (sv_clientsMoved sv) (sv_clients sv)"
  defines "bd \<equiv> build_data env collector (fst (snd sw)) (snd (snd sw)) (ServerContext_onUpdate env (sv\<lparr>sv_clients := fst sw, sv_clientsMoved := mv\<rparr>))"
  shows "sv_clients (Server_onUpdate env collector sv) =
    map (\<lambda>ss. fst (update_client (sv_callback env) (fst bd) (fst (snd bd)) (ss, sv))) (fst sw)"
proof -
  have "sv_clients (snd (snd bd)) = fst sw"
    by (simp add: bd_def build_data_def ServerContext_onUpdate_def Let_def case_prod_beta)
  then show ?thesis
    using sv.update_clients_map [of env "fst bd" "fst (snd bd)" "fst sw" _ sv]
    by (simp add: Server_onUpdate_def case_prod_beta Let_def flip: sw_def mv_def bd_def)
qed

lemma inv_reach: "sv_reach env sv \<Longrightarrow> \<forall>ss \<in> set (sv_clients sv). ss_inv ss"
proof (induction rule: sv_reach.induct)
  case (sv_created b)
  then show ?case by (simp add: Server_create_def)
next
  case (sv_accept sv a)
  then show ?case by (auto simp: Server_pollHandler_def ss_inv_create)
next
  case (sv_event sv i inp rs isError out sv')
  let ?h = "ss_SocketPollHandler (sv_callback env) (sv_store sv) inp rs isError (sv_clients sv ! i, sv)"
  have "ss_inv (fst (snd (snd ?h)))" using sv_event.IH sv_event.hyps(2) by (intro sv.inv_SocketPollHandler) simp
  moreover have "sv_clients sv' = (sv_clients sv)[i := fst (snd (snd ?h))]"
    using sv_event.hyps(3) handler_clients [of env "sv_store sv" inp rs isError "(sv_clients sv ! i, sv)"]
    by (auto simp: Server_clientEvent_def case_prod_beta split: if_splits)
  ultimately show ?case using sv_event.IH by (auto dest: set_update_subset_insert [THEN subsetD])
next
  case (sv_update sv collector)
  have "\<forall>ss \<in> set (fst (sweep_clients (sv_store sv) (sv_clients sv))). ss_inv ss"
    using sv_update.IH ss_inv_stopSendingData by (auto simp: sweep_clients_def Let_def)
  then show ?case unfolding onUpdate_sessions using sv.inv_update_client by fastforce
qed simp

section \<open>The data messages\<close>

text \<open>The sessions that an update keeps.\<close>

definition live_clients :: "ServerSession list \<Rightarrow> ServerSession list" where
  "live_clients cls = filter (\<lambda>ss. ss_state ss \<noteq> DISCONNECTED) cls"

lemma live_clients_all: "\<forall>ss \<in> set cls. ss_state ss \<noteq> DISCONNECTED \<Longrightarrow> live_clients cls = cls"
  by (simp add: live_clients_def filter_id_conv)

lemma sweep_live:
  "length (fst (sweep_clients store cls)) = length (live_clients cls)"
  "j < length (live_clients cls) \<Longrightarrow> \<not> ss_isSendingData (live_clients cls ! j) \<Longrightarrow>
     fst (sweep_clients store cls) ! j = live_clients cls ! j"
  "fst (snd (sweep_clients store cls)) \<longleftrightarrow> (\<exists>ss \<in> set (live_clients cls). \<not> ss_isSendingData ss \<and> wants_connections ss)"
  "snd (snd (sweep_clients store cls)) \<longleftrightarrow> (\<exists>ss \<in> set (live_clients cls). \<not> ss_isSendingData ss \<and> wants_updates ss)"
  by (simp_all add: sweep_clients_def Let_def live_clients_def list_ex_iff)

lemma update_client_queue:
  assumes "ss_state ss = CONNECTED"
  shows "fst (update_client cb ca ua (ss, s)) =
    ss\<lparr>ss_dataFlags := 0, ss_dataUpdateFlags := 0, ss_pollOutput := (ss_pollOutput ss \<or> ss_sendQueue ss = []),
       ss_sendQueue := ss_sendQueue ss @ Shared CachedUpdateTick #
         (if ua \<and> wants_updates ss then [Shared SerializedConnectionUpdates]
          else if ca \<and> has_flag (ss_dataFlags ss) EDataFlags_CONNECTION then [Shared SerializedConnections] else [])\<rparr>"
  using assms
  by (cases ss)
    (auto simp: update_client_def ss_onUpdate_def Let_def ss_sendSharedMessage_def sendData_def wants_updates_def)

lemma onUpdate_store:
  fixes env collector sv
  defines "u \<equiv> collector (sv_updateSerializer sv)"
    and "sw \<equiv> sweep_clients (sv_store sv) (sv_clients sv)"
  assumes "has_flag (sv_availableDataFlags sv) EDataFlags_CONNECTION"
  shows "build_data env collector (fst (snd sw)) (snd (snd sw)) (ServerContext_onUpdate env (sv\<lparr>sv_clients := fst sw, sv_clientsMoved := mv\<rparr>)) =
    (fst (snd sw), us_isSerializationEnabled u \<and> snd (snd sw),
     sv\<lparr>sv_clients := fst sw, sv_clientsMoved := mv, sv_timestamp := sv_timestamp sv + 1,
        sv_store := store_assign SerializedConnections
          (if fst (snd sw) then createServerMsg_DATA env EDataFlags_CONNECTION False
             (JArray (ConnectionStorageSerializer (us_storage u))) else emptyMsg)
          (store_assign SerializedConnectionUpdates
            (if us_isSerializationEnabled u then createServerMsg_DATA env EDataFlags_CONNECTION True (JArray (us_serializer u))
             else emptyMsg)
            (store_assign CachedUpdateTick (createServerMsg_UPDATE_TICK env (sv_timestamp sv + 1)) (sv_store sv))),
        sv_updateSerializer := (if us_isSerializationEnabled u then u\<lparr>us_serializer := []\<rparr> else u)\<rparr>)"
  using assms(3)
  by (auto simp: build_data_def ServerContext_onUpdate_def Let_def us_build_def u_def)

text \<open>The state of the server, apart from sessions and log, is not touched by the last loop.\<close>

lemma update_client_frame:
  "sv_store (snd (update_client (sv_callback env) ca ua (ss, sv))) = sv_store sv
    \<and> sv_updateSerializer (snd (update_client (sv_callback env) ca ua (ss, sv))) = sv_updateSerializer sv
    \<and> sv_timestamp (snd (update_client (sv_callback env) ca ua (ss, sv))) = sv_timestamp sv
    \<and> sv_availableDataFlags (snd (update_client (sv_callback env) ca ua (ss, sv))) = sv_availableDataFlags sv"
  by (simp add: update_client_def ss_onUpdate_def Let_def case_prod_beta ss_quickDisconnect_def sv_callback_def
      sv_onSessionDisconnect_def)

lemma update_clients_frame:
  "sv_store (snd (update_clients (sv_callback env) ca ua cls sv)) = sv_store sv
    \<and> sv_updateSerializer (snd (update_clients (sv_callback env) ca ua cls sv)) = sv_updateSerializer sv
    \<and> sv_timestamp (snd (update_clients (sv_callback env) ca ua cls sv)) = sv_timestamp sv
    \<and> sv_availableDataFlags (snd (update_clients (sv_callback env) ca ua cls sv)) = sv_availableDataFlags sv"
proof (induction cls arbitrary: sv)
  case (Cons ss cls)
  show ?case using Cons [of "snd (update_client (sv_callback env) ca ua (ss, sv))"] update_client_frame [of env ca ua ss sv]
    by (simp add: case_prod_beta Let_def)
qed simp

lemma onUpdate_state:
  fixes env collector sv
  defines "sw \<equiv> sweep_clients (sv_store sv) (sv_clients sv)"
    and "mv \<equiv> moved_clients (sv_clientsMoved sv) (sv_clients sv)"
  defines "bd \<equiv> build_data env collector (fst (snd sw)) (snd (snd sw)) (ServerContext_onUpdate env (sv\<lparr>sv_clients := fst sw, sv_clientsMoved := mv\<rparr>))"
  shows "sv_store (Server_onUpdate env collector sv) = sv_store (snd (snd bd))"
    and "sv_updateSerializer (Server_onUpdate env collector sv) = sv_updateSerializer (snd (snd bd))"
    and "sv_timestamp (Server_onUpdate env collector sv) = sv_timestamp (snd (snd bd))"
  by (simp_all add: Server_onUpdate_def case_prod_beta Let_def update_clients_frame flip: sw_def mv_def bd_def)

lemma onUpdate_available: "sv_availableDataFlags (Server_onUpdate env collector sv) = sv_availableDataFlags sv"
  by (simp add: Server_onUpdate_def case_prod_beta Let_def update_clients_frame build_data_def ServerContext_onUpdate_def)

end
