(* ===== verification/ServerUpdates.thy ===== *)
theory ServerUpdates
  imports ServerProps
begin

text \<open>
  What the periodic update of the server puts into the send queues, and what becomes of the messages
  a slow client has not yet taken. The samples run a server with one client.
\<close>

section \<open>A sample server\<close>

definition sample_env :: app_env where
  "sample_env = \<lparr>env_write = (\<lambda>_. ''{}''), env_systemName = ''Linux'', env_hostName = ''host'', env_nameArg = None,
     env_version = ''1.0''\<rparr>"

definition sample_sv0 :: Server where
  "sample_sv0 = snd (Server_pollHandler (Some True) False (Server_create sample_env True))"

text \<open>The banner has left, the client has said \<open>HELLO\<close> and asked for data.\<close>

definition sample_event :: "input option \<Rightarrow> send_result list option \<Rightarrow> Server \<Rightarrow> Server" where
  "sample_event inp rs sv = snd (snd (Server_clientEvent sample_env 0 inp rs False sv))"

definition sample_sv1 :: Server where
  "sample_sv1 = sample_event
     (Some (Input_docs [clientDoc_HELLO sample_env, clientDoc_REQUEST_DATA 1 0] None)) (Some [Sent 3, Sent 3, Sent 3, Sent 3]) sample_sv0"

text \<open>An update, then an output event in which the kernel takes one byte of the tick.\<close>

definition sample_sv2 :: Server where
  "sample_sv2 = sample_event None (Some [Sent 1]) (Server_onUpdate sample_env id sample_sv1)"

lemmas sample_server_defs = sample_env_def sample_sv0_def sample_sv1_def sample_sv2_def sample_event_def

lemma sample_sv0_reach: "sv_reach sample_env sample_sv0"
  unfolding sample_sv0_def by (intro sv_accept sv_created)

lemma sample_sv1_reach: "sv_reach sample_env sample_sv1"
proof -
  have "fst (Server_clientEvent sample_env 0
      (Some (Input_docs [clientDoc_HELLO sample_env, clientDoc_REQUEST_DATA 1 0] None)) (Some [Sent 3, Sent 3, Sent 3, Sent 3])
      False sample_sv0) = Inr ()"
    and "0 < length (sv_clients sample_sv0)"
    by code_simp+
  with sample_sv0_reach show ?thesis
    unfolding sample_sv1_def sample_event_def by (metis sv_event prod.collapse)
qed

lemma sample_sv2_reach: "sv_reach sample_env sample_sv2"
proof -
  have "fst (Server_clientEvent sample_env 0 None (Some [Sent 1]) False (Server_onUpdate sample_env id sample_sv1)) = Inr ()"
    and "0 < length (sv_clients (Server_onUpdate sample_env id sample_sv1))"
    by code_simp+
  with sv_update [OF sample_sv1_reach, of id] show ?thesis
    unfolding sample_sv2_def sample_event_def by (metis sv_event prod.collapse)
qed

section \<open>What an update sends to an idle client\<close>

definition queued_message :: "shared_store \<Rightarrow> queued_msg \<Rightarrow> SerializedServerMessage" where
  "queued_message store q = (case q of Own m \<Rightarrow> m | Shared r \<Rightarrow> snd (store r))"

lemma onUpdate_idle:
  fixes env collector sv
  defines "sw \<equiv> sweep_clients (sv_store sv) (sv_clients sv)" and "live \<equiv> live_clients (sv_clients sv)"
  assumes "has_flag (sv_availableDataFlags sv) EDataFlags_CONNECTION"
    and "j < length live" and "\<not> ss_isSendingData (live ! j)"
  shows "sv_clients (Server_onUpdate env collector sv) ! j =
    fst (update_client (sv_callback env) (fst (snd sw))
      (us_isSerializationEnabled (collector (sv_updateSerializer sv)) \<and> snd (snd sw)) (live ! j, sv))"
  using assms(3-5) by (simp add: onUpdate_sessions onUpdate_store sweep_live(1,2) sw_def live_def)

lemma stopSendingData_state: "ss_state (snd (stopSendingData store ss)) = ss_state ss"
  by (simp add: stopSendingData_def Let_def case_prod_beta)

lemma onUpdate_tick:
  fixes env collector sv i
  defines "sv' \<equiv> Server_onUpdate env collector sv" and "ss \<equiv> sv_clients sv ! i"
  assumes "has_flag (sv_availableDataFlags sv) EDataFlags_CONNECTION"
    and "\<forall>ss \<in> set (sv_clients sv). ss_state ss = CONNECTED"
    and "i < length (sv_clients sv)" and "\<not> ss_isSendingData (sv_clients sv ! i)" and "ss_dataFlags (sv_clients sv ! i) = 0"
  shows "has_flag (sv_availableDataFlags sv') EDataFlags_CONNECTION"
    and "\<forall>ss \<in> set (sv_clients sv'). ss_state ss = CONNECTED" and "i < length (sv_clients sv')"
    and "sv_clients sv' ! i = ss\<lparr>ss_dataFlags := 0, ss_dataUpdateFlags := 0,
      ss_pollOutput := (ss_pollOutput ss \<or> ss_sendQueue ss = []), ss_sendQueue := ss_sendQueue ss @ [Shared CachedUpdateTick]\<rparr>"
    and "snd (sv_store sv' CachedUpdateTick) = createServerMsg_UPDATE_TICK env (sv_timestamp sv + 1)"
    and "sv_timestamp sv' = sv_timestamp sv + 1"
proof -
  have live: "live_clients (sv_clients sv) = sv_clients sv" using assms(4) by (simp add: live_clients_all)
  have swept: "\<forall>ss \<in> set (fst (sweep_clients (sv_store sv) (sv_clients sv))). ss_state ss = CONNECTED"
    using assms(4) by (auto simp: sweep_clients_def Let_def stopSendingData_state)
  show "has_flag (sv_availableDataFlags sv') EDataFlags_CONNECTION"
    using assms(3) by (simp add: sv'_def onUpdate_available)
  show "\<forall>ss \<in> set (sv_clients sv'). ss_state ss = CONNECTED"
    unfolding sv'_def onUpdate_sessions using swept by (auto simp: update_client_queue)
  show "i < length (sv_clients sv')"
    unfolding sv'_def onUpdate_sessions using assms(5) by (simp add: sweep_live live)
  show "sv_clients sv' ! i = ss\<lparr>ss_dataFlags := 0, ss_dataUpdateFlags := 0,
      ss_pollOutput := (ss_pollOutput ss \<or> ss_sendQueue ss = []), ss_sendQueue := ss_sendQueue ss @ [Shared CachedUpdateTick]\<rparr>"
    unfolding sv'_def ss_def onUpdate_idle [of sv i, unfolded live, OF assms(3) assms(5,6)]
    using assms(4,5,7) by (simp add: update_client_queue wants_updates_def has_flag_def)
  show "snd (sv_store sv' CachedUpdateTick) = createServerMsg_UPDATE_TICK env (sv_timestamp sv + 1)"
    and "sv_timestamp sv' = sv_timestamp sv + 1"
    by (simp_all add: sv'_def onUpdate_state onUpdate_store [OF assms(3)] store_assign_def)
qed

section \<open>Properties\<close>

text \<open>
  C23: every session of the server is consistent in every reachable state. The socket is open exactly
  until the session is disconnected; a disconnected session holds no message; while a message waits in
  the queue the poll system waits for output; a client that has not yet said \<open>HELLO\<close> is sent nothing
  but the banner.
\<close>

theorem server_sessions_consistent:
  assumes "sv_reach env sv" and "ss \<in> set (sv_clients sv)"
  shows "(ss_isConnected ss \<longleftrightarrow> ss_state ss \<noteq> DISCONNECTED)
    \<and> (ss_state ss = DISCONNECTED \<longrightarrow> ss_sendQueue ss = [] \<and> \<not> ss_isSendingData ss)
    \<and> (ss_sendQueue ss \<noteq> [] \<longrightarrow> ss_pollOutput ss)
    \<and> (ss_state ss = OPENING \<longrightarrow> set (ss_sendQueue ss) \<subseteq> {Shared CachedBanner})"
  using inv_reach [OF assms(1)] assms(2) by (auto simp: ss_inv_def)

theorem server_sessions_consistent_witness:
  "ss_isConnected (sv_clients sample_sv2 ! 0) \<and> ss_sendQueue (sv_clients sample_sv2 ! 0) \<noteq> []
    \<and> ss_pollOutput (sv_clients sample_sv2 ! 0)"
proof -
  have "0 < length (sv_clients sample_sv2)" and "ss_sendQueue (sv_clients sample_sv2 ! 0) \<noteq> []"
    and "ss_state (sv_clients sample_sv2 ! 0) \<noteq> DISCONNECTED" by code_simp+
  with server_sessions_consistent [OF sample_sv2_reach, of "sv_clients sample_sv2 ! 0"] show ?thesis by simp
qed

text \<open>
  C25: output keeps the order of the messages. When the shared texts the writer points to are alive, what
  a socket event sends is the next part of the pending message followed by the queued messages in order,
  and what is left to send is exactly the rest.
\<close>

theorem server_output_in_order:
  assumes "ss_inv ss" and "writer_fresh (fst \<circ> store) (ss_socketWriter ss)"
    and "ss_handleOutput (sv_callback env) store rs (ss, sv) = (r, out, ss', sv')"
    and "ss_state ss' = ss_state ss" and "ss_state ss \<noteq> DISCONNECTED"
  shows "r = Inr ()
    \<and> out @ writer_pending (ss_socketWriter ss') @ concat (map (queued_text store) (ss_sendQueue ss'))
      = writer_pending (ss_socketWriter ss) @ concat (map (queued_text store) (ss_sendQueue ss))"
proof -
  obtain d o' q w b where l: "send_loop store rs (ss_sendQueue ss) (ss_socketWriter ss) (ss_isSendingData ss) = (d, o', q, w, b)"
    by (cases "send_loop store rs (ss_sendQueue ss) (ss_socketWriter ss) (ss_isSendingData ss)")
  have "writer_ok (ss_socketWriter ss)" using assms(1) by (simp add: ss_inv_def)
  note bytes = send_loop_bytes [OF l this assms(2)]
  have "ss_state (fst (ss_quickDisconnect (sv_callback env) reason e x)) = DISCONNECTED" for reason e x
    using sv.quickDisconnect_session [of env reason e "fst x" "snd x"] by simp
  then have "\<nexists>e. d = Send_error e"
    using assms(3-5) by (auto simp: ss_handleOutput_def l Let_def) (metis fst_conv)
  with bytes assms(3) show ?thesis
    by (cases d) (auto simp: ss_handleOutput_def l Let_def)
qed

theorem server_output_in_order_witness:
  "let r = ss_handleOutput (sv_callback sample_env) (sv_store sample_sv2) [Sent 1] (sv_clients sample_sv2 ! 0, sample_sv2)
   in fst (snd r) = ''}'' \<and> ''}'' @ writer_pending (ss_socketWriter (fst (snd (snd r))))
        @ concat (map (queued_text (sv_store sample_sv2)) (ss_sendQueue (fst (snd (snd r)))))
      = writer_pending (ss_socketWriter (sv_clients sample_sv2 ! 0))
        @ concat (map (queued_text (sv_store sample_sv2)) (ss_sendQueue (sv_clients sample_sv2 ! 0)))"
proof -
  let ?r = "ss_handleOutput (sv_callback sample_env) (sv_store sample_sv2) [Sent 1] (sv_clients sample_sv2 ! 0, sample_sv2)"
  have "sv_clients sample_sv2 ! 0 \<in> set (sv_clients sample_sv2)" by code_simp
  then have inv: "ss_inv (sv_clients sample_sv2 ! 0)" using inv_reach [OF sample_sv2_reach] by blast
  have "case w_place (ss_socketWriter (sv_clients sample_sv2 ! 0)) of None \<Rightarrow> True
    | Some (r, v) \<Rightarrow> (fst \<circ> sv_store sample_sv2) r = v" by code_simp
  then have fresh: "writer_fresh (fst \<circ> sv_store sample_sv2) (ss_socketWriter (sv_clients sample_sv2 ! 0))"
    by (auto simp: writer_fresh_def)
  have st: "ss_state (fst (snd (snd ?r))) = ss_state (sv_clients sample_sv2 ! 0)"
    "ss_state (sv_clients sample_sv2 ! 0) \<noteq> DISCONNECTED" "fst (snd ?r) = ''}''" by code_simp+
  obtain a b c d where r: "?r = (a, b, c, d)" by (metis prod.collapse)
  with server_output_in_order [OF inv fresh r] st show ?thesis by simp
qed

text \<open>
  C22: what an update sends to a client that is not busy, exactly. The update forgets the sessions that
  have ended. An established client among the others that is not being sent data gets the tick with the
  next timestamp. If it asked for updates and the collector still records changes (after a refill it does
  not), the changes since the last build follow. Otherwise, if it asked for connections, the whole storage as
  the collector left it follows when some idle client, for instance itself, asked for it; so a client
  that asked for updates before a refill may get the tick alone. Its request is used up, what waited
  before is still in front, and the item array starts afresh. The server has a collector.
\<close>

theorem server_update_delivers:
  fixes env collector sv j
  defines "live \<equiv> live_clients (sv_clients sv)" and "u \<equiv> collector (sv_updateSerializer sv)"
    and "sv' \<equiv> Server_onUpdate env collector sv"
  defines "ss \<equiv> live ! j" and "ss' \<equiv> sv_clients sv' ! j"
  assumes "has_flag (sv_availableDataFlags sv) EDataFlags_CONNECTION"
    and "j < length live" and "ss_state ss = CONNECTED" and "\<not> ss_isSendingData ss"
  shows "length (sv_clients sv') = length live
    \<and> map (queued_message (sv_store sv')) (drop (length (ss_sendQueue ss)) (ss_sendQueue ss'))
      = createServerMsg_UPDATE_TICK env (sv_timestamp sv + 1) #
         (if wants_updates ss \<and> us_isSerializationEnabled u
          then [createServerMsg_DATA env EDataFlags_CONNECTION True (JArray (us_serializer u))]
          else if has_flag (ss_dataFlags ss) EDataFlags_CONNECTION
            \<and> (\<exists>c \<in> set live. \<not> ss_isSendingData c \<and> wants_connections c)
          then [createServerMsg_DATA env EDataFlags_CONNECTION False (JArray (ConnectionStorageSerializer (us_storage u)))]
          else [])
    \<and> take (length (ss_sendQueue ss)) (ss_sendQueue ss') = ss_sendQueue ss
    \<and> ss_dataFlags ss' = 0 \<and> ss_dataUpdateFlags ss' = 0 \<and> ss_state ss' = CONNECTED
    \<and> sv_timestamp sv' = sv_timestamp sv + 1
    \<and> us_storage (sv_updateSerializer sv') = us_storage u
    \<and> (us_isSerializationEnabled u \<longrightarrow> us_serializer (sv_updateSerializer sv') = [])"
proof -
  define sw where "sw = sweep_clients (sv_store sv) (sv_clients sv)"
  have len: "length (sv_clients sv') = length live"
    by (simp add: sv'_def onUpdate_sessions sweep_live live_def)
  have ss': "ss' = fst (update_client (sv_callback env) (fst (snd sw)) (us_isSerializationEnabled u \<and> snd (snd sw)) (ss, sv))"
    unfolding ss'_def sv'_def ss_def u_def sw_def live_def
    by (rule onUpdate_idle [OF assms(6,7,9) [unfolded ss_def live_def]])
  have req: "fst (snd sw) \<longleftrightarrow> (\<exists>c \<in> set live. \<not> ss_isSendingData c \<and> wants_connections c)"
    "wants_updates ss \<Longrightarrow> snd (snd sw)"
    using assms(7,9) by (auto simp: sw_def live_def ss_def sweep_live)
  show ?thesis
    unfolding ss' update_client_queue [OF assms(8)] sv'_def onUpdate_state onUpdate_store [OF assms(6)] req(1) [symmetric]
    using req(2) assms(8) len
    by (simp add: store_assign_def queued_message_def sv'_def u_def sw_def)
qed

theorem server_update_delivers_witness:
  "map (queued_message (sv_store (Server_onUpdate sample_env id sample_sv1)))
      (ss_sendQueue (sv_clients (Server_onUpdate sample_env id sample_sv1) ! 0))
    = [createServerMsg_UPDATE_TICK sample_env 1,
       createServerMsg_DATA sample_env EDataFlags_CONNECTION False (JArray [])]"
proof -
  have idle: "has_flag (sv_availableDataFlags sample_sv1) EDataFlags_CONNECTION"
    "0 < length (live_clients (sv_clients sample_sv1))"
    "ss_state (live_clients (sv_clients sample_sv1) ! 0) = CONNECTED" "\<not> ss_isSendingData (live_clients (sv_clients sample_sv1) ! 0)"
    and no: "\<not> wants_updates (live_clients (sv_clients sample_sv1) ! 0)"
      "has_flag (ss_dataFlags (live_clients (sv_clients sample_sv1) ! 0)) EDataFlags_CONNECTION"
      "\<exists>c \<in> set (live_clients (sv_clients sample_sv1)). \<not> ss_isSendingData c \<and> wants_connections c"
    and q: "ss_sendQueue (live_clients (sv_clients sample_sv1) ! 0) = []" "sv_timestamp sample_sv1 = 0"
      "ConnectionStorageSerializer (us_storage (sv_updateSerializer sample_sv1)) = []"
    by code_simp+
  from server_update_delivers [OF idle, of sample_env id] no q show ?thesis by simp
qed

section \<open>Slow clients\<close>

text \<open>
  C38: messages that wait are not kept apart. The queue of a session points to the server's current
  tick, so two ticks that wait in the queue of a client are sent as the same message: the timestamp of
  the first one is lost.
\<close>

theorem waiting_ticks_alias:
  fixes env c1 c2 sv i
  defines "sv' \<equiv> Server_onUpdate env c2 (Server_onUpdate env c1 sv)" and "ss \<equiv> sv_clients sv ! i"
  assumes "has_flag (sv_availableDataFlags sv) EDataFlags_CONNECTION"
    and "\<forall>ss \<in> set (sv_clients sv). ss_state ss = CONNECTED"
    and "i < length (sv_clients sv)" and "\<not> ss_isSendingData ss" and "ss_dataFlags ss = 0"
  shows "map (queued_message (sv_store sv')) (drop (length (ss_sendQueue ss)) (ss_sendQueue (sv_clients sv' ! i)))
    = replicate 2 (createServerMsg_UPDATE_TICK env (sv_timestamp sv + 2))"
proof -
  define sv1 where "sv1 = Server_onUpdate env c1 sv"
  note one = onUpdate_tick [OF assms(3-5) assms(6,7) [unfolded ss_def], of env c1, folded sv1_def ss_def]
  have "\<not> ss_isSendingData (sv_clients sv1 ! i)" "ss_dataFlags (sv_clients sv1 ! i) = 0"
    using one(4) assms(6) by simp_all
  note two = onUpdate_tick [OF one(1,2,3) this, of env c2]
  show ?thesis
    using two(4,5) one(4,6) by (simp add: sv'_def flip: sv1_def) (simp add: queued_message_def numeral_2_eq_2 add.commute)
qed

theorem waiting_ticks_alias_witness:
  "let sv = sample_event (Some (Input_docs [clientDoc_HELLO sample_env] None)) (Some [Sent 3, Sent 3]) sample_sv0;
     sv' = Server_onUpdate sample_env id (Server_onUpdate sample_env id sv)
   in map (queued_message (sv_store sv')) (ss_sendQueue (sv_clients sv' ! 0))
     = replicate 2 (createServerMsg_UPDATE_TICK sample_env 2)"
proof -
  let ?sv = "sample_event (Some (Input_docs [clientDoc_HELLO sample_env] None)) (Some [Sent 3, Sent 3]) sample_sv0"
  have "has_flag (sv_availableDataFlags ?sv) EDataFlags_CONNECTION"
    "\<forall>ss \<in> set (sv_clients ?sv). ss_state ss = CONNECTED" "0 < length (sv_clients ?sv)"
    "\<not> ss_isSendingData (sv_clients ?sv ! 0)" "ss_dataFlags (sv_clients ?sv ! 0) = 0"
    and q: "ss_sendQueue (sv_clients ?sv ! 0) = []" "sv_timestamp ?sv = 0"
    by code_simp+
  from waiting_ticks_alias [OF this(1-5), of sample_env id id] q show ?thesis by (simp add: Let_def)
qed

text \<open>
  C35: a tick that is partly sent when the next update comes is read after it was freed. The server
  reaches a state in which the pointers to its sessions are valid, but the writer of an established client has
  sent part of a tick and still points into the text of that tick, which an update has since replaced: the
  update stops only \<open>DATA\<close> messages. An output event then reads the freed text.
\<close>

theorem partial_tick_dangles:
  "\<exists>sv v. sv_reach sample_env sv \<and> sv_clientsMoved sv = 0 \<and> ss_state (sv_clients sv ! 0) = CONNECTED
    \<and> isSending (ss_socketWriter (sv_clients sv ! 0)) \<and> 0 < w_dataPos (ss_socketWriter (sv_clients sv ! 0))
    \<and> w_place (ss_socketWriter (sv_clients sv ! 0)) = Some (CachedUpdateTick, v) \<and> v \<noteq> fst (sv_store sv CachedUpdateTick)
    \<and> fst (Server_clientEvent sample_env 0 None (Some [Sent 1]) False sv) = Inl undefined_behaviour"
proof (intro exI conjI)
  let ?sv = "Server_onUpdate sample_env id sample_sv2"
  show "sv_reach sample_env ?sv" using sample_sv2_reach by (rule sv_update)
  show "w_place (ss_socketWriter (sv_clients ?sv ! 0)) = Some (CachedUpdateTick, 1)" by code_simp
  show "sv_clientsMoved ?sv = 0" "ss_state (sv_clients ?sv ! 0) = CONNECTED" "isSending (ss_socketWriter (sv_clients ?sv ! 0))"
    "0 < w_dataPos (ss_socketWriter (sv_clients ?sv ! 0))" "1 \<noteq> fst (sv_store ?sv CachedUpdateTick)"
    "fst (Server_clientEvent sample_env 0 None (Some [Sent 1]) False ?sv) = Inl undefined_behaviour" by code_simp+
qed

text \<open>
  C39: output can stall. The server reaches a state in which part of a message is still to be sent on a
  live connection, but the poll system was told to wait for input only, since the queue is empty.
\<close>

theorem output_stall_reachable:
  "\<exists>sv ss. sv_reach sample_env sv \<and> ss \<in> set (sv_clients sv) \<and> ss_isConnected ss
    \<and> writer_pending (ss_socketWriter ss) \<noteq> [] \<and> \<not> ss_pollOutput ss"
proof (intro exI conjI)
  let ?sv = "sample_event None (Some [Sent 1]) sample_sv0"
  have "fst (Server_clientEvent sample_env 0 None (Some [Sent 1]) False sample_sv0) = Inr ()"
    and "0 < length (sv_clients sample_sv0)" by code_simp+
  with sample_sv0_reach show "sv_reach sample_env ?sv" unfolding sample_event_def by (metis sv_event prod.collapse)
  show "sv_clients ?sv ! 0 \<in> set (sv_clients ?sv)" "ss_isConnected (sv_clients ?sv ! 0)"
    "writer_pending (ss_socketWriter (sv_clients ?sv ! 0)) \<noteq> []" "\<not> ss_pollOutput (sv_clients ?sv ! 0)" by code_simp+
qed

text \<open>
  C36: forgetting a session in the middle breaks the others. With three clients, when the second one
  has gone, the update erases it from the inner part of the deque; the next socket event of a client
  that is still connected is handled through a pointer that is no longer valid.
\<close>

theorem inner_erase_dangles:
  "\<exists>sv. sv_reach sample_env sv \<and> ss_isConnected (sv_clients sv ! 1)
    \<and> fst (Server_clientEvent sample_env 1 (Some (Input_docs [] None)) None False sv) = Inl undefined_behaviour"
proof (intro exI conjI)
  define three where "three = ((\<lambda>sv. snd (Server_pollHandler (Some True) False sv)) ^^ 3) (Server_create sample_env True)"
  define gone where "gone = snd (snd (Server_clientEvent sample_env 1 (Some Input_lost) None False three))"
  have "sv_reach sample_env three" unfolding three_def by (simp add: numeral_3_eq_3 sv_accept sv_created)
  moreover have "fst (Server_clientEvent sample_env 1 (Some Input_lost) None False three) = Inr ()"
    "1 < length (sv_clients three)" unfolding three_def by code_simp+
  ultimately have "sv_reach sample_env gone" unfolding gone_def by (metis sv_event prod.collapse)
  then show "sv_reach sample_env (Server_onUpdate sample_env id gone)" by (rule sv_update)
  show "ss_isConnected (sv_clients (Server_onUpdate sample_env id gone) ! 1)"
    "fst (Server_clientEvent sample_env 1 (Some (Input_docs [] None)) None False (Server_onUpdate sample_env id gone))
      = Inl undefined_behaviour" unfolding gone_def three_def by code_simp+
qed

end
