(* ===== verification/ClientSess.thy ===== *)
theory ClientSess
  imports ServerUpdates
begin

text \<open>
  \<^verbatim>\<open>ClientSession\<close> (\<^verbatim>\<open>ClientServerProtocol.hpp\<close> and \<^verbatim>\<open>.cpp\<close>): the client's
  end of a session, passed along with the state \<open>'s\<close> of the object behind the callback interface.
  The callbacks that may throw return a result. \<open>cs_pollOutput\<close> is as in the server's session.
\<close>

section \<open>State\<close>

datatype EExpectedMsg = EM_NONE | EM_SERVER_BANNER | EM_SERVER_HELLO | EM_SERVER_DATA_STATUS

record ClientSession =
  cs_isConnected :: bool
  cs_pollOutput :: bool
  cs_socketWriter :: "unit StreamSocketWriter"
  cs_sendQueue :: "SerializedClientMessage list"
  cs_state :: ESessionState
  cs_expectedMsg :: EExpectedMsg
  cs_isConnectionEstablished :: bool
  cs_sessionTTL :: int
  cs_dataFlags :: flags
  cs_dataUpdateFlags :: flags
  cs_currentTimestamp :: u32
  cs_serverName :: string
  cs_serverVersion :: string
  cs_serverPlatformName :: string
  cs_serverHost :: string
  cs_disconnectReason :: EDisconnectReason
  cs_disconnectError :: string

definition ClientSession_create :: ClientSession where
  "ClientSession_create =
     \<lparr>cs_isConnected = False, cs_pollOutput = False, cs_socketWriter = StreamSocketWriter_init, cs_sendQueue = [],
      cs_state = DISCONNECTED, cs_expectedMsg = EM_NONE, cs_isConnectionEstablished = False, cs_sessionTTL = 0,
      cs_dataFlags = 0, cs_dataUpdateFlags = 0, cs_currentTimestamp = 0, cs_serverName = [], cs_serverVersion = [],
      cs_serverPlatformName = [], cs_serverHost = [], cs_disconnectReason = DR_UNKNOWN, cs_disconnectError = []\<rparr>"

type_synonym 's csess = "ClientSession \<times> 's"

record 's IClientSessionCallback =
  ccb_onSessionConnectionEstablished :: "'s csess \<Rightarrow> 's csess"
  ccb_onSessionEstablished :: "'s csess \<Rightarrow> 's csess"
  ccb_onSessionDisconnect :: "'s csess \<Rightarrow> unit result \<times> 's csess"
  ccb_onSessionServerTick :: "'s csess \<Rightarrow> 's csess"
  ccb_onSessionDataStatus :: "bool \<Rightarrow> 's csess \<Rightarrow> 's csess"
  ccb_onSessionData :: "flags \<Rightarrow> bool \<Rightarrow> json \<Rightarrow> 's csess \<Rightarrow> unit result \<times> 's csess"

section \<open>Sending and closing\<close>

definition cs_sendMessage :: "SerializedClientMessage \<Rightarrow> ClientSession \<Rightarrow> ClientSession" where
  "cs_sendMessage msg cs =
     (let cs1 = (if cs_sendQueue cs = [] then cs\<lparr>cs_pollOutput := True\<rparr> else cs)
      in cs1\<lparr>cs_sendQueue := cs_sendQueue cs1 @ [msg]\<rparr>)"

definition cs_quickDisconnect ::
  "'s IClientSessionCallback \<Rightarrow> EDisconnectReason \<Rightarrow> string \<Rightarrow> 's csess \<Rightarrow> unit result \<times> 's csess" where
  "cs_quickDisconnect cb reason error = (\<lambda>(cs, s).
     ccb_onSessionDisconnect cb
       (cs\<lparr>cs_isConnected := False, cs_state := DISCONNECTED, cs_isConnectionEstablished := False, cs_sendQueue := [],
           cs_disconnectReason := reason, cs_disconnectError := error\<rparr>, s))"

text \<open>\<open>isConnected\<close> is the state of the socket that is handed over.\<close>

definition cs_connect :: "bool \<Rightarrow> ClientSession \<Rightarrow> ClientSession" where
  "cs_connect isConnected cs =
     (if cs_state cs = DISCONNECTED \<and> isConnected
      then cs\<lparr>cs_isConnected := True, cs_state := OPENING, cs_sessionTTL := 4, cs_expectedMsg := EM_SERVER_BANNER,
              cs_pollOutput := True\<rparr>
      else cs)"

definition cs_disconnect :: "app_env \<Rightarrow> 's IClientSessionCallback \<Rightarrow> 's csess \<Rightarrow> unit result \<times> 's csess" where
  "cs_disconnect env cb = (\<lambda>(cs, s).
     if cs_state cs = CONNECTED
     then (Inr (), cs_sendMessage (createClientMsg_DISCONNECT env USER_DECISION)
             (cs\<lparr>cs_state := CLOSING, cs_sessionTTL := 2, cs_disconnectReason := USER_DECISION,
                 cs_disconnectError := []\<rparr>), s)
     else if cs_state cs = OPENING then cs_quickDisconnect cb USER_DECISION [] (cs, s)
     else (Inr (), cs, s))"

definition cs_requestData :: "app_env \<Rightarrow> flags \<Rightarrow> flags \<Rightarrow> ClientSession \<Rightarrow> ClientSession" where
  "cs_requestData env dataFlags dataUpdateFlags cs =
     (if cs_state cs = CONNECTED \<and> cs_expectedMsg cs = EM_NONE
      then cs_sendMessage (createClientMsg_REQUEST_DATA env dataFlags dataUpdateFlags)
             (cs\<lparr>cs_expectedMsg := EM_SERVER_DATA_STATUS\<rparr>)
      else cs)"

definition cs_onUpdate :: "'s IClientSessionCallback \<Rightarrow> 's csess \<Rightarrow> unit result \<times> 's csess" where
  "cs_onUpdate cb = (\<lambda>(cs, s).
     if cs_state cs \<noteq> DISCONNECTED
     then (if cs_sessionTTL cs > 0 then (Inr (), cs\<lparr>cs_sessionTTL := cs_sessionTTL cs - 1\<rparr>, s)
           else cs_quickDisconnect cb TIMEOUT [] (cs, s))
     else (Inr (), cs, s))"

section \<open>Messages\<close>

definition cs_onBanner :: "app_env \<Rightarrow> 's IClientSessionCallback \<Rightarrow> json \<Rightarrow> 's csess \<Rightarrow> unit result \<times> 's csess" where
  "cs_onBanner env cb message = (\<lambda>(cs, s).
     if cs_state cs \<noteq> OPENING \<or> cs_expectedMsg cs \<noteq> EM_SERVER_BANNER
     then (Inl (invalid_argument ''Unexpected BANNER message''), cs, s)
     else
       case get_int message ''conntop_server'' ''Missing server identification''
              ''Invalid server identification value type'' of
         Inl e \<Rightarrow> (Inl e, cs, s)
       | Inr serverProtocolVersion \<Rightarrow>
           if serverProtocolVersion \<noteq> VERSION then cs_quickDisconnect cb VERSION_MISMATCH [] (cs, s)
           else (Inr (), cs_sendMessage (createClientMsg_HELLO env) (cs\<lparr>cs_expectedMsg := EM_SERVER_HELLO\<rparr>), s))"

definition cs_onHello :: "'s IClientSessionCallback \<Rightarrow> json \<Rightarrow> 's csess \<Rightarrow> unit result \<times> 's csess" where
  "cs_onHello cb message = (\<lambda>(cs, s).
     if cs_state cs \<noteq> OPENING \<or> cs_expectedMsg cs \<noteq> EM_SERVER_HELLO
     then (Inl (invalid_argument ''Unexpected HELLO message''), cs, s)
     else
       case result_bind (get_string message ''name'' ''Missing server name'' ''Invalid server name value type'') (\<lambda>name.
            result_bind (get_string message ''version'' ''Missing server version'' ''Invalid server version value type'') (\<lambda>version.
            result_bind (get_string message ''platform'' ''Missing server platform name''
              ''Invalid server platform name value type'') (\<lambda>platform. Inr (name, version, platform)))) of
         Inl e \<Rightarrow> (Inl e, cs, s)
       | Inr (name, version, platform) \<Rightarrow>
           (Inr (), ccb_onSessionEstablished cb
             (cs\<lparr>cs_serverName := name, cs_serverVersion := version, cs_serverPlatformName := platform,
                 cs_expectedMsg := EM_NONE, cs_state := CONNECTED, cs_sessionTTL := 3, cs_currentTimestamp := 0,
                 cs_dataFlags := 0, cs_dataUpdateFlags := 0\<rparr>, s)))"

definition cs_onDisconnectMsg :: "'s IClientSessionCallback \<Rightarrow> json \<Rightarrow> 's csess \<Rightarrow> unit result \<times> 's csess" where
  "cs_onDisconnectMsg cb message x =
     (case get_string message ''reason'' ''Missing disconnect reason'' ''Invalid disconnect reason value type'' of
        Inl e \<Rightarrow> (Inl e, x)
      | Inr reasonName \<Rightarrow>
          let reason = getDisconnectReasonEnum reasonName
          in cs_quickDisconnect cb reason (if reason = DR_UNKNOWN then reasonName else []) x)"

definition cs_onUpdateTick :: "'s IClientSessionCallback \<Rightarrow> json \<Rightarrow> 's csess \<Rightarrow> unit result \<times> 's csess" where
  "cs_onUpdateTick cb message = (\<lambda>(cs, s).
     if cs_state cs = CLOSING then (Inr (), cs, s)
     else if cs_state cs \<noteq> CONNECTED then (Inl (invalid_argument ''Unexpected UPDATE_TICK message''), cs, s)
     else
       case get_uint message ''timestamp'' ''Missing update tick timestamp''
              ''Invalid update tick timestamp value type'' of
         Inl e \<Rightarrow> (Inl e, cs, s)
       | Inr n \<Rightarrow>
           let timestamp = word_of_int n
           in if timestamp \<noteq> cs_currentTimestamp cs + 1 \<and> cs_currentTimestamp cs \<noteq> 0
              then (Inl (invalid_argument ''Unexpected update tick timestamp''), cs, s)
              else (Inr (), ccb_onSessionServerTick cb
                     (cs\<lparr>cs_currentTimestamp := timestamp, cs_sessionTTL := cs_sessionTTL cs + 1\<rparr>, s)))"

definition cs_onDataStatus :: "'s IClientSessionCallback \<Rightarrow> json \<Rightarrow> 's csess \<Rightarrow> unit result \<times> 's csess" where
  "cs_onDataStatus cb message = (\<lambda>(cs, s).
     if cs_state cs = CLOSING then (Inr (), cs, s)
     else if cs_expectedMsg cs \<noteq> EM_SERVER_DATA_STATUS
     then (Inl (invalid_argument ''Unexpected DATA_STATUS message''), cs, s)
     else
       case result_bind (get_int message ''dataFlags'' ''Missing data status flags''
              ''Invalid data status flags value type'') (\<lambda>f.
            result_bind (get_int message ''dataUpdateFlags'' ''Missing data status update flags''
              ''Invalid data status update flags value type'') (\<lambda>g. Inr (f, g))) of
         Inl e \<Rightarrow> (Inl e, cs, s)
       | Inr (f, g) \<Rightarrow>
           let dataFlags = word_of_int f; dataUpdateFlags = word_of_int g;
               isDifferent = (cs_dataFlags cs \<noteq> dataFlags)
           in (Inr (), ccb_onSessionDataStatus cb isDifferent
                (cs\<lparr>cs_dataFlags := dataFlags, cs_dataUpdateFlags := dataUpdateFlags, cs_expectedMsg := EM_NONE,
                    cs_sessionTTL := 3\<rparr>, s)))"

definition cs_onData :: "'s IClientSessionCallback \<Rightarrow> json \<Rightarrow> 's csess \<Rightarrow> unit result \<times> 's csess" where
  "cs_onData cb message = (\<lambda>(cs, s).
     if cs_state cs = CLOSING then (Inr (), cs, s)
     else if cs_state cs \<noteq> CONNECTED then (Inl (invalid_argument ''Unexpected DATA message''), cs, s)
     else
       case result_bind (get_int message ''type'' ''Missing data type'' ''Invalid data type value type'') (\<lambda>n.
            result_bind (get_bool message ''isUpdate'' ''Missing data update flag''
              ''Invalid data update flag value type'') (\<lambda>isUpdate.
            case FindMember message ''data'' of
              None \<Rightarrow> Inl (invalid_argument ''Missing data'')
            | Some data \<Rightarrow> Inr (word_of_int n, isUpdate, data))) of
         Inl e \<Rightarrow> (Inl e, cs, s)
       | Inr (type, isUpdate, data) \<Rightarrow>
           if \<not> has_flag type (cs_dataFlags cs) then (Inl (invalid_argument ''Unexpected data''), cs, s)
           else if isUpdate \<and> \<not> has_flag type (cs_dataUpdateFlags cs)
           then (Inl (invalid_argument ''Unexpected data update''), cs, s)
           else ccb_onSessionData cb type isUpdate data (cs, s))"

text \<open>The name of the message: the member \<open>message\<close> if it is a string, else the banner's own member.\<close>

definition cs_msgType :: "json \<Rightarrow> (EServerMsg \<times> string) result" where
  "cs_msgType message =
     (case FindMember message ''message'' of
        Some (JString name) \<Rightarrow> Inr (getServerMsgEnum (KString_of_cstr name), KString_of_cstr name)
      | _ \<Rightarrow>
          if FindMember message ''conntop_server'' \<noteq> None then Inr (SM_BANNER, [])
          else Inl (invalid_argument ''Invalid message''))"

definition cs_onMessage :: "app_env \<Rightarrow> 's IClientSessionCallback \<Rightarrow> json \<Rightarrow> 's csess \<Rightarrow> unit result \<times> 's csess" where
  "cs_onMessage env cb message x =
     (if \<not> IsObject message then (Inl (invalid_argument ''Invalid message''), x)
      else
        case cs_msgType message of
          Inl e \<Rightarrow> (Inl e, x)
        | Inr (msgType, name) \<Rightarrow>
            (case msgType of
               SM_UNKNOWN \<Rightarrow> (Inl (invalid_argument (''Unknown message '' @ [CHR 0x27] @ name @ [CHR 0x27])), x)
             | SM_BANNER \<Rightarrow> cs_onBanner env cb message x
             | SM_HELLO \<Rightarrow> cs_onHello cb message x
             | SM_DISCONNECT \<Rightarrow> cs_onDisconnectMsg cb message x
             | SM_UPDATE_TICK \<Rightarrow> cs_onUpdateTick cb message x
             | SM_DATA_STATUS \<Rightarrow> cs_onDataStatus cb message x
             | SM_DATA \<Rightarrow> cs_onData cb message x))"

section \<open>Socket events\<close>

fun cs_onMessages :: "app_env \<Rightarrow> 's IClientSessionCallback \<Rightarrow> json list \<Rightarrow> 's csess \<Rightarrow> unit result \<times> 's csess" where
  "cs_onMessages env cb [] x = (Inr (), x)"
| "cs_onMessages env cb (d # ds) x =
     (case cs_onMessage env cb d x of (Inl e, x') \<Rightarrow> (Inl e, x') | (Inr _, x') \<Rightarrow> cs_onMessages env cb ds x')"

text \<open>Only \<open>std::invalid_argument\<close> is caught; any other exception leaves the handler.\<close>

definition cs_handleInput :: "app_env \<Rightarrow> 's IClientSessionCallback \<Rightarrow> input \<Rightarrow> 's csess \<Rightarrow> unit result \<times> 's csess" where
  "cs_handleInput env cb inp x =
     (case inp of
        Input_error e \<Rightarrow>
          cs_quickDisconnect cb SOCKET_ERROR
            ((if cs_isConnectionEstablished (fst x) then ''Unable to receive data: '' else []) @ e) x
      | Input_lost \<Rightarrow>
          (if cs_state (fst x) = CLOSING then cs_quickDisconnect cb (cs_disconnectReason (fst x)) [] x
           else cs_quickDisconnect cb CONNECTION_LOST [] x)
      | Input_docs docs err \<Rightarrow>
          (case cs_onMessages env cb docs x of
             (Inl (invalid_argument e), x') \<Rightarrow> cs_quickDisconnect cb PROTOCOL_ERROR e x'
           | (Inl e, x') \<Rightarrow> (Inl e, x')
           | (Inr _, x') \<Rightarrow>
               (case err of None \<Rightarrow> (Inr (), x') | Some e \<Rightarrow> cs_quickDisconnect cb PROTOCOL_ERROR e x')))"

fun cs_send_loop ::
  "send_result list \<Rightarrow> SerializedClientMessage list \<Rightarrow> unit StreamSocketWriter \<Rightarrow>
     doSend_result \<times> string \<times> SerializedClientMessage list \<times> unit StreamSocketWriter" where
  "cs_send_loop rs [] w = (case doSend (\<lambda>_. 0) (next_result rs) w of (r, out, w') \<Rightarrow> (r, out, [], w'))"
| "cs_send_loop rs (m # ms) w =
     (case doSend (\<lambda>_. 0) (next_result rs) w of
        (Send_done, out, w') \<Rightarrow>
          (let (r, out', rest) = cs_send_loop (if isSending w then tl rs else rs) ms (snd (writer_send (sm_msg m) w'))
           in (r, out @ out', rest))
      | (r, out, w') \<Rightarrow> (r, out, m # ms, w'))"

text \<open>\<open>verify\<close> is the error of \<open>verifyConnect\<close>, if any.\<close>

definition cs_handleOutput ::
  "'s IClientSessionCallback \<Rightarrow> string option \<Rightarrow> send_result list \<Rightarrow> 's csess \<Rightarrow> unit result \<times> string \<times> 's csess" where
  "cs_handleOutput cb verify rs = (\<lambda>(cs, s).
     if cs_isConnectionEstablished cs
     then
       case cs_send_loop rs (cs_sendQueue cs) (cs_socketWriter cs) of
         (r, out, q, w) \<Rightarrow>
           let cs1 = cs\<lparr>cs_sendQueue := q, cs_socketWriter := w\<rparr>
           in case r of
                Send_error e \<Rightarrow>
                  (let (res, x) = cs_quickDisconnect cb SOCKET_ERROR (''Unable to send data: '' @ e) (cs1, s) in (res, out, x))
              | Send_undefined \<Rightarrow> (Inl undefined_behaviour, out, cs1, s)
              | _ \<Rightarrow> (Inr (), out, cs1, s)
     else
       case verify of
         Some e \<Rightarrow> (let (res, x) = cs_quickDisconnect cb SOCKET_ERROR e (cs, s) in (res, [], x))
       | None \<Rightarrow> (Inr (), [], ccb_onSessionConnectionEstablished cb (cs\<lparr>cs_isConnectionEstablished := True\<rparr>, s)))"

definition cs_SocketPollHandler ::
  "app_env \<Rightarrow> 's IClientSessionCallback \<Rightarrow> input option \<Rightarrow> (string option \<times> send_result list) option \<Rightarrow> bool \<Rightarrow>
     's csess \<Rightarrow> unit result \<times> string \<times> 's csess" where
  "cs_SocketPollHandler env cb inp outp isError x =
     (let (r1, x1) = (case inp of None \<Rightarrow> (Inr (), x) | Some i \<Rightarrow> cs_handleInput env cb i x)
      in case r1 of
           Inl e \<Rightarrow> (Inl e, [], x1)
         | Inr _ \<Rightarrow>
             let (r2, out, x2) =
               (case outp of
                  None \<Rightarrow> (Inr (), [], x1)
                | Some (verify, rs) \<Rightarrow>
                    if cs_state (fst x1) \<noteq> DISCONNECTED then cs_handleOutput cb verify rs x1 else (Inr (), [], x1))
             in case r2 of
                  Inl e \<Rightarrow> (Inl e, out, x2)
                | Inr _ \<Rightarrow>
                    let (r3, x3) =
                      (if isError \<and> cs_state (fst x2) \<noteq> DISCONNECTED
                       then cs_quickDisconnect cb SOCKET_ERROR ''Socket poll failed'' x2 else (Inr (), x2))
                    in case r3 of
                         Inl e \<Rightarrow> (Inl e, out, x3)
                       | Inr _ \<Rightarrow>
                           (Inr (), out,
                            if cs_isConnected (fst x3)
                            then ((fst x3)\<lparr>cs_pollOutput := (cs_sendQueue (fst x3) \<noteq> [])\<rparr>, snd x3) else x3))"

end
