(* ===== verification/ClientModel.thy ===== *)
theory ClientModel
  imports ClientSess
begin

text \<open>
  \<^verbatim>\<open>Client\<close> and \<^verbatim>\<open>ClientConnector\<close> (\<^verbatim>\<open>Client.hpp\<close>,
  \<^verbatim>\<open>Client.cpp\<close>): connecting to one of the server's addresses, requesting data and keeping the
  connection list synchronized. The application's connection list is a field of the client here. The
  argument \<open>ok\<close> says for which address and port \<open>StreamSocket::connect\<close> does not throw.
  Dispatched events, refreshes of the UI and the call of \<open>App::quit\<close> are recorded in
  \<open>cl_effects\<close>.
\<close>

section \<open>Connector\<close>

record ClientConnector =
  cc_host :: string
  cc_resolvedAddresses :: "IAddress list"
  cc_resolvedPorts :: "Port list"
  cc_addressIndex :: nat
  cc_portIndex :: nat
  cc_currentAddress :: "IAddress option"
  cc_currentPort :: u16

definition DEFAULT_PORT :: u16 where
  "DEFAULT_PORT = 55555"

definition ClientConnector_create :: "string option \<Rightarrow> ClientConnector result" where
  "ClientConnector_create connectArg =
     (case connectArg of
        None \<Rightarrow> Inl (Exception ''No server to connect'')
      | Some host \<Rightarrow>
          Inr \<lparr>cc_host = host, cc_resolvedAddresses = [], cc_resolvedPorts = [], cc_addressIndex = 0, cc_portIndex = 0,
               cc_currentAddress = None, cc_currentPort = 0\<rparr>)"

text \<open>The choice of the next address and port; the list of addresses is not empty.\<close>

definition connector_next :: "ClientConnector \<Rightarrow> ClientConnector" where
  "connector_next cc0 =
     (let cc = cc0\<lparr>cc_currentAddress := None, cc_currentPort := DEFAULT_PORT\<rparr>
      in if cc_resolvedPorts cc = []
         then
           (if cc_addressIndex cc < length (cc_resolvedAddresses cc)
            then cc\<lparr>cc_currentAddress := Some (cc_resolvedAddresses cc ! cc_addressIndex cc),
                    cc_addressIndex := cc_addressIndex cc + 1\<rparr>
            else cc)
         else
           let cc1 = (if cc_addressIndex cc \<ge> length (cc_resolvedAddresses cc)
                      then cc\<lparr>cc_portIndex := cc_portIndex cc + 1, cc_addressIndex := 0\<rparr> else cc);
               cc2 = cc1\<lparr>cc_currentAddress :=
                           (if cc_addressIndex cc1 < length (cc_resolvedAddresses cc1)
                            then Some (cc_resolvedAddresses cc1 ! cc_addressIndex cc1) else None),
                         cc_addressIndex := cc_addressIndex cc1 + 1\<rparr>
           in if cc_portIndex cc2 < length (cc_resolvedPorts cc2)
              then cc2\<lparr>cc_currentPort := port_number (cc_resolvedPorts cc2 ! cc_portIndex cc2)\<rparr>
              else cc2\<lparr>cc_currentAddress := None\<rparr>)"

text \<open>The number of combinations that are still to be tried.\<close>

definition connector_left :: "ClientConnector \<Rightarrow> nat" where
  "connector_left cc =
     (if cc_resolvedPorts cc = [] then length (cc_resolvedAddresses cc) - cc_addressIndex cc
      else (length (cc_resolvedPorts cc) - cc_portIndex cc) * length (cc_resolvedAddresses cc)
        + (length (cc_resolvedAddresses cc) - cc_addressIndex cc))"

lemma connector_next_lists:
  "cc_resolvedAddresses (connector_next cc) = cc_resolvedAddresses cc"
  "cc_resolvedPorts (connector_next cc) = cc_resolvedPorts cc"
  "cc_host (connector_next cc) = cc_host cc"
  by (simp_all add: connector_next_def Let_def)

lemma connector_left_decreases:
  assumes "cc_currentAddress (connector_next cc) = Some a"
  shows "connector_left (connector_next cc) < connector_left cc"
proof (cases "cc_resolvedPorts cc = []")
  case True
  with assms show ?thesis by (auto simp: connector_next_def connector_left_def Let_def split: if_splits)
next
  case False
  let ?A = "length (cc_resolvedAddresses cc)" and ?P = "length (cc_resolvedPorts cc)"
  show ?thesis
  proof (cases "cc_addressIndex cc \<ge> ?A")
    case True
    with False assms have "Suc (cc_portIndex cc) < ?P" "0 < ?A"
      by (auto simp: connector_next_def Let_def split: if_splits)
    moreover from this(1) obtain k where "?P = Suc (cc_portIndex cc) + k" using less_imp_Suc_add by fastforce
    ultimately show ?thesis using True False by (simp add: connector_next_def connector_left_def Let_def)
  next
    case F: False
    with False show ?thesis
      by (simp add: connector_next_def connector_left_def Let_def) linarith
  qed
qed

function connector_loop :: "(IAddress \<Rightarrow> u16 \<Rightarrow> bool) \<Rightarrow> ClientConnector \<Rightarrow> unit result \<times> ClientConnector" where
  "connector_loop ok cc =
     (case cc_currentAddress (connector_next cc) of
        None \<Rightarrow> (Inl (Exception (''Unable to connect to '' @ [CHR 0x27] @ cc_host cc @ [CHR 0x27])), connector_next cc)
      | Some a \<Rightarrow>
          if ok a (cc_currentPort (connector_next cc)) then (Inr (), connector_next cc)
          else connector_loop ok (connector_next cc))"
  by pat_completeness auto
termination by (relation "measure (connector_left \<circ> snd)") (simp_all add: connector_left_decreases)

declare connector_loop.simps [simp del]

definition tryNext ::
  "(IAddress \<Rightarrow> u16 \<Rightarrow> bool) \<Rightarrow> ClientConnector \<Rightarrow> ClientSession \<Rightarrow> unit result \<times> ClientConnector \<times> ClientSession" where
  "tryNext ok cc cs =
     (if cc_resolvedAddresses cc = [] then (Inr (), cc, cs)
      else case connector_loop ok cc of
             (Inl e, cc') \<Rightarrow> (Inl e, cc', cs)
           | (Inr _, cc') \<Rightarrow> (Inr (), cc', cs_connect True cs))"

section \<open>State\<close>

datatype ClientEvent = CE_DISCONNECTED | CONNECT_STARTED | DISCONNECT_STARTED | CONNECTION_ESTABLISHED
  | SESSION_ESTABLISHED | SERVER_UPDATE_TICK | NEW_DATA_AVAILABLE | SYNC_STATE_CHANGED

datatype client_effect = Dispatch ClientEvent | RefreshConnectionList | Quit

record Client =
  cl_connector :: "ClientConnector option"
  cl_requestedDataFlags :: flags
  cl_requestedDataUpdateFlags :: flags
  cl_remainingDataFlags :: flags
  cl_isDataRequested :: bool
  cl_isSynchronized :: bool
  cl_isPaused :: bool
  cl_list :: ConnectionList
  cl_hasUI :: bool
  cl_effects :: "client_effect list"

definition Client_create :: "bool \<Rightarrow> Client" where
  "Client_create hasUI =
     \<lparr>cl_connector = None, cl_requestedDataFlags = 0, cl_requestedDataUpdateFlags = 0, cl_remainingDataFlags = 0,
      cl_isDataRequested = False, cl_isSynchronized = False, cl_isPaused = False, cl_list = ConnectionList_init,
      cl_hasUI = hasUI, cl_effects = []\<rparr>"

definition cl_emit :: "client_effect \<Rightarrow> Client \<Rightarrow> Client" where
  "cl_emit e cl = cl\<lparr>cl_effects := cl_effects cl @ [e]\<rparr>"

definition cl_requestData :: "app_env \<Rightarrow> Client csess \<Rightarrow> Client csess" where
  "cl_requestData env = (\<lambda>(cs, cl).
     (cs_requestData env (cl_requestedDataFlags cl) (cl_requestedDataUpdateFlags cl) cs, cl\<lparr>cl_isDataRequested := True\<rparr>))"

definition setSynchronized :: "bool \<Rightarrow> Client \<Rightarrow> Client" where
  "setSynchronized isSynchronized cl =
     (if cl_isSynchronized cl \<noteq> isSynchronized
      then cl_emit (Dispatch SYNC_STATE_CHANGED) (cl\<lparr>cl_isSynchronized := isSynchronized\<rparr>) else cl)"

section \<open>Callbacks of the session\<close>

definition cl_onSessionConnectionEstablished :: "Client csess \<Rightarrow> Client csess" where
  "cl_onSessionConnectionEstablished = (\<lambda>(cs, cl).
     case cl_connector cl of
       Some cc \<Rightarrow> (cs\<lparr>cs_serverHost := cc_host cc\<rparr>, cl_emit (Dispatch CONNECTION_ESTABLISHED) (cl\<lparr>cl_connector := None\<rparr>))
     | None \<Rightarrow> (cs, cl_emit (Dispatch CONNECTION_ESTABLISHED) cl))"

definition cl_onSessionEstablished :: "app_env \<Rightarrow> Client csess \<Rightarrow> Client csess" where
  "cl_onSessionEstablished env = (\<lambda>(cs, cl).
     let (cs1, cl1) = cl_requestData env (cs, cl\<lparr>cl_requestedDataFlags := EDataFlags_CONNECTION,
           cl_requestedDataUpdateFlags := 0, cl_remainingDataFlags := 0\<rparr>)
     in (cs1, cl_emit (Dispatch SESSION_ESTABLISHED) (cl1\<lparr>cl_isSynchronized := False\<rparr>)))"

definition cl_onSessionDisconnect ::
  "(IAddress \<Rightarrow> u16 \<Rightarrow> bool) \<Rightarrow> Client csess \<Rightarrow> unit result \<times> Client csess" where
  "cl_onSessionDisconnect ok = (\<lambda>(cs, cl).
     let quit = (\<lambda>(cs1, cl1). (cs1, if cs_disconnectReason cs1 = USER_DECISION then cl_emit Quit cl1 else cl1))
     in case cl_connector cl of
          Some cc \<Rightarrow>
            (case tryNext ok cc cs of
               (Inl e, cc', cs') \<Rightarrow> (Inl e, cs', cl\<lparr>cl_connector := Some cc'\<rparr>)
             | (Inr _, cc', cs') \<Rightarrow> (Inr (), quit (cs', cl\<lparr>cl_connector := Some cc'\<rparr>)))
        | None \<Rightarrow>
            (Inr (), quit (cs, cl_emit (Dispatch CE_DISCONNECTED)
               (cl\<lparr>cl_isSynchronized := False, cl_isDataRequested := False\<rparr>))))"

definition cl_onSessionServerTick :: "app_env \<Rightarrow> Client csess \<Rightarrow> Client csess" where
  "cl_onSessionServerTick env = (\<lambda>(cs, cl0).
     let cl = cl_emit (Dispatch SERVER_UPDATE_TICK) cl0;
         (cs1, cl1) =
           (if cl_remainingDataFlags cl \<noteq> 0
            then
              let cl2 = setSynchronized False (cl\<lparr>cl_remainingDataFlags := 0, cl_requestedDataUpdateFlags := 0\<rparr>)
              in if \<not> cl_isPaused cl2 then cl_requestData env (cs, cl2) else (cs, cl2)
            else if cs_expectedMsg cs = EM_SERVER_DATA_STATUS \<or> cl_isPaused cl then (cs, setSynchronized False cl)
            else (cs, cl\<lparr>cl_remainingDataFlags := cl_requestedDataFlags cl\<rparr>))
     in (cs1, cl1\<lparr>cl_isDataRequested := False\<rparr>))"

definition cl_onSessionDataStatus :: "app_env \<Rightarrow> bool \<Rightarrow> Client csess \<Rightarrow> Client csess" where
  "cl_onSessionDataStatus env isDifferent = (\<lambda>(cs, cl0).
     let cl = cl0\<lparr>cl_requestedDataFlags := cl_requestedDataFlags cl0 AND cs_dataFlags cs,
                  cl_requestedDataUpdateFlags := cl_requestedDataUpdateFlags cl0 AND cs_dataUpdateFlags cs\<rparr>;
         (cs1, cl1) =
           (if cl_requestedDataUpdateFlags cl \<noteq> 0 \<and> \<not> cl_isSynchronized cl
            then cl_requestData env (cs, cl\<lparr>cl_requestedDataUpdateFlags := 0\<rparr>) else (cs, cl))
     in (cs1, if isDifferent then cl_emit (Dispatch NEW_DATA_AVAILABLE) cl1 else cl1))"

text \<open>
  The argument of the log message calls \<open>Size()\<close> on the value before its type is checked, which
  RapidJSON asserts to be an array.
\<close>

definition cl_onSessionData ::
  "app_env \<Rightarrow> inet \<Rightarrow> flags \<Rightarrow> bool \<Rightarrow> json \<Rightarrow> Client csess \<Rightarrow> unit result \<times> Client csess" where
  "cl_onSessionData env net type isUpdate data = (\<lambda>(cs, cl).
     if (isUpdate \<and> \<not> cl_isSynchronized cl) \<or> \<not> has_flag type (cl_remainingDataFlags cl) \<or> cl_isPaused cl
     then (Inr (), cs, cl)
     else if \<not> has_flag type EDataFlags_CONNECTION then (Inr (), cs, cl)
     else
       case data of
         JArray docs \<Rightarrow>
           (case deserialize_all net (list_callback net) docs (if isUpdate then cl_list cl else clear (cl_list cl)) of
              (Inl e, l) \<Rightarrow> (Inl e, cs, cl\<lparr>cl_list := l\<rparr>)
            | (Inr _, l) \<Rightarrow>
                let cl1 = cl\<lparr>cl_list := l\<rparr>;
                    cl2 = (if cl_hasUI cl1 then cl_emit RefreshConnectionList cl1 else cl1);
                    cl3 = cl2\<lparr>cl_remainingDataFlags := cl_remainingDataFlags cl2 AND NOT EDataFlags_CONNECTION\<rparr>
                in if cl_remainingDataFlags cl3 \<noteq> 0 then (Inr (), cs, cl3)
                   else
                     let cl4 = (if \<not> cl_isSynchronized cl3
                                then (setSynchronized True cl3)\<lparr>cl_requestedDataUpdateFlags := cl_requestedDataFlags cl3\<rparr>
                                else cl3)
                     in (Inr (), cl_requestData env (cs, cl4)))
       | _ \<Rightarrow> (Inl assertion_failed, cs, cl))"

definition cl_callback ::
  "app_env \<Rightarrow> inet \<Rightarrow> (IAddress \<Rightarrow> u16 \<Rightarrow> bool) \<Rightarrow> Client IClientSessionCallback" where
  "cl_callback env net ok =
     \<lparr>ccb_onSessionConnectionEstablished = cl_onSessionConnectionEstablished,
      ccb_onSessionEstablished = cl_onSessionEstablished env,
      ccb_onSessionDisconnect = cl_onSessionDisconnect ok,
      ccb_onSessionServerTick = cl_onSessionServerTick env,
      ccb_onSessionDataStatus = cl_onSessionDataStatus env,
      ccb_onSessionData = cl_onSessionData env net\<rparr>"

section \<open>Operations\<close>

definition Client_init :: "string option \<Rightarrow> Client csess \<Rightarrow> unit result \<times> Client csess" where
  "Client_init connectArg = (\<lambda>(cs, cl).
     case ClientConnector_create connectArg of
       Inl e \<Rightarrow> (Inl e, cs, cl)
     | Inr cc \<Rightarrow> (Inr (), cs, cl_emit (Dispatch CONNECT_STARTED) (cl\<lparr>cl_connector := Some cc\<rparr>)))"

text \<open>The resolver's answers, delivered to the connector.\<close>

definition PortResolveCallback :: "string \<Rightarrow> Port list \<Rightarrow> ClientConnector \<Rightarrow> ClientConnector result" where
  "PortResolveCallback service pack cc =
     (if pack = [] then Inl (Exception (''Unable to resolve server port '' @ [CHR 0x27] @ service @ [CHR 0x27]))
      else Inr (cc\<lparr>cc_resolvedPorts := pack, cc_portIndex := 0\<rparr>))"

definition HostResolveCallback ::
  "(IAddress \<Rightarrow> u16 \<Rightarrow> bool) \<Rightarrow> string \<Rightarrow> IAddress list \<Rightarrow> ClientConnector \<Rightarrow> ClientSession \<Rightarrow>
     unit result \<times> ClientConnector \<times> ClientSession" where
  "HostResolveCallback ok hostname pack cc cs =
     (if pack = [] then (Inl (Exception (''Unable to resolve server address '' @ [CHR 0x27] @ hostname @ [CHR 0x27])), cc, cs)
      else tryNext ok (cc\<lparr>cc_resolvedAddresses := pack, cc_addressIndex := 0\<rparr>) cs)"

definition Client_onUpdate ::
  "app_env \<Rightarrow> inet \<Rightarrow> (IAddress \<Rightarrow> u16 \<Rightarrow> bool) \<Rightarrow> Client csess \<Rightarrow> unit result \<times> Client csess" where
  "Client_onUpdate env net ok = cs_onUpdate (cl_callback env net ok)"

definition Client_disconnect ::
  "app_env \<Rightarrow> inet \<Rightarrow> (IAddress \<Rightarrow> u16 \<Rightarrow> bool) \<Rightarrow> Client csess \<Rightarrow> unit result \<times> Client csess" where
  "Client_disconnect env net ok = (\<lambda>(cs, cl).
     case cs_disconnect env (cl_callback env net ok) (cs, cl\<lparr>cl_connector := None\<rparr>) of
       (Inl e, x) \<Rightarrow> (Inl e, x)
     | (Inr _, cs1, cl1) \<Rightarrow> (Inr (), cs1, cl_emit (Dispatch DISCONNECT_STARTED) cl1))"

definition Client_setPaused :: "app_env \<Rightarrow> bool \<Rightarrow> Client csess \<Rightarrow> Client csess" where
  "Client_setPaused env paused = (\<lambda>(cs, cl).
     if cl_isPaused cl \<noteq> paused
     then
       let cl1 = cl\<lparr>cl_isPaused := paused\<rparr>
       in if \<not> paused \<and> cl_remainingDataFlags cl1 = 0 \<and> \<not> cl_isDataRequested cl1 then cl_requestData env (cs, cl1)
          else (cs, cl1)
     else (cs, cl))"

end
