(* ===== verification/ClientProps.thy ===== *)
theory ClientProps
  imports ClientModel
begin

text \<open>
  The invariant of a client session. The contract between the session and the object behind its
  callbacks is the locale \<open>client_callback\<close>: a callback changes the session through its public
  operations only. The invariant is proved once inside the locale and holds in every reachable state
  of the client.
\<close>

section \<open>The invariant of a session\<close>

definition cs_inv :: "ClientSession \<Rightarrow> bool" where
  "cs_inv cs \<longleftrightarrow>
     (cs_isConnected cs \<longleftrightarrow> cs_state cs \<noteq> DISCONNECTED) \<and>
     (cs_state cs = DISCONNECTED \<longrightarrow> cs_sendQueue cs = [] \<and> \<not> cs_isConnectionEstablished cs) \<and>
     (cs_sendQueue cs \<noteq> [] \<longrightarrow> cs_pollOutput cs) \<and>
     (cs_state cs = OPENING \<longrightarrow> cs_expectedMsg cs \<in> {EM_SERVER_BANNER, EM_SERVER_HELLO}) \<and>
     (cs_state cs \<in> {CONNECTED, CLOSING} \<longrightarrow> cs_expectedMsg cs \<in> {EM_NONE, EM_SERVER_DATA_STATUS}) \<and>
     (cs_state cs = OPENING \<and> cs_expectedMsg cs = EM_SERVER_BANNER \<longrightarrow> cs_sendQueue cs = []) \<and>
     cs_sessionTTL cs \<ge> 0 \<and> writer_ok (cs_socketWriter cs) \<and>
     (\<forall>r v. isSending (cs_socketWriter cs) \<longrightarrow> w_place (cs_socketWriter cs) \<noteq> Some (r, v))"

lemma cs_inv_create: "cs_inv ClientSession_create"
  by (simp add: cs_inv_def ClientSession_create_def writer_ok_init)

lemma cs_inv_sendMessage:
  "cs_inv cs \<Longrightarrow> cs_state cs \<noteq> DISCONNECTED \<Longrightarrow> \<not> (cs_state cs = OPENING \<and> cs_expectedMsg cs = EM_SERVER_BANNER) \<Longrightarrow>
     cs_inv (cs_sendMessage msg cs)"
  by (auto simp: cs_inv_def cs_sendMessage_def Let_def)

lemma cs_inv_connect: "cs_inv cs \<Longrightarrow> cs_inv (cs_connect b cs)"
  by (simp add: cs_inv_def cs_connect_def)

lemma cs_inv_requestData: "cs_inv cs \<Longrightarrow> cs_inv (cs_requestData env f g cs)"
  by (auto simp: cs_requestData_def cs_sendMessage_def Let_def cs_inv_def)

lemma cs_inv_host: "cs_inv (cs\<lparr>cs_serverHost := h\<rparr>) = cs_inv cs"
  by (simp add: cs_inv_def)

text \<open>What the object behind the callbacks may call.\<close>

inductive session_calls :: "app_env \<Rightarrow> ClientSession \<Rightarrow> ClientSession \<Rightarrow> bool" for env where
  call_none: "session_calls env cs cs"
| call_requestData: "session_calls env cs (cs_requestData env f g cs)"
| call_connect: "session_calls env cs (cs_connect b cs)"
| call_setServerHostString: "session_calls env cs (cs\<lparr>cs_serverHost := h\<rparr>)"

lemma cs_inv_calls: "session_calls env cs cs' \<Longrightarrow> cs_inv cs \<Longrightarrow> cs_inv cs'"
  by (induction rule: session_calls.induct) (simp_all add: cs_inv_requestData cs_inv_connect cs_inv_host)

text \<open>The changes the session makes before it calls back.\<close>

lemma cs_inv_closed:
  "cs_inv cs \<Longrightarrow> cs_inv (cs\<lparr>cs_isConnected := False, cs_state := DISCONNECTED, cs_isConnectionEstablished := False,
     cs_sendQueue := [], cs_disconnectReason := r, cs_disconnectError := e\<rparr>)"
  by (simp add: cs_inv_def)

lemma cs_inv_banner:
  "cs_inv cs \<Longrightarrow> cs_state cs = OPENING \<Longrightarrow> cs_inv (cs_sendMessage m (cs\<lparr>cs_expectedMsg := EM_SERVER_HELLO\<rparr>))"
  by (rule cs_inv_sendMessage) (simp_all add: cs_inv_def)

lemma cs_inv_hello:
  "cs_inv cs \<Longrightarrow> cs_state cs = OPENING \<Longrightarrow>
     cs_inv (cs\<lparr>cs_serverName := a, cs_serverVersion := b, cs_serverPlatformName := c, cs_expectedMsg := EM_NONE,
       cs_state := CONNECTED, cs_sessionTTL := 3, cs_currentTimestamp := 0, cs_dataFlags := 0, cs_dataUpdateFlags := 0\<rparr>)"
  by (simp add: cs_inv_def)

lemma cs_inv_tick: "cs_inv cs \<Longrightarrow> cs_inv (cs\<lparr>cs_currentTimestamp := t, cs_sessionTTL := cs_sessionTTL cs + 1\<rparr>)"
  by (simp add: cs_inv_def)

lemma cs_inv_status:
  "cs_inv cs \<Longrightarrow> cs_expectedMsg cs = EM_SERVER_DATA_STATUS \<Longrightarrow>
     cs_inv (cs\<lparr>cs_dataFlags := f, cs_dataUpdateFlags := g, cs_expectedMsg := EM_NONE, cs_sessionTTL := 3\<rparr>)"
  by (auto simp: cs_inv_def)

lemma cs_inv_ttl: "cs_inv cs \<Longrightarrow> cs_sessionTTL cs > 0 \<Longrightarrow> cs_inv (cs\<lparr>cs_sessionTTL := cs_sessionTTL cs - 1\<rparr>)"
  by (simp add: cs_inv_def)

lemma cs_inv_closing:
  "cs_inv cs \<Longrightarrow> cs_state cs = CONNECTED \<Longrightarrow>
     cs_inv (cs_sendMessage m (cs\<lparr>cs_state := CLOSING, cs_sessionTTL := 2, cs_disconnectReason := r, cs_disconnectError := e\<rparr>))"
  by (rule cs_inv_sendMessage) (simp_all add: cs_inv_def)

lemma cs_send_loop_inv:
  "cs_send_loop rs q w = (r, out, q', w') \<Longrightarrow> writer_ok w \<Longrightarrow> (\<forall>r v. isSending w \<longrightarrow> w_place w \<noteq> Some (r, v)) \<Longrightarrow>
     writer_ok w' \<and> (\<forall>r v. isSending w' \<longrightarrow> w_place w' \<noteq> Some (r, v)) \<and> set q' \<subseteq> set q \<and> r \<noteq> Send_undefined
     \<and> out @ writer_pending w' @ concat (map sm_msg q') = writer_pending w @ concat (map sm_msg q)"
proof (induction q arbitrary: rs w out)
  case Nil
  obtain r1 out1 w1 where d: "doSend (\<lambda>_. 0) (next_result rs) w = (r1, out1, w1)" by (metis prod.collapse)
  have "writer_fresh (\<lambda>_. 0) w" using Nil.prems(3) by (auto simp: writer_fresh_def)
  from doSend_bytes [OF Nil.prems(2) this d] Nil.prems d show ?case
    by (auto simp: doSend_def Let_def isSending_def split: if_splits send_result.splits)
next
  case (Cons m ms)
  obtain r1 out1 w1 where d: "doSend (\<lambda>_. 0) (next_result rs) w = (r1, out1, w1)" by (metis prod.collapse)
  have "writer_fresh (\<lambda>_. 0) w" using Cons.prems(3) by (auto simp: writer_fresh_def)
  note b = doSend_bytes [OF Cons.prems(2) this d]
  have place: "\<forall>r v. isSending w1 \<longrightarrow> w_place w1 \<noteq> Some (r, v)"
    using Cons.prems(3) d by (auto simp: doSend_def Let_def isSending_def split: if_splits send_result.splits)
  show ?case
  proof (cases "r1 = Send_done")
    case True
    let ?w = "snd (writer_send (sm_msg m) w1)"
    have idle: "\<not> isSending w1" using b(5) True by simp
    then have w: "writer_ok ?w" "\<forall>r v. isSending ?w \<longrightarrow> w_place ?w \<noteq> Some (r, v)" "writer_pending ?w = sm_msg m"
      "writer_pending w1 = []"
      by (auto simp: writer_send_def writer_ok_def writer_pending_def isSending_def)
    obtain out2 where l: "cs_send_loop (if isSending w then tl rs else rs) ms ?w = (r, out2, q', w')" and "out = out1 @ out2"
      using Cons.prems(1) d True by (auto split: prod.splits)
    from Cons.IH [OF l w(1,2)] b(1) w(3,4) \<open>out = out1 @ out2\<close> show ?thesis by auto
  next
    case False
    then have "r = r1" "out = out1" "q' = m # ms" "w' = w1" using Cons.prems(1) d by (cases r1; simp)+
    with b place show ?thesis by (metis append.assoc subset_refl)
  qed
qed

section \<open>Sessions and their owner\<close>

locale client_callback =
  fixes env :: app_env and cb :: "'s IClientSessionCallback"
  assumes connectionEstablished: "session_calls env (fst x) (fst (ccb_onSessionConnectionEstablished cb x))"
    and established: "session_calls env (fst x) (fst (ccb_onSessionEstablished cb x))"
    and disconnected: "session_calls env (fst x) (fst (snd (ccb_onSessionDisconnect cb x)))"
    and ticked: "session_calls env (fst x) (fst (ccb_onSessionServerTick cb x))"
    and status: "session_calls env (fst x) (fst (ccb_onSessionDataStatus cb d x))"
    and data: "session_calls env (fst x) (fst (snd (ccb_onSessionData cb f u j x)))"
begin

lemmas callback_inv = connectionEstablished [THEN cs_inv_calls] established [THEN cs_inv_calls]
  disconnected [THEN cs_inv_calls] ticked [THEN cs_inv_calls] status [THEN cs_inv_calls] data [THEN cs_inv_calls]

lemma inv_quickDisconnect: "cs_inv (fst x) \<Longrightarrow> cs_inv (fst (snd (cs_quickDisconnect cb r e x)))"
  by (cases x) (simp add: cs_quickDisconnect_def callback_inv(3) cs_inv_closed)

lemma inv_onBanner: "cs_inv (fst x) \<Longrightarrow> cs_inv (fst (snd (cs_onBanner env cb m x)))"
  by (cases x) (auto simp: cs_onBanner_def inv_quickDisconnect cs_inv_banner split: sum.split)

lemma inv_onHello: "cs_inv (fst x) \<Longrightarrow> cs_inv (fst (snd (cs_onHello cb m x)))"
  by (cases x) (auto simp: cs_onHello_def cs_inv_hello callback_inv(2) split: sum.split)

lemma inv_onDisconnectMsg: "cs_inv (fst x) \<Longrightarrow> cs_inv (fst (snd (cs_onDisconnectMsg cb m x)))"
  by (auto simp: cs_onDisconnectMsg_def Let_def inv_quickDisconnect split: sum.split)

lemma inv_onUpdateTick: "cs_inv (fst x) \<Longrightarrow> cs_inv (fst (snd (cs_onUpdateTick cb m x)))"
  by (cases x) (auto simp: cs_onUpdateTick_def Let_def cs_inv_tick callback_inv(4) split: sum.split)

lemma inv_onDataStatus: "cs_inv (fst x) \<Longrightarrow> cs_inv (fst (snd (cs_onDataStatus cb m x)))"
  by (cases x) (auto simp: cs_onDataStatus_def Let_def cs_inv_status callback_inv(5) split: sum.split)

lemma inv_onData: "cs_inv (fst x) \<Longrightarrow> cs_inv (fst (snd (cs_onData cb m x)))"
  by (cases x) (auto simp: cs_onData_def simp: callback_inv(6) split: sum.split)

lemma inv_onMessage: "cs_inv (fst x) \<Longrightarrow> cs_inv (fst (snd (cs_onMessage env cb m x)))"
  by (auto simp: cs_onMessage_def inv_onBanner inv_onHello inv_onDisconnectMsg inv_onUpdateTick inv_onDataStatus inv_onData
      split: sum.split EServerMsg.split)

lemma inv_onMessages: "cs_inv (fst x) \<Longrightarrow> cs_inv (fst (snd (cs_onMessages env cb ms x)))"
proof (induction ms arbitrary: x)
  case (Cons m ms)
  from inv_onMessage [OF Cons.prems, of m] Cons.IH show ?case by (auto split: prod.split sum.split)
qed simp

lemma inv_handleInput: "cs_inv (fst x) \<Longrightarrow> cs_inv (fst (snd (cs_handleInput env cb inp x)))"
proof (cases inp)
  case (Input_docs docs err)
  assume "cs_inv (fst x)"
  from inv_onMessages [OF this, of docs] show ?thesis
    using inv_quickDisconnect
    by (auto simp: cs_handleInput_def Input_docs split: prod.split sum.split option.split exception.split)
qed (auto simp: cs_handleInput_def inv_quickDisconnect)

lemma inv_handleOutput:
  assumes "cs_inv (fst x)" and "cs_state (fst x) \<noteq> DISCONNECTED"
  shows "cs_inv (fst (snd (snd (cs_handleOutput cb verify rs x))))"
proof (cases x)
  case (Pair cs s)
  obtain r out q w where l: "cs_send_loop rs (cs_sendQueue cs) (cs_socketWriter cs) = (r, out, q, w)" by (metis prod.collapse)
  from cs_send_loop_inv [OF l] assms(1) have w: "writer_ok w" "\<forall>r v. isSending w \<longrightarrow> w_place w \<noteq> Some (r, v)"
    "set q \<subseteq> set (cs_sendQueue cs)" by (simp_all add: Pair cs_inv_def)
  then have "cs_sendQueue cs = [] \<Longrightarrow> q = []" by auto
  with assms w have 1: "cs_inv (cs\<lparr>cs_sendQueue := q, cs_socketWriter := w\<rparr>)" by (auto simp: Pair cs_inv_def)
  moreover have "cs_inv (cs\<lparr>cs_isConnectionEstablished := True\<rparr>)" using assms by (simp add: Pair cs_inv_def)
  ultimately show ?thesis
    using assms(1) callback_inv(1) inv_quickDisconnect
    by (auto simp: cs_handleOutput_def l Pair Let_def case_prod_beta split: doSend_result.split option.split)
qed

lemma inv_SocketPollHandler:
  assumes "cs_inv (fst x)"
  shows "cs_inv (fst (snd (snd (cs_SocketPollHandler env cb inp outp isError x))))"
proof -
  define i where "i = (case inp of None \<Rightarrow> (Inr (), x) | Some i \<Rightarrow> cs_handleInput env cb i x)"
  have 1: "cs_inv (fst (snd i))" using assms inv_handleInput by (auto simp: i_def split: option.split)
  define o' where "o' = (case outp of None \<Rightarrow> (Inr (), [], snd i) | Some (verify, rs) \<Rightarrow>
    if cs_state (fst (snd i)) \<noteq> DISCONNECTED then cs_handleOutput cb verify rs (snd i) else (Inr (), [], snd i))"
  have 2: "cs_inv (fst (snd (snd o')))" using 1 inv_handleOutput [OF 1] by (auto simp: o'_def split: option.split)
  define e where "e = (if isError \<and> cs_state (fst (snd (snd o'))) \<noteq> DISCONNECTED
    then cs_quickDisconnect cb SOCKET_ERROR ''Socket poll failed'' (snd (snd o')) else (Inr (), snd (snd o')))"
  have 3: "cs_inv (fst (snd e))" using 2 inv_quickDisconnect by (auto simp: e_def)
  then have 4: "cs_inv ((fst (snd e))\<lparr>cs_pollOutput := (cs_sendQueue (fst (snd e)) \<noteq> [])\<rparr>)" by (simp add: cs_inv_def)
  have "snd (snd (cs_SocketPollHandler env cb inp outp isError x)) \<in>
    {snd i, snd (snd o'), snd e, ((fst (snd e))\<lparr>cs_pollOutput := (cs_sendQueue (fst (snd e)) \<noteq> [])\<rparr>, snd (snd e))}"
    unfolding cs_SocketPollHandler_def Let_def case_prod_beta fst_conv snd_conv
    unfolding i_def [symmetric]
    unfolding o'_def [unfolded case_prod_beta, symmetric]
    unfolding e_def [symmetric]
    by (simp split: sum.split)
  with 1 2 3 4 show ?thesis by auto
qed

lemma inv_onUpdate: "cs_inv (fst x) \<Longrightarrow> cs_inv (fst (snd (cs_onUpdate cb x)))"
  by (cases x) (auto simp: cs_onUpdate_def inv_quickDisconnect cs_inv_ttl)

lemma inv_disconnect: "cs_inv (fst x) \<Longrightarrow> cs_inv (fst (snd (cs_disconnect env cb x)))"
  by (cases x) (auto simp: cs_disconnect_def inv_quickDisconnect cs_inv_closing)

end

lemma tryNext_calls: "session_calls env cs (snd (snd (tryNext ok cc cs)))"
  by (auto simp: tryNext_def session_calls.intros split: prod.split sum.split)

lemma cl_disconnect_calls: "session_calls env (fst x) (fst (snd (cl_onSessionDisconnect ok x)))"
proof (cases x)
  case (Pair cs cl)
  show ?thesis
    using tryNext_calls [of env cs ok]
    by (cases "cl_connector cl")
      (auto simp: Pair cl_onSessionDisconnect_def Let_def case_prod_beta session_calls.intros split: sum.split)
qed

lemma cl_data_calls: "session_calls env (fst x) (fst (snd (cl_onSessionData env net f u j x)))"
  by (cases x)
    (simp add: cl_onSessionData_def Let_def cl_requestData_def call_none call_requestData case_prod_beta
      split: json.split sum.split)

interpretation cl: client_callback env "cl_callback env net ok"
  for env net ok
proof unfold_locales
  fix x :: "Client csess" and d
  show "session_calls env (fst x) (fst (ccb_onSessionConnectionEstablished (cl_callback env net ok) x))"
    by (cases x) (simp add: cl_callback_def cl_onSessionConnectionEstablished_def session_calls.intros split: option.split)
  show "session_calls env (fst x) (fst (ccb_onSessionEstablished (cl_callback env net ok) x))"
    by (cases x) (simp add: cl_callback_def cl_onSessionEstablished_def cl_requestData_def Let_def session_calls.intros)
  show "session_calls env (fst x) (fst (ccb_onSessionServerTick (cl_callback env net ok) x))"
    by (cases x) (simp add: cl_callback_def cl_onSessionServerTick_def cl_requestData_def Let_def session_calls.intros)
  show "session_calls env (fst x) (fst (ccb_onSessionDataStatus (cl_callback env net ok) d x))"
    by (cases x) (simp add: cl_callback_def cl_onSessionDataStatus_def cl_requestData_def Let_def session_calls.intros)
qed (simp_all add: cl_callback_def cl_disconnect_calls cl_data_calls)

section \<open>What the callbacks keep\<close>

text \<open>A property of the owner that its callbacks keep is kept by the whole session.\<close>

locale client_owner = client_callback env cb
  for env :: app_env and cb :: "'s IClientSessionCallback" +
  fixes P :: "'s \<Rightarrow> bool"
  assumes keeps_connection: "P (snd x) \<Longrightarrow> P (snd (ccb_onSessionConnectionEstablished cb x))"
    and keeps_established: "P (snd x) \<Longrightarrow> P (snd (ccb_onSessionEstablished cb x))"
    and keeps_disconnect: "P (snd x) \<Longrightarrow> P (snd (snd (ccb_onSessionDisconnect cb x)))"
    and keeps_tick: "P (snd x) \<Longrightarrow> P (snd (ccb_onSessionServerTick cb x))"
    and keeps_status: "P (snd x) \<Longrightarrow> P (snd (ccb_onSessionDataStatus cb d x))"
    and keeps_data: "P (snd x) \<Longrightarrow> P (snd (snd (ccb_onSessionData cb f u j x)))"
begin

lemma keeps_quickDisconnect: "P (snd x) \<Longrightarrow> P (snd (snd (cs_quickDisconnect cb r e x)))"
  by (cases x) (simp add: cs_quickDisconnect_def keeps_disconnect)

lemma keeps_cases:
  assumes "P (snd x)"
  shows "P (snd (snd (cs_onBanner env cb m x)))" "P (snd (snd (cs_onHello cb m x)))"
    "P (snd (snd (cs_onDisconnectMsg cb m x)))" "P (snd (snd (cs_onUpdateTick cb m x)))"
    "P (snd (snd (cs_onDataStatus cb m x)))" "P (snd (snd (cs_onData cb m x)))"
  using assms
  by (cases x; simp add: cs_onBanner_def cs_onHello_def cs_onDisconnectMsg_def cs_onUpdateTick_def cs_onDataStatus_def
      cs_onData_def Let_def keeps_quickDisconnect keeps_established keeps_tick keeps_status keeps_data
      split: sum.split prod.split)+

lemma keeps_onMessage: "P (snd x) \<Longrightarrow> P (snd (snd (cs_onMessage env cb m x)))"
  by (simp add: cs_onMessage_def keeps_cases split: sum.split prod.split EServerMsg.split)

lemma keeps_onMessages: "P (snd x) \<Longrightarrow> P (snd (snd (cs_onMessages env cb ms x)))"
proof (induction ms arbitrary: x)
  case (Cons m ms)
  from keeps_onMessage [OF Cons.prems, of m] Cons.IH show ?case by (auto split: prod.split sum.split)
qed simp

lemma keeps_handleInput: "P (snd x) \<Longrightarrow> P (snd (snd (cs_handleInput env cb inp x)))"
proof (cases inp)
  case (Input_docs docs err)
  assume "P (snd x)"
  from keeps_onMessages [OF this, of docs] show ?thesis
    using keeps_quickDisconnect
    by (auto simp: cs_handleInput_def Input_docs split: prod.split sum.split option.split exception.split)
qed (auto simp: cs_handleInput_def keeps_quickDisconnect)

lemma keeps_handleOutput: "P (snd x) \<Longrightarrow> P (snd (snd (snd (cs_handleOutput cb verify rs x))))"
  using keeps_connection keeps_quickDisconnect
  by (cases x) (auto simp: cs_handleOutput_def Let_def case_prod_beta split: doSend_result.split option.split prod.split)

lemma keeps_SocketPollHandler:
  "P (snd x) \<Longrightarrow> P (snd (snd (snd (cs_SocketPollHandler env cb inp outp isError x))))"
  using keeps_handleInput [of x] keeps_handleOutput keeps_quickDisconnect
  unfolding cs_SocketPollHandler_def Let_def case_prod_beta
  by (simp split: sum.split option.split)

lemma keeps_onUpdate: "P (snd x) \<Longrightarrow> P (snd (snd (cs_onUpdate cb x)))"
  by (cases x) (auto simp: cs_onUpdate_def keeps_quickDisconnect)

lemma keeps_session_disconnect: "P (snd x) \<Longrightarrow> P (snd (snd (cs_disconnect env cb x)))"
  by (cases x) (auto simp: cs_disconnect_def keeps_quickDisconnect)

end

lemma cl_emit_list [simp]: "cl_list (cl_emit e cl) = cl_list cl" "cl_list (setSynchronized b cl) = cl_list cl"
  by (simp_all add: cl_emit_def setSynchronized_def)

lemma cl_data_list:
  assumes "list_reach net (cl_list (snd x))"
  shows "list_reach net (cl_list (snd (snd (cl_onSessionData env net f u j x))))"
proof (cases x)
  case (Pair cs cl)
  define l where "l = (if u then cl_list cl else clear (cl_list cl))"
  have "list_reach net l" using assms reach_step [OF _ step_clear] by (simp add: Pair l_def)
  then have "list_reach net (snd (deserialize_all net (list_callback net) docs l))" for docs
    by (rule lc.deserialize_all_preserves [where P = "list_reach net"]) (rule list_reach_Deserialize)
  with assms show ?thesis
    unfolding cl_onSessionData_def Pair l_def [symmetric] case_prod_conv
    by (simp add: cl_requestData_def Let_def case_prod_beta split: json.split sum.split)
qed

interpretation clo: client_owner env "cl_callback env net ok" "\<lambda>cl. list_reach net (cl_list cl)"
  for env net ok
proof unfold_locales
  fix x :: "Client csess" and d
  assume P: "list_reach net (cl_list (snd x))"
  show "list_reach net (cl_list (snd (ccb_onSessionConnectionEstablished (cl_callback env net ok) x)))"
    using P by (cases x) (simp add: cl_callback_def cl_onSessionConnectionEstablished_def split: option.split)
  show "list_reach net (cl_list (snd (ccb_onSessionEstablished (cl_callback env net ok) x)))"
    using P by (cases x) (simp add: cl_callback_def cl_onSessionEstablished_def cl_requestData_def Let_def)
  show "list_reach net (cl_list (snd (snd (ccb_onSessionDisconnect (cl_callback env net ok) x))))"
    using P by (cases x) (simp add: cl_callback_def cl_onSessionDisconnect_def Let_def case_prod_beta split: option.split sum.split)
  show "list_reach net (cl_list (snd (ccb_onSessionServerTick (cl_callback env net ok) x)))"
    using P by (cases x) (simp add: cl_callback_def cl_onSessionServerTick_def cl_requestData_def Let_def)
  show "list_reach net (cl_list (snd (ccb_onSessionDataStatus (cl_callback env net ok) d x)))"
    using P by (cases x) (simp add: cl_callback_def cl_onSessionDataStatus_def cl_requestData_def Let_def)
qed (simp_all add: cl_callback_def cl_data_list)

section \<open>Reachable states of the client\<close>

text \<open>
  Whatever arrives on the socket, whatever the resolver and the kernel answer, whatever the user does
  to the list. Steps that throw end the program.
\<close>

inductive cl_reach :: "app_env \<Rightarrow> inet \<Rightarrow> Client csess \<Rightarrow> bool" for env net where
  cl_created: "Client_init (Some host) (ClientSession_create, Client_create b) = (Inr (), x) \<Longrightarrow> cl_reach env net x"
| cl_ports: "cl_reach env net (cs, cl) \<Longrightarrow> cl_connector cl = Some cc \<Longrightarrow> PortResolveCallback service pack cc = Inr cc' \<Longrightarrow>
    cl_reach env net (cs, cl\<lparr>cl_connector := Some cc'\<rparr>)"
| cl_host: "cl_reach env net (cs, cl) \<Longrightarrow> cl_connector cl = Some cc \<Longrightarrow>
    HostResolveCallback ok hostname addresses cc cs = (Inr (), cc', cs') \<Longrightarrow> cl_reach env net (cs', cl\<lparr>cl_connector := Some cc'\<rparr>)"
| cl_event: "cl_reach env net x \<Longrightarrow>
    cs_SocketPollHandler env (cl_callback env net ok) inp outp isError x = (Inr (), out, x') \<Longrightarrow> cl_reach env net x'"
| cl_update: "cl_reach env net x \<Longrightarrow> Client_onUpdate env net ok x = (Inr (), x') \<Longrightarrow> cl_reach env net x'"
| cl_quit: "cl_reach env net x \<Longrightarrow> Client_disconnect env net ok x = (Inr (), x') \<Longrightarrow> cl_reach env net x'"
| cl_pause: "cl_reach env net x \<Longrightarrow> cl_reach env net (Client_setPaused env p x)"
| cl_listed: "cl_reach env net (cs, cl) \<Longrightarrow> list_step net (cl_list cl) l \<Longrightarrow> cl_reach env net (cs, cl\<lparr>cl_list := l\<rparr>)"

definition cl_inv :: "inet \<Rightarrow> Client csess \<Rightarrow> bool" where
  "cl_inv net x \<longleftrightarrow> cs_inv (fst x) \<and> list_reach net (cl_list (snd x))"

lemma cl_inv_disconnect:
  assumes "cl_inv net x"
  shows "cl_inv net (snd (Client_disconnect env net ok x))"
proof (cases x)
  case (Pair cs cl)
  let ?x = "(cs, cl\<lparr>cl_connector := None\<rparr>)"
  have "cs_inv (fst ?x)" "list_reach net (cl_list (snd ?x))" using assms by (simp_all add: Pair cl_inv_def)
  from cl.inv_disconnect [OF this(1)] clo.keeps_session_disconnect [OF this(2)] show ?thesis
    by (simp add: Pair cl_inv_def Client_disconnect_def case_prod_beta split: sum.split)
qed

lemma cl_inv_pause: "cl_inv net x \<Longrightarrow> cl_inv net (Client_setPaused env p x)"
  by (cases x) (simp add: cl_inv_def Client_setPaused_def cl_requestData_def Let_def cs_inv_requestData)

lemma cl_inv_reach: "cl_reach env net x \<Longrightarrow> cl_inv net x"
proof (induction rule: cl_reach.induct)
  case (cl_created host b x)
  then show ?case
    by (auto simp: Client_init_def ClientConnector_create_def cl_inv_def cs_inv_create Client_create_def reach_init)
next
  case (cl_ports cs cl cc service pack cc')
  then show ?case by (simp add: cl_inv_def)
next
  case (cl_host cs cl cc ok hostname addresses cc' cs')
  have "session_calls env cs (snd (snd (HostResolveCallback ok hostname addresses cc cs)))"
    by (simp add: HostResolveCallback_def call_none tryNext_calls)
  then show ?case using cl_host cs_inv_calls by (auto simp: cl_inv_def)
next
  case (cl_event x ok inp outp isError out x')
  then show ?case
    using cl.inv_SocketPollHandler [of x env net ok inp outp isError] clo.keeps_SocketPollHandler [of net x env ok inp outp isError]
    by (auto simp: cl_inv_def)
next
  case (cl_update x ok x')
  then show ?case
    using cl.inv_onUpdate [of x env net ok] clo.keeps_onUpdate [of net x env ok] by (auto simp: cl_inv_def Client_onUpdate_def)
next
  case (cl_quit x ok x')
  then show ?case using cl_inv_disconnect [of net x env ok] by simp
next
  case (cl_pause x p)
  then show ?case by (simp add: cl_inv_pause)
next
  case (cl_listed cs cl l)
  then show ?case using reach_step by (auto simp: cl_inv_def)
qed

end
