(* ===== verification/ClientRules.thy ===== *)
theory ClientRules
  imports ClientProps
begin

text \<open>
  What a client does in time: the order in which its connector tries the resolved addresses and ports,
  the ticks it accepts, when it gives up. The samples follow a client of a server with two addresses.
\<close>

section \<open>The connector\<close>

text \<open>The combinations that are still to be tried, in order.\<close>

definition combos_left :: "ClientConnector \<Rightarrow> (IAddress \<times> u16) list" where
  "combos_left cc =
     (if cc_resolvedPorts cc = []
      then map (\<lambda>a. (a, DEFAULT_PORT)) (drop (cc_addressIndex cc) (cc_resolvedAddresses cc))
      else map (\<lambda>a. (a, port_number (cc_resolvedPorts cc ! cc_portIndex cc))) (drop (cc_addressIndex cc) (cc_resolvedAddresses cc))
        @ concat (map (\<lambda>p. map (\<lambda>a. (a, port_number p)) (cc_resolvedAddresses cc)) (drop (Suc (cc_portIndex cc)) (cc_resolvedPorts cc))))"

definition connector_ok :: "ClientConnector \<Rightarrow> bool" where
  "connector_ok cc \<longleftrightarrow> cc_resolvedAddresses cc \<noteq> [] \<and> cc_addressIndex cc \<le> length (cc_resolvedAddresses cc)
     \<and> (cc_resolvedPorts cc \<noteq> [] \<longrightarrow> cc_portIndex cc < length (cc_resolvedPorts cc))"

lemma connector_next_exhausted:
  assumes "connector_ok cc" and "combos_left cc = []"
  shows "cc_currentAddress (connector_next cc) = None"
proof (cases "cc_resolvedPorts cc = []")
  case False
  with assms have "drop (cc_addressIndex cc) (cc_resolvedAddresses cc) = []"
    and "\<forall>p \<in> set (drop (Suc (cc_portIndex cc)) (cc_resolvedPorts cc)). cc_resolvedAddresses cc = []"
    by (auto simp: combos_left_def)
  moreover from this(2) assms(1) have "drop (Suc (cc_portIndex cc)) (cc_resolvedPorts cc) = []"
    by (cases "drop (Suc (cc_portIndex cc)) (cc_resolvedPorts cc)") (auto simp: connector_ok_def)
  ultimately show ?thesis using False by (simp add: connector_next_def Let_def)
qed (use assms in \<open>simp add: combos_left_def connector_next_def Let_def\<close>)

lemma connector_next_first:
  assumes "connector_ok cc" and "combos_left cc = (a, p) # rest"
  shows "cc_currentAddress (connector_next cc) = Some a" and "cc_currentPort (connector_next cc) = p"
    and "combos_left (connector_next cc) = rest" and "connector_ok (connector_next cc)"
proof -
  let ?n = "connector_next cc" and ?A = "cc_resolvedAddresses cc" and ?i = "cc_addressIndex cc"
  have "cc_currentAddress ?n = Some a \<and> cc_currentPort ?n = p \<and> combos_left ?n = rest \<and> connector_ok ?n"
  proof (cases "?i < length ?A")
    case True
    then have d: "drop ?i ?A = ?A ! ?i # drop (Suc ?i) ?A" by (rule Cons_nth_drop_Suc [symmetric])
    show ?thesis using assms True by (auto simp: combos_left_def d connector_next_def Let_def connector_ok_def)
  next
    case False
    with assms have P: "cc_resolvedPorts cc \<noteq> []" "drop (Suc (cc_portIndex cc)) (cc_resolvedPorts cc) \<noteq> []"
      by (auto simp: combos_left_def split: if_splits)
    then have lt: "Suc (cc_portIndex cc) < length (cc_resolvedPorts cc)" by simp
    from Cons_nth_drop_Suc [OF this, symmetric] have d: "drop (Suc (cc_portIndex cc)) (cc_resolvedPorts cc) =
      cc_resolvedPorts cc ! Suc (cc_portIndex cc) # drop (Suc (Suc (cc_portIndex cc))) (cc_resolvedPorts cc)" .
    obtain b A where A: "?A = b # A" using assms(1) by (cases ?A) (auto simp: connector_ok_def)
    show ?thesis using assms False P lt by (auto simp: combos_left_def d connector_next_def Let_def connector_ok_def A)
  qed
  then show "cc_currentAddress ?n = Some a" and "cc_currentPort ?n = p" and "combos_left ?n = rest" and "connector_ok ?n"
    by simp_all
qed

section \<open>A sample client\<close>

definition sample_client0 :: "Client csess" where
  "sample_client0 = snd (Client_init (Some ''server'') (ClientSession_create, Client_create True))"

definition sample_connector :: ClientConnector where
  "sample_connector =
     (the (cl_connector (snd sample_client0)))\<lparr>cc_resolvedPorts := [Port TCP 80, Port TCP 81],
       cc_resolvedAddresses := [AddressIP4 1, AddressIP4 2]\<rparr>"

lemma sample_client0_reach: "cl_reach env net sample_client0"
  by (rule cl_created [of "''server''" True])
    (simp add: sample_client0_def Client_init_def ClientConnector_create_def)

definition sample_opening :: "Client csess" where
  "sample_opening =
     (case HostResolveCallback (\<lambda>_ _. True) ''server'' [AddressIP4 1, AddressIP4 2] (the (cl_connector (snd sample_client0)))
        (fst sample_client0) of
        (_, cc, cs) \<Rightarrow> (cs, (snd sample_client0)\<lparr>cl_connector := Some cc\<rparr>))"

lemma sample_opening_reach: "cl_reach env net sample_opening"
proof -
  let ?h = "HostResolveCallback (\<lambda>_ _. True) ''server'' [AddressIP4 1, AddressIP4 2] (the (cl_connector (snd sample_client0)))
    (fst sample_client0)"
  have "fst ?h = Inr ()" "cl_connector (snd sample_client0) \<noteq> None"
    by (simp_all add: sample_client0_def Client_init_def ClientConnector_create_def HostResolveCallback_def tryNext_def
        connector_loop.simps [of "\<lambda>_ _. True"] connector_next_def cl_emit_def)
  then have h: "?h = (Inr (), fst (snd ?h), snd (snd ?h))"
    and cc: "cl_connector (snd sample_client0) = Some (the (cl_connector (snd sample_client0)))"
    by (simp_all add: prod_eq_iff)
  have "cl_reach env net (fst sample_client0, snd sample_client0)" using sample_client0_reach by simp
  from cl_host [OF this cc h] show ?thesis
    unfolding sample_opening_def by (simp add: case_prod_beta)
qed

lemma sample_opening_eq:
  "sample_opening =
     (ClientSession_create\<lparr>cs_isConnected := True, cs_pollOutput := True, cs_state := OPENING, cs_sessionTTL := 4,
        cs_expectedMsg := EM_SERVER_BANNER\<rparr>,
      (Client_create True)\<lparr>cl_connector := Some \<lparr>cc_host = ''server'', cc_resolvedAddresses = [AddressIP4 1, AddressIP4 2],
         cc_resolvedPorts = [], cc_addressIndex = 1, cc_portIndex = 0, cc_currentAddress = Some (AddressIP4 1),
         cc_currentPort = DEFAULT_PORT\<rparr>, cl_effects := [Dispatch CONNECT_STARTED]\<rparr>)"
  by (simp add: sample_opening_def sample_client0_def Client_init_def ClientConnector_create_def HostResolveCallback_def
      tryNext_def connector_loop.simps [of "\<lambda>_ _. True"] connector_next_def cs_connect_def ClientSession_create_def
      Client_create_def cl_emit_def)

lemma sample_docs:
  "cs_onMessage env cb JNull x = (Inl (invalid_argument ''Invalid message''), x)"
  "cs_onMessage env cb serverDoc_BANNER x = cs_onBanner env cb serverDoc_BANNER x"
  "get_int serverDoc_BANNER ''conntop_server'' a b = Inr VERSION"
  by (simp_all add: cs_onMessage_def cs_msgType_def serverDoc_BANNER_def get_int_def VERSION_def)

lemma calls_connected:
  assumes "session_calls env cs cs'" and "cs_state cs = CONNECTED"
  shows "cs_state cs' = CONNECTED \<and> cs_currentTimestamp cs' = cs_currentTimestamp cs \<and> cs_sessionTTL cs' = cs_sessionTTL cs"
  using assms by cases (simp_all add: cs_requestData_def cs_sendMessage_def cs_connect_def Let_def)

section \<open>Properties\<close>

text \<open>
  C27: the connector tries every address with every port exactly once, in order. Its loop ends, with
  success at the first combination not tried before for which a connection can be started, having
  skipped exactly the ones before it, or with an exception if no combination is left that works.
\<close>

theorem connector_tries_in_order:
  assumes "connector_ok cc"
  shows "case connector_loop ok cc of
      (Inl e, _) \<Rightarrow> e = Exception (''Unable to connect to '' @ [CHR 0x27] @ cc_host cc @ [CHR 0x27])
        \<and> (\<forall>(a, p) \<in> set (combos_left cc). \<not> ok a p)
    | (Inr _, cc') \<Rightarrow> connector_ok cc' \<and> (\<exists>tried a p. combos_left cc = tried @ (a, p) # combos_left cc'
        \<and> (\<forall>(b, q) \<in> set tried. \<not> ok b q) \<and> ok a p \<and> cc_currentAddress cc' = Some a \<and> cc_currentPort cc' = p)"
  using assms
proof (induction ok cc rule: connector_loop.induct)
  case (1 ok cc)
  show ?case
  proof (cases "combos_left cc")
    case Nil
    then show ?thesis using connector_next_exhausted [OF 1(2) Nil] by (simp add: connector_loop.simps [of ok cc])
  next
    case (Cons ap rest)
    obtain a p where ap: "ap = (a, p)" by (cases ap)
    note n = connector_next_first [OF 1(2) Cons [unfolded ap]]
    show ?thesis
    proof (cases "ok a p")
      case True
      have "combos_left cc = [] @ (a, p) # combos_left (connector_next cc)" using Cons n(3) by (simp add: ap)
      with True n show ?thesis by (simp add: connector_loop.simps [of ok cc])
    next
      case False
      have eq: "connector_loop ok cc = connector_loop ok (connector_next cc)"
        using False n(1,2) by (simp add: connector_loop.simps [of ok cc])
      have host: "cc_host (connector_next cc) = cc_host cc" by (rule connector_next_lists)
      have skip: "\<exists>tried' a' p'. combos_left cc = tried' @ (a', p') # r \<and> (\<forall>(b, q) \<in> set tried'. \<not> ok b q) \<and> Q a' p'"
        if "\<exists>tried a' p'. rest = tried @ (a', p') # r \<and> (\<forall>(b, q) \<in> set tried. \<not> ok b q) \<and> Q a' p'" for r Q
        using that Cons False ap by (metis (no_types, lifting) append_Cons case_prodI set_ConsD)
      show ?thesis
        using 1(1) [OF n(1)] n False skip unfolding eq host
        by (cases "connector_loop ok (connector_next cc)") (auto simp: Cons ap split: sum.splits)
    qed
  qed
qed

theorem connector_tries_in_order_witness:
  "combos_left sample_connector
      = [(AddressIP4 1, 80), (AddressIP4 2, 80), (AddressIP4 1, 81), (AddressIP4 2, 81)]
    \<and> (case connector_loop (\<lambda>a p. a = AddressIP4 1 \<and> p = 81) sample_connector of (Inl e, _) \<Rightarrow> False
       | (Inr _, cc') \<Rightarrow> combos_left cc' = [(AddressIP4 2, 81)])"
proof -
  have c: "combos_left sample_connector = [(AddressIP4 1, 80), (AddressIP4 2, 80), (AddressIP4 1, 81), (AddressIP4 2, 81)]"
    and "connector_ok sample_connector" by code_simp+
  from connector_tries_in_order [OF this(2), of "\<lambda>a p. a = AddressIP4 1 \<and> p = 81"] c show ?thesis
    by (cases "connector_loop (\<lambda>a p. a = AddressIP4 1 \<and> p = 81) sample_connector")
      (auto split: sum.splits simp: append_eq_Cons_conv Cons_eq_append_conv)
qed

text \<open>
  C24: every reachable client is consistent. Its socket is open exactly until the session is
  disconnected; what it waits for fits its state; nothing is queued before the banner has come; while a
  message waits in the queue the poll system waits for output; and its connection list is in a state
  the list's own operations can reach, whatever was received.
\<close>

theorem client_reach_consistent:
  assumes "cl_reach env net (cs, cl)"
  shows "list_reach net (cl_list cl)
    \<and> (cs_isConnected cs \<longleftrightarrow> cs_state cs \<noteq> DISCONNECTED)
    \<and> (cs_state cs = DISCONNECTED \<longrightarrow> cs_sendQueue cs = [] \<and> \<not> cs_isConnectionEstablished cs)
    \<and> (cs_sendQueue cs \<noteq> [] \<longrightarrow> cs_pollOutput cs)
    \<and> (cs_state cs = OPENING \<longrightarrow> cs_expectedMsg cs \<in> {EM_SERVER_BANNER, EM_SERVER_HELLO})
    \<and> (cs_state cs \<in> {CONNECTED, CLOSING} \<longrightarrow> cs_expectedMsg cs \<in> {EM_NONE, EM_SERVER_DATA_STATUS})
    \<and> (cs_state cs = OPENING \<and> cs_expectedMsg cs = EM_SERVER_BANNER \<longrightarrow> cs_sendQueue cs = [])"
  using cl_inv_reach [OF assms] by (simp add: cl_inv_def cs_inv_def)

theorem client_reach_consistent_witness:
  "let x = snd (snd (cs_SocketPollHandler sample_env (cl_callback sample_env sample_net (\<lambda>_ _. True))
      (Some (Input_docs [serverDoc_BANNER, JNull] None)) None False sample_opening))
   in list_reach sample_net (cl_list (snd x)) \<and> cs_state (fst x) = OPENING \<and> cs_expectedMsg (fst x) = EM_SERVER_BANNER
     \<and> cs_sendQueue (fst x) = []"
proof -
  let ?r = "cs_SocketPollHandler sample_env (cl_callback sample_env sample_net (\<lambda>_ _. True))
      (Some (Input_docs [serverDoc_BANNER, JNull] None)) None False sample_opening"
  have r: "fst ?r = Inr ()" "cs_state (fst (snd (snd ?r))) = OPENING" "cs_expectedMsg (fst (snd (snd ?r))) = EM_SERVER_BANNER"
    by (simp_all add: sample_opening_eq sample_docs cs_SocketPollHandler_def cs_handleInput_def cs_onBanner_def cs_quickDisconnect_def
        cl_callback_def cl_onSessionDisconnect_def tryNext_def connector_loop.simps [of "\<lambda>_ _. True"] connector_next_def
        cs_connect_def cs_sendMessage_def Let_def)
  then have "cl_reach sample_env sample_net (snd (snd ?r))"
    by (intro cl_event [OF sample_opening_reach, where out = "fst (snd ?r)"]) (simp add: prod_eq_iff)
  with client_reach_consistent [of sample_env sample_net "fst (snd (snd ?r))" "snd (snd (snd ?r))"] r(2,3) show ?thesis
    by (simp add: Let_def)
qed

text \<open>
  C26: a connected client accepts exactly the next tick. Once it has seen a timestamp, a tick with any
  other timestamp than the next one (32-bit wrap-around included) ends the session with
  \<open>PROTOCOL_ERROR\<close>; a client whose current timestamp is 0 accepts any.
\<close>

theorem client_ticks_consecutive:
  assumes "cs_state cs = CONNECTED" and "cl_connector cl = None"
  shows "let (r, cs', cl') = cs_handleInput env (cl_callback env net ok) (Input_docs [serverDoc_UPDATE_TICK t] None) (cs, cl)
    in r = Inr ()
      \<and> (if t = cs_currentTimestamp cs + 1 \<or> cs_currentTimestamp cs = 0
         then cs_state cs' = CONNECTED \<and> cs_currentTimestamp cs' = t \<and> cs_sessionTTL cs' = cs_sessionTTL cs + 1
         else cs_state cs' = DISCONNECTED \<and> cs_disconnectReason cs' = PROTOCOL_ERROR
           \<and> cs_disconnectError cs' = ''Unexpected update tick timestamp'' \<and> \<not> cl_isSynchronized cl')"
proof -
  have doc: "cs_onMessage env cb (serverDoc_UPDATE_TICK t) x = cs_onUpdateTick cb (serverDoc_UPDATE_TICK t) x" for cb x
    by (simp add: cs_onMessage_def cs_msgType_def serverDoc_UPDATE_TICK_def getServerMsgEnum_def m_serverMsgMap_def
        KString_of_cstr_def)
  have stamp: "get_uint (serverDoc_UPDATE_TICK t) ''timestamp'' a b = Inr (uint t)" for a b
    using uint_bounded [of t] by (simp add: get_uint_def serverDoc_UPDATE_TICK_def)
  have keep: "cs_state (fst (cl_onSessionServerTick env (cs1, cl))) = CONNECTED
      \<and> cs_currentTimestamp (fst (cl_onSessionServerTick env (cs1, cl))) = cs_currentTimestamp cs1
      \<and> cs_sessionTTL (fst (cl_onSessionServerTick env (cs1, cl))) = cs_sessionTTL cs1"
    if "cs_state cs1 = CONNECTED" for cs1
    using calls_connected [OF cl.ticked [of env "(cs1, cl)" net ok]] that by (simp add: cl_callback_def)
  show ?thesis
    using assms
    by (simp add: cs_handleInput_def doc cs_onUpdateTick_def stamp Let_def keep cl_callback_def cs_quickDisconnect_def
        cl_onSessionDisconnect_def cl_emit_def case_prod_beta)
qed

text \<open>The timestamp after the largest one is 0.\<close>

theorem client_ticks_consecutive_witness:
  "let cs = ClientSession_create\<lparr>cs_state := CONNECTED, cs_currentTimestamp := - 1\<rparr>;
     input = (\<lambda>t. cs_handleInput sample_env (cl_callback sample_env sample_net (\<lambda>_ _. True))
       (Input_docs [serverDoc_UPDATE_TICK t] None) (cs, Client_create True))
   in cs_currentTimestamp (fst (snd (input 0))) = 0 \<and> cs_disconnectReason (fst (snd (input 5))) = PROTOCOL_ERROR"
proof -
  let ?cs = "ClientSession_create\<lparr>cs_state := CONNECTED, cs_currentTimestamp := - 1\<rparr>"
  have h: "cs_state ?cs = CONNECTED" "cl_connector (Client_create True) = None" by (simp_all add: Client_create_def)
  note t = client_ticks_consecutive [OF h, of sample_env sample_net "\<lambda>_ _. True"]
  have "(- 1 :: u32) + 1 = 0" "(- 1 :: u32) \<noteq> 0" "(5 :: u32) \<noteq> 0" by simp_all
  with t [of 0] t [of 5] show ?thesis by (simp add: Let_def case_prod_beta)
qed

text \<open>
  C28: a silent server is given up. When nothing arrives any more, a session with \<open>n\<close> left of its
  time to live survives exactly \<open>n\<close> updates; the next one ends it with \<open>TIMEOUT\<close>, closes the
  socket, drops what is queued and tells the application.
\<close>

theorem client_times_out:
  fixes env net ok
  defines "tick \<equiv> (\<lambda>x. snd (Client_onUpdate env net ok x))"
  assumes "cs_state cs \<noteq> DISCONNECTED" and "cs_sessionTTL cs = int n" and "cl_connector cl = None"
  shows "(\<forall>k \<le> n. (tick ^^ k) (cs, cl) = (cs\<lparr>cs_sessionTTL := int (n - k)\<rparr>, cl))
    \<and> (let (cs', cl') = (tick ^^ Suc n) (cs, cl)
       in cs_state cs' = DISCONNECTED \<and> \<not> cs_isConnected cs' \<and> cs_sendQueue cs' = [] \<and> cs_disconnectReason cs' = TIMEOUT
         \<and> \<not> cl_isSynchronized cl' \<and> cl_list cl' = cl_list cl \<and> cl_effects cl' = cl_effects cl @ [Dispatch CE_DISCONNECTED])"
proof -
  have wait: "(tick ^^ k) (cs, cl) = (cs\<lparr>cs_sessionTTL := int (n - k)\<rparr>, cl)" if "k \<le> n" for k
    using that
  proof (induction k)
    case 0
    show ?case using assms(3) by (cases cs) simp
  next
    case (Suc k)
    then have "(tick ^^ Suc k) (cs, cl) = tick (cs\<lparr>cs_sessionTTL := int (n - k)\<rparr>, cl)" by simp
    also have "int (n - k) > 0" "int (n - k) - 1 = int (n - Suc k)" using Suc.prems by simp_all
    then have "tick (cs\<lparr>cs_sessionTTL := int (n - k)\<rparr>, cl) = (cs\<lparr>cs_sessionTTL := int (n - Suc k)\<rparr>, cl)"
      using assms(2) by (simp add: tick_def Client_onUpdate_def cs_onUpdate_def)
    finally show ?case .
  qed
  have last: "(tick ^^ Suc n) (cs, cl) = tick (cs\<lparr>cs_sessionTTL := 0\<rparr>, cl)" using wait [of n] by simp
  show ?thesis
  proof (intro conjI allI impI wait)
    show "let (cs', cl') = (tick ^^ Suc n) (cs, cl)
       in cs_state cs' = DISCONNECTED \<and> \<not> cs_isConnected cs' \<and> cs_sendQueue cs' = [] \<and> cs_disconnectReason cs' = TIMEOUT
         \<and> \<not> cl_isSynchronized cl' \<and> cl_list cl' = cl_list cl \<and> cl_effects cl' = cl_effects cl @ [Dispatch CE_DISCONNECTED]"
      unfolding last using assms(2,4)
      by (simp add: tick_def Client_onUpdate_def cs_onUpdate_def cs_quickDisconnect_def cl_callback_def cl_onSessionDisconnect_def
          cl_emit_def)
  qed
qed

theorem client_times_out_witness:
  "let cs = ClientSession_create\<lparr>cs_state := CONNECTED, cs_isConnected := True, cs_sessionTTL := 3\<rparr>;
     x = ((\<lambda>x. snd (Client_onUpdate sample_env sample_net (\<lambda>_ _. True) x)) ^^ 4) (cs, Client_create True)
   in cs_state (fst x) = DISCONNECTED \<and> cs_disconnectReason (fst x) = TIMEOUT"
proof -
  let ?cs = "ClientSession_create\<lparr>cs_state := CONNECTED, cs_isConnected := True, cs_sessionTTL := 3\<rparr>"
  have h: "cs_state ?cs \<noteq> DISCONNECTED" "cs_sessionTTL ?cs = int 3" "cl_connector (Client_create True) = None"
    by (simp_all add: Client_create_def)
  have "Suc 3 = (4 :: nat)" by simp
  with client_times_out [OF h, of sample_env sample_net "\<lambda>_ _. True"] show ?thesis
    by (simp only: Let_def case_prod_beta simp_thms)
qed

text \<open>
  C37: a refused connection makes the client give up although there are addresses left. When the
  kernel reports a refused connection (readable, writable and an error at once), the handler disconnects
  on the failed read, which starts the connection to the next address; the rest of the same event is
  then applied to the new socket: it counts as established, the connector is thrown away, and the error
  flag of the old socket ends the new attempt.
\<close>

theorem refused_connection_gives_up:
  assumes "cs_state cs = OPENING" and "\<not> cs_isConnectionEstablished cs" and "cl_connector cl = Some cc"
    and "connector_ok cc" and "combos_left cc = (a, p) # rest" and "ok a p"
  shows "let (r, out, cs', cl') = cs_SocketPollHandler env (cl_callback env net ok) (Some (Input_error e)) (Some (None, rs)) True (cs, cl)
    in r = Inr () \<and> cs_state cs' = DISCONNECTED \<and> cs_disconnectError cs' = ''Socket poll failed''
      \<and> cl_connector cl' = None
      \<and> cl_effects cl' = cl_effects cl @ [Dispatch CONNECTION_ESTABLISHED, Dispatch CE_DISCONNECTED]"
proof -
  have "cc_resolvedAddresses cc \<noteq> []" using assms(4) by (simp add: connector_ok_def)
  moreover have "connector_loop ok cc = (Inr (), connector_next cc)"
    using connector_next_first [OF assms(4,5)] assms(6) by (simp add: connector_loop.simps)
  ultimately have "tryNext ok cc cs1 = (Inr (), connector_next cc, cs_connect True cs1)" for cs1 by (simp add: tryNext_def)
  with assms(1-3) show ?thesis
    by (simp add: cs_SocketPollHandler_def cs_handleInput_def cs_quickDisconnect_def cl_callback_def cl_onSessionDisconnect_def
        cs_connect_def cs_handleOutput_def cl_onSessionConnectionEstablished_def cl_emit_def Let_def)
qed

theorem refused_connection_gives_up_witness:
  "let x = snd (snd (cs_SocketPollHandler sample_env (cl_callback sample_env sample_net (\<lambda>_ _. True))
     (Some (Input_error ''Connection refused'')) (Some (None, [])) True sample_opening))
   in cs_state (fst x) = DISCONNECTED \<and> cl_connector (snd x) = None"
proof -
  let ?cc = "the (cl_connector (snd sample_opening))"
  have h: "cs_state (fst sample_opening) = OPENING" "\<not> cs_isConnectionEstablished (fst sample_opening)"
    "cl_connector (snd sample_opening) = Some ?cc" "connector_ok ?cc"
    "combos_left ?cc = (AddressIP4 2, DEFAULT_PORT) # []"
    by (simp_all add: sample_opening_eq ClientSession_create_def connector_ok_def combos_left_def)
  from refused_connection_gives_up [OF h, of "\<lambda>_ _. True" sample_env sample_net "''Connection refused''" "[]"] show ?thesis
    by (simp add: Let_def case_prod_beta)
qed

end
