(* ===== verification/Wire.thy ===== *)
theory Wire
  imports ClientRules
begin

text \<open>
  What one end writes and the other reads. Every document the server creates reaches the case of
  \<open>ClientSession::onMessage\<close> it is meant for with members of the right types, and likewise for the
  documents of the client.
\<close>

section \<open>Documents of the server\<close>

lemmas wire_defs = serverDoc_BANNER_def serverDoc_HELLO_def serverDoc_DISCONNECT_def serverDoc_UPDATE_TICK_def
  serverDoc_DATA_STATUS_def serverDoc_DATA_def clientDoc_HELLO_def clientDoc_DISCONNECT_def clientDoc_REQUEST_DATA_def

lemma client_dispatch:
  "cs_onMessage env cb serverDoc_BANNER x = cs_onBanner env cb serverDoc_BANNER x"
  "cs_onMessage env cb (serverDoc_HELLO e) x = cs_onHello cb (serverDoc_HELLO e) x"
  "cs_onMessage env cb (serverDoc_DISCONNECT r) x = cs_onDisconnectMsg cb (serverDoc_DISCONNECT r) x"
  "cs_onMessage env cb (serverDoc_UPDATE_TICK t) x = cs_onUpdateTick cb (serverDoc_UPDATE_TICK t) x"
  "cs_onMessage env cb (serverDoc_DATA_STATUS f g) x = cs_onDataStatus cb (serverDoc_DATA_STATUS f g) x"
  "cs_onMessage env cb (serverDoc_DATA f u j) x = cs_onData cb (serverDoc_DATA f u j) x"
  by (simp_all add: cs_onMessage_def cs_msgType_def wire_defs getServerMsgEnum_def m_serverMsgMap_def KString_of_cstr_def)

lemma client_reads:
  "get_int serverDoc_BANNER ''conntop_server'' a b = Inr VERSION"
  "get_uint (serverDoc_UPDATE_TICK t) ''timestamp'' a b = Inr (uint t)"
  "get_int (serverDoc_DATA_STATUS f g) ''dataFlags'' a b = Inr (sint f)"
  "get_int (serverDoc_DATA_STATUS f g) ''dataUpdateFlags'' a b = Inr (sint g)"
  "get_int (serverDoc_DATA f u j) ''type'' a b = Inr (sint f)"
  "get_bool (serverDoc_DATA f u j) ''isUpdate'' a b = Inr u"
  "FindMember (serverDoc_DATA f u j) ''data'' = Some j"
  "get_string (serverDoc_HELLO e) ''name'' a b = Inr (KString_of_cstr (instance_name e))"
  "get_string (serverDoc_HELLO e) ''version'' a b = Inr (KString_of_cstr (env_version e))"
  "get_string (serverDoc_HELLO e) ''platform'' a b = Inr (KString_of_cstr (env_systemName e))"
  using uint_bounded [of t]
  by (simp_all add: wire_defs get_flags get_uint_def get_bool_def get_string_def) (simp add: get_int_def VERSION_def)

lemma client_onBanner:
  "cs_state cs = OPENING \<Longrightarrow> cs_expectedMsg cs = EM_SERVER_BANNER \<Longrightarrow>
     cs_onMessage env cb serverDoc_BANNER (cs, s) =
       (Inr (), cs_sendMessage (createClientMsg_HELLO env) (cs\<lparr>cs_expectedMsg := EM_SERVER_HELLO\<rparr>), s)"
  by (simp add: client_dispatch cs_onBanner_def client_reads)

lemma client_onHello:
  "cs_state cs = OPENING \<Longrightarrow> cs_expectedMsg cs = EM_SERVER_HELLO \<Longrightarrow>
     cs_onMessage env cb (serverDoc_HELLO e) (cs, s) =
       (Inr (), ccb_onSessionEstablished cb
         (cs\<lparr>cs_serverName := KString_of_cstr (instance_name e), cs_serverVersion := KString_of_cstr (env_version e),
             cs_serverPlatformName := KString_of_cstr (env_systemName e), cs_expectedMsg := EM_NONE, cs_state := CONNECTED,
             cs_sessionTTL := 3, cs_currentTimestamp := 0, cs_dataFlags := 0, cs_dataUpdateFlags := 0\<rparr>, s))"
  by (simp add: client_dispatch cs_onHello_def client_reads result_bind_def)

lemma client_onTick:
  "cs_state cs = CONNECTED \<Longrightarrow> t = cs_currentTimestamp cs + 1 \<or> cs_currentTimestamp cs = 0 \<Longrightarrow>
     cs_onMessage env cb (serverDoc_UPDATE_TICK t) (cs, s) =
       (Inr (), ccb_onSessionServerTick cb (cs\<lparr>cs_currentTimestamp := t, cs_sessionTTL := cs_sessionTTL cs + 1\<rparr>, s))"
  by (auto simp: client_dispatch cs_onUpdateTick_def client_reads Let_def)

lemma client_onStatus:
  "cs_state cs = CONNECTED \<Longrightarrow> cs_expectedMsg cs = EM_SERVER_DATA_STATUS \<Longrightarrow>
     cs_onMessage env cb (serverDoc_DATA_STATUS f g) (cs, s) =
       (Inr (), ccb_onSessionDataStatus cb (cs_dataFlags cs \<noteq> f)
         (cs\<lparr>cs_dataFlags := f, cs_dataUpdateFlags := g, cs_expectedMsg := EM_NONE, cs_sessionTTL := 3\<rparr>, s))"
  by (simp add: client_dispatch cs_onDataStatus_def client_reads result_bind_def Let_def)

lemma client_onData:
  "cs_state cs = CONNECTED \<Longrightarrow> has_flag f (cs_dataFlags cs) \<Longrightarrow> \<not> u \<or> has_flag f (cs_dataUpdateFlags cs) \<Longrightarrow>
     cs_onMessage env cb (serverDoc_DATA f u j) (cs, s) = ccb_onSessionData cb f u j (cs, s)"
  by (auto simp: client_dispatch cs_onData_def client_reads result_bind_def)

section \<open>Documents of the client\<close>

lemma server_dispatch:
  "ss_onMessage cb (clientDoc_HELLO e) x = ss_onHello cb (clientDoc_HELLO e) x"
  "ss_onMessage cb (clientDoc_DISCONNECT r) x = ss_onDisconnect cb (clientDoc_DISCONNECT r) x"
  "ss_onMessage cb (clientDoc_REQUEST_DATA f g) x = ss_onRequestData cb (clientDoc_REQUEST_DATA f g) x"
  by (simp_all add: ss_onMessage_def get_string_def wire_defs getClientMsgEnum_def m_clientMsgMap_def KString_of_cstr_def)

lemma server_reads:
  "get_int (clientDoc_REQUEST_DATA f g) ''dataFlags'' a b = Inr (sint f)"
  "get_int (clientDoc_REQUEST_DATA f g) ''dataUpdateFlags'' a b = Inr (sint g)"
  "get_string (clientDoc_HELLO e) ''name'' a b = Inr (KString_of_cstr (instance_name e))"
  "get_string (clientDoc_HELLO e) ''version'' a b = Inr (KString_of_cstr (env_version e))"
  "get_string (clientDoc_HELLO e) ''platform'' a b = Inr (KString_of_cstr (env_systemName e))"
  by (simp_all add: wire_defs get_flags get_string_def)

lemma server_onHello:
  "ss_state ss = OPENING \<Longrightarrow>
     ss_onMessage cb (clientDoc_HELLO e) (ss, s) =
       (Inr (), scb_onSessionEstablished cb
         ((ss_sendSharedMessage CachedHello (ss\<lparr>ss_clientName := KString_of_cstr (instance_name e),
             ss_clientVersion := KString_of_cstr (env_version e),
             ss_clientPlatformName := KString_of_cstr (env_systemName e)\<rparr>))\<lparr>ss_state := CONNECTED\<rparr>, s))"
  by (simp add: server_dispatch ss_onHello_def server_reads result_bind_def)

lemma server_onRequest:
  "ss_state ss = CONNECTED \<Longrightarrow>
     ss_onMessage cb (clientDoc_REQUEST_DATA f g) (ss, s) = (Inr (), scb_onSessionDataRequest cb f g (ss, s))"
  by (simp add: server_dispatch ss_onRequestData_def server_reads result_bind_def)

section \<open>Properties\<close>

text \<open>The documents of either end.\<close>

inductive server_doc :: "app_env \<Rightarrow> json \<Rightarrow> bool" for env where
  sd_banner: "server_doc env serverDoc_BANNER"
| sd_hello: "server_doc env (serverDoc_HELLO env)"
| sd_disconnect: "server_doc env (serverDoc_DISCONNECT r)"
| sd_tick: "server_doc env (serverDoc_UPDATE_TICK t)"
| sd_status: "server_doc env (serverDoc_DATA_STATUS f g)"
| sd_data: "server_doc env (serverDoc_DATA f u j)"

inductive client_doc :: "app_env \<Rightarrow> json \<Rightarrow> bool" for env where
  cd_hello: "client_doc env (clientDoc_HELLO env)"
| cd_disconnect: "client_doc env (clientDoc_DISCONNECT r)"
| cd_request: "client_doc env (clientDoc_REQUEST_DATA f g)"

definition unexpected :: "exception \<Rightarrow> bool" where
  "unexpected e \<longleftrightarrow> (case e of invalid_argument m \<Rightarrow> take 10 m = ''Unexpected'' | _ \<Rightarrow> False)"

lemma get_reason [simp]:
  "get_string (serverDoc_DISCONNECT r) ''reason'' a b = Inr (KString_of_cstr (getDisconnectReasonName r))"
  "get_string (clientDoc_DISCONNECT r) ''reason'' a b = Inr (KString_of_cstr (getDisconnectReasonName r))"
  by (simp_all add: wire_defs get_string_def)

lemma reason_roundtrip: "getDisconnectReasonEnum (KString_of_cstr (getDisconnectReasonName r)) = r"
  by (cases r) (simp_all add: KString_of_cstr_def getDisconnectReasonEnum_def m_disconnectReasonMap_def)

lemma client_well_typed:
  assumes "server_doc env d" and "cs_onMessage env' cb d x = (Inl e, x')"
  shows "unexpected e \<and> x' = x
    \<or> (\<exists>r m. d = serverDoc_DISCONNECT r \<and> cs_quickDisconnect cb r m x = (Inl e, x'))
    \<or> (\<exists>f u j. d = serverDoc_DATA f u j \<and> ccb_onSessionData cb f u j x = (Inl e, x'))"
  using assms
proof (induction rule: server_doc.induct)
  case sd_banner
  then show ?case
    by (cases x) (auto simp: client_dispatch cs_onBanner_def client_reads unexpected_def split: if_splits)
next
  case sd_hello
  then show ?case
    by (cases x) (auto simp: client_dispatch cs_onHello_def client_reads result_bind_def unexpected_def split: if_splits)
next
  case (sd_disconnect r)
  then show ?case
    by (auto simp: client_dispatch cs_onDisconnectMsg_def Let_def reason_roundtrip)
next
  case (sd_tick t)
  then show ?case
    by (cases x) (auto simp: client_dispatch cs_onUpdateTick_def client_reads Let_def unexpected_def split: if_splits)
next
  case (sd_status f g)
  then show ?case
    by (cases x) (auto simp: client_dispatch cs_onDataStatus_def client_reads result_bind_def Let_def unexpected_def split: if_splits)
next
  case (sd_data f u j)
  then show ?case
    by (cases x) (auto simp: client_dispatch cs_onData_def client_reads result_bind_def unexpected_def split: if_splits)
qed

lemma server_well_typed:
  "client_doc env c \<Longrightarrow> ss_onMessage scb c y = (Inl e, y') \<Longrightarrow> unexpected e \<and> y' = y"
  by (induction rule: client_doc.induct; cases y)
    (auto simp: server_dispatch ss_onHello_def ss_onDisconnect_def ss_onRequestData_def server_reads result_bind_def Let_def
      unexpected_def split: if_splits)

text \<open>
  C4: the messages are well typed. Whatever the state of the receiving session and whatever its callbacks
  do, it never rejects a document that the other end creates for a missing member, a member of the wrong
  type or an unknown name: it raises an exception of its own only because the message is unexpected in its
  state, which it then keeps. Any other exception of the client is the callback's: the one that is told
  of the end of the session, for the reason the server gave, or the one that is handed the data, with exactly
  the data and the flags the server sent.
\<close>

theorem created_messages_well_typed:
  "(server_doc env d \<and> cs_onMessage env' cb d x = (Inl e, x') \<longrightarrow>
      unexpected e \<and> x' = x
      \<or> (\<exists>r m. d = serverDoc_DISCONNECT r \<and> cs_quickDisconnect cb r m x = (Inl e, x'))
      \<or> (\<exists>f u j. d = serverDoc_DATA f u j \<and> ccb_onSessionData cb f u j x = (Inl e, x')))
    \<and> (client_doc env c \<and> ss_onMessage scb c y = (Inl e, y') \<longrightarrow> unexpected e \<and> y' = y)"
  using client_well_typed [of env d env' cb x e x'] server_well_typed [of env c scb y e y'] by blast

theorem created_messages_well_typed_witness:
  "cs_onMessage sample_env (cl_callback sample_env sample_net (\<lambda>_ _. True)) (serverDoc_HELLO sample_env) (ClientSession_create, Client_create True)
      = (Inl (invalid_argument ''Unexpected HELLO message''), ClientSession_create, Client_create True)
    \<and> unexpected (invalid_argument ''Unexpected HELLO message'')"
proof -
  have m: "cs_onMessage sample_env (cl_callback sample_env sample_net (\<lambda>_ _. True)) (serverDoc_HELLO sample_env) (ClientSession_create, Client_create True)
      = (Inl (invalid_argument ''Unexpected HELLO message''), ClientSession_create, Client_create True)"
    by (simp add: client_dispatch cs_onHello_def ClientSession_create_def)
  with created_messages_well_typed [of sample_env "serverDoc_HELLO sample_env" sample_env "cl_callback sample_env sample_net (\<lambda>_ _. True)"
      "(ClientSession_create, Client_create True)" "invalid_argument ''Unexpected HELLO message''"
      "(ClientSession_create, Client_create True)"] sd_hello [of sample_env]
  have "unexpected (invalid_argument ''Unexpected HELLO message'')"
    by (simp add: serverDoc_HELLO_def serverDoc_DISCONNECT_def serverDoc_DATA_def) blast
  with m show ?thesis by blast
qed

end
