(* ===== verification/Link.thy ===== *)
theory Link
  imports Wire
begin

text \<open>
  The stream of documents from a server to a client. A link state says what the receiver knows at a
  point of the stream: the last timestamp, the flags of the last \<open>DATA_STATUS\<close>, and the server's
  connections at the last tick and at the one before. The second half shows that a client that follows
  a well-formed stream accepts every document of it and keeps its list equal to the server's
  connections whenever it considers itself synchronized.
\<close>

section \<open>Well-formed streams\<close>

record link =
  lk_tick :: u32
  lk_flags :: flags
  lk_updateFlags :: flags
  lk_before :: view
  lk_now :: view

text \<open>Replaying the items brings any list with the old connections to the new ones.\<close>

definition good_update :: "inet \<Rightarrow> view \<Rightarrow> view \<Rightarrow> json list \<Rightarrow> bool" where
  "good_update net before now items \<longleftrightarrow>
     (\<forall>l. list_reach net l \<longrightarrow> conn_view (m_storage l) = before \<longrightarrow>
        fst (deserialize_all net (list_callback net) items l) = Inr () \<and>
        conn_view (m_storage (snd (deserialize_all net (list_callback net) items l))) = now)"

definition good_snapshot :: "inet \<Rightarrow> view \<Rightarrow> json list \<Rightarrow> bool" where
  "good_snapshot net now items \<longleftrightarrow>
     (\<forall>l. list_reach net l \<longrightarrow>
        fst (deserialize_all net (list_callback net) items (clear l)) = Inr () \<and>
        conn_view (m_storage (snd (deserialize_all net (list_callback net) items (clear l)))) = now)"

text \<open>The number counts the \<open>DATA_STATUS\<close> documents.\<close>

inductive stream :: "inet \<Rightarrow> nat \<Rightarrow> link \<Rightarrow> json list \<Rightarrow> link \<Rightarrow> bool" for net where
  stream_end: "stream net 0 k [] k"
| stream_tick: "stream net n (k\<lparr>lk_tick := lk_tick k + 1, lk_before := lk_now k, lk_now := v\<rparr>) ds k' \<Longrightarrow>
    stream net n k (serverDoc_UPDATE_TICK (lk_tick k + 1) # ds) k'"
| stream_status: "stream net n (k\<lparr>lk_flags := EDataFlags_CONNECTION, lk_updateFlags := g\<rparr>) ds k' \<Longrightarrow>
    stream net (Suc n) k (serverDoc_DATA_STATUS EDataFlags_CONNECTION g # ds) k'"
| stream_update: "stream net n k ds k' \<Longrightarrow> has_flag EDataFlags_CONNECTION (lk_flags k) \<Longrightarrow>
    has_flag EDataFlags_CONNECTION (lk_updateFlags k) \<Longrightarrow> good_update net (lk_before k) (lk_now k) items \<Longrightarrow>
    stream net n k (serverDoc_DATA EDataFlags_CONNECTION True (JArray items) # ds) k'"
| stream_snapshot: "stream net n k ds k' \<Longrightarrow> has_flag EDataFlags_CONNECTION (lk_flags k) \<Longrightarrow>
    good_snapshot net (lk_now k) items \<Longrightarrow>
    stream net n k (serverDoc_DATA EDataFlags_CONNECTION False (JArray items) # ds) k'"

inductive_cases stream_NilE [elim!]: "stream net n k [] k'"

lemma stream_append: "stream net n k xs k' \<Longrightarrow> stream net m k' ys k'' \<Longrightarrow> stream net (n + m) k (xs @ ys) k''"
  by (induction rule: stream.induct) (auto intro: stream.intros)

section \<open>A client at a point of the stream\<close>

text \<open>\<open>n\<close> is the number of requests and answers that are under way.\<close>

definition client_ok :: "link \<Rightarrow> nat \<Rightarrow> Client csess \<Rightarrow> bool" where
  "client_ok k n x \<longleftrightarrow>
     cs_state (fst x) = CONNECTED \<and> cl_connector (snd x) = None \<and> cs_isConnectionEstablished (fst x) \<and>
     (cs_currentTimestamp (fst x) = 0 \<or> cs_currentTimestamp (fst x) = lk_tick k) \<and>
     cs_dataFlags (fst x) = lk_flags k \<and> cs_dataUpdateFlags (fst x) = lk_updateFlags k \<and>
     n = (if cs_expectedMsg (fst x) = EM_SERVER_DATA_STATUS then 1 else 0) \<and>
     cl_requestedDataFlags (snd x) = EDataFlags_CONNECTION \<and>
     cl_remainingDataFlags (snd x) \<in> {0, EDataFlags_CONNECTION} \<and>
     (cl_isSynchronized (snd x) \<longrightarrow>
        conn_view (m_storage (cl_list (snd x))) = (if cl_remainingDataFlags (snd x) = 0 then lk_now k else lk_before k))"

text \<open>The client has moved on and queued some requests for data.\<close>

definition served :: "app_env \<Rightarrow> link \<Rightarrow> nat \<Rightarrow> SerializedClientMessage list \<Rightarrow> Client csess \<Rightarrow> bool" where
  "served env k n q x \<longleftrightarrow>
     (\<exists>gs. cs_sendQueue (fst x) = q @ map (createClientMsg_REQUEST_DATA env EDataFlags_CONNECTION) gs \<and>
        client_ok k (n + length gs) x)"

lemma served_same: "client_ok k n x \<Longrightarrow> cs_sendQueue (fst x) = q \<Longrightarrow> served env k n q x"
  unfolding served_def by (rule exI [of _ "[]"]) simp

lemma CONNECTION_flags [simp]:
  "EDataFlags_CONNECTION \<noteq> 0" "EDataFlags_CONNECTION AND EDataFlags_CONNECTION = EDataFlags_CONNECTION"
  "EDataFlags_CONNECTION AND NOT EDataFlags_CONNECTION = 0" "has_flag EDataFlags_CONNECTION EDataFlags_CONNECTION"
  "\<not> has_flag EDataFlags_CONNECTION 0"
  by (simp_all add: EDataFlags_CONNECTION_def has_flag_def)

text \<open>A request is sent unless one is under way.\<close>

lemma served_requestData:
  assumes "client_ok k n (cs, cl)" and "cs_expectedMsg cs \<in> {EM_NONE, EM_SERVER_DATA_STATUS}"
  shows "served env k n (cs_sendQueue cs) (cl_requestData env (cs, cl))"
proof (cases "cs_expectedMsg cs = EM_NONE")
  case True
  with assms(1) show ?thesis
    unfolding served_def
    by (intro exI [of _ "[cl_requestedDataUpdateFlags cl]"])
      (simp add: client_ok_def cl_requestData_def cs_requestData_def cs_sendMessage_def Let_def)
next
  case False
  with assms show ?thesis
    by (intro served_same) (auto simp: client_ok_def cl_requestData_def cs_requestData_def)
qed

text \<open>What does not matter to the stream.\<close>

lemma client_ok_emit [simp]: "client_ok k n (cs, cl_emit e cl) = client_ok k n (cs, cl)"
  "served env k n q (cs, cl_emit e cl) = served env k n q (cs, cl)"
  by (simp_all add: client_ok_def cl_emit_def served_def)

lemma client_ok_requested [simp]:
  "client_ok k n (cs, cl\<lparr>cl_isDataRequested := b\<rparr>) = client_ok k n (cs, cl)"
  "client_ok k n (cs, cl\<lparr>cl_requestedDataUpdateFlags := g\<rparr>) = client_ok k n (cs, cl)"
  "client_ok k n (cs\<lparr>cs_pollOutput := p\<rparr>, cl) = client_ok k n (cs, cl)"
  "served env k n q (cs, cl\<lparr>cl_isDataRequested := b\<rparr>) = served env k n q (cs, cl)"
  "served env k n q (cs\<lparr>cs_pollOutput := p\<rparr>, cl) = served env k n q (cs, cl)"
  by (simp_all add: client_ok_def served_def)

section \<open>The documents\<close>

lemma served_tick:
  assumes "client_ok k n (cs, cl)" and "cs_expectedMsg cs \<in> {EM_NONE, EM_SERVER_DATA_STATUS}"
  shows "\<exists>x'. cs_onMessage env (cl_callback env net ok) (serverDoc_UPDATE_TICK (lk_tick k + 1)) (cs, cl) = (Inr (), x')
    \<and> served env (k\<lparr>lk_tick := lk_tick k + 1, lk_before := lk_now k, lk_now := v\<rparr>) n (cs_sendQueue cs) x'"
proof -
  let ?k = "k\<lparr>lk_tick := lk_tick k + 1, lk_before := lk_now k, lk_now := v\<rparr>"
  let ?cs = "cs\<lparr>cs_currentTimestamp := lk_tick k + 1, cs_sessionTTL := cs_sessionTTL cs + 1\<rparr>"
  have "served env ?k n (cs_sendQueue cs) (cl_onSessionServerTick env (?cs, cl))"
  proof (cases "cl_remainingDataFlags cl = 0")
    case True
    have "client_ok ?k n (?cs, setSynchronized False cl)" "client_ok ?k n (?cs, cl\<lparr>cl_remainingDataFlags := cl_requestedDataFlags cl\<rparr>)"
      using assms(1) True by (auto simp: client_ok_def setSynchronized_def cl_emit_def)
    with True show ?thesis
      by (auto simp: cl_onSessionServerTick_def Let_def intro!: served_same)
        (auto simp: cl_emit_def setSynchronized_def client_ok_def)
  next
    case False
    let ?cl = "setSynchronized False ((cl_emit (Dispatch SERVER_UPDATE_TICK) cl)\<lparr>cl_remainingDataFlags := 0, cl_requestedDataUpdateFlags := 0\<rparr>)"
    have c: "client_ok ?k n (?cs, ?cl)"
      using assms(1) by (auto simp: client_ok_def setSynchronized_def cl_emit_def)
    have "served env ?k n (cs_sendQueue cs) (cl_requestData env (?cs, ?cl))"
      using served_requestData [OF c] assms(2) by simp
    with c False show ?thesis
      by (auto simp: cl_onSessionServerTick_def Let_def case_prod_beta cl_emit_def intro: served_same
          simp del: client_ok_emit split: prod.split)
  qed
  moreover have "cs_onMessage env (cl_callback env net ok) (serverDoc_UPDATE_TICK (lk_tick k + 1)) (cs, cl)
    = (Inr (), cl_onSessionServerTick env (?cs, cl))"
    using assms(1) by (subst client_onTick) (auto simp: client_ok_def cl_callback_def)
  ultimately show ?thesis by blast
qed

lemma served_status:
  assumes "client_ok k (Suc n) (cs, cl)"
  shows "\<exists>x'. cs_onMessage env (cl_callback env net ok) (serverDoc_DATA_STATUS EDataFlags_CONNECTION g) (cs, cl) = (Inr (), x')
    \<and> served env (k\<lparr>lk_flags := EDataFlags_CONNECTION, lk_updateFlags := g\<rparr>) n (cs_sendQueue cs) x'"
proof -
  let ?k = "k\<lparr>lk_flags := EDataFlags_CONNECTION, lk_updateFlags := g\<rparr>"
  let ?cs = "cs\<lparr>cs_dataFlags := EDataFlags_CONNECTION, cs_dataUpdateFlags := g, cs_expectedMsg := EM_NONE, cs_sessionTTL := 3\<rparr>"
  have st: "cs_state cs = CONNECTED" "cs_expectedMsg cs = EM_SERVER_DATA_STATUS"
    using assms by (auto simp: client_ok_def split: if_splits)
  define cl1 where "cl1 = cl\<lparr>cl_requestedDataFlags := cl_requestedDataFlags cl AND EDataFlags_CONNECTION,
    cl_requestedDataUpdateFlags := cl_requestedDataUpdateFlags cl AND g\<rparr>"
  have c: "client_ok ?k n (?cs, cl1)" "client_ok ?k n (?cs, cl1\<lparr>cl_requestedDataUpdateFlags := 0\<rparr>)"
    using assms by (auto simp: client_ok_def cl1_def split: if_splits)
  have "served env ?k n (cs_sendQueue cs) (cl_requestData env (?cs, cl1\<lparr>cl_requestedDataUpdateFlags := 0\<rparr>))"
    using served_requestData [OF c(2)] by simp
  moreover have "served env ?k n (cs_sendQueue cs) (?cs, cl1)" using c(1) by (rule served_same) simp
  ultimately have "served env ?k n (cs_sendQueue cs) (if cl_requestedDataUpdateFlags cl1 \<noteq> 0 \<and> \<not> cl_isSynchronized cl1
      then cl_requestData env (?cs, cl1\<lparr>cl_requestedDataUpdateFlags := 0\<rparr>) else (?cs, cl1))" (is "served _ _ _ _ ?y") by simp
  moreover have "cl_onSessionDataStatus env b (?cs, cl) = (fst ?y, if b then cl_emit (Dispatch NEW_DATA_AVAILABLE) (snd ?y) else snd ?y)"
    for b
    by (simp add: cl_onSessionDataStatus_def cl1_def case_prod_beta Let_def)
  ultimately have "served env ?k n (cs_sendQueue cs) (cl_onSessionDataStatus env b (?cs, cl))" for b by simp
  with client_onStatus [OF st, of env "cl_callback env net ok"] show ?thesis by (simp add: cl_callback_def)
qed

text \<open>What received data does: nothing, or it brings the list up to date.\<close>

lemma served_data:
  assumes "client_ok k n (cs, cl)" and "cs_expectedMsg cs \<in> {EM_NONE, EM_SERVER_DATA_STATUS}" and "list_reach net (cl_list cl)"
    and "has_flag EDataFlags_CONNECTION (lk_flags k)"
    and "if u then has_flag EDataFlags_CONNECTION (lk_updateFlags k) \<and> good_update net (lk_before k) (lk_now k) items
         else good_snapshot net (lk_now k) items"
  shows "\<exists>x'. cs_onMessage env (cl_callback env net ok) (serverDoc_DATA EDataFlags_CONNECTION u (JArray items)) (cs, cl) = (Inr (), x')
    \<and> served env k n (cs_sendQueue cs) x'"
proof -
  have acc: "cs_onMessage env (cl_callback env net ok) (serverDoc_DATA EDataFlags_CONNECTION u (JArray items)) (cs, cl)
    = cl_onSessionData env net EDataFlags_CONNECTION u (JArray items) (cs, cl)"
    using assms(1,4,5) by (subst client_onData) (auto simp: client_ok_def cl_callback_def split: if_splits)
  show ?thesis
  proof (cases "(u \<and> \<not> cl_isSynchronized cl) \<or> cl_remainingDataFlags cl = 0 \<or> cl_isPaused cl")
    case True
    then have "cl_onSessionData env net EDataFlags_CONNECTION u (JArray items) (cs, cl) = (Inr (), cs, cl)"
      by (auto simp: cl_onSessionData_def)
    with acc assms(1) show ?thesis by (simp add: served_same)
  next
    case False
    then have rem: "cl_remainingDataFlags cl = EDataFlags_CONNECTION" using assms(1) by (auto simp: client_ok_def)
    obtain l where l: "deserialize_all net (list_callback net) items (if u then cl_list cl else clear (cl_list cl)) = (Inr (), l)"
      and v: "conn_view (m_storage l) = lk_now k"
    proof (cases u)
      case True
      then have "conn_view (m_storage (cl_list cl)) = lk_before k"
        using False assms(1) rem by (simp add: client_ok_def)
      with True assms(3,5) show ?thesis
        by (intro that [of "snd (deserialize_all net (list_callback net) items (cl_list cl))"])
          (auto simp: good_update_def prod_eq_iff)
    next
      case False
      with assms(3,5) show ?thesis
        by (intro that [of "snd (deserialize_all net (list_callback net) items (clear (cl_list cl)))"])
          (auto simp: good_snapshot_def prod_eq_iff)
    qed
    define cl1 where "cl1 = (if cl_hasUI cl then cl_emit RefreshConnectionList (cl\<lparr>cl_list := l\<rparr>) else cl\<lparr>cl_list := l\<rparr>)\<lparr>cl_remainingDataFlags := 0\<rparr>"
    define cl2 where "cl2 = (if \<not> cl_isSynchronized cl1
       then (setSynchronized True cl1)\<lparr>cl_requestedDataUpdateFlags := cl_requestedDataFlags cl1\<rparr> else cl1)"
    have "client_ok k n (cs, cl2)"
      using assms(1) v by (auto simp: client_ok_def cl2_def cl1_def setSynchronized_def cl_emit_def)
    from served_requestData [OF this assms(2), of env]
    have "served env k n (cs_sendQueue cs) (cl_requestData env (cs, cl2))" .
    moreover have "cl_onSessionData env net EDataFlags_CONNECTION u (JArray items) (cs, cl) = (Inr (), cl_requestData env (cs, cl2))"
      using False rem l by (auto simp: cl_onSessionData_def Let_def cl1_def cl2_def cl_emit_def)
    ultimately show ?thesis using acc by simp
  qed
qed

text \<open>A client on a well-formed stream accepts the next document and stays on the stream.\<close>

lemma client_follows:
  assumes "client_ok k (r + n) (cs, cl)" and "cl_inv net (cs, cl)" and "stream net n k (d # ds) k'"
  shows "\<exists>x' k1 n1. cs_onMessage env (cl_callback env net ok) d (cs, cl) = (Inr (), x') \<and> stream net n1 k1 ds k'
    \<and> served env k1 (r + n1) (cs_sendQueue cs) x'"
proof -
  have e: "cs_expectedMsg cs \<in> {EM_NONE, EM_SERVER_DATA_STATUS}" and l: "list_reach net (cl_list cl)"
    using assms(1,2) by (auto simp: cl_inv_def cs_inv_def client_ok_def)
  show ?thesis
    using assms(3)
  proof (cases rule: stream.cases)
    case (stream_tick v)
    with served_tick [OF assms(1) e, of env net ok v] show ?thesis by blast
  next
    case (stream_status n1 g)
    with assms(1) served_status [of k "r + n1" cs cl env net ok g] show ?thesis by auto
  next
    case (stream_update items)
    with served_data [OF assms(1) e l, of True items env ok] show ?thesis by auto
  next
    case (stream_snapshot items)
    with served_data [OF assms(1) e l, of False items env ok] show ?thesis by auto
  qed
qed

end
