(* ===== verification/System.thy ===== *)
theory System
  imports Link
begin

text \<open>
  Collector, server and client together: the Netfilter collector reports to the server, whose only
  client follows it over two channels of documents. The channels carry whole messages; \<open>read\<close> is the
  receiver's parser. A server that waits with its next update until the client has taken the messages of
  the last one never meets the aliasing of shared messages.
\<close>

section \<open>The collector's work\<close>

definition netfilter ::
  "inet \<Rightarrow> nf_conntrack list \<Rightarrow> Conntrack \<Rightarrow> ConnectionUpdateSerializer \<Rightarrow> ConnectionUpdateSerializer" where
  "netfilter net cts ck u = snd (snd (Conntrack_onUpdate us_read (us_callback net) (Some cts) (ck, u)))"

lemma netfilter_collects:
  assumes "ck_reach net ck u"
  shows "(collect net)\<^sup>*\<^sup>* u (netfilter net cts ck u) \<or> (collect net)\<^sup>*\<^sup>* (us_clear u) (netfilter net cts ck u)"
proof (cases "ct_isRefillRequired ck")
  case True
  have "us_reach net (us_clear u)" using ck_reach_ok [OF assms] us_cleared by blast
  from collect_dump [OF this, where b = True and cts = cts] True show ?thesis
    by (auto simp: netfilter_def Conntrack_onUpdate_def Let_def us_callback_def)
next
  case False
  have q: "us_reach net u" "queue_ok u (ct_eventQueue ck)" using ck_reach_ok [OF assms] by simp_all
  have "Conntrack_onUpdate us_read (us_callback net) (Some cts) (ck, u) =
    (fst (Conntrack_onUpdate us_read (us_callback net) (Some cts) (ck, u)),
     fst (snd (Conntrack_onUpdate us_read (us_callback net) (Some cts) (ck, u))), netfilter net cts ck u)"
    by (simp add: netfilter_def)
  from collect_onUpdate [OF q False this] show ?thesis by blast
qed

lemma collects_enabled:
  "(collect net)\<^sup>*\<^sup>* u u' \<Longrightarrow> us_isSerializationEnabled u \<Longrightarrow> us_isSerializationEnabled u'"
proof (induction rule: rtranclp_induct)
  case (step y z)
  from step.hyps(2) step.IH [OF step.prems] show ?case
    by cases (auto simp: us_getAddress_eq us_getPort_eq us_add_def us_update_def us_write_def us_remove_def case_prod_beta
        Let_def split: option.splits)
qed

text \<open>What the server builds from the collector's work is good for its clients.\<close>

lemma netfilter_good:
  fixes net cts ck u
  defines "u' \<equiv> netfilter net cts ck u"
  assumes "inet_roundtrip net" and "ck_reach net ck u" and "us_serializer u = []"
  shows "us_reach net u'"
    and "us_isSerializationEnabled u' \<Longrightarrow> good_update net (conn_view (us_storage u)) (conn_view (us_storage u')) (us_serializer u')"
    and "\<not> us_isSerializationEnabled u' \<Longrightarrow> us_serializer u' = []"
    and "good_snapshot net (conn_view (us_storage u')) (ConnectionStorageSerializer (us_storage u'))"
proof -
  have u: "us_reach net u" using ck_reach_ok [OF assms(3)] by simp
  have clear: "us_serializer (us_clear u) = []" "\<not> us_isSerializationEnabled (us_clear u)" "us_reach net (us_clear u)"
    using assms(4) us_cleared [OF u] by (auto simp: us_clear_def setSerializationEnabled_def)
  note work = netfilter_collects [OF assms(3), of cts, folded u'_def]
  show r: "us_reach net u'" using work us_reach_collects u clear(3) by blast
  have on: "us_isSerializationEnabled u \<and> (collect net)\<^sup>*\<^sup>* u u'" if "us_isSerializationEnabled u'"
    using work collects_disabled clear(2) that by blast
  show "good_update net (conn_view (us_storage u)) (conn_view (us_storage u')) (us_serializer u')"
    if "us_isSerializationEnabled u'"
  proof -
    have "tracks net (conn_view (us_storage u)) u'"
      using collected(2) [OF conjunct2 [OF on [OF that]] assms(2) u] tracks_start [OF assms(4)] on [OF that] by blast
    then show ?thesis using tracks_replay [OF assms(2)] by (auto simp: good_update_def)
  qed
  show "us_serializer u' = []" if off: "\<not> us_isSerializationEnabled u'"
  proof (cases "(collect net)\<^sup>*\<^sup>* (us_clear u) u'")
    case True
    then show ?thesis using collects_disabled [OF True clear(2)] clear(1) by simp
  next
    case False
    then have c: "(collect net)\<^sup>*\<^sup>* u u'" using work by blast
    then have "\<not> us_isSerializationEnabled u" using collects_enabled off by blast
    with collects_disabled [OF c] assms(4) show ?thesis by simp
  qed
  show "good_snapshot net (conn_view (us_storage u')) (ConnectionStorageSerializer (us_storage u'))"
    using snapshot_replay [OF assms(2) r] by (simp add: good_snapshot_def)
qed

section \<open>The system\<close>

record system =
  sy_collector :: Conntrack
  sy_server :: Server
  sy_client :: "Client csess"
  sy_toClient :: "json list"
  sy_toServer :: "json list"

definition sy_session :: "Server \<Rightarrow> ServerSession" where
  "sy_session sv = sv_clients sv ! 0"

text \<open>The server's next messages, and the client's, as the other end reads them.\<close>

definition server_docs :: "(string \<Rightarrow> json) \<Rightarrow> Server \<Rightarrow> json list" where
  "server_docs read sv = map (read \<circ> queued_text (sv_store sv)) (ss_sendQueue (sy_session sv))"

definition client_docs :: "(string \<Rightarrow> json) \<Rightarrow> ClientSession \<Rightarrow> json list" where
  "client_docs read cs = map (read \<circ> sm_msg) (cs_sendQueue cs)"

text \<open>
  A system starts when the server has accepted its client and the client has found the connection
  established. The steps are an update of the server, events of the kernel for the collector, messages
  sent and received by either side, the client's own clock, and its user.
\<close>

definition sys_start :: "app_env \<Rightarrow> inet \<Rightarrow> system \<Rightarrow> bool" where
  "sys_start env net s \<longleftrightarrow>
     ck_reach net (sy_collector s) ConnectionUpdateSerializer_init \<and>
     sy_server s = snd (Server_pollHandler (Some True) False (Server_create env True)) \<and>
     cl_reach env net (sy_client s) \<and> cl_connector (snd (sy_client s)) = None \<and>
     cs_state (fst (sy_client s)) = OPENING \<and> cs_expectedMsg (fst (sy_client s)) = EM_SERVER_BANNER \<and>
     cs_isConnectionEstablished (fst (sy_client s)) \<and> \<not> isSending (cs_socketWriter (fst (sy_client s))) \<and>
     sy_toClient s = [] \<and> sy_toServer s = []"

inductive sys_reach :: "app_env \<Rightarrow> inet \<Rightarrow> (string \<Rightarrow> json) \<Rightarrow> system \<Rightarrow> system \<Rightarrow> bool" for env net read s0 where
  sys_begin: "sys_start env net s0 \<Longrightarrow> sys_reach env net read s0 s0"
| sys_update: "sys_reach env net read s0 s \<Longrightarrow> ss_sendQueue (sy_session (sy_server s)) = [] \<Longrightarrow>
    Conntrack_onUpdate us_read (us_callback net) (Some cts) (sy_collector s, sv_updateSerializer (sy_server s)) = (None, ck, u) \<Longrightarrow>
    sys_reach env net read s0 (s\<lparr>sy_collector := ck,
      sy_server := Server_onUpdate env (netfilter net cts (sy_collector s)) (sy_server s)\<rparr>)"
| sys_kernel: "sys_reach env net read s0 s \<Longrightarrow>
    EventPollHandler (us_callback net) True False msgs res (sy_collector s, sv_updateSerializer (sy_server s)) = (None, ck, u) \<Longrightarrow>
    sys_reach env net read s0 (s\<lparr>sy_collector := ck, sy_server := (sy_server s)\<lparr>sv_updateSerializer := u\<rparr>\<rparr>)"
| sys_server_sends: "sys_reach env net read s0 s \<Longrightarrow>
    Server_clientEvent env 0 None (Some rs) False (sy_server s) = (Inr (), out, sv) \<Longrightarrow>
    ss_sendQueue (sy_session sv) = [] \<Longrightarrow> \<not> isSending (ss_socketWriter (sy_session sv)) \<Longrightarrow>
    ss_state (sy_session sv) = ss_state (sy_session (sy_server s)) \<Longrightarrow>
    sys_reach env net read s0 (s\<lparr>sy_server := sv, sy_toClient := sy_toClient s @ server_docs read (sy_server s)\<rparr>)"
| sys_client_receives: "sys_reach env net read s0 s \<Longrightarrow> sy_toClient s = d # ds \<Longrightarrow>
    cs_SocketPollHandler env (cl_callback env net ok) (Some (Input_docs [d] None)) None False (sy_client s) = (Inr (), out, x) \<Longrightarrow>
    sys_reach env net read s0 (s\<lparr>sy_client := x, sy_toClient := ds\<rparr>)"
| sys_client_sends: "sys_reach env net read s0 s \<Longrightarrow>
    cs_SocketPollHandler env (cl_callback env net ok) None (Some (v, rs)) False (sy_client s) = (Inr (), out, x) \<Longrightarrow>
    cs_sendQueue (fst x) = [] \<Longrightarrow> \<not> isSending (cs_socketWriter (fst x)) \<Longrightarrow>
    cs_state (fst x) = cs_state (fst (sy_client s)) \<Longrightarrow>
    sys_reach env net read s0 (s\<lparr>sy_client := x, sy_toServer := sy_toServer s @ client_docs read (fst (sy_client s))\<rparr>)"
| sys_server_receives: "sys_reach env net read s0 s \<Longrightarrow> sy_toServer s = d # ds \<Longrightarrow>
    Server_clientEvent env 0 (Some (Input_docs [d] None)) None False (sy_server s) = (Inr (), out, sv) \<Longrightarrow>
    sys_reach env net read s0 (s\<lparr>sy_server := sv, sy_toServer := ds\<rparr>)"
| sys_clock: "sys_reach env net read s0 s \<Longrightarrow> cs_sessionTTL (fst (sy_client s)) > 0 \<Longrightarrow>
    Client_onUpdate env net ok (sy_client s) = (Inr (), x) \<Longrightarrow> sys_reach env net read s0 (s\<lparr>sy_client := x\<rparr>)"
| sys_pause: "sys_reach env net read s0 s \<Longrightarrow> sys_reach env net read s0 (s\<lparr>sy_client := Client_setPaused env p (sy_client s)\<rparr>)"

section \<open>The server's end of the stream\<close>

definition server_ok :: "app_env \<Rightarrow> inet \<Rightarrow> Conntrack \<Rightarrow> link \<Rightarrow> Server \<Rightarrow> bool" where
  "server_ok env net ck k sv \<longleftrightarrow>
     sv_reach env sv \<and> ck_reach net ck (sv_updateSerializer sv) \<and> us_serializer (sv_updateSerializer sv) = [] \<and>
     length (sv_clients sv) = 1 \<and> sv_availableDataFlags sv = EDataFlags_CONNECTION \<and> sv_clientsMoved sv = 0 \<and>
     snd (sv_store sv CachedHello) = createServerMsg_HELLO env \<and>
     \<not> isSending (ss_socketWriter (sy_session sv)) \<and> \<not> ss_isSendingData (sy_session sv) \<and>
     lk_tick k = sv_timestamp sv \<and> lk_now k = conn_view (us_storage (sv_updateSerializer sv)) \<and>
     (ss_dataFlags (sy_session sv) \<noteq> 0 \<longrightarrow>
        ss_dataFlags (sy_session sv) = lk_flags k \<and> ss_dataUpdateFlags (sy_session sv) = lk_updateFlags k)"

lemma ck_update_built:
  assumes "ck_reach net ck u" and "Conntrack_onUpdate us_read (us_callback net) (Some cts) (ck, u) = (None, ck', u')"
  shows "ck_reach net ck' (if us_isSerializationEnabled u' then u'\<lparr>us_serializer := []\<rparr> else u')"
  using ck_update [OF assms] ck_build [of net ck' u'] by (simp add: us_build_def)

lemma sy_session_clients [simp]: "sy_session (sv\<lparr>sv_clients := ss # cls\<rparr>) = ss"
  by (simp add: sy_session_def)

lemma one_client: "length (sv_clients sv) = Suc 0 \<longleftrightarrow> sv_clients sv = [sy_session sv]"
  by (auto simp: sy_session_def length_Suc_conv)

text \<open>The state of the server after an update.\<close>

definition update_queue :: "bool \<Rightarrow> ServerSession \<Rightarrow> queued_msg list" where
  "update_queue enabled ss =
     (if ss_state ss = CONNECTED
      then Shared CachedUpdateTick #
        (if enabled \<and> wants_updates ss then [Shared SerializedConnectionUpdates]
         else if wants_connections ss then [Shared SerializedConnections] else [])
      else [])"

lemma update_client_live:
  assumes "ss_state ss = CONNECTED \<or> ss_state ss = OPENING"
  shows "snd (update_client cb ca ua (ss, s)) = s"
    and "fst (update_client cb (wants_connections ss) (e \<and> wants_updates ss) (ss, s)) =
      ss\<lparr>ss_dataFlags := 0, ss_dataUpdateFlags := 0,
         ss_pollOutput := (ss_pollOutput ss \<or> ss_state ss = CONNECTED \<and> ss_sendQueue ss = []),
         ss_sendQueue := ss_sendQueue ss @ update_queue e ss\<rparr>"
  using assms
  by (auto simp: update_client_def ss_onUpdate_def Let_def ss_sendSharedMessage_def sendData_def update_queue_def
      wants_updates_def wants_connections_def)

lemma server_update:
  fixes env net cts ck sv
  defines "u' \<equiv> netfilter net cts ck (sv_updateSerializer sv)" and "ss \<equiv> sy_session sv"
  assumes "sv_clients sv = [ss]" and "\<not> ss_isSendingData ss" and "ss_state ss = CONNECTED \<or> ss_state ss = OPENING"
    and "sv_availableDataFlags sv = EDataFlags_CONNECTION" and "sv_clientsMoved sv = 0"
  shows "Server_onUpdate env (netfilter net cts ck) sv = sv\<lparr>
    sv_clients := [ss\<lparr>ss_dataFlags := 0, ss_dataUpdateFlags := 0,
      ss_pollOutput := (ss_pollOutput ss \<or> ss_state ss = CONNECTED \<and> ss_sendQueue ss = []),
      ss_sendQueue := ss_sendQueue ss @ update_queue (us_isSerializationEnabled u') ss\<rparr>],
    sv_timestamp := sv_timestamp sv + 1,
    sv_store := store_assign SerializedConnections
      (if wants_connections ss then createServerMsg_DATA env EDataFlags_CONNECTION False
         (JArray (ConnectionStorageSerializer (us_storage u'))) else emptyMsg)
      (store_assign SerializedConnectionUpdates
        (if us_isSerializationEnabled u' then createServerMsg_DATA env EDataFlags_CONNECTION True (JArray (us_serializer u'))
         else emptyMsg)
        (store_assign CachedUpdateTick (createServerMsg_UPDATE_TICK env (sv_timestamp sv + 1)) (sv_store sv))),
    sv_updateSerializer := (if us_isSerializationEnabled u' then u'\<lparr>us_serializer := []\<rparr> else u')\<rparr>"
proof -
  have sw: "sweep_clients (sv_store sv) [ss] = ([ss], wants_connections ss, wants_updates ss)"
    using assms(4,5) by (auto simp: sweep_clients_def)
  note live = update_client_live [OF assms(5)]
  have b: "update_client cb (wants_connections ss) (e \<and> wants_updates ss) (ss, s) =
      (ss\<lparr>ss_dataFlags := 0, ss_dataUpdateFlags := 0,
         ss_pollOutput := (ss_pollOutput ss \<or> ss_state ss = CONNECTED \<and> ss_sendQueue ss = []),
         ss_sendQueue := ss_sendQueue ss @ update_queue e ss\<rparr>, s)" for cb e s
    by (simp add: prod_eq_iff live)
  have moved: "moved_clients 0 [ss] = 0" using assms(5) by (auto simp: moved_clients_def)
  have same: "sv\<lparr>sv_clientsMoved := 0\<rparr> = sv" using assms(7) by (cases sv) simp
  show ?thesis
    using assms(6)
    by (simp add: b b [of _ True, simplified] b [of _ False, simplified] Server_onUpdate_def assms(3,7) moved same sw Let_def build_data_def ServerContext_onUpdate_def us_build_def u'_def)
qed

text \<open>An update extends the stream by a tick and, if the client asked for it, data that is good for it.\<close>

lemma server_ok_update:
  assumes "inet_roundtrip net" and "server_ok env net ck k sv"
    and "ss_state (sy_session sv) = CONNECTED \<or> ss_state (sy_session sv) = OPENING"
    and "Conntrack_onUpdate us_read (us_callback net) (Some cts) (ck, sv_updateSerializer sv) = (None, ck', u)"
  shows "server_ok env net ck' (k\<lparr>lk_tick := lk_tick k + 1, lk_before := lk_now k, lk_now := conn_view (us_storage u)\<rparr>)
      (Server_onUpdate env (netfilter net cts ck) sv)"
    and "ss_state (sy_session (Server_onUpdate env (netfilter net cts ck) sv)) = ss_state (sy_session sv)"
proof -
  have u: "netfilter net cts ck (sv_updateSerializer sv) = u" using assms(4) by (simp add: netfilter_def)
  have ok: "sv_clients sv = [sy_session sv]" "\<not> ss_isSendingData (sy_session sv)"
    "sv_availableDataFlags sv = EDataFlags_CONNECTION" "ck_reach net ck (sv_updateSerializer sv)"
    "us_serializer (sv_updateSerializer sv) = []" "sv_reach env sv" "sv_clientsMoved sv = 0"
    using assms(2) by (simp_all add: server_ok_def one_client)
  note sv' = server_update [OF ok(1,2) assms(3) ok(3,7), of env net cts ck, unfolded u]
  note good = netfilter_good [OF assms(1) ok(4,5), of cts, unfolded u]
  have "sv_reach env (Server_onUpdate env (netfilter net cts ck) sv)" using ok(6) by (rule sv_reach.sv_update)
  then show "server_ok env net ck' (k\<lparr>lk_tick := lk_tick k + 1, lk_before := lk_now k, lk_now := conn_view (us_storage u)\<rparr>)
      (Server_onUpdate env (netfilter net cts ck) sv)"
    using assms(2) good(3) ck_update_built [OF ok(4) assms(4)]
    by (auto simp: server_ok_def sv' sy_session_def store_assign_def)
  show "ss_state (sy_session (Server_onUpdate env (netfilter net cts ck) sv)) = ss_state (sy_session sv)"
    by (simp add: sv' sy_session_def)
qed

definition readable :: "app_env \<Rightarrow> (string \<Rightarrow> json) \<Rightarrow> bool" where
  "readable env read \<longleftrightarrow> (\<forall>d. read (CreateMsgString env d) = d)"

lemma wants_flags:
  "wants_updates ss \<longleftrightarrow> has_flag EDataFlags_CONNECTION (ss_dataFlags ss) \<and> has_flag EDataFlags_CONNECTION (ss_dataUpdateFlags ss)"
  "wants_connections ss \<longleftrightarrow> has_flag EDataFlags_CONNECTION (ss_dataFlags ss) \<and> \<not> has_flag EDataFlags_CONNECTION (ss_dataUpdateFlags ss)"
  by (auto simp: wants_updates_def wants_connections_def has_flag_def and.commute)

text \<open>The documents of an update.\<close>

definition update_docs :: "bool \<Rightarrow> ConnectionUpdateSerializer \<Rightarrow> u32 \<Rightarrow> ServerSession \<Rightarrow> json list" where
  "update_docs enabled u t ss = serverDoc_UPDATE_TICK t #
     (if enabled \<and> wants_updates ss then [serverDoc_DATA EDataFlags_CONNECTION True (JArray (us_serializer u))]
      else if wants_connections ss
      then [serverDoc_DATA EDataFlags_CONNECTION False (JArray (ConnectionStorageSerializer (us_storage u)))] else [])"

lemma server_docs_update:
  assumes "readable env read" and "server_ok env net ck k sv" and "ss_state (sy_session sv) = CONNECTED"
    and "ss_sendQueue (sy_session sv) = []" and "netfilter net cts ck (sv_updateSerializer sv) = u"
  shows "server_docs read (Server_onUpdate env (netfilter net cts ck) sv) =
    update_docs (us_isSerializationEnabled u) u (lk_tick k + 1) (sy_session sv)"
proof -
  have ok: "sv_clients sv = [sy_session sv]" "\<not> ss_isSendingData (sy_session sv)" "sv_availableDataFlags sv = EDataFlags_CONNECTION"
    "sv_clientsMoved sv = 0" "lk_tick k = sv_timestamp sv"
    using assms(2) by (simp_all add: server_ok_def one_client)
  note sv' = server_update [OF ok(1,2) disjI1 [OF assms(3)] ok(3,4), of env net cts ck, unfolded assms(5)]
  show ?thesis
    using assms(1,3,4) ok(5)
    by (auto simp: server_docs_def sv' sy_session_def update_queue_def queued_text_def store_assign_def readable_def update_docs_def
        createServerMsg_UPDATE_TICK_def createServerMsg_DATA_def serverMsg_def)
qed

lemma update_stream:
  assumes "readable env read" and "inet_roundtrip net" and "server_ok env net ck k sv"
    and "ss_state (sy_session sv) = CONNECTED" and "ss_sendQueue (sy_session sv) = []"
    and "Conntrack_onUpdate us_read (us_callback net) (Some cts) (ck, sv_updateSerializer sv) = (None, ck', u)"
  shows "stream net 0 k (server_docs read (Server_onUpdate env (netfilter net cts ck) sv))
    (k\<lparr>lk_tick := lk_tick k + 1, lk_before := lk_now k, lk_now := conn_view (us_storage u)\<rparr>)"
proof -
  let ?ss = "sy_session sv" and ?k = "k\<lparr>lk_tick := lk_tick k + 1, lk_before := lk_now k, lk_now := conn_view (us_storage u)\<rparr>"
  have u: "netfilter net cts ck (sv_updateSerializer sv) = u" using assms(6) by (simp add: netfilter_def)
  have ok: "sv_clients sv = [?ss]" "\<not> ss_isSendingData ?ss" "sv_availableDataFlags sv = EDataFlags_CONNECTION"
    "ck_reach net ck (sv_updateSerializer sv)" "us_serializer (sv_updateSerializer sv) = []" "lk_tick k = sv_timestamp sv"
    "lk_now k = conn_view (us_storage (sv_updateSerializer sv))"
    "ss_dataFlags ?ss \<noteq> 0 \<Longrightarrow> ss_dataFlags ?ss = lk_flags k \<and> ss_dataUpdateFlags ?ss = lk_updateFlags k"
    using assms(3) by (simp_all add: server_ok_def one_client)
  note good = netfilter_good [OF assms(2) ok(4,5), of cts, unfolded u]
  note docs = server_docs_update [OF assms(1,3,4,5) u]
  have "has_flag EDataFlags_CONNECTION (ss_dataFlags ?ss) \<Longrightarrow>
      has_flag EDataFlags_CONNECTION (lk_flags k) \<and> ss_dataUpdateFlags ?ss = lk_updateFlags k"
    using ok(8) by (cases "ss_dataFlags ?ss = 0") auto
  then have "stream net 0 ?k (if us_isSerializationEnabled u \<and> wants_updates ?ss
      then [serverDoc_DATA EDataFlags_CONNECTION True (JArray (us_serializer u))]
     else if wants_connections ?ss
     then [serverDoc_DATA EDataFlags_CONNECTION False (JArray (ConnectionStorageSerializer (us_storage u)))] else []) ?k"
    using good(2,4) ok(7,8) by (auto simp: wants_flags intro!: stream.intros)
  then show ?thesis unfolding docs update_docs_def by (rule stream_tick)
qed

text \<open>What the server does with the two documents it gets.\<close>

lemma server_event:
  assumes "sv_clientsMoved sv = 0" and "length (sv_clients sv) = 1"
    and "ss_onMessage (sv_callback env) d (sy_session sv, sv) = (Inr (), ss1, sv1)" and "ss_isConnected ss1"
  shows "Server_clientEvent env 0 (Some (Input_docs [d] None)) None False sv =
    (Inr (), [], sv1\<lparr>sv_clients := (sv_clients sv1)[0 := ss1\<lparr>ss_pollOutput := (ss_sendQueue ss1 \<noteq> [])\<rparr>]\<rparr>)"
  using assms
  by (simp add: Server_clientEvent_def ss_SocketPollHandler_def ss_handleInput_def sy_session_def Let_def)

text \<open>The greeting of the client is answered.\<close>

lemma server_reach_input:
  assumes "server_ok env net ck k sv" and "Server_clientEvent env 0 inp rs False sv = (Inr (), out, sv')"
  shows "sv_reach env sv'"
  using assms by (auto simp: server_ok_def intro: sv_event)

text \<open>A message that the server accepts leaves it on the stream, possibly with new flags.\<close>

lemma server_answer:
  assumes "server_ok env net ck k sv" and "ss_state (sy_session sv) \<noteq> DISCONNECTED"
    and "ss_onMessage (sv_callback env) d (sy_session sv, sv) = (Inr (), ss1, sv\<lparr>sv_log := l, sv_updateSerializer := u\<rparr>)"
    and "Server_clientEvent env 0 (Some (Input_docs [d] None)) None False sv = (Inr (), out, sv')"
    and "ss_isConnected ss1 = ss_isConnected (sy_session sv)" "ss_socketWriter ss1 = ss_socketWriter (sy_session sv)"
      "ss_isSendingData ss1 = ss_isSendingData (sy_session sv)"
    and "u = sv_updateSerializer sv \<or> u = setSerializationEnabled True (sv_updateSerializer sv)"
    and "ss_dataFlags ss1 \<noteq> 0 \<longrightarrow> ss_dataFlags ss1 = f \<and> ss_dataUpdateFlags ss1 = g"
  shows "server_ok env net ck (k\<lparr>lk_flags := f, lk_updateFlags := g\<rparr>) sv'" and "ss_state (sy_session sv') = ss_state ss1"
    and "server_docs read sv' = map (read \<circ> queued_text (sv_store sv)) (ss_sendQueue ss1)"
    and "ss_dataFlags (sy_session sv') = ss_dataFlags ss1" and "ss_dataUpdateFlags (sy_session sv') = ss_dataUpdateFlags ss1"
proof -
  have ok: "sv_clientsMoved sv = 0" "length (sv_clients sv) = 1" using assms(1) by (simp_all add: server_ok_def)
  have "ss_isConnected (sy_session sv)"
    using inv_reach [of env sv] assms(1,2) by (auto simp: server_ok_def one_client ss_inv_def)
  with server_event [OF ok assms(3)] assms(4,5)
  have sv': "sv' = sv\<lparr>sv_log := l, sv_updateSerializer := u, sv_clients := [ss1\<lparr>ss_pollOutput := (ss_sendQueue ss1 \<noteq> [])\<rparr>]\<rparr>"
    using ok(2) by (auto simp: one_client)
  have u: "ck_reach net ck u" "us_serializer u = []" "us_storage u = us_storage (sv_updateSerializer sv)"
    using assms(1,8) ck_enable [of net ck "sv_updateSerializer sv" True]
    by (auto simp: server_ok_def setSerializationEnabled_def)
  have "sv_reach env sv'" using assms(1,4) by (rule server_reach_input)
  with assms u show "server_ok env net ck (k\<lparr>lk_flags := f, lk_updateFlags := g\<rparr>) sv'"
    by (simp add: server_ok_def sv' sy_session_def)
  show "ss_state (sy_session sv') = ss_state ss1"
    and "server_docs read sv' = map (read \<circ> queued_text (sv_store sv)) (ss_sendQueue ss1)"
    and "ss_dataFlags (sy_session sv') = ss_dataFlags ss1" and "ss_dataUpdateFlags (sy_session sv') = ss_dataUpdateFlags ss1"
    by (simp_all add: sv' sy_session_def server_docs_def)
qed

lemma server_hello:
  assumes "readable env read" and "server_ok env net ck k sv" and "ss_state (sy_session sv) = OPENING"
    and "Server_clientEvent env 0 (Some (Input_docs [clientDoc_HELLO env] None)) None False sv = (Inr (), out, sv')"
    and "lk_flags k = 0" and "lk_updateFlags k = 0"
  shows "server_ok env net ck k sv'" and "ss_state (sy_session sv') = CONNECTED"
    and "server_docs read sv' = server_docs read sv @ [serverDoc_HELLO env]"
proof -
  let ?ss = "(ss_sendSharedMessage CachedHello ((sy_session sv)\<lparr>ss_clientName := KString_of_cstr (instance_name env),
             ss_clientVersion := KString_of_cstr (env_version env),
             ss_clientPlatformName := KString_of_cstr (env_systemName env)\<rparr>))\<lparr>ss_state := CONNECTED\<rparr>"
  have m: "ss_onMessage (sv_callback env) (clientDoc_HELLO env) (sy_session sv, sv) =
    (Inr (), ?ss, sv\<lparr>sv_log := sv_log sv @ [Log_connected (ss_clientName ?ss)], sv_updateSerializer := sv_updateSerializer sv\<rparr>)"
    by (simp add: server_onHello [OF assms(3)] sv_callback_def sv_onSessionEstablished_def)
  have "ss_dataFlags (sy_session sv) = 0" using assms(2,5) by (auto simp: server_ok_def)
  note a = server_answer [OF assms(2) _ m assms(4), of 0 0]
  show "server_ok env net ck k sv'" and "ss_state (sy_session sv') = CONNECTED"
    and "server_docs read sv' = server_docs read sv @ [serverDoc_HELLO env]"
    using a assms \<open>ss_dataFlags (sy_session sv) = 0\<close>
    by (simp_all add: ss_sendSharedMessage_def Let_def server_docs_def queued_text_def server_ok_def readable_def
        createServerMsg_HELLO_def serverMsg_def split: if_splits)
qed

lemma server_request:
  assumes "readable env read" and "server_ok env net ck k sv" and "ss_state (sy_session sv) = CONNECTED"
    and "Server_clientEvent env 0 (Some (Input_docs [clientDoc_REQUEST_DATA EDataFlags_CONNECTION g] None)) None False sv =
      (Inr (), out, sv')"
  shows "server_ok env net ck (k\<lparr>lk_flags := EDataFlags_CONNECTION, lk_updateFlags := g AND EDataFlags_CONNECTION\<rparr>) sv'"
    and "ss_state (sy_session sv') = CONNECTED"
    and "server_docs read sv' = server_docs read sv @ [serverDoc_DATA_STATUS EDataFlags_CONNECTION (g AND EDataFlags_CONNECTION)]"
    and "ss_dataFlags (sy_session sv') = EDataFlags_CONNECTION"
    and "ss_dataUpdateFlags (sy_session sv') = g AND EDataFlags_CONNECTION"
proof -
  let ?g = "g AND EDataFlags_CONNECTION" and ?u = "sv_updateSerializer sv"
  let ?ss = "sendDataStatus env EDataFlags_CONNECTION ?g (sy_session sv)"
  have av: "sv_availableDataFlags sv = EDataFlags_CONNECTION" using assms(2) by (simp add: server_ok_def)
  have m: "ss_onMessage (sv_callback env) (clientDoc_REQUEST_DATA EDataFlags_CONNECTION g) (sy_session sv, sv) =
    (Inr (), ?ss, sv\<lparr>sv_log := sv_log sv, sv_updateSerializer :=
        (if has_flag ?g EDataFlags_CONNECTION then setSerializationEnabled True ?u else ?u)\<rparr>)"
    by (simp add: server_onRequest [OF assms(3)] sv_callback_def sv_onSessionDataRequest_def Let_def av)
  note a = server_answer [OF assms(2) _ m assms(4), of EDataFlags_CONNECTION ?g]
  show "server_ok env net ck (k\<lparr>lk_flags := EDataFlags_CONNECTION, lk_updateFlags := ?g\<rparr>) sv'"
    and "ss_state (sy_session sv') = CONNECTED"
    and "server_docs read sv' = server_docs read sv @ [serverDoc_DATA_STATUS EDataFlags_CONNECTION ?g]"
    and "ss_dataFlags (sy_session sv') = EDataFlags_CONNECTION" and "ss_dataUpdateFlags (sy_session sv') = ?g"
    using a assms(1,3)
    by (simp_all add: sendDataStatus_def ss_sendMessage_def Let_def server_docs_def queued_text_def readable_def
        createServerMsg_DATA_STATUS_def serverMsg_def split: if_splits)
qed

section \<open>Output and kernel events\<close>

lemma send_loop_emptied:
  "send_loop store rs q w isData = (r, out, [], w', isData') \<Longrightarrow> writer_ok w \<Longrightarrow> writer_fresh (fst \<circ> store) w \<Longrightarrow>
     \<not> isSending w' \<Longrightarrow> r = Send_done \<and> \<not> isData'"
proof (induction q arbitrary: rs w isData out)
  case Nil
  obtain r1 out1 w1 where d: "doSend (fst \<circ> store) (next_result rs) w = (r1, out1, w1)" by (metis prod.collapse)
  from doSend_bytes(5) [OF Nil.prems(2,3) d] Nil.prems(1,4) d show ?case by (cases r1) auto
next
  case (Cons m qs)
  obtain r1 out1 w1 where d: "doSend (fst \<circ> store) (next_result rs) w = (r1, out1, w1)" by (metis prod.collapse)
  note b = doSend_bytes [OF Cons.prems(2,3) d]
  from Cons.prems(1) d show ?case
  proof (cases rule: send_loop_step)
    case (go out2)
    with b(5) have "\<not> isSending w1" by simp
    with go(3) Cons.prems(4) b(2) show ?thesis using Cons.IH writer_ok_load fresh_load by metis
  qed simp
qed

lemma server_sends:
  assumes "server_ok env net ck k sv" and "ss_state (sy_session sv) \<noteq> DISCONNECTED"
    and "Server_clientEvent env 0 None (Some rs) False sv = (Inr (), out, sv')"
    and "ss_sendQueue (sy_session sv') = []" and "\<not> isSending (ss_socketWriter (sy_session sv'))"
    and "ss_state (sy_session sv') = ss_state (sy_session sv)"
  shows "server_ok env net ck k sv'" and "server_docs read sv' = []"
    and "ss_dataFlags (sy_session sv') = ss_dataFlags (sy_session sv)"
    and "ss_dataUpdateFlags (sy_session sv') = ss_dataUpdateFlags (sy_session sv)"
    and "sv_updateSerializer sv' = sv_updateSerializer sv"
proof -
  let ?ss = "sy_session sv"
  obtain r o1 q w d where l: "send_loop (sv_store sv) rs (ss_sendQueue ?ss) (ss_socketWriter ?ss) (ss_isSendingData ?ss)
      = (r, o1, q, w, d)" by (metis prod.collapse)
  have ok: "sv_clientsMoved sv = 0" "sv_clients sv = [?ss]" using assms(1) by (simp_all add: server_ok_def one_client)
  have i: "ss_inv ?ss" using inv_reach [of env sv] assms(1) ok(2) by (metis list.set_intros(1) server_ok_def)
  have fresh: "writer_fresh (fst \<circ> sv_store sv) (ss_socketWriter ?ss)" using assms(1) by (simp add: server_ok_def writer_fresh_def)
  let ?ss1 = "?ss\<lparr>ss_sendQueue := q, ss_socketWriter := w, ss_isSendingData := d\<rparr>"
  have sv': "sv' = sv\<lparr>sv_clients := [?ss1\<lparr>ss_pollOutput := (q \<noteq> [])\<rparr>]\<rparr>"
  proof -
    have h: "ss_SocketPollHandler (sv_callback env) (sv_store sv) None (Some rs) False (?ss, sv) =
      (case r of Send_undefined \<Rightarrow> (Inl undefined_behaviour, o1, ?ss1, sv)
       | Send_error e \<Rightarrow> (Inr (), o1, ss_quickDisconnect (sv_callback env) SOCKET_ERROR (''Unable to send data: '' @ e) (?ss1, sv))
       | _ \<Rightarrow> (Inr (), o1, ?ss1\<lparr>ss_pollOutput := (q \<noteq> [])\<rparr>, sv))"
      using assms(2) i sv.quickDisconnect_session [of env]
      by (cases r) (simp_all add: ss_SocketPollHandler_def ss_handleOutput_def l ss_inv_def)
    have e: "Server_clientEvent env 0 None (Some rs) False sv =
      (case ss_SocketPollHandler (sv_callback env) (sv_store sv) None (Some rs) False (?ss, sv) of
         (r, out, ss, sv1) \<Rightarrow> (r, out, sv1\<lparr>sv_clients := (sv_clients sv1)[0 := ss]\<rparr>))"
      using ok by (simp add: Server_clientEvent_def sy_session_def)
    show ?thesis
    proof (cases r)
      case (Send_error m)
      then have "ss_state (sy_session sv') = DISCONNECTED"
        using assms(3) ok(2) callback_clients(1) [of env SOCKET_ERROR _ "(?ss1, sv)"]
          sv.quickDisconnect_session [of env SOCKET_ERROR _ ?ss1 sv]
        by (auto simp: e h case_prod_beta)
      with assms(2,6) show ?thesis by simp
    qed (use assms(3) ok(2) in \<open>auto simp: e h\<close>)
  qed
  have "q = []" "\<not> isSending w" using assms(4,5) by (simp_all add: sv' sy_session_def)
  moreover have "writer_ok (ss_socketWriter ?ss)" using i by (simp add: ss_inv_def)
  ultimately have "\<not> d" using send_loop_emptied fresh l by blast
  moreover have "sv_reach env sv'" using assms(1,3) by (rule server_reach_input)
  ultimately show "server_ok env net ck k sv'"
    using assms(1) \<open>\<not> isSending w\<close> by (simp add: server_ok_def sv' sy_session_def)
  show "server_docs read sv' = []" using assms(4) by (simp add: server_docs_def)
  show "ss_dataFlags (sy_session sv') = ss_dataFlags (sy_session sv)"
    and "ss_dataUpdateFlags (sy_session sv') = ss_dataUpdateFlags (sy_session sv)"
    and "sv_updateSerializer sv' = sv_updateSerializer sv"
    by (simp_all add: sv')
qed

text \<open>Events of the kernel are only queued until the next update.\<close>

lemma touched_serializer: "us.touched net u u' \<Longrightarrow> us_serializer u' = us_serializer u \<and> conn_view (us_storage u') = conn_view (us_storage u)"
proof -
  have step: "us_serializer b = us_serializer a" if "us.getter_step net a b" for a b
    using that unfolding us.getter_step_def by (auto simp: us_callback_def us_getAddress_eq us_getPort_eq)
  assume t: "us.touched net u u'"
  then have "us_serializer u' = us_serializer u"
    unfolding us.touched_def by (induction rule: rtranclp_induct) (use step in auto)
  with us.touchedD(1) [OF t] show ?thesis by simp
qed

lemma kernel_serializer:
  "foldl (\<lambda>ks m. EventCallback (us_callback net) m ks) (k, u) msgs = (k', u') \<Longrightarrow>
     us_serializer u' = us_serializer u \<and> conn_view (us_storage u') = conn_view (us_storage u)"
proof (induction msgs arbitrary: k u)
  case (Cons m msgs)
  have h: "us.touched net u (snd (handleEvent (us_callback net) ct type (k, u)))" for ct type
    by (rule us.ExtractAddressPort_cases [of net ct "type = NEW_CONNECTION" u]) (simp_all add: handleEvent_def)
  obtain k1 u1 where m: "EventCallback (us_callback net) m (k, u) = (k1, u1)" by fastforce
  then have "us.touched net u u1"
    using h us.touched_refl [of net u]
    by (auto simp: EventCallback_def split: prod.splits if_splits nf_msg_type.splits) (metis snd_conv)+
  from touched_serializer [OF this] Cons.IH [of k1 u1] Cons.prems m show ?case by simp
qed simp

lemma server_kernel:
  assumes "server_ok env net ck k sv"
    and "EventPollHandler (us_callback net) True False msgs res (ck, sv_updateSerializer sv) = (None, ck', u)"
  shows "server_ok env net ck' k (sv\<lparr>sv_updateSerializer := u\<rparr>)"
proof -
  have "us_serializer u = us_serializer (sv_updateSerializer sv) \<and> conn_view (us_storage u) = conn_view (us_storage (sv_updateSerializer sv))"
    using assms(2) kernel_serializer
    by (auto simp: EventPollHandler_def Let_def split: prod.splits if_splits)
  with assms show ?thesis by (auto simp: server_ok_def sy_session_def intro: ck_events sv_collected)
qed

end
