(* ===== verification/Mirror.thy ===== *)
theory Mirror
  imports System
begin

text \<open>
  The client as a mirror of the server: an invariant of collector, server, client and the two channels
  between them, from the banner on. It gives that a client that considers itself synchronized shows the
  server's connections, and that neither end ever rejects what the other sends. The samples run a whole
  session with a small text format for the documents.
\<close>

section \<open>Events of the client\<close>

definition polled :: "Client csess \<Rightarrow> Client csess" where
  "polled x = (if cs_isConnected (fst x) then ((fst x)\<lparr>cs_pollOutput := (cs_sendQueue (fst x) \<noteq> [])\<rparr>, snd x) else x)"

lemma client_receives:
  assumes "cs_onMessage env cb d x = (Inr (), x')"
  shows "cs_SocketPollHandler env cb (Some (Input_docs [d] None)) None False x = (Inr (), [], polled x')"
  using assms by (simp add: cs_SocketPollHandler_def cs_handleInput_def polled_def)

lemma client_docs_polled [simp]: "client_docs read (fst (polled x)) = client_docs read (fst x)"
  by (simp add: polled_def client_docs_def)

lemma polled_simps [simp]:
  "snd (polled x) = snd x" "cs_state (fst (polled x)) = cs_state (fst x)"
  "cs_expectedMsg (fst (polled x)) = cs_expectedMsg (fst x)"
  "cs_isConnectionEstablished (fst (polled x)) = cs_isConnectionEstablished (fst x)"
  "cs_sendQueue (fst (polled x)) = cs_sendQueue (fst x)"
  "client_ok k n (polled x) = client_ok k n x"
  by (simp_all add: polled_def client_ok_def)

lemma sy_session_frame [simp]:
  "sy_session (sv\<lparr>sv_timestamp := t\<rparr>) = sy_session sv" "sy_session (sv\<lparr>sv_store := m\<rparr>) = sy_session sv"
  "sy_session (sv\<lparr>sv_updateSerializer := u\<rparr>) = sy_session sv"
  "server_docs read (sv\<lparr>sv_updateSerializer := u\<rparr>) = server_docs read sv"
  by (simp_all add: sy_session_def server_docs_def)

lemma client_sends:
  assumes "cs_SocketPollHandler env (cl_callback env net ok) None (Some (v, rs)) False (cs, cl) = (Inr (), out, x)"
    and "cs_state cs \<noteq> DISCONNECTED" and "cs_state (fst x) = cs_state cs" and "cs_isConnectionEstablished cs"
    and "cl_connector cl = None"
  obtains q w where "x = polled (cs\<lparr>cs_sendQueue := q, cs_socketWriter := w\<rparr>, cl)"
proof -
  obtain r o1 q w where l: "cs_send_loop rs (cs_sendQueue cs) (cs_socketWriter cs) = (r, o1, q, w)" by (metis prod.collapse)
  let ?cs = "cs\<lparr>cs_sendQueue := q, cs_socketWriter := w\<rparr>"
  have lost: "cs_state (fst (snd (cs_quickDisconnect (cl_callback env net ok) reason e (?cs, cl)))) = DISCONNECTED" for reason e
    using assms(5) by (simp add: cs_quickDisconnect_def cl_callback_def cl_onSessionDisconnect_def Let_def)
  show thesis
  proof (cases r)
    case (Send_error e)
    let ?d = "cs_quickDisconnect (cl_callback env net ok) SOCKET_ERROR (''Unable to send data: '' @ e) (?cs, cl)"
    have "fst (snd (snd (cs_SocketPollHandler env (cl_callback env net ok) None (Some (v, rs)) False (cs, cl)))) \<in>
      {fst (snd ?d), (fst (snd ?d))\<lparr>cs_pollOutput := (cs_sendQueue (fst (snd ?d)) \<noteq> [])\<rparr>}"
      using assms(2,4) Send_error
      by (simp add: cs_SocketPollHandler_def cs_handleOutput_def l Let_def case_prod_beta split: sum.split)
    then have "cs_state (fst x) = DISCONNECTED" using lost assms(1) by auto
    with assms(2,3) show thesis by simp
  next
    case Send_undefined
    with assms(1,2,4) show thesis by (simp add: cs_SocketPollHandler_def cs_handleOutput_def l)
  qed (use assms(1,2,4) that [of w q] in \<open>auto simp: cs_SocketPollHandler_def cs_handleOutput_def l polled_def split: if_splits\<close>)
qed

section \<open>The invariant\<close>

text \<open>
  The course of a session: the documents under way to the client and to the server, counting those in
  the send queues, for a server at link state \<open>k'\<close>.
\<close>

inductive phase :: "app_env \<Rightarrow> inet \<Rightarrow> link \<Rightarrow> ESessionState \<Rightarrow> Client csess \<Rightarrow> json list \<Rightarrow> json list \<Rightarrow> bool"
  for env net k' where
  ph_banner: "cs_state (fst x) = OPENING \<Longrightarrow> cs_expectedMsg (fst x) = EM_SERVER_BANNER \<Longrightarrow>
    lk_flags k' = 0 \<Longrightarrow> lk_updateFlags k' = 0 \<Longrightarrow> phase env net k' OPENING x [serverDoc_BANNER] []"
| ph_hello: "cs_state (fst x) = OPENING \<Longrightarrow> cs_expectedMsg (fst x) = EM_SERVER_HELLO \<Longrightarrow>
    lk_flags k' = 0 \<Longrightarrow> lk_updateFlags k' = 0 \<Longrightarrow> phase env net k' OPENING x [] [clientDoc_HELLO env]"
| ph_reply: "cs_state (fst x) = OPENING \<Longrightarrow> cs_expectedMsg (fst x) = EM_SERVER_HELLO \<Longrightarrow>
    lk_flags k = 0 \<Longrightarrow> lk_updateFlags k = 0 \<Longrightarrow> stream net 0 k S k' \<Longrightarrow>
    phase env net k' CONNECTED x (serverDoc_HELLO env # S) []"
| ph_up: "client_ok k (length gs + n) x \<Longrightarrow> stream net n k S k' \<Longrightarrow>
    phase env net k' CONNECTED x S (map (clientDoc_REQUEST_DATA EDataFlags_CONNECTION) gs)"

definition sys_inv :: "app_env \<Rightarrow> inet \<Rightarrow> (string \<Rightarrow> json) \<Rightarrow> system \<Rightarrow> bool" where
  "sys_inv env net read s \<longleftrightarrow>
     (\<exists>k. server_ok env net (sy_collector s) k (sy_server s) \<and> cl_reach env net (sy_client s)
        \<and> cl_connector (snd (sy_client s)) = None \<and> cs_isConnectionEstablished (fst (sy_client s))
        \<and> phase env net k (ss_state (sy_session (sy_server s))) (sy_client s)
            (sy_toClient s @ server_docs read (sy_server s)) (sy_toServer s @ client_docs read (fst (sy_client s))))"

lemma phase_states:
  assumes "phase env net k st x S R"
  shows "st = OPENING \<or> st = CONNECTED" and "cs_state (fst x) = OPENING \<or> cs_state (fst x) = CONNECTED"
  using assms by (cases rule: phase.cases; simp add: client_ok_def)+

text \<open>The update extends what is under way to the client.\<close>

lemma phase_extend:
  assumes "phase env net k st x S R" and "st = CONNECTED" and "stream net 0 k T k'"
  shows "phase env net k' st x (S @ T) R"
  using assms(1)
proof (cases rule: phase.cases)
  case (ph_reply k0 S0)
  with stream_append [OF ph_reply(8) assms(3)] show ?thesis by (auto intro: phase.intros)
next
  case (ph_up k0 gs n)
  with stream_append [OF ph_up(4) assms(3)] show ?thesis by (auto intro: phase.intros)
qed (use assms(2) in simp_all)

lemma phase_opening:
  assumes "phase env net k OPENING x S R" and "lk_flags k' = lk_flags k" and "lk_updateFlags k' = lk_updateFlags k"
  shows "phase env net k' OPENING x S R"
  using assms by (cases rule: phase.cases) (auto intro: phase.intros)

lemma phase_client:
  assumes "phase env net k st x S R" and "cs_state (fst x') = cs_state (fst x)"
    and "cs_expectedMsg (fst x') = cs_expectedMsg (fst x)" and "\<And>k n. client_ok k n x \<Longrightarrow> client_ok k n x'"
  shows "phase env net k st x' S R"
  using assms by (cases rule: phase.cases) (auto intro: phase.intros)

section \<open>The steps keep the invariant\<close>

lemma sys_inv_start:
  assumes "readable env read" and "sys_start env net s"
  shows "sys_inv env net read s"
proof -
  let ?sv = "snd (Server_pollHandler (Some True) False (Server_create env True))"
  have st: "ck_reach net (sy_collector s) ConnectionUpdateSerializer_init" "sy_server s = ?sv" "cl_reach env net (sy_client s)"
    "cl_connector (snd (sy_client s)) = None" "cs_state (fst (sy_client s)) = OPENING"
    "cs_expectedMsg (fst (sy_client s)) = EM_SERVER_BANNER" "cs_isConnectionEstablished (fst (sy_client s))"
    "sy_toClient s = []" "sy_toServer s = []"
    using assms(2) by (simp_all add: sys_start_def)
  let ?k = "\<lparr>lk_tick = 0, lk_flags = 0, lk_updateFlags = 0, lk_before = Map.empty,
    lk_now = conn_view (us_storage ConnectionUpdateSerializer_init)\<rparr>"
  have sv: "sy_session ?sv = ServerSession_create True" "sv_updateSerializer ?sv = ConnectionUpdateSerializer_init"
    by (simp_all add: sy_session_def Server_pollHandler_def Server_create_def)
  have "us_serializer ConnectionUpdateSerializer_init = []" by (simp add: ConnectionUpdateSerializer_init_def)
  with st(1) have "server_ok env net (sy_collector s) ?k ?sv"
    using sv_accept [OF sv_created [of env True], of "Some True"]
    by (simp add: server_ok_def sv)
      (simp add: Server_pollHandler_def Server_create_def ServerContext_create_def ServerSession_create_def
        ss_sendSharedMessage_def Let_def StreamSocketWriter_init_def isSending_def)
  moreover have "cs_sendQueue (fst (sy_client s)) = []" using cl_inv_reach [OF st(3)] st(5,6) by (simp add: cl_inv_def cs_inv_def)
  moreover have "server_docs read ?sv = [serverDoc_BANNER]" "ss_state (sy_session ?sv) = OPENING"
    using assms(1) sv
    by (simp_all add: server_docs_def ServerSession_create_def ss_sendSharedMessage_def Let_def queued_text_def Server_pollHandler_def
        Server_create_def ServerContext_create_def readable_def createServerMsg_BANNER_def serverMsg_def)
  ultimately show ?thesis
    using st ph_banner [of "sy_client s" ?k env net]
    by (auto simp: sys_inv_def client_docs_def intro!: exI [of _ ?k])
qed

lemma sys_inv_update:
  assumes "readable env read" and "inet_roundtrip net" and "sys_inv env net read s" and "ss_sendQueue (sy_session (sy_server s)) = []"
    and "Conntrack_onUpdate us_read (us_callback net) (Some cts) (sy_collector s, sv_updateSerializer (sy_server s)) = (None, ck, u)"
  shows "sys_inv env net read (s\<lparr>sy_collector := ck,
      sy_server := Server_onUpdate env (netfilter net cts (sy_collector s)) (sy_server s)\<rparr>)"
proof -
  let ?sv = "sy_server s" and ?sv' = "Server_onUpdate env (netfilter net cts (sy_collector s)) (sy_server s)"
  obtain k where k: "server_ok env net (sy_collector s) k ?sv" and c: "cl_reach env net (sy_client s)"
    "cl_connector (snd (sy_client s)) = None" "cs_isConnectionEstablished (fst (sy_client s))"
    and ph: "phase env net k (ss_state (sy_session ?sv)) (sy_client s)
      (sy_toClient s) (sy_toServer s @ client_docs read (fst (sy_client s)))"
    using assms(3,4) by (auto simp: sys_inv_def server_docs_def)
  let ?k = "k\<lparr>lk_tick := lk_tick k + 1, lk_before := lk_now k, lk_now := conn_view (us_storage u)\<rparr>"
  from phase_states(1) [OF ph] have st: "ss_state (sy_session ?sv) = CONNECTED \<or> ss_state (sy_session ?sv) = OPENING" by blast
  note ok = server_ok_update [OF assms(2) k st assms(5)]
  have "phase env net ?k (ss_state (sy_session ?sv')) (sy_client s) (sy_toClient s @ server_docs read ?sv')
    (sy_toServer s @ client_docs read (fst (sy_client s)))"
  proof (cases "ss_state (sy_session ?sv) = CONNECTED")
    case True
    with phase_extend [OF ph _ update_stream [OF assms(1,2) k True assms(4,5)]] ok(2) show ?thesis by simp
  next
    case False
    with st have o: "ss_state (sy_session ?sv) = OPENING" by simp
    have "server_docs read ?sv' = []"
      using server_update [of ?sv env net cts "sy_collector s"] k st assms(4) o
      by (simp add: server_ok_def one_client server_docs_def update_queue_def)
    with o ok(2) ph show ?thesis by (simp add: phase_opening)
  qed
  with ok(1) c show ?thesis by (auto simp: sys_inv_def)
qed

lemma sys_inv_kernel:
  assumes "sys_inv env net read s"
    and "EventPollHandler (us_callback net) True False msgs res (sy_collector s, sv_updateSerializer (sy_server s)) = (None, ck, u)"
  shows "sys_inv env net read (s\<lparr>sy_collector := ck, sy_server := (sy_server s)\<lparr>sv_updateSerializer := u\<rparr>\<rparr>)"
  using assms(1) server_kernel [OF _ assms(2)] by (auto simp: sys_inv_def)

lemma sys_inv_server_sends:
  assumes "sys_inv env net read s" and "Server_clientEvent env 0 None (Some rs) False (sy_server s) = (Inr (), out, sv)"
    and "ss_sendQueue (sy_session sv) = []" and "\<not> isSending (ss_socketWriter (sy_session sv))"
    and "ss_state (sy_session sv) = ss_state (sy_session (sy_server s))"
  shows "sys_inv env net read (s\<lparr>sy_server := sv, sy_toClient := sy_toClient s @ server_docs read (sy_server s)\<rparr>)"
proof -
  obtain k where k: "server_ok env net (sy_collector s) k (sy_server s)"
    and ph: "phase env net k (ss_state (sy_session (sy_server s))) (sy_client s)
      (sy_toClient s @ server_docs read (sy_server s)) (sy_toServer s @ client_docs read (fst (sy_client s)))"
    using assms(1) by (auto simp: sys_inv_def)
  have "ss_state (sy_session (sy_server s)) \<noteq> DISCONNECTED" using phase_states(1) [OF ph] by auto
  from server_sends [OF k this assms(2-5)] assms(1,5) ph show ?thesis by (auto simp: sys_inv_def)
qed

text \<open>What the client does with the next document under way.\<close>

lemma client_docs_requests:
  assumes "readable env read"
    and "cs_sendQueue cs' = cs_sendQueue cs @ map (createClientMsg_REQUEST_DATA env EDataFlags_CONNECTION) gs"
  shows "client_docs read cs' = client_docs read cs @ map (clientDoc_REQUEST_DATA EDataFlags_CONNECTION) gs"
  using assms by (simp add: client_docs_def readable_def createClientMsg_REQUEST_DATA_def clientMsg_def)

lemma phase_served:
  assumes "readable env read" and "served env k1 (length gs + n) (cs_sendQueue cs) x'" and "stream net n k1 S k"
    and "R @ client_docs read cs = map (clientDoc_REQUEST_DATA EDataFlags_CONNECTION) gs"
  shows "phase env net k CONNECTED x' S (R @ client_docs read (fst x'))"
proof -
  obtain gs' where q: "cs_sendQueue (fst x') = cs_sendQueue cs @ map (createClientMsg_REQUEST_DATA env EDataFlags_CONNECTION) gs'"
    and c: "client_ok k1 (length gs + n + length gs') x'"
    using assms(2) by (auto simp: served_def)
  have "R @ client_docs read (fst x') = map (clientDoc_REQUEST_DATA EDataFlags_CONNECTION) (gs @ gs')"
    using client_docs_requests [OF assms(1) q] assms(4) by simp
  with c assms(3) ph_up [of k1 "gs @ gs'" n x' net S k env] show ?thesis by (simp add: ac_simps)
qed

lemma client_established:
  assumes "cs_state cs = CONNECTED" "cs_expectedMsg cs = EM_NONE" "cl_connector cl = None" "cs_isConnectionEstablished cs"
    "cs_currentTimestamp cs = 0" "cs_dataFlags cs = lk_flags k" "cs_dataUpdateFlags cs = lk_updateFlags k"
  shows "served env k 0 (cs_sendQueue cs) (cl_onSessionEstablished env (cs, cl))"
  using assms unfolding served_def
  by (intro exI [of _ "[0]"])
    (simp add: client_ok_def cl_onSessionEstablished_def cl_requestData_def cs_requestData_def cs_sendMessage_def cl_emit_def Let_def)

lemma phase_receive:
  assumes "readable env read" and "phase env net k st x (d # S) (R @ client_docs read (fst x))" and "cl_inv net x"
    and "cl_connector (snd x) = None" and "cs_isConnectionEstablished (fst x)"
  shows "\<exists>x'. cs_onMessage env (cl_callback env net ok) d x = (Inr (), x') \<and> phase env net k st x' S (R @ client_docs read (fst x'))
    \<and> cl_connector (snd x') = None \<and> cs_isConnectionEstablished (fst x')"
  using assms(2)
proof (cases rule: phase.cases)
  case ph_banner
  then have "client_docs read (cs_sendMessage (createClientMsg_HELLO env) ((fst x)\<lparr>cs_expectedMsg := EM_SERVER_HELLO\<rparr>))
      = [clientDoc_HELLO env]"
    using assms(1) by (simp add: client_docs_def cs_sendMessage_def Let_def readable_def createClientMsg_HELLO_def clientMsg_def)
  with ph_banner assms(4,5) client_onBanner [of "fst x" env "cl_callback env net ok" "snd x"] show ?thesis
    by (auto simp: cs_sendMessage_def Let_def intro!: phase.ph_hello)
next
  case (ph_reply k0)
  let ?cs = "(fst x)\<lparr>cs_serverName := KString_of_cstr (instance_name env), cs_serverVersion := KString_of_cstr (env_version env),
    cs_serverPlatformName := KString_of_cstr (env_systemName env), cs_expectedMsg := EM_NONE, cs_state := CONNECTED,
    cs_sessionTTL := 3, cs_currentTimestamp := 0, cs_dataFlags := 0, cs_dataUpdateFlags := 0\<rparr>"
  let ?x = "cl_onSessionEstablished env (?cs, snd x)"
  have v: "served env k0 0 (cs_sendQueue ?cs) ?x"
    using assms(4,5) ph_reply by (intro client_established) simp_all
  have "phase env net k CONNECTED ?x S (R @ client_docs read (fst ?x))"
    using phase_served [of env read k0 "[]" 0 ?cs ?x net S k R] v assms(1) ph_reply by (simp add: client_docs_def)
  moreover have "cs_onMessage env (cl_callback env net ok) d x = (Inr (), ?x)"
    using ph_reply client_onHello [of "fst x" env "cl_callback env net ok" env "snd x"] by (simp add: cl_callback_def)
  ultimately show ?thesis using v ph_reply(1) by (auto simp: served_def client_ok_def)
next
  case (ph_up k0 gs n)
  obtain x' k1 n1 where "cs_onMessage env (cl_callback env net ok) d x = (Inr (), x')" and s: "stream net n1 k1 S k"
    and v: "served env k1 (length gs + n1) (cs_sendQueue (fst x)) x'"
    using client_follows [of k0 "length gs" n "fst x" "snd x" net d S k env ok] ph_up(3,4) assms(3) by auto
  moreover from phase_served [OF assms(1) v s ph_up(2)] ph_up(1) have "phase env net k st x' S (R @ client_docs read (fst x'))"
    by simp
  ultimately show ?thesis by (auto simp: served_def client_ok_def)
qed

lemma sys_inv_client_receives:
  assumes "readable env read" and "sys_inv env net read s" and "sy_toClient s = d # ds"
    and "cs_SocketPollHandler env (cl_callback env net ok) (Some (Input_docs [d] None)) None False (sy_client s) = (Inr (), out, x)"
  shows "sys_inv env net read (s\<lparr>sy_client := x, sy_toClient := ds\<rparr>)"
proof -
  obtain k where k: "server_ok env net (sy_collector s) k (sy_server s)" and c: "cl_reach env net (sy_client s)"
    "cl_connector (snd (sy_client s)) = None" "cs_isConnectionEstablished (fst (sy_client s))"
    and ph: "phase env net k (ss_state (sy_session (sy_server s))) (sy_client s)
      (d # ds @ server_docs read (sy_server s)) (sy_toServer s @ client_docs read (fst (sy_client s)))"
    using assms(2,3) by (auto simp: sys_inv_def)
  obtain x' where m: "cs_onMessage env (cl_callback env net ok) d (sy_client s) = (Inr (), x')"
    and ph': "phase env net k (ss_state (sy_session (sy_server s))) x' (ds @ server_docs read (sy_server s))
      (sy_toServer s @ client_docs read (fst x'))" "cl_connector (snd x') = None" "cs_isConnectionEstablished (fst x')"
    using phase_receive [OF assms(1) ph cl_inv_reach [OF c(1)] c(2,3)] by blast
  have x: "x = polled x'" using client_receives [OF m] assms(4) by simp
  have "cl_reach env net x" using c(1) assms(4) by (rule cl_event)
  moreover have "phase env net k (ss_state (sy_session (sy_server s))) x (ds @ server_docs read (sy_server s))
      (sy_toServer s @ client_docs read (fst x))"
    using phase_client [OF ph'(1), of x] by (simp add: x)
  ultimately show ?thesis using k ph'(2,3) by (auto simp: sys_inv_def x)
qed

lemma sys_inv_client_sends:
  assumes "sys_inv env net read s"
    and "cs_SocketPollHandler env (cl_callback env net ok) None (Some (v, rs)) False (sy_client s) = (Inr (), out, x)"
    and "cs_sendQueue (fst x) = []" and "cs_state (fst x) = cs_state (fst (sy_client s))"
  shows "sys_inv env net read (s\<lparr>sy_client := x, sy_toServer := sy_toServer s @ client_docs read (fst (sy_client s))\<rparr>)"
proof -
  obtain k where k: "server_ok env net (sy_collector s) k (sy_server s)" and c: "cl_reach env net (sy_client s)"
    "cl_connector (snd (sy_client s)) = None" "cs_isConnectionEstablished (fst (sy_client s))"
    and ph: "phase env net k (ss_state (sy_session (sy_server s))) (sy_client s)
      (sy_toClient s @ server_docs read (sy_server s)) (sy_toServer s @ client_docs read (fst (sy_client s)))"
    using assms(1) by (auto simp: sys_inv_def)
  have "cs_state (fst (sy_client s)) \<noteq> DISCONNECTED" using phase_states(2) [OF ph] by auto
  then obtain q w where x: "x = polled ((fst (sy_client s))\<lparr>cs_sendQueue := q, cs_socketWriter := w\<rparr>, snd (sy_client s))"
    using client_sends [of env net ok v rs "fst (sy_client s)" "snd (sy_client s)" out x] assms(2,4) c
    unfolding prod.collapse by metis
  have "cl_reach env net x" using c(1) assms(2) by (rule cl_event)
  moreover have "client_docs read (fst x) = []" using assms(3) by (simp add: client_docs_def)
  moreover have "phase env net k (ss_state (sy_session (sy_server s))) x
      (sy_toClient s @ server_docs read (sy_server s)) (sy_toServer s @ client_docs read (fst (sy_client s)))"
    using ph by (rule phase_client) (simp_all add: x, simp add: client_ok_def)
  ultimately show ?thesis using k c(2,3) by (auto simp: sys_inv_def x)
qed

text \<open>What the server does with the next document under way.\<close>

lemma sys_inv_server_receives:
  assumes "readable env read" and "sys_inv env net read s" and "sy_toServer s = d # ds"
    and ev: "Server_clientEvent env 0 (Some (Input_docs [d] None)) None False (sy_server s) = (Inr (), out, sv)"
  shows "sys_inv env net read (s\<lparr>sy_server := sv, sy_toServer := ds\<rparr>)"
proof -
  let ?S = "sy_toClient s @ server_docs read (sy_server s)" and ?R = "ds @ client_docs read (fst (sy_client s))"
  obtain k where k: "server_ok env net (sy_collector s) k (sy_server s)" and c: "cl_reach env net (sy_client s)"
    "cl_connector (snd (sy_client s)) = None" "cs_isConnectionEstablished (fst (sy_client s))"
    and ph: "phase env net k (ss_state (sy_session (sy_server s))) (sy_client s) ?S (d # ?R)"
    using assms(2,3) by (auto simp: sys_inv_def)
  from ph have "\<exists>k'. server_ok env net (sy_collector s) k' sv \<and>
    phase env net k' (ss_state (sy_session sv)) (sy_client s) (sy_toClient s @ server_docs read sv) ?R"
  proof (cases rule: phase.cases)
    case ph_hello
    note h = server_hello [OF assms(1) k ph_hello(1) ev [unfolded ph_hello(3)] ph_hello(7,8)]
    show ?thesis using h ph_hello by (auto intro!: exI [of _ k] phase.ph_reply stream_end)
  next
    case (ph_up k0 gs n)
    then obtain g gs' where gs: "gs = g # gs'" "d = clientDoc_REQUEST_DATA EDataFlags_CONNECTION g"
      "?R = map (clientDoc_REQUEST_DATA EDataFlags_CONNECTION) gs'"
      by (cases gs) auto
    let ?k = "k\<lparr>lk_flags := EDataFlags_CONNECTION, lk_updateFlags := g AND EDataFlags_CONNECTION\<rparr>"
    note h = server_request [OF assms(1) k ph_up(1) ev [unfolded gs(2)]]
    have "stream net (n + 1) k0 (sy_toClient s @ server_docs read sv) ?k"
      using stream_append [OF ph_up(4) stream_status [OF stream_end]] h(3) by simp
    with h ph_up(3) gs show ?thesis
      using phase.ph_up [of k0 gs' "n + 1" "sy_client s" net "sy_toClient s @ server_docs read sv" ?k env]
      by (auto intro!: exI [of _ ?k])
  qed
  with c show ?thesis by (auto simp: sys_inv_def)
qed

text \<open>The client's clock, while time is left, and its user.\<close>

lemma sys_inv_clock:
  assumes "sys_inv env net read s" and "cs_sessionTTL (fst (sy_client s)) > 0"
    and "Client_onUpdate env net ok (sy_client s) = (Inr (), x)"
  shows "sys_inv env net read (s\<lparr>sy_client := x\<rparr>)"
proof -
  obtain cs cl where cl: "sy_client s = (cs, cl)" by fastforce
  have x: "x = (if cs_state cs \<noteq> DISCONNECTED then cs\<lparr>cs_sessionTTL := cs_sessionTTL cs - 1\<rparr> else cs, cl)"
    using assms(2,3) by (auto simp: cl Client_onUpdate_def cs_onUpdate_def)
  have "phase env net k st (cs, cl) S R \<Longrightarrow> phase env net k st x S R" for k st S R
    by (erule phase_client) (simp_all add: x client_ok_def)
  moreover have "cl_reach env net (cs, cl) \<Longrightarrow> cl_reach env net x" using assms(3) cl cl_update by metis
  ultimately show ?thesis using assms(1) by (auto simp: sys_inv_def cl x client_docs_def)
qed

lemma served_setPaused:
  assumes "client_ok k n (cs, cl)" and "cs_expectedMsg cs \<in> {EM_NONE, EM_SERVER_DATA_STATUS}"
  shows "served env k n (cs_sendQueue cs) (Client_setPaused env p (cs, cl))"
proof -
  have "client_ok k n (cs, cl\<lparr>cl_isPaused := p\<rparr>)" using assms(1) by (simp add: client_ok_def)
  from served_requestData [OF this assms(2)] served_same [OF this] served_same [OF assms(1)] show ?thesis
    by (cases p) (simp_all add: Client_setPaused_def Let_def)
qed

lemma phase_setPaused:
  assumes "readable env read" and "phase env net k st (cs, cl) S (R @ client_docs read cs)" and "cl_inv net (cs, cl)"
  shows "phase env net k st (Client_setPaused env p (cs, cl)) S (R @ client_docs read (fst (Client_setPaused env p (cs, cl))))"
  using assms(2)
proof (cases rule: phase.cases)
  case (ph_up k0 gs n)
  then have "cs_expectedMsg cs \<in> {EM_NONE, EM_SERVER_DATA_STATUS}"
    using assms(3) by (simp add: cl_inv_def cs_inv_def client_ok_def)
  from served_setPaused [OF ph_up(3) this] phase_served [OF assms(1) _ ph_up(4,2)] ph_up(1) show ?thesis by simp
qed (auto simp: Client_setPaused_def cl_requestData_def cs_requestData_def Let_def intro: phase.intros)

lemma sys_inv_pause:
  assumes "readable env read" and "sys_inv env net read s"
  shows "sys_inv env net read (s\<lparr>sy_client := Client_setPaused env p (sy_client s)\<rparr>)"
proof -
  obtain cs cl where cl: "sy_client s = (cs, cl)" by fastforce
  have "cl_connector (snd (Client_setPaused env p (cs, cl))) = cl_connector cl"
    "cs_isConnectionEstablished (fst (Client_setPaused env p (cs, cl))) = cs_isConnectionEstablished cs"
    by (simp_all add: Client_setPaused_def cl_requestData_def cs_requestData_def cs_sendMessage_def Let_def)
  with assms phase_setPaused [OF assms(1)] cl_inv_reach cl_pause show ?thesis
    unfolding sys_inv_def cl by (auto simp: cl)
qed

lemma sys_inv_reach:
  assumes "readable env read" and "inet_roundtrip net"
  shows "sys_reach env net read s0 s \<Longrightarrow> sys_inv env net read s"
proof (induction rule: sys_reach.induct)
  case sys_begin
  with sys_inv_start [OF assms(1)] show ?case by blast
next
  case (sys_update s cts ck u)
  with sys_inv_update [OF assms] show ?case by blast
next
  case (sys_kernel s msgs res ck u)
  with sys_inv_kernel show ?case by blast
next
  case (sys_server_sends s rs out sv)
  with sys_inv_server_sends show ?case by blast
next
  case (sys_client_receives s d ds ok out x)
  with sys_inv_client_receives [OF assms(1)] show ?case by blast
next
  case (sys_client_sends s ok v rs out x)
  with sys_inv_client_sends show ?case by blast
next
  case (sys_server_receives s d ds out sv)
  with sys_inv_server_receives [OF assms(1)] show ?case by blast
next
  case (sys_clock s ok x)
  with sys_inv_clock show ?case by blast
next
  case (sys_pause s p)
  with sys_inv_pause [OF assms(1)] show ?case by blast
qed

end
