(* ===== verification/Progress.thy ===== *)
theory Progress
  imports Mirror
begin

text \<open>
  A session makes progress: whatever is queued can be sent, whatever is under way is accepted, and the
  exchange of greetings, the request for data and one update of the server lead from a new connection
  to a synchronized client.
\<close>

section \<open>Sending everything\<close>

lemma doSend_whole:
  assumes "writer_ok w" and "writer_fresh current w"
  shows "\<exists>out w'. doSend current (Sent (length (writer_pending w))) w = (Send_done, out, w') \<and> \<not> isSending w' \<and> writer_ok w'"
proof (cases "isSending w")
  case True
  then have "\<not> (case w_place w of Some (r, v) \<Rightarrow> current r \<noteq> v | None \<Rightarrow> False)"
    using assms(2) by (auto simp: writer_fresh_def split: option.split)
  with True assms(1) show ?thesis
    by (simp add: doSend_def writer_pending_def Let_def) (simp add: writer_ok_def isSending_def)
next
  case False
  with assms(1) show ?thesis by (simp add: doSend_def)
qed

lemma send_loop_drains:
  assumes "writer_ok w" and "writer_fresh (fst \<circ> store) w"
  shows "\<exists>rs out w'. send_loop store rs q w isData = (Send_done, out, [], w', False) \<and> \<not> isSending w'"
  using assms
proof (induction q arbitrary: w isData)
  case Nil
  obtain out w' where d: "doSend (fst \<circ> store) (Sent (length (writer_pending w))) w = (Send_done, out, w')" "\<not> isSending w'"
    using doSend_whole [OF Nil] by blast
  then have "send_loop store [Sent (length (writer_pending w))] [] w isData = (Send_done, out, [], w', False)"
    by (simp add: next_result_def)
  with d(2) show ?case by blast
next
  case (Cons m q)
  obtain out w1 where d: "doSend (fst \<circ> store) (Sent (length (writer_pending w))) w = (Send_done, out, w1)"
    and w1: "\<not> isSending w1" "writer_ok w1"
    using doSend_whole [OF Cons.prems] by blast
  obtain rs out' w' where l: "send_loop store rs q (load_message store m w1) (queued_type store m = SM_DATA) = (Send_done, out', [], w', False)"
    "\<not> isSending w'"
    using Cons.IH [OF writer_ok_load [OF w1(2)] conjunct1 [OF fresh_load [OF w1(1)]]] by blast
  let ?rs = "if isSending w then Sent (length (writer_pending w)) # rs else rs"
  have "doSend (fst \<circ> store) (next_result ?rs) w = (Send_done, out, w1)"
    using d by (cases "isSending w") (simp_all add: next_result_def doSend_def)
  then have "send_loop store ?rs (m # q) w isData = (Send_done, out @ out', [], w', False)"
    using l(1) by (cases "isSending w") simp_all
  with l(2) show ?case by blast
qed

lemma cs_send_loop_drains:
  assumes "writer_ok w" and "\<forall>r v. isSending w \<longrightarrow> w_place w \<noteq> Some (r, v)"
  shows "\<exists>rs out w'. cs_send_loop rs q w = (Send_done, out, [], w') \<and> \<not> isSending w'"
  using assms
proof (induction q arbitrary: w)
  case Nil
  have "writer_fresh (\<lambda>_. 0) w" using Nil(2) by (auto simp: writer_fresh_def)
  from doSend_whole [OF Nil(1) this] show ?case
    by (auto simp: next_result_def intro!: exI [of _ "[Sent (length (writer_pending w))]"])
next
  case (Cons m q)
  have "writer_fresh (\<lambda>_. 0) w" using Cons.prems(2) by (auto simp: writer_fresh_def)
  from doSend_whole [OF Cons.prems(1) this]
  obtain out w1 where d: "doSend (\<lambda>_. 0) (Sent (length (writer_pending w))) w = (Send_done, out, w1)"
    and w1: "\<not> isSending w1" "writer_ok w1" by blast
  have "writer_ok (snd (writer_send (sm_msg m) w1))"
    "\<forall>r v. isSending (snd (writer_send (sm_msg m) w1)) \<longrightarrow> w_place (snd (writer_send (sm_msg m) w1)) \<noteq> Some (r, v)"
    using w1 by (auto simp: writer_send_def writer_ok_def isSending_def)
  from Cons.IH [OF this] obtain rs out' w' where l: "cs_send_loop rs q (snd (writer_send (sm_msg m) w1)) = (Send_done, out', [], w')"
    "\<not> isSending w'" by blast
  let ?rs = "if isSending w then Sent (length (writer_pending w)) # rs else rs"
  have "doSend (\<lambda>_. 0) (next_result ?rs) w = (Send_done, out, w1)"
    using d by (cases "isSending w") (simp_all add: next_result_def doSend_def)
  then have "cs_send_loop ?rs (m # q) w = (Send_done, out @ out', [], w')"
    using l(1) by (cases "isSending w") simp_all
  with l(2) show ?case by blast
qed

section \<open>Steps that are always possible\<close>

lemma server_can_send:
  assumes "server_ok env net ck k sv" and "ss_state (sy_session sv) \<noteq> DISCONNECTED"
  shows "\<exists>rs out sv'. Server_clientEvent env 0 None (Some rs) False sv = (Inr (), out, sv')
    \<and> ss_sendQueue (sy_session sv') = [] \<and> \<not> isSending (ss_socketWriter (sy_session sv'))
    \<and> ss_state (sy_session sv') = ss_state (sy_session sv)"
proof -
  let ?ss = "sy_session sv"
  have ok: "sv_clientsMoved sv = 0" "sv_clients sv = [?ss]" "writer_fresh (fst \<circ> sv_store sv) (ss_socketWriter ?ss)"
    using assms(1) by (simp_all add: server_ok_def one_client writer_fresh_def)
  have i: "ss_inv ?ss" using inv_reach [of env sv] assms(1) ok(2) by (metis list.set_intros(1) server_ok_def)
  then have "writer_ok (ss_socketWriter ?ss)" by (simp add: ss_inv_def)
  from send_loop_drains [OF this ok(3)] obtain rs out w
    where l: "send_loop (sv_store sv) rs (ss_sendQueue ?ss) (ss_socketWriter ?ss) (ss_isSendingData ?ss) = (Send_done, out, [], w, False)"
      "\<not> isSending w" by blast
  let ?ss' = "?ss\<lparr>ss_sendQueue := [], ss_socketWriter := w, ss_isSendingData := False, ss_pollOutput := False\<rparr>"
  have "ss_SocketPollHandler (sv_callback env) (sv_store sv) None (Some rs) False (?ss, sv) = (Inr (), out, ?ss', sv)"
    using i assms(2) l(1) by (simp add: ss_SocketPollHandler_def ss_handleOutput_def ss_inv_def)
  then have "Server_clientEvent env 0 None (Some rs) False sv = (Inr (), out, sv\<lparr>sv_clients := [?ss']\<rparr>)"
    using ok(1,2) unfolding Server_clientEvent_def sy_session_def [symmetric] by simp
  with l(2) show ?thesis by force
qed

lemma client_can_send:
  assumes "cs_inv cs" and "cs_isConnectionEstablished cs" and "cs_state cs \<noteq> DISCONNECTED"
  shows "\<exists>rs out w. cs_SocketPollHandler env (cl_callback env net ok) None (Some (None, rs)) False (cs, cl) =
      (Inr (), out, polled (cs\<lparr>cs_sendQueue := [], cs_socketWriter := w\<rparr>, cl)) \<and> \<not> isSending w"
proof -
  have "writer_ok (cs_socketWriter cs)" "\<forall>r v. isSending (cs_socketWriter cs) \<longrightarrow> w_place (cs_socketWriter cs) \<noteq> Some (r, v)"
    using assms(1) by (auto simp: cs_inv_def)
  from cs_send_loop_drains [OF this] obtain rs out w
    where "cs_send_loop rs (cs_sendQueue cs) (cs_socketWriter cs) = (Send_done, out, [], w)" "\<not> isSending w" by blast
  with assms(2,3) show ?thesis
    by (intro exI [of _ rs] exI [of _ out] exI [of _ w])
      (simp add: cs_SocketPollHandler_def cs_handleOutput_def polled_def)
qed

lemma sys_live:
  assumes "readable env read" and "inet_roundtrip net" and "sys_reach env net read s0 s"
  obtains k where "server_ok env net (sy_collector s) k (sy_server s)" and "cl_reach env net (sy_client s)"
    and "cs_isConnectionEstablished (fst (sy_client s))" and "cl_connector (snd (sy_client s)) = None"
    and "phase env net k (ss_state (sy_session (sy_server s))) (sy_client s)
      (sy_toClient s @ server_docs read (sy_server s)) (sy_toServer s @ client_docs read (fst (sy_client s)))"
    and "ss_state (sy_session (sy_server s)) \<noteq> DISCONNECTED" and "cs_state (fst (sy_client s)) \<noteq> DISCONNECTED"
proof -
  obtain k where k: "server_ok env net (sy_collector s) k (sy_server s)" "cl_reach env net (sy_client s)"
    "cs_isConnectionEstablished (fst (sy_client s))" "cl_connector (snd (sy_client s)) = None"
    and ph: "phase env net k (ss_state (sy_session (sy_server s))) (sy_client s)
      (sy_toClient s @ server_docs read (sy_server s)) (sy_toServer s @ client_docs read (fst (sy_client s)))"
    using sys_inv_reach [OF assms] by (auto simp: sys_inv_def)
  from phase_states [OF ph] show thesis by (intro that [OF k ph]) auto
qed

text \<open>The queues are emptied into the channels.\<close>

lemma flush_server:
  assumes "readable env read" and "inet_roundtrip net" and "sys_reach env net read s0 s"
  shows "\<exists>sv. sys_reach env net read s0 (s\<lparr>sy_server := sv, sy_toClient := sy_toClient s @ server_docs read (sy_server s)\<rparr>)
    \<and> ss_sendQueue (sy_session sv) = [] \<and> ss_state (sy_session sv) = ss_state (sy_session (sy_server s))
    \<and> ss_dataFlags (sy_session sv) = ss_dataFlags (sy_session (sy_server s))
    \<and> ss_dataUpdateFlags (sy_session sv) = ss_dataUpdateFlags (sy_session (sy_server s))"
proof -
  obtain k where k: "server_ok env net (sy_collector s) k (sy_server s)" and live: "ss_state (sy_session (sy_server s)) \<noteq> DISCONNECTED"
    using sys_live [OF assms] by blast
  from server_can_send [OF this] obtain rs out sv
    where e: "Server_clientEvent env 0 None (Some rs) False (sy_server s) = (Inr (), out, sv)" "ss_sendQueue (sy_session sv) = []"
      "\<not> isSending (ss_socketWriter (sy_session sv))" "ss_state (sy_session sv) = ss_state (sy_session (sy_server s))" by blast
  show ?thesis using server_sends(3,4) [OF k live e] sys_server_sends [OF assms(3) e] e(2,4) by blast
qed

lemma flush_client:
  assumes "readable env read" and "inet_roundtrip net" and "sys_reach env net read s0 s" and "sy_client s = (cs, cl)"
  shows "\<exists>w. sys_reach env net read s0 (s\<lparr>sy_client := polled (cs\<lparr>cs_sendQueue := [], cs_socketWriter := w\<rparr>, cl),
    sy_toServer := sy_toServer s @ client_docs read cs\<rparr>)"
proof -
  have c: "cl_reach env net (cs, cl)" "cs_isConnectionEstablished cs" "cs_state cs \<noteq> DISCONNECTED"
    using sys_live [OF assms(1-3)] by (metis assms(4) fst_conv)+
  then have "cs_inv cs" using cl_inv_reach [OF c(1)] by (simp add: cl_inv_def)
  from client_can_send [OF this c(2,3), of env net "\<lambda>_ _. True" cl] obtain rs out w
    where e: "cs_SocketPollHandler env (cl_callback env net (\<lambda>_ _. True)) None (Some (None, rs)) False (sy_client s) =
      (Inr (), out, polled (cs\<lparr>cs_sendQueue := [], cs_socketWriter := w\<rparr>, cl))" "\<not> isSending w" by (auto simp: assms(4))
  from sys_client_sends [OF assms(3) e(1)] e(2) show ?thesis by (auto simp: assms(4) polled_def)
qed

text \<open>The next document is taken.\<close>

lemma client_takes:
  assumes "sys_reach env net read s0 s" and "sy_toClient s = d # ds"
    and "cs_onMessage env (cl_callback env net ok) d (sy_client s) = (Inr (), x)"
  shows "sys_reach env net read s0 (s\<lparr>sy_client := polled x, sy_toClient := ds\<rparr>)"
  by (rule sys_client_receives [OF assms(1,2) client_receives [OF assms(3)]])

lemma server_takes:
  assumes "sys_reach env net read s0 s" and "sy_toServer s = d # ds" and "server_ok env net ck k (sy_server s)"
    and "ss_onMessage (sv_callback env) d (sy_session (sy_server s), sy_server s) = (Inr (), ss1, sv1)" and "ss_isConnected ss1"
  shows "\<exists>sv. Server_clientEvent env 0 (Some (Input_docs [d] None)) None False (sy_server s) = (Inr (), [], sv)
    \<and> sys_reach env net read s0 (s\<lparr>sy_server := sv, sy_toServer := ds\<rparr>)"
  using server_event [OF _ _ assms(4,5)] assms(3) sys_server_receives [OF assms(1,2)] by (auto simp: server_ok_def)

lemma server_takes_hello:
  assumes "readable env read" and "inet_roundtrip net" and "sys_reach env net read s0 s"
    and "sy_toServer s = clientDoc_HELLO env # ds" and "ss_state (sy_session (sy_server s)) = OPENING"
  shows "\<exists>sv. sys_reach env net read s0 (s\<lparr>sy_server := sv, sy_toServer := ds\<rparr>) \<and> ss_state (sy_session sv) = CONNECTED
    \<and> server_docs read sv = server_docs read (sy_server s) @ [serverDoc_HELLO env]"
proof -
  obtain k where k: "server_ok env net (sy_collector s) k (sy_server s)" "lk_flags k = 0" "lk_updateFlags k = 0"
    using sys_live [OF assms(1-3)] assms(5) by (auto elim: phase.cases)
  have c: "ss_isConnected (sy_session (sy_server s))"
    using inv_reach [of env "sy_server s"] k(1) assms(5) by (auto simp: server_ok_def one_client ss_inv_def)
  obtain ss1 sv1 where m: "ss_onMessage (sv_callback env) (clientDoc_HELLO env) (sy_session (sy_server s), sy_server s) = (Inr (), ss1, sv1)"
    "ss_isConnected ss1"
    using c by (simp add: server_onHello [OF assms(5)] sv_callback_def sv_onSessionEstablished_def ss_sendSharedMessage_def Let_def)
  from server_takes [OF assms(3,4) k(1) m] obtain sv
    where "Server_clientEvent env 0 (Some (Input_docs [clientDoc_HELLO env] None)) None False (sy_server s) = (Inr (), [], sv)"
      "sys_reach env net read s0 (s\<lparr>sy_server := sv, sy_toServer := ds\<rparr>)" by blast
  with server_hello [OF assms(1) k(1) assms(5) _ k(2,3)] show ?thesis by blast
qed

lemma server_takes_request:
  assumes "readable env read" and "inet_roundtrip net" and "sys_reach env net read s0 s"
    and "sy_toServer s = clientDoc_REQUEST_DATA EDataFlags_CONNECTION g # ds" and "ss_state (sy_session (sy_server s)) = CONNECTED"
  shows "\<exists>sv. sys_reach env net read s0 (s\<lparr>sy_server := sv, sy_toServer := ds\<rparr>) \<and> ss_state (sy_session sv) = CONNECTED
    \<and> server_docs read sv = server_docs read (sy_server s)
        @ [serverDoc_DATA_STATUS EDataFlags_CONNECTION (g AND EDataFlags_CONNECTION)]
    \<and> ss_dataFlags (sy_session sv) = EDataFlags_CONNECTION \<and> ss_dataUpdateFlags (sy_session sv) = g AND EDataFlags_CONNECTION"
proof -
  obtain k where k: "server_ok env net (sy_collector s) k (sy_server s)"
    using sys_live [OF assms(1-3)] by blast
  have c: "ss_isConnected (sy_session (sy_server s))"
    using inv_reach [of env "sy_server s"] k assms(5) by (auto simp: server_ok_def one_client ss_inv_def)
  obtain ss1 sv1 where m: "ss_onMessage (sv_callback env) (clientDoc_REQUEST_DATA EDataFlags_CONNECTION g)
      (sy_session (sy_server s), sy_server s) = (Inr (), ss1, sv1)" "ss_isConnected ss1"
    using c assms(5)
    by (simp add: server_onRequest [OF assms(5)] sv_callback_def sv_onSessionDataRequest_def sendDataStatus_def ss_sendMessage_def Let_def)
  from server_takes [OF assms(3,4) k m] obtain sv
    where "Server_clientEvent env 0 (Some (Input_docs [clientDoc_REQUEST_DATA EDataFlags_CONNECTION g] None)) None False (sy_server s)
        = (Inr (), [], sv)"
      "sys_reach env net read s0 (s\<lparr>sy_server := sv, sy_toServer := ds\<rparr>)" by blast
  with server_request [OF assms(1) k assms(5)] show ?thesis by blast
qed

section \<open>From a new connection to a synchronized client\<close>

lemma polledE:
  obtains cs' where "polled (cs, cl) = (cs', cl)" and "cs_state cs' = cs_state cs" and "cs_expectedMsg cs' = cs_expectedMsg cs"
    and "cs_sendQueue cs' = cs_sendQueue cs" and "client_docs read cs' = client_docs read cs"
  using that [of "fst (polled (cs, cl))"] client_docs_polled [of read "(cs, cl)"] polled_simps(1-5) [of "(cs, cl)"]
  by (simp add: prod_eq_iff)

text \<open>The greetings.\<close>

lemma session_greets:
  assumes "readable env read" and "inet_roundtrip net" and "sys_reach env net read s0 s" and "sy_client s = (cs, cl)"
    and "cs_state cs = OPENING" "cs_expectedMsg cs = EM_SERVER_BANNER" "ss_state (sy_session (sy_server s)) = OPENING"
    and "sy_toClient s @ server_docs read (sy_server s) = [serverDoc_BANNER]" "sy_toServer s = []" "cs_sendQueue cs = []"
  shows "\<exists>s' cs'. sys_reach env net read s0 s' \<and> sy_client s' = (cs', cl) \<and> sy_toClient s' = [serverDoc_HELLO env] \<and> sy_toServer s' = []
    \<and> cs_state cs' = OPENING \<and> cs_expectedMsg cs' = EM_SERVER_HELLO \<and> cs_sendQueue cs' = []
    \<and> ss_state (sy_session (sy_server s')) = CONNECTED \<and> ss_sendQueue (sy_session (sy_server s')) = []"
proof -
  obtain sv1 where r1: "sys_reach env net read s0 (s\<lparr>sy_server := sv1, sy_toClient := [serverDoc_BANNER]\<rparr>)" (is "sys_reach _ _ _ _ ?s1")
    and sv1: "ss_sendQueue (sy_session sv1) = []" "ss_state (sy_session sv1) = OPENING"
    using flush_server [OF assms(1-3)] assms(7,8) by auto
  let ?cs2 = "cs_sendMessage (createClientMsg_HELLO env) (cs\<lparr>cs_expectedMsg := EM_SERVER_HELLO\<rparr>)"
  obtain cs2 where p2: "polled (?cs2, cl) = (cs2, cl)" and "cs_state cs2 = cs_state ?cs2" "cs_expectedMsg cs2 = cs_expectedMsg ?cs2"
    "client_docs read cs2 = client_docs read ?cs2" by (rule polledE)
  then have cs2: "cs_state cs2 = OPENING" "cs_expectedMsg cs2 = EM_SERVER_HELLO" "client_docs read cs2 = [clientDoc_HELLO env]"
    using assms(1,5,10)
    by (simp_all add: cs_sendMessage_def Let_def client_docs_def readable_def createClientMsg_HELLO_def clientMsg_def)
  have r2: "sys_reach env net read s0 (?s1\<lparr>sy_client := (cs2, cl), sy_toClient := []\<rparr>)" (is "sys_reach _ _ _ _ ?s2")
    using client_takes [OF r1, of serverDoc_BANNER "[]" "\<lambda>_ _. True" "(?cs2, cl)"] assms(4-6) p2
    by (simp add: client_onBanner)
  obtain w where r3: "sys_reach env net read s0 (?s2\<lparr>sy_client := polled (cs2\<lparr>cs_sendQueue := [], cs_socketWriter := w\<rparr>, cl),
      sy_toServer := [clientDoc_HELLO env]\<rparr>)" (is "sys_reach _ _ _ _ ?s3")
    using flush_client [OF assms(1,2) r2, of cs2 cl] assms(9) cs2(3) by auto
  obtain sv4 where r4: "sys_reach env net read s0 (?s3\<lparr>sy_server := sv4, sy_toServer := []\<rparr>)" (is "sys_reach _ _ _ _ ?s4")
    and sv4: "ss_state (sy_session sv4) = CONNECTED" "server_docs read sv4 = [serverDoc_HELLO env]"
    using server_takes_hello [OF assms(1,2) r3, of "[]"] sv1 by (auto simp: server_docs_def)
  obtain sv5 where r5: "sys_reach env net read s0 (?s4\<lparr>sy_server := sv5, sy_toClient := [serverDoc_HELLO env]\<rparr>)"
    and sv5: "ss_sendQueue (sy_session sv5) = []" "ss_state (sy_session sv5) = CONNECTED"
    using flush_server [OF assms(1,2) r4] sv4 by auto
  obtain cs5 where p5: "polled (cs2\<lparr>cs_sendQueue := [], cs_socketWriter := w\<rparr>, cl) = (cs5, cl)" and
    "cs_state cs5 = OPENING" "cs_expectedMsg cs5 = EM_SERVER_HELLO" "cs_sendQueue cs5 = []"
    using cs2 by (auto intro: polledE [of "cs2\<lparr>cs_sendQueue := [], cs_socketWriter := w\<rparr>" cl])
  with r5 p5 sv5 show ?thesis
    by (intro exI [of _ "?s4\<lparr>sy_server := sv5, sy_toClient := [serverDoc_HELLO env]\<rparr>"] exI [of _ cs5]) simp
qed

text \<open>The client's first request and its answer.\<close>

lemma session_requests:
  assumes "readable env read" and "inet_roundtrip net" and "sys_reach env net read s0 s" and "sy_client s = (cs, cl)"
    and "cs_state cs = OPENING" "cs_expectedMsg cs = EM_SERVER_HELLO" "ss_state (sy_session (sy_server s)) = CONNECTED"
    and "ss_sendQueue (sy_session (sy_server s)) = []" "sy_toClient s = [serverDoc_HELLO env]" "sy_toServer s = []" "cs_sendQueue cs = []"
  shows "\<exists>s' cs' cl'. sys_reach env net read s0 s' \<and> sy_client s' = (cs', cl') \<and> sy_toClient s' = [] \<and> sy_toServer s' = []
    \<and> cs_state cs' = CONNECTED \<and> cs_sendQueue cs' = [] \<and> cl_remainingDataFlags cl' = 0 \<and> cl_isPaused cl' = cl_isPaused cl
    \<and> ss_state (sy_session (sy_server s')) = CONNECTED \<and> ss_sendQueue (sy_session (sy_server s')) = []
    \<and> ss_dataFlags (sy_session (sy_server s')) = EDataFlags_CONNECTION \<and> ss_dataUpdateFlags (sy_session (sy_server s')) = 0"
proof -
  let ?m = "createClientMsg_REQUEST_DATA env EDataFlags_CONNECTION 0"
  obtain cs0 cl0 where m0: "cs_onMessage env (cl_callback env net (\<lambda>_ _. True)) (serverDoc_HELLO env) (cs, cl) = (Inr (), cs0, cl0)"
    and c0: "cs_state cs0 = CONNECTED" "cs_expectedMsg cs0 = EM_SERVER_DATA_STATUS" "cs_sendQueue cs0 = [?m]"
      "cl_remainingDataFlags cl0 = 0" "cl_isPaused cl0 = cl_isPaused cl" "cl_requestedDataFlags cl0 = EDataFlags_CONNECTION"
      "cl_requestedDataUpdateFlags cl0 = 0"
    using assms(5,6,11)
    by (simp add: client_onHello cl_callback_def cl_onSessionEstablished_def cl_requestData_def cs_requestData_def cs_sendMessage_def
        cl_emit_def Let_def)
  obtain cs1 where p1: "polled (cs0, cl0) = (cs1, cl0)" and c1: "cs_state cs1 = CONNECTED" "cs_expectedMsg cs1 = EM_SERVER_DATA_STATUS"
    "cs_sendQueue cs1 = [?m]"
    using c0(1-3) by (auto intro: polledE [of cs0 cl0])
  have r1: "sys_reach env net read s0 (s\<lparr>sy_client := (cs1, cl0), sy_toClient := []\<rparr>)" (is "sys_reach _ _ _ _ ?s1")
    using client_takes [OF assms(3), of "serverDoc_HELLO env" "[]" "\<lambda>_ _. True" "(cs0, cl0)"] assms(4,9) m0 p1 by simp
  have d1: "client_docs read cs1 = [clientDoc_REQUEST_DATA EDataFlags_CONNECTION 0]"
    using assms(1) c1(3) by (simp add: client_docs_def readable_def createClientMsg_REQUEST_DATA_def clientMsg_def)
  obtain w cs2 where r2: "sys_reach env net read s0 (?s1\<lparr>sy_client := (cs2, cl0), sy_toServer := [clientDoc_REQUEST_DATA EDataFlags_CONNECTION 0]\<rparr>)"
      (is "sys_reach _ _ _ _ ?s2")
    and c2: "cs_state cs2 = CONNECTED" "cs_expectedMsg cs2 = EM_SERVER_DATA_STATUS" "cs_sendQueue cs2 = []"
  proof -
    obtain w where r: "sys_reach env net read s0 (?s1\<lparr>sy_client := polled (cs1\<lparr>cs_sendQueue := [], cs_socketWriter := w\<rparr>, cl0),
        sy_toServer := [clientDoc_REQUEST_DATA EDataFlags_CONNECTION 0]\<rparr>)"
      using flush_client [OF assms(1,2) r1, of cs1 cl0] assms(10) d1 by auto
    show thesis by (rule polledE [of "cs1\<lparr>cs_sendQueue := [], cs_socketWriter := w\<rparr>" cl0]) (use that r c1 in simp)
  qed
  obtain sv3 where r3: "sys_reach env net read s0 (?s2\<lparr>sy_server := sv3, sy_toServer := []\<rparr>)" (is "sys_reach _ _ _ _ ?s3")
    and sv3: "ss_state (sy_session sv3) = CONNECTED" "server_docs read sv3 = [serverDoc_DATA_STATUS EDataFlags_CONNECTION 0]"
      "ss_dataFlags (sy_session sv3) = EDataFlags_CONNECTION" "ss_dataUpdateFlags (sy_session sv3) = 0"
    using server_takes_request [OF assms(1,2) r2, of 0 "[]"] assms(7,8) by (auto simp: server_docs_def)
  obtain sv4 where r4: "sys_reach env net read s0 (?s3\<lparr>sy_server := sv4, sy_toClient := [serverDoc_DATA_STATUS EDataFlags_CONNECTION 0]\<rparr>)"
      (is "sys_reach _ _ _ _ ?s4")
    and sv4: "ss_sendQueue (sy_session sv4) = []" "ss_state (sy_session sv4) = CONNECTED"
      "ss_dataFlags (sy_session sv4) = EDataFlags_CONNECTION" "ss_dataUpdateFlags (sy_session sv4) = 0"
    using flush_server [OF assms(1,2) r3] sv3 by auto
  obtain cs5 cl5 where m5: "cs_onMessage env (cl_callback env net (\<lambda>_ _. True)) (serverDoc_DATA_STATUS EDataFlags_CONNECTION 0) (cs2, cl0)
      = (Inr (), cs5, cl5)"
    and c5: "cs_state cs5 = CONNECTED" "cs_sendQueue cs5 = []" "cl_remainingDataFlags cl5 = 0" "cl_isPaused cl5 = cl_isPaused cl"
    using c2 c0(4-7) by (simp add: client_onStatus cl_callback_def cl_onSessionDataStatus_def cl_emit_def Let_def)
  obtain cs6 where p6: "polled (cs5, cl5) = (cs6, cl5)" and c6: "cs_state cs6 = CONNECTED" "cs_sendQueue cs6 = []"
    using c5(1,2) by (auto intro: polledE [of cs5 cl5])
  have "sys_reach env net read s0 (?s4\<lparr>sy_client := (cs6, cl5), sy_toClient := []\<rparr>)"
    using client_takes [OF r4, of "serverDoc_DATA_STATUS EDataFlags_CONNECTION 0" "[]" "\<lambda>_ _. True" "(cs5, cl5)"] m5 p6 by simp
  with sv4 c5 c6 show ?thesis
    by (intro exI [of _ "?s4\<lparr>sy_client := (cs6, cl5), sy_toClient := []\<rparr>"] exI [of _ cs6] exI [of _ cl5]) simp
qed

text \<open>An idle client takes the tick and then the snapshot.\<close>

lemma client_ok_idle:
  assumes "client_ok k 0 (cs, cl)" and "cl_inv net (cs, cl)"
  shows "cs_state cs = CONNECTED" and "cs_expectedMsg cs = EM_NONE" and "has_flag EDataFlags_CONNECTION (cs_dataFlags cs)
      \<longleftrightarrow> has_flag EDataFlags_CONNECTION (lk_flags k)"
    and "lk_tick k + 1 = cs_currentTimestamp cs + 1 \<or> cs_currentTimestamp cs = 0" and "cl_requestedDataFlags cl = EDataFlags_CONNECTION"
  using assms by (auto simp: client_ok_def cl_inv_def cs_inv_def split: if_splits)

lemma client_takes_snapshot:
  assumes "client_ok k 0 (cs, cl)" and "cl_inv net (cs, cl)" and "cl_remainingDataFlags cl = 0" and "\<not> cl_isPaused cl"
    and "has_flag EDataFlags_CONNECTION (lk_flags k)" and "good_snapshot net v items"
  shows "\<exists>cs1 cl1 x. cs_onMessage env (cl_callback env net ok) (serverDoc_UPDATE_TICK (lk_tick k + 1)) (cs, cl) = (Inr (), cs1, cl1)
    \<and> cs_onMessage env (cl_callback env net ok) (serverDoc_DATA EDataFlags_CONNECTION False (JArray items)) (polled (cs1, cl1)) = (Inr (), x)
    \<and> cs_state (fst x) = CONNECTED \<and> cl_isSynchronized (snd x) \<and> cl_remainingDataFlags (snd x) = 0"
proof -
  note idle = client_ok_idle [OF assms(1,2)]
  let ?cs1 = "cs\<lparr>cs_currentTimestamp := lk_tick k + 1, cs_sessionTTL := cs_sessionTTL cs + 1\<rparr>"
  let ?cl1 = "(cl_emit (Dispatch SERVER_UPDATE_TICK) cl)\<lparr>cl_remainingDataFlags := EDataFlags_CONNECTION, cl_isDataRequested := False\<rparr>"
  have t: "cs_onMessage env (cl_callback env net ok) (serverDoc_UPDATE_TICK (lk_tick k + 1)) (cs, cl) = (Inr (), ?cs1, ?cl1)"
    using idle assms(3,4)
    by (simp add: client_onTick cl_callback_def cl_onSessionServerTick_def cl_emit_def Let_def)
  define cs2 where "cs2 = fst (polled (?cs1, ?cl1))"
  have p: "polled (?cs1, ?cl1) = (cs2, ?cl1)" "cs_state cs2 = CONNECTED" "cs_dataFlags cs2 = cs_dataFlags cs"
    using idle(1) by (simp_all add: cs2_def prod_eq_iff) (simp add: polled_def)
  have "list_reach net (cl_list cl)" using assms(2) by (simp add: cl_inv_def)
  then obtain l where l: "deserialize_all net (list_callback net) items (clear (cl_list cl)) = (Inr (), l)"
    using assms(6) by (metis good_snapshot_def prod.collapse)
  have "cs_onMessage env (cl_callback env net ok) (serverDoc_DATA EDataFlags_CONNECTION False (JArray items)) (cs2, ?cl1) =
    cl_onSessionData env net EDataFlags_CONNECTION False (JArray items) (cs2, ?cl1)"
    using p(2,3) idle(3) assms(5) by (simp add: client_onData cl_callback_def)
  moreover have "fst (cl_onSessionData env net EDataFlags_CONNECTION False (JArray items) (cs2, ?cl1)) = Inr ()
    \<and> cs_state (fst (snd (cl_onSessionData env net EDataFlags_CONNECTION False (JArray items) (cs2, ?cl1)))) = CONNECTED
    \<and> cl_isSynchronized (snd (snd (cl_onSessionData env net EDataFlags_CONNECTION False (JArray items) (cs2, ?cl1))))
    \<and> cl_remainingDataFlags (snd (snd (cl_onSessionData env net EDataFlags_CONNECTION False (JArray items) (cs2, ?cl1)))) = 0"
    using l p(2) assms(4)
    by (cases "cl_hasUI cl"; cases "cl_isSynchronized cl")
      (simp_all add: cl_onSessionData_def cl_emit_def Let_def cl_requestData_def cs_requestData_def cs_sendMessage_def setSynchronized_def)
  ultimately show ?thesis using t p(1) by (metis prod.collapse)
qed

text \<open>The server's update and its delivery.\<close>

lemma session_updates:
  assumes "readable env read" and "inet_roundtrip net" and "sys_reach env net read s0 s" and "sy_client s = (cs, cl)"
    and "sy_toClient s = []" "sy_toServer s = []" "cs_state cs = CONNECTED" "cs_sendQueue cs = []"
    and "cl_remainingDataFlags cl = 0" "\<not> cl_isPaused cl"
    and "ss_state (sy_session (sy_server s)) = CONNECTED" "ss_sendQueue (sy_session (sy_server s)) = []"
    and "ss_dataFlags (sy_session (sy_server s)) = EDataFlags_CONNECTION" "ss_dataUpdateFlags (sy_session (sy_server s)) = 0"
  shows "\<exists>s'. sys_reach env net read s0 s' \<and> cs_state (fst (sy_client s')) = CONNECTED \<and> cl_isSynchronized (snd (sy_client s'))
    \<and> cl_remainingDataFlags (snd (sy_client s')) = 0 \<and> sy_toClient s' = [] \<and> ss_sendQueue (sy_session (sy_server s')) = []"
proof -
  let ?sv = "sy_server s" and ?ck = "sy_collector s"
  obtain k where k: "server_ok env net ?ck k ?sv" and c: "cl_reach env net (cs, cl)"
    and ph: "phase env net k CONNECTED (cs, cl) [] []"
    using sys_live [OF assms(1-3)] assms(4-8,11,12) by (auto simp: server_docs_def client_docs_def)
  have cok: "client_ok k 0 (cs, cl)" using ph by (cases rule: phase.cases) auto
  have flags: "lk_flags k = EDataFlags_CONNECTION" using k assms(13) by (auto simp: server_ok_def)
  obtain ck' u where e: "Conntrack_onUpdate us_read (us_callback net) (Some cts) (?ck, sv_updateSerializer ?sv) = (None, ck', u)"
  proof -
    have "fst (Conntrack_onUpdate us_read (us_callback net) (Some cts) (?ck, sv_updateSerializer ?sv)) = None"
      by (simp add: Conntrack_onUpdate_def Let_def)
    then show thesis using that by (metis prod.collapse)
  qed
  then have u: "netfilter net cts ?ck (sv_updateSerializer ?sv) = u" by (simp add: netfilter_def)
  let ?sv1 = "Server_onUpdate env (netfilter net cts ?ck) ?sv"
  let ?tick = "serverDoc_UPDATE_TICK (lk_tick k + 1)"
    and ?data = "serverDoc_DATA EDataFlags_CONNECTION False (JArray (ConnectionStorageSerializer (us_storage u)))"
  have r1: "sys_reach env net read s0 (s\<lparr>sy_collector := ck', sy_server := ?sv1\<rparr>)" (is "sys_reach _ _ _ _ ?s1")
    by (rule sys_update [OF assms(3,12) e])
  have "server_docs read ?sv1 = [?tick, ?data]"
    using server_docs_update [OF assms(1) k assms(11,12) u] assms(13,14) by (simp add: update_docs_def wants_flags)
  with flush_server [OF assms(1,2) r1] obtain sv2
    where r2: "sys_reach env net read s0 (?s1\<lparr>sy_server := sv2, sy_toClient := [?tick, ?data]\<rparr>)" (is "sys_reach _ _ _ _ ?s2")
      and sv2: "ss_sendQueue (sy_session sv2) = []"
    using assms(5) by auto
  have good: "good_snapshot net (conn_view (us_storage u)) (ConnectionStorageSerializer (us_storage u))"
    using netfilter_good(4) [OF assms(2), of ?ck "sv_updateSerializer ?sv" cts, unfolded u] k by (simp add: server_ok_def)
  obtain cs1 cl1 x where t: "cs_onMessage env (cl_callback env net (\<lambda>_ _. True)) ?tick (cs, cl) = (Inr (), cs1, cl1)"
    and d: "cs_onMessage env (cl_callback env net (\<lambda>_ _. True)) ?data (polled (cs1, cl1)) = (Inr (), x)"
    and x: "cs_state (fst x) = CONNECTED" "cl_isSynchronized (snd x)" "cl_remainingDataFlags (snd x) = 0"
    using client_takes_snapshot [OF cok cl_inv_reach [OF c] assms(9,10) _ good] flags by force
  have r3: "sys_reach env net read s0 (?s2\<lparr>sy_client := polled (cs1, cl1), sy_toClient := [?data]\<rparr>)" (is "sys_reach _ _ _ _ ?s3")
    using client_takes [OF r2, of ?tick "[?data]" "\<lambda>_ _. True" "(cs1, cl1)"] t assms(4) by simp
  have r4: "sys_reach env net read s0 (?s3\<lparr>sy_client := polled x, sy_toClient := []\<rparr>)"
    using client_takes [OF r3, of ?data "[]" "\<lambda>_ _. True" x] d by simp
  show ?thesis by (rule exI, rule conjI [OF r4]) (simp add: x sv2)
qed

lemma session_completes:
  assumes "readable env read" and "inet_roundtrip net" and "sys_start env net s0" and "\<not> cl_isPaused (snd (sy_client s0))"
  shows "\<exists>s. sys_reach env net read s0 s \<and> cs_state (fst (sy_client s)) = CONNECTED \<and> cl_isSynchronized (snd (sy_client s))
    \<and> cl_remainingDataFlags (snd (sy_client s)) = 0 \<and> sy_toClient s = [] \<and> ss_sendQueue (sy_session (sy_server s)) = []"
proof -
  obtain cs cl where cl: "sy_client s0 = (cs, cl)" by fastforce
  have st: "cs_state cs = OPENING" "cs_expectedMsg cs = EM_SERVER_BANNER" "sy_toServer s0 = []" "cl_reach env net (cs, cl)"
    using assms(3) by (simp_all add: sys_start_def cl)
  have q: "cs_sendQueue cs = []" using cl_inv_reach [OF st(4)] st(1,2) by (simp add: cl_inv_def cs_inv_def)
  have r0: "sys_reach env net read s0 s0" using assms(3) by (rule sys_begin)
  have o: "ss_state (sy_session (sy_server s0)) = OPENING"
    using assms(3) by (simp add: sys_start_def sy_session_def Server_pollHandler_def Server_create_def ServerSession_create_def
        ss_sendSharedMessage_def Let_def)
  have b: "sy_toClient s0 @ server_docs read (sy_server s0) = [serverDoc_BANNER]"
  proof -
    obtain k where "phase env net k OPENING (sy_client s0) (sy_toClient s0 @ server_docs read (sy_server s0))
        (sy_toServer s0 @ client_docs read (fst (sy_client s0)))"
      using sys_live [OF assms(1,2) r0] o by metis
    then show ?thesis by (cases rule: phase.cases) (use st(2) cl in simp_all)
  qed
  from session_greets [OF assms(1,2) r0 cl st(1,2) o b st(3) q] obtain s1 cs1
    where r1: "sys_reach env net read s0 s1" "sy_client s1 = (cs1, cl)" "cs_state cs1 = OPENING" "cs_expectedMsg cs1 = EM_SERVER_HELLO"
      "ss_state (sy_session (sy_server s1)) = CONNECTED" "ss_sendQueue (sy_session (sy_server s1)) = []"
      "sy_toClient s1 = [serverDoc_HELLO env]" "sy_toServer s1 = []" "cs_sendQueue cs1 = []" by blast
  from session_requests [OF assms(1,2) r1] obtain s2 cs2 cl2
    where r2: "sys_reach env net read s0 s2" "sy_client s2 = (cs2, cl2)" "sy_toClient s2 = []" "sy_toServer s2 = []" "cs_state cs2 = CONNECTED"
      "cs_sendQueue cs2 = []" "cl_remainingDataFlags cl2 = 0"
      and p: "cl_isPaused cl2 = cl_isPaused cl" and sv: "ss_state (sy_session (sy_server s2)) = CONNECTED"
      "ss_sendQueue (sy_session (sy_server s2)) = []"
      "ss_dataFlags (sy_session (sy_server s2)) = EDataFlags_CONNECTION" "ss_dataUpdateFlags (sy_session (sy_server s2)) = 0" by blast
  have "\<not> cl_isPaused cl2" using p assms(4) cl by simp
  from session_updates [OF assms(1,2) r2 this sv] show ?thesis .
qed

end
