(* ===== verification/MirrorProps.thy ===== *)
theory MirrorProps
  imports Progress
begin

text \<open>
  The properties of a whole session, with a sample session that runs from the banner to a synchronized
  client. The sample needs a writer and a parser of documents; any pair that agrees will do.
\<close>

section \<open>A text format for the samples\<close>

definition wr_text :: "string \<Rightarrow> string" where
  "wr_text s = concat (map (\<lambda>c. [CHR '','', c]) s) @ ''.''"

definition int_text :: "int \<Rightarrow> string" where
  "int_text i = (if i < 0 then ''-'' else ''+'') @ to_string (nat \<bar>i\<bar>)"

definition text_int :: "string \<Rightarrow> int" where
  "text_int s = (if take 1 s = ''-'' then - int (decimal_value (drop 1 s)) else int (decimal_value (drop 1 s)))"

fun wr :: "json \<Rightarrow> string" where
  "wr JNull = ''n''"
| "wr (JBool b) = (if b then ''t'' else ''f'')"
| "wr (JInt i) = ''i'' @ wr_text (int_text i)"
| "wr (JDouble s) = ''d'' @ wr_text s"
| "wr (JString s) = ''s'' @ wr_text s"
| "wr (JArray ds) = ''['' @ concat (map (\<lambda>d. '','' @ wr d) ds) @ ''.''"
| "wr (JObject ms) = ''{'' @ concat (map (\<lambda>(k, d). '','' @ wr_text k @ wr d) ms) @ ''.''"

text \<open>A parser returns what it has read and the rest of the text. The number bounds the length of a list.\<close>

type_synonym 'a reader = "string \<Rightarrow> ('a \<times> string) option"

primrec rd_list :: "'a reader \<Rightarrow> nat \<Rightarrow> 'a list reader" where
  "rd_list p 0 s = None"
| "rd_list p (Suc n) s =
     (if s = [] then None else if hd s = CHR ''.'' then Some ([], tl s)
      else case p (tl s) of None \<Rightarrow> None
        | Some (x, r) \<Rightarrow> map_option (\<lambda>(xs, r'). (x # xs, r')) (rd_list p n r))"

definition rd_items :: "'a reader \<Rightarrow> 'a list reader" where
  "rd_items p s = rd_list p (Suc (length s)) s"

definition rd_char :: "char reader" where
  "rd_char s = (if s = [] then None else Some (hd s, tl s))"

definition rd_text :: "string reader" where
  "rd_text = rd_items rd_char"

definition rd_member :: "json reader \<Rightarrow> (string \<times> json) reader" where
  "rd_member p s =
     (case rd_text s of None \<Rightarrow> None | Some (k, r) \<Rightarrow> map_option (\<lambda>(d, r'). ((k, d), r')) (p r))"

primrec rd :: "nat \<Rightarrow> json reader" where
  "rd 0 s = None"
| "rd (Suc n) s =
     (if s = [] then None
      else let c = hd s; t = tl s
           in if c = CHR ''n'' then Some (JNull, t)
              else if c = CHR ''t'' then Some (JBool True, t)
              else if c = CHR ''f'' then Some (JBool False, t)
              else if c = CHR ''i'' then map_option (\<lambda>(x, r). (JInt (text_int x), r)) (rd_text t)
              else if c = CHR ''d'' then map_option (\<lambda>(x, r). (JDouble x, r)) (rd_text t)
              else if c = CHR ''s'' then map_option (\<lambda>(x, r). (JString x, r)) (rd_text t)
              else if c = CHR ''['' then map_option (\<lambda>(x, r). (JArray x, r)) (rd_items (rd n) t)
              else map_option (\<lambda>(x, r). (JObject x, r)) (rd_items (rd_member (rd n)) t))"

definition sample_read :: "string \<Rightarrow> json" where
  "sample_read s = (case rd (length s) s of Some (d, _) \<Rightarrow> d | None \<Rightarrow> JNull)"

lemma rd_list_written:
  assumes "\<And>x r. x \<in> set xs \<Longrightarrow> p (w x @ r) = Some (x, r)" and "length xs < n"
  shows "rd_list p n (concat (map (\<lambda>x. CHR '','' # w x) xs) @ CHR ''.'' # r) = Some (xs, r)"
  using assms
proof (induction xs arbitrary: n)
  case Nil
  then show ?case by (cases n) simp_all
next
  case (Cons x xs)
  then show ?case by (cases n) simp_all
qed

lemma rd_items_written:
  assumes "\<And>x r. x \<in> set xs \<Longrightarrow> p (w x @ r) = Some (x, r)"
  shows "rd_items p (concat (map (\<lambda>x. CHR '','' # w x) xs) @ CHR ''.'' # r) = Some (xs, r)"
proof -
  have "length xs \<le> length (concat (map (\<lambda>x. CHR '','' # w x) xs))" by (induction xs) auto
  then show ?thesis unfolding rd_items_def using assms by (intro rd_list_written) simp_all
qed

lemma rd_text_written [simp]: "rd_text (wr_text s @ r) = Some (s, r)"
  using rd_items_written [of s rd_char "\<lambda>c. [c]"] by (simp add: rd_text_def wr_text_def rd_char_def)

lemma text_int_written [simp]: "text_int (int_text i) = i"
  by (simp add: text_int_def int_text_def decimal_value_to_string)

lemma length_wr: "length (wr d) > 0"
  by (cases d) simp_all

lemma length_concat_le: "x \<in> set xs \<Longrightarrow> length (f x) \<le> length (concat (map f xs))"
  by (induction xs) auto

lemma rd_written: "length (wr d) \<le> n \<Longrightarrow> rd n (wr d @ r) = Some (d, r)"
proof (induction d arbitrary: n r)
  case (JArray ds)
  then obtain m where n: "n = Suc m" by (cases n) simp_all
  have "rd m (wr d @ r') = Some (d, r')" if "d \<in> set ds" for d r'
    using JArray.IH [OF that] JArray.prems length_concat_le [OF that, of "\<lambda>d. '','' @ wr d"] by (simp add: n)
  from rd_items_written [of ds "rd m" wr, OF this] show ?case by (simp add: n)
next
  case (JObject ms)
  then obtain m where n: "n = Suc m" by (cases n) simp_all
  let ?w = "\<lambda>(k, d). wr_text k @ wr d"
  have "rd_member (rd m) (?w x @ r') = Some (x, r')" if "x \<in> set ms" for x r'
  proof -
    obtain k d where x: "x = (k, d)" by fastforce
    have "rd m (wr d @ r') = Some (d, r')"
      using JObject.IH [of x d] that JObject.prems length_concat_le [OF that, of "\<lambda>(k, d). '','' @ wr_text k @ wr d"]
      by (simp add: n x)
    then show ?thesis by (simp add: rd_member_def x)
  qed
  from rd_items_written [of ms "rd_member (rd m)" ?w, OF this] show ?case by (simp add: n case_prod_beta')
qed (auto dest!: Suc_le_D split: if_splits)

definition session_env :: app_env where
  "session_env = sample_env\<lparr>env_write := wr\<rparr>"

lemma session_readable: "readable session_env sample_read"
  unfolding readable_def by (simp add: sample_read_def CreateMsgString_def session_env_def rd_written del: rd.simps)

section \<open>A session\<close>

text \<open>A client that has found its connection to be established.\<close>

definition sample_joined :: "Client csess" where
  "sample_joined =
     (ClientSession_create\<lparr>cs_isConnected := True, cs_state := OPENING, cs_sessionTTL := 4, cs_expectedMsg := EM_SERVER_BANNER,
        cs_isConnectionEstablished := True, cs_serverHost := ''server''\<rparr>,
      (Client_create True)\<lparr>cl_effects := [Dispatch CONNECT_STARTED, Dispatch CONNECTION_ESTABLISHED]\<rparr>)"

lemma sample_joined_reach: "cl_reach session_env sample_net sample_joined"
  by (rule cl_event [OF sample_opening_reach, where inp = None and outp = "Some (None, [])" and isError = False and out = "[]"
        and ok = "\<lambda>_ _. True"])
    (simp add: sample_opening_eq sample_joined_def cs_SocketPollHandler_def cs_handleOutput_def cl_callback_def
      cl_onSessionConnectionEstablished_def cl_emit_def ClientSession_create_def Client_create_def)

definition sample_system :: system where
  "sample_system = \<lparr>sy_collector = Conntrack_init Conntrack_create,
     sy_server = snd (Server_pollHandler (Some True) False (Server_create session_env True)),
     sy_client = sample_joined, sy_toClient = [], sy_toServer = []\<rparr>"

lemma sample_system_start: "sys_start session_env sample_net sample_system"
  using sample_joined_reach ck_init [OF ck_create]
  by (simp add: sys_start_def sample_system_def)
    (simp add: sample_joined_def ClientSession_create_def Client_create_def StreamSocketWriter_init_def isSending_def)

lemma sample_system_runs: "\<not> cl_isPaused (snd (sy_client sample_system))"
  by (simp add: sample_system_def sample_joined_def Client_create_def)

lemmas sample_session = session_readable sample_net_roundtrip sample_system_start sample_system_runs

section \<open>Properties\<close>

text \<open>
  C1: a synchronized client shows the server's connections. In every state of collector, server and
  client that a new connection leads to, whatever updates, kernel events, sent and received messages,
  clock ticks and pauses came before: if the client's session is established, the client considers itself
  synchronized and has got the data of the current tick, and nothing is under way to it, then its list
  has exactly the server's connections, with the same traffic and states. The server has one client, an
  output event sends all that is queued, and the server updates only when its queue is empty; for a slow
  client the ticks of the server alias.
\<close>

theorem synchronized_client_mirrors_server:
  assumes "readable env read" and "inet_roundtrip net" and "sys_reach env net read s0 s"
    and "cs_state (fst (sy_client s)) = CONNECTED" and "cl_isSynchronized (snd (sy_client s))"
    and "cl_remainingDataFlags (snd (sy_client s)) = 0"
    and "sy_toClient s = []" and "ss_sendQueue (sy_session (sy_server s)) = []"
  shows "conn_view (m_storage (cl_list (snd (sy_client s)))) = conn_view (us_storage (sv_updateSerializer (sy_server s)))"
proof -
  obtain k where k: "server_ok env net (sy_collector s) k (sy_server s)"
    and "phase env net k (ss_state (sy_session (sy_server s))) (sy_client s) [] (sy_toServer s @ client_docs read (fst (sy_client s)))"
    using sys_live [OF assms(1-3)] assms(7,8) by (auto simp: server_docs_def)
  from this(2) show ?thesis
    by (cases rule: phase.cases) (use assms(4-6) k in \<open>auto simp: client_ok_def server_ok_def\<close>)
qed

theorem synchronized_client_mirrors_server_witness:
  "\<exists>s. sys_reach session_env sample_net sample_read sample_system s \<and> cl_isSynchronized (snd (sy_client s))
    \<and> conn_view (m_storage (cl_list (snd (sy_client s)))) = conn_view (us_storage (sv_updateSerializer (sy_server s)))"
  using session_completes [OF sample_session]
    synchronized_client_mirrors_server [OF sample_session(1,2), of sample_system]
  by blast

text \<open>
  C2: the two ends of a client that keeps up never reject each other. The server has this one client, and
  its updates come only when its send queue is empty (ticks that wait in the queue alias and would be
  rejected). Then, in every state a new connection leads to, the document that arrives next at either end is
  accepted: no exception is raised, and the session that receives it is not closed. Both sessions are opening
  or connected, and at most one message of the client is under way.
\<close>

theorem ends_never_reject:
  assumes "readable env read" and "inet_roundtrip net" and "sys_reach env net read s0 s"
  shows "cs_state (fst (sy_client s)) \<in> {OPENING, CONNECTED} \<and> ss_state (sy_session (sy_server s)) \<in> {OPENING, CONNECTED}
    \<and> length (sy_toServer s) + length (cs_sendQueue (fst (sy_client s))) \<le> 1
    \<and> (\<forall>d ds. sy_toClient s = d # ds \<longrightarrow>
        (\<exists>x. cs_onMessage env (cl_callback env net ok) d (sy_client s) = (Inr (), x) \<and> cs_state (fst x) \<in> {OPENING, CONNECTED}))
    \<and> (\<forall>d ds. sy_toServer s = d # ds \<longrightarrow>
        (\<exists>y. ss_onMessage (sv_callback env) d (sy_session (sy_server s), sy_server s) = (Inr (), y) \<and> ss_state (fst y) = CONNECTED))"
proof -
  obtain k where c: "cl_reach env net (sy_client s)" "cs_isConnectionEstablished (fst (sy_client s))" "cl_connector (snd (sy_client s)) = None"
    and ph: "phase env net k (ss_state (sy_session (sy_server s))) (sy_client s)
      (sy_toClient s @ server_docs read (sy_server s)) (sy_toServer s @ client_docs read (fst (sy_client s)))"
    using sys_live [OF assms] by metis
  have "length (sy_toServer s @ client_docs read (fst (sy_client s))) \<le> 1"
    using ph by (cases rule: phase.cases) (auto simp: client_ok_def split: if_splits)
  moreover have "\<exists>x. cs_onMessage env (cl_callback env net ok) d (sy_client s) = (Inr (), x) \<and> cs_state (fst x) \<in> {OPENING, CONNECTED}"
    if "sy_toClient s = d # ds" for d ds
    using phase_receive [OF assms(1) _ cl_inv_reach [OF c(1)] c(3,2), of k _ d] ph phase_states(2) that by fastforce
  moreover have "\<exists>y. ss_onMessage (sv_callback env) d (sy_session (sy_server s), sy_server s) = (Inr (), y) \<and> ss_state (fst y) = CONNECTED"
    if d: "sy_toServer s = d # ds" for d ds
    using ph
  proof (cases rule: phase.cases)
    case ph_hello
    with d show ?thesis by (simp add: server_onHello sv_callback_def sv_onSessionEstablished_def)
  next
    case (ph_up k0 gs n)
    with d obtain g where "d = clientDoc_REQUEST_DATA EDataFlags_CONNECTION g" by (cases gs) auto
    with ph_up(1) show ?thesis
      by (simp add: server_onRequest sv_callback_def sv_onSessionDataRequest_def Let_def sendDataStatus_def ss_sendMessage_def)
  qed (use d in simp_all)
  ultimately show ?thesis using phase_states [OF ph] by (auto simp: client_docs_def)
qed

theorem ends_never_reject_witness:
  "\<exists>s x. sys_reach session_env sample_net sample_read sample_system s \<and> sy_toClient s = [serverDoc_BANNER]
    \<and> cs_onMessage session_env (cl_callback session_env sample_net (\<lambda>_ _. True)) serverDoc_BANNER (sy_client s) = (Inr (), x)
    \<and> cs_state (fst x) \<in> {OPENING, CONNECTED}"
proof -
  have "sy_toClient sample_system @ server_docs sample_read (sy_server sample_system) = [serverDoc_BANNER]"
    using session_readable
    by (simp add: sample_system_def server_docs_def sy_session_def Server_pollHandler_def Server_create_def ServerSession_create_def
        ss_sendSharedMessage_def Let_def queued_text_def ServerContext_create_def readable_def createServerMsg_BANNER_def serverMsg_def)
  with flush_server [OF sample_session(1,2) sys_begin [OF sample_session(3)]] obtain s
    where s: "sys_reach session_env sample_net sample_read sample_system s" "sy_toClient s = [serverDoc_BANNER]" by force
  with ends_never_reject [OF sample_session(1,2) s(1), of "\<lambda>_ _. True"] show ?thesis by blast
qed

text \<open>
  C3: a new connection can always become synchronized: unless the user pauses, there is a course of
  events (greetings, request, one update of the server) after which the client is connected and
  synchronized, with nothing left under way to it.
\<close>

theorem session_can_synchronize:
  assumes "readable env read" and "inet_roundtrip net" and "sys_start env net s0" and "\<not> cl_isPaused (snd (sy_client s0))"
  shows "\<exists>s. sys_reach env net read s0 s \<and> cs_state (fst (sy_client s)) = CONNECTED \<and> cl_isSynchronized (snd (sy_client s))
    \<and> cl_remainingDataFlags (snd (sy_client s)) = 0 \<and> sy_toClient s = [] \<and> ss_sendQueue (sy_session (sy_server s)) = []"
  using session_completes [OF assms] .

theorem session_can_synchronize_witness:
  "\<exists>s. sys_reach session_env sample_net sample_read sample_system s \<and> cl_isSynchronized (snd (sy_client s))"
  using session_can_synchronize [OF sample_session] by blast

end
