(* ===== verification/CmdLine.thy ===== *)
theory CmdLine
  imports KString StdMap
begin

text \<open>
  \<^verbatim>\<open>CmdLine.hpp\<close>, \<^verbatim>\<open>CmdLine.cpp\<close> and \<^verbatim>\<open>CmdLineOptions.cpp\<close>: the
  options, the parser of the command line and the list of options for the help text. A \<open>std::map\<close>
  with \<open>KString\<close> keys is the list of its entries in their order. A pointer to an argument is the
  name of the argument. The first parameter of \<open>OPTIONS\<close> says whether \<^verbatim>\<open>CONNTOP_DEDICATED\<close> is
  defined.
\<close>

section \<open>Ordered maps\<close>

fun sm_emplace :: "KString \<Rightarrow> 'v \<Rightarrow> (KString \<times> 'v) list \<Rightarrow> (KString \<times> 'v) list" where
  "sm_emplace k v [] = [(k, v)]"
| "sm_emplace k v ((k', v') # m) =
     (if kstring_less k k' then (k, v) # (k', v') # m
      else if kstring_less k' k then (k', v') # sm_emplace k v m
      else (k', v') # m)"

section \<open>Options\<close>

datatype ECmdLineArgValue = AV_NONE | AV_OPTIONAL | AV_REQUIRED

record CmdLineArgConfig =
  ac_shortName :: KString
  ac_description :: KString
  ac_valueType :: ECmdLineArgValue
  ac_valueTypeName :: KString

abbreviation config :: "string \<Rightarrow> string \<Rightarrow> ECmdLineArgValue \<Rightarrow> string \<Rightarrow> CmdLineArgConfig" where
  "config s d t n \<equiv> \<lparr>ac_shortName = s, ac_description = d, ac_valueType = t, ac_valueTypeName = n\<rparr>"

definition OPTIONS_list :: "bool \<Rightarrow> (KString \<times> CmdLineArgConfig) list" where
  "OPTIONS_list dedicated =
     [(''help'', config ''h'' ''Show this help and exit.'' AV_NONE []),
      (''version'', config [] ''Show version information and exit.'' AV_NONE []),
      (''verbose'', config ''v'' ''Increase log verbosity - 1x normal, 2x high, 3x debug.'' AV_NONE []),
      (''log-file'', config ''L'' ''Use FILE for logging instead of standard error output.'' AV_REQUIRED ''FILE''),
      (''log-style'', config [] ''Set log format (simple, printk, timestamp, datetime).'' AV_REQUIRED ''STYLE''),
      (''log-color'', config [] ''Colorize log messages (never, auto, always).'' AV_OPTIONAL ''WHEN''),
      (''log-clear'', config [] ''Make log file empty on each start.'' AV_NONE []),
      (''log-utc'', config [] ''Use UTC time instead of local time in log.'' AV_NONE [])]
     @ (if dedicated then []
        else
          [(''no-hostname'', config ''n'' ''Disable address hostname resolving.'' AV_NONE []),
           (''no-servname'', config ''P'' ''Disable port service name resolving.'' AV_NONE []),
           (''no-geoip'', config [] ''Disable GeoIP database.'' AV_NONE []),
           (''connect'', config ''c'' ''Start conntop client and try to connect to SERVER.'' AV_REQUIRED ''SERVER''),
           (''server'', config ''s'' ''Start conntop server.'' AV_NONE [])])
     @ [(''name'', config ''N'' ''Use NAME as client/server name instead of hostname.'' AV_REQUIRED ''NAME''),
        (''port'', config ''p'' ''Use PORT instead of default port.'' AV_REQUIRED ''PORT''),
        (''listen'', config ''l'' ''Bind server port to ADDRESS.'' AV_REQUIRED ''ADDRESS''),
        (''listen-any'', config [] ''Bind server port to 0.0.0.0 and [::].'' AV_NONE [])]"

type_synonym options = "(KString \<times> CmdLineArgConfig) list"

definition OPTIONS :: "bool \<Rightarrow> options" where
  "OPTIONS dedicated = foldl (\<lambda>m (k, c). sm_emplace k c m) [] (OPTIONS_list dedicated)"

section \<open>Arguments\<close>

record CmdLineArg =
  ca_config :: "KString \<times> CmdLineArgConfig"
  ca_values :: "KString list"
  ca_count :: u32

definition CmdLineArg_create :: "KString \<times> CmdLineArgConfig \<Rightarrow> CmdLineArg" where
  "CmdLineArg_create conf = \<lparr>ca_config = conf, ca_values = [], ca_count = 0\<rparr>"

definition hasShortName :: "CmdLineArgConfig \<Rightarrow> bool" where
  "hasShortName c \<longleftrightarrow> ac_shortName c \<noteq> []"

definition canHaveValue :: "CmdLineArg \<Rightarrow> bool" where
  "canHaveValue a \<longleftrightarrow> ac_valueType (snd (ca_config a)) \<noteq> AV_NONE"

definition requiresValue :: "CmdLineArg \<Rightarrow> bool" where
  "requiresValue a \<longleftrightarrow> ac_valueType (snd (ca_config a)) = AV_REQUIRED"

definition ca_getValue :: "CmdLineArg \<Rightarrow> KString" where
  "ca_getValue a = (if ca_values a = [] then [] else last (ca_values a))"

type_synonym args = "(KString \<times> CmdLineArg) list"

text \<open>Both return the name of the argument, if there is one, and the new map.\<close>

definition AddShortArg :: "options \<Rightarrow> char \<Rightarrow> args \<Rightarrow> KString option \<times> args" where
  "AddShortArg opts argChar argMap =
     (case List.find (\<lambda>(_, a). hasShortName (snd (ca_config a)) \<and> ac_shortName (snd (ca_config a)) ! 0 = argChar) argMap of
        Some (name, _) \<Rightarrow> (Some name, argMap)
      | None \<Rightarrow>
          (case List.find (\<lambda>(_, c). hasShortName c \<and> ac_shortName c ! 0 = argChar) opts of
             Some (name, c) \<Rightarrow> (Some name, sm_emplace name (CmdLineArg_create (name, c)) argMap)
           | None \<Rightarrow> (None, argMap)))"

definition AddLongArg :: "options \<Rightarrow> KString \<Rightarrow> args \<Rightarrow> KString option \<times> args" where
  "AddLongArg opts argName argMap =
     (case map_of argMap argName of
        Some _ \<Rightarrow> (Some argName, argMap)
      | None \<Rightarrow>
          (case map_of opts argName of
             Some c \<Rightarrow> (Some argName, sm_emplace argName (CmdLineArg_create (argName, c)) argMap)
           | None \<Rightarrow> (None, argMap)))"

section \<open>The parser\<close>

record parse_state =
  ps_args :: args
  ps_nonOptionArgs :: "KString list"
  ps_waitingArg :: "KString option"
  ps_isWaitingArgShort :: bool

definition arg_count :: "KString \<Rightarrow> args \<Rightarrow> args" where
  "arg_count name = um_write name (\<lambda>a. a\<lparr>ca_count := ca_count a + 1\<rparr>)"

definition arg_value :: "KString \<Rightarrow> KString \<Rightarrow> args \<Rightarrow> args" where
  "arg_value name v = um_write name (\<lambda>a. a\<lparr>ca_values := ca_values a @ [v]\<rparr>)"

definition arg_is :: "(CmdLineArg \<Rightarrow> bool) \<Rightarrow> args \<Rightarrow> KString option \<Rightarrow> bool" where
  "arg_is P args w = (case w of None \<Rightarrow> False | Some name \<Rightarrow> (case map_of args name of None \<Rightarrow> False | Some a \<Rightarrow> P a))"

definition quote :: char where
  "quote = CHR 0x27"

text \<open>The characters of \<open>-abc\<close>; the last parameter is \<open>waitingArg\<close>.\<close>

fun parse_short :: "options \<Rightarrow> KString \<Rightarrow> string \<Rightarrow> args \<Rightarrow> KString option \<Rightarrow> string + (args \<times> KString option)" where
  "parse_short opts appName [] args w = Inr (args, w)"
| "parse_short opts appName (argChar # argv) args w =
     (case AddShortArg opts argChar args of
        (None, _) \<Rightarrow> Inl (appName @ '': invalid option '' @ [quote] @ ''-'' @ [argChar] @ [quote])
      | (Some name, args1) \<Rightarrow>
          let args2 = arg_count name args1
          in if arg_is canHaveValue args2 (Some name)
             then (if argv \<noteq> [] then Inr (arg_value name argv args2, None) else Inr (args2, Some name))
             else parse_short opts appName argv args2 (Some name))"

text \<open>The argument \<open>--name\<close> or \<open>--name=value\<close>.\<close>

definition parse_long :: "options \<Rightarrow> KString \<Rightarrow> KString \<Rightarrow> args \<Rightarrow> string + (args \<times> KString option)" where
  "parse_long opts appName arg args =
     (let argName = takeWhile (\<lambda>c. c \<noteq> CHR ''='') (drop 2 arg); rest = dropWhile (\<lambda>c. c \<noteq> CHR ''='') (drop 2 arg)
      in case AddLongArg opts argName args of
           (None, _) \<Rightarrow> Inl (appName @ '': unrecognized option '' @ [quote] @ arg @ [quote])
         | (Some name, args1) \<Rightarrow>
             let args2 = arg_count name args1
             in if rest = [] then Inr (args2, Some name)
                else if arg_is canHaveValue args2 (Some name) then Inr (arg_value name (tl rest) args2, None)
                else Inl (appName @ '': option '' @ [quote] @ ''--'' @ name @ [quote] @ '' doesn'' @ [quote] @ ''t allow an argument''))"

text \<open>The main loop ends with the arguments that it has left.\<close>

fun parse_loop :: "options \<Rightarrow> KString \<Rightarrow> KString list \<Rightarrow> parse_state \<Rightarrow> string + (parse_state \<times> KString list)" where
  "parse_loop opts appName [] st = Inr (st, [])"
| "parse_loop opts appName (arg # argv) st =
     (if length arg > 1 \<and> arg ! 0 = CHR ''-''
      then
        if arg_is requiresValue (ps_args st) (ps_waitingArg st) then Inr (st, arg # argv)
        else if arg ! 1 \<noteq> CHR ''-''
        then (case parse_short opts appName (tl arg) (ps_args st) (ps_waitingArg st) of
                Inl e \<Rightarrow> Inl e
              | Inr (args, w) \<Rightarrow>
                  parse_loop opts appName argv (st\<lparr>ps_args := args, ps_waitingArg := w, ps_isWaitingArgShort := True\<rparr>))
        else if arg = ''--'' then Inr (st, argv)
        else (case parse_long opts appName arg (ps_args st) of
                Inl e \<Rightarrow> Inl e
              | Inr (args, w) \<Rightarrow>
                  parse_loop opts appName argv (st\<lparr>ps_args := args, ps_waitingArg := w, ps_isWaitingArgShort := False\<rparr>))
      else if arg_is canHaveValue (ps_args st) (ps_waitingArg st)
      then parse_loop opts appName argv
             (st\<lparr>ps_args := arg_value (the (ps_waitingArg st)) arg (ps_args st), ps_waitingArg := None\<rparr>)
      else parse_loop opts appName argv (st\<lparr>ps_nonOptionArgs := ps_nonOptionArgs st @ [arg]\<rparr>))"

record CmdLine =
  cm_args :: args
  cm_nonOptionArgs :: "KString list"

definition parse_init :: parse_state where
  "parse_init = \<lparr>ps_args = [], ps_nonOptionArgs = [], ps_waitingArg = None, ps_isWaitingArgShort = False\<rparr>"

text \<open>\<open>Inl\<close> is the text of a \<open>CmdLineParseException\<close>.\<close>

definition CmdLine_parse :: "options \<Rightarrow> string list \<Rightarrow> string + CmdLine" where
  "CmdLine_parse opts argv0 =
     (case map KString_of_cstr argv0 of
        [] \<Rightarrow> Inr \<lparr>cm_args = [], cm_nonOptionArgs = []\<rparr>
      | appName # argv \<Rightarrow>
          (case parse_loop opts appName argv parse_init of
             Inl e \<Rightarrow> Inl e
           | Inr (st, left) \<Rightarrow>
               if arg_is requiresValue (ps_args st) (ps_waitingArg st)
               then
                 (let name = the (ps_waitingArg st)
                  in Inl (appName @ '': option '' @ [quote] @ (if ps_isWaitingArgShort st then ''-'' else ''--'')
                       @ (if ps_isWaitingArgShort st
                          then ac_shortName (snd (ca_config (the (map_of (ps_args st) name)))) else name)
                       @ [quote] @ '' requires an argument''))
               else Inr \<lparr>cm_args = ps_args st, cm_nonOptionArgs = ps_nonOptionArgs st @ left\<rparr>))"

definition getArg :: "KString \<Rightarrow> CmdLine \<Rightarrow> CmdLineArg option" where
  "getArg arg cm = map_of (cm_args cm) arg"

definition hasArg :: "KString \<Rightarrow> CmdLine \<Rightarrow> bool" where
  "hasArg arg cm \<longleftrightarrow> map_of (cm_args cm) arg \<noteq> None"

section \<open>The list of options\<close>

definition option_text :: "KString \<times> CmdLineArgConfig \<Rightarrow> string" where
  "option_text = (\<lambda>(name, c).
     case ac_valueType c of
       AV_NONE \<Rightarrow> name
     | AV_OPTIONAL \<Rightarrow> name @ ''=['' @ ac_valueTypeName c @ '']''
     | AV_REQUIRED \<Rightarrow> name @ ''='' @ ac_valueTypeName c)"

definition option_width :: "KString \<times> CmdLineArgConfig \<Rightarrow> nat" where
  "option_width = (\<lambda>(name, c).
     length name + length (ac_valueTypeName c) + (case ac_valueType c of AV_NONE \<Rightarrow> 0 | AV_OPTIONAL \<Rightarrow> 3 | AV_REQUIRED \<Rightarrow> 1))"

definition CreateOptionsList :: "options \<Rightarrow> string" where
  "CreateOptionsList opts =
     (let maxNameLength = foldl (\<lambda>m o'. if option_width o' > m then option_width o' else m) 4 opts
      in concat (map (\<lambda>(name, c).
           (if hasShortName c then '' -'' @ ac_shortName c else ''   '') @ '' --'' @ option_text (name, c)
             @ replicate (maxNameLength - length (option_text (name, c))) CHR '' ''
             @ (if ac_description c \<noteq> [] then ''  '' @ ac_description c else []) @ [CHR 0x0A]) opts))"

end
