(* ===== verification/CmdLineProps.thy ===== *)
theory CmdLineProps
  imports CmdLine
begin

text \<open>
  The command line parser: what a command line that is written out from a list of options and values
  parses to, in any of the four styles an option can be written in, and what holds for every command
  line that is accepted.
\<close>

section \<open>Tables of options\<close>

definition opt_ok :: "options \<Rightarrow> KString \<times> CmdLineArgConfig \<Rightarrow> bool" where
  "opt_ok opts = (\<lambda>(n, c).
     n \<noteq> [] \<and> list_all (\<lambda>x. x \<noteq> CHR ''='' \<and> x \<noteq> CHR 0x00) n \<and> length (ac_shortName c) \<le> 1
     \<and> list_all (\<lambda>x. x \<noteq> CHR ''-'' \<and> x \<noteq> CHR 0x00) (ac_shortName c)
     \<and> list_all (\<lambda>(m, d). ac_shortName d = ac_shortName c \<longrightarrow> ac_shortName c = [] \<or> m = n) opts)"

definition opts_ok :: "options \<Rightarrow> bool" where
  "opts_ok opts \<longleftrightarrow> distinct (map fst opts) \<and> list_all (opt_ok opts) opts"

lemma OPTIONS_ok: "opts_ok (OPTIONS dedicated)"
proof -
  have "opts_ok (OPTIONS True)" "opts_ok (OPTIONS False)" by code_simp+
  then show ?thesis by (cases dedicated) auto
qed

lemma opts_okD:
  assumes "opts_ok opts" and "map_of opts n = Some c"
  shows "n \<noteq> []" and "CHR ''='' \<notin> set n" and "CHR 0x00 \<notin> set n" and "length (ac_shortName c) \<le> 1"
    and "CHR ''-'' \<notin> set (ac_shortName c)" and "CHR 0x00 \<notin> set (ac_shortName c)"
    and "\<And>m d. map_of opts m = Some d \<Longrightarrow> ac_shortName d = ac_shortName c \<Longrightarrow> ac_shortName c = [] \<or> m = n"
proof -
  have "opt_ok opts (n, c)"
    using assms(1) map_of_SomeD [OF assms(2)] by (auto simp: opts_ok_def list_all_iff simp del: split_paired_All)
  then have c: "n \<noteq> []" "list_all (\<lambda>x. x \<noteq> CHR ''='' \<and> x \<noteq> CHR 0x00) n" "length (ac_shortName c) \<le> 1"
    "list_all (\<lambda>x. x \<noteq> CHR ''-'' \<and> x \<noteq> CHR 0x00) (ac_shortName c)"
    "list_all (\<lambda>(m, d). ac_shortName d = ac_shortName c \<longrightarrow> ac_shortName c = [] \<or> m = n) opts"
    unfolding opt_ok_def by simp_all
  from c(1-4) show "n \<noteq> []" and "CHR ''='' \<notin> set n" and "CHR 0x00 \<notin> set n" and "length (ac_shortName c) \<le> 1"
    and "CHR ''-'' \<notin> set (ac_shortName c)" and "CHR 0x00 \<notin> set (ac_shortName c)"
    by (auto simp: list_all_iff)
  show "ac_shortName c = [] \<or> m = n" if "map_of opts m = Some d" "ac_shortName d = ac_shortName c" for m d
    using c(5) map_of_SomeD [OF that(1)] that(2) unfolding list_all_iff by blast
qed

section \<open>The map of arguments\<close>

lemma findD: "List.find P xs = Some x \<Longrightarrow> x \<in> set xs \<and> P x"
  by (induction xs) (auto split: if_splits)

lemma map_of_emplace: "map_of m k = None \<Longrightarrow> map_of (sm_emplace k v m) = (map_of m)(k \<mapsto> v)"
  by (induction m) (auto simp: fun_eq_iff split: if_splits, (metis kstring_less_total)+)

lemma keys_emplace: "map_of m k = None \<Longrightarrow> set (map fst (sm_emplace k v m)) = insert k (set (map fst m))"
  by (auto simp: map_of_emplace simp flip: dom_map_of_conv_image_fst)

lemma distinct_emplace: "distinct (map fst m) \<Longrightarrow> map_of m k = None \<Longrightarrow> distinct (map fst (sm_emplace k v m))"
proof (induction m)
  case (Cons p m)
  then show ?case
    using keys_emplace [of m k v] by (cases p) (auto simp: map_of_eq_None_iff split: if_splits)
qed simp

definition args_ok :: "options \<Rightarrow> args \<Rightarrow> bool" where
  "args_ok opts args \<longleftrightarrow> distinct (map fst args) \<and>
     (\<forall>n a. map_of args n = Some a \<longrightarrow> fst (ca_config a) = n \<and> map_of opts n = Some (snd (ca_config a)))"

definition touch :: "options \<Rightarrow> KString \<Rightarrow> args \<Rightarrow> args" where
  "touch opts n args =
     (case map_of args n of Some _ \<Rightarrow> args | None \<Rightarrow> sm_emplace n (CmdLineArg_create (n, the (map_of opts n))) args)"

lemma AddLongArg_touch:
  assumes "args_ok opts args"
  shows "AddLongArg opts n args = (if map_of opts n = None then (None, args) else (Some n, touch opts n args))"
  using assms by (auto simp: AddLongArg_def touch_def args_ok_def split: option.split)

lemma AddShortArg_touch:
  assumes "opts_ok opts" and "args_ok opts args" and "map_of opts n = Some c" and "ac_shortName c = [ch]"
  shows "AddShortArg opts ch args = (Some n, touch opts n args)"
proof -
  have dist: "distinct (map fst opts)" "distinct (map fst args)" using assms(1,2) by (simp_all add: opts_ok_def args_ok_def)
  have uniq: "m = n" if "map_of opts m = Some d" "hasShortName d" "ac_shortName d ! 0 = ch" for m d
  proof -
    have "ac_shortName d = [ch]" using that opts_okD(4) [OF assms(1) that(1)] by (cases "ac_shortName d") (auto simp: hasShortName_def)
    then show ?thesis using opts_okD(7) [OF assms(1,3) that(1)] assms(4) by simp
  qed
  let ?P = "\<lambda>(m :: KString, a). hasShortName (snd (ca_config a)) \<and> ac_shortName (snd (ca_config a)) ! 0 = ch"
  let ?Q = "\<lambda>(m :: KString, d). hasShortName d \<and> ac_shortName d ! 0 = ch"
  have found: "m = n" if "(m, a) \<in> set args" "?P (m, a)" for m a
  proof -
    have "map_of args m = Some a" using that(1) dist(2) by simp
    then have "map_of opts m = Some (snd (ca_config a))" using assms(2) unfolding args_ok_def by blast
    with uniq that(2) show ?thesis by simp
  qed
  show ?thesis
  proof (cases "map_of args n")
    case (Some a)
    then have a: "(n, a) \<in> set args" "?P (n, a)"
      using assms(2-4) map_of_SomeD [OF Some] unfolding args_ok_def hasShortName_def by force+
    then obtain x where x: "List.find ?P args = Some x" by (metis (no_types, lifting) find_None_iff not_Some_eq)
    then have "x \<in> set args" "?P x" by (auto dest: findD)
    with found have "fst x = n" by (cases x) auto
    with x Some show ?thesis by (cases x) (simp add: AddShortArg_def touch_def)
  next
    case None
    have "List.find ?P args = None"
      using found None by (fastforce simp: find_None_iff map_of_eq_None_iff image_iff)
    moreover have "List.find ?Q opts = Some (n, c)"
    proof -
      have "(n, c) \<in> set opts" "?Q (n, c)" using assms(3,4) by (auto simp: map_of_SomeD hasShortName_def)
      then obtain x where x: "List.find ?Q opts = Some x" by (metis (no_types, lifting) find_None_iff not_Some_eq)
      then have "x \<in> set opts" "?Q x" by (auto dest: findD)
      with uniq dist(1) have "fst x = n" by (cases x) auto
      with \<open>x \<in> set opts\<close> \<open>(n, c) \<in> set opts\<close> dist(1) have "x = (n, c)"
        by (metis eq_key_imp_eq_value prod.collapse)
      with x show ?thesis by simp
    qed
    ultimately show ?thesis using None assms(3) by (simp add: AddShortArg_def touch_def)
  qed
qed

section \<open>Occurrences and values\<close>

definition obs :: "args \<Rightarrow> KString \<Rightarrow> u32 \<times> KString list" where
  "obs args n = (case map_of args n of None \<Rightarrow> (0, []) | Some a \<Rightarrow> (ca_count a, ca_values a))"

definition occurs :: "options \<Rightarrow> KString \<Rightarrow> args \<Rightarrow> args" where
  "occurs opts n args = arg_count n (touch opts n args)"

lemma map_of_write: "map_of (um_write k f m) n = (if n = k then map_option f (map_of m k) else map_of m n)"
  using node_map.find_write [OF um.node_map_axioms, of n k f m] by (simp add: um_find_def)

lemma keys_write: "map fst (um_write k f m) = map fst m"
  by (auto simp: um_write_def)

lemma args_ok_value: "args_ok opts args \<Longrightarrow> args_ok opts (arg_value n v args)"
  by (auto simp: args_ok_def arg_value_def keys_write map_of_write split: if_splits)

lemma args_ok_count: "args_ok opts args \<Longrightarrow> args_ok opts (arg_count n args)"
  by (auto simp: args_ok_def arg_count_def keys_write map_of_write split: if_splits)

lemma args_ok_touch: "args_ok opts args \<Longrightarrow> map_of opts n \<noteq> None \<Longrightarrow> args_ok opts (touch opts n args)"
  by (auto simp: args_ok_def touch_def map_of_emplace distinct_emplace CmdLineArg_create_def
      simp del: map_of_eq_Some_iff split: option.split if_splits)

lemma args_ok_occurs: "args_ok opts args \<Longrightarrow> map_of opts n \<noteq> None \<Longrightarrow> args_ok opts (occurs opts n args)"
  by (simp add: occurs_def args_ok_count args_ok_touch)

lemma obs_occurs:
  "obs (occurs opts n args) m = (if m = n then (fst (obs args n) + 1, snd (obs args n)) else obs args m)"
  by (auto simp: obs_def occurs_def arg_count_def map_of_write touch_def map_of_emplace CmdLineArg_create_def split: option.split)

lemma present_occurs: "map_of (occurs opts n args) m \<noteq> None \<longleftrightarrow> m = n \<or> map_of args m \<noteq> None"
  by (auto simp: occurs_def arg_count_def map_of_write touch_def map_of_emplace split: option.split)

lemma obs_value:
  "map_of args n \<noteq> None \<Longrightarrow>
     obs (arg_value n v args) m = (if m = n then (fst (obs args n), snd (obs args n) @ [v]) else obs args m)"
  by (auto simp: obs_def arg_value_def map_of_write split: option.split)

lemma arg_is_occurs:
  assumes "args_ok opts args" and "map_of opts n = Some c" and "\<And>a b. snd (ca_config a) = snd (ca_config b) \<Longrightarrow> P a = P b"
  shows "arg_is P (occurs opts n args) (Some n) = P (CmdLineArg_create (n, c))"
proof -
  obtain a where a: "map_of (occurs opts n args) n = Some a" using present_occurs [of opts n args n] by auto
  moreover have "args_ok opts (occurs opts n args)" using assms(1,2) by (simp add: args_ok_occurs)
  ultimately have "snd (ca_config a) = c" using assms(2) by (simp add: args_ok_def)
  with a show ?thesis using assms(3) [of a "CmdLineArg_create (n, c)"] by (simp add: arg_is_def CmdLineArg_create_def)
qed

lemma can_value_occurs [simp]:
  "args_ok opts args \<Longrightarrow> map_of opts n = Some c \<Longrightarrow> arg_is canHaveValue (occurs opts n args) (Some n) \<longleftrightarrow> ac_valueType c \<noteq> AV_NONE"
  using arg_is_occurs [of opts args n c canHaveValue] by (simp add: canHaveValue_def CmdLineArg_create_def)

lemma requires_value_occurs [simp]:
  "args_ok opts args \<Longrightarrow> map_of opts n = Some c \<Longrightarrow> arg_is requiresValue (occurs opts n args) (Some n) \<longleftrightarrow> ac_valueType c = AV_REQUIRED"
  using arg_is_occurs [of opts args n c requiresValue] by (simp add: requiresValue_def CmdLineArg_create_def)

section \<open>Written options\<close>

text \<open>The styles: \<open>--name=value\<close>, \<open>--name value\<close>, \<open>-nvalue\<close>, \<open>-n value\<close>.\<close>

datatype style = Long_joined | Long_apart | Short_joined | Short_apart

record item =
  it_style :: style
  it_name :: KString
  it_value :: "KString option"

definition render :: "options \<Rightarrow> item \<Rightarrow> KString list" where
  "render opts it =
     (let long = ''--'' @ it_name it; short = ''-'' @ ac_shortName (the (map_of opts (it_name it)))
      in case it_value it of
           None \<Rightarrow> [if it_style it \<in> {Long_joined, Long_apart} then long else short]
         | Some v \<Rightarrow>
             (case it_style it of
                Long_joined \<Rightarrow> [long @ ''='' @ v]
              | Long_apart \<Rightarrow> [long, v]
              | Short_joined \<Rightarrow> [short @ v]
              | Short_apart \<Rightarrow> [short, v]))"

definition item_ok :: "options \<Rightarrow> item \<Rightarrow> bool" where
  "item_ok opts it \<longleftrightarrow>
     (case map_of opts (it_name it) of
        None \<Rightarrow> False
      | Some c \<Rightarrow>
          (it_style it \<in> {Short_joined, Short_apart} \<longrightarrow> hasShortName c) \<and>
          (case it_value it of
             None \<Rightarrow> ac_valueType c \<noteq> AV_REQUIRED
           | Some v \<Rightarrow> ac_valueType c \<noteq> AV_NONE \<and> CHR 0x00 \<notin> set v \<and> (it_style it = Short_joined \<longrightarrow> v \<noteq> [])
               \<and> (it_style it \<in> {Long_apart, Short_apart} \<longrightarrow> \<not> (length v > 1 \<and> v ! 0 = CHR ''-''))))"

definition item_args :: "options \<Rightarrow> item \<Rightarrow> args \<Rightarrow> args" where
  "item_args opts it args =
     (case it_value it of
        None \<Rightarrow> occurs opts (it_name it) args
      | Some v \<Rightarrow> arg_value (it_name it) v (occurs opts (it_name it) args))"

lemma parse_long_joined:
  assumes "opts_ok opts" and "args_ok opts args" and "map_of opts n = Some c"
  shows "parse_long opts app (''--'' @ n) args = Inr (occurs opts n args, Some n)"
    and "ac_valueType c \<noteq> AV_NONE \<Longrightarrow>
      parse_long opts app (''--'' @ n @ ''='' @ v) args = Inr (arg_value n v (occurs opts n args), None)"
proof -
  have n: "takeWhile (\<lambda>c. c \<noteq> CHR ''='') n = n" "dropWhile (\<lambda>c. c \<noteq> CHR ''='') n = []"
    "takeWhile (\<lambda>c. c \<noteq> CHR ''='') (n @ CHR ''='' # v) = n" "dropWhile (\<lambda>c. c \<noteq> CHR ''='') (n @ CHR ''='' # v) = CHR ''='' # v"
    using opts_okD(2) [OF assms(1,3)] by (auto simp: takeWhile_eq_all_conv dropWhile_eq_Nil_conv takeWhile_append dropWhile_append)
  show "parse_long opts app (''--'' @ n) args = Inr (occurs opts n args, Some n)"
    using assms by (simp add: n parse_long_def AddLongArg_touch Let_def flip: occurs_def)
  show "parse_long opts app (''--'' @ n @ ''='' @ v) args = Inr (arg_value n v (occurs opts n args), None)"
    if "ac_valueType c \<noteq> AV_NONE"
    using assms that by (simp add: n parse_long_def AddLongArg_touch Let_def flip: occurs_def)
qed

lemma parse_short_one:
  assumes "opts_ok opts" and "args_ok opts args" and "map_of opts n = Some c" and "ac_shortName c = [ch]"
  shows "parse_short opts app [ch] args w = Inr (occurs opts n args, Some n)"
    and "ac_valueType c \<noteq> AV_NONE \<Longrightarrow> v \<noteq> [] \<Longrightarrow>
      parse_short opts app (ch # v) args w = Inr (arg_value n v (occurs opts n args), None)"
  using assms by (simp_all add: AddShortArg_touch Let_def flip: occurs_def)

text \<open>A written option is parsed to what it says.\<close>

lemma item_okE:
  assumes "opts_ok opts" and "item_ok opts it"
  obtains c where "map_of opts (it_name it) = Some c" and "it_style it \<in> {Short_joined, Short_apart} \<Longrightarrow> \<exists>ch. ac_shortName c = [ch]"
    and "it_value it = None \<Longrightarrow> ac_valueType c \<noteq> AV_REQUIRED"
    and "\<And>v. it_value it = Some v \<Longrightarrow> ac_valueType c \<noteq> AV_NONE \<and> (it_style it = Short_joined \<longrightarrow> v \<noteq> [])
      \<and> (it_style it \<in> {Long_apart, Short_apart} \<longrightarrow> \<not> (length v > 1 \<and> v ! 0 = CHR ''-''))"
proof -
  obtain c where c: "map_of opts (it_name it) = Some c" using assms(2) by (auto simp: item_ok_def split: option.splits)
  have "\<exists>ch. ac_shortName c = [ch]" if "hasShortName c"
    using opts_okD(4) [OF assms(1) c] that by (cases "ac_shortName c") (auto simp: hasShortName_def)
  with that [OF c] assms(2) c show thesis by (auto simp: item_ok_def split: option.splits)
qed

definition idle :: "parse_state \<Rightarrow> bool" where
  "idle st \<longleftrightarrow> \<not> arg_is requiresValue (ps_args st) (ps_waitingArg st)"

lemma parse_item:
  assumes "opts_ok opts" and "item_ok opts it" and "args_ok opts (ps_args st)" and "idle st"
  shows "\<exists>st'. parse_loop opts app (render opts it @ argv) st = parse_loop opts app argv st' \<and> idle st'
    \<and> ps_args st' = item_args opts it (ps_args st) \<and> ps_nonOptionArgs st' = ps_nonOptionArgs st"
proof -
  let ?n = "it_name it" and ?args = "ps_args st"
  obtain c where c: "map_of opts ?n = Some c" and short: "it_style it \<in> {Short_joined, Short_apart} \<Longrightarrow> \<exists>ch. ac_shortName c = [ch]"
    and none: "it_value it = None \<Longrightarrow> ac_valueType c \<noteq> AV_REQUIRED"
    and some: "\<And>v. it_value it = Some v \<Longrightarrow> ac_valueType c \<noteq> AV_NONE \<and> (it_style it = Short_joined \<longrightarrow> v \<noteq> [])
      \<and> (it_style it \<in> {Long_apart, Short_apart} \<longrightarrow> \<not> (length v > 1 \<and> v ! 0 = CHR ''-''))"
    using item_okE [OF assms(1,2)] by metis
  note long = parse_long_joined [OF assms(1,3) c]
  have n: "?n \<noteq> []" "\<not> arg_is requiresValue ?args (ps_waitingArg st)"
    using opts_okD(1) [OF assms(1) c] assms(4) by (auto simp: idle_def)
  have dash: "ch \<noteq> CHR ''-''" if "ac_shortName c = [ch]" for ch using opts_okD(5) [OF assms(1) c] that by simp
  let ?L = "st\<lparr>ps_args := occurs opts ?n ?args, ps_waitingArg := Some ?n, ps_isWaitingArgShort := False\<rparr>"
    and ?S = "st\<lparr>ps_args := occurs opts ?n ?args, ps_waitingArg := Some ?n, ps_isWaitingArgShort := True\<rparr>"
  have L: "parse_loop opts app ((''--'' @ ?n) # xs) st = parse_loop opts app xs ?L" for xs
    using n long(1) [of app] by (simp add: numeral_2_eq_2)
  have S: "parse_loop opts app ((''-'' @ ac_shortName c) # xs) st = parse_loop opts app xs ?S"
    if "it_style it \<in> {Short_joined, Short_apart}" for xs
    using short [OF that] n dash parse_short_one(1) [OF assms(1,3) c, of _ app "ps_waitingArg st"] by auto
  have V: "parse_loop opts app (v # xs) s =
      parse_loop opts app xs (s\<lparr>ps_args := arg_value ?n v (occurs opts ?n ?args), ps_waitingArg := None\<rparr>)"
    if "s = ?L \<or> s = ?S" "ac_valueType c \<noteq> AV_NONE" "\<not> (length v > 1 \<and> v ! 0 = CHR ''-'')" for v xs s
    using that assms(3) c by auto
  show ?thesis
  proof (cases "it_value it")
    case None
    have "idle ?L" "idle ?S" using none [OF None] assms(3) c by (simp_all add: idle_def)
    then show ?thesis
      using L [of argv] S [of argv] None c
      by (cases "it_style it") (auto simp: render_def item_args_def)
  next
    case (Some v)
    note v = some [OF Some]
    have idles: "idle (s\<lparr>ps_args := args, ps_waitingArg := None\<rparr>)" "idle (s\<lparr>ps_args := args, ps_waitingArg := None, ps_isWaitingArgShort := b\<rparr>)"
      for s args b by (simp_all add: idle_def arg_is_def)
    show ?thesis
    proof (cases "it_style it")
      case Long_joined
      have "parse_loop opts app ((''--'' @ ?n @ ''='' @ v) # argv) st = parse_loop opts app argv
          (st\<lparr>ps_args := arg_value ?n v (occurs opts ?n ?args), ps_waitingArg := None, ps_isWaitingArgShort := False\<rparr>)"
        using n long(2) [of app v] v by simp
      with Some Long_joined c idles show ?thesis by (auto simp: render_def item_args_def)
    next
      case Long_apart
      with L [of "v # argv"] V [of ?L v argv] v Some c idles show ?thesis by (auto simp: render_def item_args_def)
    next
      case Short_joined
      then obtain ch where ch: "ac_shortName c = [ch]" using short by auto
      have "parse_loop opts app ((''-'' @ ac_shortName c @ v) # argv) st = parse_loop opts app argv
          (st\<lparr>ps_args := arg_value ?n v (occurs opts ?n ?args), ps_waitingArg := None, ps_isWaitingArgShort := True\<rparr>)"
        using n dash [OF ch] parse_short_one(2) [OF assms(1,3) c ch, of v app "ps_waitingArg st"] v Short_joined ch by simp
      with Some Short_joined c idles show ?thesis by (auto simp: render_def item_args_def)
    next
      case Short_apart
      with S [of "v # argv"] V [of ?S v argv] v Some c idles show ?thesis by (auto simp: render_def item_args_def)
    qed
  qed
qed

lemma args_ok_item: "args_ok opts args \<Longrightarrow> item_ok opts it \<Longrightarrow> args_ok opts (item_args opts it args)"
  by (auto simp: item_args_def item_ok_def args_ok_occurs args_ok_value split: option.splits)

lemma parse_items:
  assumes "opts_ok opts"
  shows "\<forall>it \<in> set items. item_ok opts it \<Longrightarrow> args_ok opts (ps_args st) \<Longrightarrow> idle st \<Longrightarrow>
    \<exists>st'. parse_loop opts app (concat (map (render opts) items) @ argv) st = parse_loop opts app argv st' \<and> idle st'
      \<and> ps_args st' = fold (item_args opts) items (ps_args st) \<and> ps_nonOptionArgs st' = ps_nonOptionArgs st"
proof (induction items arbitrary: st)
  case (Cons it items)
  then have it: "item_ok opts it" by simp
  obtain st1 where st1: "parse_loop opts app (render opts it @ concat (map (render opts) items) @ argv) st
      = parse_loop opts app (concat (map (render opts) items) @ argv) st1" "idle st1"
      "ps_args st1 = item_args opts it (ps_args st)" "ps_nonOptionArgs st1 = ps_nonOptionArgs st"
    using parse_item [OF assms it Cons.prems(2,3)] by blast
  have "args_ok opts (ps_args st1)" using st1(3) args_ok_item [OF Cons.prems(2) it] by simp
  with Cons.IH [of st1] Cons.prems(1) st1 show ?case by simp
qed (auto intro!: exI)

definition item_values :: "KString \<Rightarrow> item list \<Rightarrow> KString list" where
  "item_values n items = List.map_filter it_value (filter (\<lambda>it. it_name it = n) items)"

lemma obs_items:
  "obs (fold (item_args opts) items args) n =
     (fst (obs args n) + of_nat (length (filter (\<lambda>it. it_name it = n) items)), snd (obs args n) @ item_values n items)"
proof (induction items arbitrary: args)
  case (Cons it items)
  have "map_of (occurs opts (it_name it) args) (it_name it) \<noteq> None" by (simp only: present_occurs) simp
  then have "obs (item_args opts it args) n =
    (if n = it_name it then (fst (obs args n) + 1, snd (obs args n) @ (case it_value it of None \<Rightarrow> [] | Some v \<Rightarrow> [v])) else obs args n)"
    by (auto simp: item_args_def obs_value obs_occurs split: option.split)
  then show ?case
    by (auto simp: Cons item_values_def map_filter_simps split: option.split)
qed (simp add: item_values_def map_filter_simps)

lemma present_items:
  "map_of (fold (item_args opts) items args) n \<noteq> None \<longleftrightarrow> n \<in> it_name ` set items \<or> map_of args n \<noteq> None"
proof (induction items arbitrary: args)
  case (Cons it items)
  have "map_of (item_args opts it args) n \<noteq> None \<longleftrightarrow> n = it_name it \<or> map_of args n \<noteq> None"
    using present_occurs [of opts "it_name it" args n]
    by (auto simp: item_args_def arg_value_def map_of_write simp del: not_None_eq split: option.split)
  with Cons [of "item_args opts it args"] show ?case by auto
qed simp

lemma render_clean:
  assumes "opts_ok opts" and "item_ok opts it" and "x \<in> set (render opts it)"
  shows "CHR 0x00 \<notin> set x"
proof -
  obtain c where c: "map_of opts (it_name it) = Some c" using item_okE [OF assms(1,2)] by metis
  have "CHR 0x00 \<notin> set (it_name it)" "CHR 0x00 \<notin> set (ac_shortName c)" using opts_okD(3,6) [OF assms(1) c] .
  with assms(2,3) c show ?thesis
    by (cases "it_style it") (auto simp: render_def item_ok_def split: option.splits)
qed

section \<open>Accepted command lines\<close>

text \<open>What holds in the parser's loop when \<open>w\<close> waits for its value.\<close>

definition args_inv :: "options \<Rightarrow> KString option \<Rightarrow> args \<Rightarrow> bool" where
  "args_inv opts w args \<longleftrightarrow> args_ok opts args \<and> (\<forall>n. w = Some n \<longrightarrow> map_of args n \<noteq> None) \<and>
     (\<forall>n a. map_of args n = Some a \<longrightarrow>
        (ac_valueType (snd (ca_config a)) = AV_NONE \<longrightarrow> ca_values a = []) \<and>
        (ac_valueType (snd (ca_config a)) = AV_REQUIRED \<longrightarrow>
           ca_count a = of_nat (length (ca_values a)) + (if w = Some n then 1 else 0)))"

lemma inv_idle:
  assumes "args_inv opts w args" and "\<not> arg_is requiresValue args w"
  shows "args_inv opts None args"
  using assms by (auto simp: args_inv_def arg_is_def requiresValue_def simp del: map_of_eq_Some_iff split: option.splits)

lemma inv_occurs:
  assumes "args_inv opts None args" and "map_of opts n \<noteq> None"
  shows "args_inv opts (Some n) (occurs opts n args)"
proof -
  have "args_ok opts (occurs opts n args)" using assms by (simp add: args_inv_def args_ok_occurs)
  then show ?thesis
    using assms
    by (auto simp: args_inv_def occurs_def arg_count_def map_of_write touch_def map_of_emplace CmdLineArg_create_def
        simp del: map_of_eq_Some_iff split: option.splits if_splits)
qed

lemma inv_value:
  assumes "args_inv opts (Some n) args" and "arg_is canHaveValue args (Some n)"
  shows "args_inv opts None (arg_value n v args)"
proof -
  have "args_ok opts (arg_value n v args)" using assms(1) by (simp add: args_inv_def args_ok_value)
  then show ?thesis
    using assms
    by (auto simp: args_inv_def arg_value_def map_of_write arg_is_def canHaveValue_def
        simp del: map_of_eq_Some_iff split: option.splits if_splits)
qed

lemma AddShortArg_cases:
  assumes "opts_ok opts" and "args_ok opts args"
  obtains "AddShortArg opts ch args = (None, args)"
  | n where "map_of opts n \<noteq> None" and "AddShortArg opts ch args = (Some n, touch opts n args)"
proof (cases "\<exists>n c. map_of opts n = Some c \<and> ac_shortName c = [ch]")
  case True
  with AddShortArg_touch [OF assms] that(2) show thesis by (metis option.discI)
next
  case False
  have none: "\<not> (hasShortName c \<and> ac_shortName c ! 0 = ch)" if "map_of opts n = Some c" for n c
    using False that opts_okD(4) [OF assms(1) that] by (cases "ac_shortName c") (auto simp: hasShortName_def)
  have "map_of opts n = Some (snd (ca_config a))" if "(n, a) \<in> set args" for n a
    using assms(2) that by (auto simp: args_ok_def)
  with none have "List.find (\<lambda>(_, a). hasShortName (snd (ca_config a)) \<and> ac_shortName (snd (ca_config a)) ! 0 = ch) args = None"
    by (force simp: find_None_iff)
  moreover have "List.find (\<lambda>(_, c). hasShortName c \<and> ac_shortName c ! 0 = ch) opts = None"
    using none assms(1) by (force simp: find_None_iff opts_ok_def)
  ultimately show thesis using that(1) by (simp add: AddShortArg_def)
qed

lemma inv_parse_short:
  assumes "opts_ok opts"
  shows "parse_short opts app cs args w = Inr (args', w') \<Longrightarrow> args_inv opts w args \<Longrightarrow> \<not> arg_is requiresValue args w \<Longrightarrow>
    args_inv opts w' args'"
proof (induction cs arbitrary: args w)
  case (Cons ch cs)
  have inv: "args_inv opts None args" using Cons.prems(2,3) by (rule inv_idle)
  then have "args_ok opts args" by (simp add: args_inv_def)
  with assms show ?case
  proof (cases rule: AddShortArg_cases [where ch = ch])
    case (2 n)
    have occ: "args_inv opts (Some n) (occurs opts n args)" using inv 2(1) by (rule inv_occurs)
    show ?thesis
    proof (cases "arg_is canHaveValue (occurs opts n args) (Some n)")
      case True
      with Cons.prems(1) 2(2) occ inv_value [OF occ True] show ?thesis
        by (auto simp: Let_def split: if_splits simp flip: occurs_def)
    next
      case False
      then have "\<not> arg_is requiresValue (occurs opts n args) (Some n)"
        by (auto simp: arg_is_def canHaveValue_def requiresValue_def split: option.splits)
      with Cons.IH [of "occurs opts n args" "Some n"] Cons.prems(1) 2(2) occ False show ?thesis
        by (simp add: Let_def flip: occurs_def)
    qed
  qed (use Cons.prems(1) in simp)
qed simp

lemma inv_parse_long:
  assumes "parse_long opts app arg args = Inr (args', w')" and "args_inv opts None args"
  shows "args_inv opts w' args'"
proof -
  let ?n = "takeWhile (\<lambda>c. c \<noteq> CHR ''='') (drop 2 arg)"
  have ok: "args_ok opts args" using assms(2) by (simp add: args_inv_def)
  have n: "map_of opts ?n \<noteq> None" using assms(1) by (auto simp: parse_long_def AddLongArg_touch [OF ok] Let_def split: if_splits)
  note occ = inv_occurs [OF assms(2) n]
  from assms(1) n occ inv_value [OF occ] show ?thesis
    by (auto simp: parse_long_def AddLongArg_touch [OF ok] Let_def split: if_splits simp flip: occurs_def)
qed

lemma inv_parse_loop:
  assumes "opts_ok opts"
  shows "parse_loop opts app argv st = Inr (st', left) \<Longrightarrow> args_inv opts (ps_waitingArg st) (ps_args st) \<Longrightarrow>
    args_inv opts (ps_waitingArg st') (ps_args st')"
proof (induction argv arbitrary: st)
  case (Cons arg argv)
  let ?w = "ps_waitingArg st" and ?args = "ps_args st"
  consider "arg_is requiresValue ?args ?w" "length arg > 1 \<and> arg ! 0 = CHR ''-''"
    | (option) "\<not> arg_is requiresValue ?args ?w" "length arg > 1 \<and> arg ! 0 = CHR ''-''"
    | (plain) "\<not> (length arg > 1 \<and> arg ! 0 = CHR ''-'')" by blast
  then show ?case
  proof cases
    case option
    note idle = inv_idle [OF Cons.prems(2) option(1)]
    show ?thesis
    proof (cases "arg ! 1 = CHR ''-''")
      case True
      with Cons.prems(1) option consider "arg = ''--''" "st' = st"
        | args w where "parse_long opts app arg ?args = Inr (args, w)"
            "parse_loop opts app argv (st\<lparr>ps_args := args, ps_waitingArg := w, ps_isWaitingArgShort := False\<rparr>) = Inr (st', left)"
        by (auto split: if_splits sum.splits)
      then show ?thesis
        using Cons.prems(2) Cons.IH inv_parse_long [OF _ idle] by cases auto
    next
      case False
      with Cons.prems(1) option obtain args w where "parse_short opts app (tl arg) ?args ?w = Inr (args, w)"
            "parse_loop opts app argv (st\<lparr>ps_args := args, ps_waitingArg := w, ps_isWaitingArgShort := True\<rparr>) = Inr (st', left)"
        by (auto split: if_splits sum.splits)
      then show ?thesis using Cons.IH inv_parse_short [OF assms _ Cons.prems(2) option(1)] by auto
    qed
  next
    case plain
    show ?thesis
    proof (cases "arg_is canHaveValue ?args ?w")
      case True
      then obtain n where w: "?w = Some n" by (auto simp: arg_is_def split: option.splits)
      have "args_inv opts None (arg_value n arg ?args)" using inv_value Cons.prems(2) True w by simp
      moreover have "parse_loop opts app argv (st\<lparr>ps_args := arg_value n arg ?args, ps_waitingArg := None\<rparr>) = Inr (st', left)"
        using Cons.prems(1) plain True w by (auto split: if_splits)
      ultimately show ?thesis using Cons.IH by fastforce
    next
      case False
      then have "parse_loop opts app argv (st\<lparr>ps_nonOptionArgs := ps_nonOptionArgs st @ [arg]\<rparr>) = Inr (st', left)"
        using Cons.prems(1) plain by (auto split: if_splits)
      then show ?thesis using Cons.IH Cons.prems(2) by fastforce
    qed
  qed (use Cons.prems in simp)
qed simp

section \<open>Properties\<close>

text \<open>
  C32: writing a command line and parsing it gives back the options. For options of the program in any
  of the four styles (\<open>--name=value\<close>, \<open>--name value\<close>, \<open>-nvalue\<close>, \<open>-n value\<close>), with a
  value where the option takes one, followed by \<open>--\<close> and any further arguments, the parser accepts
  the line; it has exactly the options that were written, each with the number of its occurrences
  (modulo \<open>2 ^ 32\<close>) and its values in order; and the further arguments are the non-option arguments.
\<close>

theorem command_line_roundtrip:
  assumes "\<forall>it \<in> set items. item_ok (OPTIONS dedicated) it"
    and "CHR 0x00 \<notin> set app" and "\<forall>x \<in> set rest. CHR 0x00 \<notin> set x"
  shows "\<exists>cm. CmdLine_parse (OPTIONS dedicated) (app # concat (map (render (OPTIONS dedicated)) items) @ ''--'' # rest) = Inr cm
    \<and> cm_nonOptionArgs cm = rest
    \<and> (\<forall>n. case getArg n cm of
          None \<Rightarrow> n \<notin> it_name ` set items
        | Some a \<Rightarrow> n \<in> it_name ` set items \<and> ca_values a = item_values n items
            \<and> ca_count a = of_nat (length (filter (\<lambda>it. it_name it = n) items)))"
proof -
  let ?opts = "OPTIONS dedicated"
  let ?argv = "concat (map (render ?opts) items) @ ''--'' # rest"
  have "CHR 0x00 \<notin> set x" if "x \<in> set (app # ?argv)" for x
    using that assms render_clean [OF OPTIONS_ok, of dedicated] by auto
  then have clean: "map KString_of_cstr (app # ?argv) = app # ?argv"
    by (intro map_idI KString_of_cstr_id)
  have init: "args_ok ?opts (ps_args parse_init)" "idle parse_init"
    by (simp_all add: parse_init_def args_ok_def idle_def arg_is_def)
  obtain st where st: "parse_loop ?opts app ?argv parse_init = parse_loop ?opts app (''--'' # rest) st" "idle st"
    "ps_args st = fold (item_args ?opts) items []" "ps_nonOptionArgs st = []"
    using parse_items [OF OPTIONS_ok assms(1) init, of app "''--'' # rest"]
    by (auto simp: parse_init_def simp del: parse_loop.simps)
  have loop: "parse_loop ?opts app (''--'' # rest) st = Inr (st, rest)" using st(2) by (simp add: idle_def)
  let ?cm = "\<lparr>cm_args = ps_args st, cm_nonOptionArgs = rest\<rparr>"
  have "CmdLine_parse ?opts (app # ?argv) = Inr ?cm"
    using st(2,4) unfolding CmdLine_parse_def clean by (simp add: st(1) loop idle_def del: parse_loop.simps)
  moreover have "case getArg n ?cm of
          None \<Rightarrow> n \<notin> it_name ` set items
        | Some a \<Rightarrow> n \<in> it_name ` set items \<and> ca_values a = item_values n items
            \<and> ca_count a = of_nat (length (filter (\<lambda>it. it_name it = n) items))" for n
    using obs_items [of ?opts items "[]" n] present_items [of ?opts items "[]" n]
    by (auto simp: getArg_def st(3) obs_def split: option.splits)
  ultimately show ?thesis by auto
qed

definition sample_items :: "item list" where
  "sample_items = [\<lparr>it_style = Short_joined, it_name = ''verbose'', it_value = None\<rparr>,
     \<lparr>it_style = Short_apart, it_name = ''connect'', it_value = Some ''host''\<rparr>,
     \<lparr>it_style = Long_joined, it_name = ''verbose'', it_value = None\<rparr>,
     \<lparr>it_style = Long_joined, it_name = ''port'', it_value = Some ''-1''\<rparr>]"

theorem command_line_roundtrip_witness:
  "concat (map (render (OPTIONS False)) sample_items) = [''-v'', ''-c'', ''host'', ''--verbose'', ''--port=-1'']
    \<and> (\<exists>cm. CmdLine_parse (OPTIONS False) [''conntop'', ''-v'', ''-c'', ''host'', ''--verbose'', ''--port=-1'', ''--'', ''-x''] = Inr cm
      \<and> cm_nonOptionArgs cm = [''-x''] \<and> map_option ca_count (getArg ''verbose'' cm) = Some 2
      \<and> map_option ca_values (getArg ''port'' cm) = Some [''-1''])"
proof -
  have r: "concat (map (render (OPTIONS False)) sample_items) = [''-v'', ''-c'', ''host'', ''--verbose'', ''--port=-1'']"
    and ok: "\<forall>it \<in> set sample_items. item_ok (OPTIONS False) it"
    by code_simp+
  have v: "''verbose'' \<in> it_name ` set sample_items" "''port'' \<in> it_name ` set sample_items"
    "length (filter (\<lambda>it. it_name it = ''verbose'') sample_items) = 2" "item_values ''port'' sample_items = [''-1'']"
    by (auto simp: sample_items_def item_values_def map_filter_simps)
  from command_line_roundtrip [OF ok, of "''conntop''" "[''-x'']"] r obtain cm
    where cm: "CmdLine_parse (OPTIONS False) [''conntop'', ''-v'', ''-c'', ''host'', ''--verbose'', ''--port=-1'', ''--'', ''-x''] = Inr cm"
      "cm_nonOptionArgs cm = [''-x'']"
      and a: "\<And>n. case getArg n cm of
          None \<Rightarrow> n \<notin> it_name ` set sample_items
        | Some a \<Rightarrow> n \<in> it_name ` set sample_items \<and> ca_values a = item_values n sample_items
            \<and> ca_count a = of_nat (length (filter (\<lambda>it. it_name it = n) sample_items))" by auto
  from a [of "''verbose''"] a [of "''port''"] v cm r show ?thesis by (auto split: option.splits)
qed

text \<open>
  C33: a command line that is accepted is consistent, whatever it is: every argument is an option of the
  program, an option that takes no value has none, and an option that requires a value has as many
  values as it has occurrences (modulo \<open>2 ^ 32\<close>).
\<close>

theorem accepted_command_line_consistent:
  assumes "CmdLine_parse (OPTIONS dedicated) argv = Inr cm" and "getArg n cm = Some a"
  shows "ca_config a = (n, the (map_of (OPTIONS dedicated) n)) \<and> map_of (OPTIONS dedicated) n \<noteq> None
    \<and> (\<not> canHaveValue a \<longrightarrow> ca_values a = [])
    \<and> (requiresValue a \<longrightarrow> ca_count a = of_nat (length (ca_values a)))"
proof -
  obtain app more where argv: "map KString_of_cstr argv = app # more"
    using assms by (cases "map KString_of_cstr argv") (auto simp: CmdLine_parse_def getArg_def)
  with assms(1) obtain st left where l: "parse_loop (OPTIONS dedicated) app more parse_init = Inr (st, left)"
    and w: "\<not> arg_is requiresValue (ps_args st) (ps_waitingArg st)" and cm: "cm_args cm = ps_args st"
    by (auto simp: CmdLine_parse_def Let_def split: sum.splits if_splits)
  have "args_inv (OPTIONS dedicated) (ps_waitingArg parse_init) (ps_args parse_init)"
    by (simp add: args_inv_def args_ok_def parse_init_def)
  from inv_idle [OF inv_parse_loop [OF OPTIONS_ok l this] w] assms(2) show ?thesis
    by (auto simp: args_inv_def args_ok_def getArg_def cm prod_eq_iff canHaveValue_def requiresValue_def simp del: map_of_eq_Some_iff)
qed

theorem accepted_command_line_consistent_witness:
  "\<exists>cm a. CmdLine_parse (OPTIONS False) [''conntop'', ''-vc'', ''host''] = Inr cm \<and> getArg ''connect'' cm = Some a
    \<and> ca_values a = [''host''] \<and> ca_count a = of_nat (length (ca_values a))"
proof -
  let ?r = "CmdLine_parse (OPTIONS False) [''conntop'', ''-vc'', ''host'']"
  have "isl ?r = False" "map_option ca_values (getArg ''connect'' (projr ?r)) = Some [''host'']"
    "map_option requiresValue (getArg ''connect'' (projr ?r)) = Some True" by code_simp+
  then obtain cm a where p: "?r = Inr cm" "getArg ''connect'' cm = Some a" "ca_values a = [''host'']" "requiresValue a"
    by (cases ?r) auto
  with accepted_command_line_consistent [OF p(1,2)] show ?thesis by blast
qed

end
