(* ===== verification/Poll.thy ===== *)
theory Poll
  imports StdMap
begin

text \<open>
  \<^verbatim>\<open>PollHandle\<close>, \<^verbatim>\<open>PollSystem\<close> and \<^verbatim>\<open>SelfPipe\<close>
  (\<^verbatim>\<open>Platform/Unix\<close>): the table of descriptors given to \<open>poll\<close>, with one-shot events,
  and the exchange between the main thread, which registers descriptors, and the poll thread, which
  waits. A descriptor that has had its event is negated until it is reset. The steps of both threads
  interleave; a request is pushed in two steps, since the poll thread may run between \<open>enqueue\<close>
  and the write to the pipe. The answers of \<open>poll\<close> are arguments. A callback is a number.
\<close>

unbundle bit_operations_syntax

section \<open>Flags and events\<close>

type_synonym short = "16 word"

definition "POLLIN = (0x001 :: short)"
definition "POLLOUT = (0x004 :: short)"
definition "POLLERR = (0x008 :: short)"
definition "POLLHUP = (0x010 :: short)"
definition "POLLNVAL = (0x020 :: short)"

definition "EPollFlags_INPUT = (1 :: u32)"
definition "EPollFlags_OUTPUT = (2 :: u32)"
definition "EPollFlags_ERROR = (4 :: u32)"

definition FlagsToEvents :: "u32 \<Rightarrow> short" where
  "FlagsToEvents flags =
     (let events = (if flags AND EPollFlags_INPUT \<noteq> 0 then POLLIN else 0)
      in if flags AND EPollFlags_OUTPUT \<noteq> 0 then events OR POLLOUT else events)"

definition EventsToFlags :: "short \<Rightarrow> u32" where
  "EventsToFlags events =
     (let f1 = (if events AND POLLIN \<noteq> 0 then EPollFlags_INPUT else 0);
          f2 = (if events AND POLLOUT \<noteq> 0 then f1 OR EPollFlags_OUTPUT else f1)
      in if events AND POLLERR \<noteq> 0 \<or> events AND POLLHUP \<noteq> 0 \<or> events AND POLLNVAL \<noteq> 0
         then f2 OR EPollFlags_ERROR else f2)"

section \<open>PollHandle\<close>

record pollfd =
  pf_fd :: int
  pf_events :: short
  pf_revents :: short

record PollEvent =
  pe_fd :: int
  pe_flags :: u32
  pe_hasError :: bool
  pe_hasHangUp :: bool
  pe_hasInvalidFD :: bool

definition PollEvent_empty :: PollEvent where
  "PollEvent_empty = \<lparr>pe_fd = - 1, pe_flags = 0, pe_hasError = False, pe_hasHangUp = False, pe_hasInvalidFD = False\<rparr>"

definition pe_isEmpty :: "PollEvent \<Rightarrow> bool" where
  "pe_isEmpty e \<longleftrightarrow> pe_fd e < 0"

record PollHandle =
  ph_descriptors :: "pollfd list"
  ph_eventIndex :: int

definition PollHandle_create :: PollHandle where
  "PollHandle_create = \<lparr>ph_descriptors = [], ph_eventIndex = - 1\<rparr>"

definition INT_MIN :: int where
  "INT_MIN = - (2 ^ 31)"

definition negativeFD :: "int \<Rightarrow> int" where
  "negativeFD fd = (if fd = 0 then INT_MIN else - fd)"

definition ph_add :: "int \<Rightarrow> u32 \<Rightarrow> PollHandle \<Rightarrow> PollHandle" where
  "ph_add fd flags h =
     h\<lparr>ph_descriptors := ph_descriptors h @ [\<lparr>pf_fd = fd, pf_events = FlagsToEvents flags, pf_revents = 0\<rparr>]\<rparr>"

fun reset_first :: "int \<Rightarrow> u32 \<Rightarrow> pollfd list \<Rightarrow> pollfd list" where
  "reset_first fd flags [] = []"
| "reset_first fd flags (d # ds) =
     (if pf_fd d = fd \<or> pf_fd d = negativeFD fd then d\<lparr>pf_fd := fd, pf_events := FlagsToEvents flags\<rparr> # ds
      else d # reset_first fd flags ds)"

definition ph_reset :: "int \<Rightarrow> u32 \<Rightarrow> PollHandle \<Rightarrow> PollHandle" where
  "ph_reset fd flags h = h\<lparr>ph_descriptors := reset_first fd flags (ph_descriptors h)\<rparr>"

definition ph_remove :: "int \<Rightarrow> PollHandle \<Rightarrow> PollHandle" where
  "ph_remove fd h =
     h\<lparr>ph_descriptors := filter (\<lambda>d. \<not> (pf_fd d = fd \<or> pf_fd d = negativeFD fd)) (ph_descriptors h)\<rparr>"

text \<open>
  \<open>poll\<close> fills in the returned events and counts the descriptors that have some, or is
  interrupted, or fails.
\<close>

datatype poll_result = Poll_ready "short list" | Poll_interrupted | Poll_failed

definition ph_wait :: "poll_result \<Rightarrow> PollHandle \<Rightarrow> string option \<times> PollHandle" where
  "ph_wait res h =
     (case res of
        Poll_ready revents \<Rightarrow>
          (None, h\<lparr>ph_descriptors := map2 (\<lambda>d r. d\<lparr>pf_revents := r\<rparr>) (ph_descriptors h) revents,
                   ph_eventIndex := (if list_ex (\<lambda>r. r \<noteq> 0) revents then 0 else - 1)\<rparr>)
      | Poll_interrupted \<Rightarrow> (None, h\<lparr>ph_eventIndex := - 1\<rparr>)
      | Poll_failed \<Rightarrow> (Some ''Poll failed'', h))"

text \<open>The search from \<open>m_eventIndex\<close> on: the position of the next descriptor with events.\<close>

fun next_index :: "nat \<Rightarrow> pollfd list \<Rightarrow> nat option" where
  "next_index i [] = None"
| "next_index i (d # ds) = (if pf_revents d \<noteq> 0 then Some i else next_index (Suc i) ds)"

definition ph_getNextEvent :: "PollHandle \<Rightarrow> PollEvent \<times> PollHandle" where
  "ph_getNextEvent h =
     (if ph_eventIndex h \<ge> 0
      then
        (let start = nat (ph_eventIndex h)
         in case next_index start (drop start (ph_descriptors h)) of
              Some i \<Rightarrow>
                let d = ph_descriptors h ! i; events = pf_revents d
                in (\<lparr>pe_fd = pf_fd d, pe_flags = EventsToFlags events, pe_hasError = (events AND POLLERR \<noteq> 0),
                     pe_hasHangUp = (events AND POLLHUP \<noteq> 0), pe_hasInvalidFD = (events AND POLLNVAL \<noteq> 0)\<rparr>,
                    h\<lparr>ph_descriptors := (ph_descriptors h)[i := d\<lparr>pf_fd := negativeFD (pf_fd d)\<rparr>], ph_eventIndex := int i + 1\<rparr>)
            | None \<Rightarrow> (PollEvent_empty, h\<lparr>ph_eventIndex := - 1\<rparr>))
      else (PollEvent_empty, h))"

section \<open>PollSystem\<close>

datatype PollRequest = PR_ADD int u32 | PR_RESET int u32 | PR_REMOVE int

text \<open>
  Where the poll thread is: before \<open>poll\<close>, in the loop over the events (with
  \<open>checkRequestQueue\<close>), in the loop over the requests. \<open>ps_waking\<close> says that the main thread
  has yet to write to the pipe. \<open>ps_events\<close> are the events on their way through the event system.
  \<open>ps_armed\<close> and \<open>ps_fired\<close> list the descriptors that the poll thread was asked to watch and
  those it reported; they are not part of the program.
\<close>

datatype poll_thread = Waiting | Events bool | Requests

record PollSystem =
  ps_callbackMap :: "(int, nat) umap"
  ps_requestQueue :: "PollRequest list"
  ps_pipe :: nat
  ps_waking :: bool
  ps_handle :: PollHandle
  ps_thread :: poll_thread
  ps_events :: "PollEvent list"
  ps_calls :: "(nat \<times> u32) list"
  ps_armed :: "int list"
  ps_fired :: "int list"

definition PollSystem_create :: "int \<Rightarrow> PollSystem" where
  "PollSystem_create pipeFD =
     \<lparr>ps_callbackMap = [], ps_requestQueue = [], ps_pipe = 0, ps_waking = False,
      ps_handle = ph_add pipeFD EPollFlags_INPUT PollHandle_create, ps_thread = Waiting, ps_events = [], ps_calls = [],
      ps_armed = [pipeFD], ps_fired = []\<rparr>"

subsection \<open>The main thread\<close>

definition ps_enqueue :: "PollRequest \<Rightarrow> PollSystem \<Rightarrow> PollSystem" where
  "ps_enqueue r s = s\<lparr>ps_requestQueue := ps_requestQueue s @ [r], ps_waking := True\<rparr>"

text \<open>A write to a full pipe fails silently.\<close>

definition wakePollThread :: "bool \<Rightarrow> PollSystem \<Rightarrow> PollSystem" where
  "wakePollThread full s = s\<lparr>ps_waking := False, ps_pipe := (if full then ps_pipe s else ps_pipe s + 1)\<rparr>"

definition addFD :: "int \<Rightarrow> u32 \<Rightarrow> nat \<Rightarrow> PollSystem \<Rightarrow> PollSystem" where
  "addFD fd flags callback s =
     (if um_find fd (ps_callbackMap s) \<noteq> None then s
      else ps_enqueue (PR_ADD fd flags) (s\<lparr>ps_callbackMap := um_emplace fd callback (ps_callbackMap s)\<rparr>))"

definition resetFD :: "int \<Rightarrow> u32 \<Rightarrow> PollSystem \<Rightarrow> PollSystem" where
  "resetFD fd flags s = ps_enqueue (PR_RESET fd flags) s"

definition removeFD :: "int \<Rightarrow> PollSystem \<Rightarrow> PollSystem" where
  "removeFD fd s =
     (if um_find fd (ps_callbackMap s) \<noteq> None
      then ps_enqueue (PR_REMOVE fd) (s\<lparr>ps_callbackMap := um_erase fd (ps_callbackMap s)\<rparr>) else s)"

definition ps_onEvent :: "PollSystem \<Rightarrow> PollSystem" where
  "ps_onEvent s =
     (case ps_events s of
        [] \<Rightarrow> s
      | e # es \<Rightarrow>
          (case um_find (pe_fd e) (ps_callbackMap s) of
             None \<Rightarrow> s\<lparr>ps_events := es\<rparr>
           | Some callback \<Rightarrow> s\<lparr>ps_events := es, ps_calls := ps_calls s @ [(callback, pe_flags e)]\<rparr>))"

subsection \<open>The poll thread\<close>

definition poll_wait :: "poll_result \<Rightarrow> PollSystem \<Rightarrow> PollSystem option" where
  "poll_wait res s =
     (case ph_wait res (ps_handle s) of
        (None, h) \<Rightarrow> Some (s\<lparr>ps_handle := h, ps_thread := Events False\<rparr>)
      | (Some _, _) \<Rightarrow> None)"

definition poll_event :: "int \<Rightarrow> PollSystem \<Rightarrow> PollSystem" where
  "poll_event pipeFD s =
     (let check = (ps_thread s = Events True); (e, h) = ph_getNextEvent (ps_handle s)
      in if pe_isEmpty e then s\<lparr>ps_handle := h, ps_thread := (if check then Requests else Waiting)\<rparr>
         else if pe_fd e = pipeFD
         then s\<lparr>ps_pipe := 0, ps_handle := ph_reset pipeFD EPollFlags_INPUT h, ps_thread := Events True,
                ps_armed := ps_armed s @ [pipeFD], ps_fired := ps_fired s @ [pipeFD]\<rparr>
         else s\<lparr>ps_handle := h, ps_events := ps_events s @ [e], ps_fired := ps_fired s @ [pe_fd e]\<rparr>)"

definition poll_request :: "PollSystem \<Rightarrow> PollSystem" where
  "poll_request s =
     (case ps_requestQueue s of
        [] \<Rightarrow> s\<lparr>ps_thread := Waiting\<rparr>
      | r # rs \<Rightarrow>
          let s1 = s\<lparr>ps_requestQueue := rs\<rparr>
          in case r of
               PR_RESET fd flags \<Rightarrow> s1\<lparr>ps_handle := ph_reset fd flags (ps_handle s1), ps_armed := ps_armed s1 @ [fd]\<rparr>
             | PR_ADD fd flags \<Rightarrow> s1\<lparr>ps_handle := ph_add fd flags (ps_handle s1), ps_armed := ps_armed s1 @ [fd]\<rparr>
             | PR_REMOVE fd \<Rightarrow> s1\<lparr>ps_handle := ph_remove fd (ps_handle s1)\<rparr>)"

end
