(* ===== verification/PollProps.thy ===== *)
theory PollProps
  imports Poll
begin

text \<open>
  The poll system under all interleavings of its two threads: no request gets lost, the descriptors
  given to \<open>poll\<close> are the registered ones, and a descriptor is reported at most once each time it is
  armed.
\<close>

section \<open>Descriptors and their negated form\<close>

definition valid_fd :: "int \<Rightarrow> bool" where
  "valid_fd fd \<longleftrightarrow> 0 \<le> fd \<and> fd < 2 ^ 31"

definition abs_fd :: "int \<Rightarrow> int" where
  "abs_fd fd = (if fd = INT_MIN then 0 else \<bar>fd\<bar>)"

definition desc_ok :: "pollfd \<Rightarrow> bool" where
  "desc_ok d \<longleftrightarrow> - (2 ^ 31) \<le> pf_fd d \<and> pf_fd d < 2 ^ 31"

lemma negative_fd [simp]:
  assumes "valid_fd fd"
  shows "negativeFD fd < 0" and "abs_fd (negativeFD fd) = fd" and "abs_fd fd = fd" and "- (2 ^ 31) \<le> negativeFD fd"
  using assms by (auto simp: valid_fd_def negativeFD_def abs_fd_def INT_MIN_def)

lemma match_fd: "valid_fd fd \<Longrightarrow> desc_ok d \<Longrightarrow> pf_fd d = fd \<or> pf_fd d = negativeFD fd \<longleftrightarrow> abs_fd (pf_fd d) = fd"
  by (auto simp: valid_fd_def desc_ok_def negativeFD_def abs_fd_def INT_MIN_def)

lemma desc_ok_fd [simp]: "valid_fd fd \<Longrightarrow> desc_ok (d\<lparr>pf_fd := fd, pf_events := e\<rparr>)"
  "valid_fd fd \<Longrightarrow> desc_ok (d\<lparr>pf_fd := negativeFD fd\<rparr>)" "desc_ok (d\<lparr>pf_revents := r\<rparr>) = desc_ok d"
  by (auto simp: valid_fd_def desc_ok_def negativeFD_def INT_MIN_def)

definition fds :: "pollfd list \<Rightarrow> int list" where
  "fds ds = map (abs_fd \<circ> pf_fd) ds"

definition watched :: "pollfd list \<Rightarrow> int \<Rightarrow> nat" where
  "watched ds f = count_list (map pf_fd ds) f"

definition pipe_watched :: "int \<Rightarrow> pollfd list \<Rightarrow> bool" where
  "pipe_watched p ds \<longleftrightarrow> (\<exists>d \<in> set ds. pf_fd d = p \<and> pf_events d AND POLLIN \<noteq> 0)"

text \<open>What an operation on the table changes.\<close>

lemma reset_first_table:
  assumes "valid_fd fd" and "\<forall>d \<in> set ds. desc_ok d"
  shows "fds (reset_first fd flags ds) = fds ds" and "\<forall>d \<in> set (reset_first fd flags ds). desc_ok d"
    and "watched (reset_first fd flags ds) f \<le> watched ds f + (if f = fd then 1 else 0)"
    and "length (reset_first fd flags ds) = length ds"
    and "\<And>i. i < length ds \<Longrightarrow> pf_revents (reset_first fd flags ds ! i) = pf_revents (ds ! i)
          \<and> (0 \<le> pf_fd (ds ! i) \<longrightarrow> 0 \<le> pf_fd (reset_first fd flags ds ! i))"
    and "p \<noteq> fd \<Longrightarrow> valid_fd p \<Longrightarrow> pipe_watched p ds \<Longrightarrow> pipe_watched p (reset_first fd flags ds)"
    and "fd \<in> set (fds ds) \<Longrightarrow> flags AND EPollFlags_INPUT \<noteq> 0 \<Longrightarrow> pipe_watched fd (reset_first fd flags ds)"
  using assms(2)
proof (induction ds)
  case (Cons d ds)
  note m = match_fd [OF assms(1), of d]
  {
    case 1
    then show ?case using Cons m assms(1) by (auto simp: fds_def)
  next
    case 2
    then show ?case using Cons assms(1) by auto
  next
    case 3
    then show ?case using Cons(3) by (auto simp: watched_def)
  next
    case 4
    then show ?case using Cons by auto
  next
    case (5 i)
    then show ?case using Cons(5) assms(1) by (cases i) (auto simp: valid_fd_def)
  next
    case 6
    then show ?case using Cons(6) assms(1)
      by (auto simp: pipe_watched_def) (auto simp: valid_fd_def negativeFD_def INT_MIN_def split: if_splits)
  next
    case 7
    then show ?case using Cons(7) m by (auto simp: pipe_watched_def fds_def FlagsToEvents_def POLLIN_def POLLOUT_def Let_def)
  }
qed (simp_all add: fds_def watched_def pipe_watched_def)

lemma remove_table:
  assumes "valid_fd fd" and "\<forall>d \<in> set ds. desc_ok d"
  defines "ds' \<equiv> filter (\<lambda>d. \<not> (pf_fd d = fd \<or> pf_fd d = negativeFD fd)) ds"
  shows "fds ds' = filter (\<lambda>f. f \<noteq> fd) (fds ds)" and "watched ds' f \<le> watched ds f"
    and "p \<noteq> fd \<Longrightarrow> valid_fd p \<Longrightarrow> pipe_watched p ds \<Longrightarrow> pipe_watched p ds'"
proof -
  have "ds' = filter (\<lambda>d. abs_fd (pf_fd d) \<noteq> fd) ds"
    unfolding ds'_def using assms(2) match_fd [OF assms(1)] by (intro filter_cong) auto
  then show "fds ds' = filter (\<lambda>f. f \<noteq> fd) (fds ds)" by (simp add: fds_def filter_map o_def)
  show "watched ds' f \<le> watched ds f"
    unfolding ds'_def watched_def by (induction ds) auto
  show "p \<noteq> fd \<Longrightarrow> valid_fd p \<Longrightarrow> pipe_watched p ds \<Longrightarrow> pipe_watched p ds'"
    using assms(1) unfolding ds'_def pipe_watched_def
    by (auto simp: valid_fd_def negativeFD_def INT_MIN_def split: if_splits)
qed

lemma next_index_Some: "next_index i ds = Some j \<Longrightarrow> i \<le> j \<and> j < i + length ds \<and> pf_revents (ds ! (j - i)) \<noteq> 0"
proof (induction ds arbitrary: i)
  case (Cons d ds)
  show ?case
  proof (cases "pf_revents d = 0")
    case True
    with Cons.prems Cons.IH [of "Suc i"] have j: "Suc i \<le> j" "j < Suc i + length ds" "pf_revents (ds ! (j - Suc i)) \<noteq> 0" by auto
    then have "j - i = Suc (j - Suc i)" by simp
    with j show ?thesis by simp
  next
    case False
    with Cons.prems show ?thesis by simp
  qed
qed simp

lemma count_list_update: "i < length xs \<Longrightarrow> count_list (xs[i := y]) x + (if xs ! i = x then 1 else 0) = count_list xs x + (if y = x then 1 else 0)"
proof (induction xs arbitrary: i)
  case (Cons z xs)
  show ?case using Cons.prems Cons.IH [of "i - 1"] by (cases i) auto
qed simp

text \<open>The table while the poll thread goes through the events: those still to come belong to watched descriptors.\<close>

definition handle_ok :: "PollHandle \<Rightarrow> bool" where
  "handle_ok h \<longleftrightarrow> (\<forall>d \<in> set (ph_descriptors h). desc_ok d) \<and> - 1 \<le> ph_eventIndex h \<and>
     (\<forall>i < length (ph_descriptors h). 0 \<le> ph_eventIndex h \<longrightarrow> nat (ph_eventIndex h) \<le> i \<longrightarrow>
        pf_revents (ph_descriptors h ! i) \<noteq> 0 \<longrightarrow> 0 \<le> pf_fd (ph_descriptors h ! i))"

lemma getNextEvent_table:
  assumes "handle_ok h" and "ph_getNextEvent h = (e, h')"
  shows "pe_isEmpty e \<Longrightarrow> h' = h\<lparr>ph_eventIndex := - 1\<rparr>"
    and "\<not> pe_isEmpty e \<Longrightarrow> valid_fd (pe_fd e) \<and> handle_ok h' \<and> fds (ph_descriptors h') = fds (ph_descriptors h)"
    and "\<not> pe_isEmpty e \<Longrightarrow> 0 \<le> f \<Longrightarrow>
      watched (ph_descriptors h') f + (if f = pe_fd e then 1 else 0) = watched (ph_descriptors h) f"
    and "\<not> pe_isEmpty e \<Longrightarrow> p \<noteq> pe_fd e \<Longrightarrow> pipe_watched p (ph_descriptors h) \<Longrightarrow> pipe_watched p (ph_descriptors h')"
    and "\<not> pe_isEmpty e \<Longrightarrow> pe_fd e \<in> set (fds (ph_descriptors h))"
proof -
  let ?ds = "ph_descriptors h" and ?s = "nat (ph_eventIndex h)"
  show "h' = h\<lparr>ph_eventIndex := - 1\<rparr>" if "pe_isEmpty e"
  proof (cases "0 \<le> ph_eventIndex h")
    case True
    show ?thesis
    proof (cases "next_index ?s (drop ?s ?ds)")
      case (Some i)
      from next_index_Some [OF Some] have i: "?s \<le> i" "i < length ?ds" "pf_revents (?ds ! i) \<noteq> 0" by auto
      then have "0 \<le> pf_fd (?ds ! i)" using assms(1) True by (simp add: handle_ok_def)
      with that assms(2) True Some show ?thesis by (auto simp: ph_getNextEvent_def Let_def pe_isEmpty_def)
    qed (use True assms(2) in \<open>auto simp: ph_getNextEvent_def Let_def\<close>)
  qed (use assms in \<open>auto simp: ph_getNextEvent_def handle_ok_def\<close>)
  assume ne: "\<not> pe_isEmpty e"
  then have pos: "0 \<le> ph_eventIndex h" using assms(2) by (auto simp: ph_getNextEvent_def pe_isEmpty_def PollEvent_empty_def split: if_splits)
  with ne assms(2) obtain i where "next_index ?s (drop ?s ?ds) = Some i"
    by (auto simp: ph_getNextEvent_def Let_def pe_isEmpty_def PollEvent_empty_def split: option.splits)
  note i' = next_index_Some [OF this]
  then have i: "?s \<le> i" "i < length ?ds" "pf_revents (?ds ! i) \<noteq> 0" by auto
  have h': "pe_fd e = pf_fd (?ds ! i)" "h' = h\<lparr>ph_descriptors := ?ds[i := (?ds ! i)\<lparr>pf_fd := negativeFD (pf_fd (?ds ! i))\<rparr>],
      ph_eventIndex := int i + 1\<rparr>"
    using assms(2) pos \<open>next_index ?s (drop ?s ?ds) = Some i\<close> by (auto simp: ph_getNextEvent_def Let_def)
  have d: "desc_ok (?ds ! i)" "0 \<le> pf_fd (?ds ! i)" using assms(1) i pos by (auto simp: handle_ok_def)
  then have v: "valid_fd (pf_fd (?ds ! i))" by (simp add: desc_ok_def valid_fd_def)
  have "handle_ok h'"
    using assms(1) i pos v
    by (auto simp: handle_ok_def h' nth_list_update dest!: set_update_subset_insert [THEN subsetD])
  moreover have "fds (ph_descriptors h') = fds ?ds"
    using i(2) v by (auto simp: fds_def h' map_update intro!: list_update_same_conv [THEN iffD2])
  ultimately show "valid_fd (pe_fd e) \<and> handle_ok h' \<and> fds (ph_descriptors h') = fds (ph_descriptors h)"
    using v h'(1) by simp
  show "watched (ph_descriptors h') f + (if f = pe_fd e then 1 else 0) = watched ?ds f" if "0 \<le> f"
    using count_list_update [of i "map pf_fd ?ds" "negativeFD (pf_fd (?ds ! i))" f] i(2) that negative_fd(1) [OF v]
    by (auto simp: watched_def h' map_update split: if_splits)
  show "pipe_watched p (ph_descriptors h')" if "p \<noteq> pe_fd e" and pw: "pipe_watched p ?ds"
  proof -
    obtain j where "j < length ?ds" "pf_fd (?ds ! j) = p" "pf_events (?ds ! j) AND POLLIN \<noteq> 0"
      using pw by (auto simp: pipe_watched_def in_set_conv_nth)
    moreover from this that(1) h'(1) have "j \<noteq> i" by auto
    ultimately have "j < length (ph_descriptors h')" "pf_fd (ph_descriptors h' ! j) = p"
      "pf_events (ph_descriptors h' ! j) AND POLLIN \<noteq> 0"
      by (simp_all add: h')
    then show ?thesis unfolding pipe_watched_def using nth_mem by blast
  qed
  show "pe_fd e \<in> set (fds ?ds)" using i(2) v h'(1) by (force simp: fds_def in_set_conv_nth)
qed

section \<open>Reachable states\<close>

text \<open>The manual of \<open>poll\<close>: a negative descriptor is ignored and its returned events are zero.\<close>

definition kernel_ok :: "poll_result \<Rightarrow> PollHandle \<Rightarrow> bool" where
  "kernel_ok res h \<longleftrightarrow>
     (case res of
        Poll_ready revents \<Rightarrow> length revents = length (ph_descriptors h) \<and>
          (\<forall>i < length revents. pf_fd (ph_descriptors h ! i) < 0 \<longrightarrow> revents ! i = 0)
      | _ \<Rightarrow> True)"

text \<open>The main thread uses its own descriptors, never the one of the pipe.\<close>

inductive poll_reach :: "int \<Rightarrow> PollSystem \<Rightarrow> bool" for pipeFD where
  pr_create: "valid_fd pipeFD \<Longrightarrow> poll_reach pipeFD (PollSystem_create pipeFD)"
| pr_add: "poll_reach pipeFD s \<Longrightarrow> \<not> ps_waking s \<Longrightarrow> valid_fd fd \<Longrightarrow> fd \<noteq> pipeFD \<Longrightarrow> poll_reach pipeFD (addFD fd flags callback s)"
| pr_reset: "poll_reach pipeFD s \<Longrightarrow> \<not> ps_waking s \<Longrightarrow> valid_fd fd \<Longrightarrow> fd \<noteq> pipeFD \<Longrightarrow> poll_reach pipeFD (resetFD fd flags s)"
| pr_remove: "poll_reach pipeFD s \<Longrightarrow> \<not> ps_waking s \<Longrightarrow> valid_fd fd \<Longrightarrow> fd \<noteq> pipeFD \<Longrightarrow> poll_reach pipeFD (removeFD fd s)"
| pr_wake: "poll_reach pipeFD s \<Longrightarrow> ps_waking s \<Longrightarrow> full \<longrightarrow> ps_pipe s > 0 \<Longrightarrow> poll_reach pipeFD (wakePollThread full s)"
| pr_call: "poll_reach pipeFD s \<Longrightarrow> \<not> ps_waking s \<Longrightarrow> poll_reach pipeFD (ps_onEvent s)"
| pr_wait: "poll_reach pipeFD s \<Longrightarrow> ps_thread s = Waiting \<Longrightarrow> kernel_ok res (ps_handle s) \<Longrightarrow> poll_wait res s = Some s' \<Longrightarrow>
    poll_reach pipeFD s'"
| pr_event: "poll_reach pipeFD s \<Longrightarrow> ps_thread s = Events b \<Longrightarrow> poll_reach pipeFD (poll_event pipeFD s)"
| pr_request: "poll_reach pipeFD s \<Longrightarrow> ps_thread s = Requests \<Longrightarrow> poll_reach pipeFD (poll_request s)"

text \<open>The table, after the requests that are still waiting, has the registered descriptors.\<close>

fun request_fd :: "PollRequest \<Rightarrow> int" where
  "request_fd (PR_ADD fd _) = fd"
| "request_fd (PR_RESET fd _) = fd"
| "request_fd (PR_REMOVE fd) = fd"

fun apply_request :: "PollRequest \<Rightarrow> int list \<Rightarrow> int list" where
  "apply_request (PR_ADD fd _) L = L @ [fd]"
| "apply_request (PR_RESET _ _) L = L"
| "apply_request (PR_REMOVE fd) L = filter (\<lambda>f. f \<noteq> fd) L"

fun agrees :: "int \<Rightarrow> int set \<Rightarrow> int list \<Rightarrow> PollRequest list \<Rightarrow> bool" where
  "agrees p K L [] \<longleftrightarrow> distinct L \<and> set L = insert p K"
| "agrees p K L (r # rs) \<longleftrightarrow> distinct L \<and> p \<in> set L \<and> valid_fd (request_fd r) \<and> request_fd r \<noteq> p \<and> agrees p K (apply_request r L) rs"

lemma agrees_push:
  assumes "agrees p K L rs" and "valid_fd f" and "f \<noteq> p"
  shows "f \<notin> K \<Longrightarrow> agrees p (insert f K) L (rs @ [PR_ADD f g])"
    and "agrees p (K - {f}) L (rs @ [PR_REMOVE f])" and "agrees p K L (rs @ [PR_RESET f g])"
  using assms(1) by (induction rs arbitrary: L) (use assms(2,3) in auto)

lemma agrees_now: "agrees p K L rs \<Longrightarrow> distinct L \<and> p \<in> set L"
  by (cases rs) auto

definition poll_inv :: "int \<Rightarrow> PollSystem \<Rightarrow> bool" where
  "poll_inv p s \<longleftrightarrow>
     valid_fd p \<and> handle_ok (ps_handle s) \<and> pipe_watched p (ph_descriptors (ps_handle s)) \<and>
     p \<notin> set (um_keys (ps_callbackMap s)) \<and>
     agrees p (set (um_keys (ps_callbackMap s))) (fds (ph_descriptors (ps_handle s))) (ps_requestQueue s) \<and>
     (ps_requestQueue s \<noteq> [] \<longrightarrow> ps_waking s \<or> ps_pipe s > 0 \<or> ps_thread s \<in> {Events True, Requests}) \<and>
     (ps_thread s \<in> {Waiting, Requests} \<longrightarrow> ph_eventIndex (ps_handle s) = - 1) \<and>
     (\<forall>f \<ge> 0. count_list (ps_fired s) f + watched (ph_descriptors (ps_handle s)) f \<le> count_list (ps_armed s) f)"

lemma inv_create: "valid_fd p \<Longrightarrow> poll_inv p (PollSystem_create p)"
  by (auto simp: poll_inv_def PollSystem_create_def handle_ok_def ph_add_def PollHandle_create_def desc_ok_def valid_fd_def
      pipe_watched_def fds_def abs_fd_def INT_MIN_def watched_def FlagsToEvents_def POLLIN_def EPollFlags_INPUT_def
      EPollFlags_OUTPUT_def um_keys_def)

lemma inv_enqueue:
  assumes "poll_inv p s" and "agrees p (set (um_keys m)) (fds (ph_descriptors (ps_handle s))) (ps_requestQueue s @ [r])"
    and "p \<notin> set (um_keys m)"
  shows "poll_inv p (ps_enqueue r (s\<lparr>ps_callbackMap := m\<rparr>))"
  using assms by (simp add: poll_inv_def ps_enqueue_def)

lemma inv_main:
  assumes "poll_inv p s" and "valid_fd fd" and "fd \<noteq> p"
  shows "poll_inv p (addFD fd flags cb s)" and "poll_inv p (resetFD fd flags s)" and "poll_inv p (removeFD fd s)"
proof -
  have a: "agrees p (set (um_keys (ps_callbackMap s))) (fds (ph_descriptors (ps_handle s))) (ps_requestQueue s)"
    and p: "p \<notin> set (um_keys (ps_callbackMap s))" using assms(1) by (simp_all add: poll_inv_def)
  note push = agrees_push [OF a assms(2,3)]
  have k: "fd \<in> set (um_keys (ps_callbackMap s)) \<longleftrightarrow> um_find fd (ps_callbackMap s) \<noteq> None" by (simp add: um.set_keys)
  show "poll_inv p (addFD fd flags cb s)"
    using inv_enqueue [OF assms(1), of "um_emplace fd cb (ps_callbackMap s)" "PR_ADD fd flags"] push(1) [of flags] k p assms
    by (simp add: addFD_def um.set_keys_emplace)
  show "poll_inv p (resetFD fd flags s)"
    using inv_enqueue [OF assms(1), of "ps_callbackMap s" "PR_RESET fd flags"] push(3) [of flags] p by (simp add: resetFD_def)
  show "poll_inv p (removeFD fd s)"
    using inv_enqueue [OF assms(1), of "um_erase fd (ps_callbackMap s)" "PR_REMOVE fd"] push(2) p assms
    by (simp add: removeFD_def um.set_keys_erase)
qed

lemma inv_wait:
  assumes "poll_inv p s" and "kernel_ok res (ps_handle s)" and "poll_wait res s = Some s'" and "ps_thread s = Waiting"
  shows "poll_inv p s'"
proof (cases res)
  case (Poll_ready revents)
  let ?h = "ps_handle s"
  let ?ds = "map2 (\<lambda>d r. d\<lparr>pf_revents := r\<rparr>) (ph_descriptors ?h) revents"
  let ?h' = "?h\<lparr>ph_descriptors := ?ds, ph_eventIndex := (if list_ex (\<lambda>r. r \<noteq> 0) revents then 0 else - 1)\<rparr>"
  have len: "length revents = length (ph_descriptors ?h)" using assms(2) Poll_ready by (simp add: kernel_ok_def)
  have nth: "?ds ! i = (ph_descriptors ?h ! i)\<lparr>pf_revents := revents ! i\<rparr>" if "i < length revents" for i using len that by simp
  have m: "map pf_fd ?ds = map pf_fd (ph_descriptors ?h)" "fds ?ds = fds (ph_descriptors ?h)"
    using len by (auto simp: fds_def intro!: nth_equalityI)
  have "\<forall>d \<in> set (ph_descriptors ?h). desc_ok d" using assms(1) by (simp add: poll_inv_def handle_ok_def)
  then have "\<forall>d \<in> set ?ds. desc_ok d" by (auto dest: set_zip_leftD)
  moreover have "0 \<le> pf_fd (?ds ! i)" if "i < length revents" "pf_revents (?ds ! i) \<noteq> 0" for i
  proof -
    have "revents ! i \<noteq> 0" using that(2) nth [OF that(1)] by simp
    then have "\<not> pf_fd (ph_descriptors ?h ! i) < 0" using assms(2) that(1) unfolding kernel_ok_def Poll_ready by auto
    then show ?thesis using nth [OF that(1)] by simp
  qed
  ultimately have "handle_ok ?h'" using len by (simp add: handle_ok_def)
  moreover have "pipe_watched p ?ds"
  proof -
    obtain i where i: "i < length revents" "pf_fd (ph_descriptors ?h ! i) = p" "pf_events (ph_descriptors ?h ! i) AND POLLIN \<noteq> 0"
    proof -
      have "pipe_watched p (ph_descriptors ?h)" using assms(1) by (simp add: poll_inv_def)
      then obtain d where "d \<in> set (ph_descriptors ?h)" "pf_fd d = p" "pf_events d AND POLLIN \<noteq> 0" unfolding pipe_watched_def by blast
      with that len show thesis by (metis in_set_conv_nth)
    qed
    then have "?ds ! i \<in> set ?ds" using len by (intro nth_mem) simp
    with i nth [OF i(1)] show ?thesis unfolding pipe_watched_def by (intro bexI [of _ "?ds ! i"]) simp_all
  qed
  moreover have s': "s' = s\<lparr>ps_handle := ?h', ps_thread := Events False\<rparr>"
    using assms(3) Poll_ready by (simp add: poll_wait_def ph_wait_def)
  ultimately show ?thesis
    using assms(1,4) m by (auto simp: poll_inv_def watched_def)
qed (use assms in \<open>auto simp: poll_wait_def ph_wait_def poll_inv_def handle_ok_def\<close>)

lemma handle_reset:
  assumes "handle_ok h" and "valid_fd fd"
  shows "handle_ok (ph_reset fd flags h)"
proof -
  have ok: "\<forall>d \<in> set (ph_descriptors h). desc_ok d" using assms(1) by (simp add: handle_ok_def)
  note t = reset_first_table [OF assms(2) ok, where flags = flags]
  show ?thesis
    using assms(1) t(2,4) t(5) by (fastforce simp: handle_ok_def ph_reset_def)
qed

lemma inv_event:
  assumes "poll_inv p s" and "ps_thread s = Events b"
  shows "poll_inv p (poll_event p s)"
proof -
  let ?h = "ps_handle s"
  obtain e h where e: "ph_getNextEvent ?h = (e, h)" by fastforce
  have i: "valid_fd p" "handle_ok ?h" "pipe_watched p (ph_descriptors ?h)" using assms(1) by (simp_all add: poll_inv_def)
  note t = getNextEvent_table [OF i(2) e]
  show ?thesis
  proof (cases "pe_isEmpty e")
    case True
    with assms t(1) show ?thesis by (auto simp: poll_event_def e poll_inv_def handle_ok_def)
  next
    case False
    note t' = t(2) [OF False]
    show ?thesis
    proof (cases "pe_fd e = p")
      case True
      have ok: "\<forall>d \<in> set (ph_descriptors h). desc_ok d" using t' by (simp add: handle_ok_def)
      note r = reset_first_table [OF i(1) ok, where flags = EPollFlags_INPUT]
      have "pipe_watched p (reset_first p EPollFlags_INPUT (ph_descriptors h))"
        using r(7) t(5) [OF False] t' True by (simp add: EPollFlags_INPUT_def)
      moreover have "\<forall>f \<ge> 0. count_list (ps_fired s @ [p]) f + watched (reset_first p EPollFlags_INPUT (ph_descriptors h)) f
          \<le> count_list (ps_armed s @ [p]) f"
      proof (intro allI impI)
        fix f :: int
        assume f: "0 \<le> f"
        have "count_list (ps_fired s) f + watched (ph_descriptors ?h) f \<le> count_list (ps_armed s) f"
          using assms(1) f by (simp add: poll_inv_def)
        then show "count_list (ps_fired s @ [p]) f + watched (reset_first p EPollFlags_INPUT (ph_descriptors h)) f
          \<le> count_list (ps_armed s @ [p]) f"
          using t(3) [OF False f] r(3) [where f = f] True by (auto split: if_splits)
      qed
      ultimately show ?thesis
        using assms False True t' r(1) handle_reset [of h p EPollFlags_INPUT] i(1)
        by (auto simp: poll_event_def e poll_inv_def ph_reset_def)
    next
      case neq: False
      have "\<forall>f \<ge> 0. count_list (ps_fired s @ [pe_fd e]) f + watched (ph_descriptors h) f \<le> count_list (ps_armed s) f"
      proof (intro allI impI)
        fix f :: int
        assume f: "0 \<le> f"
        have "count_list (ps_fired s) f + watched (ph_descriptors ?h) f \<le> count_list (ps_armed s) f"
          using assms(1) f by (simp add: poll_inv_def)
        then show "count_list (ps_fired s @ [pe_fd e]) f + watched (ph_descriptors h) f \<le> count_list (ps_armed s) f"
          using t(3) [OF False f] by (auto split: if_splits)
      qed
      with assms False neq t' t(4) [OF False _ i(3)] show ?thesis
        by (auto simp: poll_event_def e poll_inv_def)
    qed
  qed
qed

lemma inv_request:
  assumes "poll_inv p s" and "ps_thread s = Requests"
  shows "poll_inv p (poll_request s)"
proof (cases "ps_requestQueue s")
  case Nil
  with assms show ?thesis by (simp add: poll_request_def poll_inv_def)
next
  case (Cons r rs)
  let ?h = "ps_handle s"
  have i: "valid_fd p" "handle_ok ?h" "pipe_watched p (ph_descriptors ?h)" "ph_eventIndex ?h = - 1"
    and a: "agrees p (set (um_keys (ps_callbackMap s))) (fds (ph_descriptors ?h)) (r # rs)"
    using assms Cons by (simp_all add: poll_inv_def)
  then have r: "valid_fd (request_fd r)" "request_fd r \<noteq> p" and ok: "\<forall>d \<in> set (ph_descriptors ?h). desc_ok d"
    by (simp_all add: handle_ok_def)
  have c: "\<forall>f \<ge> 0. count_list (ps_fired s) f + watched (ph_descriptors ?h) f \<le> count_list (ps_armed s) f"
    using assms(1) by (simp add: poll_inv_def)
  show ?thesis
  proof (cases r)
    case (PR_ADD fd flags)
    have "pipe_watched p (ph_descriptors (ph_add fd flags ?h))" using i(3) by (auto simp: ph_add_def pipe_watched_def)
    moreover have "handle_ok (ph_add fd flags ?h)"
      using i(2,4) r(1) PR_ADD by (auto simp: handle_ok_def ph_add_def desc_ok_def valid_fd_def)
    moreover have "fds (ph_descriptors (ph_add fd flags ?h)) = fds (ph_descriptors ?h) @ [fd]"
      using r(1) PR_ADD by (simp add: ph_add_def fds_def)
    ultimately show ?thesis
      using assms Cons PR_ADD a i c by (auto simp: poll_request_def poll_inv_def ph_add_def watched_def)
  next
    case (PR_RESET fd flags)
    then have fd: "valid_fd fd" "p \<noteq> fd" using r by auto
    note t = reset_first_table [OF fd(1) ok, where flags = flags]
    have "\<forall>f \<ge> 0. count_list (ps_fired s) f + watched (reset_first fd flags (ph_descriptors ?h)) f
        \<le> count_list (ps_armed s @ [fd]) f"
      using c t(3) by (fastforce split: if_splits)
    then show ?thesis
      using assms Cons PR_RESET a i t(1) t(6) [OF fd(2) i(1,3)] handle_reset [OF i(2) fd(1)]
      by (auto simp: poll_request_def poll_inv_def ph_reset_def)
  next
    case (PR_REMOVE fd)
    then have fd: "valid_fd fd" "p \<noteq> fd" using r by auto
    note t = remove_table [OF fd(1) ok]
    have "\<forall>f \<ge> 0. count_list (ps_fired s) f + watched (ph_descriptors (ph_remove fd ?h)) f \<le> count_list (ps_armed s) f"
      using c t(2) le_trans [OF add_left_mono] unfolding ph_remove_def by (simp, blast)
    moreover have "handle_ok (ph_remove fd ?h)" using i(2,4) by (auto simp: handle_ok_def ph_remove_def)
    ultimately show ?thesis
      using assms Cons PR_REMOVE a i t(1) t(3) [OF fd(2) i(1,3)]
      by (auto simp: poll_request_def poll_inv_def ph_remove_def)
  qed
qed

lemma inv_poll_reach: "poll_reach p s \<Longrightarrow> poll_inv p s"
proof (induction rule: poll_reach.induct)
  case pr_create
  then show ?case by (rule inv_create)
next
  case (pr_add s fd flags callback)
  then show ?case using inv_main(1) by blast
next
  case (pr_reset s fd flags)
  then show ?case using inv_main(2) by blast
next
  case (pr_remove s fd)
  then show ?case using inv_main(3) by blast
next
  case (pr_wake s full)
  then show ?case by (auto simp: poll_inv_def wakePollThread_def)
next
  case (pr_call s)
  then show ?case by (simp add: poll_inv_def ps_onEvent_def split: list.split option.split)
next
  case (pr_wait s res s')
  then show ?case using inv_wait by blast
next
  case (pr_event s b)
  then show ?case using inv_event by blast
next
  case (pr_request s)
  then show ?case using inv_request by blast
qed

section \<open>Properties\<close>

definition sample_poll :: PollSystem where
  "sample_poll = poll_request (poll_event 3 (poll_event 3 (the (poll_wait (Poll_ready [POLLIN])
     (wakePollThread False (addFD 5 EPollFlags_INPUT 7 (PollSystem_create 3)))))))"

lemma sample_poll_reach: "poll_reach 3 sample_poll"
proof -
  let ?s1 = "wakePollThread False (addFD 5 EPollFlags_INPUT 7 (PollSystem_create 3))"
  let ?s2 = "the (poll_wait (Poll_ready [POLLIN]) ?s1)"
  have "poll_reach 3 ?s1"
    by (intro pr_wake pr_add pr_create)
      (simp_all add: valid_fd_def addFD_def ps_enqueue_def PollSystem_create_def um_find_def)
  moreover have "ps_thread ?s1 = Waiting" "kernel_ok (Poll_ready [POLLIN]) (ps_handle ?s1)" "poll_wait (Poll_ready [POLLIN]) ?s1 = Some ?s2"
    by (simp_all add: addFD_def ps_enqueue_def PollSystem_create_def um_find_def wakePollThread_def kernel_ok_def ph_add_def
        PollHandle_create_def poll_wait_def ph_wait_def)
  ultimately have "poll_reach 3 ?s2" by (rule pr_wait)
  moreover have "ps_thread ?s2 = Events False" "ps_thread (poll_event 3 ?s2) = Events True"
    "ps_thread (poll_event 3 (poll_event 3 ?s2)) = Requests"
    by code_simp+
  ultimately show ?thesis unfolding sample_poll_def by (intro pr_request pr_event)
qed

text \<open>
  C34: the poll system is correct under every interleaving of the main thread and the poll thread. No
  request gets lost: while requests wait, the pipe has data or is about to, or the poll thread is on its
  way to the queue; and the poll thread always watches the pipe. Each descriptor is in the table at most
  once, and when no request waits the table has exactly the registered descriptors and the pipe. A
  descriptor is reported at most as often as it was armed, by adding or resetting it.
\<close>

theorem poll_system_consistent:
  assumes "poll_reach pipeFD s"
  shows "(ps_requestQueue s \<noteq> [] \<longrightarrow> ps_waking s \<or> ps_pipe s > 0 \<or> ps_thread s \<in> {Events True, Requests})
    \<and> (\<exists>d \<in> set (ph_descriptors (ps_handle s)). pf_fd d = pipeFD \<and> pf_events d AND POLLIN \<noteq> 0)
    \<and> distinct (fds (ph_descriptors (ps_handle s)))
    \<and> (ps_requestQueue s = [] \<longrightarrow> set (fds (ph_descriptors (ps_handle s))) = insert pipeFD (set (um_keys (ps_callbackMap s))))
    \<and> (\<forall>f \<ge> 0. count_list (ps_fired s) f \<le> count_list (ps_armed s) f)"
  using inv_poll_reach [OF assms] agrees_now add_leD1 unfolding poll_inv_def pipe_watched_def by fastforce

theorem poll_system_consistent_witness:
  "set (fds (ph_descriptors (ps_handle sample_poll))) = {3, 5} \<and> distinct (fds (ph_descriptors (ps_handle sample_poll)))"
proof -
  have "ps_requestQueue sample_poll = []" "um_keys (ps_callbackMap sample_poll) = [5]" by code_simp+
  with poll_system_consistent [OF sample_poll_reach] show ?thesis by auto
qed

end
