(* ===== verification/ScreenModel.thy ===== *)
theory ScreenModel
  imports Prelude
begin

text \<open>
  \<^verbatim>\<open>UI_Curses/Screen.cpp\<close>: a screen draws into a pad, of which a rectangle of the terminal
  shows a part; dialogs are screens on a stack above their parent. A pad has the size that
  \<open>newpad\<close> or \<open>wresize\<close> was last called with; \<open>stdscr\<close> has the size of the terminal,
  which is an argument. \<open>pnoutrefresh\<close> paints one window over the others; \<open>ui_painted\<close> lists the
  windows on the terminal, the topmost last.
\<close>

section \<open>Geometry\<close>

record Pos =
  pos_x :: int
  pos_y :: int

abbreviation mkPos :: "int \<Rightarrow> int \<Rightarrow> Pos" where
  "mkPos x y \<equiv> \<lparr>pos_x = x, pos_y = y\<rparr>"

record ScreenWindow =
  sc_size :: Pos
  sc_minSize :: Pos
  sc_maxSize :: Pos
  sc_rectFirst :: Pos
  sc_rectSecond :: Pos
  sc_scrollPos :: Pos
  sc_isRefreshRequired :: bool

definition calculate_axis :: "int \<Rightarrow> int \<Rightarrow> int \<Rightarrow> int" where
  "calculate_axis maxSize minSize sz =
     (if maxSize > 0 \<and> sz > maxSize then maxSize
      else if minSize > 0 \<and> sz < minSize then minSize else sz)"

definition calculateSize :: "Pos \<Rightarrow> ScreenWindow \<Rightarrow> Pos" where
  "calculateSize term sc =
     mkPos (calculate_axis (pos_x (sc_maxSize sc)) (pos_x (sc_minSize sc)) (pos_x term))
           (calculate_axis (pos_y (sc_maxSize sc)) (pos_y (sc_minSize sc)) (pos_y term))"

text \<open>One axis of \<open>updateScreenRect\<close>: first and last column of the rectangle and the scroll position.\<close>

definition update_axis :: "int \<Rightarrow> int \<Rightarrow> int \<Rightarrow> int \<times> int \<times> int" where
  "update_axis term sz scroll =
     (let (first, second, maxScroll) =
        (if term > sz then let f = (term - sz) div 2 in (f, f + sz - 1, 0) else (0, term - 1, sz - term))
      in (first, second, if scroll > maxScroll then maxScroll else scroll))"

definition updateScreenRect :: "Pos \<Rightarrow> ScreenWindow \<Rightarrow> ScreenWindow" where
  "updateScreenRect term sc =
     (let (fx, sx, px) = update_axis (pos_x term) (pos_x (sc_size sc)) (pos_x (sc_scrollPos sc));
          (fy, sy, py) = update_axis (pos_y term) (pos_y (sc_size sc)) (pos_y (sc_scrollPos sc))
      in sc\<lparr>sc_rectFirst := mkPos fx fy, sc_rectSecond := mkPos sx sy, sc_scrollPos := mkPos px py\<rparr>)"

definition Screen_create :: "Pos \<Rightarrow> Pos \<Rightarrow> Pos \<Rightarrow> ScreenWindow" where
  "Screen_create term minSize maxSize =
     (let sc = \<lparr>sc_size = mkPos 0 0, sc_minSize = minSize, sc_maxSize = maxSize, sc_rectFirst = mkPos 0 0,
                sc_rectSecond = mkPos 0 0, sc_scrollPos = mkPos 0 0, sc_isRefreshRequired = False\<rparr>
      in updateScreenRect term (sc\<lparr>sc_size := calculateSize term sc\<rparr>))"

definition sc_invalidate :: "ScreenWindow \<Rightarrow> ScreenWindow" where
  "sc_invalidate sc = sc\<lparr>sc_isRefreshRequired := True\<rparr>"

text \<open>The first result says that \<open>handleResize\<close> is called.\<close>

definition sc_onResize :: "Pos \<Rightarrow> ScreenWindow \<Rightarrow> bool \<times> ScreenWindow" where
  "sc_onResize term sc =
     (let newSize = calculateSize term sc
      in if newSize \<noteq> sc_size sc then (True, updateScreenRect term (sc\<lparr>sc_size := newSize\<rparr>))
         else (False, updateScreenRect term sc))"

definition setMinSize :: "Pos \<Rightarrow> Pos \<Rightarrow> ScreenWindow \<Rightarrow> bool \<times> ScreenWindow" where
  "setMinSize term minSize sc =
     (if minSize = sc_minSize sc then (False, sc)
      else
        let sc1 = sc\<lparr>sc_minSize := minSize\<rparr>; newSize = calculateSize term sc1
        in if newSize \<noteq> sc_size sc1
           then (True, updateScreenRect term (sc_invalidate (sc1\<lparr>sc_size := newSize\<rparr>))) else (False, sc1))"

definition setMaxSize :: "Pos \<Rightarrow> Pos \<Rightarrow> ScreenWindow \<Rightarrow> bool \<times> ScreenWindow" where
  "setMaxSize term maxSize sc =
     (if maxSize = sc_maxSize sc then (False, sc)
      else
        let sc1 = sc\<lparr>sc_maxSize := maxSize\<rparr>; newSize = calculateSize term sc1
        in if newSize \<noteq> sc_size sc1
           then (True, updateScreenRect term (sc_invalidate (sc1\<lparr>sc_size := newSize\<rparr>))) else (False, sc1))"

text \<open>One axis of the scrolling functions: the new position and whether it has moved.\<close>

definition scroll_axis :: "int \<Rightarrow> int \<Rightarrow> int \<Rightarrow> int \<Rightarrow> int \<times> bool" where
  "scroll_axis term sz scroll amount =
     (if amount < 0
      then let a = (if - amount > scroll then scroll else - amount)
           in if a > 0 then (scroll - a, True) else (scroll, False)
      else if amount > 0
      then let maxAmount = (if sz \<le> term then 0 else sz - term - scroll);
               a = (if amount > maxAmount then maxAmount else amount)
           in if a > 0 then (scroll + a, True) else (scroll, False)
      else (scroll, False))"

definition scrollScreenRectX :: "Pos \<Rightarrow> int \<Rightarrow> ScreenWindow \<Rightarrow> bool \<times> ScreenWindow" where
  "scrollScreenRectX term amount sc =
     (let (p, moved) = scroll_axis (pos_x term) (pos_x (sc_size sc)) (pos_x (sc_scrollPos sc)) amount
      in (moved, sc\<lparr>sc_scrollPos := (sc_scrollPos sc)\<lparr>pos_x := p\<rparr>\<rparr>))"

definition scrollScreenRectY :: "Pos \<Rightarrow> int \<Rightarrow> ScreenWindow \<Rightarrow> bool \<times> ScreenWindow" where
  "scrollScreenRectY term amount sc =
     (let (p, moved) = scroll_axis (pos_y term) (pos_y (sc_size sc)) (pos_y (sc_scrollPos sc)) amount
      in (moved, sc\<lparr>sc_scrollPos := (sc_scrollPos sc)\<lparr>pos_y := p\<rparr>\<rparr>))"

section \<open>Keys\<close>

datatype key = KEY_UP | KEY_DOWN | KEY_LEFT | KEY_RIGHT | KEY_PPAGE | KEY_NPAGE | KEY_SLEFT | KEY_SRIGHT
  | KEY_F nat | KEY_ENTER | KEY_ESC | KEY_SPACE | KEY_OTHER

text \<open>The keys that scroll a pad that does not fit; the others go to \<open>handleKey\<close>.\<close>

definition scroll_key :: "Pos \<Rightarrow> key \<Rightarrow> ScreenWindow \<Rightarrow> bool \<times> ScreenWindow" where
  "scroll_key term ch sc =
     (case (case ch of
         KEY_UP \<Rightarrow> scrollScreenRectY term (- 1) sc
       | KEY_DOWN \<Rightarrow> scrollScreenRectY term 1 sc
       | KEY_LEFT \<Rightarrow> scrollScreenRectX term (- 1) sc
       | KEY_RIGHT \<Rightarrow> scrollScreenRectX term 1 sc
       | _ \<Rightarrow> (False, sc)) of
        (True, sc1) \<Rightarrow> (True, sc_invalidate sc1)
      | (False, _) \<Rightarrow> (False, sc))"

section \<open>Dialogs\<close>

text \<open>The screen of the list and its dialogs.\<close>

datatype window = W_LIST | W_DETAILS | W_COLUMNS | W_SORT

record UI =
  ui_term :: Pos
  ui_screen :: "window \<Rightarrow> ScreenWindow"
  ui_dialogStack :: "window list"
  ui_painted :: "window list"

definition ui_upd :: "window \<Rightarrow> (ScreenWindow \<Rightarrow> ScreenWindow) \<Rightarrow> UI \<Rightarrow> UI" where
  "ui_upd w f ui = ui\<lparr>ui_screen := (ui_screen ui)(w := f (ui_screen ui w))\<rparr>"

definition hasDialog :: "window \<Rightarrow> UI \<Rightarrow> bool" where
  "hasDialog w ui \<longleftrightarrow> w \<in> set (ui_dialogStack ui)"

definition invalidate_windows :: "window list \<Rightarrow> UI \<Rightarrow> UI" where
  "invalidate_windows ws ui = foldl (\<lambda>u w. ui_upd w sc_invalidate u) ui ws"

text \<open>The first result says that the dialog's \<open>handleResize\<close> is called.\<close>

definition pushDialog :: "window \<Rightarrow> UI \<Rightarrow> bool \<times> UI" where
  "pushDialog w ui =
     (if hasDialog w ui then (False, ui)
      else
        let (resized, sc) = sc_onResize (ui_term ui) (ui_screen ui w);
            u1 = ui_upd w (\<lambda>_. sc) (ui\<lparr>ui_dialogStack := ui_dialogStack ui @ [w]\<rparr>);
            u2 = ui_upd W_LIST sc_invalidate u1
        in (resized, invalidate_windows (ui_dialogStack u2) u2))"

fun remove_loop :: "window \<Rightarrow> bool \<Rightarrow> window list \<Rightarrow> bool \<times> window list \<times> window list" where
  "remove_loop w removed [] = (removed, [], [])"
| "remove_loop w removed (d # ds) =
     (if d = w then remove_loop w True ds
      else let (r, keep, rest) = remove_loop w removed ds in (r, d # keep, if removed then d # rest else rest))"

definition removeDialog :: "window \<Rightarrow> UI \<Rightarrow> UI" where
  "removeDialog w ui =
     (let (removed, keep, rest) = remove_loop w False (ui_dialogStack ui);
          u1 = invalidate_windows rest (ui\<lparr>ui_dialogStack := keep\<rparr>)
      in if removed then ui_upd W_LIST sc_invalidate u1 else u1)"

definition ui_isRefreshRequired :: "UI \<Rightarrow> bool" where
  "ui_isRefreshRequired ui \<longleftrightarrow>
     sc_isRefreshRequired (ui_screen ui W_LIST) \<or> list_ex (\<lambda>w. sc_isRefreshRequired (ui_screen ui w)) (ui_dialogStack ui)"

text \<open>\<open>Screen::refresh\<close> of one window, without its dialogs: \<open>pnoutrefresh\<close> paints it.\<close>

definition paint :: "window \<Rightarrow> UI \<Rightarrow> UI" where
  "paint w ui =
     (ui_upd w (\<lambda>sc. sc\<lparr>sc_isRefreshRequired := False\<rparr>) ui)\<lparr>ui_painted := filter (\<lambda>v. v \<noteq> w) (ui_painted ui) @ [w]\<rparr>"

fun refresh_dialogs :: "bool \<Rightarrow> window list \<Rightarrow> UI \<Rightarrow> UI" where
  "refresh_dialogs refreshed [] ui = ui"
| "refresh_dialogs refreshed (w # ws) ui =
     (if refreshed then refresh_dialogs True ws (paint w (ui_upd w sc_invalidate ui))
      else if sc_isRefreshRequired (ui_screen ui w) then refresh_dialogs True ws (paint w ui)
      else refresh_dialogs False ws ui)"

definition refresh :: "UI \<Rightarrow> UI" where
  "refresh ui =
     (if sc_isRefreshRequired (ui_screen ui W_LIST) then refresh_dialogs True (ui_dialogStack ui) (paint W_LIST ui)
      else refresh_dialogs False (ui_dialogStack ui) ui)"

text \<open>\<open>Curses::refreshScreen\<close>; \<open>clear\<close> empties the terminal.\<close>

definition refreshScreen :: "bool \<Rightarrow> UI \<Rightarrow> UI" where
  "refreshScreen redraw ui =
     (if redraw then refresh (ui_upd W_LIST sc_invalidate (ui\<lparr>ui_painted := []\<rparr>))
      else if ui_isRefreshRequired ui then refresh ui else ui)"

text \<open>\<open>Screen::onResize\<close> of the list's screen: also the open dialogs. The windows whose \<open>handleResize\<close> is called.\<close>

fun resize_windows :: "window list \<Rightarrow> UI \<Rightarrow> window list \<times> UI" where
  "resize_windows [] ui = ([], ui)"
| "resize_windows (w # ws) ui =
     (let (resized, sc) = sc_onResize (ui_term ui) (ui_screen ui w); (rs, ui') = resize_windows ws (ui_upd w (\<lambda>_. sc) ui)
      in (if resized then w # rs else rs, ui'))"

text \<open>\<open>Curses::resizeScreen\<close> up to the redrawing, for a terminal that has a new size.\<close>

definition ui_onResize :: "Pos \<Rightarrow> UI \<Rightarrow> window list \<times> UI" where
  "ui_onResize term ui = resize_windows (W_LIST # ui_dialogStack ui) (ui\<lparr>ui_term := term\<rparr>)"

end
