(* ===== verification/ScreenProps.thy ===== *)
theory ScreenProps
  imports ScreenModel
begin

text \<open>
  Screens and dialogs: the part of a pad that is shown always lies inside the pad and inside the
  terminal, and after a refresh the terminal shows the list's screen with the open dialogs above it in
  the order they were opened.
\<close>

section \<open>The shown part of a pad\<close>

definition axis_ok :: "int \<Rightarrow> int \<Rightarrow> int \<Rightarrow> int \<Rightarrow> int \<Rightarrow> bool" where
  "axis_ok tm sz first second scroll \<longleftrightarrow>
     0 \<le> first \<and> first \<le> second \<and> second < tm \<and> second - first + 1 = min tm sz \<and>
     0 \<le> scroll \<and> scroll + (second - first) < sz"

definition view_ok :: "Pos \<Rightarrow> ScreenWindow \<Rightarrow> bool" where
  "view_ok tm sc \<longleftrightarrow>
     axis_ok (pos_x tm) (pos_x (sc_size sc)) (pos_x (sc_rectFirst sc)) (pos_x (sc_rectSecond sc)) (pos_x (sc_scrollPos sc)) \<and>
     axis_ok (pos_y tm) (pos_y (sc_size sc)) (pos_y (sc_rectFirst sc)) (pos_y (sc_rectSecond sc)) (pos_y (sc_scrollPos sc))"

definition term_ok :: "Pos \<Rightarrow> bool" where
  "term_ok tm \<longleftrightarrow> pos_x tm > 0 \<and> pos_y tm > 0"

definition scroll_ok :: "ScreenWindow \<Rightarrow> bool" where
  "scroll_ok sc \<longleftrightarrow> pos_x (sc_scrollPos sc) \<ge> 0 \<and> pos_y (sc_scrollPos sc) \<ge> 0"

lemma axis_update:
  "tm > 0 \<Longrightarrow> sz > 0 \<Longrightarrow> scroll \<ge> 0 \<Longrightarrow> update_axis tm sz scroll = (f, s, p) \<Longrightarrow> axis_ok tm sz f s p"
  by (auto simp: update_axis_def axis_ok_def Let_def split: if_splits)

lemma axis_scroll:
  "axis_ok tm sz f s p \<Longrightarrow> scroll_axis tm sz p n = (p', b) \<Longrightarrow> axis_ok tm sz f s p'"
  by (auto simp: scroll_axis_def axis_ok_def Let_def split: if_splits)

lemma calculate_positive: "term_ok tm \<Longrightarrow> pos_x (calculateSize tm sc) > 0 \<and> pos_y (calculateSize tm sc) > 0"
  by (auto simp: term_ok_def calculateSize_def calculate_axis_def)

lemma view_update:
  assumes "term_ok tm" and "scroll_ok sc" and "pos_x (sc_size sc) > 0" and "pos_y (sc_size sc) > 0"
  shows "view_ok tm (updateScreenRect tm sc)"
  using assms axis_update unfolding term_ok_def scroll_ok_def view_ok_def updateScreenRect_def
  by (auto simp: Let_def split: prod.split)

lemma updateScreenRect_frame [simp]:
  "sc_size (updateScreenRect tm sc) = sc_size sc" "sc_minSize (updateScreenRect tm sc) = sc_minSize sc"
  "sc_maxSize (updateScreenRect tm sc) = sc_maxSize sc"
  "sc_isRefreshRequired (updateScreenRect tm sc) = sc_isRefreshRequired sc"
  by (simp_all add: updateScreenRect_def Let_def split: prod.split)

lemma view_scroll_ok: "view_ok tm sc \<Longrightarrow> scroll_ok sc"
  by (simp add: view_ok_def axis_ok_def scroll_ok_def)

lemma view_positive: "view_ok tm sc \<Longrightarrow> pos_x (sc_size sc) > 0 \<and> pos_y (sc_size sc) > 0"
  by (auto simp: view_ok_def axis_ok_def)

lemma view_create: "term_ok tm \<Longrightarrow> view_ok tm (Screen_create tm mn mx)"
  using calculate_positive by (simp add: Screen_create_def view_update scroll_ok_def Let_def)

lemma view_onResize: "term_ok tm \<Longrightarrow> scroll_ok sc \<Longrightarrow> view_ok tm (snd (sc_onResize tm sc))"
proof -
  assume t: "term_ok tm" "scroll_ok sc"
  have "scroll_ok (sc\<lparr>sc_size := z\<rparr>)" for z using t(2) by (simp add: scroll_ok_def)
  then show ?thesis
    using t view_update [OF t] view_update [OF t(1), of "sc\<lparr>sc_size := calculateSize tm sc\<rparr>"] calculate_positive [OF t(1), of sc]
    by (auto simp: sc_onResize_def Let_def)
qed

lemma view_flags [simp]:
  "view_ok tm (sc_invalidate sc) = view_ok tm sc" "scroll_ok (sc_invalidate sc) = scroll_ok sc"
  "view_ok tm (sc\<lparr>sc_isRefreshRequired := b\<rparr>) = view_ok tm sc" "scroll_ok (sc\<lparr>sc_isRefreshRequired := b\<rparr>) = scroll_ok sc"
  "view_ok tm (sc\<lparr>sc_minSize := z\<rparr>) = view_ok tm sc" "view_ok tm (sc\<lparr>sc_maxSize := z\<rparr>) = view_ok tm sc"
  by (simp_all add: view_ok_def scroll_ok_def sc_invalidate_def)

lemma view_resized:
  "term_ok tm \<Longrightarrow> scroll_ok sc \<Longrightarrow> sc_size sc = calculateSize tm sc' \<Longrightarrow> view_ok tm (updateScreenRect tm sc)"
  using calculate_positive view_update by metis

lemma view_setMinSize: "term_ok tm \<Longrightarrow> view_ok tm sc \<Longrightarrow> view_ok tm (snd (setMinSize tm z sc))"
  using view_scroll_ok [of tm sc] by (auto simp: setMinSize_def Let_def sc_invalidate_def scroll_ok_def intro!: view_resized)

lemma view_setMaxSize: "term_ok tm \<Longrightarrow> view_ok tm sc \<Longrightarrow> view_ok tm (snd (setMaxSize tm z sc))"
  using view_scroll_ok [of tm sc] by (auto simp: setMaxSize_def Let_def sc_invalidate_def scroll_ok_def intro!: view_resized)

lemma view_scroll:
  assumes "view_ok tm sc"
  shows "view_ok tm (snd (scroll_key tm ch sc))"
proof -
  have x: "view_ok tm (snd (scrollScreenRectX tm n sc))" for n
    using assms axis_scroll by (fastforce simp: scrollScreenRectX_def view_ok_def split: prod.split)
  have y: "view_ok tm (snd (scrollScreenRectY tm n sc))" for n
    using assms axis_scroll by (fastforce simp: scrollScreenRectY_def view_ok_def split: prod.split)
  have "view_ok tm (snd (case p of (True, sc1) \<Rightarrow> (True, sc_invalidate sc1) | (False, _) \<Rightarrow> (False, sc)))"
    if "view_ok tm (snd p)" for p :: "bool \<times> ScreenWindow"
    using that assms by (auto split: prod.split bool.split)
  then show ?thesis unfolding scroll_key_def using x y assms by (auto split: key.split)
qed

section \<open>Windows above each other\<close>

lemma ui_upd_simps [simp]:
  "ui_screen (ui_upd w f ui) v = (if v = w then f (ui_screen ui w) else ui_screen ui v)"
  "ui_dialogStack (ui_upd w f ui) = ui_dialogStack ui" "ui_term (ui_upd w f ui) = ui_term ui"
  "ui_painted (ui_upd w f ui) = ui_painted ui"
  by (auto simp: ui_upd_def)

lemma paint_simps [simp]:
  "ui_dialogStack (paint w ui) = ui_dialogStack ui" "ui_term (paint w ui) = ui_term ui"
  "ui_painted (paint w ui) = filter (\<lambda>v. v \<noteq> w) (ui_painted ui) @ [w]"
  "ui_screen (paint w ui) v = (ui_screen ui v)\<lparr>sc_isRefreshRequired := sc_isRefreshRequired (ui_screen ui v) \<and> v \<noteq> w\<rparr>"
  by (auto simp: paint_def)

lemma invalidate_windows_simps [simp]:
  "ui_dialogStack (invalidate_windows ws ui) = ui_dialogStack ui" "ui_term (invalidate_windows ws ui) = ui_term ui"
  "ui_painted (invalidate_windows ws ui) = ui_painted ui"
  "ui_screen (invalidate_windows ws ui) v = (if v \<in> set ws then sc_invalidate (ui_screen ui v) else ui_screen ui v)"
  by (induction ws arbitrary: ui) (auto simp: invalidate_windows_def sc_invalidate_def)

lemma refresh_dialogs_frame [simp]:
  "ui_dialogStack (refresh_dialogs b ws ui) = ui_dialogStack ui" "ui_term (refresh_dialogs b ws ui) = ui_term ui"
  "view_ok t (ui_screen (refresh_dialogs b ws ui) v) = view_ok t (ui_screen ui v)"
  "scroll_ok (ui_screen (refresh_dialogs b ws ui) v) = scroll_ok (ui_screen ui v)"
  by (induction b ws ui rule: refresh_dialogs.induct) auto

lemma refresh_frame [simp]:
  "ui_dialogStack (refresh ui) = ui_dialogStack ui" "ui_term (refresh ui) = ui_term ui"
  "view_ok t (ui_screen (refresh ui) v) = view_ok t (ui_screen ui v)" "scroll_ok (ui_screen (refresh ui) v) = scroll_ok (ui_screen ui v)"
  by (simp_all add: refresh_def)

text \<open>Once one window is painted, all windows above are.\<close>

lemma refresh_dialogs_paints:
  "distinct ws \<Longrightarrow> ui_painted (refresh_dialogs True ws ui) = filter (\<lambda>v. v \<notin> set ws) (ui_painted ui) @ ws"
  by (induction ws arbitrary: ui) (auto simp: filter_filter conj_commute intro: filter_cong)

lemma refresh_dialogs_flags:
  "sc_isRefreshRequired (ui_screen (refresh_dialogs b ws ui) v) \<longleftrightarrow> sc_isRefreshRequired (ui_screen ui v) \<and> v \<notin> set ws"
  by (induction b ws ui rule: refresh_dialogs.induct) (auto simp: sc_invalidate_def)

lemma refresh_dialogs_keeps_order:
  "distinct (pre @ ws) \<Longrightarrow> set (pre @ ws) \<inter> set low = {} \<Longrightarrow> ui_painted ui = low @ pre @ ws \<Longrightarrow>
    ui_painted (refresh_dialogs False ws ui) = low @ pre @ ws"
proof (induction ws arbitrary: pre)
  case (Cons w ws)
  show ?case
  proof (cases "sc_isRefreshRequired (ui_screen ui w)")
    case True
    have "filter (\<lambda>v. v \<notin> set ws) (filter (\<lambda>v. v \<noteq> w) (low @ pre @ w # ws)) = low @ pre"
      using Cons.prems(1,2)
      by (subst filter_filter, subst filter_append, subst filter_id_conv [THEN iffD2])
        (auto simp: filter_id_conv filter_empty_conv)
    with True Cons.prems show ?thesis by (simp add: refresh_dialogs_paints filter_filter conj_commute)
  next
    case False
    with Cons.IH [of "pre @ [w]"] Cons.prems show ?thesis by simp
  qed
qed simp

definition ui_ok :: "UI \<Rightarrow> bool" where
  "ui_ok ui \<longleftrightarrow>
     term_ok (ui_term ui) \<and> distinct (W_LIST # ui_dialogStack ui) \<and> distinct (ui_painted ui) \<and>
     (\<forall>w. scroll_ok (ui_screen ui w)) \<and> (\<forall>w \<in> set (W_LIST # ui_dialogStack ui). view_ok (ui_term ui) (ui_screen ui w)) \<and>
     (sc_isRefreshRequired (ui_screen ui W_LIST) \<or> (\<exists>low. ui_painted ui = low @ W_LIST # ui_dialogStack ui))"

lemma distinct_refresh_dialogs: "distinct (ui_painted ui) \<Longrightarrow> distinct (ui_painted (refresh_dialogs b ws ui))"
  by (induction b ws ui rule: refresh_dialogs.induct) auto

lemma refresh_shows:
  assumes "ui_ok ui"
  shows "\<exists>low. ui_painted (refresh ui) = low @ W_LIST # ui_dialogStack ui"
    and "\<not> sc_isRefreshRequired (ui_screen (refresh ui) W_LIST)" and "\<not> ui_isRefreshRequired (refresh ui)"
    and "ui_ok (refresh ui)"
proof -
  let ?ws = "ui_dialogStack ui"
  have d: "distinct (W_LIST # ?ws)" using assms by (simp add: ui_ok_def)
  show low: "\<exists>low. ui_painted (refresh ui) = low @ W_LIST # ?ws"
  proof (cases "sc_isRefreshRequired (ui_screen ui W_LIST)")
    case True
    with d show ?thesis by (simp add: refresh_def refresh_dialogs_paints)
  next
    case False
    with assms obtain low where low: "ui_painted ui = low @ W_LIST # ?ws" by (auto simp: ui_ok_def)
    with assms have "set ?ws \<inter> set (low @ [W_LIST]) = {}" by (auto simp: ui_ok_def)
    with False d low show ?thesis using refresh_dialogs_keeps_order [of "[]" ?ws "low @ [W_LIST]" ui] by (simp add: refresh_def)
  qed
  show f: "\<not> sc_isRefreshRequired (ui_screen (refresh ui) W_LIST)" "\<not> ui_isRefreshRequired (refresh ui)"
    using d by (auto simp: refresh_def refresh_dialogs_flags ui_isRefreshRequired_def list_ex_iff)
  have "distinct (ui_painted (refresh ui))"
    using assms by (simp add: refresh_def distinct_refresh_dialogs ui_ok_def)
  with low assms show "ui_ok (refresh ui)" by (simp add: ui_ok_def)
qed

section \<open>Runs\<close>

text \<open>
  \<open>ui_modify\<close> stands for every function that draws into a window: it sets the window's flag.
\<close>

definition ui_modify :: "window \<Rightarrow> UI \<Rightarrow> UI" where
  "ui_modify w = ui_upd w (\<lambda>sc. sc\<lparr>sc_isRefreshRequired := True\<rparr>)"

inductive ui_run :: "UI \<Rightarrow> bool" where
  ur_create: "term_ok tm \<Longrightarrow> ui_run (ui_modify W_LIST \<lparr>ui_term = tm, ui_screen = (\<lambda>w. Screen_create tm (mn w) (mx w)),
    ui_dialogStack = [], ui_painted = []\<rparr>)"
| ur_draw: "ui_run ui \<Longrightarrow> ui_run (ui_modify w ui)"
| ur_push: "ui_run ui \<Longrightarrow> w \<noteq> W_LIST \<Longrightarrow> ui_run (snd (pushDialog w ui))"
| ur_remove: "ui_run ui \<Longrightarrow> w \<noteq> W_LIST \<Longrightarrow> ui_run (removeDialog w ui)"
| ur_refresh: "ui_run ui \<Longrightarrow> ui_run (refreshScreen b ui)"
| ur_resize: "ui_run ui \<Longrightarrow> term_ok tm \<Longrightarrow> ui_run (refreshScreen True (snd (ui_onResize tm ui)))"
| ur_minSize: "ui_run ui \<Longrightarrow> w \<in> set (W_LIST # ui_dialogStack ui) \<Longrightarrow>
    ui_run (ui_upd w (\<lambda>sc. snd (setMinSize (ui_term ui) z sc)) ui)"
| ur_maxSize: "ui_run ui \<Longrightarrow> w \<in> set (W_LIST # ui_dialogStack ui) \<Longrightarrow>
    ui_run (ui_upd w (\<lambda>sc. snd (setMaxSize (ui_term ui) z sc)) ui)"
| ur_key: "ui_run ui \<Longrightarrow> w \<in> set (W_LIST # ui_dialogStack ui) \<Longrightarrow>
    ui_run (ui_upd w (\<lambda>sc. snd (scroll_key (ui_term ui) ch sc)) ui)"

lemma ui_ok_window:
  assumes "ui_ok ui" and "view_ok (ui_term ui) (ui_screen ui w) \<Longrightarrow> view_ok (ui_term ui) (f (ui_screen ui w))"
    and "w \<in> set (W_LIST # ui_dialogStack ui)"
    and "sc_isRefreshRequired (ui_screen ui w) \<Longrightarrow> sc_isRefreshRequired (f (ui_screen ui w))"
  shows "ui_ok (ui_upd w f ui)"
proof -
  have "view_ok (ui_term ui) (f (ui_screen ui w))" using assms(1-3) by (auto simp: ui_ok_def)
  with assms view_scroll_ok [OF this] show ?thesis by (auto simp: ui_ok_def)
qed

lemma flags_kept:
  "sc_isRefreshRequired sc \<Longrightarrow> sc_isRefreshRequired (snd (setMinSize tm z sc))"
  "sc_isRefreshRequired sc \<Longrightarrow> sc_isRefreshRequired (snd (setMaxSize tm z sc))"
  "sc_isRefreshRequired sc \<Longrightarrow> sc_isRefreshRequired (snd (scroll_key tm ch sc))"
  by (auto simp: setMinSize_def setMaxSize_def Let_def sc_invalidate_def scroll_key_def scrollScreenRectX_def
      scrollScreenRectY_def split: key.split prod.split bool.split)

lemma onResize_flag [simp]: "sc_isRefreshRequired (snd (sc_onResize tm sc)) = sc_isRefreshRequired sc"
  by (simp add: sc_onResize_def Let_def)

lemma ui_ok_push:
  assumes "ui_ok ui" and "w \<noteq> W_LIST"
  shows "ui_ok (snd (pushDialog w ui))"
proof (cases "hasDialog w ui")
  case False
  have "view_ok (ui_term ui) (snd (sc_onResize (ui_term ui) (ui_screen ui w)))"
    using assms(1) view_onResize by (simp add: ui_ok_def)
  with assms False view_scroll_ok [OF this] show ?thesis
    by (auto simp: pushDialog_def ui_ok_def hasDialog_def case_prod_beta Let_def sc_invalidate_def)
qed (use assms in \<open>simp add: pushDialog_def\<close>)

lemma remove_loop_keeps: "remove_loop w b ds = (r, keep, rest) \<Longrightarrow> keep = filter (\<lambda>d. d \<noteq> w) ds \<and> r = (b \<or> w \<in> set ds)"
  by (induction w b ds arbitrary: r keep rest rule: remove_loop.induct) (auto split: if_splits prod.splits)

lemma ui_ok_remove:
  assumes "ui_ok ui"
  shows "ui_ok (removeDialog w ui)"
proof -
  obtain r keep rest where l: "remove_loop w False (ui_dialogStack ui) = (r, keep, rest)" by (cases "remove_loop w False (ui_dialogStack ui)")
  have k: "keep = filter (\<lambda>d. d \<noteq> w) (ui_dialogStack ui)" "r \<longleftrightarrow> w \<in> set (ui_dialogStack ui)"
    using remove_loop_keeps [OF l] by simp_all
  show ?thesis
  proof (cases "w \<in> set (ui_dialogStack ui)")
    case False
    with k have "keep = ui_dialogStack ui" "\<not> r" by (auto simp: filter_id_conv)
    with assms show ?thesis by (auto simp: removeDialog_def l ui_ok_def sc_invalidate_def)
  qed (use k assms in \<open>auto simp: removeDialog_def l ui_ok_def sc_invalidate_def\<close>)
qed

lemma ui_ok_refresh: "ui_ok ui \<Longrightarrow> ui_ok (refreshScreen b ui)"
  using refresh_shows(4) [of ui] refresh_shows(4) [of "ui_upd W_LIST sc_invalidate (ui\<lparr>ui_painted := []\<rparr>)"]
  by (auto simp: refreshScreen_def ui_ok_def sc_invalidate_def)

lemma resize_windows_frame [simp]:
  "ui_term (snd (resize_windows ws ui)) = ui_term ui" "ui_dialogStack (snd (resize_windows ws ui)) = ui_dialogStack ui"
  "ui_painted (snd (resize_windows ws ui)) = ui_painted ui"
  by (induction ws arbitrary: ui) (simp_all add: case_prod_beta Let_def)

lemma resize_windows_views:
  "term_ok (ui_term ui) \<Longrightarrow> \<forall>w. scroll_ok (ui_screen ui w) \<Longrightarrow>
    (\<forall>w. scroll_ok (ui_screen (snd (resize_windows ws ui)) w)) \<and>
    (\<forall>w \<in> set ws. view_ok (ui_term ui) (ui_screen (snd (resize_windows ws ui)) w)) \<and>
    (\<forall>w. w \<notin> set ws \<longrightarrow> ui_screen (snd (resize_windows ws ui)) w = ui_screen ui w)"
proof (induction ws arbitrary: ui)
  case (Cons w ws)
  let ?ui = "ui_upd w (\<lambda>_. snd (sc_onResize (ui_term ui) (ui_screen ui w))) ui"
  have v: "view_ok (ui_term ui) (snd (sc_onResize (ui_term ui) (ui_screen ui w)))" using Cons.prems view_onResize by simp
  have ih: "(\<forall>v. scroll_ok (ui_screen (snd (resize_windows ws ?ui)) v)) \<and>
      (\<forall>v \<in> set ws. view_ok (ui_term ui) (ui_screen (snd (resize_windows ws ?ui)) v)) \<and>
      (\<forall>v. v \<notin> set ws \<longrightarrow> ui_screen (snd (resize_windows ws ?ui)) v = ui_screen ?ui v)"
    using Cons.IH [of ?ui] Cons.prems view_scroll_ok [OF v] by simp
  then have "view_ok (ui_term ui) (ui_screen (snd (resize_windows ws ?ui)) w)" using v by (cases "w \<in> set ws") auto
  with ih show ?case by (simp add: case_prod_beta Let_def)
qed simp

lemma ui_ok_resize:
  assumes "ui_ok ui" and "term_ok tm"
  shows "ui_ok (refreshScreen True (snd (ui_onResize tm ui)))"
proof -
  let ?u = "snd (ui_onResize tm ui)"
  have "ui_ok (ui_upd W_LIST sc_invalidate (?u\<lparr>ui_painted := []\<rparr>))"
    using assms resize_windows_views [of "ui\<lparr>ui_term := tm\<rparr>" "W_LIST # ui_dialogStack ui"]
    by (auto simp del: resize_windows.simps simp: ui_onResize_def ui_ok_def sc_invalidate_def)
  then show ?thesis using refresh_shows(4) by (simp add: refreshScreen_def)
qed

lemma ui_run_ok: "ui_run ui \<Longrightarrow> ui_ok ui"
proof (induction rule: ui_run.induct)
  case (ur_create tm mn mx)
  then show ?case using view_create view_scroll_ok by (fastforce simp: ui_ok_def ui_modify_def)
next
  case (ur_draw ui w)
  then show ?case by (auto simp: ui_modify_def ui_ok_def)
qed (auto simp: ui_ok_push ui_ok_remove ui_ok_refresh ui_ok_resize intro!: ui_ok_window view_setMinSize view_setMaxSize
    view_scroll flags_kept, auto simp: ui_ok_def)

text \<open>
  C10: the terminal is painted correctly. Whatever dialogs are opened and closed, windows drawn into,
  pads scrolled, sizes changed and terminals resized: the shown part of the list's screen and of every
  open dialog lies inside its pad and inside the terminal; and a refresh that is due, or forced, leaves
  the list's screen on the terminal with the open dialogs above it in the order of the stack, everything
  else below it, and nothing left to be refreshed.
\<close>

theorem refresh_shows_dialogs:
  assumes "ui_run ui" and "b \<or> ui_isRefreshRequired ui"
  shows "(\<forall>w \<in> set (W_LIST # ui_dialogStack ui). view_ok (ui_term ui) (ui_screen ui w))
    \<and> (\<exists>low. ui_painted (refreshScreen b ui) = low @ W_LIST # ui_dialogStack ui)
    \<and> \<not> ui_isRefreshRequired (refreshScreen b ui)"
proof -
  have ok: "ui_ok ui" using ui_run_ok [OF assms(1)] .
  then have ok': "ui_ok (ui_upd W_LIST sc_invalidate (ui\<lparr>ui_painted := []\<rparr>))" by (auto simp: ui_ok_def sc_invalidate_def)
  have "(\<exists>low. ui_painted (refreshScreen b ui) = low @ W_LIST # ui_dialogStack ui) \<and> \<not> ui_isRefreshRequired (refreshScreen b ui)"
    using assms(2) refresh_shows(1,3) [OF ok] refresh_shows(1,3) [OF ok'] by (auto simp: refreshScreen_def)
  with ok show ?thesis by (simp add: ui_ok_def)
qed

definition sample_ui :: UI where
  "sample_ui = ui_modify W_LIST \<lparr>ui_term = mkPos 70 24, ui_screen = (\<lambda>w. Screen_create (mkPos 70 24)
     (if w = W_LIST then mkPos 80 6 else mkPos 50 20) (if w = W_LIST then mkPos (- 1) (- 1) else mkPos 50 20)),
     ui_dialogStack = [], ui_painted = []\<rparr>"

definition sample_ui2 :: UI where
  "sample_ui2 = ui_modify W_COLUMNS (refreshScreen False (snd (pushDialog W_SORT (snd (pushDialog W_COLUMNS sample_ui)))))"

theorem refresh_shows_dialogs_witness:
  "\<exists>low. ui_painted (refreshScreen False sample_ui2) = low @ [W_LIST, W_COLUMNS, W_SORT]"
proof -
  have "ui_run sample_ui2"
    unfolding sample_ui2_def sample_ui_def by (intro ur_draw ur_refresh ur_push ur_create) (simp_all add: term_ok_def)
  moreover have "ui_isRefreshRequired sample_ui2" by code_simp
  moreover have "ui_dialogStack sample_ui2 = [W_COLUMNS, W_SORT]" by code_simp
  ultimately show ?thesis using refresh_shows_dialogs [of sample_ui2 False] by simp
qed

end
