(* ===== verification/Dialogs.thy ===== *)
theory Dialogs
  imports ScreenModel KString Compare
begin

text \<open>
  The dialogs \<^verbatim>\<open>DialogConnectionColumns\<close> and \<^verbatim>\<open>DialogConnectionSort\<close>
  (\<^verbatim>\<open>UI_Curses/Screens\<close>). The entries a dialog draws are logged by their numbers; what an
  entry looks like is a function of the dialog's state. Closing a dialog also calls its parent: the key
  handlers say whether the dialog closes, and with which decision.
\<close>

section \<open>Columns\<close>

datatype EColumn = COL_PROTO | COL_PROTO_STATE
  | COL_SRC_ADDRESS | COL_SRC_PORT | COL_SRC_COUNTRY | COL_SRC_ASN | COL_SRC_ASN_ORG_NAME
  | COL_DST_ADDRESS | COL_DST_PORT | COL_DST_COUNTRY | COL_DST_ASN | COL_DST_ASN_ORG_NAME
  | COL_RX_PACKETS | COL_RX_BYTES | COL_RX_SPEED | COL_TX_PACKETS | COL_TX_BYTES | COL_TX_SPEED

definition COLUMN_COUNT :: nat where
  "COLUMN_COUNT = 18"

fun GetDefaultWidth :: "EColumn \<Rightarrow> nat" where
  "GetDefaultWidth COL_PROTO = 6"
| "GetDefaultWidth COL_PROTO_STATE = 12"
| "GetDefaultWidth COL_SRC_ADDRESS = 40"
| "GetDefaultWidth COL_SRC_PORT = 6"
| "GetDefaultWidth COL_SRC_COUNTRY = 2"
| "GetDefaultWidth COL_SRC_ASN = 12"
| "GetDefaultWidth COL_SRC_ASN_ORG_NAME = 20"
| "GetDefaultWidth COL_DST_ADDRESS = 40"
| "GetDefaultWidth COL_DST_PORT = 6"
| "GetDefaultWidth COL_DST_COUNTRY = 2"
| "GetDefaultWidth COL_DST_ASN = 12"
| "GetDefaultWidth COL_DST_ASN_ORG_NAME = 20"
| "GetDefaultWidth COL_RX_PACKETS = 6"
| "GetDefaultWidth COL_RX_BYTES = 9"
| "GetDefaultWidth COL_RX_SPEED = 11"
| "GetDefaultWidth COL_TX_PACKETS = 6"
| "GetDefaultWidth COL_TX_BYTES = 9"
| "GetDefaultWidth COL_TX_SPEED = 11"

fun GetLabel :: "EColumn \<Rightarrow> KString" where
  "GetLabel COL_PROTO = ''PROTO''"
| "GetLabel COL_PROTO_STATE = ''STATE''"
| "GetLabel COL_SRC_ADDRESS = ''SOURCE''"
| "GetLabel COL_DST_ADDRESS = ''DESTINATION''"
| "GetLabel COL_RX_PACKETS = ''DOWN''"
| "GetLabel COL_RX_BYTES = ''DOWN''"
| "GetLabel COL_RX_SPEED = ''DOWN''"
| "GetLabel COL_TX_PACKETS = ''UP''"
| "GetLabel COL_TX_BYTES = ''UP''"
| "GetLabel COL_TX_SPEED = ''UP''"
| "GetLabel _ = []"

fun GetName :: "EColumn \<Rightarrow> KString" where
  "GetName COL_PROTO = ''Connection protocol''"
| "GetName COL_PROTO_STATE = ''Connection protocol state''"
| "GetName COL_SRC_ADDRESS = ''Source address''"
| "GetName COL_SRC_PORT = ''Source port''"
| "GetName COL_SRC_COUNTRY = ''Source country''"
| "GetName COL_SRC_ASN = ''Source AS number''"
| "GetName COL_SRC_ASN_ORG_NAME = ''Source AS organization name''"
| "GetName COL_DST_ADDRESS = ''Destination address''"
| "GetName COL_DST_PORT = ''Destination port''"
| "GetName COL_DST_COUNTRY = ''Destination country''"
| "GetName COL_DST_ASN = ''Destination AS number''"
| "GetName COL_DST_ASN_ORG_NAME = ''Destination AS organization name''"
| "GetName COL_RX_PACKETS = ''Number of received packets''"
| "GetName COL_RX_BYTES = ''Number of received bytes''"
| "GetName COL_RX_SPEED = ''Current receive speed''"
| "GetName COL_TX_PACKETS = ''Number of sent packets''"
| "GetName COL_TX_BYTES = ''Number of sent bytes''"
| "GetName COL_TX_SPEED = ''Current receive speed''"

record ConnectionColumn =
  cc_type :: EColumn
  cc_width :: nat
  cc_hasLabel :: bool

definition cc_getLabel :: "ConnectionColumn \<Rightarrow> KString" where
  "cc_getLabel c = (if cc_hasLabel c then GetLabel (cc_type c) else [])"

record ColumnConfig =
  cf_type :: EColumn
  cf_width :: nat
  cf_isEnabled :: bool

definition ColumnConfig_create :: "EColumn \<Rightarrow> bool \<Rightarrow> ColumnConfig" where
  "ColumnConfig_create type isEnabled = \<lparr>cf_type = type, cf_width = GetDefaultWidth type, cf_isEnabled = isEnabled\<rparr>"

section \<open>The dialog of the columns\<close>

record DialogConnectionColumns =
  dc_columns :: "ConnectionColumn list"
  dc_columnConfig :: "ColumnConfig list"
  dc_columnConfigOld :: "ColumnConfig list"
  dc_cursorPos :: nat
  dc_drawn :: "nat list"

definition default_config :: "ColumnConfig list" where
  "default_config = map (\<lambda>(t, b). ColumnConfig_create t b)
     [(COL_PROTO, True), (COL_PROTO_STATE, False),
      (COL_SRC_ADDRESS, True), (COL_SRC_PORT, True), (COL_SRC_COUNTRY, True), (COL_SRC_ASN, False), (COL_SRC_ASN_ORG_NAME, False),
      (COL_DST_ADDRESS, True), (COL_DST_PORT, True), (COL_DST_COUNTRY, True), (COL_DST_ASN, False), (COL_DST_ASN_ORG_NAME, False),
      (COL_RX_PACKETS, False), (COL_RX_BYTES, False), (COL_RX_SPEED, True),
      (COL_TX_PACKETS, False), (COL_TX_BYTES, False), (COL_TX_SPEED, True)]"

definition dc_drawEntry :: "nat \<Rightarrow> DialogConnectionColumns \<Rightarrow> DialogConnectionColumns" where
  "dc_drawEntry i dc = dc\<lparr>dc_drawn := dc_drawn dc @ [i]\<rparr>"

definition dc_draw :: "DialogConnectionColumns \<Rightarrow> DialogConnectionColumns" where
  "dc_draw dc = dc\<lparr>dc_drawn := dc_drawn dc @ [0..<length (dc_columnConfig dc)]\<rparr>"

text \<open>What \<open>drawEntry\<close> writes, and whether it is highlighted.\<close>

definition entry_look :: "DialogConnectionColumns \<Rightarrow> nat \<Rightarrow> string \<times> bool" where
  "entry_look dc i =
     (let config = dc_columnConfig dc ! i
      in ((if cf_isEnabled config then '' [x] - '' else '' [ ] - '') @ GetName (cf_type config) @ '' - '' @ to_string (cf_width config),
          dc_cursorPos dc = i))"

text \<open>The loop of \<open>applyConfig\<close>; the first two arguments are \<open>hasLabelDown\<close> and \<open>hasLabelUp\<close>.\<close>

fun apply_loop :: "bool \<Rightarrow> bool \<Rightarrow> ColumnConfig list \<Rightarrow> ConnectionColumn list" where
  "apply_loop down up [] = []"
| "apply_loop down up (config # configs) =
     (if \<not> cf_isEnabled config then apply_loop down up configs
      else
        let col = (\<lambda>label. \<lparr>cc_type = cf_type config, cc_width = cf_width config, cc_hasLabel = label\<rparr>)
        in if cf_type config \<in> {COL_RX_PACKETS, COL_RX_BYTES, COL_RX_SPEED}
           then col (\<not> down) # apply_loop True up configs
           else if cf_type config \<in> {COL_TX_PACKETS, COL_TX_BYTES, COL_TX_SPEED}
           then col (\<not> up) # apply_loop down True configs
           else col True # apply_loop down up configs)"

definition dc_applyConfig :: "DialogConnectionColumns \<Rightarrow> DialogConnectionColumns" where
  "dc_applyConfig dc =
     dc\<lparr>dc_columns := apply_loop False False (dc_columnConfig dc), dc_columnConfigOld := dc_columnConfig dc\<rparr>"

definition dc_restoreConfig :: "DialogConnectionColumns \<Rightarrow> DialogConnectionColumns" where
  "dc_restoreConfig dc = dc_draw (dc\<lparr>dc_columnConfig := dc_columnConfigOld dc\<rparr>)"

definition DialogConnectionColumns_create :: DialogConnectionColumns where
  "DialogConnectionColumns_create =
     dc_draw (dc_applyConfig \<lparr>dc_columns = [], dc_columnConfig = default_config, dc_columnConfigOld = default_config,
       dc_cursorPos = 0, dc_drawn = []\<rparr>)"

definition getColumnsTotalWidth :: "ConnectionColumn list \<Rightarrow> nat" where
  "getColumnsTotalWidth columns =
     (let width = foldl (\<lambda>w c. w + cc_width c + 1) 0 columns in if width > 0 then width - 1 else width)"

definition isColumnEnabled :: "EColumn \<Rightarrow> DialogConnectionColumns \<Rightarrow> bool" where
  "isColumnEnabled type dc = list_ex (\<lambda>c. cc_type c = type) (dc_columns dc)"

text \<open>The offset of a page or a row, for a dialog of the given height, bounded by what is left.\<close>

definition key_offset :: "bool \<Rightarrow> nat \<Rightarrow> nat \<Rightarrow> nat" where
  "key_offset page height maxOffset =
     (let offset = (if page \<and> height > 1 then height - 1 else 1) in if offset > maxOffset then maxOffset else offset)"

definition dc_config_upd :: "(ColumnConfig \<Rightarrow> ColumnConfig) \<Rightarrow> DialogConnectionColumns \<Rightarrow> DialogConnectionColumns" where
  "dc_config_upd f dc =
     dc_drawEntry (dc_cursorPos dc)
       (dc\<lparr>dc_columnConfig := (dc_columnConfig dc)[dc_cursorPos dc := f (dc_columnConfig dc ! dc_cursorPos dc)]\<rparr>)"

text \<open>The results: whether the key is handled, and the argument of \<open>close\<close>, if it is called.\<close>

definition dc_handleKey ::
  "nat \<Rightarrow> key \<Rightarrow> DialogConnectionColumns \<Rightarrow> bool \<times> bool option \<times> DialogConnectionColumns" where
  "dc_handleKey height ch dc =
     (let config = dc_columnConfig dc ! dc_cursorPos dc
      in if ch \<in> {KEY_UP, KEY_PPAGE}
         then
           let offset = key_offset (ch = KEY_PPAGE) height (dc_cursorPos dc)
           in if offset > 0
              then (True, None, dc_drawEntry (dc_cursorPos dc - offset)
                     (dc_drawEntry (dc_cursorPos dc) (dc\<lparr>dc_cursorPos := dc_cursorPos dc - offset\<rparr>)))
              else (True, None, dc)
         else if ch \<in> {KEY_DOWN, KEY_NPAGE}
         then
           let offset = key_offset (ch = KEY_NPAGE) height (length (dc_columnConfig dc) - dc_cursorPos dc - 1)
           in if offset > 0
              then (True, None, dc_drawEntry (dc_cursorPos dc + offset)
                     (dc_drawEntry (dc_cursorPos dc) (dc\<lparr>dc_cursorPos := dc_cursorPos dc + offset\<rparr>)))
              else (True, None, dc)
         else if ch = KEY_LEFT
         then (True, None, if cf_width config > 2 then dc_config_upd (\<lambda>c. c\<lparr>cf_width := cf_width c - 1\<rparr>) dc else dc)
         else if ch = KEY_RIGHT
         then (True, None, if cf_width config < 99 then dc_config_upd (\<lambda>c. c\<lparr>cf_width := cf_width c + 1\<rparr>) dc else dc)
         else if ch = KEY_SPACE
         then (True, None, dc_config_upd (\<lambda>c. c\<lparr>cf_isEnabled := \<not> cf_isEnabled c\<rparr>) dc)
         else if ch \<in> {KEY_ENTER, KEY_ESC} then (True, Some (ch = KEY_ENTER), dc)
         else (False, None, dc))"

text \<open>The part of \<open>close\<close> that concerns the dialog itself.\<close>

definition dc_close :: "bool \<Rightarrow> DialogConnectionColumns \<Rightarrow> DialogConnectionColumns" where
  "dc_close apply' dc = (if apply' then dc_applyConfig dc else dc_restoreConfig dc)"

section \<open>The dialog of the sort mode\<close>

definition SORT_MODE_COUNT :: nat where
  "SORT_MODE_COUNT = 21"

definition SORT_MODE_NAMES :: "KString list" where
  "SORT_MODE_NAMES =
     [''None'', ''Connection protocol'', ''Connection protocol state'', ''Source address'', ''Source hostname'', ''Source ASN'',
      ''Source country'', ''Source port'', ''Source service'', ''Destination address'', ''Destination hostname'',
      ''Destination ASN'', ''Destination country'', ''Destination port'', ''Destination service'', ''Received packets'',
      ''Sent packets'', ''Received bytes'', ''Sent bytes'', ''Receive speed'', ''Send speed'']"

text \<open>The enumerators in their order, for the casts from and to numbers.\<close>

definition sort_modes :: "EConnectionSortMode list" where
  "sort_modes =
     [NONE, PROTO, PROTO_STATE, SRC_ADDRESS, SRC_HOSTNAME, SRC_ASN, SRC_COUNTRY, SRC_PORT, SRC_SERVICE,
      DST_ADDRESS, DST_HOSTNAME, DST_ASN, DST_COUNTRY, DST_PORT, DST_SERVICE,
      RX_PACKETS, TX_PACKETS, RX_BYTES, TX_BYTES, RX_SPEED, TX_SPEED]"

definition sort_number :: "EConnectionSortMode \<Rightarrow> nat" where
  "sort_number m = length (takeWhile (\<lambda>x. x \<noteq> m) sort_modes)"

record DialogConnectionSort =
  ds_sortMode :: EConnectionSortMode
  ds_cursorPos :: nat
  ds_isSortAscending :: bool
  ds_checkBoxState :: bool
  ds_drawn :: "nat list"

text \<open>\<open>drawEntry\<close> draws the check box for every number from \<open>SORT_MODE_COUNT\<close> on.\<close>

definition ds_drawEntry :: "nat \<Rightarrow> DialogConnectionSort \<Rightarrow> DialogConnectionSort" where
  "ds_drawEntry i ds = ds\<lparr>ds_drawn := ds_drawn ds @ [if i \<ge> SORT_MODE_COUNT then SORT_MODE_COUNT else i]\<rparr>"

definition ds_draw :: "DialogConnectionSort \<Rightarrow> DialogConnectionSort" where
  "ds_draw ds = ds\<lparr>ds_drawn := ds_drawn ds @ [0..<SORT_MODE_COUNT] @ [SORT_MODE_COUNT]\<rparr>"

definition ds_entry_look :: "DialogConnectionSort \<Rightarrow> nat \<Rightarrow> string \<times> bool" where
  "ds_entry_look ds i =
     (if i < SORT_MODE_COUNT then SORT_MODE_NAMES ! i
      else (if ds_checkBoxState ds then ''[x] - '' else ''[ ] - '') @ ''Ascending sort'', ds_cursorPos ds = i)"

definition DialogConnectionSort_create :: DialogConnectionSort where
  "DialogConnectionSort_create =
     ds_draw \<lparr>ds_sortMode = NONE, ds_cursorPos = 0, ds_isSortAscending = False, ds_checkBoxState = False, ds_drawn = []\<rparr>"

definition ds_applyConfig :: "DialogConnectionSort \<Rightarrow> DialogConnectionSort" where
  "ds_applyConfig ds =
     ds\<lparr>ds_sortMode := sort_modes ! (if ds_cursorPos ds < SORT_MODE_COUNT then ds_cursorPos ds else 0),
        ds_isSortAscending := ds_checkBoxState ds\<rparr>"

definition ds_restoreConfig :: "DialogConnectionSort \<Rightarrow> DialogConnectionSort" where
  "ds_restoreConfig ds =
     ds_draw (ds\<lparr>ds_cursorPos := sort_number (ds_sortMode ds), ds_checkBoxState := ds_isSortAscending ds\<rparr>)"

definition ds_close :: "bool \<Rightarrow> DialogConnectionSort \<Rightarrow> DialogConnectionSort" where
  "ds_close apply' ds = (if apply' then ds_applyConfig ds else ds_restoreConfig ds)"

definition ds_handleKey ::
  "nat \<Rightarrow> key \<Rightarrow> DialogConnectionSort \<Rightarrow> bool \<times> bool option \<times> DialogConnectionSort" where
  "ds_handleKey height ch ds =
     (if ch \<in> {KEY_LEFT, KEY_RIGHT} then (True, None, ds)
      else if ch \<in> {KEY_UP, KEY_PPAGE}
      then
        let offset = key_offset (ch = KEY_PPAGE) height (ds_cursorPos ds)
        in if offset > 0
           then (True, None, ds_drawEntry (ds_cursorPos ds - offset)
                  (ds_drawEntry (ds_cursorPos ds) (ds\<lparr>ds_cursorPos := ds_cursorPos ds - offset\<rparr>)))
           else (True, None, ds)
      else if ch \<in> {KEY_DOWN, KEY_NPAGE}
      then
        let offset = key_offset (ch = KEY_NPAGE) height (SORT_MODE_COUNT - ds_cursorPos ds)
        in if offset > 0
           then (True, None, ds_drawEntry (ds_cursorPos ds + offset)
                  (ds_drawEntry (ds_cursorPos ds) (ds\<lparr>ds_cursorPos := ds_cursorPos ds + offset\<rparr>)))
           else (True, None, ds)
      else if ch = KEY_SPACE
      then (True, None,
            if ds_cursorPos ds = SORT_MODE_COUNT
            then ds_drawEntry SORT_MODE_COUNT (ds\<lparr>ds_checkBoxState := \<not> ds_checkBoxState ds\<rparr>) else ds)
      else if ch = KEY_ENTER then (True, if ds_cursorPos ds < SORT_MODE_COUNT then Some True else None, ds)
      else if ch = KEY_ESC then (True, Some False, ds)
      else (False, None, ds))"

section \<open>Invariants\<close>

text \<open>All types in their order; the widths are between 2 and 99.\<close>

definition config_ok :: "ColumnConfig list \<Rightarrow> bool" where
  "config_ok cs \<longleftrightarrow> map cf_type cs = map cf_type default_config \<and> (\<forall>c \<in> set cs. 2 \<le> cf_width c \<and> cf_width c \<le> 99)"

definition dc_ok :: "DialogConnectionColumns \<Rightarrow> bool" where
  "dc_ok dc \<longleftrightarrow>
     config_ok (dc_columnConfig dc) \<and> config_ok (dc_columnConfigOld dc) \<and> dc_cursorPos dc < COLUMN_COUNT \<and>
     dc_columns dc = apply_loop False False (dc_columnConfigOld dc)"

definition ds_ok :: "DialogConnectionSort \<Rightarrow> bool" where
  "ds_ok ds \<longleftrightarrow> ds_cursorPos ds \<le> SORT_MODE_COUNT"

lemma config_ok_length: "config_ok cs \<Longrightarrow> length cs = COLUMN_COUNT"
proof -
  assume "config_ok cs"
  then have "length (map cf_type cs) = length (map cf_type default_config)" by (simp only: config_ok_def)
  then show ?thesis by (simp add: COLUMN_COUNT_def default_config_def)
qed

lemma config_ok_default: "config_ok default_config"
  by (simp add: config_ok_def default_config_def ColumnConfig_create_def)

lemma config_ok_upd:
  assumes "config_ok cs" and "i < COLUMN_COUNT" and "cf_type (f (cs ! i)) = cf_type (cs ! i)"
    and "2 \<le> cf_width (f (cs ! i)) \<and> cf_width (f (cs ! i)) \<le> 99"
  shows "config_ok (cs[i := f (cs ! i)])"
proof -
  have "i < length cs" using config_ok_length [OF assms(1)] assms(2) by simp
  then have "map cf_type (cs[i := f (cs ! i)]) = map cf_type cs" using assms(3) by (rule map_eq_nth_update)
  then show ?thesis using assms(1,4) by (auto simp: config_ok_def dest!: set_update_subset_insert [THEN subsetD])
qed

lemma config_ok_nth: "config_ok cs \<Longrightarrow> i < COLUMN_COUNT \<Longrightarrow> 2 \<le> cf_width (cs ! i) \<and> cf_width (cs ! i) \<le> 99"
  using config_ok_length by (auto simp: config_ok_def)

lemma key_offset_le: "key_offset page height m \<le> m"
  by (simp add: key_offset_def Let_def)

lemma dc_ok_create: "dc_ok DialogConnectionColumns_create"
  by (simp add: dc_ok_def DialogConnectionColumns_create_def dc_draw_def dc_applyConfig_def config_ok_default COLUMN_COUNT_def)

lemma dc_ok_drawn [simp]: "dc_ok (dc\<lparr>dc_drawn := ds\<rparr>) = dc_ok dc"
  by (simp add: dc_ok_def)

lemma dc_ok_config_upd:
  assumes "dc_ok dc" and "cf_type (f (dc_columnConfig dc ! dc_cursorPos dc)) = cf_type (dc_columnConfig dc ! dc_cursorPos dc)"
    and "2 \<le> cf_width (f (dc_columnConfig dc ! dc_cursorPos dc)) \<and> cf_width (f (dc_columnConfig dc ! dc_cursorPos dc)) \<le> 99"
  shows "dc_ok (dc_config_upd f dc)"
  using assms config_ok_upd by (simp add: dc_config_upd_def dc_drawEntry_def dc_ok_def)

lemma dc_ok_close: "dc_ok dc \<Longrightarrow> dc_ok (dc_close b dc)"
  by (simp add: dc_close_def dc_applyConfig_def dc_restoreConfig_def dc_draw_def dc_ok_def)

lemma dc_ok_handleKey:
  assumes "dc_ok dc" and "dc_handleKey height ch dc = (b, c, dc')"
  shows "dc_ok dc'"
proof -
  have w: "2 \<le> cf_width (dc_columnConfig dc ! dc_cursorPos dc) \<and> cf_width (dc_columnConfig dc ! dc_cursorPos dc) \<le> 99"
    using assms(1) config_ok_nth by (simp add: dc_ok_def)
  have len: "length (dc_columnConfig dc) = COLUMN_COUNT" using assms(1) config_ok_length by (simp add: dc_ok_def)
  have up: "dc_ok (dc\<lparr>dc_cursorPos := dc_cursorPos dc - n\<rparr>)" for n using assms(1) by (auto simp: dc_ok_def)
  have down: "dc_ok (dc\<lparr>dc_cursorPos := dc_cursorPos dc + key_offset p height (COLUMN_COUNT - dc_cursorPos dc - 1)\<rparr>)" for p
    using assms(1) key_offset_le [of p height "COLUMN_COUNT - dc_cursorPos dc - 1"] by (auto simp: dc_ok_def)
  show ?thesis
    using assms up down w by (auto simp: dc_handleKey_def Let_def dc_drawEntry_def len intro!: dc_ok_config_upd split: if_splits)
qed

lemma ds_ok_handleKey: "ds_ok ds \<Longrightarrow> ds_handleKey height ch ds = (b, c, ds') \<Longrightarrow> ds_ok ds'"
  using key_offset_le [of "ch = KEY_NPAGE" height "SORT_MODE_COUNT - ds_cursorPos ds"]
  by (auto simp: ds_handleKey_def ds_ok_def Let_def ds_drawEntry_def split: if_splits)

lemma sort_number_le: "sort_number m \<le> SORT_MODE_COUNT"
  using length_takeWhile_le [of "\<lambda>x. x \<noteq> m" sort_modes] by (simp add: sort_number_def sort_modes_def SORT_MODE_COUNT_def)

lemma ds_ok_close: "ds_ok ds \<Longrightarrow> ds_ok (ds_close b ds)"
  by (simp add: ds_close_def ds_applyConfig_def ds_restoreConfig_def ds_draw_def ds_ok_def sort_number_le)

lemma ds_ok_create: "ds_ok DialogConnectionSort_create"
  by (simp add: DialogConnectionSort_create_def ds_draw_def ds_ok_def)

section \<open>Everything that looks different is drawn again\<close>

definition redrawn :: "('d \<Rightarrow> nat list) \<Rightarrow> ('d \<Rightarrow> nat \<Rightarrow> 'l) \<Rightarrow> nat \<Rightarrow> 'd \<Rightarrow> 'd \<Rightarrow> bool" where
  "redrawn drawn look n d d' \<longleftrightarrow>
     (\<exists>new. drawn d' = drawn d @ new \<and> (\<forall>i < n. look d' i \<noteq> look d i \<longrightarrow> i \<in> set new))"

lemma dc_config_upd_redraws: "redrawn dc_drawn entry_look n dc (dc_config_upd f dc)"
proof -
  have "entry_look (dc_config_upd f dc) i = entry_look dc i" if "i \<noteq> dc_cursorPos dc" for i
    using that by (simp add: entry_look_def dc_config_upd_def dc_drawEntry_def)
  then show ?thesis by (auto simp: redrawn_def) (auto simp: dc_config_upd_def dc_drawEntry_def)
qed

lemma dc_cursor_redraws:
  "redrawn dc_drawn entry_look n dc (dc_drawEntry p (dc_drawEntry (dc_cursorPos dc) (dc\<lparr>dc_cursorPos := p\<rparr>)))"
  by (auto simp: redrawn_def dc_drawEntry_def entry_look_def Let_def)

lemma redrawn_refl: "redrawn drawn look n d d"
  by (simp add: redrawn_def)

lemma dc_redraws: "dc_handleKey height ch dc = (b, c, dc') \<Longrightarrow> redrawn dc_drawn entry_look n dc dc'"
  by (auto simp: dc_handleKey_def Let_def dc_config_upd_redraws dc_cursor_redraws redrawn_refl split: if_splits)

lemma dc_close_redraws: "dc_ok dc \<Longrightarrow> redrawn dc_drawn entry_look COLUMN_COUNT dc (dc_close b dc)"
  using config_ok_length [of "dc_columnConfigOld dc"]
  by (auto simp: redrawn_def dc_ok_def dc_close_def dc_applyConfig_def dc_restoreConfig_def dc_draw_def entry_look_def Let_def)

lemma ds_redraws:
  assumes "ds_ok ds" and "ds_handleKey height ch ds = (b, c, ds')"
  shows "redrawn ds_drawn ds_entry_look (Suc SORT_MODE_COUNT) ds ds'"
  using assms unfolding redrawn_def ds_ok_def
  by (auto simp: ds_handleKey_def Let_def ds_drawEntry_def ds_entry_look_def split: if_splits)

lemma ds_close_redraws: "redrawn ds_drawn ds_entry_look (Suc SORT_MODE_COUNT) ds (ds_close b ds)"
  by (auto simp: redrawn_def ds_close_def ds_applyConfig_def ds_restoreConfig_def ds_draw_def ds_entry_look_def)

end
