(* ===== verification/HumanSize.thy ===== *)
theory HumanSize
  imports Complex_Main Prelude
begin

text \<open>
  \<^verbatim>\<open>Util::GetHumanReadableSize\<close> (\<^verbatim>\<open>Util.cpp\<close>). The source computes with
  \<^verbatim>\<open>double\<close>: a value is a rational number, and every conversion and division rounds to 53
  significant bits, ties to even. The exponent range does not matter between 1 and \<open>2 ^ 64\<close>.
  \<^verbatim>\<open>%.1f\<close> prints the exact value rounded to tenths, ties to even.
\<close>

section \<open>Rounding\<close>

definition round_even :: "rat \<Rightarrow> int" where
  "round_even q =
     (let f = \<lfloor>q\<rfloor>; d = q - of_int f
      in if d < 1 / 2 then f else if d > 1 / 2 then f + 1 else if even f then f else f + 1)"

text \<open>The distance of the doubles around a number of at least 1.\<close>

function exponent :: "int \<Rightarrow> nat" where
  "exponent n = (if n < 2 then 0 else Suc (exponent (n div 2)))"
  by pat_completeness auto
termination by (relation "measure nat") auto

declare exponent.simps [simp del]

definition ulp :: "rat \<Rightarrow> rat" where
  "ulp q = 2 ^ exponent \<lfloor>q\<rfloor> / 2 ^ 52"

definition to_double :: "rat \<Rightarrow> rat" where
  "to_double q = of_int (round_even (q / ulp q)) * ulp q"

section \<open>The function\<close>

definition SIZE_UNITS :: string where
  "SIZE_UNITS = ''kMGTPEZ''"

definition LAST_UNIT :: nat where
  "LAST_UNIT = length SIZE_UNITS - 1"

function size_loop :: "rat \<Rightarrow> nat \<Rightarrow> rat \<times> nat" where
  "size_loop value unit =
     (if unit < LAST_UNIT
      then
        let v = to_double (value / 1000)
        in if v < 2000 then (v, unit) else size_loop v (unit + 1)
      else (value, unit))"
  by pat_completeness auto
termination by (relation "measure (\<lambda>(value, unit). LAST_UNIT - unit)") auto

declare size_loop.simps [simp del]

definition print_tenths :: "rat \<Rightarrow> string" where
  "print_tenths value =
     (let t = nat (round_even (value * 10)) in to_string (t div 10) @ ''.'' @ to_string (t mod 10))"

definition GetHumanReadableSize :: "u64 \<Rightarrow> string" where
  "GetHumanReadableSize bytes =
     (if bytes = 0 then ''0 B''
      else if bytes < 2000 then to_string (unat bytes) @ '' B''
      else
        let (value, unit) = size_loop (to_double (of_int (uint bytes))) 0
        in take 15 (print_tenths value @ '' '' @ [SIZE_UNITS ! unit] @ ''B''))"

section \<open>Rounding to even\<close>

lemma round_even_near: "\<bar>of_int (round_even q) - q\<bar> \<le> 1 / 2"
  using of_int_floor_le [of q] floor_correct [of q] by (auto simp: round_even_def Let_def)

lemma round_even_ge: "of_int n \<le> q \<Longrightarrow> n \<le> round_even q"
  using le_floor_iff [of n q] by (auto simp: round_even_def Let_def)

lemma round_even_le:
  assumes "q \<le> of_int n"
  shows "round_even q \<le> n"
proof (cases "\<lfloor>q\<rfloor> = n")
  case True
  with assms have "q = of_int n" using of_int_floor_le [of q] by (simp add: order_antisym)
  then show ?thesis by (simp add: round_even_def)
next
  case False
  then have "\<lfloor>q\<rfloor> < n" using floor_mono [OF assms] by simp
  then show ?thesis by (auto simp: round_even_def Let_def)
qed

lemma exponent_le: "n \<ge> 1 \<Longrightarrow> 2 ^ exponent n \<le> n"
proof (induction n rule: exponent.induct)
  case (1 n)
  show ?case
  proof (cases "n < 2")
    case False
    with 1 have "2 ^ exponent (n div 2) \<le> n div 2" by simp
    then have "2 * 2 ^ exponent (n div 2) \<le> n" by linarith
    with False show ?thesis by (simp add: exponent.simps [of n])
  qed (use 1 in \<open>simp add: exponent.simps [of n]\<close>)
qed

lemma ulp_pos: "ulp q > 0"
  by (simp add: ulp_def)

lemma ulp_small: "q \<ge> 1 \<Longrightarrow> ulp q * 2 ^ 52 \<le> q"
proof -
  assume "q \<ge> 1"
  then have "2 ^ exponent \<lfloor>q\<rfloor> \<le> \<lfloor>q\<rfloor>" by (intro exponent_le) simp
  then have "of_int (2 ^ exponent \<lfloor>q\<rfloor>) \<le> q" by (simp only: le_floor_iff)
  then show ?thesis by (simp add: ulp_def)
qed

lemma to_double_near:
  assumes "q \<ge> 1"
  shows "\<bar>to_double q - q\<bar> \<le> q / 2 ^ 53"
proof -
  let ?r = "of_int (round_even (q / ulp q)) :: rat"
  have "to_double q - q = (?r - q / ulp q) * ulp q" using ulp_pos [of q] by (simp add: to_double_def field_simps)
  then have "\<bar>to_double q - q\<bar> = \<bar>?r - q / ulp q\<bar> * ulp q" using ulp_pos [of q] by (simp add: abs_mult)
  also have "\<dots> \<le> 1 / 2 * ulp q" using round_even_near ulp_pos [of q] by (intro mult_right_mono) simp_all
  also have "\<dots> \<le> q / 2 ^ 53" using ulp_small [OF assms] by simp
  finally show ?thesis .
qed

text \<open>A power of two is not passed by rounding.\<close>

lemma to_double_ge:
  assumes "q \<ge> 2"
  shows "to_double q \<ge> 2"
proof -
  have e: "exponent \<lfloor>q\<rfloor> \<ge> 1" using assms by (subst exponent.simps) simp
  have "of_int (2 ^ 52) \<le> q / ulp q" using ulp_small [of q] ulp_pos [of q] assms by (simp add: field_simps)
  then have "2 ^ 52 \<le> round_even (q / ulp q)" by (rule round_even_ge)
  then have "of_int (2 ^ 52) \<le> (of_int (round_even (q / ulp q)) :: rat)" by (simp only: of_int_le_iff)
  then have "2 ^ 52 * ulp q \<le> to_double q" unfolding to_double_def using ulp_pos [of q] by (intro mult_right_mono) simp_all
  moreover have "(2 :: rat) ^ 1 \<le> 2 ^ exponent \<lfloor>q\<rfloor>" using e by (intro power_increasing) simp_all
  ultimately show ?thesis by (simp add: ulp_def)
qed

section \<open>The loop\<close>

text \<open>The value of the loop differs from the exact quotient by less than \<open>k\<close> times \<open>2 ^ -52\<close> of it.\<close>

definition near :: "nat \<Rightarrow> rat \<Rightarrow> rat \<Rightarrow> bool" where
  "near k v x \<longleftrightarrow> \<bar>v - x\<bar> \<le> x * (of_nat k / 2 ^ 52)"

lemma near_step:
  assumes "near k v x" and "v \<ge> 1000" and "x \<ge> 0" and "k \<le> 7"
  shows "near (Suc k) (to_double (v / 1000)) (x / 1000)"
proof -
  have d: "\<bar>to_double (v / 1000) - v / 1000\<bar> \<le> v / 1000 / 2 ^ 53" using assms(2) by (intro to_double_near) simp
  have "x * (of_nat k / 2 ^ 52) \<le> x * 1" using assms(3,4) by (intro mult_left_mono) simp_all
  then have "\<bar>v - x\<bar> \<le> x" using assms(1) unfolding near_def by linarith
  then have "v \<le> 2 * x" by linarith
  then have "v / 1000 / 2 ^ 53 \<le> x / 1000 / 2 ^ 52" by simp
  with d have d': "\<bar>to_double (v / 1000) - v / 1000\<bar> \<le> x / 1000 / 2 ^ 52" by linarith
  have "\<bar>v / 1000 - x / 1000\<bar> = \<bar>v - x\<bar> / 1000" by (simp flip: diff_divide_distrib)
  also have "\<dots> \<le> x * (of_nat k / 2 ^ 52) / 1000" using assms(1) by (simp add: near_def)
  finally have "\<bar>v / 1000 - x / 1000\<bar> \<le> x * (of_nat k / 2 ^ 52) / 1000" .
  with d' have "\<bar>to_double (v / 1000) - x / 1000\<bar> \<le> x / 1000 / 2 ^ 52 + x * (of_nat k / 2 ^ 52) / 1000" by linarith
  also have "\<dots> = x / 1000 * (of_nat (Suc k) / 2 ^ 52)" by (simp add: field_simps)
  finally show ?thesis by (simp add: near_def)
qed

lemma near_le: "near k v x \<Longrightarrow> k \<le> 8 \<Longrightarrow> x \<ge> 0 \<Longrightarrow> \<bar>v - x\<bar> \<le> x / 2 ^ 49"
proof -
  assume "near k v x" "k \<le> 8" "x \<ge> 0"
  then have "x * (of_nat k / 2 ^ 52) \<le> x * (8 / 2 ^ 52)" by (intro mult_left_mono) simp_all
  with \<open>near k v x\<close> show ?thesis by (simp add: near_def)
qed

lemma size_loop_result:
  assumes "near (Suc unit) w (b / 1000 ^ unit)" and "w \<ge> 2000" and "unit \<le> 6" and "0 \<le> b" and "b < 2 ^ 64"
  shows "\<exists>v u. size_loop w unit = (v, u) \<and> u < 6 \<and> 2 \<le> v \<and> v < 2000 \<and> near (Suc (Suc u)) v (b / 1000 ^ Suc u)"
  using assms
proof (induction w unit rule: size_loop.induct)
  case (1 w unit)
  have last: "LAST_UNIT = 6" by (simp add: LAST_UNIT_def SIZE_UNITS_def)
  show ?case
  proof (cases "unit = 6")
    case True
    have "\<bar>w - b / 1000 ^ 6\<bar> \<le> b / 1000 ^ 6 / 2 ^ 49" using near_le [OF 1(2)] 1(5) True by simp
    with 1(3,5,6) have False by (simp add: abs_le_iff)
    then show ?thesis ..
  next
    case False
    let ?v = "to_double (w / 1000)"
    have n: "near (Suc (Suc unit)) ?v (b / 1000 ^ Suc unit)"
      using near_step [OF 1(2)] 1(3,4,5) False by (simp add: mult.commute)
    show ?thesis
    proof (cases "?v < 2000")
      case True
      have "?v \<ge> 2" using 1(3) by (intro to_double_ge) simp
      with True n False 1(4) last show ?thesis by (simp add: size_loop.simps [of w])
    next
      case c: False
      have "unit < LAST_UNIT" using False 1(4) last by simp
      from 1(1) [OF this refl c] n c False 1(4-6) this show ?thesis by (simp add: size_loop.simps [of w])
    qed
  qed
qed

lemma to_string_digit: "n < 10 \<Longrightarrow> length (to_string n) = 1"
  by (simp add: to_string.simps)

lemma to_string_4: "n < 10000 \<Longrightarrow> length (to_string n) \<le> 4"
  by (subst to_string.simps, subst to_string.simps [of "n div 10"], subst to_string.simps [of "n div 10 div 10"],
      subst to_string.simps [of "n div 10 div 10 div 10"]) simp

lemma to_double_ge_2000:
  assumes "2000 \<le> (n :: int)"
  shows "to_double (of_int n) \<ge> 2000"
proof (cases "n = 2000")
  case True
  show ?thesis unfolding True by (simp add: to_double_def ulp_def exponent.simps round_even_def)
next
  case False
  let ?b = "of_int n :: rat"
  have "of_int 2001 \<le> ?b" unfolding of_int_le_iff using False assms by simp
  then have m: "2001 \<le> ?b" by (simp only: of_int_numeral)
  then have "\<bar>to_double ?b - ?b\<bar> \<le> ?b / 2 ^ 53" by (intro to_double_near) linarith
  then have "?b - ?b / 2 ^ 53 \<le> to_double ?b" by linarith
  moreover have "?b / 2 ^ 53 \<le> ?b / 2001" using m by (intro divide_left_mono) simp_all
  ultimately show ?thesis using m by linarith
qed

text \<open>
  C11: a size is never printed with more than nine characters, the default width of its column; from
  2000 bytes on it is printed as a number of tenths between 2.0 and 2000.0 in one of the six units from
  kB to EB, and the number differs from the exact one by at most half a tenth (and the error of the
  floating-point division, less than one millionth).
\<close>

theorem human_size_bounded:
  "length (GetHumanReadableSize bytes) \<le> 9 \<and>
   (2000 \<le> bytes \<longrightarrow> (\<exists>t u. GetHumanReadableSize bytes
        = to_string (t div 10) @ ''.'' @ to_string (t mod 10) @ '' '' @ [SIZE_UNITS ! u] @ ''B''
      \<and> u < 6 \<and> 20 \<le> t \<and> t \<le> 20000
      \<and> \<bar>of_nat t / 10 - of_int (uint bytes) / 1000 ^ Suc u\<bar> \<le> (1 / 20 + 1 / 1000000 :: rat)))"
proof (cases "2000 \<le> bytes")
  case True
  define n where "n = uint bytes"
  let ?b = "of_int n :: rat"
  have "n < 2 ^ 64" using uint_bounded [of bytes] by (simp add: n_def)
  then have "?b < of_int (2 ^ 64)" by (simp only: of_int_less_iff)
  then have b64: "?b < 2 ^ 64" by simp
  have "2000 \<le> n" using True by (simp add: word_le_def n_def)
  then have b: "2000 \<le> ?b" by simp
  have "near 1 (to_double ?b) ?b" using to_double_near [of ?b] b by (simp add: near_def)
  moreover have "to_double ?b \<ge> 2000" using \<open>2000 \<le> n\<close> by (rule to_double_ge_2000)
  ultimately obtain v u where l: "size_loop (to_double ?b) 0 = (v, u)" "u < 6" "2 \<le> v" "v < 2000"
    and near: "near (Suc (Suc u)) v (?b / 1000 ^ Suc u)"
    using size_loop_result [of 0 "to_double ?b" ?b] b b64 by auto
  let ?t = "nat (round_even (v * 10))" and ?x = "?b / 1000 ^ Suc u"
  have t: "20 \<le> round_even (v * 10)" "round_even (v * 10) \<le> 20000"
    using l(3,4) by (auto intro!: round_even_ge round_even_le)
  then have t': "20 \<le> ?t" "?t \<le> 20000" by simp_all
  have d: "\<bar>v - ?x\<bar> \<le> ?x / 2 ^ 49" using near_le [OF near] l(2) b by simp
  then have "?x \<le> 4000" using l(4) by (simp add: abs_le_iff)
  with d have d1: "\<bar>v - ?x\<bar> \<le> 1 / 1000000" by simp
  have "of_nat ?t = (of_int (round_even (v * 10)) :: rat)" using t(1) by simp
  then have "\<bar>of_nat ?t / 10 - v\<bar> \<le> 1 / 20" using round_even_near [of "v * 10"] unfolding abs_le_iff by linarith
  with d1 have acc: "\<bar>of_nat ?t / 10 - ?x\<bar> \<le> 1 / 20 + 1 / 1000000" by linarith
  have len: "length (to_string (?t div 10)) \<le> 4" "length (to_string (?t mod 10)) = 1"
    using t'(2) to_string_4 [of "?t div 10"] to_string_digit [of "?t mod 10"] by simp_all
  have "bytes \<noteq> 0" "\<not> bytes < 2000" using True by auto
  with l(1) len have eq: "GetHumanReadableSize bytes
      = to_string (?t div 10) @ ''.'' @ to_string (?t mod 10) @ '' '' @ [SIZE_UNITS ! u] @ ''B''"
    unfolding GetHumanReadableSize_def n_def [symmetric] by (simp add: print_tenths_def Let_def)
  have "length (GetHumanReadableSize bytes) \<le> 9" unfolding eq using len by simp
  with eq l(2) t' acc show ?thesis unfolding n_def [symmetric] by blast
next
  case False
  then have "unat bytes < 10000" using word_less_nat_alt [of bytes 2000] by (simp add: not_le)
  moreover have "bytes < 2000" using False by (simp add: not_le)
  ultimately show ?thesis using False to_string_4 [of "unat bytes"] by (simp add: GetHumanReadableSize_def)
qed

theorem human_size_bounded_witness:
  "\<exists>t u. GetHumanReadableSize 1999999
       = to_string (t div 10) @ ''.'' @ to_string (t mod 10) @ '' '' @ [SIZE_UNITS ! u] @ ''B'' \<and> u < 6 \<and> t \<le> 20000"
  using human_size_bounded [of 1999999] by auto

end
