(* ===== verification/RowDraw.thy ===== *)
theory RowDraw
  imports Dialogs HumanSize ConnListProps
begin

text \<open>
  How \<^verbatim>\<open>ScreenConnectionList\<close> draws a row of the list, cell by cell. Curses is an argument:
  the functions the source calls are the fields of \<open>curses\<close>, and what the source relies on is the
  locale \<open>curses_window\<close>, stated by the position, the attribute in effect and the cells of the window.
  Attributes are called by their names in \<^verbatim>\<open>ColorSystem\<close>.
\<close>

section \<open>Drawing functions\<close>

datatype EAttributeType = ATTR_DEFAULT | ATTR_IMPORTANT_RED | ATTR_IMPORTANT_GREEN
  | ATTR_FUNCTION_KEY_BAR_LABEL | ATTR_FUNCTION_KEY_BAR_NAME | ATTR_STATUS_LABEL | ATTR_STATUS_VALUE
  | ATTR_LIST_HEADER | ATTR_SELECTED_ROW | ATTR_UNRESOLVED | ATTR_UNRESOLVED_SELECTED
  | ATTR_TRAFFIC | ATTR_TRAFFIC_SELECTED | ATTR_PROTO_UDP | ATTR_PROTO_UDP_SELECTED | ATTR_PROTO_TCP | ATTR_PROTO_TCP_SELECTED
  | ATTR_COUNTRY_CODE | ATTR_COUNTRY_CODE_SELECTED

record 'w curses =
  wmove :: "int \<Rightarrow> int \<Rightarrow> 'w \<Rightarrow> 'w"
  waddch :: "char \<Rightarrow> 'w \<Rightarrow> 'w"
  waddnstr :: "string \<Rightarrow> int \<Rightarrow> 'w \<Rightarrow> 'w"
  wattron :: "EAttributeType \<Rightarrow> 'w \<Rightarrow> 'w"
  wattroff :: "EAttributeType \<Rightarrow> 'w \<Rightarrow> 'w"
  getposx :: "'w \<Rightarrow> int"
  getmaxx :: "'w \<Rightarrow> int"

text \<open>\<open>fillEmpty(count)\<close>, \<open>fillEmpty()\<close> and the functions that write one cell of the list.\<close>

fun fillEmpty_loop :: "'w curses \<Rightarrow> nat \<Rightarrow> 'w \<Rightarrow> 'w" where
  "fillEmpty_loop cu 0 w = w"
| "fillEmpty_loop cu (Suc n) w = fillEmpty_loop cu n (waddch cu CHR '' '' w)"

definition fillEmpty_count :: "'w curses \<Rightarrow> int \<Rightarrow> 'w \<Rightarrow> 'w" where
  "fillEmpty_count cu n w = fillEmpty_loop cu (nat n) w"

definition fillEmpty :: "'w curses \<Rightarrow> 'w \<Rightarrow> 'w" where
  "fillEmpty cu w = fillEmpty_count cu (getmaxx cu w - getposx cu w) w"

definition drawDataLeft :: "'w curses \<Rightarrow> KString \<Rightarrow> nat \<Rightarrow> EAttributeType \<Rightarrow> 'w \<Rightarrow> 'w" where
  "drawDataLeft cu data width attr w =
     (let w1 = wattron cu attr w;
          w2 = (if length data \<le> width
                then fillEmpty_count cu (int (width - length data)) (waddnstr cu data (- 1) w1)
                else waddnstr cu ''..'' (- 1) (if width > 2 then waddnstr cu data (int (width - 2)) w1 else w1))
      in wattroff cu attr w2)"

definition drawDataRight :: "'w curses \<Rightarrow> KString \<Rightarrow> nat \<Rightarrow> EAttributeType \<Rightarrow> 'w \<Rightarrow> 'w" where
  "drawDataRight cu data width attr w =
     (let w1 = wattron cu attr w;
          w2 = (if length data \<le> width
                then waddnstr cu data (- 1) (fillEmpty_count cu (int (width - length data)) w1)
                else waddnstr cu ''..'' (- 1) (if width > 2 then waddnstr cu data (int (width - 2)) w1 else w1))
      in wattroff cu attr w2)"

definition drawDataEmpty :: "'w curses \<Rightarrow> nat \<Rightarrow> EAttributeType \<Rightarrow> 'w \<Rightarrow> 'w" where
  "drawDataEmpty cu width attr w = wattroff cu attr (fillEmpty_count cu (int width) (wattron cu attr w))"

section \<open>What a column shows\<close>

record RowStyle =
  rs_columns :: "ConnectionColumn list"
  rs_columnsTotalWidth :: nat
  rs_showCursor :: bool
  rs_showHostname :: bool
  rs_showPortname :: bool

datatype cell_draw = DrawLeft KString EAttributeType | DrawRight KString EAttributeType | DrawEmpty EAttributeType

definition defaultAttr :: "bool \<Rightarrow> EAttributeType" where
  "defaultAttr isCursor = (if isCursor then ATTR_SELECTED_ROW else ATTR_DEFAULT)"

definition unresolvedAttr :: "bool \<Rightarrow> EAttributeType" where
  "unresolvedAttr isCursor = (if isCursor then ATTR_UNRESOLVED_SELECTED else ATTR_UNRESOLVED)"

definition trafficAttr :: "bool \<Rightarrow> EAttributeType" where
  "trafficAttr isCursor = (if isCursor then ATTR_TRAFFIC_SELECTED else ATTR_TRAFFIC)"

definition draw_proto :: "bool \<Rightarrow> ConnectionData \<Rightarrow> cell_draw" where
  "draw_proto isCursor pData =
     DrawLeft (cd_typeName pData)
       (case c_type (cd_connection pData) of
          UDP4 \<Rightarrow> if isCursor then ATTR_PROTO_UDP_SELECTED else ATTR_PROTO_UDP
        | UDP6 \<Rightarrow> if isCursor then ATTR_PROTO_UDP_SELECTED else ATTR_PROTO_UDP
        | TCP4 \<Rightarrow> if isCursor then ATTR_PROTO_TCP_SELECTED else ATTR_PROTO_TCP
        | TCP6 \<Rightarrow> if isCursor then ATTR_PROTO_TCP_SELECTED else ATTR_PROTO_TCP)"

definition draw_state :: "bool \<Rightarrow> ConnectionData \<Rightarrow> cell_draw" where
  "draw_state isCursor pData = DrawLeft (getStateName pData) (defaultAttr isCursor)"

definition draw_address :: "RowStyle \<Rightarrow> bool \<Rightarrow> AddressData \<Rightarrow> cell_draw" where
  "draw_address rs isCursor address =
     (let attr = (if ad_isHostnameResolved address then defaultAttr isCursor else unresolvedAttr isCursor)
      in if isHostnameAvailable address \<and> rs_showHostname rs then DrawRight (ad_hostname address) attr
         else DrawRight (ad_numericString address) attr)"

definition draw_port :: "RowStyle \<Rightarrow> bool \<Rightarrow> bool \<Rightarrow> PortData \<Rightarrow> cell_draw" where
  "draw_port rs isCursor hasPorts port =
     (if hasPorts
      then
        let attr = (if pd_isServiceResolved port then defaultAttr isCursor else unresolvedAttr isCursor)
        in if isServiceAvailable port \<and> rs_showPortname rs then DrawLeft (pd_service port) attr else DrawLeft (pd_numeric port) attr
      else DrawEmpty (defaultAttr isCursor))"

definition draw_country :: "bool \<Rightarrow> AddressData \<Rightarrow> cell_draw" where
  "draw_country isCursor address =
     (let attr = (if isCursor then ATTR_COUNTRY_CODE_SELECTED else ATTR_COUNTRY_CODE)
      in if \<not> isUnknown (ad_country address) then DrawLeft (getCodeString (ad_country address)) attr else DrawEmpty attr)"

definition draw_asn :: "bool \<Rightarrow> AddressData \<Rightarrow> cell_draw" where
  "draw_asn isCursor address = DrawLeft (asn_string (ad_asn address)) (defaultAttr isCursor)"

definition draw_asn_org :: "bool \<Rightarrow> AddressData \<Rightarrow> cell_draw" where
  "draw_asn_org isCursor address = DrawLeft (asn_orgName (ad_asn address)) (defaultAttr isCursor)"

definition draw_packets :: "bool \<Rightarrow> u64 \<Rightarrow> cell_draw" where
  "draw_packets isCursor n = DrawRight (to_string (unat n)) (trafficAttr isCursor)"

definition draw_bytes :: "bool \<Rightarrow> u64 \<Rightarrow> cell_draw" where
  "draw_bytes isCursor n = DrawRight (GetHumanReadableSize n) (trafficAttr isCursor)"

definition draw_speed :: "bool \<Rightarrow> u64 \<Rightarrow> cell_draw" where
  "draw_speed isCursor n =
     (if n > 0 then DrawRight (GetHumanReadableSize n @ ''/s'') (trafficAttr isCursor) else DrawEmpty (trafficAttr isCursor))"

text \<open>The flag that a column waits for, and what it draws then.\<close>

fun column_flag :: "EColumn \<Rightarrow> flags" where
  "column_flag COL_PROTO = F_PROTO"
| "column_flag COL_PROTO_STATE = F_PROTO_STATE"
| "column_flag COL_SRC_ADDRESS = F_SRC_ADDRESS"
| "column_flag COL_SRC_PORT = F_SRC_PORT"
| "column_flag COL_SRC_COUNTRY = F_SRC_ADDRESS"
| "column_flag COL_SRC_ASN = F_SRC_ADDRESS"
| "column_flag COL_SRC_ASN_ORG_NAME = F_SRC_ADDRESS"
| "column_flag COL_DST_ADDRESS = F_DST_ADDRESS"
| "column_flag COL_DST_PORT = F_DST_PORT"
| "column_flag COL_DST_COUNTRY = F_DST_ADDRESS"
| "column_flag COL_DST_ASN = F_DST_ADDRESS"
| "column_flag COL_DST_ASN_ORG_NAME = F_DST_ADDRESS"
| "column_flag COL_RX_PACKETS = F_RX_PACKETS"
| "column_flag COL_RX_BYTES = F_RX_BYTES"
| "column_flag COL_RX_SPEED = F_RX_SPEED"
| "column_flag COL_TX_PACKETS = F_TX_PACKETS"
| "column_flag COL_TX_BYTES = F_TX_BYTES"
| "column_flag COL_TX_SPEED = F_TX_SPEED"

definition column_draw :: "RowStyle \<Rightarrow> bool \<Rightarrow> ConnectionStorage \<Rightarrow> Connection \<Rightarrow> EColumn \<Rightarrow> cell_draw" where
  "column_draw rs isCursor st c column =
     (let pData = derefConnection st c; t = cd_traffic pData;
          src = derefAddress st (c_srcAddr c); dst = derefAddress st (c_dstAddr c)
      in case column of
           COL_PROTO \<Rightarrow> draw_proto isCursor pData
         | COL_PROTO_STATE \<Rightarrow> draw_state isCursor pData
         | COL_SRC_ADDRESS \<Rightarrow> draw_address rs isCursor src
         | COL_DST_ADDRESS \<Rightarrow> draw_address rs isCursor dst
         | COL_SRC_PORT \<Rightarrow> draw_port rs isCursor (cd_hasPorts pData) (derefPort st (c_srcPort c))
         | COL_DST_PORT \<Rightarrow> draw_port rs isCursor (cd_hasPorts pData) (derefPort st (c_dstPort c))
         | COL_SRC_COUNTRY \<Rightarrow> draw_country isCursor src
         | COL_DST_COUNTRY \<Rightarrow> draw_country isCursor dst
         | COL_SRC_ASN \<Rightarrow> draw_asn isCursor src
         | COL_DST_ASN \<Rightarrow> draw_asn isCursor dst
         | COL_SRC_ASN_ORG_NAME \<Rightarrow> draw_asn_org isCursor src
         | COL_DST_ASN_ORG_NAME \<Rightarrow> draw_asn_org isCursor dst
         | COL_RX_PACKETS \<Rightarrow> draw_packets isCursor (rxPackets t)
         | COL_TX_PACKETS \<Rightarrow> draw_packets isCursor (txPackets t)
         | COL_RX_BYTES \<Rightarrow> draw_bytes isCursor (rxBytes t)
         | COL_TX_BYTES \<Rightarrow> draw_bytes isCursor (txBytes t)
         | COL_RX_SPEED \<Rightarrow> draw_speed isCursor (rxSpeed t)
         | COL_TX_SPEED \<Rightarrow> draw_speed isCursor (txSpeed t))"

definition draw_cell :: "'w curses \<Rightarrow> nat \<Rightarrow> cell_draw \<Rightarrow> 'w \<Rightarrow> 'w" where
  "draw_cell cu width d w =
     (case d of
        DrawLeft s a \<Rightarrow> drawDataLeft cu s width a w
      | DrawRight s a \<Rightarrow> drawDataRight cu s width a w
      | DrawEmpty a \<Rightarrow> drawDataEmpty cu width a w)"

section \<open>A row\<close>

text \<open>The loop over the columns, at a position of the row.\<close>

fun draw_columns ::
  "'w curses \<Rightarrow> bool \<Rightarrow> flags \<Rightarrow> (EColumn \<Rightarrow> cell_draw) \<Rightarrow> int \<Rightarrow> ConnectionColumn list \<Rightarrow> int \<Rightarrow> 'w \<Rightarrow> 'w" where
  "draw_columns cu isCursor flags draw posY [] posX w = w"
| "draw_columns cu isCursor flags draw posY (column # columns) posX w =
     (let w1 = (if has_flag flags (column_flag (cc_type column)) then draw_cell cu (cc_width column) (draw (cc_type column)) w else w);
          posX1 = posX + int (cc_width column);
          w2 = wmove cu posX1 posY w1
      in if columns = [] then w2
         else
           let w3 = (if isCursor then wattron cu ATTR_SELECTED_ROW w2 else w2);
               w4 = waddch cu CHR '' '' w3;
               w5 = (if isCursor then wattroff cu ATTR_SELECTED_ROW w4 else w4)
           in draw_columns cu isCursor flags draw posY columns (posX1 + 1) w5)"

definition LIST_BEGIN :: int where
  "LIST_BEGIN = 5"

definition drawRow :: "'w curses \<Rightarrow> RowStyle \<Rightarrow> ConnectionStorage \<Rightarrow> ConnectionListUpdate \<Rightarrow> 'w \<Rightarrow> 'w" where
  "drawRow cu rs st u w =
     (case lu_data u of
        None \<Rightarrow> w
      | Some c \<Rightarrow>
          let isCursor = (lu_isCursor u \<and> rs_showCursor rs);
              posY = LIST_BEGIN + int (lu_rowNumber u);
              w1 = draw_columns cu isCursor (lu_updateFlags u) (column_draw rs isCursor st c) posY (rs_columns rs) 0 (wmove cu 0 posY w)
          in if getmaxx cu w1 > int (rs_columnsTotalWidth rs) then fillEmpty cu w1 else w1)"

text \<open>\<open>drawListHeader\<close>: the labels above the columns.\<close>

fun header_columns :: "'w curses \<Rightarrow> ConnectionColumn list \<Rightarrow> int \<Rightarrow> 'w \<Rightarrow> int \<times> 'w" where
  "header_columns cu [] remainingSpace w = (remainingSpace, w)"
| "header_columns cu (column # columns) remainingSpace w =
     (let space = (if remainingSpace > int (cc_width column) then int (cc_width column) else remainingSpace);
          label = cc_getLabel column;
          w1 = (if label = [] then fillEmpty_count cu space w
                else fillEmpty_count cu (space - int (length label)) (waddnstr cu label space w));
          r1 = remainingSpace - space
      in if r1 > 0 then header_columns cu columns (r1 - 1) (waddch cu CHR '' '' w1) else header_columns cu columns r1 w1)"

definition STATUS_HEADER_HEIGHT :: int where
  "STATUS_HEADER_HEIGHT = 4"

definition drawListHeader :: "'w curses \<Rightarrow> ConnectionColumn list \<Rightarrow> 'w \<Rightarrow> 'w" where
  "drawListHeader cu columns w =
     (let w1 = wattron cu ATTR_LIST_HEADER (wmove cu 0 STATUS_HEADER_HEIGHT w);
          (remainingSpace, w2) = header_columns cu columns (getmaxx cu w1) w1;
          w3 = (if remainingSpace > 0 then fillEmpty cu w2 else w2)
      in wattroff cu ATTR_LIST_HEADER w3)"

end
