(* ===== verification/RowProps.thy ===== *)
theory RowProps
  imports RowDraw
begin

text \<open>
  Drawing a row of the list: if every column whose text or colour has changed is flagged, then a row
  drawn over the old one shows exactly what a row drawn from nothing would show, column by column, and no
  other cell of the window is touched. The proof rests on the laws of curses only.
\<close>

section \<open>Cells\<close>

type_synonym cell = "char \<times> EAttributeType option"
type_synonym cells = "int \<times> int \<Rightarrow> cell"

definition overlay :: "int \<Rightarrow> int \<Rightarrow> cell list \<Rightarrow> cells \<Rightarrow> cells" where
  "overlay x y cs f = (\<lambda>(p, q). if q = y \<and> x \<le> p \<and> p < x + int (length cs) then cs ! nat (p - x) else f (p, q))"

lemma overlay_Nil [simp]: "overlay x y [] f = f"
  by (rule ext) (auto simp: overlay_def)

lemma overlay_append: "overlay (x + int (length as)) y bs (overlay x y as f) = overlay x y (as @ bs) f"
proof (rule ext, clarify)
  fix p q
  have "nat (p - x) - length as = nat (p - (x + int (length as)))" if "x + int (length as) \<le> p" using that by simp
  then show "overlay (x + int (length as)) y bs (overlay x y as f) (p, q) = overlay x y (as @ bs) f (p, q)"
    by (auto simp: overlay_def nth_append)
qed

lemma overlay_Cons: "overlay (x + 1) y cs (overlay x y [c] f) = overlay x y (c # cs) f"
  using overlay_append [of x "[c]" y cs f] by simp

definition printable :: "char \<Rightarrow> bool" where
  "printable c \<longleftrightarrow> 32 \<le> (of_char c :: nat) \<and> (of_char c :: nat) < 127"

lemma printable_space [simp]: "printable CHR '' ''" "printable CHR ''.''"
  by (simp_all add: printable_def)

section \<open>What a row should show\<close>

fun cell_cells :: "nat \<Rightarrow> cell_draw \<Rightarrow> cell list" where
  "cell_cells n (DrawLeft s a) =
     map (\<lambda>c. (c, Some a)) (if length s \<le> n then s @ replicate (n - length s) CHR '' '' else take (n - 2) s @ ''..'')"
| "cell_cells n (DrawRight s a) =
     map (\<lambda>c. (c, Some a)) (if length s \<le> n then replicate (n - length s) CHR '' '' @ s else take (n - 2) s @ ''..'')"
| "cell_cells n (DrawEmpty a) = replicate n (CHR '' '', Some a)"

fun columns_cells :: "bool \<Rightarrow> (EColumn \<Rightarrow> cell_draw) \<Rightarrow> ConnectionColumn list \<Rightarrow> cell list" where
  "columns_cells isCursor draw [] = []"
| "columns_cells isCursor draw (column # columns) =
     cell_cells (cc_width column) (draw (cc_type column)) @
     (if columns = [] then []
      else (CHR '' '', if isCursor then Some ATTR_SELECTED_ROW else None) # columns_cells isCursor draw columns)"

definition row_cells :: "RowStyle \<Rightarrow> int \<Rightarrow> bool \<Rightarrow> ConnectionStorage \<Rightarrow> Connection \<Rightarrow> cell list" where
  "row_cells rs width isCursor st c =
     (let cs = columns_cells isCursor (column_draw rs isCursor st c) (rs_columns rs)
      in cs @ replicate (nat width - length cs) (CHR '' '', None))"

fun cell_text :: "cell_draw \<Rightarrow> string" where
  "cell_text (DrawLeft s a) = s" | "cell_text (DrawRight s a) = s" | "cell_text (DrawEmpty a) = []"

lemma length_cell_cells: "n \<ge> 2 \<Longrightarrow> length (cell_cells n d) = n"
  by (cases d) auto

text \<open>A region of a row shows the given cells.\<close>

definition agrees :: "int \<Rightarrow> int \<Rightarrow> cell list \<Rightarrow> cells \<Rightarrow> bool" where
  "agrees x y cs f \<longleftrightarrow> (\<forall>i < length cs. f (x + int i, y) = cs ! i)"

lemma agrees_overlay: "agrees x y cs f \<Longrightarrow> overlay x y cs f = f"
proof (rule ext, clarify)
  fix p q
  assume a: "agrees x y cs f"
  show "overlay x y cs f (p, q) = f (p, q)"
  proof (cases "q = y \<and> x \<le> p \<and> p < x + int (length cs)")
    case True
    then have "nat (p - x) < length cs" "x + int (nat (p - x)) = p" by auto
    with a True show ?thesis by (auto simp: agrees_def overlay_def)
  qed (auto simp: overlay_def)
qed

lemma agrees_append: "agrees x y (as @ bs) f \<longleftrightarrow> agrees x y as f \<and> agrees (x + int (length as)) y bs f"
proof
  assume a: "agrees x y (as @ bs) f"
  have "f (x + int (length as) + int i, y) = bs ! i" if "i < length bs" for i
    using a [unfolded agrees_def, rule_format, of "length as + i"] that by (simp add: add.assoc)
  with a show "agrees x y as f \<and> agrees (x + int (length as)) y bs f"
    by (auto simp: agrees_def nth_append dest: spec [of _ "_ :: nat"])
next
  assume a: "agrees x y as f \<and> agrees (x + int (length as)) y bs f"
  show "agrees x y (as @ bs) f"
    unfolding agrees_def
  proof (intro allI impI)
    fix i assume i: "i < length (as @ bs)"
    show "f (x + int i, y) = (as @ bs) ! i"
    proof (cases "i < length as")
      case False
      with a i have "f (x + int (length as) + int (i - length as), y) = bs ! (i - length as)"
        unfolding agrees_def length_append by (metis add_diff_inverse_nat nat_add_left_cancel_less)
      with False show ?thesis by (simp add: nth_append)
    qed (use a in \<open>simp add: agrees_def nth_append\<close>)
  qed
qed

text \<open>Every column that is not flagged shows what it should.\<close>

fun stays :: "flags \<Rightarrow> (EColumn \<Rightarrow> cell_draw) \<Rightarrow> int \<Rightarrow> ConnectionColumn list \<Rightarrow> int \<Rightarrow> cells \<Rightarrow> bool" where
  "stays flags draw y [] x f \<longleftrightarrow> True"
| "stays flags draw y (column # columns) x f \<longleftrightarrow>
     (has_flag flags (column_flag (cc_type column)) \<or> agrees x y (cell_cells (cc_width column) (draw (cc_type column))) f) \<and>
     stays flags draw y columns (x + int (cc_width column) + 1) f"

lemma stays_cong: "(\<And>p. x \<le> p \<Longrightarrow> f (p, y) = g (p, y)) \<Longrightarrow> stays flags draw y cols x f = stays flags draw y cols x g"
  by (induction cols arbitrary: x) (auto simp: agrees_def)

lemma stays_if_covered:
  "agrees x y (columns_cells isCursor old cols) f \<Longrightarrow> \<forall>col \<in> set cols. cc_width col \<ge> 2 \<Longrightarrow>
    \<forall>col \<in> set cols. has_flag flags (column_flag (cc_type col)) \<or> old (cc_type col) = draw (cc_type col) \<Longrightarrow>
    stays flags draw y cols x f"
proof (induction cols arbitrary: x)
  case (Cons col cols)
  let ?cs = "cell_cells (cc_width col) (old (cc_type col))"
  have len: "length ?cs = cc_width col" using Cons.prems(2) by (simp add: length_cell_cells)
  have first: "agrees x y ?cs f" using Cons.prems(1) by (simp add: agrees_append)
  have "stays flags draw y cols (x + int (cc_width col) + 1) f"
  proof (cases "cols = []")
    case False
    then have "agrees (x + int (cc_width col)) y ([(CHR '' '', if isCursor then Some ATTR_SELECTED_ROW else None)]
        @ columns_cells isCursor old cols) f"
      using Cons.prems(1) len by (simp add: agrees_append)
    then have "agrees (x + int (cc_width col) + 1) y (columns_cells isCursor old cols) f"
      unfolding agrees_append by simp
    then show ?thesis using Cons.IH Cons.prems(2,3) by simp
  qed simp
  with first Cons.prems(3) show ?case by auto
qed simp

section \<open>The laws of curses\<close>

locale curses_window =
  fixes cu :: "'w curses" and cell :: "'w \<Rightarrow> cells" and posy :: "'w \<Rightarrow> int" and maxy :: "'w \<Rightarrow> int"
    and attr :: "'w \<Rightarrow> EAttributeType option"
  assumes move_inside: "0 \<le> x \<Longrightarrow> x < getmaxx cu w \<Longrightarrow> 0 \<le> y \<Longrightarrow> y < maxy w \<Longrightarrow>
      getposx cu (wmove cu x y w) = x \<and> posy (wmove cu x y w) = y"
    and move_frame: "cell (wmove cu x y w) = cell w \<and> attr (wmove cu x y w) = attr w
      \<and> getmaxx cu (wmove cu x y w) = getmaxx cu w \<and> maxy (wmove cu x y w) = maxy w"
    and addch: "printable c \<Longrightarrow> 0 \<le> getposx cu w \<Longrightarrow> getposx cu w < getmaxx cu w \<Longrightarrow> 0 \<le> posy w \<Longrightarrow> posy w < maxy w \<Longrightarrow>
      cell (waddch cu c w) = (cell w)((getposx cu w, posy w) := (c, attr w))"
    and addch_moves: "printable c \<Longrightarrow> 0 \<le> getposx cu w \<Longrightarrow> getposx cu w + 1 < getmaxx cu w \<Longrightarrow> 0 \<le> posy w \<Longrightarrow> posy w < maxy w \<Longrightarrow>
      getposx cu (waddch cu c w) = getposx cu w + 1 \<and> posy (waddch cu c w) = posy w"
    and addch_frame: "attr (waddch cu c w) = attr w \<and> getmaxx cu (waddch cu c w) = getmaxx cu w \<and> maxy (waddch cu c w) = maxy w"
    and addnstr: "waddnstr cu s n w = foldl (\<lambda>w c. waddch cu c w) w (if n < 0 then s else take (nat n) s)"
    and attron: "attr w = None \<Longrightarrow> attr (wattron cu a w) = Some a"
    and attroff: "attr w = Some a \<Longrightarrow> attr (wattroff cu a w) = None"
    and attr_frame: "cell (wattron cu a w) = cell w \<and> getposx cu (wattron cu a w) = getposx cu w \<and> posy (wattron cu a w) = posy w
      \<and> getmaxx cu (wattron cu a w) = getmaxx cu w \<and> maxy (wattron cu a w) = maxy w
      \<and> cell (wattroff cu a w) = cell w \<and> getposx cu (wattroff cu a w) = getposx cu w \<and> posy (wattroff cu a w) = posy w
      \<and> getmaxx cu (wattroff cu a w) = getmaxx cu w \<and> maxy (wattroff cu a w) = maxy w"
begin

lemmas frame [simp] = move_frame addch_frame attr_frame

text \<open>The window \<open>w'\<close> comes from \<open>w\<close> by writing the cells at the position of \<open>w\<close>.\<close>

definition wrote :: "cell list \<Rightarrow> 'w \<Rightarrow> 'w \<Rightarrow> bool" where
  "wrote cs w w' \<longleftrightarrow>
     cell w' = overlay (getposx cu w) (posy w) cs (cell w) \<and> attr w' = attr w \<and>
     getmaxx cu w' = getmaxx cu w \<and> maxy w' = maxy w \<and>
     (getposx cu w + int (length cs) < getmaxx cu w \<longrightarrow> getposx cu w' = getposx cu w + int (length cs) \<and> posy w' = posy w)"

definition room :: "nat \<Rightarrow> 'w \<Rightarrow> bool" where
  "room n w \<longleftrightarrow> 0 \<le> getposx cu w \<and> getposx cu w + int n \<le> getmaxx cu w \<and> 0 \<le> posy w \<and> posy w < maxy w"

lemma room_le: "room n w \<Longrightarrow> m \<le> n \<Longrightarrow> room m w"
  by (auto simp: room_def)

lemma wrote_Nil [simp]: "wrote [] w w"
  by (simp add: wrote_def)

lemma wrote_attr_same: "wrote cs w w' \<Longrightarrow> attr w' = attr w"
  by (simp add: wrote_def)

lemma wrote_trans:
  assumes "wrote as w w1" and "wrote bs w1 w2" and "room (length as + length bs) w"
  shows "wrote (as @ bs) w w2"
proof (cases "bs = []")
  case True
  with assms show ?thesis by (auto simp: wrote_def)
next
  case False
  then have "int (length bs) > 0" by simp
  with assms(3) have "getposx cu w + int (length as) < getmaxx cu w" unfolding room_def by linarith
  with assms have "getposx cu w1 = getposx cu w + int (length as)" "posy w1 = posy w" by (auto simp: wrote_def room_def)
  with assms show ?thesis by (auto simp: wrote_def overlay_append)
qed

lemma room_after: "wrote as w w1 \<Longrightarrow> room (length as + n) w \<Longrightarrow> n > 0 \<Longrightarrow> room n w1"
  by (auto simp: wrote_def room_def)

lemma wrote_char: "printable c \<Longrightarrow> room 1 w \<Longrightarrow> wrote [(c, attr w)] w (waddch cu c w)"
  using addch [of c w] addch_moves [of c w] by (auto simp: wrote_def room_def overlay_def)

lemma wrote_chars:
  assumes "list_all printable s" and "room (length s) w"
  shows "wrote (map (\<lambda>c. (c, attr w)) s) w (foldl (\<lambda>w c. waddch cu c w) w s)"
  using assms
proof (induction s arbitrary: w)
  case (Cons c s)
  have c: "wrote [(c, attr w)] w (waddch cu c w)" using Cons.prems by (intro wrote_char) (auto simp: room_def)
  have "wrote (map (\<lambda>d. (d, attr w)) s) (waddch cu c w) (foldl (\<lambda>w c. waddch cu c w) (waddch cu c w) s)"
  proof (cases "s = []")
    case False
    then have "room (length s) (waddch cu c w)" using room_after [OF c, of "length s"] Cons.prems by simp
    with Cons.IH [of "waddch cu c w"] Cons.prems show ?thesis by simp
  qed simp
  from wrote_trans [OF c this] Cons.prems show ?case by simp
qed simp

lemma fill_eq: "fillEmpty_loop cu n w = foldl (\<lambda>w c. waddch cu c w) w (replicate n CHR '' '')"
  by (induction n arbitrary: w) simp_all

lemma wrote_fill: "room n w \<Longrightarrow> wrote (replicate n (CHR '' '', attr w)) w (fillEmpty_count cu (int n) w)"
  using wrote_chars [of "replicate n CHR '' ''" w] by (simp add: fillEmpty_count_def fill_eq list_all_iff)

lemma wrote_text: "list_all printable s \<Longrightarrow> room (length s) w \<Longrightarrow> wrote (map (\<lambda>c. (c, attr w)) s) w (waddnstr cu s (- 1) w)"
  using wrote_chars by (simp add: addnstr)

lemma wrote_text_n:
  "list_all printable s \<Longrightarrow> n \<le> length s \<Longrightarrow> room n w \<Longrightarrow>
    wrote (map (\<lambda>c. (c, attr w)) (take n s)) w (waddnstr cu s (int n) w)"
  using wrote_chars [of "take n s" w] by (auto simp: addnstr list_all_iff dest: in_set_takeD)

lemma wrote_attr:
  assumes "attr w = None" and "wrote cs (wattron cu a w) w'" and "attr w' = Some a \<Longrightarrow> w'' = wattroff cu a w'"
  shows "wrote cs w w''"
  using assms attron [of w a] attroff [of w' a] by (auto simp: wrote_def)

lemma room_attron [simp]: "room n (wattron cu a w) = room n w"
  by (simp add: room_def)

lemma wrote_dots:
  assumes "list_all printable s" and "room n w" and "2 \<le> n" and "n < length s"
  shows "wrote (map (\<lambda>c. (c, attr w)) (take (n - 2) s @ ''..'')) w
    (waddnstr cu ''..'' (- 1) (if n > 2 then waddnstr cu s (int (n - 2)) w else w))"
proof -
  define w1 where "w1 = (if n > 2 then waddnstr cu s (int (n - 2)) w else w)"
  have a: "wrote (map (\<lambda>c. (c, attr w)) (take (n - 2) s)) w w1"
    unfolding w1_def using wrote_text_n [of s "n - 2" w] room_le [OF assms(2), of "n - 2"] assms by auto
  have r: "room (length (map (\<lambda>c. (c, attr w)) (take (n - 2) s)) + 2) w"
    by (rule room_le [OF assms(2)]) (use assms in simp)
  have "room 2 w1" using room_after [OF a r] by simp
  then have b: "wrote (map (\<lambda>c. (c, attr w)) ''..'') w1 (waddnstr cu ''..'' (- 1) w1)"
    using wrote_text [of "''..''" w1] wrote_attr_same [OF a] by (simp add: numeral_2_eq_2)
  show ?thesis using wrote_trans [OF a b] r by (simp add: w1_def)
qed

lemma wrote_left:
  assumes "list_all printable s" and "room n w" and "2 \<le> n" and "attr w = None"
  shows "wrote (cell_cells n (DrawLeft s a)) w (drawDataLeft cu s n a w)"
proof -
  let ?w = "wattron cu a w"
  have at: "attr ?w = Some a" using attron assms(4) by simp
  have "wrote (cell_cells n (DrawLeft s a)) ?w
      (if length s \<le> n then fillEmpty_count cu (int (n - length s)) (waddnstr cu s (- 1) ?w)
       else waddnstr cu ''..'' (- 1) (if n > 2 then waddnstr cu s (int (n - 2)) ?w else ?w))"
  proof (cases "length s \<le> n")
    case True
    have t: "wrote (map (\<lambda>c. (c, Some a)) s) ?w (waddnstr cu s (- 1) ?w)"
      using wrote_text [of s ?w] assms True at by (simp add: room_def)
    have r: "room (length (map (\<lambda>c. (c, Some a)) s) + (n - length s)) ?w" using assms(2) True by simp
    have "wrote (replicate (n - length s) (CHR '' '', Some a)) (waddnstr cu s (- 1) ?w)
        (fillEmpty_count cu (int (n - length s)) (waddnstr cu s (- 1) ?w))"
    proof (cases "n - length s = 0")
      case False
      then have "room (n - length s) (waddnstr cu s (- 1) ?w)" using room_after [OF t r] by simp
      then show ?thesis using wrote_fill t at by (fastforce simp: wrote_def)
    qed (simp add: fillEmpty_count_def)
    from wrote_trans [OF t this] r True show ?thesis by simp
  qed (use wrote_dots [of s n ?w] assms at in simp)
  then show ?thesis using wrote_attr [OF assms(4)] by (simp add: drawDataLeft_def Let_def)
qed

lemma wrote_right:
  assumes "list_all printable s" and "room n w" and "2 \<le> n" and "attr w = None"
  shows "wrote (cell_cells n (DrawRight s a)) w (drawDataRight cu s n a w)"
proof -
  let ?w = "wattron cu a w"
  have at: "attr ?w = Some a" using attron assms(4) by simp
  have "wrote (cell_cells n (DrawRight s a)) ?w
      (if length s \<le> n then waddnstr cu s (- 1) (fillEmpty_count cu (int (n - length s)) ?w)
       else waddnstr cu ''..'' (- 1) (if n > 2 then waddnstr cu s (int (n - 2)) ?w else ?w))"
  proof (cases "length s \<le> n")
    case True
    let ?f = "fillEmpty_count cu (int (n - length s)) ?w"
    have t: "wrote (replicate (n - length s) (CHR '' '', Some a)) ?w ?f"
      using wrote_fill [of "n - length s" ?w] room_le [OF assms(2)] at by simp
    have r: "room (length (replicate (n - length s) (CHR '' '', Some a)) + length s) ?w" using assms(2) True by simp
    have "wrote (map (\<lambda>c. (c, Some a)) s) ?f (waddnstr cu s (- 1) ?f)"
    proof (cases "s = []")
      case False
      then have "room (length s) ?f" using room_after [OF t r] by simp
      then show ?thesis using wrote_text [of s ?f] assms(1) t at by (simp add: wrote_def)
    qed (simp add: addnstr)
    from wrote_trans [OF t this] r True show ?thesis by simp
  qed (use wrote_dots [of s n ?w] assms at in simp)
  then show ?thesis using wrote_attr [OF assms(4)] by (simp add: drawDataRight_def Let_def)
qed

lemma wrote_cell:
  assumes "list_all printable (cell_text d)" and "room n w" and "2 \<le> n" and "attr w = None"
  shows "wrote (cell_cells n d) w (draw_cell cu n d w)"
proof (cases d)
  case (DrawEmpty a)
  have "wrote (replicate n (CHR '' '', Some a)) (wattron cu a w) (fillEmpty_count cu (int n) (wattron cu a w))"
    using wrote_fill [of n "wattron cu a w"] assms attron by simp
  from wrote_attr [OF assms(4) this] DrawEmpty show ?thesis by (simp add: draw_cell_def drawDataEmpty_def)
qed (use assms wrote_left wrote_right in \<open>simp_all add: draw_cell_def\<close>)

text \<open>After a column the position is set anew; at the right margin there is no such position.\<close>

lemma wrote_move:
  assumes "wrote cs w w'" and "room (length cs) w" and "x = getposx cu w + int (length cs)"
  shows "wrote cs w (wmove cu x (posy w) w')"
  using assms move_inside [of x w' "posy w"] by (auto simp: wrote_def room_def)

lemma wrote_agrees: "agrees (getposx cu w) (posy w) cs (cell w) \<Longrightarrow> room (length cs) w \<Longrightarrow>
    x = getposx cu w + int (length cs) \<Longrightarrow> wrote cs w (wmove cu x (posy w) w)"
  using move_inside [of x w "posy w"] by (auto simp: wrote_def room_def agrees_overlay)

lemma wrote_separator:
  assumes "room 1 w" and "attr w = None"
  shows "wrote [(CHR '' '', if b then Some ATTR_SELECTED_ROW else None)] w
    (let w3 = (if b then wattron cu ATTR_SELECTED_ROW w else w); w4 = waddch cu CHR '' '' w3
     in if b then wattroff cu ATTR_SELECTED_ROW w4 else w4)"
proof (cases b)
  case True
  have "wrote [(CHR '' '', Some ATTR_SELECTED_ROW)] (wattron cu ATTR_SELECTED_ROW w) (waddch cu CHR '' '' (wattron cu ATTR_SELECTED_ROW w))"
    using wrote_char [of "CHR '' ''" "wattron cu ATTR_SELECTED_ROW w"] assms attron by simp
  from wrote_attr [OF assms(2) this] True show ?thesis by simp
qed (use wrote_char [of "CHR '' ''" w] assms in simp)

lemma wrote_columns:
  assumes "\<forall>col \<in> set cols. 2 \<le> cc_width col \<and> list_all printable (cell_text (draw (cc_type col)))"
    and "room (length (columns_cells b draw cols)) w" and "attr w = None"
    and "stays flags draw (posy w) cols (getposx cu w) (cell w)"
  shows "wrote (columns_cells b draw cols) w (draw_columns cu b flags draw (posy w) cols (getposx cu w) w)"
  using assms
proof (induction cols arbitrary: w)
  case (Cons col cols)
  let ?cs = "cell_cells (cc_width col) (draw (cc_type col))"
  let ?x = "getposx cu w + int (cc_width col)"
  have len: "length ?cs = cc_width col" using Cons.prems(1) by (simp add: length_cell_cells)
  have room: "room (length ?cs) w" using Cons.prems(2) by (rule room_le) simp
  define w1 where "w1 = (if has_flag flags (column_flag (cc_type col)) then draw_cell cu (cc_width col) (draw (cc_type col)) w else w)"
  define w2 where "w2 = wmove cu ?x (posy w) w1"
  have w2: "wrote ?cs w w2"
  proof (cases "has_flag flags (column_flag (cc_type col))")
    case True
    then have "wrote ?cs w w1" unfolding w1_def using wrote_cell Cons.prems(1,3) room len by simp
    then show ?thesis unfolding w2_def by (rule wrote_move [OF _ room]) (simp add: len)
  next
    case False
    with Cons.prems(4) have "agrees (getposx cu w) (posy w) ?cs (cell w)" by simp
    then show ?thesis unfolding w2_def w1_def using False room len by (simp add: wrote_agrees)
  qed
  show ?case
  proof (cases "cols = []")
    case True
    with w2 show ?thesis by (simp add: w1_def w2_def Let_def)
  next
    case False
    let ?sep = "[(CHR '' '', if b then Some ATTR_SELECTED_ROW else None)]" and ?rest = "columns_cells b draw cols"
    define w5 where "w5 = (let w3 = (if b then wattron cu ATTR_SELECTED_ROW w2 else w2); w4 = waddch cu CHR '' '' w3
      in if b then wattroff cu ATTR_SELECTED_ROW w4 else w4)"
    have rest: "length ?rest \<ge> 2"
      using False Cons.prems(1) by (cases cols) (auto simp: length_cell_cells)
    have all: "room (length (?cs @ ?sep @ ?rest)) w" using Cons.prems(2) False by simp
    have "room (length (?cs @ ?sep)) w" by (rule room_le [OF all]) simp
    then have r1: "room (length ?cs + length ?sep) w" by simp
    then have "room 1 w2" using room_after [OF w2, of 1] by simp
    then have sep: "wrote ?sep w2 w5" unfolding w5_def using wrote_separator wrote_attr_same [OF w2] Cons.prems(3) by simp
    have w5: "wrote (?cs @ ?sep) w w5" using wrote_trans [OF w2 sep r1] .
    have room5: "room (length ?rest) w5" using room_after [OF w5, of "length ?rest"] all rest by fastforce
    have pos5: "getposx cu w5 = ?x + 1" "posy w5 = posy w"
      using w5 all rest len by (auto simp: wrote_def room_def)
    have "cell w5 (p, posy w) = cell w (p, posy w)" if "?x + 1 \<le> p" for p
      using w5 that len by (auto simp: wrote_def overlay_def)
    then have "stays flags draw (posy w5) cols (getposx cu w5) (cell w5)"
      using Cons.prems(4) stays_cong [of "?x + 1" "cell w5" "posy w" "cell w" flags draw cols] unfolding pos5 by simp
    then have tail: "wrote ?rest w5 (draw_columns cu b flags draw (posy w5) cols (getposx cu w5) w5)"
      using Cons.IH [of w5] Cons.prems(1,3) room5 wrote_attr_same [OF w5] by simp
    have "wrote ((?cs @ ?sep) @ ?rest) w (draw_columns cu b flags draw (posy w5) cols (getposx cu w5) w5)"
      using wrote_trans [OF w5 tail] all by simp
    moreover have "draw_columns cu b flags draw (posy w) (col # cols) (getposx cu w) w = draw_columns cu b flags draw (posy w) cols (?x + 1) w5"
      using False by (simp add: w1_def w2_def w5_def Let_def)
    moreover have "columns_cells b draw (col # cols) = (?cs @ ?sep) @ ?rest" using False by simp
    ultimately show ?thesis by (simp only: pos5)
  qed
qed simp

lemma drawRow_wrote:
  assumes "\<forall>col \<in> set (rs_columns rs). 2 \<le> cc_width col \<and> list_all printable (cell_text (column_draw rs b st c (cc_type col)))"
    and "length (columns_cells b (column_draw rs b st c) (rs_columns rs)) = rs_columnsTotalWidth rs"
    and "int (rs_columnsTotalWidth rs) \<le> getmaxx cu w" and "0 < getmaxx cu w" and "attr w = None"
    and "0 \<le> y" and "y < maxy w" and "y = LIST_BEGIN + int (lu_rowNumber u)"
    and "lu_data u = Some c" and "b \<longleftrightarrow> lu_isCursor u \<and> rs_showCursor rs"
    and "stays (lu_updateFlags u) (column_draw rs b st c) y (rs_columns rs) 0 (cell w)"
  shows "cell (drawRow cu rs st u w) = overlay 0 y (row_cells rs (getmaxx cu w) b st c) (cell w)"
proof -
  let ?cs = "columns_cells b (column_draw rs b st c) (rs_columns rs)"
  define w0 where "w0 = wmove cu 0 y w"
  define w1 where "w1 = draw_columns cu b (lu_updateFlags u) (column_draw rs b st c) y (rs_columns rs) 0 w0"
  have p0: "getposx cu w0 = 0" "posy w0 = y" "cell w0 = cell w" "attr w0 = None" "getmaxx cu w0 = getmaxx cu w" "maxy w0 = maxy w"
    unfolding w0_def using move_inside [of 0 w y] assms by simp_all
  have room: "room (nat (getmaxx cu w)) w0" using p0 assms by (simp add: room_def)
  then have "room (length ?cs) w0" using assms(2,3) by (auto intro: room_le)
  then have w1: "wrote ?cs w0 w1"
    unfolding w1_def using wrote_columns [of "rs_columns rs" "column_draw rs b st c" b w0 "lu_updateFlags u"] assms p0 by simp
  have row: "drawRow cu rs st u w = (if getmaxx cu w1 > int (rs_columnsTotalWidth rs) then fillEmpty cu w1 else w1)"
    using assms by (simp add: drawRow_def w1_def w0_def Let_def)
  show ?thesis
  proof (cases "getmaxx cu w > int (rs_columnsTotalWidth rs)")
    case True
    let ?n = "nat (getmaxx cu w) - length ?cs"
    have x1: "getposx cu w1 = int (length ?cs)" "getmaxx cu w1 = getmaxx cu w" using w1 True assms(2) p0 by (auto simp: wrote_def)
    then have f: "fillEmpty cu w1 = fillEmpty_count cu (int ?n) w1" using assms(2,3) by (simp add: fillEmpty_def of_nat_diff)
    have r: "room (length ?cs + ?n) w0" by (rule room_le [OF room]) (use assms(2,3) in simp)
    have "room ?n w1" using room_after [OF w1 r] True assms(2) by simp
    then have "wrote (replicate ?n (CHR '' '', None)) w1 (fillEmpty cu w1)"
      using wrote_fill [of ?n w1] wrote_attr_same [OF w1] p0 f by simp
    from wrote_trans [OF w1 this] r have "wrote (?cs @ replicate ?n (CHR '' '', None)) w0 (fillEmpty cu w1)" by simp
    with True row x1 p0 show ?thesis by (simp add: row_cells_def wrote_def Let_def)
  next
    case False
    with assms(2,3) have "nat (getmaxx cu w) - length ?cs = 0" by simp
    with False row w1 p0 show ?thesis by (simp add: row_cells_def wrote_def Let_def)
  qed
qed

end

section \<open>Rows of the list\<close>

text \<open>The columns fit into the window, and every text consists of printable characters.\<close>

definition style_ok :: "RowStyle \<Rightarrow> int \<Rightarrow> bool" where
  "style_ok rs width \<longleftrightarrow>
     (\<forall>col \<in> set (rs_columns rs). 2 \<le> cc_width col) \<and> rs_columnsTotalWidth rs = getColumnsTotalWidth (rs_columns rs) \<and>
     int (rs_columnsTotalWidth rs) \<le> width \<and> 0 < width"

definition row_printable :: "RowStyle \<Rightarrow> bool \<Rightarrow> ConnectionStorage \<Rightarrow> Connection \<Rightarrow> bool" where
  "row_printable rs isCursor st c = list_all (\<lambda>col. list_all printable (cell_text (column_draw rs isCursor st c (cc_type col)))) (rs_columns rs)"

lemma foldl_widths: "foldl (\<lambda>n c. n + cc_width c + 1) k cols = k + sum_list (map (\<lambda>c. cc_width c + 1) cols)"
  by (induction cols arbitrary: k) simp_all

lemma total_width_sum: "getColumnsTotalWidth cols = sum_list (map (\<lambda>c. cc_width c + 1) cols) - 1"
  unfolding getColumnsTotalWidth_def foldl_widths by (simp add: Let_def)

lemma length_columns_cells:
  "\<forall>col \<in> set cols. 2 \<le> cc_width col \<Longrightarrow> length (columns_cells b draw cols) = getColumnsTotalWidth cols"
proof (induction cols)
  case (Cons col cols)
  show ?case
  proof (cases "cols = []")
    case False
    then have "sum_list (map (\<lambda>c. cc_width c + 1) cols) \<ge> 1" by (cases cols) simp_all
    with False Cons show ?thesis by (simp add: total_width_sum length_cell_cells)
  qed (use Cons.prems in \<open>simp add: total_width_sum length_cell_cells\<close>)
qed (simp add: total_width_sum)

lemma all_columns_flagged: "has_flag (- 1) (column_flag t)"
  by (cases t) (simp_all add: has_flag_def flag_defs)

lemma stays_all: "stays (- 1) draw y cols x f"
  by (induction cols arbitrary: x) (simp_all add: all_columns_flagged)

text \<open>The flags of an update name the changes between the data last drawn and the data now.\<close>

definition names_changes :: "flags \<Rightarrow> ConnectionStorage \<Rightarrow> ConnectionStorage \<Rightarrow> Connection \<Rightarrow> bool" where
  "names_changes flags st0 st c \<longleftrightarrow>
     (let d0 = derefConnection st0 c; d = derefConnection st c; t0 = cd_traffic d0; t = cd_traffic d
      in cd_connection d = cd_connection d0 \<and> cd_hasPorts d = cd_hasPorts d0 \<and> cd_typeName d = cd_typeName d0 \<and>
         (has_flag flags F_PROTO_STATE \<or> cd_state d = cd_state d0) \<and>
         (has_flag flags F_SRC_ADDRESS \<or> derefAddress st (c_srcAddr c) = derefAddress st0 (c_srcAddr c)) \<and>
         (has_flag flags F_DST_ADDRESS \<or> derefAddress st (c_dstAddr c) = derefAddress st0 (c_dstAddr c)) \<and>
         (has_flag flags F_SRC_PORT \<or> derefPort st (c_srcPort c) = derefPort st0 (c_srcPort c)) \<and>
         (has_flag flags F_DST_PORT \<or> derefPort st (c_dstPort c) = derefPort st0 (c_dstPort c)) \<and>
         (has_flag flags F_RX_PACKETS \<or> rxPackets t = rxPackets t0) \<and> (has_flag flags F_TX_PACKETS \<or> txPackets t = txPackets t0) \<and>
         (has_flag flags F_RX_BYTES \<or> rxBytes t = rxBytes t0) \<and> (has_flag flags F_TX_BYTES \<or> txBytes t = txBytes t0) \<and>
         (has_flag flags F_RX_SPEED \<or> rxSpeed t = rxSpeed t0) \<and> (has_flag flags F_TX_SPEED \<or> txSpeed t = txSpeed t0))"

lemma names_changes_covers:
  assumes "names_changes flags st0 st c"
  shows "has_flag flags (column_flag t) \<or> column_draw rs b st0 c t = column_draw rs b st c t"
proof (cases "has_flag flags (column_flag t)")
  case False
  then show ?thesis using assms unfolding names_changes_def Let_def
    by (cases t) (simp_all add: column_draw_def draw_proto_def draw_state_def getStateName_def Let_def)
qed simp

text \<open>
  C9: drawing a row of the list, cell by cell. Given curses, a style whose columns fit, and printable
  texts: if either the whole row is to be drawn, or the row shows the same connection with older data and
  the flags of the update name every part of the data that has changed, then after \<open>drawListEntry\<close> the
  row shows what a row with the current data should show: every column at its place with its text and
  colour, cut with two dots where it is too long, separators, and blanks up to the margin. No other cell
  is changed.
\<close>

theorem row_drawn_exactly:
  assumes "curses_window cu cell posy maxy attr" and "style_ok rs (getmaxx cu w)" and "attr w = None"
    and "lu_data u = Some c" and "LIST_BEGIN + int (lu_rowNumber u) < maxy w"
    and "row_printable rs (lu_isCursor u \<and> rs_showCursor rs) st c"
    and "lu_updateFlags u = - 1 \<or>
      (agrees 0 (LIST_BEGIN + int (lu_rowNumber u)) (row_cells rs (getmaxx cu w) (lu_isCursor u \<and> rs_showCursor rs) st0 c) (cell w)
       \<and> names_changes (lu_updateFlags u) st0 st c)"
  shows "cell (drawRow cu rs st u w) = overlay 0 (LIST_BEGIN + int (lu_rowNumber u))
    (row_cells rs (getmaxx cu w) (lu_isCursor u \<and> rs_showCursor rs) st c) (cell w)"
proof (rule curses_window.drawRow_wrote [OF assms(1) _ _ _ _ assms(3) _ assms(5) refl assms(4) refl])
  let ?b = "lu_isCursor u \<and> rs_showCursor rs"
  have w2: "\<forall>col \<in> set (rs_columns rs). 2 \<le> cc_width col" using assms(2) by (simp add: style_ok_def)
  show "stays (lu_updateFlags u) (column_draw rs ?b st c) (LIST_BEGIN + int (lu_rowNumber u)) (rs_columns rs) 0 (cell w)"
  proof (cases "lu_updateFlags u = - 1")
    case False
    with assms(7) have "agrees 0 (LIST_BEGIN + int (lu_rowNumber u)) (columns_cells ?b (column_draw rs ?b st0 c) (rs_columns rs)) (cell w)"
      by (simp add: row_cells_def Let_def agrees_append)
    then show ?thesis using False assms(7) names_changes_covers by (intro stays_if_covered [OF _ w2]) blast+
  qed (simp add: stays_all)
  show "length (columns_cells ?b (column_draw rs ?b st c) (rs_columns rs)) = rs_columnsTotalWidth rs"
    using length_columns_cells [OF w2] assms(2) by (simp add: style_ok_def)
qed (use assms(2,6) in \<open>auto simp: style_ok_def row_printable_def list_all_iff LIST_BEGIN_def\<close>)

section \<open>A window\<close>

text \<open>A window of cells that satisfies the laws; at the right margin the position moves to the next line.\<close>

record grid =
  gr_cells :: cells
  gr_x :: int
  gr_y :: int
  gr_maxx :: int
  gr_maxy :: int
  gr_attr :: "EAttributeType option"

definition grid_addch :: "char \<Rightarrow> grid \<Rightarrow> grid" where
  "grid_addch c g =
     (let g1 = g\<lparr>gr_cells := (gr_cells g)((gr_x g, gr_y g) := (c, gr_attr g))\<rparr>
      in if gr_x g + 1 < gr_maxx g then g1\<lparr>gr_x := gr_x g + 1\<rparr> else g1\<lparr>gr_x := 0, gr_y := min (gr_y g + 1) (gr_maxy g - 1)\<rparr>)"

definition grid_curses :: "grid curses" where
  "grid_curses =
     \<lparr>wmove = (\<lambda>x y g. if 0 \<le> x \<and> x < gr_maxx g \<and> 0 \<le> y \<and> y < gr_maxy g then g\<lparr>gr_x := x, gr_y := y\<rparr> else g),
      waddch = grid_addch,
      waddnstr = (\<lambda>s n g. foldl (\<lambda>g c. grid_addch c g) g (if n < 0 then s else take (nat n) s)),
      wattron = (\<lambda>a g. g\<lparr>gr_attr := Some a\<rparr>), wattroff = (\<lambda>a g. g\<lparr>gr_attr := None\<rparr>),
      getposx = gr_x, getmaxx = gr_maxx\<rparr>"

interpretation grid: curses_window grid_curses gr_cells gr_y gr_maxy gr_attr
  by unfold_locales (auto simp: grid_curses_def grid_addch_def Let_def)

definition sample_style :: RowStyle where
  "sample_style = \<lparr>rs_columns = [\<lparr>cc_type = COL_PROTO, cc_width = 6, cc_hasLabel = True\<rparr>, \<lparr>cc_type = COL_PROTO_STATE, cc_width = 3, cc_hasLabel = True\<rparr>],
     rs_columnsTotalWidth = 10, rs_showCursor = True, rs_showHostname = True, rs_showPortname = True\<rparr>"

definition sample_grid :: grid where
  "sample_grid = \<lparr>gr_cells = (\<lambda>_. (CHR ''?'', None)), gr_x = 0, gr_y = 0, gr_maxx = 12, gr_maxy = 9, gr_attr = None\<rparr>"

definition sample_update :: ConnectionListUpdate where
  "sample_update = \<lparr>lu_data = Some (Connection_create (AddressIP4 1) (Port TCP 1) (AddressIP4 2) (Port TCP 2)), lu_updateFlags = - 1,
     lu_rowNumber = 1, lu_isCursor = True\<rparr>"

theorem row_drawn_exactly_witness:
  "gr_cells (drawRow grid_curses sample_style ConnectionStorage_init sample_update sample_grid) (2, 6)
     = (CHR ''p'', Some ATTR_PROTO_TCP_SELECTED)"
proof -
  have "style_ok sample_style (getmaxx grid_curses sample_grid)"
    by (simp add: style_ok_def sample_style_def getColumnsTotalWidth_def grid_curses_def sample_grid_def)
  moreover have "row_printable sample_style True ConnectionStorage_init (Connection_create (AddressIP4 1) (Port TCP 1) (AddressIP4 2) (Port TCP 2))"
    by code_simp
  ultimately show ?thesis
    using row_drawn_exactly [OF grid.curses_window_axioms, of sample_style sample_grid sample_update "Connection_create (AddressIP4 1) (Port TCP 1) (AddressIP4 2) (Port TCP 2)"
        ConnectionStorage_init undefined]
    by (simp add: sample_update_def sample_grid_def sample_style_def LIST_BEGIN_def overlay_def row_cells_def column_draw_def draw_proto_def
        Connection_create_def derefConnection_def ConnectionStorage_init_def um_find_def ConnectionData_create_def grid_curses_def)
qed

end
