(* ===== verification/ConnDraw.thy ===== *)
theory ConnDraw
  imports RowProps
begin

text \<open>
  The protocol between \<^verbatim>\<open>ConnectionList\<close> and the screen that draws it: the list flags
  the rows that have to be drawn again, and the screen fetches the flagged rows one by one
  (\<^verbatim>\<open>ScreenConnectionList::updateList\<close>). Shown here: no operation moves a connection to
  another visible row, changes what a row is drawn from, or moves the cursor to another row, without flagging the
  row or the column, so that after the drawing loop the screen shows exactly the visible part of the list
  with the current data.
\<close>

section \<open>The drawing loop\<close>

lemma next_loop_measure:
  "next_loop row cur is = Some (u, is') \<Longrightarrow>
     length (filter isRefreshRequired is) = Suc (length (filter isRefreshRequired is'))"
  by (induction row cur "is" arbitrary: u is' rule: next_loop.induct) (auto split: if_splits)

lemma next_loop_data: "next_loop row cur is = Some (u, is') \<Longrightarrow> lu_data u \<noteq> None"
  by (induction row cur "is" arbitrary: u is' rule: next_loop.induct) (auto split: if_splits)

lemma getNextUpdate_measure:
  assumes "getNextUpdate l = (u, l')" and "lu_data u \<noteq> None"
  shows "length (filter isRefreshRequired (m_list l'))
    < length (filter isRefreshRequired (m_list l))"
proof -
  let ?n = "getListBeginIt l"
  let ?next = "next_loop 0 (m_cursorPos l) (drop ?n (m_list l))"
  have "m_isRefreshRequired l"
    using assms by (auto simp: getNextUpdate_def ConnectionListUpdate_empty_def split: if_splits)
  then have "?next \<noteq> None"
    using assms by (cases ?next) (auto simp: getNextUpdate_def Let_def ConnectionListUpdate_empty_def)
  then obtain v rs where n: "?next = Some (v, rs)" by auto
  then have l': "l' = l\<lparr>m_list := take ?n (m_list l) @ rs\<rparr>"
    using assms(1) \<open>m_isRefreshRequired l\<close> by (simp add: getNextUpdate_def Let_def)
  have "filter isRefreshRequired (m_list l)
      = filter isRefreshRequired (take ?n (m_list l)) @ filter isRefreshRequired (drop ?n (m_list l))"
    by (metis append_take_drop_id filter_append)
  with next_loop_measure [OF n] l' show ?thesis by simp
qed

text \<open>
  What the screen shows in a row: whether it is highlighted as the cursor, and for each column the text with
  its colour. An update with all flags draws the whole row. An update with some flags draws the columns
  concerned and leaves the others as they are (cell by cell this is \<open>row_drawn_exactly\<close>); over a row with
  other columns this gives no row at all (\<open>None\<close>). The loop of \<open>updateList\<close> draws the updates it
  gets until it gets an empty one.
\<close>

type_synonym Row = "bool \<times> (ConnectionColumn \<times> cell_draw) list"

type_synonym Screen = "nat \<Rightarrow> Row option"

definition row_picture :: "RowStyle \<Rightarrow> bool \<Rightarrow> ConnectionStorage \<Rightarrow> Connection \<Rightarrow> Row" where
  "row_picture rs isCursor st c =
     (isCursor, map (\<lambda>column. (column, column_draw rs isCursor st c (cc_type column))) (rs_columns rs))"

definition draw_over :: "RowStyle \<Rightarrow> bool \<Rightarrow> ConnectionStorage \<Rightarrow> Connection \<Rightarrow> flags \<Rightarrow> Row option \<Rightarrow> Row option" where
  "draw_over rs isCursor st c flags old =
     (if flags = - 1 then Some (row_picture rs isCursor st c)
      else
        case old of
          None \<Rightarrow> None
        | Some (_, cells) \<Rightarrow>
            if map fst cells = rs_columns rs
            then Some (isCursor, map (\<lambda>(column, d). (column,
                   if has_flag flags (column_flag (cc_type column)) then column_draw rs isCursor st c (cc_type column) else d)) cells)
            else None)"

definition drawListEntry :: "RowStyle \<Rightarrow> ConnectionStorage \<Rightarrow> ConnectionListUpdate \<Rightarrow> Screen \<Rightarrow> Screen" where
  "drawListEntry rs st u scr =
     (case lu_data u of
        None \<Rightarrow> scr
      | Some c \<Rightarrow>
          let isCursor = (lu_isCursor u \<and> rs_showCursor rs); row = lu_rowNumber u
          in scr(row := draw_over rs isCursor st c (lu_updateFlags u) (scr row)))"

function updateList :: "RowStyle \<Rightarrow> Screen \<Rightarrow> ConnectionList \<Rightarrow> Screen \<times> ConnectionList" where
  "updateList rs scr l =
     (let (u, l') = getNextUpdate l
      in if lu_data u = None then (scr, l') else updateList rs (drawListEntry rs (m_storage l) u scr) l')"
  by pat_completeness auto
termination
  by (relation "measure (\<lambda>(rs, scr, l). length (filter isRefreshRequired (m_list l)))")
    (auto intro!: getNextUpdate_measure [OF sym])

declare updateList.simps [simp del]

section \<open>Flagged rows\<close>

text \<open>A row that waits to be drawn as a whole.\<close>

definition stale :: "Item \<Rightarrow> bool" where
  "stale i \<longleftrightarrow> isRefreshRequired i \<and> updateFlags i = - 1"

text \<open>A row that waits for a column to be drawn.\<close>

definition pending :: "Item \<Rightarrow> flags \<Rightarrow> bool" where
  "pending i F \<longleftrightarrow> isRefreshRequired i \<and> has_flag (updateFlags i) F"

text \<open>
  A visible row of \<open>new\<close> that is not stale is the same row, not stale, of \<open>old\<close>, and no column has been
  forgotten.
\<close>

definition settled :: "nat \<Rightarrow> Item list \<Rightarrow> Item list \<Rightarrow> bool" where
  "settled off old new \<longleftrightarrow>
     (\<forall>i. off \<le> i \<and> i < length new \<and> \<not> stale (new ! i) \<longrightarrow>
        i < length old \<and> \<not> stale (old ! i) \<and> pConnection (new ! i) = pConnection (old ! i)
        \<and> (\<forall>F. pending (old ! i) F \<longrightarrow> pending (new ! i) F))"

definition all_flagged :: "ConnectionList \<Rightarrow> bool" where
  "all_flagged l \<longleftrightarrow> (\<forall>i. m_scrollOffset l \<le> i \<and> i < length (m_list l) \<longrightarrow> stale (m_list l ! i))"

definition flags_seen :: "ConnectionList \<Rightarrow> bool" where
  "flags_seen l \<longleftrightarrow>
     (\<forall>i. m_scrollOffset l \<le> i \<and> i < length (m_list l) \<and> isRefreshRequired (m_list l ! i)
        \<longrightarrow> m_isRefreshRequired l)"

text \<open>
  A row is shown but for the columns that wait: the highlight and the columns are right, and every column
  shows what it should or waits. On the screen this holds of all visible rows that do not wait as a whole.
  The data are an argument of their own.
\<close>

definition row_ok :: "RowStyle \<Rightarrow> bool \<Rightarrow> ConnectionStorage \<Rightarrow> Item \<Rightarrow> Row option \<Rightarrow> bool" where
  "row_ok rs isCursor st it row \<longleftrightarrow>
     (\<exists>cells. row = Some (isCursor, cells) \<and> map fst cells = rs_columns rs \<and>
        (\<forall>(column, d) \<in> set cells. pending it (column_flag (cc_type column))
           \<or> d = column_draw rs isCursor st (pConnection it) (cc_type column)))"

definition screen_ok :: "RowStyle \<Rightarrow> Screen \<Rightarrow> ConnectionStorage \<Rightarrow> ConnectionList \<Rightarrow> bool" where
  "screen_ok rs scr st l \<longleftrightarrow>
     (\<forall>i < getSize l. \<not> stale (m_list l ! (m_scrollOffset l + i)) \<longrightarrow>
        row_ok rs (i = m_cursorPos l \<and> rs_showCursor rs) st (m_list l ! (m_scrollOffset l + i)) (scr i))"

lemma row_ok_settled:
  "row_ok rs b st it row \<Longrightarrow> pConnection it' = pConnection it \<Longrightarrow> (\<And>F. pending it F \<Longrightarrow> pending it' F) \<Longrightarrow> row_ok rs b st it' row"
  unfolding row_ok_def by (auto simp: Ball_def)

lemma settled_refl: "settled off xs xs"
  by (simp add: settled_def)

lemma settled_trans: "settled off xs ys \<Longrightarrow> settled off ys zs \<Longrightarrow> settled off xs zs"
  unfolding settled_def by metis

lemma settled_push: "stale it \<Longrightarrow> settled off xs (xs @ [it])"
  by (auto simp: settled_def nth_append less_Suc_eq)

lemma settled_single: "stale it \<Longrightarrow> settled off [] [it]"
  using settled_push [of it off "[]"] by simp

lemma settled_take: "settled off xs (take n xs)"
  by (auto simp: settled_def)

lemma settled_butlast: "settled off xs (butlast xs)"
  by (auto simp: settled_def nth_butlast)

lemma flag_invalidate [simp]: "stale (invalidate i)"
  by (simp add: stale_def invalidate_def)

lemma flag_Item_create [simp]: "stale (Item_create p)"
  by (simp add: stale_def Item_create_def)

lemma invalidate_from_nth:
  "i < length xs \<Longrightarrow> invalidate_from n xs ! i = (if i < n then xs ! i else invalidate (xs ! i))"
  by (auto simp: invalidate_from_def nth_append min_def)

text \<open>Rows before a position are kept, the others flagged.\<close>

lemma settled_from:
  assumes "\<And>i. i < n \<Longrightarrow> i < length ys \<Longrightarrow> i < length xs \<and> ys ! i = xs ! i"
  shows "settled off xs (invalidate_from n ys)"
  using assms by (auto simp: settled_def invalidate_from_nth split: if_splits)

text \<open>... where positions above the window may be skipped.\<close>

lemma settled_from_visible:
  assumes "\<And>i. i < n \<Longrightarrow> i < length ys \<Longrightarrow> i < length xs \<and> ys ! i = xs ! i"
    and "m \<le> max n off \<or> length ys \<le> off"
  shows "settled off xs (invalidate_from m ys)"
  using assms by (fastforce simp: settled_def invalidate_from_nth split: if_splits)

lemma ub_loop_le: "ub_loop lt xs x first len \<le> first + len"
proof (induction len arbitrary: first rule: less_induct)
  case (less len)
  show ?case
  proof (cases "len = 0")
    case False
    have "len div 2 < len" and "len - len div 2 - 1 < len" using False by simp_all
    from less [OF this(1), of first] less [OF this(2), of "first + len div 2 + 1"] False
    show ?thesis by (subst ub_loop.simps) (auto simp: Let_def)
  qed (simp add: ub_loop.simps)
qed

lemma insert_upper_nth:
  "i < upper_bound lt xs x \<Longrightarrow> i < length xs \<and> insert_upper lt xs x ! i = xs ! i"
  using ub_loop_le [of lt xs x 0 "length xs"]
  by (auto simp: insert_upper_def upper_bound_def nth_append)

section \<open>The parts\<close>

lemma settled_insertItem: "settled (m_scrollOffset l) (m_list l) (m_list (insertItem l it))"
proof -
  let ?ys = "insert_upper (item_less l) (m_list l) it" and ?n = "upper_bound (item_less l) (m_list l) it"
  let ?l1 = "l\<lparr>m_list := ?ys\<rparr>"
  let ?l2 = "if getSize ?l1 > m_targetSize l then l\<lparr>m_list := butlast ?ys\<rparr> else ?l1"
  have e: "m_list (insertItem l it) = invalidate_from
      (if ?n < getListBeginIndex ?l2 then getListBeginIndex ?l2 else ?n) (m_list ?l2)"
    by (simp add: insertItem_def Let_def)
  have "i < length (m_list l) \<and> m_list ?l2 ! i = m_list l ! i" if "i < ?n" "i < length (m_list ?l2)" for i
    using insert_upper_nth [OF that(1)] that(2) by (auto simp: nth_butlast split: if_splits)
  moreover have "getListBeginIndex ?l2 \<le> m_scrollOffset l"
    by (auto simp: getListBeginIndex_def)
  ultimately show ?thesis unfolding e by (intro settled_from_visible [where n = ?n]) auto
qed

lemma settled_fill_step: "settled (m_scrollOffset l) (m_list l) (m_list (fill_step l p))"
  by (simp add: fill_step_def Let_def settled_insertItem settled_refl settled_push)

lemma settled_foldl:
  assumes "\<And>l p. settled (m_scrollOffset l) (m_list l) (m_list (f l p))" and "\<And>l p. rows_only l (f l p)"
  shows "settled (m_scrollOffset l) (m_list l) (m_list (foldl f l ps))"
proof (induction ps arbitrary: l)
  case (Cons p ps)
  from Cons [of "f l p"] assms(1) [of l p] show ?case
    by (simp add: rows_onlyD [OF assms(2)]) (rule settled_trans)
qed (simp add: settled_refl)

lemma settled_fill: "settled (m_scrollOffset l) (m_list l) (m_list (fill l))"
proof (cases "m_targetSize l \<le> getSize l \<or> getConnectionCount (m_storage l) \<le> length (m_list l)")
  case True
  then have "fill l = l" by (simp add: fill_def)
  then show ?thesis by (simp add: settled_refl)
next
  case False
  define m where
    "m = (if m_list l = [] then l\<lparr>m_list := [Item_create (hd (connections (m_storage l)))]\<rparr> else l)"
  have m: "m_scrollOffset m = m_scrollOffset l" "settled (m_scrollOffset l) (m_list l) (m_list m)"
    by (simp_all add: m_def settled_refl settled_single)
  have "settled (m_scrollOffset m) (m_list m) (m_list (foldl fill_step m (connections (m_storage l))))"
    by (rule settled_foldl [OF settled_fill_step rows_only_fill_step])
  with m have "settled (m_scrollOffset l) (m_list l)
      (m_list (foldl fill_step m (connections (m_storage l))))"
    using settled_trans by metis
  moreover have "m_list (fill l) = m_list (foldl fill_step m (connections (m_storage l)))"
    using False by (simp add: fill_def Let_def m_def)
  ultimately show ?thesis by simp
qed

lemma all_flagged_invalidate: "all_flagged (invalidateAllVisible l)"
  by (auto simp: all_flagged_def invalidateAllVisible_def invalidate_from_nth getListBeginIt_def)

lemma settled_all_flagged: "all_flagged l' \<Longrightarrow> m_scrollOffset l' = off \<Longrightarrow> settled off xs (m_list l')"
  by (auto simp: all_flagged_def settled_def)

lemma settled_sort: "settled (m_scrollOffset l) (m_list l) (m_list (sort l))"
  by (rule settled_all_flagged) (simp_all add: sort_def all_flagged_invalidate list_frame)


text \<open>
  A quiet operation moves neither the window nor the cursor and flags every visible row it changes.
\<close>

definition quiet :: "ConnectionList \<Rightarrow> ConnectionList \<Rightarrow> bool" where
  "quiet l l' \<longleftrightarrow>
     m_scrollOffset l' = m_scrollOffset l \<and> m_cursorPos l' = m_cursorPos l \<and>
     settled (m_scrollOffset l) (m_list l) (m_list l')"

lemma quiet_refl: "quiet l l"
  by (simp add: quiet_def settled_refl)

lemma quiet_trans: "quiet a b \<Longrightarrow> quiet b c \<Longrightarrow> quiet a c"
  unfolding quiet_def using settled_trans by metis

lemma quiet_rows_only:
  "rows_only l l' \<Longrightarrow> settled (m_scrollOffset l) (m_list l) (m_list l') \<Longrightarrow> quiet l l'"
  by (simp add: quiet_def rows_onlyD)

lemma quiet_frame [simp]:
  "quiet l (l'\<lparr>m_isRefreshRequired := b\<rparr>) = quiet l l'"
  "quiet l (l'\<lparr>m_effects := es\<rparr>) = quiet l l'"
  "quiet l (l'\<lparr>m_storage := st\<rparr>) = quiet l l'"
  "quiet l (l'\<lparr>m_connectionDetail := d\<rparr>) = quiet l l'"
  "quiet l (l'\<lparr>m_connectionDetailUpdateFlags := f\<rparr>) = quiet l l'"
  "quiet l (l'\<lparr>m_dataTotalCount := n\<rparr>) = quiet l l'"
  "quiet l (l'\<lparr>m_dataResolvedCount := n\<rparr>) = quiet l l'"
  by (simp_all add: quiet_def)

lemma settled_row:
  assumes "settled (m_scrollOffset l) (m_list l) (m_list l')" and "m_scrollOffset l' = m_scrollOffset l"
    and "screen_ok rs scr st l" and "i < getSize l'" and "\<not> stale (m_list l' ! (m_scrollOffset l' + i))"
  shows "row_ok rs (i = m_cursorPos l \<and> rs_showCursor rs) st (m_list l' ! (m_scrollOffset l' + i)) (scr i)"
proof -
  let ?j = "m_scrollOffset l + i"
  have o: "?j < length (m_list l)" "\<not> stale (m_list l ! ?j)" "pConnection (m_list l' ! ?j) = pConnection (m_list l ! ?j)"
    "\<And>F. pending (m_list l ! ?j) F \<Longrightarrow> pending (m_list l' ! ?j) F"
    using assms(1,2,4,5) unfolding settled_def by (auto simp: getSize_eq)
  have "i < getSize l" using o(1) unfolding getSize_eq by linarith
  with assms(3) o(2) have "row_ok rs (i = m_cursorPos l \<and> rs_showCursor rs) st (m_list l ! ?j) (scr i)"
    by (simp add: screen_ok_def)
  from row_ok_settled [OF this o(3,4)] assms(2) show ?thesis by simp
qed

lemma screen_ok_quiet: "quiet l l' \<Longrightarrow> screen_ok rs scr st l \<Longrightarrow> screen_ok rs scr st l'"
  unfolding quiet_def screen_ok_def [of rs scr st l'] using settled_row by simp

lemma screen_ok_all_flagged: "all_flagged l \<Longrightarrow> screen_ok rs scr st l"
  by (auto simp: all_flagged_def screen_ok_def getSize_eq less_diff_conv add.commute)

lemma quiet_insertItem: "quiet l (insertItem l it)"
  and quiet_fill: "quiet l (fill l)"
  and quiet_sort: "quiet l (sort l)"
  and quiet_handleNewConnection: "quiet l (handleNewConnection p l)"
  using quiet_rows_only [OF rows_only_insertItem settled_insertItem]
    quiet_rows_only [OF rows_only_fill settled_fill] quiet_rows_only [OF rows_only_sort settled_sort]
  by (simp_all add: handleNewConnection_def Let_def quiet_refl)
    (auto simp: quiet_def settled_push settled_single)

lemma quiet_storage: "quiet (l\<lparr>m_storage := st\<rparr>) l' = quiet l l'"
  and quiet_detail: "quiet (l\<lparr>m_connectionDetail := d\<rparr>) l' = quiet l l'"
  and quiet_detail_flags: "quiet (l\<lparr>m_connectionDetailUpdateFlags := f\<rparr>) l' = quiet l l'"
  and quiet_resolved: "quiet (l\<lparr>m_dataResolvedCount := n\<rparr>) l' = quiet l l'"
  by (simp_all add: quiet_def)

lemmas quiet_from = quiet_storage quiet_detail quiet_detail_flags quiet_resolved

lemma quiet_add: "quiet l (add c t s l)"
  using quiet_handleNewConnection [of "l\<lparr>m_storage := snd (addConnection c t s (m_storage l))\<rparr>" c]
  by (simp add: add_def Let_def case_prod_unfold quiet_refl quiet_from addConnection_fst)

lemma quiet_update_order: "quiet l (update_order i l)"
  using quiet_sort quiet_fill quiet_trans quiet_refl by (simp add: update_order_def Let_def) metis

lemma quiet_update: "quiet l (update p f l)"
proof -
  have mark: "quiet l (update_mark i f l)" for i l
    by (cases "i < length (m_list l)")
      (auto simp: quiet_def update_mark_def settled_def nth_list_update list_update_beyond stale_def pending_def has_flag_or)
  have "quiet l (update_rows p f l)" for l
    using quiet_trans [OF mark quiet_update_order] by (simp add: update_rows_def Let_def quiet_refl quiet_insertItem)
  from this [of "l\<lparr>m_connectionDetailUpdateFlags := f\<rparr>"] this [of l] show ?thesis
    by (simp add: update_def quiet_from)
qed

lemma quiet_rescan: "quiet l (foldl (rescan_step uses) l ps)"
proof (rule quiet_rows_only [OF rows_only_foldl [OF rows_only_rescan_step]])
  show "settled (m_scrollOffset l) (m_list l) (m_list (foldl (rescan_step uses) l ps))"
    by (rule settled_foldl [OF _ rows_only_rescan_step])
      (simp add: rescan_step_def Let_def settled_insertItem settled_refl)
qed

lemma quiet_dataUpdated:
  assumes "\<And>i. pConnection (mark i) = pConnection i" and "\<And>i. stale i \<Longrightarrow> stale (mark i)"
    and "\<And>i F. pending i F \<Longrightarrow> pending (mark i) F"
  shows "quiet l (dataUpdated_rows m uses mark l)"
proof -
  let ?n = "getListBeginIt l"
  let ?l = "l\<lparr>m_list := take ?n (m_list l) @ map mark (drop ?n (m_list l))\<rparr>"
  have mk: "quiet l ?l"
    using assms by (auto simp: quiet_def settled_def nth_append min_def split: if_splits)
  have "quiet l (foldl (rescan_step uses) (sort l1) ps)" and "quiet l (foldl (rescan_step uses) l1 ps)"
    if "quiet l l1" for l1 ps
    using that quiet_trans [OF that quiet_sort] quiet_rescan quiet_trans by blast+
  with mk show ?thesis by (simp add: dataUpdated_rows_def Let_def quiet_refl)
qed


lemma mark_flags:
  "stale i \<Longrightarrow> stale (mark_address a i)"
  "stale i \<Longrightarrow> stale (mark_port p i)"
  "pending i F \<Longrightarrow> pending (mark_address a i) F"
  "pending i F \<Longrightarrow> pending (mark_port p i) F"
  by (simp_all add: mark_address_def mark_port_def Let_def stale_def pending_def has_flag_or)

lemma quiet_resolved_address: "quiet l (ResolverCallbackAddress a h co asn l)"
  and quiet_resolved_port: "quiet l (ResolverCallbackPort p s l)"
proof -
  have a: "quiet l (addressDataUpdated a l)" and p: "quiet l (portDataUpdated p l)" for l
    using quiet_dataUpdated [of "mark_address a" "l\<lparr>m_connectionDetailUpdateFlags := _\<rparr>"]
      quiet_dataUpdated [of "mark_port p" "l\<lparr>m_connectionDetailUpdateFlags := _\<rparr>"] mark_flags
    by (simp_all add: addressDataUpdated_def portDataUpdated_def Let_def quiet_from)
  show "quiet l (ResolverCallbackAddress a h co asn l)"
    using a [of "l\<lparr>m_storage := _, m_dataResolvedCount := m_dataResolvedCount l + 1\<rparr>"]
    by (simp add: ResolverCallbackAddress_def Let_def quiet_from)
  show "quiet l (ResolverCallbackPort p s l)"
    using p [of "l\<lparr>m_storage := _, m_dataResolvedCount := m_dataResolvedCount l + 1\<rparr>"]
    by (simp add: ResolverCallbackPort_def Let_def quiet_from)
qed

section \<open>Operations that move the cursor or the window\<close>

text \<open>The cursor moves from a row that is flagged or gone to a row that is flagged.\<close>

lemma screen_ok_cursor:
  assumes "screen_ok rs scr st l" and "m_scrollOffset l' = m_scrollOffset l"
    and "settled (m_scrollOffset l) (m_list l) (m_list l')"
    and "\<And>i. i < getSize l' \<Longrightarrow> i = m_cursorPos l \<or> i = m_cursorPos l' \<Longrightarrow>
      stale (m_list l' ! (m_scrollOffset l + i))"
  shows "screen_ok rs scr st l'"
  unfolding screen_ok_def
proof (intro allI impI)
  fix i
  assume i: "i < getSize l'" and nf: "\<not> stale (m_list l' ! (m_scrollOffset l' + i))"
  then have "i \<noteq> m_cursorPos l" "i \<noteq> m_cursorPos l'" using assms(2,4) by auto
  with settled_row [OF assms(3,2,1) i nf]
  show "row_ok rs (i = m_cursorPos l' \<and> rs_showCursor rs) st (m_list l' ! (m_scrollOffset l' + i)) (scr i)" by simp
qed

lemma quiet_invalidateCursor: "quiet l (invalidateCursor l)"
proof (cases "getListBeginIt l + m_cursorPos l < length (m_list l)")
  case True
  then show ?thesis
    by (auto simp: quiet_def invalidateCursor_def Let_def settled_def nth_list_update)
next
  case False
  then show ?thesis
    by (auto simp: quiet_def invalidateCursor_def Let_def settled_refl list_update_beyond)
qed

lemma invalidateCursor_flag:
  assumes "i = m_cursorPos l" and "i < getSize l"
  shows "stale (m_list (invalidateCursor l) ! (m_scrollOffset l + i))"
  using assms by (auto simp: invalidateCursor_def Let_def getSize_eq getListBeginIt_def)

lemma getSize_quiet_cursor [simp]:
  "getSize (invalidateCursor l) = getSize l" "getSize (l\<lparr>m_cursorPos := k\<rparr>) = getSize l"
proof -
  have "length (m_list (invalidateCursor l)) = length (m_list l)"
    using ptrs_invalidateCursor [of l] by (metis length_ptrs)
  then show "getSize (invalidateCursor l) = getSize l" "getSize (l\<lparr>m_cursorPos := k\<rparr>) = getSize l"
    by (simp_all add: getSize_eq list_frame)
qed

lemma screen_ok_clampCursor:
  assumes "screen_ok rs scr st l"
  shows "screen_ok rs scr st (clampCursor l)"
proof (cases "m_cursorPos l > getCursorMaxPos l")
  case True
  let ?l = "l\<lparr>m_cursorPos := getCursorMaxPos l\<rparr>"
  have "screen_ok rs scr st (invalidateCursor ?l)"
  proof (rule screen_ok_cursor [OF assms])
    show "settled (m_scrollOffset l) (m_list l) (m_list (invalidateCursor ?l))"
      using quiet_invalidateCursor [of ?l] by (simp add: quiet_def)
    show "stale (m_list (invalidateCursor ?l) ! (m_scrollOffset l + i))"
      if "i < getSize (invalidateCursor ?l)" "i = m_cursorPos l \<or> i = m_cursorPos (invalidateCursor ?l)" for i
      using that True invalidateCursor_flag [of i ?l]
      by (auto simp: list_frame getCursorMaxPos_def Let_def split: if_splits)
  qed (simp add: list_frame)
  with True show ?thesis by (simp add: clampCursor_def Let_def)
qed (use assms in \<open>simp add: clampCursor_def Let_def\<close>)

lemma screen_ok_move:
  assumes "screen_ok rs scr st l"
  shows "screen_ok rs scr st (invalidateCursor ((invalidateCursor l)\<lparr>m_cursorPos := k\<rparr>))"
proof (rule screen_ok_cursor [OF assms])
  let ?a = "invalidateCursor l"
  let ?b = "?a\<lparr>m_cursorPos := k\<rparr>"
  have qa: "settled (m_scrollOffset l) (m_list l) (m_list ?a)"
    using quiet_invalidateCursor [of l] by (simp add: quiet_def)
  have qb: "settled (m_scrollOffset l) (m_list ?a) (m_list (invalidateCursor ?b))"
    using quiet_invalidateCursor [of ?b] by (simp add: quiet_def list_frame)
  show "settled (m_scrollOffset l) (m_list l) (m_list (invalidateCursor ?b))"
    using qa qb by (rule settled_trans)
  show "stale (m_list (invalidateCursor ?b) ! (m_scrollOffset l + i))"
    if i: "i < getSize (invalidateCursor ?b)" "i = m_cursorPos l \<or> i = m_cursorPos (invalidateCursor ?b)" for i
    using i(2)
  proof
    assume c: "i = m_cursorPos l"
    have "stale (m_list ?a ! (m_scrollOffset l + i))"
      using invalidateCursor_flag [OF c] i(1) by simp
    moreover have "m_scrollOffset l + i < length (m_list (invalidateCursor ?b))"
      using i(1) by (simp add: getSize_eq list_frame)
    ultimately show ?thesis using qb unfolding settled_def using le_add1 by blast
  next
    assume c: "i = m_cursorPos (invalidateCursor ?b)"
    then show ?thesis using invalidateCursor_flag [of i ?b] i(1) by (simp add: list_frame)
  qed
qed (simp add: list_frame)

text \<open>Scrolling flags everything that is visible, whenever it scrolls at all.\<close>

lemma all_flagged_settled:
  "all_flagged l \<Longrightarrow> quiet l l' \<Longrightarrow> all_flagged l'"
  unfolding all_flagged_def quiet_def settled_def by auto

lemma all_flagged_doScroll:
  "n < 0 \<Longrightarrow> 0 < m_scrollOffset l \<Longrightarrow> all_flagged (doScroll n l)"
  "0 < n \<Longrightarrow> length (m_list l) < getConnectionCount (m_storage l) \<Longrightarrow> all_flagged (doScroll n l)"
  by (auto simp: doScroll_def Let_def all_flagged_invalidate
      intro: all_flagged_settled [OF all_flagged_invalidate quiet_fill])

lemma screen_ok_doScroll:
  assumes "screen_ok rs scr st l"
  shows "screen_ok rs scr st (doScroll n l)"
proof -
  have stay: "doScroll n l = l" if "\<not> (n < 0 \<and> 0 < m_scrollOffset l)"
      "\<not> (0 < n \<and> length (m_list l) < getConnectionCount (m_storage l))"
    using that by (auto simp: doScroll_def Let_def)
  consider "n < 0" "0 < m_scrollOffset l"
    | "0 < n" "length (m_list l) < getConnectionCount (m_storage l)" | "doScroll n l = l"
    using stay by metis
  then show ?thesis using assms by cases (auto intro: screen_ok_all_flagged all_flagged_doScroll)
qed

lemma screen_ok_moveCursor:
  assumes "screen_ok rs scr st l"
  shows "screen_ok rs scr st (moveCursor n l)"
proof -
  have "screen_ok rs scr st (doScroll k (l\<lparr>m_cursorPos := j\<rparr>))" if "k < 0" "0 < m_scrollOffset l" for j k
    using that by (intro screen_ok_all_flagged all_flagged_doScroll) simp_all
  moreover have "screen_ok rs scr st (doScroll k (l\<lparr>m_cursorPos := j\<rparr>))"
    if "0 < k" "length (m_list l) < getConnectionCount (m_storage l)" for j k
    using that by (intro screen_ok_all_flagged all_flagged_doScroll(2)) simp_all
  ultimately show ?thesis
    unfolding moveCursor_def Let_def using assms by (simp add: screen_ok_move)
qed

lemma remove_first_nth:
  "i < find_index P xs \<Longrightarrow> i < length (remove_first P xs) \<Longrightarrow>
     i < length xs \<and> remove_first P xs ! i = xs ! i"
proof (induction xs arbitrary: i)
  case (Cons x xs)
  then show ?case by (cases i) (auto split: if_splits)
qed simp

lemma quiet_remove_row:
  assumes "n \<le> max (find_index P (m_list l)) (m_scrollOffset l)
      \<or> length (remove_first P (m_list l)) \<le> m_scrollOffset l"
  shows "quiet l (l\<lparr>m_list := invalidate_from n (remove_first P (m_list l))\<rparr>)"
  using settled_from_visible [OF remove_first_nth assms] by (simp add: quiet_def)

lemma handleRemoved_quiet:
  "\<exists>m. handleRemovedConnection p l = (clampCursor (fill m))\<lparr>m_isRefreshRequired := True\<rparr> \<and> quiet l m"
proof -
  let ?P = "\<lambda>i. pConnection i = p"
  let ?rm = "remove_first ?P (m_list l)"
  define l1 where "l1 = (if m_connectionDetail l = Some p
    then l\<lparr>m_connectionDetail := None, m_connectionDetailUpdateFlags := - 1\<rparr> else l)"
  define b where "b = getListBeginIt (l1\<lparr>m_list := ?rm\<rparr>)"
  define n where "n = (if find_index ?P (m_list l) < b then b else find_index ?P (m_list l))"
  have l1: "m_list l1 = m_list l" "m_scrollOffset l1 = m_scrollOffset l" and q: "quiet l l1"
    by (simp_all add: l1_def quiet_refl)
  have "handleRemovedConnection p l
      = (clampCursor (fill (l1\<lparr>m_list := invalidate_from n ?rm\<rparr>)))\<lparr>m_isRefreshRequired := True\<rparr>"
    unfolding handleRemovedConnection_def Let_def l1_def [symmetric] n_def b_def by (simp add: l1)
  moreover have "quiet l1 (l1\<lparr>m_list := invalidate_from n ?rm\<rparr>)"
    using quiet_remove_row [of n ?P l1] unfolding l1 by (auto simp: n_def b_def getListBeginIt_def l1)
  ultimately show ?thesis using quiet_trans [OF q] by blast
qed

lemma screen_ok_refresh [simp]: "screen_ok rs scr st (l\<lparr>m_isRefreshRequired := b\<rparr>) = screen_ok rs scr st l"
  by (simp add: screen_ok_def getSize_eq)

lemma screen_ok_remove:
  assumes "screen_ok rs scr st l"
  shows "screen_ok rs scr st (remove c l)"
proof -
  let ?l = "l\<lparr>m_storage := snd (removeConnection c (m_storage l))\<rparr>"
  have ok: "screen_ok rs scr st ?l" using assms screen_ok_quiet [of l ?l] by (simp add: quiet_refl)
  have "screen_ok rs scr st (handleRemovedConnection p ?l)" for p
  proof -
    obtain m where "handleRemovedConnection p ?l = (clampCursor (fill m))\<lparr>m_isRefreshRequired := True\<rparr>"
        and q: "quiet ?l m"
      using handleRemoved_quiet by blast
    moreover have "screen_ok rs scr st (fill m)" using ok q quiet_fill quiet_trans screen_ok_quiet by blast
    ultimately show ?thesis by (simp add: screen_ok_clampCursor)
  qed
  with ok show ?thesis by (simp add: remove_def case_prod_unfold Let_def split: option.split)
qed

lemma screen_ok_setTargetSize:
  assumes "screen_ok rs scr st l"
  shows "screen_ok rs scr st (setTargetSize n l)"
proof -
  let ?l = "l\<lparr>m_targetSize := n\<rparr>"
  have q: "quiet l ?l" by (simp add: quiet_def settled_refl)
  have "quiet ?l (?l\<lparr>m_list := (butlast ^^ k) (m_list l)\<rparr>)" for k
    by (simp add: quiet_def butlast_pow_take settled_take)
  then have "quiet l (?l\<lparr>m_list := (butlast ^^ k) (m_list l)\<rparr>)" for k using q quiet_trans by blast
  moreover have "quiet l (fill ?l)" using q quiet_fill quiet_trans by blast
  ultimately have "screen_ok rs scr st (?l\<lparr>m_list := (butlast ^^ k) (m_list l)\<rparr>)"
      "screen_ok rs scr st (fill ?l)" "screen_ok rs scr st ?l" for k
    using assms q screen_ok_quiet by blast+
  then show ?thesis using assms by (simp add: setTargetSize_def Let_def screen_ok_clampCursor)
qed

lemma screen_ok_setSortMode:
  assumes "screen_ok rs scr st l"
  shows "screen_ok rs scr st (setSortMode m b l)"
proof -
  let ?l = "(updateCompareFunc (l\<lparr>m_sortMode := m, m_isSortAscending := b\<rparr>))\<lparr>m_list := []\<rparr>"
  have "screen_ok rs scr st ?l" by (simp add: screen_ok_def getSize_eq)
  then have "screen_ok rs scr st (fill ?l)" using quiet_fill screen_ok_quiet by blast
  with assms show ?thesis by (simp add: setSortMode_def Let_def)
qed


section \<open>The refresh flag\<close>

text \<open>An operation asks for a refresh or leaves the rows alone.\<close>

definition noted :: "ConnectionList \<Rightarrow> ConnectionList \<Rightarrow> bool" where
  "noted l l' \<longleftrightarrow> m_isRefreshRequired l' \<or>
     (\<not> m_isRefreshRequired l \<and> m_scrollOffset l' = m_scrollOffset l \<and> m_list l' = m_list l)"

lemma flags_seen_noted: "noted l l' \<Longrightarrow> flags_seen l \<Longrightarrow> flags_seen l'"
  by (auto simp: noted_def flags_seen_def)

lemma noted_refl: "noted l l"
  by (simp add: noted_def)

lemma noted_trans: "noted a b \<Longrightarrow> noted b c \<Longrightarrow> noted a c"
  by (auto simp: noted_def)

lemma noted_on: "m_isRefreshRequired l' \<Longrightarrow> noted l l'"
  by (simp add: noted_def)

lemma noted_insertItem: "noted l (insertItem l it)"
  by (simp add: noted_def insertItem_def Let_def)

lemma noted_fill: "noted l (fill l)"
  by (simp add: noted_def fill_def Let_def)

lemma noted_sort: "noted l (sort l)"
  by (simp add: noted_def sort_def invalidateAllVisible_def)

lemma noted_invalidateCursor: "noted l (invalidateCursor l)"
  by (simp add: noted_def invalidateCursor_def Let_def)

lemma noted_frame [simp]:
  "noted l (l'\<lparr>m_storage := st\<rparr>) = noted l l'" "noted (l\<lparr>m_storage := st\<rparr>) l' = noted l l'"
  "noted l (l'\<lparr>m_cursorPos := k\<rparr>) = noted l l'" "noted (l\<lparr>m_cursorPos := k\<rparr>) l' = noted l l'"
  "noted l (l'\<lparr>m_targetSize := k\<rparr>) = noted l l'" "noted (l\<lparr>m_targetSize := k\<rparr>) l' = noted l l'"
  "noted l (l'\<lparr>m_effects := es\<rparr>) = noted l l'" "noted l (l'\<lparr>m_dataTotalCount := k\<rparr>) = noted l l'"
  "noted l (l'\<lparr>m_dataResolvedCount := k\<rparr>) = noted l l'"
  "noted (l\<lparr>m_dataResolvedCount := k\<rparr>) l' = noted l l'"
  "noted l (l'\<lparr>m_connectionDetail := d\<rparr>) = noted l l'"
  "noted l (l'\<lparr>m_connectionDetailUpdateFlags := f\<rparr>) = noted l l'"
  "noted (l\<lparr>m_connectionDetailUpdateFlags := f\<rparr>) l' = noted l l'"
  by (simp_all add: noted_def)

lemma noted_clampCursor: "noted l (clampCursor l)"
  using noted_invalidateCursor [of "l\<lparr>m_cursorPos := getCursorMaxPos l\<rparr>"]
  by (simp add: clampCursor_def Let_def noted_refl)

lemma noted_add: "noted l (add c t s l)"
proof -
  have "noted l (handleNewConnection p l)" for p l
    by (simp add: handleNewConnection_def Let_def noted_insertItem noted_refl noted_on)
  from this [of "l\<lparr>m_storage := snd (addConnection c t s (m_storage l))\<rparr>"] show ?thesis
    by (simp add: add_def Let_def case_prod_unfold noted_refl)
qed

lemma noted_remove: "noted l (remove c l)"
  using noted_refl by (simp add: remove_def case_prod_unfold handleRemovedConnection_def Let_def noted_on split: option.split)

lemma noted_update: "noted l (update p f l)"
proof -
  have mark: "noted l (update_mark i f l)" for i l by (simp add: update_mark_def noted_on noted_refl)
  have order: "noted l (update_order i l)" for i l
    using noted_sort noted_fill noted_trans noted_refl by (simp add: update_order_def Let_def) metis
  have "noted l (update_rows p f l)" for l
    using noted_trans [OF mark order] by (simp add: update_rows_def Let_def noted_refl noted_insertItem)
  from this [of "l\<lparr>m_connectionDetailUpdateFlags := f\<rparr>"] this [of l] show ?thesis
    by (simp add: update_def)
qed

lemma noted_dataUpdated:
  assumes "\<And>i. \<not> uses (pConnection i) \<Longrightarrow> mark i = i"
  shows "noted l (dataUpdated_rows m uses mark l)"
proof -
  let ?n = "getListBeginIt l"
  let ?vis = "list_ex (\<lambda>i. uses (pConnection i)) (drop ?n (m_list l))"
  let ?l1 = "l\<lparr>m_list := take ?n (m_list l) @ map mark (drop ?n (m_list l))\<rparr>"
  let ?l2 = "if ?vis then ?l1\<lparr>m_isRefreshRequired := True\<rparr> else ?l1"
  have "map mark (drop ?n (m_list l)) = drop ?n (m_list l)" if "\<not> ?vis"
    using that assms by (intro map_idI) (auto simp: list_ex_iff)
  then have mk: "noted l ?l2" by (auto simp: noted_def)
  have "noted l (foldl (rescan_step uses) l ps)" for l ps
  proof (induction ps arbitrary: l)
    case (Cons p ps)
    have "noted l (rescan_step uses l p)"
      by (simp add: rescan_step_def Let_def noted_insertItem noted_refl)
    with Cons show ?case using noted_trans by (metis foldl_Cons)
  qed (simp add: noted_refl)
  then have "noted l (foldl (rescan_step uses) ?l2 ps)" and "noted l (foldl (rescan_step uses) (sort ?l2) ps)" for ps
    using mk noted_sort noted_trans by blast+
  with mk show ?thesis by (cases ?vis) (simp_all add: dataUpdated_rows_def Let_def noted_refl)
qed


lemma mark_unused:
  "\<not> uses_address a (pConnection i) \<Longrightarrow> mark_address a i = i"
  "\<not> uses_port p (pConnection i) \<Longrightarrow> mark_port p i = i"
  by (auto simp: uses_address_def mark_address_def uses_port_def mark_port_def)

lemma noted_resolved_address: "noted l (ResolverCallbackAddress a h co asn l)"
  and noted_resolved_port: "noted l (ResolverCallbackPort p s l)"
proof -
  have a: "noted l (addressDataUpdated a l)" and p: "noted l (portDataUpdated p l)" for l
    using noted_dataUpdated [of "uses_address a" "mark_address a" "l\<lparr>m_connectionDetailUpdateFlags := _\<rparr>"]
      noted_dataUpdated [of "uses_port p" "mark_port p" "l\<lparr>m_connectionDetailUpdateFlags := _\<rparr>"] mark_unused
    by (simp_all add: addressDataUpdated_def portDataUpdated_def Let_def)
  show "noted l (ResolverCallbackAddress a h co asn l)"
    using a [of "l\<lparr>m_storage := _, m_dataResolvedCount := m_dataResolvedCount l + 1\<rparr>"]
    by (simp add: ResolverCallbackAddress_def Let_def)
  show "noted l (ResolverCallbackPort p s l)"
    using p [of "l\<lparr>m_storage := _, m_dataResolvedCount := m_dataResolvedCount l + 1\<rparr>"]
    by (simp add: ResolverCallbackPort_def Let_def)
qed

lemma noted_doScroll: "noted l (doScroll n l)"
proof -
  have inv: "noted l (invalidateAllVisible l')" for l l'
    by (simp add: noted_def invalidateAllVisible_def)
  then have "noted l (fill (invalidateAllVisible l'))" for l'
    using noted_fill noted_trans by blast
  with inv show ?thesis by (simp add: doScroll_def Let_def noted_refl)
qed

lemma noted_moveCursor: "noted l (moveCursor n l)"
proof -
  have "noted l (invalidateCursor ((invalidateCursor l)\<lparr>m_cursorPos := k\<rparr>))" for k
    using noted_trans [OF noted_invalidateCursor [of l],
        of "invalidateCursor ((invalidateCursor l)\<lparr>m_cursorPos := k\<rparr>)"]
      noted_invalidateCursor [of "(invalidateCursor l)\<lparr>m_cursorPos := k\<rparr>"] by simp
  moreover have "noted l (doScroll j (l\<lparr>m_cursorPos := k\<rparr>))" for j k
    using noted_doScroll [of "l\<lparr>m_cursorPos := k\<rparr>" j] by simp
  ultimately show ?thesis by (simp add: moveCursor_def Let_def noted_refl)
qed

lemma noted_setTargetSize: "noted l (setTargetSize n l)"
proof -
  have "noted l (clampCursor l')" if "noted l l'" for l' using that noted_clampCursor noted_trans by blast
  moreover have "noted l (fill (l\<lparr>m_targetSize := n\<rparr>))" using noted_fill [of "l\<lparr>m_targetSize := n\<rparr>"] by simp
  ultimately show ?thesis by (simp add: setTargetSize_def Let_def noted_refl noted_on)
qed

lemma noted_other:
  "noted l (clear l)" "noted l (snd (getAddress net a b l))" "noted l (snd (getPort p b l))"
  "noted l (initConnectionDetail l)" "noted l (resetConnectionDetailRefresh l)" "noted l (setSortMode m b l)"
  by (simp_all add: clear_def noted_on getAddress_def getPort_def Let_def case_prod_unfold noted_refl
      initConnectionDetail_def resetConnectionDetailRefresh_def setSortMode_def)

section \<open>Drawing\<close>

lemma next_loop_Some:
  "next_loop row cur is = Some (u, is') \<Longrightarrow>
     \<exists>k < length is. isRefreshRequired (is ! k) \<and> u = \<lparr>lu_data = Some (pConnection (is ! k)), lu_updateFlags = updateFlags (is ! k),
         lu_rowNumber = row + k, lu_isCursor = (row + k = cur)\<rparr>
       \<and> is' = is[k := (is ! k)\<lparr>isRefreshRequired := False, updateFlags := 0\<rparr>]"
proof (induction row cur "is" arbitrary: u is' rule: next_loop.induct)
  case (2 row cursor i ys)
  show ?case
  proof (cases "isRefreshRequired i")
    case True
    with 2 show ?thesis by (intro exI [of _ 0]) auto
  next
    case False
    with 2(2) obtain v zs where n: "next_loop (row + 1) cursor ys = Some (v, zs)" and e: "u = v" "is' = i # zs"
      by auto
    from 2(1) [OF False n] obtain k where "k < length ys" "isRefreshRequired (ys ! k)"
      "v = \<lparr>lu_data = Some (pConnection (ys ! k)), lu_updateFlags = updateFlags (ys ! k),
         lu_rowNumber = row + 1 + k, lu_isCursor = (row + 1 + k = cursor)\<rparr>"
      "zs = ys[k := (ys ! k)\<lparr>isRefreshRequired := False, updateFlags := 0\<rparr>]" by blast
    with e show ?thesis by (intro exI [of _ "Suc k"]) auto
  qed
qed simp

lemma next_loop_None: "next_loop row cur is = None \<Longrightarrow> i \<in> set is \<Longrightarrow> \<not> isRefreshRequired i"
  by (induction row cur "is" rule: next_loop.induct) (auto split: if_splits)

lemma getNextUpdate_end:
  assumes "getNextUpdate l = (u, l')" and "lu_data u = None" and "flags_seen l"
    and "m_scrollOffset l \<le> i" and "i < length (m_list l)"
  shows "\<not> isRefreshRequired (m_list l ! i) \<and> m_list l' = m_list l"
proof (cases "m_isRefreshRequired l")
  case True
  have b: "getListBeginIt l = m_scrollOffset l" using assms(4,5) by (simp add: getListBeginIt_def)
  let ?next = "next_loop 0 (m_cursorPos l) (drop (m_scrollOffset l) (m_list l))"
  have n: "?next = None"
  proof (cases ?next)
    case (Some r)
    then obtain v rs where r: "?next = Some (v, rs)" by (cases r) auto
    with True assms(1) b have "u = v" by (simp add: getNextUpdate_def Let_def)
    with next_loop_data [OF r] assms(2) show ?thesis by simp
  qed
  have "m_list l ! i \<in> set (drop (m_scrollOffset l) (m_list l))"
    using assms(4,5) by (metis Cons_nth_drop_Suc drop_drop in_set_dropD le_add_diff_inverse list.set_intros(1)
        ordered_cancel_comm_monoid_diff_class.diff_add set_drop_subset_set_drop subset_iff)
  with next_loop_None [OF n] True n b assms(1) show ?thesis by (auto simp: getNextUpdate_def Let_def)
next
  case False
  then show ?thesis using assms by (auto simp: flags_seen_def getNextUpdate_def)
qed


lemma getNextUpdate_next:
  assumes "getNextUpdate l = (u, l')" and "lu_data u \<noteq> None"
  obtains k where "m_scrollOffset l + k < length (m_list l)" and "m_isRefreshRequired l"
    and "isRefreshRequired (m_list l ! (m_scrollOffset l + k))"
    and "u = \<lparr>lu_data = Some (pConnection (m_list l ! (m_scrollOffset l + k))),
           lu_updateFlags = updateFlags (m_list l ! (m_scrollOffset l + k)),
           lu_rowNumber = k, lu_isCursor = (k = m_cursorPos l)\<rparr>"
    and "l' = l\<lparr>m_list := (m_list l)[m_scrollOffset l + k :=
           (m_list l ! (m_scrollOffset l + k))\<lparr>isRefreshRequired := False, updateFlags := 0\<rparr>]\<rparr>"
proof -
  let ?b = "getListBeginIt l"
  let ?next = "next_loop 0 (m_cursorPos l) (drop ?b (m_list l))"
  have r: "m_isRefreshRequired l"
    using assms by (auto simp: getNextUpdate_def ConnectionListUpdate_empty_def split: if_splits)
  then obtain rs where n: "?next = Some (u, rs)"
    using assms by (cases ?next) (auto simp: getNextUpdate_def Let_def ConnectionListUpdate_empty_def)
  have l': "l' = l\<lparr>m_list := take ?b (m_list l) @ rs\<rparr>"
    using assms(1) n r by (simp add: getNextUpdate_def Let_def)
  from next_loop_Some [OF n] obtain k where k: "k < length (drop ?b (m_list l))"
      and fl: "isRefreshRequired (drop ?b (m_list l) ! k)"
      and u: "u = \<lparr>lu_data = Some (pConnection (drop ?b (m_list l) ! k)),
        lu_updateFlags = updateFlags (drop ?b (m_list l) ! k),
        lu_rowNumber = k, lu_isCursor = (k = m_cursorPos l)\<rparr>"
      and rs: "rs = (drop ?b (m_list l))[k := (drop ?b (m_list l) ! k)
        \<lparr>isRefreshRequired := False, updateFlags := 0\<rparr>]"
    by auto
  have b: "?b = m_scrollOffset l" using k by (auto simp: getListBeginIt_def split: if_splits)
  have nth: "drop ?b (m_list l) ! k = m_list l ! (?b + k)" using k by simp
  have "l' = l\<lparr>m_list := (m_list l)[?b + k :=
      (m_list l ! (?b + k))\<lparr>isRefreshRequired := False, updateFlags := 0\<rparr>]\<rparr>"
    using k unfolding l' rs nth by (simp add: take_update_drop)
  with that [of k] k r u fl show thesis unfolding nth b by simp
qed

text \<open>Drawing the update of a row that waits, as a whole or for some columns, leaves nothing to draw in it.\<close>

lemma row_ok_drawn:
  assumes "updateFlags it = - 1 \<or> row_ok rs b st it row" and "isRefreshRequired it"
  shows "draw_over rs b st (pConnection it) (updateFlags it) row = Some (row_picture rs b st (pConnection it))"
proof (cases "updateFlags it = - 1")
  case False
  with assms obtain cells where c: "row = Some (b, cells)" "map fst cells = rs_columns rs"
    and d: "\<forall>(column, d) \<in> set cells. pending it (column_flag (cc_type column))
           \<or> d = column_draw rs b st (pConnection it) (cc_type column)"
    by (auto simp: row_ok_def)
  have "map (\<lambda>(column, d). (column, if has_flag (updateFlags it) (column_flag (cc_type column))
      then column_draw rs b st (pConnection it) (cc_type column) else d)) cells
    = map (\<lambda>column. (column, column_draw rs b st (pConnection it) (cc_type column))) (map fst cells)"
    using d assms(2) by (auto simp: pending_def case_prod_beta)
  with c False show ?thesis by (simp add: draw_over_def row_picture_def)
qed (simp add: draw_over_def)

lemma row_ok_shown:
  "row_ok rs b st it (Some (row_picture rs b st (pConnection it)))"
  "\<not> isRefreshRequired it \<Longrightarrow> row_ok rs b st it row \<Longrightarrow> row = Some (row_picture rs b st (pConnection it))"
proof -
  show "row_ok rs b st it (Some (row_picture rs b st (pConnection it)))"
    by (auto simp: row_ok_def row_picture_def comp_def)
  assume "\<not> isRefreshRequired it" and r: "row_ok rs b st it row"
  then obtain cells where c: "row = Some (b, cells)" "map fst cells = rs_columns rs"
    "\<forall>(column, d) \<in> set cells. d = column_draw rs b st (pConnection it) (cc_type column)"
    by (auto simp: row_ok_def pending_def)
  have "cells = map (\<lambda>column. (column, column_draw rs b st (pConnection it) (cc_type column))) (map fst cells)"
    using c(3) by (auto intro!: map_idI [symmetric])
  with c(1,2) show "row = Some (row_picture rs b st (pConnection it))" by (simp add: row_picture_def)
qed

lemma getNextUpdate_drawn:
  assumes "getNextUpdate l = (u, l')" and "lu_data u \<noteq> None" and "screen_ok rs scr st l" and "flags_seen l"
  shows "screen_ok rs (drawListEntry rs st u scr) st l' \<and> flags_seen l'"
proof -
  from getNextUpdate_next [OF assms(1,2)] obtain k
    where k: "m_scrollOffset l + k < length (m_list l)" and r: "m_isRefreshRequired l"
      and fl: "isRefreshRequired (m_list l ! (m_scrollOffset l + k))"
      and u: "u = \<lparr>lu_data = Some (pConnection (m_list l ! (m_scrollOffset l + k))),
           lu_updateFlags = updateFlags (m_list l ! (m_scrollOffset l + k)),
           lu_rowNumber = k, lu_isCursor = (k = m_cursorPos l)\<rparr>"
      and l': "l' = l\<lparr>m_list := (m_list l)[m_scrollOffset l + k :=
           (m_list l ! (m_scrollOffset l + k))\<lparr>isRefreshRequired := False, updateFlags := 0\<rparr>]\<rparr>"
    by blast
  let ?it = "m_list l ! (m_scrollOffset l + k)" and ?b = "k = m_cursorPos l \<and> rs_showCursor rs"
  have "updateFlags ?it = - 1 \<or> row_ok rs ?b st ?it (scr k)"
    using assms(3) k fl unfolding screen_ok_def stale_def getSize_eq by (auto simp: less_diff_conv add.commute)
  from row_ok_drawn [OF this fl] have scr: "drawListEntry rs st u scr = scr(k := Some (row_picture rs ?b st (pConnection ?it)))"
    by (simp add: drawListEntry_def u Let_def)
  have "row_ok rs (i = m_cursorPos l \<and> rs_showCursor rs) st (m_list l' ! (m_scrollOffset l + i)) (drawListEntry rs st u scr i)"
    if i: "i < getSize l" and s: "\<not> stale (m_list l' ! (m_scrollOffset l + i))" for i
  proof (cases "i = k")
    case True
    with k row_ok_shown(1) [of rs ?b st "?it\<lparr>isRefreshRequired := False, updateFlags := 0\<rparr>"] show ?thesis by (simp add: l' scr)
  next
    case False
    with i s assms(3) show ?thesis by (simp add: l' scr screen_ok_def nth_list_update)
  qed
  then have "screen_ok rs (drawListEntry rs st u scr) st l'"
    unfolding screen_ok_def by (simp add: l' getSize_eq)
  moreover have "flags_seen l'" using r by (simp add: l' flags_seen_def)
  ultimately show ?thesis by simp
qed

text \<open>What the screen shows when it shows the list.\<close>

definition screen_shows :: "RowStyle \<Rightarrow> Screen \<Rightarrow> ConnectionList \<Rightarrow> bool" where
  "screen_shows rs scr l \<longleftrightarrow>
     (\<forall>i < getSize l. scr i = Some (row_picture rs (i = m_cursorPos l \<and> rs_showCursor rs) (m_storage l)
        (pConnection (m_list l ! (m_scrollOffset l + i)))))"

lemma screen_shows_ok: "screen_shows rs scr l \<Longrightarrow> screen_ok rs scr (m_storage l) l"
  by (simp add: screen_ok_def screen_shows_def row_ok_shown)

lemma rows_only_getNextUpdate:
  assumes "getNextUpdate l = (u, l')"
  shows "rows_only l l'"
  using assms by (auto simp: getNextUpdate_def Let_def rows_only_def split: if_splits option.splits prod.splits)

lemma updateList_shows:
  assumes "screen_ok rs scr (m_storage l) l" and "flags_seen l"
  shows "screen_shows rs (fst (updateList rs scr l)) (snd (updateList rs scr l))
    \<and> flags_seen (snd (updateList rs scr l)) \<and> m_storage (snd (updateList rs scr l)) = m_storage l"
  using assms
proof (induction rs scr l rule: updateList.induct)
  case (1 rs scr l)
  obtain u l' where g: "getNextUpdate l = (u, l')" by (cases "getNextUpdate l")
  note fr = rows_onlyD [OF rows_only_getNextUpdate [OF g]]
  show ?case
  proof (cases "lu_data u = None")
    case True
    then have e: "updateList rs scr l = (scr, l')" using g by (subst updateList.simps) simp
    have same: "m_list l' = m_list l \<or> getSize l = 0"
      using getNextUpdate_end [OF g True "1.prems"(2), of "m_scrollOffset l"] by (auto simp: getSize_eq)
    have len: "getSize l' = getSize l"
      using list_inv_getNextUpdate g
      by (metis fr(3) getSize_eq length_ptrs ptrs_getNextUpdate snd_conv)
    have off: "\<not> isRefreshRequired (m_list l ! (m_scrollOffset l + i))" if "i < getSize l" for i
      using getNextUpdate_end [OF g True "1.prems"(2), of "m_scrollOffset l + i"] that by (auto simp: getSize_eq)
    have "screen_shows rs scr l'"
      using "1.prems"(1) same off row_ok_shown(2) by (auto simp: screen_shows_def screen_ok_def stale_def len fr)
    moreover have "flags_seen l'"
      unfolding flags_seen_def
    proof (intro allI impI)
      fix i
      assume i: "m_scrollOffset l' \<le> i \<and> i < length (m_list l') \<and> isRefreshRequired (m_list l' ! i)"
      then have "getSize l \<noteq> 0" using len unfolding getSize_eq by linarith
      with same have "m_list l' = m_list l" by simp
      with i off [of "i - m_scrollOffset l"] show "m_isRefreshRequired l'"
        by (auto simp: getSize_eq fr diff_less_mono)
    qed
    ultimately show ?thesis by (simp add: e fr)
  next
    case False
    have e: "updateList rs scr l = updateList rs (drawListEntry rs (m_storage l) u scr) l'"
      using False g by (subst updateList.simps) auto
    show ?thesis
      using "1.IH" [OF g [symmetric] refl False] getNextUpdate_drawn [OF g False "1.prems"]
      by (simp add: e fr)
  qed
qed

lemma updateList_frame:
  "ptrs (snd (updateList rs scr l)) = ptrs l \<and> m_scrollOffset (snd (updateList rs scr l)) = m_scrollOffset l
     \<and> m_cursorPos (snd (updateList rs scr l)) = m_cursorPos l"
proof (induction rs scr l rule: updateList.induct)
  case (1 rs scr l)
  obtain u l' where g: "getNextUpdate l = (u, l')" by (cases "getNextUpdate l")
  then have p: "ptrs l' = ptrs l" using ptrs_getNextUpdate [of l] by simp
  note fr = rows_onlyD [OF rows_only_getNextUpdate [OF g]]
  show ?case
    using "1.IH" [OF g [symmetric] refl] p fr g
    by (cases "lu_data u = None"; subst (1 2 3) updateList.simps) simp_all
qed

lemma list_inv_updateList: "list_inv l \<Longrightarrow> list_inv (snd (updateList rs scr l))"
proof (induction rs scr l rule: updateList.induct)
  case (1 rs scr l)
  obtain u l' where g: "getNextUpdate l = (u, l')" by (cases "getNextUpdate l")
  with list_inv_getNextUpdate [of l] 1(2) have "list_inv l'" by simp
  with 1(1) [OF g [symmetric] refl] g show ?case by (subst updateList.simps) simp
qed

section \<open>Changes of the data\<close>

text \<open>What has changed in the data of a row is named by flags the row waits for.\<close>

definition covered :: "ConnectionStorage \<Rightarrow> ConnectionStorage \<Rightarrow> Item \<Rightarrow> bool" where
  "covered st st' it \<longleftrightarrow> (\<exists>f. names_changes f st st' (pConnection it) \<and> (\<forall>F. has_flag f F \<longrightarrow> pending it F))"

definition marked :: "(Item \<Rightarrow> bool) \<Rightarrow> ConnectionList \<Rightarrow> bool" where
  "marked P l \<longleftrightarrow>
     (\<forall>i. m_scrollOffset l \<le> i \<and> i < length (m_list l) \<and> \<not> stale (m_list l ! i) \<longrightarrow> P (m_list l ! i))"

declare has_flag_0 [simp]

lemma names_changes_view: "same_view st st' c \<Longrightarrow> names_changes f st st' c"
  by (simp add: names_changes_def same_view_def Let_def)

lemma covered_view: "same_view st st' (pConnection it) \<Longrightarrow> covered st st' it"
  unfolding covered_def by (intro exI [of _ 0]) (simp add: names_changes_view)

lemma row_ok_covered:
  assumes "row_ok rs b st it row" and "covered st st' it"
  shows "row_ok rs b st' it row"
proof -
  obtain f where f: "names_changes f st st' (pConnection it)" "\<And>F. has_flag f F \<Longrightarrow> pending it F"
    using assms(2) by (auto simp: covered_def)
  have "pending it (column_flag t) \<or> column_draw rs b st (pConnection it) t = column_draw rs b st' (pConnection it) t" for t
    using names_changes_covers [OF f(1)] f(2) by blast
  with assms(1) show ?thesis unfolding row_ok_def by fastforce
qed

lemma screen_ok_data:
  assumes "screen_ok rs scr st l" and "marked (covered st st') l"
  shows "screen_ok rs scr st' l"
  using assms row_ok_covered unfolding screen_ok_def marked_def by (auto simp: getSize_eq less_diff_conv add.commute)

lemma marked_view: "(\<And>c. c \<in> set (ptrs l) \<Longrightarrow> same_view st st' c) \<Longrightarrow> marked (covered st st') l"
  by (auto simp: marked_def ptrs_def intro!: covered_view)

text \<open>What is asked of the rows that do not wait holds as long as rows keep what they wait for.\<close>

lemma marked_settled:
  assumes "marked P l" and "quiet l l'"
    and "\<And>a b. pConnection b = pConnection a \<Longrightarrow> (\<And>F. pending a F \<Longrightarrow> pending b F) \<Longrightarrow> P a \<Longrightarrow> P b"
  shows "marked P l'"
  unfolding marked_def
proof (intro allI impI)
  fix i
  assume i: "m_scrollOffset l' \<le> i \<and> i < length (m_list l') \<and> \<not> stale (m_list l' ! i)"
  then have o: "i < length (m_list l)" "\<not> stale (m_list l ! i)" "pConnection (m_list l' ! i) = pConnection (m_list l ! i)"
    "\<And>F. pending (m_list l ! i) F \<Longrightarrow> pending (m_list l' ! i) F"
    using assms(2) unfolding quiet_def settled_def by auto
  moreover have "m_scrollOffset l \<le> i" using i assms(2) by (simp add: quiet_def)
  ultimately show "P (m_list l' ! i)" using assms(1) assms(3) [OF o(3,4)] unfolding marked_def by blast
qed

text \<open>After an update the row of the connection waits for all the flags of the update.\<close>

definition waits_for :: "Connection \<Rightarrow> flags \<Rightarrow> Item \<Rightarrow> bool" where
  "waits_for c f it \<longleftrightarrow> (pConnection it = c \<longrightarrow> (\<forall>F. has_flag f F \<longrightarrow> pending it F))"

lemma update_marks:
  assumes "distinct (ptrs l)"
  shows "marked (waits_for c f) (update c f l)"
proof -
  define l1 where "l1 = (if m_connectionDetail l = Some c then l\<lparr>m_connectionDetailUpdateFlags := f\<rparr> else l)"
  have rows: "m_list l1 = m_list l" by (simp add: l1_def)
  let ?i = "find_index (\<lambda>it. pConnection it = c) (m_list l)"
  have keep: "marked (waits_for c f) l'" if "marked (waits_for c f) m" "quiet m l'" for m l'
    using that by (rule marked_settled) (auto simp: waits_for_def)
  have "marked (waits_for c f) (update_rows c f l1)"
  proof (cases "?i < length (m_list l)")
    case True
    let ?m = "update_mark ?i f l1"
    have len: "length (m_list ?m) = length (m_list l)" "m_scrollOffset ?m = m_scrollOffset l1"
      and same: "\<And>j. pConnection (m_list ?m ! j) = pConnection (m_list l ! j)"
      using True by (simp_all add: update_mark_def rows nth_list_update)
    have "waits_for c f (m_list ?m ! j)" if j: "m_scrollOffset l1 \<le> j" "j < length (m_list l)" for j
    proof (cases "pConnection (m_list l ! j) = c")
      case c: True
      have "ptrs l ! j = ptrs l ! ?i" using c j(2) True find_index_nth [OF True] by (simp add: ptrs_def)
      then have i: "?i = j" using nth_eq_iff_index_eq [OF assms, of j ?i] j(2) True by (simp add: length_ptrs)
      have "getListBeginIndex l1 \<le> j" using j by (simp add: getListBeginIndex_def)
      then show ?thesis using j(2) by (simp add: waits_for_def update_mark_def rows i pending_def has_flag_or)
    qed (simp add: waits_for_def same)
    then have "marked (waits_for c f) ?m" by (simp add: marked_def len)
    with True keep [OF _ quiet_update_order] show ?thesis by (auto simp: update_rows_def rows Let_def)
  next
    case False
    then have "pConnection it \<noteq> c" if "it \<in> set (m_list l)" for it
      using that find_index_less_iff [of "\<lambda>it. pConnection it = c" "m_list l"] by auto
    then have "marked (waits_for c f) l1" by (auto simp: marked_def waits_for_def rows)
    with False keep [OF _ quiet_insertItem] show ?thesis by (simp add: update_rows_def rows Let_def)
  qed
  then show ?thesis by (simp add: update_def l1_def)
qed

lemma dataUpdated_marks:
  assumes "\<And>i. P (mark i)"
    and "\<And>a b. pConnection b = pConnection a \<Longrightarrow> (\<And>F. pending a F \<Longrightarrow> pending b F) \<Longrightarrow> P a \<Longrightarrow> P b"
  shows "marked P (dataUpdated_rows m uses mark l)"
proof (cases "m_list l = []")
  case False
  let ?n = "getListBeginIt l"
  let ?l1 = "l\<lparr>m_list := take ?n (m_list l) @ map mark (drop ?n (m_list l))\<rparr>"
  define l2 where "l2 = (if list_ex (\<lambda>i. uses (pConnection i)) (drop ?n (m_list l)) then ?l1\<lparr>m_isRefreshRequired := True\<rparr> else ?l1)"
  have "marked P l2"
    using assms(1) by (auto simp: marked_def l2_def getListBeginIt_def nth_append)
  then have m: "marked P l'" if "quiet l2 l'" for l' using that assms(2) by (rule marked_settled)
  have "quiet l2 (foldl (rescan_step uses) l3 ps)" if "quiet l2 l3" for l3 ps
    using that quiet_trans [OF that quiet_rescan] by blast
  moreover have "\<exists>b ps. dataUpdated_rows m uses mark l = (if m then foldl (rescan_step uses) (if b then sort l2 else l2) ps else l2)"
    using False by (auto simp: dataUpdated_rows_def Let_def l2_def)
  ultimately show ?thesis using m quiet_sort [of l2] quiet_refl [of l2] by auto
qed (simp add: dataUpdated_rows_def marked_def)

section \<open>The list and the screen together\<close>

text \<open>
  The operations of the list, in which an update of a connection names what it has changed in its data (as the
  updates of the collector do).
\<close>

inductive shown_step :: "inet \<Rightarrow> ConnectionList \<Rightarrow> ConnectionList \<Rightarrow> bool" for net where
  sh_add: "refs_live (m_storage l) c \<Longrightarrow> shown_step net l (add c t s l)"
| sh_remove: "shown_step net l (remove c l)"
| sh_clear: "shown_step net l (clear l)"
| sh_update: "c \<in> stored l \<Longrightarrow> keeps_identity g \<Longrightarrow> names_changes f (m_storage l) (writeConnection c g (m_storage l)) c \<Longrightarrow>
    shown_step net l (writeAndUpdate c g f l)"
| sh_address: "shown_step net l (snd (getAddress net a b l))"
| sh_port: "shown_step net l (snd (getPort p b l))"
| sh_resolved_address: "shown_step net l (ResolverCallbackAddress a h co asn l)"
| sh_resolved_port: "shown_step net l (ResolverCallbackPort p s l)"
| sh_cursor: "shown_step net l (moveCursor n l)"
| sh_scroll: "shown_step net l (doScroll n l)"
| sh_detail: "shown_step net l (initConnectionDetail l)"
| sh_detail_reset: "shown_step net l (resetConnectionDetailRefresh l)"
| sh_resize: "shown_step net l (setTargetSize n l)"
| sh_sort: "shown_step net l (setSortMode m b l)"
| sh_invalidate: "shown_step net l (invalidateAllVisible l)"
| sh_invalidate_cursor: "shown_step net l (invalidateCursor l)"

lemma shown_step_list: "shown_step net l l' \<Longrightarrow> list_step net l l'"
  by (induction rule: shown_step.induct) (auto intro: list_step.intros)

text \<open>The data after each operation.\<close>

lemma storage_moves:
  "m_storage (moveCursor n l) = m_storage l" "m_storage (doScroll n l) = m_storage l" "m_storage (setTargetSize k l) = m_storage l"
  "m_storage (setSortMode m b l) = m_storage l" "m_storage (initConnectionDetail l) = m_storage l"
  "m_storage (resetConnectionDetailRefresh l) = m_storage l" "m_storage (invalidateAllVisible l) = m_storage l"
  "m_storage (invalidateCursor l) = m_storage l"
proof -
  show s: "m_storage (doScroll n l) = m_storage l" for n l by (simp add: doScroll_def Let_def list_frame)
  show "m_storage (moveCursor n l) = m_storage l" by (simp add: moveCursor_def Let_def s list_frame)
qed (simp_all add: setTargetSize_def setSortMode_def updateCompareFunc_def initConnectionDetail_def resetConnectionDetailRefresh_def
    clampCursor_def Let_def list_frame)

lemma storage_remove: "m_storage (remove c l) = snd (removeConnection c (m_storage l))"
  by (simp add: remove_def handleRemovedConnection_def clampCursor_def Let_def case_prod_unfold list_frame split: option.split)

lemma storage_dataUpdated: "m_storage (dataUpdated_rows m uses mark l) = m_storage l"
  by (simp add: dataUpdated_rows_def Let_def list_frame rows_onlyD [OF rows_only_foldl [OF rows_only_rescan_step]])

lemma storage_resolved:
  "m_storage (ResolverCallbackAddress a h co asn l)
    = writeAddress a (\<lambda>d. setResolvedASN asn (setResolvedCountry co (setResolvedHostname h d))) (m_storage l)"
  "m_storage (ResolverCallbackPort p s l) = writePort p (setResolvedService s) (m_storage l)"
  by (simp_all add: ResolverCallbackAddress_def ResolverCallbackPort_def addressDataUpdated_def portDataUpdated_def Let_def storage_dataUpdated)

lemma one_flag: "has_flag (push_bit n 1) F \<Longrightarrow> has_flag f (push_bit n 1) \<Longrightarrow> has_flag f F"
proof -
  assume "has_flag (push_bit n 1) F" and f: "has_flag f (push_bit n 1)"
  then have "bit F n" using has_flag_bit [of F n] by (simp add: has_flag_def and.commute)
  with f [unfolded has_flag_bit] have "bit (f AND F) n" by (simp add: bit_and_iff)
  then show ?thesis by (auto simp: has_flag_def)
qed

lemmas resolved_flags = one_flag [of 2, folded F_SRC_ADDRESS_def] one_flag [of 3, folded F_DST_ADDRESS_def]
  one_flag [of 4, folded F_SRC_PORT_def] one_flag [of 5, folded F_DST_PORT_def]

lemma flag_self [simp]:
  "has_flag F_SRC_ADDRESS F_SRC_ADDRESS" "has_flag F_DST_ADDRESS F_DST_ADDRESS" "has_flag F_SRC_PORT F_SRC_PORT" "has_flag F_DST_PORT F_DST_PORT"
  by (simp_all add: has_flag_def flag_defs)

lemma marked_frame [simp]: "marked P (l\<lparr>m_effects := es\<rparr>) = marked P l"
  by (simp add: marked_def)

text \<open>Resolving marks the rows that show the address or the port.\<close>

lemma resolved_address_covered:
  "marked (covered (m_storage l) (m_storage (ResolverCallbackAddress a h co asn l))) (ResolverCallbackAddress a h co asn l)"
proof -
  let ?P = "\<lambda>it. (c_srcAddr (pConnection it) = a \<longrightarrow> pending it F_SRC_ADDRESS) \<and> (c_dstAddr (pConnection it) = a \<longrightarrow> pending it F_DST_ADDRESS)"
  let ?f = "\<lambda>c. (if c_srcAddr c = a then F_SRC_ADDRESS else 0) OR (if c_dstAddr c = a then F_DST_ADDRESS else 0)"
  have "?P (mark_address a it)" for it
    by (auto simp: mark_address_def Let_def pending_def has_flag_or flag_self)
  then have "marked ?P (dataUpdated_rows m uses (mark_address a) l')" for m uses l' by (rule dataUpdated_marks) auto
  then have m: "marked ?P (ResolverCallbackAddress a h co asn l)"
    by (simp add: ResolverCallbackAddress_def addressDataUpdated_def Let_def marked_frame)
  have "covered (m_storage l) (m_storage (ResolverCallbackAddress a h co asn l)) it" if "?P it" for it
    unfolding covered_def storage_resolved
  proof (intro exI [of _ "?f (pConnection it)"] conjI allI impI)
    show "names_changes (?f (pConnection it)) (m_storage l)
        (writeAddress a (\<lambda>d. setResolvedASN asn (setResolvedCountry co (setResolvedHostname h d))) (m_storage l)) (pConnection it)"
      by (auto simp: names_changes_def Let_def derefConnection_def derefAddress_def derefPort_def storage_frame findAddress_writeAddress
          has_flag_or flag_self)
    fix F
    assume "has_flag (?f (pConnection it)) F"
    with that show "pending it F" by (auto simp: has_flag_or pending_def split: if_splits intro: resolved_flags)
  qed
  with m show ?thesis unfolding marked_def by blast
qed

lemma resolved_port_covered:
  "marked (covered (m_storage l) (m_storage (ResolverCallbackPort p s l))) (ResolverCallbackPort p s l)"
proof -
  let ?P = "\<lambda>it. (c_srcPort (pConnection it) = p \<longrightarrow> pending it F_SRC_PORT) \<and> (c_dstPort (pConnection it) = p \<longrightarrow> pending it F_DST_PORT)"
  let ?f = "\<lambda>c. (if c_srcPort c = p then F_SRC_PORT else 0) OR (if c_dstPort c = p then F_DST_PORT else 0)"
  let ?st = "writePort p (setResolvedService s) (m_storage l)"
  have "?P (mark_port p it)" for it
    by (auto simp: mark_port_def Let_def pending_def has_flag_or)
  then have "marked ?P (dataUpdated_rows m uses (mark_port p) l')" for m uses l' by (rule dataUpdated_marks) auto
  then have m: "marked ?P (ResolverCallbackPort p s l)"
    by (simp add: ResolverCallbackPort_def portDataUpdated_def Let_def)
  have same: "um_find x (m_portMap ?st) = um_find x (m_portMap (m_storage l))" if "x \<noteq> p" for x
    using that by (simp add: writePort_def um.find_write)
  have "covered (m_storage l) (m_storage (ResolverCallbackPort p s l)) it" if "?P it" for it
    unfolding covered_def storage_resolved
  proof (intro exI [of _ "?f (pConnection it)"] conjI allI impI)
    show "names_changes (?f (pConnection it)) (m_storage l) ?st (pConnection it)"
      using same by (auto simp: names_changes_def Let_def derefConnection_def derefAddress_def derefPort_def storage_frame has_flag_or)
    fix F
    assume "has_flag (?f (pConnection it)) F"
    with that show "pending it F" by (auto simp: has_flag_or pending_def split: if_splits intro: resolved_flags)
  qed
  with m show ?thesis unfolding marked_def by blast
qed

text \<open>The rows are stored, so other operations change nothing that they show.\<close>

lemma rows_stored: "list_inv l \<Longrightarrow> set (ptrs l) \<subseteq> stored l" "list_inv l \<Longrightarrow> distinct (ptrs l)" "list_inv l \<Longrightarrow> storage_wf (m_storage l)"
  by (simp_all add: list_inv_iff list_rows_def list_base_def)

lemma screen_ok_changed:
  assumes "list_inv l" and "screen_ok rs scr (m_storage l) l"
  shows "screen_ok rs scr (m_storage (add c t s l)) (add c t s l)"
    and "screen_ok rs scr (m_storage (snd (getAddress net a b l))) (snd (getAddress net a b l))"
    and "screen_ok rs scr (m_storage (snd (getPort p b l))) (snd (getPort p b l))"
    and "list_inv (remove c l) \<Longrightarrow> screen_ok rs scr (m_storage (remove c l)) (remove c l)"
proof -
  note stored = subsetD [OF rows_stored(1) [OF assms(1)]]
  have live: "refs_live (m_storage l) c" if "c \<in> set (ptrs l)" for c
    using stored [OF that] stored_live [OF rows_stored(3) [OF assms(1)]] by (simp add: stored_def)
  have view: "screen_ok rs scr st l" if "\<And>c. c \<in> set (ptrs l) \<Longrightarrow> same_view (m_storage l) st c" for st
    using screen_ok_data [OF assms(2) marked_view] that by blast
  show "screen_ok rs scr (m_storage (add c t s l)) (add c t s l)"
    unfolding storage_add using stored view_addConnection by (intro screen_ok_quiet [OF quiet_add] view) (auto simp: stored_def)
  have qa: "quiet l (snd (getAddress net a b l))" and qp: "quiet l (snd (getPort p b l))"
    by (simp_all add: getAddress_def getPort_def Let_def case_prod_unfold quiet_refl)
  have "same_view (m_storage l) (m_storage (snd (getAddress net a b l))) c" if "c \<in> set (ptrs l)" for c
    using live [OF that] view_addAddress by (cases a) (auto simp: getAddress_def Let_def case_prod_unfold same_view_def)
  then show "screen_ok rs scr (m_storage (snd (getAddress net a b l))) (snd (getAddress net a b l))"
    by (rule screen_ok_quiet [OF qa view])
  have "same_view (m_storage l) (m_storage (snd (getPort p b l))) c" if "c \<in> set (ptrs l)" for c
    using live [OF that] view_addAddress(3) by (auto simp: getPort_def Let_def case_prod_unfold same_view_def)
  then show "screen_ok rs scr (m_storage (snd (getPort p b l))) (snd (getPort p b l))"
    by (rule screen_ok_quiet [OF qp view])
  assume inv: "list_inv (remove c l)"
  have "c' \<noteq> c" if "c' \<in> set (ptrs (remove c l))" for c'
    using subsetD [OF rows_stored(1) [OF inv] that] by (auto simp: stored_def storage_remove set_connections find_removeConnection)
  then have "marked (covered (m_storage l) (m_storage (remove c l))) (remove c l)"
    unfolding storage_remove using view_removeConnection by (intro marked_view) blast
  then show "screen_ok rs scr (m_storage (remove c l)) (remove c l)"
    by (rule screen_ok_data [OF screen_ok_remove [OF assms(2)]])
qed

lemma screen_ok_written:
  assumes "list_inv l" and "screen_ok rs scr (m_storage l) l" and "names_changes f (m_storage l) (writeConnection c g (m_storage l)) c"
  shows "screen_ok rs scr (m_storage (writeAndUpdate c g f l)) (writeAndUpdate c g f l)"
proof -
  let ?st = "writeConnection c g (m_storage l)" and ?l = "writeAndUpdate c g f l"
  have "marked (waits_for c f) ?l"
    unfolding writeAndUpdate_def by (rule update_marks) (use rows_stored(2) [OF assms(1)] in \<open>simp add: ptrs_def\<close>)
  moreover have "covered (m_storage l) ?st it" if "waits_for c f it" for it
    using that assms(3) covered_view [OF view_writeConnection] by (cases "pConnection it = c") (auto simp: waits_for_def covered_def)
  ultimately have "marked (covered (m_storage l) ?st) ?l" unfolding marked_def by blast
  moreover have "quiet l ?l"
    using quiet_update [of "l\<lparr>m_storage := ?st\<rparr>"] by (simp add: writeAndUpdate_def quiet_from)
  moreover have "m_storage ?l = ?st" by (simp add: writeAndUpdate_def storage_update)
  ultimately show ?thesis using screen_ok_data [OF screen_ok_quiet [OF _ assms(2)]] by simp
qed

lemma flags_seen_step:
  assumes "list_step net l l'" and "flags_seen l"
  shows "flags_seen l'"
proof -
  have upd: "noted l (writeAndUpdate c g f l)" for c g f
    using noted_update [of "l\<lparr>m_storage := writeConnection c g (m_storage l)\<rparr>"] by (simp add: writeAndUpdate_def)
  have all: "noted l (invalidateAllVisible l)" by (rule noted_on) (simp add: invalidateAllVisible_def)
  from assms(1) have "noted l l'"
    by cases (simp_all add: upd all noted_add noted_remove noted_other noted_resolved_address noted_resolved_port noted_moveCursor
        noted_doScroll noted_setTargetSize noted_invalidateCursor)
  with assms(2) show ?thesis by (rule flags_seen_noted [rotated])
qed

lemma screen_ok_step:
  assumes "shown_step net l l'" and "list_inv l" and "screen_ok rs scr (m_storage l) l" and "flags_seen l"
  shows "list_inv l' \<and> screen_ok rs scr (m_storage l') l' \<and> flags_seen l'"
proof -
  have inv: "list_inv l'" and seen: "flags_seen l'"
    using shown_step_list [OF assms(1)] list_inv_step flags_seen_step assms(2,4) by blast+
  have oth: "quiet l (initConnectionDetail l)" "quiet l (resetConnectionDetailRefresh l)"
    by (simp_all add: quiet_refl initConnectionDetail_def resetConnectionDetailRefresh_def Let_def)
  have clear: "screen_ok rs scr st (clear l)" for st by (simp add: clear_def screen_ok_def getSize_eq)
  note quiet = screen_ok_quiet [OF _ assms(3)]
  from assms(1) inv have "screen_ok rs scr (m_storage l') l'"
    by cases (simp_all add: storage_moves clear screen_ok_changed [OF assms(2,3)] screen_ok_written [OF assms(2,3)]
        screen_ok_moveCursor screen_ok_doScroll screen_ok_setTargetSize screen_ok_setSortMode assms(3)
        screen_ok_all_flagged [OF all_flagged_invalidate] quiet [OF quiet_invalidateCursor] quiet [OF oth(1)] quiet [OF oth(2)]
        screen_ok_data [OF quiet [OF quiet_resolved_address] resolved_address_covered]
        screen_ok_data [OF quiet [OF quiet_resolved_port] resolved_port_covered])
  with inv seen show ?thesis by simp
qed

text \<open>Hiding or showing the cursor changes one row.\<close>

lemma screen_ok_toggle:
  assumes "screen_ok rs scr st l"
  shows "screen_ok (rs\<lparr>rs_showCursor := b\<rparr>) scr st (invalidateCursor l)"
proof -
  have d: "column_draw (rs\<lparr>rs_showCursor := b\<rparr>) = column_draw rs"
    by (intro ext) (simp add: column_draw_def draw_address_def draw_port_def Let_def cong: EColumn.case_cong)
  have f: "row_ok (rs\<lparr>rs_showCursor := b\<rparr>) False st it row = row_ok rs False st it row" for it row by (simp add: row_ok_def d)
  have ok: "screen_ok rs scr st (invalidateCursor l)" by (rule screen_ok_quiet [OF quiet_invalidateCursor assms])
  show ?thesis
    unfolding screen_ok_def
  proof (intro allI impI)
    fix i
    assume i: "i < getSize (invalidateCursor l)" "\<not> stale (m_list (invalidateCursor l) ! (m_scrollOffset (invalidateCursor l) + i))"
    then have "i \<noteq> m_cursorPos l" using invalidateCursor_flag [of i l] by (auto simp: list_frame)
    moreover have "row_ok rs (i = m_cursorPos l \<and> rs_showCursor rs) st
        (m_list (invalidateCursor l) ! (m_scrollOffset (invalidateCursor l) + i)) (scr i)"
      using ok i unfolding screen_ok_def by (simp add: list_frame)
    ultimately show "row_ok (rs\<lparr>rs_showCursor := b\<rparr>) (i = m_cursorPos (invalidateCursor l) \<and> rs_showCursor (rs\<lparr>rs_showCursor := b\<rparr>)) st
        (m_list (invalidateCursor l) ! (m_scrollOffset (invalidateCursor l) + i)) (scr i)"
      using f by (simp add: list_frame)
  qed
qed

text \<open>Runs of the list, its screen and the style; a new style is followed by the flagging of all visible rows.\<close>

inductive ui_reach :: "inet \<Rightarrow> RowStyle \<Rightarrow> Screen \<Rightarrow> ConnectionList \<Rightarrow> bool" for net where
  ui_init: "ui_reach net rs scr ConnectionList_init"
| ui_list: "ui_reach net rs scr l \<Longrightarrow> shown_step net l l' \<Longrightarrow> ui_reach net rs scr l'"
| ui_draw: "ui_reach net rs scr l \<Longrightarrow> ui_reach net rs (fst (updateList rs scr l)) (snd (updateList rs scr l))"
| ui_style: "ui_reach net rs scr l \<Longrightarrow> ui_reach net rs' scr (invalidateAllVisible l)"
| ui_cursor: "ui_reach net rs scr l \<Longrightarrow> ui_reach net (rs\<lparr>rs_showCursor := b\<rparr>) scr (invalidateCursor l)"

lemma screen_ok_init: "screen_ok rs scr st ConnectionList_init" "flags_seen ConnectionList_init"
  by (simp_all add: screen_ok_def flags_seen_def getSize_eq ConnectionList_init_def updateCompareFunc_def)

lemma ui_reach_ok: "ui_reach net rs scr l \<Longrightarrow> list_inv l \<and> screen_ok rs scr (m_storage l) l \<and> flags_seen l"
proof (induction rule: ui_reach.induct)
  case (ui_list rs scr l l')
  then show ?case using screen_ok_step by blast
next
  case (ui_draw rs scr l)
  then show ?case using updateList_shows screen_shows_ok list_inv_updateList by blast
next
  case (ui_style rs scr l rs')
  then show ?case
    using invalidateAllVisible_inv screen_ok_all_flagged [OF all_flagged_invalidate] flags_seen_step [OF step_invalidate] by blast
next
  case (ui_cursor rs scr l b)
  then show ?case
    using invalidateCursor_inv screen_ok_toggle flags_seen_step [OF step_invalidate_cursor] by (simp add: storage_moves)
qed (simp add: screen_ok_init list_inv_init)

text \<open>
  C6: in every run of list operations, drawing loops and changes of the style, a drawing loop ends with a
  screen that shows the visible part of the list: row by row, the columns of the style with the texts and the
  colours that the current data of the connection at that position prescribe, highlighted exactly in the
  cursor's row and only if the cursor is shown. So every operation flags all the rows and all the columns it
  changes. An update of a connection is one that names what it has changed in its data.
\<close>

theorem updateList_shows_list:
  assumes "ui_reach net rs scr l" and "updateList rs scr l = (scr', l')"
  shows "\<forall>i < getSize l'. scr' i = Some (i = m_cursorPos l' \<and> rs_showCursor rs,
    map (\<lambda>column. (column, column_draw rs (i = m_cursorPos l' \<and> rs_showCursor rs) (m_storage l')
      (pConnection (m_list l' ! (m_scrollOffset l' + i))) (cc_type column))) (rs_columns rs))"
  using updateList_shows [of rs scr l] ui_reach_ok [OF assms(1)] assms(2) by (simp add: screen_shows_def row_picture_def)

definition sample_column :: ConnectionColumn where
  "sample_column = \<lparr>cc_type = COL_RX_SPEED, cc_width = 11, cc_hasLabel = True\<rparr>"

definition sample_columns :: RowStyle where
  "sample_columns = \<lparr>rs_columns = [sample_column], rs_columnsTotalWidth = 11, rs_showCursor = True,
     rs_showHostname = True, rs_showPortname = True\<rparr>"

theorem updateList_shows_list_witness:
  "fst (updateList sample_columns (\<lambda>_. None) sample_two) 0
    = Some (True, [(sample_column, column_draw sample_columns True (m_storage sample_two) (sample_conn 1) COL_RX_SPEED)])"
proof -
  have r: "ui_reach sample_net sample_columns scr sample_two" for scr
    unfolding sample_two_def sample_one_def sample_start_def
  proof (intro ui_list [OF _ sh_add] ui_list [OF _ sh_port] ui_list [OF _ sh_address]
      ui_list [OF _ sh_sort] ui_list [OF _ sh_resize] ui_init)
    show "refs_live (m_storage (add (sample_conn 1) (sample_speed 10) 0 (snd (getPort (Port TCP 2) True
      (snd (getPort (Port TCP 1) True (snd (getPort (Port TCP 0) True (snd (getAddress sample_net
      (AddressIP4 1) True (setSortMode RX_SPEED False (setTargetSize 1 ConnectionList_init)))))))))))) (sample_conn 2)"
      unfolding refs_live_add sample_start_def [symmetric] by (rule sample_start_refs) simp
  qed (use sample_start_refs [of 1] in \<open>simp add: sample_start_def\<close>)
  obtain scr' l' where u: "updateList sample_columns (\<lambda>_. None) sample_two = (scr', l')" by fastforce
  have fr: "ptrs l' = ptrs sample_two" "m_scrollOffset l' = m_scrollOffset sample_two" "m_cursorPos l' = m_cursorPos sample_two"
    using updateList_frame [of sample_columns "\<lambda>_. None" sample_two] u by simp_all
  have len: "length (m_list l') = 1" and p: "pConnection (m_list l' ! 0) = sample_conn 1"
    using fr sample_two_rows(1) by (auto simp: ptrs_def map_eq_Cons_conv)
  have "m_cursorPos sample_two = 0"
    using list_inv_reach [OF sample_two_reach] sample_two_rows(1)
    by (auto simp: list_inv_def getCursorMaxPos_def getSize_eq Let_def split: if_splits)
  moreover have "m_storage l' = m_storage sample_two"
    using updateList_shows [of sample_columns "\<lambda>_. None" sample_two] ui_reach_ok [OF r] u by simp
  ultimately show ?thesis
    using updateList_shows_list [OF r u] len p fr sample_two_scroll u
    by (simp add: getSize_eq sample_columns_def sample_column_def)
qed

end
