(* ===== verification/Details.thy ===== *)
theory Details
  imports ScreenModel HumanSize Compare
begin

text \<open>
  \<^verbatim>\<open>UI_Curses/Screens/DialogConnectionDetails.cpp\<close>: the dialog with the details of a
  connection keeps copies of the values it shows, compares them with the connection's when it is told
  that some may have changed, and draws those that have. The log lists the flags of the calls of
  \<open>drawUpdate\<close> and, as \<open>None\<close>, the calls of \<open>drawStatic\<close>.
\<close>

datatype EContent = CONTENT_NONE | CONTENT_NORMAL | CONTENT_REMOVED

record DialogConnectionDetails =
  dd_content :: EContent
  dd_hasPorts :: bool
  dd_typeName :: string
  dd_srcAddress :: string
  dd_dstAddress :: string
  dd_srcPort :: string
  dd_dstPort :: string
  dd_stateName :: string
  dd_srcHostname :: string
  dd_dstHostname :: string
  dd_srcService :: string
  dd_dstService :: string
  dd_srcCountry :: Country
  dd_dstCountry :: Country
  dd_srcASN :: ASN
  dd_dstASN :: ASN
  dd_traffic :: ConnectionTraffic
  dd_drawn :: "flags option list"

definition PortToString :: "PortData \<Rightarrow> string" where
  "PortToString port = portTypeName (port_type (pd_port port)) @ '' '' @ pd_numeric port"

definition dd_empty :: DialogConnectionDetails where
  "dd_empty =
     \<lparr>dd_content = CONTENT_NONE, dd_hasPorts = False, dd_typeName = [], dd_srcAddress = [], dd_dstAddress = [], dd_srcPort = [],
      dd_dstPort = [], dd_stateName = [], dd_srcHostname = [], dd_dstHostname = [], dd_srcService = [], dd_dstService = [],
      dd_srcCountry = ZZ, dd_dstCountry = ZZ, dd_srcASN = ASN_empty, dd_dstASN = ASN_empty, dd_traffic = ConnectionTraffic_zero,
      dd_drawn = []\<rparr>"

definition dd_drawStatic :: "DialogConnectionDetails \<Rightarrow> DialogConnectionDetails" where
  "dd_drawStatic dd = dd\<lparr>dd_drawn := dd_drawn dd @ [None]\<rparr>"

definition dd_drawUpdate :: "flags \<Rightarrow> DialogConnectionDetails \<Rightarrow> DialogConnectionDetails" where
  "dd_drawUpdate flags dd = dd\<lparr>dd_drawn := dd_drawn dd @ [Some flags]\<rparr>"

text \<open>The constructor.\<close>

definition DialogConnectionDetails_create :: DialogConnectionDetails where
  "DialogConnectionDetails_create = dd_drawStatic dd_empty"

text \<open>
  One value of \<open>update\<close>: where the update has the flag and the copy differs, the value is copied and
  the flag is added to those to be drawn.
\<close>

definition track ::
  "flags \<Rightarrow> flags \<Rightarrow> (DialogConnectionDetails \<Rightarrow> 'a) \<Rightarrow> ('a \<Rightarrow> DialogConnectionDetails \<Rightarrow> DialogConnectionDetails) \<Rightarrow> 'a \<Rightarrow>
     DialogConnectionDetails \<times> flags \<Rightarrow> DialogConnectionDetails \<times> flags" where
  "track updateFlags flag get set' new = (\<lambda>(dd, flags).
     if has_flag updateFlags flag \<and> get dd \<noteq> new then (set' new dd, flags OR flag) else (dd, flags))"

definition set_traffic ::
  "(('a \<Rightarrow> 'a) \<Rightarrow> ConnectionTraffic \<Rightarrow> ConnectionTraffic) \<Rightarrow> 'a \<Rightarrow> DialogConnectionDetails \<Rightarrow> DialogConnectionDetails" where
  "set_traffic upd v dd = dd\<lparr>dd_traffic := upd (\<lambda>_. v) (dd_traffic dd)\<rparr>"

definition track_source :: "flags \<Rightarrow> AddressData \<Rightarrow> DialogConnectionDetails \<times> flags \<Rightarrow> DialogConnectionDetails \<times> flags" where
  "track_source f src =
     track f F_SRC_ADDRESS dd_srcASN (\<lambda>v dd. dd\<lparr>dd_srcASN := v\<rparr>) (ad_asn src) \<circ>
     track f F_SRC_ADDRESS dd_srcCountry (\<lambda>v dd. dd\<lparr>dd_srcCountry := v\<rparr>) (ad_country src) \<circ>
     track f F_SRC_ADDRESS dd_srcHostname (\<lambda>v dd. dd\<lparr>dd_srcHostname := v\<rparr>) (ad_hostname src)"

definition track_destination :: "flags \<Rightarrow> AddressData \<Rightarrow> DialogConnectionDetails \<times> flags \<Rightarrow> DialogConnectionDetails \<times> flags" where
  "track_destination f dst =
     track f F_DST_ADDRESS dd_dstASN (\<lambda>v dd. dd\<lparr>dd_dstASN := v\<rparr>) (ad_asn dst) \<circ>
     track f F_DST_ADDRESS dd_dstCountry (\<lambda>v dd. dd\<lparr>dd_dstCountry := v\<rparr>) (ad_country dst) \<circ>
     track f F_DST_ADDRESS dd_dstHostname (\<lambda>v dd. dd\<lparr>dd_dstHostname := v\<rparr>) (ad_hostname dst)"

definition track_ports :: "flags \<Rightarrow> PortData \<Rightarrow> PortData \<Rightarrow> DialogConnectionDetails \<times> flags \<Rightarrow> DialogConnectionDetails \<times> flags" where
  "track_ports f src dst =
     track f F_DST_PORT dd_dstService (\<lambda>v dd. dd\<lparr>dd_dstService := v\<rparr>) (pd_service dst) \<circ>
     track f F_SRC_PORT dd_srcService (\<lambda>v dd. dd\<lparr>dd_srcService := v\<rparr>) (pd_service src)"

definition track_traffic :: "flags \<Rightarrow> ConnectionTraffic \<Rightarrow> DialogConnectionDetails \<times> flags \<Rightarrow> DialogConnectionDetails \<times> flags" where
  "track_traffic f t =
     track f F_TX_SPEED (txSpeed \<circ> dd_traffic) (set_traffic txSpeed_update) (txSpeed t) \<circ>
     track f F_RX_SPEED (rxSpeed \<circ> dd_traffic) (set_traffic rxSpeed_update) (rxSpeed t) \<circ>
     track f F_TX_BYTES (txBytes \<circ> dd_traffic) (set_traffic txBytes_update) (txBytes t) \<circ>
     track f F_RX_BYTES (rxBytes \<circ> dd_traffic) (set_traffic rxBytes_update) (rxBytes t) \<circ>
     track f F_TX_PACKETS (txPackets \<circ> dd_traffic) (set_traffic txPackets_update) (txPackets t) \<circ>
     track f F_RX_PACKETS (rxPackets \<circ> dd_traffic) (set_traffic rxPackets_update) (rxPackets t)"

definition dd_update :: "ConnectionStorage \<Rightarrow> Connection option \<Rightarrow> flags \<Rightarrow> DialogConnectionDetails \<Rightarrow> DialogConnectionDetails" where
  "dd_update st data f dd =
     (if dd_content dd = CONTENT_NONE then dd
      else case data of
        None \<Rightarrow> dd_drawUpdate F_PROTO_STATE (dd\<lparr>dd_content := CONTENT_REMOVED\<rparr>)
      | Some c \<Rightarrow>
          let (dd', flags) =
            (track_traffic f (cd_traffic (derefConnection st c)) \<circ>
             track_ports f (derefPort st (c_srcPort c)) (derefPort st (c_dstPort c)) \<circ>
             track_destination f (derefAddress st (c_dstAddr c)) \<circ>
             track_source f (derefAddress st (c_srcAddr c)) \<circ>
             track f F_PROTO_STATE dd_stateName (\<lambda>v dd. dd\<lparr>dd_stateName := v\<rparr>) (getStateName (derefConnection st c))) (dd, 0)
          in dd_drawUpdate flags dd')"

text \<open>\<open>open\<close> after the dialog is pushed on the parent's stack.\<close>

definition dd_open :: "ConnectionStorage \<Rightarrow> Connection option \<Rightarrow> DialogConnectionDetails \<Rightarrow> DialogConnectionDetails" where
  "dd_open st data dd =
     (let dd1 =
        (case data of
           None \<Rightarrow> dd
         | Some c \<Rightarrow>
             let d = derefConnection st c;
                 dd1 = dd\<lparr>dd_content := CONTENT_NORMAL, dd_hasPorts := cd_hasPorts d, dd_typeName := cd_typeName d,
                          dd_srcAddress := ad_numericString (derefAddress st (c_srcAddr c)),
                          dd_dstAddress := ad_numericString (derefAddress st (c_dstAddr c))\<rparr>
             in if cd_hasPorts d
                then dd1\<lparr>dd_srcPort := PortToString (derefPort st (c_srcPort c)), dd_dstPort := PortToString (derefPort st (c_dstPort c))\<rparr>
                else dd1);
          dd2 = dd_drawStatic dd1
      in if dd_content dd2 = CONTENT_NORMAL then dd_update st data (- 1) dd2 else dd2)"

text \<open>\<open>close\<close> after the dialog is removed from the stack; clearing the window draws nothing that is logged.\<close>

definition dd_close :: "DialogConnectionDetails \<Rightarrow> DialogConnectionDetails" where
  "dd_close dd = dd_empty\<lparr>dd_drawn := dd_drawn dd\<rparr>"

definition dd_handleResize :: "DialogConnectionDetails \<Rightarrow> DialogConnectionDetails" where
  "dd_handleResize dd = dd_drawUpdate (- 1) (dd_drawStatic dd)"

text \<open>Whether the key is handled, and whether the dialog closes.\<close>

definition dd_handleKey :: "key \<Rightarrow> bool \<times> bool" where
  "dd_handleKey ch =
     (if ch \<in> {KEY_UP, KEY_DOWN, KEY_LEFT, KEY_RIGHT, KEY_PPAGE, KEY_NPAGE} then (True, False)
      else if ch \<in> {KEY_ENTER, KEY_ESC} then (True, True) else (False, False))"

section \<open>The dialog shows the connection\<close>

text \<open>The values that the dialog shows under each flag.\<close>

definition shown_state :: "ConnectionStorage \<Rightarrow> Connection \<Rightarrow> string" where
  "shown_state st c = getStateName (derefConnection st c)"

definition shown_address :: "ConnectionStorage \<Rightarrow> IAddress \<Rightarrow> string \<times> Country \<times> ASN" where
  "shown_address st a = (ad_hostname (derefAddress st a), ad_country (derefAddress st a), ad_asn (derefAddress st a))"

definition shown_service :: "ConnectionStorage \<Rightarrow> Port \<Rightarrow> string" where
  "shown_service st p = pd_service (derefPort st p)"

definition dd_shows :: "ConnectionStorage \<Rightarrow> Connection \<Rightarrow> DialogConnectionDetails \<Rightarrow> bool" where
  "dd_shows st c dd \<longleftrightarrow>
     dd_stateName dd = shown_state st c \<and>
     (dd_srcHostname dd, dd_srcCountry dd, dd_srcASN dd) = shown_address st (c_srcAddr c) \<and>
     (dd_dstHostname dd, dd_dstCountry dd, dd_dstASN dd) = shown_address st (c_dstAddr c) \<and>
     dd_srcService dd = shown_service st (c_srcPort c) \<and> dd_dstService dd = shown_service st (c_dstPort c) \<and>
     dd_traffic dd = cd_traffic (derefConnection st c)"

text \<open>The flags name every value that differs between two states of the storage.\<close>

definition flags_cover :: "flags \<Rightarrow> ConnectionStorage \<Rightarrow> ConnectionStorage \<Rightarrow> Connection \<Rightarrow> bool" where
  "flags_cover f st st' c \<longleftrightarrow>
     (has_flag f F_PROTO_STATE \<or> shown_state st' c = shown_state st c) \<and>
     (has_flag f F_SRC_ADDRESS \<or> shown_address st' (c_srcAddr c) = shown_address st (c_srcAddr c)) \<and>
     (has_flag f F_DST_ADDRESS \<or> shown_address st' (c_dstAddr c) = shown_address st (c_dstAddr c)) \<and>
     (has_flag f F_SRC_PORT \<or> shown_service st' (c_srcPort c) = shown_service st (c_srcPort c)) \<and>
     (has_flag f F_DST_PORT \<or> shown_service st' (c_dstPort c) = shown_service st (c_dstPort c)) \<and>
     (let t = cd_traffic (derefConnection st c); t' = cd_traffic (derefConnection st' c)
      in (has_flag f F_RX_PACKETS \<or> rxPackets t' = rxPackets t) \<and> (has_flag f F_TX_PACKETS \<or> txPackets t' = txPackets t) \<and>
         (has_flag f F_RX_BYTES \<or> rxBytes t' = rxBytes t) \<and> (has_flag f F_TX_BYTES \<or> txBytes t' = txBytes t) \<and>
         (has_flag f F_RX_SPEED \<or> rxSpeed t' = rxSpeed t) \<and> (has_flag f F_TX_SPEED \<or> txSpeed t' = txSpeed t))"

lemma dd_shows_drawn [simp]: "dd_shows st c (dd\<lparr>dd_drawn := x\<rparr>) = dd_shows st c dd"
  by (simp add: dd_shows_def)

lemma traffic_eqI:
  "rxPackets t = rxPackets t' \<Longrightarrow> txPackets t = txPackets t' \<Longrightarrow> rxBytes t = rxBytes t' \<Longrightarrow> txBytes t = txBytes t' \<Longrightarrow>
    rxSpeed t = rxSpeed t' \<Longrightarrow> txSpeed t = txSpeed t' \<Longrightarrow> t = (t' :: ConnectionTraffic)"
  by simp

text \<open>What each group leaves in its fields; the others stay.\<close>

lemma track_eq: "track f g get set' v x =
    (if has_flag f g \<and> get (fst x) \<noteq> v then (set' v (fst x), snd x OR g) else x)"
  by (simp add: track_def case_prod_beta)

lemma track_fst:
  assumes "\<And>dd. set' (get dd) dd = dd"
  shows "fst (track f g get set' v x) = (if has_flag f g then set' v (fst x) else fst x)"
  using assms [of "fst x"] by (auto simp: track_eq)

lemma track_fsts:
  "fst (track f g dd_stateName (\<lambda>v dd. dd\<lparr>dd_stateName := v\<rparr>) s x) = (if has_flag f g then (fst x)\<lparr>dd_stateName := s\<rparr> else fst x)"
  "fst (track_source f src x) = (if has_flag f F_SRC_ADDRESS
     then (fst x)\<lparr>dd_srcHostname := ad_hostname src, dd_srcCountry := ad_country src, dd_srcASN := ad_asn src\<rparr> else fst x)"
  "fst (track_destination f dst x) = (if has_flag f F_DST_ADDRESS
     then (fst x)\<lparr>dd_dstHostname := ad_hostname dst, dd_dstCountry := ad_country dst, dd_dstASN := ad_asn dst\<rparr> else fst x)"
  "fst (track_ports f p q x) =
     (let dd1 = (if has_flag f F_SRC_PORT then (fst x)\<lparr>dd_srcService := pd_service p\<rparr> else fst x)
      in if has_flag f F_DST_PORT then dd1\<lparr>dd_dstService := pd_service q\<rparr> else dd1)"
  by (simp_all add: track_source_def track_destination_def track_ports_def track_fst)

definition merge_traffic :: "flags \<Rightarrow> ConnectionTraffic \<Rightarrow> ConnectionTraffic \<Rightarrow> ConnectionTraffic" where
  "merge_traffic f old new =
     \<lparr>rxPackets = if has_flag f F_RX_PACKETS then rxPackets new else rxPackets old,
      txPackets = if has_flag f F_TX_PACKETS then txPackets new else txPackets old,
      rxBytes = if has_flag f F_RX_BYTES then rxBytes new else rxBytes old,
      txBytes = if has_flag f F_TX_BYTES then txBytes new else txBytes old,
      rxSpeed = if has_flag f F_RX_SPEED then rxSpeed new else rxSpeed old,
      txSpeed = if has_flag f F_TX_SPEED then txSpeed new else txSpeed old\<rparr>"

lemma track_traffic_fst: "fst (track_traffic f t x) = (fst x)\<lparr>dd_traffic := merge_traffic f (dd_traffic (fst x)) t\<rparr>"
  by (cases "fst x"; cases "dd_traffic (fst x)") (simp add: track_traffic_def track_fst set_traffic_def merge_traffic_def)

lemma dd_update_shows:
  assumes "dd_shows st c dd" and "flags_cover f st st' c" and "dd_content dd \<noteq> CONTENT_NONE"
  shows "dd_shows st' c (dd_update st' (Some c) f dd)" and "dd_content (dd_update st' (Some c) f dd) = dd_content dd"
proof -
  let ?t' = "cd_traffic (derefConnection st' c)"
  show "dd_content (dd_update st' (Some c) f dd) = dd_content dd"
    using assms(3) by (simp add: dd_update_def dd_drawUpdate_def case_prod_beta track_fsts track_traffic_fst Let_def)
  have old: "dd_traffic dd = cd_traffic (derefConnection st c)" using assms(1) by (simp add: dd_shows_def)
  have cover: "has_flag f F_RX_PACKETS \<or> rxPackets ?t' = rxPackets (dd_traffic dd)" "has_flag f F_TX_PACKETS \<or> txPackets ?t' = txPackets (dd_traffic dd)"
    "has_flag f F_RX_BYTES \<or> rxBytes ?t' = rxBytes (dd_traffic dd)" "has_flag f F_TX_BYTES \<or> txBytes ?t' = txBytes (dd_traffic dd)"
    "has_flag f F_RX_SPEED \<or> rxSpeed ?t' = rxSpeed (dd_traffic dd)" "has_flag f F_TX_SPEED \<or> txSpeed ?t' = txSpeed (dd_traffic dd)"
    using assms(2) unfolding old flags_cover_def Let_def by blast+
  have t: "merge_traffic f (dd_traffic dd) ?t' = ?t'"
    by (rule traffic_eqI; simp add: merge_traffic_def; use cover in metis)
  note fields = dd_update_def dd_drawUpdate_def case_prod_beta track_fsts track_traffic_fst Let_def assms(3)
  let ?r = "dd_update st' (Some c) f dd"
  have "dd_stateName ?r = (if has_flag f F_PROTO_STATE then shown_state st' c else dd_stateName dd)"
    by (simp add: fields shown_state_def)
  moreover have "(dd_srcHostname ?r, dd_srcCountry ?r, dd_srcASN ?r) =
      (if has_flag f F_SRC_ADDRESS then shown_address st' (c_srcAddr c) else (dd_srcHostname dd, dd_srcCountry dd, dd_srcASN dd))"
    by (simp add: fields shown_address_def)
  moreover have "(dd_dstHostname ?r, dd_dstCountry ?r, dd_dstASN ?r) =
      (if has_flag f F_DST_ADDRESS then shown_address st' (c_dstAddr c) else (dd_dstHostname dd, dd_dstCountry dd, dd_dstASN dd))"
    by (simp add: fields shown_address_def)
  moreover have "dd_srcService ?r = (if has_flag f F_SRC_PORT then shown_service st' (c_srcPort c) else dd_srcService dd)"
    by (simp add: fields shown_service_def)
  moreover have "dd_dstService ?r = (if has_flag f F_DST_PORT then shown_service st' (c_dstPort c) else dd_dstService dd)"
    by (simp add: fields shown_service_def)
  moreover have "dd_traffic ?r = ?t'" using t by (simp add: fields)
  ultimately show "dd_shows st' c ?r" using assms(1,2) unfolding dd_shows_def flags_cover_def by metis
qed

lemma dd_open_shows:
  "dd_shows st c (dd_open st (Some c) dd) \<and> dd_content (dd_open st (Some c) dd) = CONTENT_NORMAL"
  by (simp add: dd_open_def Let_def dd_update_def dd_drawUpdate_def dd_drawStatic_def case_prod_beta track_fsts track_traffic_fst
      dd_shows_def shown_state_def shown_address_def shown_service_def merge_traffic_def has_flag_def flag_defs)

end
