(* ===== verification/DetailsProps.thy ===== *)
theory DetailsProps
  imports Details ConnListProps
begin

text \<open>
  The dialog with the details of a connection beside the list it belongs to: between two drawings the
  list collects in \<open>m_connectionDetailUpdateFlags\<close> which values of the connection may have changed, and
  \<^verbatim>\<open>ScreenConnectionList::updateList\<close> hands them to the dialog.
\<close>

section \<open>Drawing\<close>

text \<open>The last part of \<open>updateList\<close>, while the dialog is open.\<close>

definition updateDetail :: "ConnectionList \<times> DialogConnectionDetails \<Rightarrow> ConnectionList \<times> DialogConnectionDetails" where
  "updateDetail = (\<lambda>(l, dd).
     if m_connectionDetailUpdateFlags l \<noteq> 0
     then (resetConnectionDetailRefresh l, dd_update (m_storage l) (m_connectionDetail l) (m_connectionDetailUpdateFlags l) dd)
     else (l, dd))"

section \<open>What an operation reports\<close>

text \<open>The values of the connection that differ are flagged, and what was flagged stays flagged.\<close>

definition reports :: "Connection \<Rightarrow> ConnectionList \<Rightarrow> ConnectionList \<Rightarrow> bool" where
  "reports c l l' \<longleftrightarrow>
     m_connectionDetail l' = m_connectionDetail l \<and>
     m_connectionDetailUpdateFlags l AND m_connectionDetailUpdateFlags l' = m_connectionDetailUpdateFlags l \<and>
     flags_cover (m_connectionDetailUpdateFlags l') (m_storage l) (m_storage l') c"

text \<open>The connection is gone, and the dialog will be told.\<close>

definition gone :: "ConnectionList \<Rightarrow> bool" where
  "gone l \<longleftrightarrow> m_connectionDetail l = None \<and> m_connectionDetailUpdateFlags l = - 1"

lemma has_flag_mono:
  assumes "f AND g = f" and "has_flag f x"
  shows "has_flag g x"
proof (rule ccontr)
  assume "\<not> has_flag g x"
  then have "g AND x = 0" by (simp add: has_flag_def)
  have "f AND x = (f AND g) AND x" using assms(1) by simp
  also have "\<dots> = f AND (g AND x)" by (rule and.assoc)
  finally show False using \<open>g AND x = 0\<close> assms(2) by (simp add: has_flag_def)
qed

lemma flags_cover_trans:
  assumes "flags_cover f st st' c" and "flags_cover g st' st'' c" and "f AND g = f"
  shows "flags_cover g st st'' c"
  using assms has_flag_mono [OF assms(3)] unfolding flags_cover_def Let_def by metis

lemma flags_cover_view: "same_view st st' c \<Longrightarrow> flags_cover f st st' c"
  by (simp add: flags_cover_def same_view_def shown_state_def shown_address_def shown_service_def Let_def)

lemma reports_view:
  "m_connectionDetail l' = m_connectionDetail l \<Longrightarrow> m_connectionDetailUpdateFlags l' = m_connectionDetailUpdateFlags l \<Longrightarrow>
    same_view (m_storage l) (m_storage l') c \<Longrightarrow> reports c l l'"
  by (simp add: reports_def flags_cover_view)


section \<open>The operations of the list\<close>

text \<open>The part of the list the dialog depends on.\<close>

definition dpart :: "ConnectionList \<Rightarrow> Connection option \<times> flags \<times> ConnectionStorage" where
  "dpart l = (m_connectionDetail l, m_connectionDetailUpdateFlags l, m_storage l)"

lemma dpart_frame [simp]:
  "dpart (l\<lparr>m_list := xs\<rparr>) = dpart l"
  "dpart (l\<lparr>m_isRefreshRequired := b\<rparr>) = dpart l"
  "dpart (l\<lparr>m_cursorPos := n\<rparr>) = dpart l"
  "dpart (l\<lparr>m_scrollOffset := n\<rparr>) = dpart l"
  "dpart (l\<lparr>m_targetSize := n\<rparr>) = dpart l"
  "dpart (l\<lparr>m_sortMode := m\<rparr>) = dpart l"
  "dpart (l\<lparr>m_isSortAscending := b\<rparr>) = dpart l"
  "dpart (l\<lparr>m_compareFunc := cf\<rparr>) = dpart l"
  "dpart (l\<lparr>m_effects := es\<rparr>) = dpart l"
  "dpart (l\<lparr>m_dataTotalCount := n\<rparr>) = dpart l"
  "dpart (l\<lparr>m_dataResolvedCount := n\<rparr>) = dpart l"
  by (simp_all add: dpart_def)

lemma dpart_rows_only: "rows_only l l' \<Longrightarrow> dpart l' = dpart l"
proof -
  assume "rows_only l l'"
  then have "l' = l\<lparr>m_list := m_list l', m_isRefreshRequired := m_isRefreshRequired l'\<rparr>" by (simp only: rows_only_def)
  then have "dpart l' = dpart (l\<lparr>m_list := m_list l', m_isRefreshRequired := m_isRefreshRequired l'\<rparr>)" by (rule arg_cong)
  then show ?thesis by simp
qed

lemmas dpart_rows [simp] = rows_only_insertItem [THEN dpart_rows_only] rows_only_fill [THEN dpart_rows_only]
  rows_only_invalidateAllVisible [THEN dpart_rows_only] rows_only_invalidateCursor [THEN dpart_rows_only]
  rows_only_sort [THEN dpart_rows_only] rows_only_rescan_step [THEN dpart_rows_only]

lemma dpart_foldl: "(\<And>l p. dpart (f l p) = dpart l) \<Longrightarrow> dpart (foldl f l ps) = dpart l"
  by (induction ps arbitrary: l) simp_all

lemma dpart_cursor [simp]: "dpart (clampCursor l) = dpart l"
  by (simp add: clampCursor_def Let_def)

lemma dpart_moves:
  "dpart (doScroll n l) = dpart l" "dpart (moveCursor n l) = dpart l" "dpart (setTargetSize k l) = dpart l"
  "dpart (setSortMode m b l) = dpart l" "dpart (handleNewConnection p l) = dpart l"
proof -
  show s: "dpart (doScroll n l) = dpart l" for n l by (simp add: doScroll_def Let_def)
  show "dpart (moveCursor n l) = dpart l" by (simp add: moveCursor_def Let_def s)
  show "dpart (setTargetSize k l) = dpart l" by (simp add: setTargetSize_def Let_def)
  show "dpart (setSortMode m b l) = dpart l" by (simp add: setSortMode_def updateCompareFunc_def Let_def)
  show "dpart (handleNewConnection p l) = dpart l" by (simp add: handleNewConnection_def Let_def)
qed

lemma dpart_update_rows [simp]: "dpart (update_rows p f l) = dpart l"
  by (simp add: update_rows_def Let_def update_mark_def dpart_rows_only [OF rows_only_update_order])

lemma dpart_dataUpdated [simp]: "dpart (dataUpdated_rows m uses mark l) = dpart l"
  by (simp add: dataUpdated_rows_def Let_def dpart_foldl)


lemma dpart_reports: "dpart l' = dpart l \<Longrightarrow> reports c l l'"
  by (rule reports_view) (simp_all add: dpart_def same_view_def)

lemma reports_add:
  assumes "c \<in> stored l"
  shows "reports c l (add c0 t s l)"
proof -
  have "dpart (add c0 t s l) = (m_connectionDetail l, m_connectionDetailUpdateFlags l, snd (addConnection c0 t s (m_storage l)))"
    by (simp add: add_def case_prod_beta Let_def dpart_moves) (simp add: dpart_def)
  then show ?thesis
    using assms view_addConnection by (intro reports_view) (auto simp: dpart_def stored_def)
qed

lemma dpart_removed:
  "dpart (handleRemovedConnection p l) = (if m_connectionDetail l = Some p then (None, - 1, m_storage l) else dpart l)"
  by (auto simp: handleRemovedConnection_def Let_def) (auto simp: dpart_def)

lemma dpart_remove: "dpart (remove c0 l) =
    (let st = snd (removeConnection c0 (m_storage l))
     in if c0 \<in> stored l \<and> m_connectionDetail l = Some c0 then (None, - 1, st)
        else (m_connectionDetail l, m_connectionDetailUpdateFlags l, st))"
  by (auto simp: remove_def case_prod_beta Let_def removeConnection_fst stored_def dpart_removed) (auto simp: dpart_def)

lemma reports_remove:
  assumes "c \<in> stored l" and "m_connectionDetail l = Some c"
  shows "gone (remove c0 l) \<or> reports c l (remove c0 l)"
proof (cases "c0 = c")
  case True
  with assms dpart_remove [of c0 l] show ?thesis by (simp add: gone_def dpart_def)
next
  case False
  with assms dpart_remove [of c0 l] view_removeConnection [of c c0] show ?thesis
    by (intro disjI2 reports_view) (auto simp: dpart_def Let_def)
qed

lemma dpart_write: "dpart (writeAndUpdate c0 g f l) =
    (m_connectionDetail l, if m_connectionDetail l = Some c0 then f else m_connectionDetailUpdateFlags l,
     writeConnection c0 g (m_storage l))"
  by (simp add: writeAndUpdate_def update_def) (simp add: dpart_def)

text \<open>
  An update reports what it has changed if its flags name the values that are different, and, where it
  concerns the connection of the dialog, also what was flagged before.
\<close>

lemma reports_update:
  assumes "m_connectionDetail l = Some c" and "c0 = c \<Longrightarrow> flags_cover f (m_storage l) (writeConnection c g (m_storage l)) c"
    and "c0 = c \<Longrightarrow> m_connectionDetailUpdateFlags l AND f = m_connectionDetailUpdateFlags l"
  shows "reports c l (writeAndUpdate c0 g f l)"
proof (cases "c0 = c")
  case True
  with assms dpart_write [of c0 g f l] show ?thesis by (simp add: reports_def dpart_def)
next
  case False
  with assms(1) dpart_write [of c0 g f l] view_writeConnection [of c c0] show ?thesis
    by (intro reports_view) (auto simp: dpart_def)
qed

lemma reports_getAddress:
  assumes "refs_live (m_storage l) c"
  shows "reports c l (snd (getAddress net a b l))"
  using assms view_addAddress by (intro reports_view; cases a) (auto simp: getAddress_def case_prod_beta Let_def same_view_def)

lemma reports_getPort:
  assumes "refs_live (m_storage l) c"
  shows "reports c l (snd (getPort p b l))"
  using assms view_addAddress by (intro reports_view) (auto simp: getPort_def case_prod_beta Let_def same_view_def)

lemma flags_self:
  "has_flag F_SRC_ADDRESS F_SRC_ADDRESS" "has_flag F_DST_ADDRESS F_DST_ADDRESS" "has_flag F_SRC_PORT F_SRC_PORT" "has_flag F_DST_PORT F_DST_PORT"
  "has_flag F_PROTO_STATE F_PROTO_STATE" "has_flag F_RX_PACKETS F_RX_PACKETS" "has_flag F_TX_PACKETS F_TX_PACKETS"
  "has_flag F_RX_BYTES F_RX_BYTES" "has_flag F_TX_BYTES F_TX_BYTES" "has_flag F_RX_SPEED F_RX_SPEED" "has_flag F_TX_SPEED F_TX_SPEED"
  by (simp_all add: has_flag_def flag_defs)

lemma and_or_absorb: "(f :: flags) AND (f OR g) = f"
  by (rule bit_word_eqI) (auto simp: bit_simps)

lemma reports_resolvedAddress:
  assumes "m_connectionDetail l = Some c"
  shows "reports c l (ResolverCallbackAddress a h co asn l)"
proof -
  let ?st = "writeAddress a (\<lambda>d. setResolvedASN asn (setResolvedCountry co (setResolvedHostname h d))) (m_storage l)"
  let ?f = "m_connectionDetailUpdateFlags l OR (if c_srcAddr c = a then F_SRC_ADDRESS else 0) OR (if c_dstAddr c = a then F_DST_ADDRESS else 0)"
  have "dpart (ResolverCallbackAddress a h co asn l) = (Some c, ?f, ?st)"
    using assms by (simp add: ResolverCallbackAddress_def addressDataUpdated_def Let_def) (simp add: dpart_def or.assoc)
  moreover have "flags_cover ?f (m_storage l) ?st c"
    by (auto simp: flags_cover_def shown_state_def shown_address_def shown_service_def Let_def derefConnection_def derefAddress_def
        derefPort_def storage_frame findAddress_writeAddress has_flag_or flags_self)
  ultimately show ?thesis using assms by (simp add: reports_def dpart_def or.assoc and_or_absorb)
qed

lemma reports_resolvedPort:
  assumes "m_connectionDetail l = Some c"
  shows "reports c l (ResolverCallbackPort p s l)"
proof -
  let ?st = "writePort p (setResolvedService s) (m_storage l)"
  let ?f = "m_connectionDetailUpdateFlags l OR (if c_srcPort c = p then F_SRC_PORT else 0) OR (if c_dstPort c = p then F_DST_PORT else 0)"
  have "dpart (ResolverCallbackPort p s l) = (Some c, ?f, ?st)"
    using assms by (simp add: ResolverCallbackPort_def portDataUpdated_def Let_def) (simp add: dpart_def or.assoc)
  moreover have "um_find x (m_portMap ?st) = um_find x (m_portMap (m_storage l))" if "x \<noteq> p" for x
    using that by (simp add: writePort_def um.find_write)
  then have "flags_cover ?f (m_storage l) ?st c"
    by (auto simp: flags_cover_def shown_state_def shown_address_def shown_service_def Let_def derefConnection_def derefAddress_def
        derefPort_def storage_frame has_flag_or flags_self)
  ultimately show ?thesis using assms by (simp add: reports_def dpart_def or.assoc and_or_absorb)
qed


section \<open>An open dialog\<close>

text \<open>
  The operations of the list while the dialog is open, in which every update of a connection names the
  values it has changed and, if it concerns the connection of the dialog, also those that were flagged
  before. Opening the details of another connection is not possible then: the dialog handles the key.
\<close>

inductive detail_step :: "inet \<Rightarrow> ConnectionList \<Rightarrow> ConnectionList \<Rightarrow> bool" for net where
  ds_add: "refs_live (m_storage l) c \<Longrightarrow> detail_step net l (add c t s l)"
| ds_remove: "detail_step net l (remove c l)"
| ds_clear: "detail_step net l (clear l)"
| ds_update: "c \<in> stored l \<Longrightarrow> keeps_identity g \<Longrightarrow> flags_cover f (m_storage l) (writeConnection c g (m_storage l)) c \<Longrightarrow>
    m_connectionDetail l \<noteq> Some c \<or> m_connectionDetailUpdateFlags l AND f = m_connectionDetailUpdateFlags l \<Longrightarrow>
    detail_step net l (writeAndUpdate c g f l)"
| ds_address: "detail_step net l (snd (getAddress net a b l))"
| ds_port: "detail_step net l (snd (getPort p b l))"
| ds_resolved_address: "detail_step net l (ResolverCallbackAddress a h co asn l)"
| ds_resolved_port: "detail_step net l (ResolverCallbackPort p s l)"
| ds_cursor: "detail_step net l (moveCursor n l)"
| ds_scroll: "detail_step net l (doScroll n l)"
| ds_resize: "detail_step net l (setTargetSize n l)"
| ds_sort: "detail_step net l (setSortMode m b l)"
| ds_invalidate: "detail_step net l (invalidateAllVisible l)"
| ds_invalidate_cursor: "detail_step net l (invalidateCursor l)"

lemma detail_step_list: "detail_step net l l' \<Longrightarrow> list_step net l l'"
  by (induction rule: detail_step.induct) (auto intro: list_step.intros)

lemma detail_step_reports:
  assumes "detail_step net l l'" and "list_inv l" and "m_connectionDetail l = Some c"
  shows "gone l' \<or> reports c l l'"
proof -
  have st: "c \<in> stored l" "storage_wf (m_storage l)" using assms(2,3) by (simp_all add: list_inv_iff list_rows_def list_base_def)
  then have live: "refs_live (m_storage l) c" using stored_live by (simp add: stored_def)
  from assms(1) st(1) live assms(3) show ?thesis
    by (induction rule: detail_step.induct)
      (auto intro: reports_add reports_remove [THEN disjE] reports_getAddress reports_getPort reports_resolvedAddress
        reports_resolvedPort dpart_reports reports_update simp: dpart_moves, auto simp: clear_def gone_def)
qed

lemma detail_step_none:
  assumes "detail_step net l l'" and "m_connectionDetail l = None"
  shows "m_connectionDetail l' = None"
proof -
  have d: "m_connectionDetail l = fst (dpart l)" for l by (simp add: dpart_def)
  show ?thesis
    using assms
  proof (induction rule: detail_step.induct)
    case (ds_add l c t s)
    then show ?case by (simp add: add_def case_prod_beta Let_def d dpart_moves) (simp add: dpart_def)
  next
    case (ds_remove l c)
    then show ?case by (simp add: d dpart_remove Let_def)
  qed (simp_all add: d dpart_moves dpart_write clear_def getAddress_def getPort_def case_prod_beta Let_def ResolverCallbackAddress_def
      ResolverCallbackPort_def addressDataUpdated_def portDataUpdated_def split: IAddress.split, simp_all add: dpart_def)
qed


lemma detail_step_gone:
  assumes "detail_step net l l'" and "gone l"
  shows "gone l'"
proof -
  have d: "gone l \<longleftrightarrow> fst (dpart l) = None \<and> fst (snd (dpart l)) = - 1" for l by (simp add: gone_def dpart_def)
  show ?thesis
    using assms
  proof (induction rule: detail_step.induct)
    case (ds_add l c t s)
    then show ?case by (simp add: add_def case_prod_beta Let_def d dpart_moves) (simp add: dpart_def)
  next
    case (ds_remove l c)
    then show ?case by (simp add: d dpart_remove Let_def) (simp add: dpart_def)
  qed (simp_all add: d dpart_moves dpart_write clear_def getAddress_def getPort_def case_prod_beta Let_def ResolverCallbackAddress_def
      ResolverCallbackPort_def addressDataUpdated_def portDataUpdated_def split: IAddress.split, simp_all add: dpart_def)
qed

text \<open>Runs of the list and the dialog: opening, operations, drawing rows, drawing the details, resizing.\<close>

inductive detail_run :: "inet \<Rightarrow> Connection \<Rightarrow> ConnectionList \<times> DialogConnectionDetails \<Rightarrow> bool" for net c where
  dr_open: "list_reach net l \<Longrightarrow> m_connectionDetail (initConnectionDetail l) = Some c \<Longrightarrow>
    detail_run net c (initConnectionDetail l, dd_open (m_storage l) (Some c) dd)"
| dr_step: "detail_run net c (l, dd) \<Longrightarrow> detail_step net l l' \<Longrightarrow> detail_run net c (l', dd)"
| dr_rows: "detail_run net c (l, dd) \<Longrightarrow> detail_run net c (snd (getNextUpdate l), dd)"
| dr_draw: "detail_run net c x \<Longrightarrow> detail_run net c (updateDetail x)"
| dr_resize: "detail_run net c (l, dd) \<Longrightarrow> detail_run net c (l, dd_handleResize dd)"

text \<open>The dialog shows the connection but for what is flagged, or is to be told that it is gone, or shows that it is.\<close>

definition detail_inv :: "Connection \<Rightarrow> ConnectionList \<Rightarrow> DialogConnectionDetails \<Rightarrow> bool" where
  "detail_inv c l dd \<longleftrightarrow>
     (m_connectionDetail l = Some c \<and> dd_content dd = CONTENT_NORMAL \<and>
        (\<exists>st. dd_shows st c dd \<and> flags_cover (m_connectionDetailUpdateFlags l) st (m_storage l) c)) \<or>
     (gone l \<and> dd_content dd \<noteq> CONTENT_NONE) \<or>
     (m_connectionDetail l = None \<and> dd_content dd = CONTENT_REMOVED)"

lemma detail_inv_step:
  assumes "detail_inv c l dd" and "detail_step net l l'" and "list_inv l"
  shows "detail_inv c l' dd"
proof -
  consider (shown) st where "m_connectionDetail l = Some c" "dd_content dd = CONTENT_NORMAL" "dd_shows st c dd"
      "flags_cover (m_connectionDetailUpdateFlags l) st (m_storage l) c"
    | (gone) "gone l" "dd_content dd \<noteq> CONTENT_NONE" | (removed) "m_connectionDetail l = None" "dd_content dd = CONTENT_REMOVED"
    using assms(1) unfolding detail_inv_def by auto
  then show ?thesis
  proof cases
    case shown
    then consider "gone l'" | "reports c l l'" using detail_step_reports [OF assms(2,3)] by auto
    then show ?thesis
    proof cases
      case 2
      with flags_cover_trans [OF shown(4)] have "flags_cover (m_connectionDetailUpdateFlags l') st (m_storage l') c"
        by (simp add: reports_def)
      with 2 shown show ?thesis by (auto simp: detail_inv_def reports_def)
    qed (simp add: detail_inv_def shown)
  next
    case gone
    with detail_step_gone [OF assms(2)] show ?thesis by (simp add: detail_inv_def)
  next
    case removed
    with detail_step_none [OF assms(2)] show ?thesis by (simp add: detail_inv_def)
  qed
qed

text \<open>Drawing an open dialog.\<close>

lemma updateDetail_shows:
  assumes "detail_inv c l dd" and "updateDetail (l, dd) = (l', dd')"
  shows "m_storage l' = m_storage l" and "m_connectionDetail l' = m_connectionDetail l"
    and "m_connectionDetail l = Some c \<and> dd_content dd' = CONTENT_NORMAL \<and> dd_shows (m_storage l) c dd' \<or>
      m_connectionDetail l = None \<and> dd_content dd' = CONTENT_REMOVED"
proof -
  show "m_storage l' = m_storage l" "m_connectionDetail l' = m_connectionDetail l"
    using assms(2) by (auto simp: updateDetail_def resetConnectionDetailRefresh_def split: if_splits)
  consider (shown) st where "m_connectionDetail l = Some c" "dd_content dd = CONTENT_NORMAL" "dd_shows st c dd"
      "flags_cover (m_connectionDetailUpdateFlags l) st (m_storage l) c"
    | (none) "m_connectionDetail l = None" "m_connectionDetailUpdateFlags l = - 1 \<or> dd_content dd = CONTENT_REMOVED" "dd_content dd \<noteq> CONTENT_NONE"
    using assms(1) unfolding detail_inv_def gone_def by auto
  then show "m_connectionDetail l = Some c \<and> dd_content dd' = CONTENT_NORMAL \<and> dd_shows (m_storage l) c dd' \<or>
      m_connectionDetail l = None \<and> dd_content dd' = CONTENT_REMOVED"
  proof cases
    case shown
    show ?thesis
    proof (cases "m_connectionDetailUpdateFlags l = 0")
      case True
      have "dd_shows (m_storage l) c dd"
        using dd_update_shows(1) [OF shown(3,4)] shown(2)
        by (simp add: True dd_update_def track_source_def track_destination_def track_ports_def track_traffic_def track_def
            has_flag_def dd_drawUpdate_def)
      with True assms(2) shown show ?thesis by (simp add: updateDetail_def)
    next
      case False
      with assms(2) shown dd_update_shows [OF shown(3,4)] show ?thesis by (auto simp: updateDetail_def)
    qed
  next
    case none
    with assms(2) show ?thesis by (auto simp: updateDetail_def dd_update_def dd_drawUpdate_def split: if_splits)
  qed
qed

lemma dd_shows_resize [simp]:
  "dd_shows st c (dd_handleResize dd) = dd_shows st c dd" "dd_content (dd_handleResize dd) = dd_content dd"
  by (simp_all add: dd_handleResize_def dd_drawStatic_def dd_drawUpdate_def)

lemma flags_cover_refl: "flags_cover f st st c"
  by (rule flags_cover_view) (simp add: same_view_def)

lemma detail_run_inv: "detail_run net c x \<Longrightarrow> list_inv (fst x) \<and> detail_inv c (fst x) (snd x)"
proof (induction rule: detail_run.induct)
  case (dr_open l dd)
  have "m_storage (initConnectionDetail l) = m_storage l" by (simp add: initConnectionDetail_def Let_def)
  with dr_open dd_open_shows [of "m_storage l" c dd] flags_cover_refl list_inv_step [OF step_detail list_inv_reach [OF dr_open(1)]]
  show ?case unfolding detail_inv_def by auto
next
  case (dr_step l dd l')
  then show ?case using detail_inv_step list_inv_step [OF detail_step_list] by auto
next
  case (dr_rows l dd)
  have "dpart (snd (getNextUpdate l)) = dpart l" by (simp add: getNextUpdate_def Let_def split: option.split prod.split)
  with dr_rows show ?case by (simp add: list_inv_getNextUpdate detail_inv_def gone_def dpart_def)
next
  case (dr_draw x)
  obtain l dd l' dd' where x: "x = (l, dd)" "updateDetail (l, dd) = (l', dd')" by (metis prod.exhaust)
  have "list_inv l'" using dr_draw x list_inv_step [OF step_detail_reset] by (auto simp: updateDetail_def split: if_splits)
  with updateDetail_shows [OF _ x(2), of c] dr_draw x flags_cover_refl show ?case unfolding detail_inv_def by (auto 4 3)
next
  case (dr_resize l dd)
  then show ?case by (simp add: detail_inv_def)
qed

text \<open>Every value that has changed is drawn: the call of \<open>drawUpdate\<close> has its flag.\<close>

definition drawn_changes :: "flags \<Rightarrow> DialogConnectionDetails \<Rightarrow> DialogConnectionDetails \<Rightarrow> bool" where
  "drawn_changes f dd dd' \<longleftrightarrow>
     (dd_stateName dd' \<noteq> dd_stateName dd \<longrightarrow> has_flag f F_PROTO_STATE) \<and>
     ((dd_srcHostname dd', dd_srcCountry dd', dd_srcASN dd') \<noteq> (dd_srcHostname dd, dd_srcCountry dd, dd_srcASN dd) \<longrightarrow> has_flag f F_SRC_ADDRESS) \<and>
     ((dd_dstHostname dd', dd_dstCountry dd', dd_dstASN dd') \<noteq> (dd_dstHostname dd, dd_dstCountry dd, dd_dstASN dd) \<longrightarrow> has_flag f F_DST_ADDRESS) \<and>
     (dd_srcService dd' \<noteq> dd_srcService dd \<longrightarrow> has_flag f F_SRC_PORT) \<and>
     (dd_dstService dd' \<noteq> dd_dstService dd \<longrightarrow> has_flag f F_DST_PORT) \<and>
     (let t = dd_traffic dd; t' = dd_traffic dd'
      in (rxPackets t' \<noteq> rxPackets t \<longrightarrow> has_flag f F_RX_PACKETS) \<and> (txPackets t' \<noteq> txPackets t \<longrightarrow> has_flag f F_TX_PACKETS) \<and>
         (rxBytes t' \<noteq> rxBytes t \<longrightarrow> has_flag f F_RX_BYTES) \<and> (txBytes t' \<noteq> txBytes t \<longrightarrow> has_flag f F_TX_BYTES) \<and>
         (rxSpeed t' \<noteq> rxSpeed t \<longrightarrow> has_flag f F_RX_SPEED) \<and> (txSpeed t' \<noteq> txSpeed t \<longrightarrow> has_flag f F_TX_SPEED))"

definition tracked :: "DialogConnectionDetails \<Rightarrow> DialogConnectionDetails \<times> flags \<Rightarrow> bool" where
  "tracked dd x \<longleftrightarrow> drawn_changes (snd x) dd (fst x) \<and> dd_drawn (fst x) = dd_drawn dd"

lemma tracked_track:
  assumes "tracked dd x" and "\<And>y. tracked dd (y, snd x) \<Longrightarrow> tracked dd (set' v y, snd x OR g)"
  shows "tracked dd (track f g get set' v x)"
  using assms(1) assms(2) [of "fst x"] by (auto simp: track_eq)

lemma tracked_all:
  "tracked dd x \<Longrightarrow> tracked dd (track f F_PROTO_STATE dd_stateName (\<lambda>v dd. dd\<lparr>dd_stateName := v\<rparr>) s x)"
  "tracked dd x \<Longrightarrow> tracked dd (track_source f src x)"
  "tracked dd x \<Longrightarrow> tracked dd (track_destination f dst x)"
  "tracked dd x \<Longrightarrow> tracked dd (track_ports f p q x)"
  "tracked dd x \<Longrightarrow> tracked dd (track_traffic f t x)"
  by (simp_all add: track_source_def track_destination_def track_ports_def track_traffic_def)
    (intro tracked_track; simp add: tracked_def drawn_changes_def has_flag_or flags_self set_traffic_def Let_def; blast)+

lemma updateDetail_draws:
  assumes "updateDetail (l, dd) = (l', dd')"
  shows "dd' = dd \<or> (\<exists>f. dd_drawn dd' = dd_drawn dd @ [Some f] \<and> drawn_changes f dd dd' \<and>
    (dd_content dd' \<noteq> dd_content dd \<longrightarrow> has_flag f F_PROTO_STATE))"
proof -
  have start: "tracked dd (dd, 0)" by (simp add: tracked_def drawn_changes_def Let_def)
  have "dd_update st d f dd = dd \<or> (\<exists>g. dd_drawn (dd_update st d f dd) = dd_drawn dd @ [Some g] \<and> drawn_changes g dd (dd_update st d f dd)
      \<and> (dd_content (dd_update st d f dd) \<noteq> dd_content dd \<longrightarrow> has_flag g F_PROTO_STATE))" for st d f
  proof (cases "dd_content dd = CONTENT_NONE \<or> d = None")
    case True
    then show ?thesis
      by (auto simp: dd_update_def dd_drawUpdate_def drawn_changes_def has_flag_def flag_defs Let_def)
  next
    case False
    then obtain c where c: "d = Some c" by blast
    let ?x = "(track_traffic f (cd_traffic (derefConnection st c)) \<circ>
             track_ports f (derefPort st (c_srcPort c)) (derefPort st (c_dstPort c)) \<circ>
             track_destination f (derefAddress st (c_dstAddr c)) \<circ>
             track_source f (derefAddress st (c_srcAddr c)) \<circ>
             track f F_PROTO_STATE dd_stateName (\<lambda>v dd. dd\<lparr>dd_stateName := v\<rparr>) (getStateName (derefConnection st c))) (dd, 0)"
    have "tracked dd ?x" unfolding comp_def by (intro tracked_all start)
    moreover have "dd_update st d f dd = dd_drawUpdate (snd ?x) (fst ?x)"
      using False c by (simp add: dd_update_def case_prod_beta)
    moreover have "dd_content (fst ?x) = dd_content dd" by (simp add: track_fsts track_traffic_fst Let_def)
    ultimately show ?thesis by (auto simp: tracked_def dd_drawUpdate_def drawn_changes_def)
  qed
  with assms show ?thesis by (auto simp: updateDetail_def split: if_splits)
qed

text \<open>
  C8: the dialog with the details of a connection follows the connection. From opening the dialog on,
  whatever operations of the list and drawings follow, as long as updates of the connection name what
  they have changed and what was flagged before: when the screen has been drawn, the dialog shows the
  current state, names, countries, organisations, services and traffic of the connection, or, once the
  connection has been removed, that it has been removed; and every value that is different from before
  has been drawn.
\<close>

theorem details_dialog_follows:
  assumes "detail_run net c (l, dd)" and "updateDetail (l, dd) = (l', dd')"
  shows "(m_connectionDetail l' = Some c \<and> dd_content dd' = CONTENT_NORMAL \<and> dd_shows (m_storage l') c dd' \<or>
      m_connectionDetail l' = None \<and> dd_content dd' = CONTENT_REMOVED)
    \<and> (dd' = dd \<or> (\<exists>f. dd_drawn dd' = dd_drawn dd @ [Some f] \<and> drawn_changes f dd dd' \<and>
        (dd_content dd' \<noteq> dd_content dd \<longrightarrow> has_flag f F_PROTO_STATE)))"
  using detail_run_inv [OF assms(1)] updateDetail_shows [OF _ assms(2), of c] updateDetail_draws [OF assms(2)] by simp


definition sample_opened :: ConnectionList where
  "sample_opened = initConnectionDetail sample_one"

lemma sample_opened_detail: "m_connectionDetail sample_opened = Some (sample_conn 1)" "m_storage sample_opened = m_storage sample_one"
    "m_connectionDetailUpdateFlags sample_opened = - 1"
  by (simp_all add: sample_opened_def initConnectionDetail_def sample_one_def sample_start_def list_eval Item_create_def Let_def
      getListBeginIt_def)

lemma sample_opened_run:
  "detail_run sample_net (sample_conn 1) (sample_opened, dd_open (m_storage sample_one) (Some (sample_conn 1)) dd)"
  unfolding sample_opened_def by (rule dr_open [OF sample_one_reach]) (simp add: sample_opened_detail flip: sample_opened_def)

lemma sample_opened_stored: "sample_conn 1 \<in> stored sample_opened"
  by (simp only: stored_def sample_opened_detail sample_one_rows(2)) simp

definition sample_details :: DialogConnectionDetails where
  "sample_details = dd_open (m_storage sample_one) (Some (sample_conn 1)) DialogConnectionDetails_create"

definition sample_changed :: ConnectionList where
  "sample_changed = writeAndUpdate (sample_conn 1) (\<lambda>d. d\<lparr>cd_state := 3\<rparr>) (- 1) sample_opened"

theorem details_dialog_follows_witness:
  "dd_shows (m_storage sample_changed) (sample_conn 1) (snd (updateDetail (sample_changed, sample_details)))"
proof -
  have "detail_step sample_net sample_opened sample_changed"
    unfolding sample_changed_def
    by (rule ds_update [OF sample_opened_stored])
      (simp_all add: keeps_identity_def sample_opened_detail flags_cover_def has_flag_def flag_defs Let_def)
  then have "detail_run sample_net (sample_conn 1) (sample_changed, sample_details)"
    using dr_step [OF sample_opened_run] by (simp add: sample_details_def)
  moreover obtain l dd where u: "updateDetail (sample_changed, sample_details) = (l, dd)" by (rule prod.exhaust)
  moreover have "m_connectionDetail sample_changed = Some (sample_conn 1)"
    using dpart_write [of "sample_conn 1" _ _ sample_opened] by (simp add: sample_changed_def dpart_def sample_opened_detail)
  ultimately show ?thesis
    using details_dialog_follows [of sample_net "sample_conn 1" sample_changed sample_details l dd]
    by (auto simp: updateDetail_def resetConnectionDetailRefresh_def split: if_splits)
qed

section \<open>Updates that are lost\<close>

text \<open>
  C40: \<^verbatim>\<open>ConnectionList::update\<close> overwrites the flags of the connection of the dialog instead of
  adding to them. If an update of the connection changes its state and a second one its traffic before the
  screen is drawn (two items of the connection in one received document, for instance), only the traffic
  reaches the dialog: it keeps the old state, and nothing is flagged any more.
\<close>

theorem details_update_lost:
  assumes "m_connectionDetail l = Some c" and "c \<in> stored l"
    and "l1 = writeAndUpdate c (\<lambda>d. d\<lparr>cd_state := s\<rparr>) F_PROTO_STATE l"
    and "l2 = writeAndUpdate c (\<lambda>d. d\<lparr>cd_traffic := (cd_traffic d)\<lparr>rxBytes := n\<rparr>\<rparr>) F_RX_BYTES l1"
    and "updateDetail (l2, dd) = (l3, dd3)"
  shows "cd_state (derefConnection (m_storage l3) c) = s \<and> dd_stateName dd3 = dd_stateName dd
    \<and> m_connectionDetailUpdateFlags l3 = 0"
proof -
  have d1: "dpart l1 = (Some c, F_PROTO_STATE, writeConnection c (\<lambda>d. d\<lparr>cd_state := s\<rparr>) (m_storage l))"
    using assms(1,3) by (simp add: dpart_write)
  then have d2: "m_connectionDetail l2 = Some c" "m_connectionDetailUpdateFlags l2 = F_RX_BYTES"
    "m_storage l2 = writeConnection c (\<lambda>d. d\<lparr>cd_traffic := (cd_traffic d)\<lparr>rxBytes := n\<rparr>\<rparr>)
       (writeConnection c (\<lambda>d. d\<lparr>cd_state := s\<rparr>) (m_storage l))"
    using dpart_write [of c _ F_RX_BYTES l1] assms(4) by (simp_all add: dpart_def)
  have "um_find c (m_connectionMap (m_storage l)) \<noteq> None" using assms(2) by (simp add: stored_def set_connections)
  then have "cd_state (derefConnection (m_storage l2) c) = s"
    by (auto simp: d2(3) derefConnection_def writeConnection_def um.find_write)
  moreover have "dd_stateName dd3 = dd_stateName dd"
    using assms(5) d2 by (auto simp: updateDetail_def dd_update_def dd_drawUpdate_def case_prod_beta track_fsts track_traffic_fst Let_def
        has_flag_def flag_defs split: if_splits)
  moreover have "m_storage l3 = m_storage l2" "m_connectionDetailUpdateFlags l3 = 0"
    using assms(5) by (auto simp: updateDetail_def resetConnectionDetailRefresh_def split: if_splits)
  ultimately show ?thesis by simp
qed

definition sample_lost :: ConnectionList where
  "sample_lost = writeAndUpdate (sample_conn 1) (\<lambda>d. d\<lparr>cd_traffic := (cd_traffic d)\<lparr>rxBytes := 7\<rparr>\<rparr>) F_RX_BYTES
     (writeAndUpdate (sample_conn 1) (\<lambda>d. d\<lparr>cd_state := 3\<rparr>) F_PROTO_STATE sample_opened)"

lemma sample_details_state: "dd_stateName sample_details = TCP_StateToString 0"
proof -
  have "um_find (sample_conn 1) (m_connectionMap (m_storage sample_start)) = None"
    by (simp add: sample_start_def list_eval)
  then have "shown_state (m_storage sample_one) (sample_conn 1) = TCP_StateToString 0"
    by (simp add: shown_state_def sample_one_rows(3) derefConnection_def find_addConnection getStateName_def ConnectionData_create_def
        sample_conn_def)
  then show ?thesis using dd_open_shows [of "m_storage sample_one" "sample_conn 1"] by (simp add: dd_shows_def sample_details_def)
qed

theorem details_update_lost_witness:
  "cd_state (derefConnection (m_storage (fst (updateDetail (sample_lost, sample_details)))) (sample_conn 1)) = 3
    \<and> dd_stateName (snd (updateDetail (sample_lost, sample_details))) = TCP_StateToString 0"
proof -
  obtain l3 dd3 where u: "updateDetail (sample_lost, sample_details) = (l3, dd3)" by (rule prod.exhaust)
  from details_update_lost [OF sample_opened_detail(1) sample_opened_stored refl refl u [unfolded sample_lost_def]]
  show ?thesis by (simp add: u sample_details_state)
qed

end
