(* ===== verification/ListScreen.thy ===== *)
theory ListScreen
  imports ScreenProps ConnDraw DetailsProps
begin

text \<open>
  \<^verbatim>\<open>UI_Curses/Screens/ScreenConnectionList.cpp\<close> as a whole: the screen of the list with its
  dialogs, its keys and its drawing, above the windows of \<open>ScreenModel\<close>. Rows are drawn as in
  \<open>ConnDraw\<close>; what the columns of a row and the header of the list look like cell by cell is in \<open>RowDraw\<close>. The list belongs to the application,
  and its operations are called directly; calls of the collector, the client and the event system are
  recorded. What the application is (a client, a monitor with a collector) is an argument.
\<close>

section \<open>The bar of function keys\<close>

record FunctionKey =
  fk_name :: string
  fk_isEnabled :: bool
  fk_isCustom :: bool

type_synonym FunctionKeyBar = "FunctionKey list"

definition kb_initKey :: "nat \<Rightarrow> KString \<Rightarrow> FunctionKeyBar \<Rightarrow> FunctionKeyBar" where
  "kb_initKey k name kb = kb[k := \<lparr>fk_name = name, fk_isEnabled = True, fk_isCustom = False\<rparr>]"

text \<open>Keys are numbered from 0 (\<open>F1\<close>) to 9 (\<open>F10\<close>).\<close>

definition kb_restoreKey :: "FunctionKeyBar \<Rightarrow> nat \<Rightarrow> FunctionKeyBar" where
  "kb_restoreKey kb k =
     (if k = 0 then kb_initKey k ''Help'' kb
      else if k = 6 then kb_initKey k ''Prev'' kb
      else if k = 7 then kb_initKey k ''Next'' kb
      else if k = 9 then kb_initKey k ''Quit'' kb
      else kb[k := (kb ! k)\<lparr>fk_isEnabled := False\<rparr>])"

definition FunctionKeyBar_create :: FunctionKeyBar where
  "FunctionKeyBar_create =
     foldl kb_restoreKey (replicate 10 \<lparr>fk_name = [], fk_isEnabled = False, fk_isCustom = False\<rparr>) [0..<10]"

definition kb_setCustomKey :: "nat \<Rightarrow> KString \<Rightarrow> FunctionKeyBar \<Rightarrow> FunctionKeyBar" where
  "kb_setCustomKey k name kb = kb[k := \<lparr>fk_name = name, fk_isEnabled = True, fk_isCustom = True\<rparr>]"

datatype app_call = SetPaused bool | ShowHelp | PrevScreen | NextScreen | Disconnect | Quit

record application =
  app_hasCollector :: bool
  app_isClient :: bool
  app_isConnected :: bool
  app_isPaused :: bool
  app_isSynchronized :: bool

definition kb_standard :: "nat \<Rightarrow> FunctionKeyBar \<Rightarrow> bool" where
  "kb_standard k kb \<longleftrightarrow> fk_isEnabled (kb ! k) \<and> \<not> fk_isCustom (kb ! k)"

text \<open>The call that is made for the key; a key without a call is not handled.\<close>

definition kb_handlePressedKey :: "application \<Rightarrow> key \<Rightarrow> FunctionKeyBar \<Rightarrow> app_call option" where
  "kb_handlePressedKey app ch kb =
     (if ch = KEY_F 1 then (if kb_standard 0 kb then Some ShowHelp else None)
      else if ch \<in> {KEY_F 7, KEY_SLEFT} then (if kb_standard 6 kb then Some PrevScreen else None)
      else if ch \<in> {KEY_F 8, KEY_SRIGHT} then (if kb_standard 7 kb then Some NextScreen else None)
      else if ch = KEY_F 10
      then (if kb_standard 9 kb then Some (if app_isClient app \<and> app_isConnected app then Disconnect else Quit) else None)
      else None)"

section \<open>State\<close>

text \<open>
  Of the pad of the list it is recorded what each row shows, column by column (\<open>ls_rows\<close>), which rows
  have text at all (\<open>ls_used\<close>), whether the bar of function keys is still in the last line, and what was
  last written into each field of the header since the pad was erased (\<open>ls_header\<close>): the numbers and
  the words of the status line, and the columns whose labels are above the list.
\<close>

record Header =
  hd_connectionCount :: "nat option"
  hd_resolvedPercentage :: "int option"
  hd_scrollOffset :: "nat option"
  hd_hostnameState :: "string option"
  hd_portnameState :: "string option"
  hd_pausedState :: "string option"
  hd_syncState :: "string option"
  hd_columns :: "ConnectionColumn list option"

definition blank_header :: Header where
  "blank_header = \<lparr>hd_connectionCount = None, hd_resolvedPercentage = None, hd_scrollOffset = None, hd_hostnameState = None,
     hd_portnameState = None, hd_pausedState = None, hd_syncState = None, hd_columns = None\<rparr>"

record ListScreen =
  ls_ui :: UI
  ls_list :: ConnectionList
  ls_rows :: Screen
  ls_used :: "nat set"
  ls_barShown :: bool
  ls_header :: Header
  ls_keyBar :: FunctionKeyBar
  ls_details :: DialogConnectionDetails
  ls_columns :: DialogConnectionColumns
  ls_sort :: DialogConnectionSort
  ls_columnsTotalWidth :: nat
  ls_currentSize :: nat
  ls_connectionCount :: nat
  ls_scrollOffset :: nat
  ls_resolvedPercentage :: int
  ls_showCursor :: bool
  ls_showHostname :: bool
  ls_showPortname :: bool
  ls_pausedState :: bool
  ls_syncState :: bool
  ls_calls :: "app_call list"

definition MINIMUM_WIDTH :: int where
  "MINIMUM_WIDTH = 80"

definition MINIMUM_HEIGHT :: int where
  "MINIMUM_HEIGHT = STATUS_HEADER_HEIGHT + 2"

abbreviation ls_screen :: "ListScreen \<Rightarrow> ScreenWindow" where
  "ls_screen s \<equiv> ui_screen (ls_ui s) W_LIST"

definition getHeight :: "ScreenWindow \<Rightarrow> int" where
  "getHeight sc = pos_y (sc_size sc)"

text \<open>\<open>getListSize\<close> subtracts unsigned numbers of 32 bits.\<close>

definition getListSize :: "ListScreen \<Rightarrow> nat" where
  "getListSize s = nat ((getHeight (ls_screen s) - MINIMUM_HEIGHT) mod 2 ^ 32)"

definition getListBeginPos :: int where
  "getListBeginPos = STATUS_HEADER_HEIGHT + 1"

section \<open>Drawing\<close>

text \<open>Everything that is written into a window sets the flag of the window.\<close>

definition ls_modify :: "window \<Rightarrow> ListScreen \<Rightarrow> ListScreen" where
  "ls_modify w s = s\<lparr>ls_ui := ui_modify w (ls_ui s)\<rparr>"

definition write_header :: "(Header \<Rightarrow> Header) \<Rightarrow> ListScreen \<Rightarrow> ListScreen" where
  "write_header f s = ls_modify W_LIST (s\<lparr>ls_header := f (ls_header s)\<rparr>)"

definition ls_drawListHeader :: "ListScreen \<Rightarrow> ListScreen" where
  "ls_drawListHeader s = write_header (\<lambda>h. h\<lparr>hd_columns := Some (dc_columns (ls_columns s))\<rparr>) s"

definition drawConnectionCount :: "ListScreen \<Rightarrow> ListScreen" where
  "drawConnectionCount s = write_header (\<lambda>h. h\<lparr>hd_connectionCount := Some (ls_connectionCount s)\<rparr>) s"

definition drawResolvedPercentage :: "ListScreen \<Rightarrow> ListScreen" where
  "drawResolvedPercentage s = write_header (\<lambda>h. h\<lparr>hd_resolvedPercentage := Some (ls_resolvedPercentage s)\<rparr>) s"

definition drawScrollOffset :: "ListScreen \<Rightarrow> ListScreen" where
  "drawScrollOffset s = write_header (\<lambda>h. h\<lparr>hd_scrollOffset := Some (ls_scrollOffset s)\<rparr>) s"

definition drawHostnameState :: "ListScreen \<Rightarrow> ListScreen" where
  "drawHostnameState s = write_header (\<lambda>h. h\<lparr>hd_hostnameState := Some (if ls_showHostname s then ''HOST'' else ''    '')\<rparr>) s"

definition drawPortnameState :: "ListScreen \<Rightarrow> ListScreen" where
  "drawPortnameState s = write_header (\<lambda>h. h\<lparr>hd_portnameState := Some (if ls_showPortname s then ''PORT'' else ''    '')\<rparr>) s"

definition drawPausedState :: "ListScreen \<Rightarrow> ListScreen" where
  "drawPausedState s = write_header (\<lambda>h. h\<lparr>hd_pausedState := Some (if ls_pausedState s then ''PAUSE'' else ''     '')\<rparr>) s"

definition drawSyncState :: "ListScreen \<Rightarrow> ListScreen" where
  "drawSyncState s = write_header (\<lambda>h. h\<lparr>hd_syncState := Some (if ls_syncState s then ''SYNC'' else ''    '')\<rparr>) s"

text \<open>How rows are drawn at the moment.\<close>

definition ls_style :: "ListScreen \<Rightarrow> RowStyle" where
  "ls_style s = \<lparr>rs_columns = dc_columns (ls_columns s), rs_columnsTotalWidth = ls_columnsTotalWidth s,
     rs_showCursor = ls_showCursor s, rs_showHostname = ls_showHostname s, rs_showPortname = ls_showPortname s\<rparr>"

function draw_rows :: "ListScreen \<Rightarrow> ListScreen" where
  "draw_rows s =
     (let (u, l) = getNextUpdate (ls_list s)
      in if lu_data u = None then s\<lparr>ls_list := l\<rparr>
         else draw_rows (ls_modify W_LIST (s\<lparr>ls_list := l, ls_rows := drawListEntry (ls_style s) (m_storage (ls_list s)) u (ls_rows s),
                ls_used := insert (lu_rowNumber u) (ls_used s)\<rparr>)))"
  by pat_completeness auto
termination
  by (relation "measure (\<lambda>s. length (filter isRefreshRequired (m_list (ls_list s))))")
    (auto simp: ls_modify_def intro!: getNextUpdate_measure [OF sym])

declare draw_rows.simps [simp del]

text \<open>The rows below the list are filled with blanks; a row at the end of the window is the bar's.\<close>

definition blank_rows :: "ListScreen \<Rightarrow> ListScreen" where
  "blank_rows s =
     (let listSize = getSize (ls_list s)
      in if ls_currentSize s \<noteq> listSize
         then
           (if ls_currentSize s > listSize \<and> listSize < getListSize s
            then
              ls_modify W_LIST (s\<lparr>ls_rows := (\<lambda>i. if listSize \<le> i \<and> i < ls_currentSize s then None else ls_rows s i),
                ls_used := ls_used s - {listSize..<ls_currentSize s},
                ls_barShown := (ls_barShown s \<and>
                  \<not> (\<exists>i \<in> {listSize..<ls_currentSize s}. getListBeginPos + int i = getHeight (ls_screen s) - 1))\<rparr>)
            else s)\<lparr>ls_currentSize := listSize\<rparr>
         else s)"

definition update_status :: "ListScreen \<Rightarrow> ListScreen" where
  "update_status s =
     (let l = ls_list s;
          s1 = (if ls_connectionCount s \<noteq> getConnectionCount (m_storage l)
                then drawConnectionCount (s\<lparr>ls_connectionCount := getConnectionCount (m_storage l)\<rparr>) else s);
          s2 = (if ls_scrollOffset s1 \<noteq> m_scrollOffset l then drawScrollOffset (s1\<lparr>ls_scrollOffset := m_scrollOffset l\<rparr>) else s1)
      in if ls_resolvedPercentage s2 \<noteq> getResolvedPercentage l
         then drawResolvedPercentage (s2\<lparr>ls_resolvedPercentage := getResolvedPercentage l\<rparr>) else s2)"

text \<open>The details dialog draws if its log says so.\<close>

definition set_details :: "DialogConnectionDetails \<Rightarrow> ListScreen \<Rightarrow> ListScreen" where
  "set_details dd s =
     (let s1 = s\<lparr>ls_details := dd\<rparr>
      in if list_all (\<lambda>d. d = Some 0) (drop (length (dd_drawn (ls_details s))) (dd_drawn dd)) then s1 else ls_modify W_DETAILS s1)"

definition update_details :: "ListScreen \<Rightarrow> ListScreen" where
  "update_details s =
     (let l = ls_list s
      in if m_connectionDetailUpdateFlags l \<noteq> 0
         then
           (if hasDialog W_DETAILS (ls_ui s)
            then set_details (dd_update (m_storage l) (m_connectionDetail l) (m_connectionDetailUpdateFlags l) (ls_details s)) s
            else s)\<lparr>ls_list := resetConnectionDetailRefresh l\<rparr>
         else s)"

definition ls_updateList :: "ListScreen \<Rightarrow> ListScreen" where
  "ls_updateList s = update_details (update_status (blank_rows (draw_rows s)))"

definition ls_invalidateAllVisible :: "ListScreen \<Rightarrow> ListScreen" where
  "ls_invalidateAllVisible s = s\<lparr>ls_list := invalidateAllVisible (ls_list s)\<rparr>"

text \<open>\<open>drawCollectorInfo\<close> also takes over the state of the client.\<close>

definition ls_drawCollectorInfo :: "application \<Rightarrow> ListScreen \<Rightarrow> ListScreen" where
  "ls_drawCollectorInfo app s =
     (if app_isClient app
      then
        let s1 = ls_modify W_LIST s
        in if ls_syncState s1 \<noteq> app_isSynchronized app then drawSyncState (s1\<lparr>ls_syncState := app_isSynchronized app\<rparr>) else s1
      else if app_hasCollector app then ls_modify W_LIST s else s)"

text \<open>Drawing the labels and the bar of function keys.\<close>

definition ls_drawStatic :: "ListScreen \<Rightarrow> ListScreen" where
  "ls_drawStatic s = (ls_modify W_LIST s)\<lparr>ls_barShown := True\<rparr>"

definition ls_drawHeader :: "ListScreen \<Rightarrow> ListScreen" where
  "ls_drawHeader s =
     drawSyncState (drawPausedState (drawPortnameState (drawHostnameState (drawScrollOffset (drawResolvedPercentage
       (drawConnectionCount (ls_drawListHeader (ls_drawStatic s))))))))"

definition ls_handleResize :: "application \<Rightarrow> ListScreen \<Rightarrow> ListScreen" where
  "ls_handleResize app s =
     (let s1 = ls_drawCollectorInfo app (ls_drawHeader s);
          s2 = s1\<lparr>ls_list := setTargetSize (getListSize s1) (ls_list s1)\<rparr>
      in ls_updateList (ls_invalidateAllVisible s2))"

text \<open>\<open>werase\<close> and \<open>wresize\<close> of the pad of the list.\<close>

definition ls_erase :: "ListScreen \<Rightarrow> ListScreen" where
  "ls_erase s = s\<lparr>ls_rows := (\<lambda>_. None), ls_used := {}, ls_barShown := False, ls_header := blank_header\<rparr>"

definition setMinWidth :: "application \<Rightarrow> ListScreen \<Rightarrow> ListScreen" where
  "setMinWidth app s =
     (let minSize = sc_minSize (ls_screen s)
      in if pos_x minSize \<noteq> int (ls_columnsTotalWidth s)
         then
           let minWidth = (if int (ls_columnsTotalWidth s) < MINIMUM_WIDTH then MINIMUM_WIDTH else int (ls_columnsTotalWidth s));
               (resized, sc) = setMinSize (ui_term (ls_ui s)) (minSize\<lparr>pos_x := minWidth\<rparr>) (ls_screen s);
               s1 = s\<lparr>ls_ui := ui_upd W_LIST (\<lambda>_. sc) (ls_ui s)\<rparr>
           in if resized then ls_handleResize app (ls_erase s1) else s1
         else s)"

definition updateColumns :: "application \<Rightarrow> ListScreen \<Rightarrow> ListScreen" where
  "updateColumns app s =
     (let s1 = setMinWidth app (s\<lparr>ls_columnsTotalWidth := getColumnsTotalWidth (dc_columns (ls_columns s))\<rparr>)
      in ls_updateList (ls_invalidateAllVisible (ls_drawListHeader s1)))"

definition updateSortMode :: "ListScreen \<Rightarrow> ListScreen" where
  "updateSortMode s =
     ls_updateList (s\<lparr>ls_list := setSortMode (ds_sortMode (ls_sort s)) (ds_isSortAscending (ls_sort s)) (ls_list s)\<rparr>)"

datatype EClientEvent = DISCONNECTED | CONNECT_STARTED | DISCONNECT_STARTED | CONNECTION_ESTABLISHED | SESSION_ESTABLISHED
  | SYNC_STATE_CHANGED | SERVER_UPDATE_TICK | NEW_DATA_AVAILABLE

definition updateClientInfo :: "application \<Rightarrow> EClientEvent \<Rightarrow> ListScreen \<Rightarrow> ListScreen" where
  "updateClientInfo app event s =
     (if app_isClient app
      then
        if event \<in> {DISCONNECTED, CONNECT_STARTED, DISCONNECT_STARTED, CONNECTION_ESTABLISHED, SESSION_ESTABLISHED}
        then ls_drawCollectorInfo app s
        else if event = SYNC_STATE_CHANGED then drawSyncState (s\<lparr>ls_syncState := app_isSynchronized app\<rparr>)
        else s
      else s)"

section \<open>Dialogs\<close>

definition set_columns :: "DialogConnectionColumns \<Rightarrow> ListScreen \<Rightarrow> ListScreen" where
  "set_columns dc s =
     (let s1 = s\<lparr>ls_columns := dc\<rparr> in if dc_drawn dc \<noteq> dc_drawn (ls_columns s) then ls_modify W_COLUMNS s1 else s1)"

definition set_sort :: "DialogConnectionSort \<Rightarrow> ListScreen \<Rightarrow> ListScreen" where
  "set_sort ds s =
     (let s1 = s\<lparr>ls_sort := ds\<rparr> in if ds_drawn ds \<noteq> ds_drawn (ls_sort s) then ls_modify W_SORT s1 else s1)"

text \<open>\<open>handleResize\<close> of a dialog.\<close>

definition resize_dialog :: "application \<Rightarrow> window \<Rightarrow> ListScreen \<Rightarrow> ListScreen" where
  "resize_dialog app w s =
     (case w of
        W_LIST \<Rightarrow> ls_handleResize app (ls_erase s)
      | W_DETAILS \<Rightarrow> set_details (dd_handleResize (ls_details s)) s
      | W_COLUMNS \<Rightarrow> set_columns (dc_draw (ls_columns s)) s
      | W_SORT \<Rightarrow> set_sort (ds_draw (ls_sort s)) s)"

definition ls_pushDialog :: "application \<Rightarrow> window \<Rightarrow> ListScreen \<Rightarrow> ListScreen" where
  "ls_pushDialog app w s =
     (let (resized, ui) = pushDialog w (ls_ui s); s1 = s\<lparr>ls_ui := ui\<rparr> in if resized then resize_dialog app w s1 else s1)"

definition ls_removeDialog :: "window \<Rightarrow> ListScreen \<Rightarrow> ListScreen" where
  "ls_removeDialog w s = s\<lparr>ls_ui := removeDialog w (ls_ui s)\<rparr>"

definition columns_close :: "application \<Rightarrow> bool \<Rightarrow> ListScreen \<Rightarrow> ListScreen" where
  "columns_close app apply' s =
     (let s1 = ls_removeDialog W_COLUMNS s; s2 = set_columns (dc_close apply' (ls_columns s1)) s1
      in if apply' then updateColumns app s2 else s2)"

definition sort_close :: "bool \<Rightarrow> ListScreen \<Rightarrow> ListScreen" where
  "sort_close apply' s =
     (let s1 = ls_removeDialog W_SORT s; s2 = set_sort (ds_close apply' (ls_sort s1)) s1
      in if apply' then updateSortMode s2 else s2)"

text \<open>Clearing the window of the details writes into it.\<close>

definition details_close :: "ListScreen \<Rightarrow> ListScreen" where
  "details_close s =
     (let s1 = ls_removeDialog W_DETAILS s in ls_modify W_DETAILS (s1\<lparr>ls_details := dd_close (ls_details s1)\<rparr>))"

definition details_open :: "application \<Rightarrow> ListScreen \<Rightarrow> ListScreen" where
  "details_open app s =
     (let s1 = ls_pushDialog app W_DETAILS s
      in set_details (dd_open (m_storage (ls_list s1)) (m_connectionDetail (ls_list s1)) (ls_details s1)) s1)"

section \<open>Keys\<close>

definition move_by :: "int \<Rightarrow> ListScreen \<Rightarrow> ListScreen" where
  "move_by offset s =
     (let l = (if ls_showCursor s then moveCursor offset (ls_list s) else doScroll offset (ls_list s)); s1 = s\<lparr>ls_list := l\<rparr>
      in if m_isRefreshRequired l then ls_updateList s1 else s1)"

definition toggle_pause :: "ListScreen \<Rightarrow> ListScreen" where
  "toggle_pause s =
     (let s1 = drawPausedState (s\<lparr>ls_pausedState := \<not> ls_pausedState s\<rparr>)
      in s1\<lparr>ls_calls := ls_calls s1 @ [SetPaused (ls_pausedState s1)]\<rparr>)"

definition ls_handleKey :: "application \<Rightarrow> key \<Rightarrow> ListScreen \<Rightarrow> bool \<times> ListScreen" where
  "ls_handleKey app ch s =
     (let page = int (getListSize s) - 1
      in if ch \<in> {KEY_UP, KEY_PPAGE}
         then (True, if getListSize s > 0 then move_by (- (if ch = KEY_PPAGE then page else 1)) s else s)
         else if ch \<in> {KEY_DOWN, KEY_NPAGE}
         then (True, if getListSize s > 0 then move_by (if ch = KEY_NPAGE then page else 1) s else s)
         else if ch = KEY_ENTER
         then
           (True,
            if ls_showCursor s
            then
              let s1 = s\<lparr>ls_list := initConnectionDetail (ls_list s)\<rparr>
              in if m_connectionDetail (ls_list s1) \<noteq> None then details_open app s1 else s1
            else s)
         else if ch = KEY_F 2
         then (True, if hasDialog W_COLUMNS (ls_ui s) then columns_close app False s else ls_pushDialog app W_COLUMNS s)
         else if ch = KEY_F 3
         then (True, if hasDialog W_SORT (ls_ui s) then sort_close False s else ls_pushDialog app W_SORT s)
         else if ch = KEY_F 4
         then (True, ls_updateList (s\<lparr>ls_showCursor := \<not> ls_showCursor s, ls_list := invalidateCursor (ls_list s)\<rparr>))
         else if ch = KEY_F 5
         then (True, ls_updateList (ls_invalidateAllVisible (drawHostnameState (s\<lparr>ls_showHostname := \<not> ls_showHostname s\<rparr>))))
         else if ch = KEY_F 6
         then (True, ls_updateList (ls_invalidateAllVisible (drawPortnameState (s\<lparr>ls_showPortname := \<not> ls_showPortname s\<rparr>))))
         else if ch \<in> {KEY_SPACE, KEY_F 9}
         then (True, if app_hasCollector app \<or> app_isClient app then toggle_pause s else s)
         else
           case kb_handlePressedKey app ch (ls_keyBar s) of
             None \<Rightarrow> (False, s)
           | Some call \<Rightarrow> (True, s\<lparr>ls_calls := ls_calls s @ [call]\<rparr>))"

text \<open>\<open>onKey\<close> of a dialog: a pad that does not fit is scrolled, everything else is the dialog's.\<close>

definition dialog_handleKey :: "application \<Rightarrow> window \<Rightarrow> key \<Rightarrow> ListScreen \<Rightarrow> bool \<times> ListScreen" where
  "dialog_handleKey app w ch s =
     (let height = nat (getHeight (ui_screen (ls_ui s) w))
      in case w of
           W_LIST \<Rightarrow> ls_handleKey app ch s
         | W_DETAILS \<Rightarrow> (let (handled, closes) = dd_handleKey ch in (handled, if closes then details_close s else s))
         | W_COLUMNS \<Rightarrow>
             (let (handled, closing, dc) = dc_handleKey height ch (ls_columns s); s1 = set_columns dc s
              in (handled, case closing of None \<Rightarrow> s1 | Some apply' \<Rightarrow> columns_close app apply' s1))
         | W_SORT \<Rightarrow>
             (let (handled, closing, ds) = ds_handleKey height ch (ls_sort s); s1 = set_sort ds s
              in (handled, case closing of None \<Rightarrow> s1 | Some apply' \<Rightarrow> sort_close apply' s1)))"

definition window_onKey :: "application \<Rightarrow> key \<Rightarrow> window \<Rightarrow> ListScreen \<Rightarrow> bool \<times> ListScreen" where
  "window_onKey app ch w s =
     (let (scrolled, sc) = scroll_key (ui_term (ls_ui s)) ch (ui_screen (ls_ui s) w)
      in if scrolled then (True, s\<lparr>ls_ui := ui_upd w (\<lambda>_. sc) (ls_ui s)\<rparr>) else dialog_handleKey app w ch s)"

text \<open>The windows from the topmost dialog down to the list, until one handles the key.\<close>

fun onKey_loop :: "application \<Rightarrow> key \<Rightarrow> window list \<Rightarrow> ListScreen \<Rightarrow> bool \<times> ListScreen" where
  "onKey_loop app ch [] s = (False, s)"
| "onKey_loop app ch (w # ws) s =
     (let (handled, s1) = window_onKey app ch w s in if handled then (True, s1) else onKey_loop app ch ws s1)"

definition ls_onKey :: "application \<Rightarrow> key \<Rightarrow> ListScreen \<Rightarrow> bool \<times> ListScreen" where
  "ls_onKey app ch s = onKey_loop app ch (rev (ui_dialogStack (ls_ui s)) @ [W_LIST]) s"

section \<open>Start, refresh and resize\<close>

definition ls_refreshScreen :: "bool \<Rightarrow> ListScreen \<Rightarrow> ListScreen" where
  "ls_refreshScreen redraw s = s\<lparr>ls_ui := refreshScreen redraw (ls_ui s)\<rparr>"

definition window_sizes :: "window \<Rightarrow> Pos \<times> Pos" where
  "window_sizes w =
     (case w of
        W_LIST \<Rightarrow> (mkPos MINIMUM_WIDTH MINIMUM_HEIGHT, mkPos (- 1) (- 1))
      | W_DETAILS \<Rightarrow> (mkPos 80 22, mkPos 80 22)
      | W_COLUMNS \<Rightarrow> (mkPos 50 (int COLUMN_COUNT + 2), mkPos 50 (int COLUMN_COUNT + 2))
      | W_SORT \<Rightarrow> (mkPos 40 (int SORT_MODE_COUNT + 4), mkPos 40 (int SORT_MODE_COUNT + 4)))"

definition list_keyBar :: FunctionKeyBar where
  "list_keyBar =
     kb_setCustomKey 8 ''Pause'' (kb_setCustomKey 5 ''Port'' (kb_setCustomKey 4 ''Host'' (kb_setCustomKey 3 ''Cursor''
       (kb_setCustomKey 2 ''Sort'' (kb_setCustomKey 1 ''Column'' FunctionKeyBar_create)))))"

definition ScreenConnectionList_create :: "application \<Rightarrow> Pos \<Rightarrow> ConnectionList \<Rightarrow> ListScreen" where
  "ScreenConnectionList_create app term l =
     (let ui = \<lparr>ui_term = term, ui_screen = (\<lambda>w. Screen_create term (fst (window_sizes w)) (snd (window_sizes w))),
                ui_dialogStack = [], ui_painted = []\<rparr>;
          s = \<lparr>ls_ui = ui_modify W_DETAILS (ui_modify W_COLUMNS (ui_modify W_SORT ui)), ls_list = l, ls_rows = (\<lambda>_. None), ls_used = {}, ls_barShown = False, ls_header = blank_header,
               ls_keyBar = list_keyBar, ls_details = DialogConnectionDetails_create, ls_columns = DialogConnectionColumns_create,
               ls_sort = DialogConnectionSort_create, ls_columnsTotalWidth = 0, ls_currentSize = 0, ls_connectionCount = 0,
               ls_scrollOffset = 0, ls_resolvedPercentage = - 1, ls_showCursor = True, ls_showHostname = True, ls_showPortname = True,
               ls_pausedState = False, ls_syncState = False, ls_calls = []\<rparr>;
          s1 = setMinWidth app (s\<lparr>ls_columnsTotalWidth := getColumnsTotalWidth (dc_columns (ls_columns s))\<rparr>);
          s2 = (if (app_isClient app \<or> app_hasCollector app) \<and> app_isPaused app then s1\<lparr>ls_pausedState := True\<rparr> else s1)
      in ls_handleResize app s2)"

text \<open>\<open>Curses::resizeScreen\<close> for a terminal that has a new size.\<close>

definition ls_resizeScreen :: "application \<Rightarrow> Pos \<Rightarrow> ListScreen \<Rightarrow> ListScreen" where
  "ls_resizeScreen app term s =
     (let (ws, ui) = ui_onResize term (ls_ui s)
      in ls_refreshScreen True (foldl (\<lambda>s w. resize_dialog app w s) (s\<lparr>ls_ui := ui\<rparr>) ws))"

text \<open>\<open>CUI_Curses::refreshConnectionList\<close>, called when the list has been changed.\<close>

definition refreshConnectionList :: "ListScreen \<Rightarrow> ListScreen" where
  "refreshConnectionList s = ls_refreshScreen False (ls_updateList s)"

definition processKey :: "application \<Rightarrow> key \<Rightarrow> ListScreen \<Rightarrow> ListScreen" where
  "processKey app ch s = ls_refreshScreen False (snd (ls_onKey app ch s))"

definition onClientEvent :: "application \<Rightarrow> EClientEvent \<Rightarrow> ListScreen \<Rightarrow> ListScreen" where
  "onClientEvent app event s = ls_refreshScreen False (updateClientInfo app event s)"

end
