(* ===== verification/ListScreenProps.thy ===== *)
theory ListScreenProps
  imports ListScreen
begin

text \<open>
  What the screen of the list promises between two events: the rows show the list with its data, nothing else
  is left in the window, the header and the bar of function keys are right, the size of the list, the columns and the sort mode
  agree with the window and the dialogs, and the terminal shows the windows in their order.
\<close>

section \<open>Drawing keeps the windows\<close>

text \<open>The second interface comes from the first by writing into windows.\<close>

definition drawn_ui :: "UI \<Rightarrow> UI \<Rightarrow> bool" where
  "drawn_ui ui ui' \<longleftrightarrow> (\<exists>ws. ui' = foldl (\<lambda>u w. ui_modify w u) ui ws)"

lemma drawn_refl [simp]: "drawn_ui ui ui"
  by (auto simp: drawn_ui_def intro: exI [of _ "[]"])

lemma drawn_trans: "drawn_ui a b \<Longrightarrow> drawn_ui b c \<Longrightarrow> drawn_ui a c"
  unfolding drawn_ui_def by (metis foldl_append)

lemma drawn_modify: "drawn_ui ui ui' \<Longrightarrow> drawn_ui ui (ui_modify w ui')"
  by (rule drawn_trans) (auto simp: drawn_ui_def intro: exI [of _ "[w]"])

lemma drawn_keeps:
  assumes "drawn_ui ui ui'"
  shows "ui_term ui' = ui_term ui" and "ui_dialogStack ui' = ui_dialogStack ui"
    and "sc_size (ui_screen ui' w) = sc_size (ui_screen ui w)" and "sc_minSize (ui_screen ui' w) = sc_minSize (ui_screen ui w)"
    and "sc_maxSize (ui_screen ui' w) = sc_maxSize (ui_screen ui w)" and "ui_ok ui \<Longrightarrow> ui_ok ui'"
proof -
  obtain ws where ws: "ui' = foldl (\<lambda>u w. ui_modify w u) ui ws" using assms by (auto simp: drawn_ui_def)
  have "ui_term ui' = ui_term ui \<and> ui_dialogStack ui' = ui_dialogStack ui \<and> sc_size (ui_screen ui' w) = sc_size (ui_screen ui w)
    \<and> sc_minSize (ui_screen ui' w) = sc_minSize (ui_screen ui w) \<and> sc_maxSize (ui_screen ui' w) = sc_maxSize (ui_screen ui w)
    \<and> (ui_ok ui \<longrightarrow> ui_ok ui')"
    unfolding ws
  proof (induction ws arbitrary: ui)
    case (Cons v ws)
    have "ui_ok u \<Longrightarrow> ui_ok (ui_modify v u)" for u by (auto simp: ui_modify_def ui_ok_def)
    with Cons [of "ui_modify v ui"] show ?case by (auto simp: ui_modify_def ui_upd_def)
  qed simp
  then show "ui_term ui' = ui_term ui" "ui_dialogStack ui' = ui_dialogStack ui"
    "sc_size (ui_screen ui' w) = sc_size (ui_screen ui w)" "sc_minSize (ui_screen ui' w) = sc_minSize (ui_screen ui w)"
    "sc_maxSize (ui_screen ui' w) = sc_maxSize (ui_screen ui w)" "ui_ok ui \<Longrightarrow> ui_ok ui'"
    by simp_all
qed

text \<open>The part of \<open>ui_ok\<close> that holds before the first drawing.\<close>

definition ui_wf :: "UI \<Rightarrow> bool" where
  "ui_wf ui \<longleftrightarrow> ui_ok (ui_modify W_LIST ui)"

lemma ui_wf_iff: "ui_wf ui \<longleftrightarrow>
    term_ok (ui_term ui) \<and> distinct (W_LIST # ui_dialogStack ui) \<and> distinct (ui_painted ui) \<and>
    (\<forall>w. scroll_ok (ui_screen ui w)) \<and> (\<forall>w \<in> set (W_LIST # ui_dialogStack ui). view_ok (ui_term ui) (ui_screen ui w))"
  by (auto simp: ui_wf_def ui_ok_def ui_modify_def)

lemma ui_ok_wf: "ui_ok ui \<Longrightarrow> ui_wf ui"
  by (auto simp: ui_wf_iff ui_ok_def)

lemma drawn_wf: "drawn_ui ui ui' \<Longrightarrow> ui_wf ui \<Longrightarrow> ui_wf ui'"
proof -
  assume "drawn_ui ui ui'" and wf: "ui_wf ui"
  then obtain ws where "ui' = foldl (\<lambda>u w. ui_modify w u) ui ws" by (auto simp: drawn_ui_def)
  moreover have "ui_wf u \<Longrightarrow> ui_wf (ui_modify v u)" for u v by (auto simp: ui_wf_iff ui_modify_def)
  then have "ui_wf u \<Longrightarrow> ui_wf (foldl (\<lambda>u w. ui_modify w u) u ws)" for u by (induction ws arbitrary: u) auto
  ultimately show ?thesis using wf by simp
qed

text \<open>What the header should show.\<close>

definition header_of :: "ListScreen \<Rightarrow> Header" where
  "header_of s =
     \<lparr>hd_connectionCount = Some (ls_connectionCount s), hd_resolvedPercentage = Some (ls_resolvedPercentage s),
      hd_scrollOffset = Some (ls_scrollOffset s),
      hd_hostnameState = Some (if ls_showHostname s then ''HOST'' else ''    ''),
      hd_portnameState = Some (if ls_showPortname s then ''PORT'' else ''    ''),
      hd_pausedState = Some (if ls_pausedState s then ''PAUSE'' else ''     ''),
      hd_syncState = Some (if ls_syncState s then ''SYNC'' else ''    ''),
      hd_columns = Some (dc_columns (ls_columns s))\<rparr>"

definition header_ok :: "ListScreen \<Rightarrow> bool" where
  "header_ok s \<longleftrightarrow> ls_header s = header_of s"

lemmas header_defs = header_ok_def header_of_def write_header_def ls_drawListHeader_def drawConnectionCount_def drawResolvedPercentage_def
  drawScrollOffset_def drawHostnameState_def drawPortnameState_def drawPausedState_def drawSyncState_def ls_modify_def

text \<open>
  What drawing leaves alone: the windows, the dialogs' choices, the style of the rows, and the parameters of the
  list. A header that is right stays right.
\<close>

definition lpart :: "ConnectionList \<Rightarrow> nat \<times> EConnectionSortMode \<times> bool" where
  "lpart l = (m_targetSize l, m_sortMode l, m_isSortAscending l)"

definition ls_frame :: "ListScreen \<Rightarrow> ListScreen \<Rightarrow> bool" where
  "ls_frame s s' \<longleftrightarrow> drawn_ui (ls_ui s) (ls_ui s') \<and> ls_columns s' = ls_columns s \<and> ls_sort s' = ls_sort s \<and>
     ls_columnsTotalWidth s' = ls_columnsTotalWidth s \<and> lpart (ls_list s') = lpart (ls_list s) \<and> ls_style s' = ls_style s \<and>
     (header_ok s \<longrightarrow> header_ok s')"

lemma frame_refl [simp]: "ls_frame s s"
  by (simp add: ls_frame_def)

lemma frame_trans: "ls_frame a b \<Longrightarrow> ls_frame b c \<Longrightarrow> ls_frame a c"
  unfolding ls_frame_def using drawn_trans by auto

lemma lpart_rows_only: "rows_only l l' \<Longrightarrow> lpart l' = lpart l"
  by (simp add: lpart_def rows_onlyD)

lemma frame_size:
  assumes "ls_frame s s'"
  shows "getListSize s' = getListSize s" and "getHeight (ls_screen s') = getHeight (ls_screen s)"
  using assms drawn_keeps(3) [of "ls_ui s" "ls_ui s'" W_LIST] by (simp_all add: ls_frame_def getListSize_def getHeight_def)

section \<open>The drawing loop\<close>

definition rows_linked :: "ListScreen \<Rightarrow> bool" where
  "rows_linked s \<longleftrightarrow> (\<forall>i. ls_rows s i \<noteq> None \<longrightarrow> i \<in> ls_used s)"

lemma getNextUpdate_row:
  assumes "getNextUpdate l = (u, l')"
  shows "getSize l' = getSize l" and "lu_data u \<noteq> None \<Longrightarrow> lu_rowNumber u < getSize l"
proof -
  show "getSize l' = getSize l"
    using rows_onlyD(3) [OF rows_only_getNextUpdate [OF assms]] ptrs_getNextUpdate [of l] assms
    by (metis getSize_eq length_ptrs snd_conv)
  show "lu_rowNumber u < getSize l" if d: "lu_data u \<noteq> None"
    using assms d by (rule getNextUpdate_next) (auto simp: getSize_eq)
qed

lemma style_list [simp]: "ls_style (s\<lparr>ls_list := l\<rparr>) = ls_style s" "header_ok (s\<lparr>ls_list := l\<rparr>) = header_ok s"
  by (simp_all add: ls_style_def header_ok_def header_of_def)

lemma draw_rows_spec:
  "ls_rows (draw_rows s) = fst (updateList (ls_style s) (ls_rows s) (ls_list s)) \<and>
   ls_list (draw_rows s) = snd (updateList (ls_style s) (ls_rows s) (ls_list s)) \<and>
   (rows_linked s \<longrightarrow> rows_linked (draw_rows s)) \<and>
   ls_used (draw_rows s) \<subseteq> ls_used s \<union> {..<getSize (ls_list s)} \<and>
   rows_only (ls_list s) (ls_list (draw_rows s)) \<and> getSize (ls_list (draw_rows s)) = getSize (ls_list s) \<and>
   drawn_ui (ls_ui s) (ls_ui (draw_rows s)) \<and>
   ls_columns (draw_rows s) = ls_columns s \<and> ls_sort (draw_rows s) = ls_sort s \<and>
   ls_columnsTotalWidth (draw_rows s) = ls_columnsTotalWidth s \<and> ls_currentSize (draw_rows s) = ls_currentSize s \<and>
   ls_barShown (draw_rows s) = ls_barShown s \<and> ls_style (draw_rows s) = ls_style s \<and> (header_ok s \<longrightarrow> header_ok (draw_rows s))"
proof (induction s rule: draw_rows.induct)
  case (1 s)
  obtain u l where g: "getNextUpdate (ls_list s) = (u, l)" by (cases "getNextUpdate (ls_list s)")
  note fr = rows_only_getNextUpdate [OF g] and row = getNextUpdate_row [OF g]
  show ?case
  proof (cases "lu_data u = None")
    case True
    then show ?thesis
      using g fr row by (simp add: draw_rows.simps [of s] updateList.simps [of "ls_style s" "ls_rows s"] rows_linked_def)
  next
    case False
    let ?s = "ls_modify W_LIST (s\<lparr>ls_list := l, ls_rows := drawListEntry (ls_style s) (m_storage (ls_list s)) u (ls_rows s), ls_used := insert (lu_rowNumber u) (ls_used s)\<rparr>)"
    have st: "ls_style ?s = ls_style s" "header_ok ?s = header_ok s"
      by (simp_all add: ls_style_def header_ok_def header_of_def ls_modify_def)
    have e: "draw_rows s = draw_rows ?s"
        "updateList (ls_style s) (ls_rows s) (ls_list s) = updateList (ls_style ?s) (ls_rows ?s) (ls_list ?s)"
      unfolding st using False g by (auto simp: draw_rows.simps [of s] updateList.simps [of "ls_style s" "ls_rows s"] ls_modify_def)
    have link: "rows_linked s \<longrightarrow> rows_linked ?s"
      using False by (auto simp: rows_linked_def ls_modify_def drawListEntry_def Let_def split: if_splits)
    have keep: "drawn_ui (ls_ui s) (ls_ui ?s)" "getSize (ls_list ?s) = getSize (ls_list s)" "rows_only (ls_list s) (ls_list ?s)"
      using fr row(1) by (simp_all add: ls_modify_def drawn_modify)
    have used: "ls_used ?s \<subseteq> ls_used s \<union> {..<getSize (ls_list s)}" using row(2) [OF False] by (auto simp: ls_modify_def)
    have same: "ls_columns ?s = ls_columns s" "ls_sort ?s = ls_sort s" "ls_columnsTotalWidth ?s = ls_columnsTotalWidth s"
        "ls_currentSize ?s = ls_currentSize s" "ls_barShown ?s = ls_barShown s"
      by (simp_all add: ls_modify_def)
    note ih = "1.IH" [OF g [symmetric] refl False]
    show ?thesis
      unfolding e(1) using ih unfolding e(2) [symmetric] unfolding st same keep(2)
      using link used rows_only_trans [OF keep(3)] drawn_trans [OF keep(1)] by blast
  qed
qed


section \<open>Drawing the screen\<close>

text \<open>The list fits the window, whatever the rows look like.\<close>

definition rows_base :: "ListScreen \<Rightarrow> bool" where
  "rows_base s \<longleftrightarrow>
     list_inv (ls_list s) \<and> flags_seen (ls_list s) \<and> rows_linked s \<and>
     m_targetSize (ls_list s) = getListSize s \<and> ls_barShown s \<and> getHeight (ls_screen s) = 6 + int (getListSize s)"

text \<open>Ready to be drawn: no more rows are in use than were drawn last and fit.\<close>

definition ready :: "ListScreen \<Rightarrow> bool" where
  "ready s \<longleftrightarrow>
     rows_base s \<and> screen_ok (ls_style s) (ls_rows s) (m_storage (ls_list s)) (ls_list s) \<and> header_ok s \<and>
     ls_used s \<subseteq> {..<ls_currentSize s} \<and> ls_used s \<subseteq> {..<getListSize s} \<and>
     (ls_currentSize s \<le> getListSize s \<or> getSize (ls_list s) = getListSize s)"

text \<open>Between two events; the first part does not depend on what the rows and the header look like.\<close>

definition drawn_base :: "ListScreen \<Rightarrow> bool" where
  "drawn_base s \<longleftrightarrow> rows_base s \<and> ls_used s = {..<getSize (ls_list s)} \<and> ls_currentSize s = getSize (ls_list s)"

definition at_rest :: "ListScreen \<Rightarrow> bool" where
  "at_rest s \<longleftrightarrow>
     drawn_base s \<and> screen_shows (ls_style s) (ls_rows s) (ls_list s) \<and> header_ok s \<and>
     ls_connectionCount s = getConnectionCount (m_storage (ls_list s)) \<and>
     ls_scrollOffset s = m_scrollOffset (ls_list s) \<and> ls_resolvedPercentage s = getResolvedPercentage (ls_list s)"

lemmas rest_defs = at_rest_def drawn_base_def rows_base_def

lemma getSize_inv: "list_inv l \<Longrightarrow> getSize l = visible_rows l"
  by (auto simp: list_inv_iff list_rows_def sized_def visible_rows_def getSize_eq split: if_splits)

lemma getSize_target: "list_inv l \<Longrightarrow> getSize l \<le> m_targetSize l"
  by (simp add: getSize_inv visible_rows_def)

lemma blank_rows_spec:
  assumes "rows_base s" and "screen_shows rs (ls_rows s) (ls_list s)" and "ls_used s \<subseteq> {..<ls_currentSize s} \<union> {..<getSize (ls_list s)}"
    and "ls_used s \<subseteq> {..<getListSize s}" and "ls_currentSize s \<le> getListSize s \<or> getSize (ls_list s) = getListSize s"
  shows "ls_used (blank_rows s) = {..<getSize (ls_list s)}" and "rows_linked (blank_rows s)"
    and "screen_shows rs (ls_rows (blank_rows s)) (ls_list s)" and "ls_currentSize (blank_rows s) = getSize (ls_list s)"
    and "ls_barShown (blank_rows s)"
proof -
  let ?n = "getSize (ls_list s)" and ?L = "getListSize s" and ?c = "ls_currentSize s"
  have link: "rows_linked s" and bar: "ls_barShown s" and h: "getHeight (ls_screen s) = 6 + int ?L"
    using assms(1) by (simp_all add: rows_base_def)
  have shown: "{..<?n} \<subseteq> ls_used s" using link assms(2) by (auto simp: rows_linked_def screen_shows_def)
  have "?n \<le> ?L" using assms(1) getSize_target [of "ls_list s"] by (simp add: rows_base_def)
  with assms(3-5) shown show "ls_used (blank_rows s) = {..<?n}"
    by (auto simp: blank_rows_def ls_modify_def Let_def subset_iff)
  show "rows_linked (blank_rows s)" "screen_shows rs (ls_rows (blank_rows s)) (ls_list s)" "ls_currentSize (blank_rows s) = ?n"
    using link assms(2) by (auto simp: blank_rows_def ls_modify_def Let_def rows_linked_def screen_shows_def)
  show "ls_barShown (blank_rows s)"
    using bar assms(5) by (auto simp: blank_rows_def ls_modify_def Let_def getListBeginPos_def STATUS_HEADER_HEIGHT_def h)
qed

lemma blank_rows_frame:
  "ls_list (blank_rows s) = ls_list s" "ls_frame s (blank_rows s)"
  by (simp_all add: blank_rows_def ls_modify_def Let_def ls_frame_def drawn_modify ls_style_def header_ok_def header_of_def)

lemma update_status_spec:
  "ls_list (update_status s) = ls_list s" "ls_rows (update_status s) = ls_rows s" "ls_used (update_status s) = ls_used s"
  "ls_currentSize (update_status s) = ls_currentSize s" "ls_barShown (update_status s) = ls_barShown s"
  "ls_connectionCount (update_status s) = getConnectionCount (m_storage (ls_list s))"
  "ls_scrollOffset (update_status s) = m_scrollOffset (ls_list s)" "ls_resolvedPercentage (update_status s) = getResolvedPercentage (ls_list s)"
  "ls_frame s (update_status s)"
  by (simp_all add: update_status_def header_defs Let_def ls_frame_def drawn_modify ls_style_def)

lemma set_details_frame:
  "ls_frame s (set_details dd s)" "ls_list (set_details dd s) = ls_list s" "ls_rows (set_details dd s) = ls_rows s"
  "ls_used (set_details dd s) = ls_used s" "ls_currentSize (set_details dd s) = ls_currentSize s"
  "ls_barShown (set_details dd s) = ls_barShown s" "ls_connectionCount (set_details dd s) = ls_connectionCount s"
  "ls_scrollOffset (set_details dd s) = ls_scrollOffset s" "ls_resolvedPercentage (set_details dd s) = ls_resolvedPercentage s"
  by (simp_all add: set_details_def ls_modify_def Let_def ls_frame_def drawn_modify ls_style_def header_ok_def header_of_def)

lemma update_details_spec:
  "ls_list (update_details s) \<in> {ls_list s, resetConnectionDetailRefresh (ls_list s)}"
  "ls_rows (update_details s) = ls_rows s" "ls_used (update_details s) = ls_used s"
  "ls_currentSize (update_details s) = ls_currentSize s" "ls_barShown (update_details s) = ls_barShown s"
  "ls_connectionCount (update_details s) = ls_connectionCount s" "ls_scrollOffset (update_details s) = ls_scrollOffset s"
  "ls_resolvedPercentage (update_details s) = ls_resolvedPercentage s" "ls_frame s (update_details s)"
  by (simp_all add: update_details_def Let_def set_details_frame)
    (simp add: set_details_def ls_modify_def Let_def ls_frame_def drawn_modify resetConnectionDetailRefresh_def lpart_def ls_style_def
      header_ok_def header_of_def)

text \<open>Being at rest does not depend on the flags of the details.\<close>

lemma at_rest_reset:
  assumes "at_rest s" and "ls_list s' \<in> {ls_list s, resetConnectionDetailRefresh (ls_list s)}" and "ls_rows s' = ls_rows s"
    and "ls_used s' = ls_used s" and "ls_currentSize s' = ls_currentSize s" and "ls_barShown s' = ls_barShown s"
    and "ls_connectionCount s' = ls_connectionCount s" and "ls_scrollOffset s' = ls_scrollOffset s"
    and "ls_resolvedPercentage s' = ls_resolvedPercentage s" and "ls_frame s s'"
  shows "at_rest s'"
proof -
  let ?l = "ls_list s" and ?l' = "ls_list s'"
  have eqs: "m_list ?l' = m_list ?l" "m_scrollOffset ?l' = m_scrollOffset ?l" "m_cursorPos ?l' = m_cursorPos ?l"
    "m_targetSize ?l' = m_targetSize ?l" "m_storage ?l' = m_storage ?l" "m_isRefreshRequired ?l' = m_isRefreshRequired ?l"
    "getResolvedPercentage ?l' = getResolvedPercentage ?l"
    using assms(2) by (auto simp: resetConnectionDetailRefresh_def getResolvedPercentage_def)
  have "list_inv ?l'" using assms(1,2) list_inv_step [OF step_detail_reset] by (auto simp: rest_defs)
  moreover have "flags_seen ?l' = flags_seen ?l" "getSize ?l' = getSize ?l"
    "screen_shows (ls_style s) (ls_rows s) ?l' = screen_shows (ls_style s) (ls_rows s) ?l"
    by (simp_all add: flags_seen_def screen_shows_def getSize_eq eqs)
  moreover have "rows_linked s' = rows_linked s" using assms(3,4) by (simp add: rows_linked_def)
  moreover have "ls_style s' = ls_style s" "header_ok s'" using assms(1,10) by (simp_all add: ls_frame_def at_rest_def)
  ultimately show ?thesis
    using assms eqs frame_size [OF assms(10)] by (simp add: rest_defs)
qed

lemma ready_updateList:
  assumes "ready s"
  shows "at_rest (ls_updateList s)" and "ls_frame s (ls_updateList s)"
proof -
  define a where "a = draw_rows s"
  define b where "b = blank_rows a"
  define c where "c = update_status b"
  note spec = draw_rows_spec [of s, folded a_def]
  have ok: "rows_base s" "header_ok s" and so: "screen_ok (ls_style s) (ls_rows s) (m_storage (ls_list s)) (ls_list s)"
    using assms by (simp_all add: ready_def)
  then have l: "list_inv (ls_list s)" "flags_seen (ls_list s)" "rows_linked s"
    by (simp_all add: rows_base_def)
  have ro: "rows_only (ls_list s) (ls_list a)" using spec by blast
  have fa: "ls_frame s a" unfolding ls_frame_def using spec lpart_rows_only [OF ro] by blast
  note sz = frame_size [OF fa]
  have shows': "screen_shows (ls_style s) (ls_rows a) (ls_list a)" "flags_seen (ls_list a)" and inv: "list_inv (ls_list a)"
    using updateList_shows [OF so l(2)] spec list_inv_updateList [OF l(1)] by simp_all
  have keep: "rows_linked a" "ls_used a \<subseteq> ls_used s \<union> {..<getSize (ls_list s)}" "getSize (ls_list a) = getSize (ls_list s)"
      "ls_currentSize a = ls_currentSize s" "ls_barShown a = ls_barShown s"
    using spec l(3) by blast+
  with inv shows' ok sz have oka: "rows_base a" by (simp add: rows_base_def rows_onlyD [OF ro])
  have ub: "ls_used a \<subseteq> {..<ls_currentSize a} \<union> {..<getSize (ls_list a)}" "ls_used a \<subseteq> {..<getListSize a}"
    "ls_currentSize a \<le> getListSize a \<or> getSize (ls_list a) = getListSize a"
    using keep assms sz getSize_target [OF l(1)] by (fastforce simp: ready_def rows_base_def)+
  note bl = blank_rows_spec [OF oka shows'(1) ub, folded b_def] and fb = blank_rows_frame [of a, folded b_def]
  have fc: "ls_frame s c" using fa fb(2) update_status_spec(9) [of b] frame_trans unfolding c_def by blast
  then have sc: "ls_style c = ls_style s" "header_ok c" using ok(2) by (simp_all add: ls_frame_def)
  have "at_rest c"
    using oka bl fb shows'(2) sc frame_size [OF fb(2)] frame_size [OF update_status_spec(9) [of b]]
    by (simp add: rest_defs c_def update_status_spec rows_linked_def screen_shows_def)
  then have "at_rest (update_details c)" by (rule at_rest_reset) (simp_all only: update_details_spec)
  then show "at_rest (ls_updateList s)" by (simp add: ls_updateList_def a_def b_def c_def)
  have "ls_frame s (update_details c)"
    using fc update_details_spec(9) [of c] frame_trans by blast
  then show "ls_frame s (ls_updateList s)" by (simp add: ls_updateList_def a_def b_def c_def)
qed

section \<open>The operations of the list\<close>

lemma lpart_frame [simp]:
  "lpart (l\<lparr>m_list := xs\<rparr>) = lpart l" "lpart (l\<lparr>m_isRefreshRequired := b\<rparr>) = lpart l" "lpart (l\<lparr>m_cursorPos := n\<rparr>) = lpart l"
  "lpart (l\<lparr>m_scrollOffset := n\<rparr>) = lpart l" "lpart (l\<lparr>m_effects := es\<rparr>) = lpart l" "lpart (l\<lparr>m_dataTotalCount := n\<rparr>) = lpart l"
  "lpart (l\<lparr>m_dataResolvedCount := n\<rparr>) = lpart l" "lpart (l\<lparr>m_storage := st\<rparr>) = lpart l" "lpart (l\<lparr>m_connectionDetail := d\<rparr>) = lpart l"
  "lpart (l\<lparr>m_connectionDetailUpdateFlags := f\<rparr>) = lpart l"
  by (simp_all add: lpart_def)

lemmas lpart_rows [simp] = rows_only_insertItem [THEN lpart_rows_only] rows_only_fill [THEN lpart_rows_only]
  rows_only_invalidateAllVisible [THEN lpart_rows_only] rows_only_invalidateCursor [THEN lpart_rows_only]
  rows_only_sort [THEN lpart_rows_only] rows_only_rescan_step [THEN lpart_rows_only] rows_only_update_order [THEN lpart_rows_only]

lemma lpart_foldl: "(\<And>l p. lpart (f l p) = lpart l) \<Longrightarrow> lpart (foldl f l ps) = lpart l"
  by (induction ps arbitrary: l) simp_all

lemma lpart_ops:
  "lpart (doScroll n l) = lpart l" "lpart (moveCursor n l) = lpart l" "lpart (initConnectionDetail l) = lpart l"
  "lpart (add c t v l) = lpart l" "lpart (remove c l) = lpart l" "lpart (clear l) = lpart l" "lpart (writeAndUpdate c g f l) = lpart l"
  "lpart (snd (getAddress net a b l)) = lpart l" "lpart (snd (getPort p b l)) = lpart l"
  "lpart (ResolverCallbackAddress a h co asn l) = lpart l" "lpart (ResolverCallbackPort p sv l) = lpart l"
proof -
  have [simp]: "lpart (clampCursor l) = lpart l" for l by (simp add: clampCursor_def Let_def)
  have [simp]: "lpart (dataUpdated_rows m uses mark l) = lpart l" for m uses mark l
    by (simp add: dataUpdated_rows_def Let_def lpart_foldl)
  show s: "lpart (doScroll n l) = lpart l" for n l by (simp add: doScroll_def Let_def)
  show "lpart (moveCursor n l) = lpart l" by (simp add: moveCursor_def Let_def s)
  show "lpart (add c t v l) = lpart l" by (simp add: add_def handleNewConnection_def case_prod_beta Let_def)
  show "lpart (remove c l) = lpart l"
    by (simp add: remove_def handleRemovedConnection_def case_prod_beta Let_def split: option.split)
  show "lpart (writeAndUpdate c g f l) = lpart l"
    by (simp add: writeAndUpdate_def update_def update_rows_def update_mark_def Let_def)
qed (simp_all add: initConnectionDetail_def clear_def getAddress_def getPort_def ResolverCallbackAddress_def ResolverCallbackPort_def
    addressDataUpdated_def portDataUpdated_def case_prod_beta Let_def dataUpdated_rows_def lpart_foldl)

text \<open>
  The operations that the collector, the client and the resolver call. An update of a connection names what it has
  changed in its data.
\<close>

inductive data_step :: "inet \<Rightarrow> ConnectionList \<Rightarrow> ConnectionList \<Rightarrow> bool" for net where
  dt_add: "refs_live (m_storage l) c \<Longrightarrow> data_step net l (add c t s l)"
| dt_remove: "data_step net l (remove c l)"
| dt_clear: "data_step net l (clear l)"
| dt_update: "c \<in> stored l \<Longrightarrow> keeps_identity g \<Longrightarrow> names_changes f (m_storage l) (writeConnection c g (m_storage l)) c \<Longrightarrow>
    data_step net l (writeAndUpdate c g f l)"
| dt_address: "data_step net l (snd (getAddress net a b l))"
| dt_port: "data_step net l (snd (getPort p b l))"
| dt_resolved_address: "data_step net l (ResolverCallbackAddress a h co asn l)"
| dt_resolved_port: "data_step net l (ResolverCallbackPort p s l)"

lemma data_step_shown: "data_step net l l' \<Longrightarrow> shown_step net l l' \<and> lpart l' = lpart l"
  by (induction rule: data_step.induct) (auto intro: shown_step.intros simp: lpart_ops)

text \<open>A list that a screen can be drawn from.\<close>

definition drawable :: "RowStyle \<Rightarrow> Screen \<Rightarrow> ConnectionList \<Rightarrow> bool" where
  "drawable rs scr l \<longleftrightarrow> list_inv l \<and> screen_ok rs scr (m_storage l) l \<and> flags_seen l"

lemma drawable_step: "shown_step net l l' \<Longrightarrow> drawable rs scr l \<Longrightarrow> drawable rs scr l'"
  using screen_ok_step by (auto simp: drawable_def)

lemma data_steps:
  assumes "(data_step net)\<^sup>*\<^sup>* l l'"
  shows "drawable rs scr l \<Longrightarrow> drawable rs scr l'" and "lpart l' = lpart l"
proof -
  have "(drawable rs scr l \<longrightarrow> drawable rs scr l') \<and> lpart l' = lpart l"
    using assms
  proof (induction rule: rtranclp_induct)
    case (step a b)
    from data_step_shown [OF step(2)] step(3) show ?case using drawable_step by metis
  qed simp
  then show "drawable rs scr l \<Longrightarrow> drawable rs scr l'" "lpart l' = lpart l"
    by blast+
qed

lemma rest_drawable: "at_rest s \<Longrightarrow> drawable (ls_style s) (ls_rows s) (ls_list s)"
  by (simp add: rest_defs drawable_def screen_shows_ok)

section \<open>The whole screen\<close>

definition window_fits :: "ListScreen \<Rightarrow> int \<Rightarrow> bool" where
  "window_fits s m \<longleftrightarrow>
     sc_minSize (ls_screen s) = mkPos m MINIMUM_HEIGHT \<and> sc_maxSize (ls_screen s) = mkPos (- 1) (- 1) \<and>
     sc_size (ls_screen s) = calculateSize (ui_term (ls_ui s)) (ls_screen s) \<and> pos_y (ui_term (ls_ui s)) < 2 ^ 31"

text \<open>The dialogs, the list and the window agree.\<close>

definition ls_base :: "ListScreen \<Rightarrow> bool" where
  "ls_base s \<longleftrightarrow>
     ui_ok (ls_ui s) \<and> dc_ok (ls_columns s) \<and> ds_ok (ls_sort s) \<and>
     m_sortMode (ls_list s) = ds_sortMode (ls_sort s) \<and> m_isSortAscending (ls_list s) = ds_isSortAscending (ls_sort s)"

definition ls_inv :: "ListScreen \<Rightarrow> bool" where
  "ls_inv s \<longleftrightarrow>
     at_rest s \<and> ls_base s \<and> window_fits s (max MINIMUM_WIDTH (int (ls_columnsTotalWidth s))) \<and>
     ls_columnsTotalWidth s = getColumnsTotalWidth (dc_columns (ls_columns s))"

lemma fits_height:
  assumes "window_fits s m"
  shows "getHeight (ls_screen s) = 6 + int (getListSize s)"
proof -
  have h: "getHeight (ls_screen s) = max 6 (pos_y (ui_term (ls_ui s)))"
    using assms by (simp add: window_fits_def getHeight_def calculateSize_def calculate_axis_def MINIMUM_HEIGHT_def STATUS_HEADER_HEIGHT_def)
  have "0 \<le> getHeight (ls_screen s) - MINIMUM_HEIGHT" "getHeight (ls_screen s) - MINIMUM_HEIGHT < 2 ^ 32"
    using assms by (simp_all add: h window_fits_def MINIMUM_HEIGHT_def STATUS_HEADER_HEIGHT_def)
  then have "int (getListSize s) = getHeight (ls_screen s) - MINIMUM_HEIGHT"
    unfolding getListSize_def by (simp add: mod_pos_pos_trivial)
  then show ?thesis by (simp add: MINIMUM_HEIGHT_def STATUS_HEADER_HEIGHT_def)
qed

lemma fits_drawn: "drawn_ui (ls_ui s) (ls_ui s') \<Longrightarrow> window_fits s m \<Longrightarrow> window_fits s' m"
  by (simp add: window_fits_def drawn_keeps(1) calculateSize_def
      drawn_keeps(3-5) [of "ls_ui s" "ls_ui s'" W_LIST])

lemma frame_inv_from:
  assumes "ls_base s" and "window_fits s (max MINIMUM_WIDTH (int (ls_columnsTotalWidth s)))"
    and "ls_columnsTotalWidth s = getColumnsTotalWidth (dc_columns (ls_columns s))" and "ls_frame s s'" and "at_rest s'"
  shows "ls_inv s'"
  using assms fits_drawn [of s s'] drawn_keeps(6) by (auto simp: ls_inv_def ls_base_def ls_frame_def lpart_def)

lemma frame_inv: "ls_inv s \<Longrightarrow> ls_frame s s' \<Longrightarrow> at_rest s' \<Longrightarrow> ls_inv s'"
  by (rule frame_inv_from) (auto simp only: ls_inv_def)

lemma ready_list:
  assumes "drawn_base s" and "header_ok s" and "drawable (ls_style s) (ls_rows s) l" and "m_targetSize l = getListSize s"
  shows "ready (s\<lparr>ls_list := l\<rparr>)"
proof -
  have "getSize (ls_list s) \<le> getListSize s" using assms(1) getSize_target [of "ls_list s"] by (simp add: rest_defs)
  moreover have "getListSize (s\<lparr>ls_list := l\<rparr>) = getListSize s" by (simp add: getListSize_def)
  ultimately show ?thesis using assms by (auto simp: ready_def drawable_def rest_defs rows_linked_def)
qed

text \<open>Drawing a list over a screen that fits it, in whatever style.\<close>

lemma inv_drawn_list:
  assumes "drawn_base s" and "header_ok s" and "ls_base s" and "window_fits s (max MINIMUM_WIDTH (int (ls_columnsTotalWidth s)))"
    and "ls_columnsTotalWidth s = getColumnsTotalWidth (dc_columns (ls_columns s))"
    and "drawable (ls_style s) (ls_rows s) l" and "lpart l = lpart (ls_list s)"
  shows "ls_inv (ls_updateList (s\<lparr>ls_list := l\<rparr>))"
proof -
  have "ready (s\<lparr>ls_list := l\<rparr>)"
    using assms(1,2,6,7) by (intro ready_list) (auto simp: rest_defs lpart_def)
  note u = ready_updateList [OF this]
  have "ls_frame s (s\<lparr>ls_list := l\<rparr>)" using assms(7) by (simp add: ls_frame_def)
  from frame_inv_from [OF assms(3-5) frame_trans [OF this u(2)] u(1)] show ?thesis .
qed

lemma inv_list:
  assumes "ls_inv s" and "drawable (ls_style s) (ls_rows s) l" and "lpart l = lpart (ls_list s)"
  shows "ls_inv (ls_updateList (s\<lparr>ls_list := l\<rparr>))"
  using assms by (intro inv_drawn_list) (auto simp only: ls_inv_def at_rest_def)

lemma inv_step:
  assumes "ls_inv s" and "shown_step net (ls_list s) l" and "lpart l = lpart (ls_list s)"
  shows "ls_inv (ls_updateList (s\<lparr>ls_list := l\<rparr>))"
  using assms drawable_step [OF assms(2)] rest_drawable by (intro inv_list) (auto simp only: ls_inv_def)

text \<open>All visible rows are drawn again, after a change of the style for instance.\<close>

lemma inv_restyled:
  assumes "drawn_base s" and "header_ok s" and "ls_base s" and "window_fits s (max MINIMUM_WIDTH (int (ls_columnsTotalWidth s)))"
    and "ls_columnsTotalWidth s = getColumnsTotalWidth (dc_columns (ls_columns s))"
  shows "ls_inv (ls_updateList (ls_invalidateAllVisible s))"
  unfolding ls_invalidateAllVisible_def
proof (rule inv_drawn_list [OF assms])
  show "drawable (ls_style s) (ls_rows s) (invalidateAllVisible (ls_list s))"
    using assms(1) invalidateAllVisible_inv flags_seen_step [OF step_invalidate] screen_ok_all_flagged [OF all_flagged_invalidate]
    by (simp add: drawable_def rest_defs)
qed simp

lemma base_fields [simp]:
  "drawn_base (s\<lparr>ls_columns := dc\<rparr>) = drawn_base s" "drawn_base (s\<lparr>ls_showHostname := b\<rparr>) = drawn_base s"
  "drawn_base (s\<lparr>ls_showPortname := b\<rparr>) = drawn_base s" "drawn_base (s\<lparr>ls_showCursor := b\<rparr>) = drawn_base s"
  "drawn_base (s\<lparr>ls_columnsTotalWidth := n\<rparr>) = drawn_base s" "drawn_base (s\<lparr>ls_header := h\<rparr>) = drawn_base s"
  "drawn_base (s\<lparr>ls_pausedState := b\<rparr>) = drawn_base s" "drawn_base (s\<lparr>ls_syncState := b\<rparr>) = drawn_base s"
  "drawn_base (s\<lparr>ls_sort := ds\<rparr>) = drawn_base s" "drawn_base (s\<lparr>ls_details := dd\<rparr>) = drawn_base s" "drawn_base (s\<lparr>ls_calls := cs\<rparr>) = drawn_base s"
  by (simp_all add: drawn_base_def rows_base_def rows_linked_def getListSize_def)

lemma base_ui: "sc_size (ui_screen ui W_LIST) = sc_size (ls_screen s) \<Longrightarrow> drawn_base (s\<lparr>ls_ui := ui\<rparr>) = drawn_base s"
  by (simp add: drawn_base_def rows_base_def rows_linked_def getListSize_def getHeight_def)

lemma write_fields:
  "drawn_base (write_header f s) = drawn_base s" "ls_style (write_header f s) = ls_style s" "ls_rows (write_header f s) = ls_rows s"
  "ls_list (write_header f s) = ls_list s" "ls_connectionCount (write_header f s) = ls_connectionCount s"
  "ls_scrollOffset (write_header f s) = ls_scrollOffset s" "ls_resolvedPercentage (write_header f s) = ls_resolvedPercentage s"
  by (simp_all add: write_header_def ls_modify_def base_ui ui_modify_def ls_style_def)

lemma at_rest_fields [simp]:
  "at_rest (s\<lparr>ls_sort := ds\<rparr>) = at_rest s" "at_rest (s\<lparr>ls_details := dd\<rparr>) = at_rest s" "at_rest (s\<lparr>ls_calls := cs\<rparr>) = at_rest s"
  by (simp_all add: at_rest_def ls_style_def header_ok_def header_of_def)

lemma at_rest_columns: "dc_columns dc = dc_columns (ls_columns s) \<Longrightarrow> at_rest (s\<lparr>ls_columns := dc\<rparr>) = at_rest s"
  by (simp add: at_rest_def ls_style_def header_ok_def header_of_def)

lemma inv_fields [simp]:
  "ls_inv (s\<lparr>ls_details := dd\<rparr>) = ls_inv s" "ls_inv (s\<lparr>ls_calls := cs\<rparr>) = ls_inv s"
  by (simp_all add: ls_inv_def ls_base_def window_fits_def)

lemma at_rest_ui:
  "sc_size (ui_screen ui W_LIST) = sc_size (ls_screen s) \<Longrightarrow> at_rest (s\<lparr>ls_ui := ui\<rparr>) = at_rest s"
  by (simp add: at_rest_def base_ui ls_style_def header_ok_def header_of_def)

lemma inv_ui:
  assumes "ls_inv s" and "ui_ok ui" and "ui_term ui = ui_term (ls_ui s)" and "sc_size (ui_screen ui W_LIST) = sc_size (ls_screen s)"
    and "sc_minSize (ui_screen ui W_LIST) = sc_minSize (ls_screen s)" and "sc_maxSize (ui_screen ui W_LIST) = sc_maxSize (ls_screen s)"
  shows "ls_inv (s\<lparr>ls_ui := ui\<rparr>)"
  using assms at_rest_ui [OF assms(4)] by (simp add: ls_inv_def ls_base_def window_fits_def calculateSize_def)

lemma inv_drawn:
  assumes "ls_inv s" and "drawn_ui (ls_ui s) ui"
  shows "ls_inv (s\<lparr>ls_ui := ui\<rparr>)"
  using assms drawn_keeps [OF assms(2)] by (intro inv_ui) (auto simp: ls_inv_def ls_base_def)

lemma inv_modify: "ls_inv s \<Longrightarrow> ls_inv (ls_modify w s)"
  unfolding ls_modify_def by (rule inv_drawn) (simp_all add: drawn_modify)

lemma inv_set_details: "ls_inv s \<Longrightarrow> ls_inv (set_details dd s)"
  by (simp add: set_details_def Let_def inv_modify)

lemma inv_set_columns:
  assumes "ls_inv s" and "dc_ok dc" and "dc_columns dc = dc_columns (ls_columns s)"
  shows "ls_inv (set_columns dc s)"
proof -
  have "ls_inv (s\<lparr>ls_columns := dc\<rparr>)" using assms by (simp add: ls_inv_def ls_base_def window_fits_def at_rest_columns)
  then show ?thesis by (simp add: set_columns_def Let_def inv_modify)
qed

lemma inv_set_sort:
  assumes "ls_inv s" and "ds_ok ds" and "ds_sortMode ds = ds_sortMode (ls_sort s)" and "ds_isSortAscending ds = ds_isSortAscending (ls_sort s)"
  shows "ls_inv (set_sort ds s)"
proof -
  have "ls_inv (s\<lparr>ls_sort := ds\<rparr>)" using assms by (simp add: ls_inv_def ls_base_def window_fits_def)
  then show ?thesis by (simp add: set_sort_def Let_def inv_modify)
qed

section \<open>Sizes\<close>

lemma setTargetSize_frame:
  "m_targetSize (setTargetSize n l) = n" "m_storage (setTargetSize n l) = m_storage l" "m_scrollOffset (setTargetSize n l) = m_scrollOffset l"
  "m_sortMode (setTargetSize n l) = m_sortMode l" "m_isSortAscending (setTargetSize n l) = m_isSortAscending l"
  by (simp_all add: setTargetSize_def clampCursor_def Let_def list_frame)

definition same_choices :: "ListScreen \<Rightarrow> ListScreen \<Rightarrow> bool" where
  "same_choices s s' \<longleftrightarrow> drawn_ui (ls_ui s) (ls_ui s') \<and> ls_columns s' = ls_columns s \<and> ls_sort s' = ls_sort s \<and>
     ls_columnsTotalWidth s' = ls_columnsTotalWidth s \<and> m_sortMode (ls_list s') = m_sortMode (ls_list s) \<and>
     m_isSortAscending (ls_list s') = m_isSortAscending (ls_list s)"

lemma handleResize_rest:
  assumes "list_inv (ls_list s)" and "rows_linked s" and "ls_used s \<subseteq> {..<ls_currentSize s}" and "ls_used s \<subseteq> {..<getListSize s}"
    and "ls_currentSize s = getSize (ls_list s) \<or> ls_currentSize s = 0" and "window_fits s m"
  shows "at_rest (ls_handleResize app s)" and "same_choices s (ls_handleResize app s)"
    and "drawn_ui (ui_modify W_LIST (ls_ui s)) (ls_ui (ls_handleResize app s))"
proof -
  define a where "a = ls_drawCollectorInfo app (ls_drawHeader s)"
  have a: "ls_list a = ls_list s" "ls_rows a = ls_rows s" "ls_used a = ls_used s" "ls_currentSize a = ls_currentSize s" "ls_barShown a"
      "header_ok a"
    and fa: "ls_frame s a"
    by (simp_all add: a_def ls_drawCollectorInfo_def ls_drawHeader_def ls_drawStatic_def header_defs Let_def ls_frame_def drawn_modify ls_style_def)
  note sz = frame_size [OF fa]
  let ?l = "setTargetSize (getListSize a) (ls_list s)"
  define b where "b = a\<lparr>ls_list := invalidateAllVisible ?l\<rparr>"
  have e: "ls_handleResize app s = ls_updateList b"
    by (simp add: ls_handleResize_def Let_def ls_invalidateAllVisible_def a_def [symmetric] b_def a)
  have inv: "list_inv (ls_list b)" using assms(1) by (simp add: b_def invalidateAllVisible_inv list_inv_setTargetSize)
  have tgt: "m_targetSize (ls_list b) = getListSize b"
    by (simp add: b_def list_frame setTargetSize_frame getListSize_def)
  have seen: "flags_seen (ls_list b)" by (simp add: b_def flags_seen_def invalidateAllVisible_def)
  have vis: "getSize (ls_list b) = min (getConnectionCount (m_storage (ls_list s)) - m_scrollOffset (ls_list s)) (getListSize b)"
    using getSize_inv [OF inv] tgt by (simp add: visible_rows_def) (simp add: b_def list_frame setTargetSize_frame)
  have szb: "getListSize b = getListSize s" "getHeight (ls_screen b) = getHeight (ls_screen s)"
    using sz by (simp_all add: b_def getListSize_def)
  have "getSize (ls_list s) \<le> getConnectionCount (m_storage (ls_list s)) - m_scrollOffset (ls_list s)"
    using getSize_inv [OF assms(1)] by (simp add: visible_rows_def)
  with assms(5) vis have cur: "ls_currentSize b \<le> getListSize b \<or> getSize (ls_list b) = getListSize b"
    by (auto simp: b_def a)
  have "rows_base b"
    using inv seen tgt assms(2) a(5) fits_height [OF assms(6)] szb
    by (simp add: rows_base_def) (simp add: b_def rows_linked_def a)
  with cur assms(3,4) szb have "ready b"
    using screen_ok_all_flagged [OF all_flagged_invalidate, of _ _ _ ?l] by (simp add: ready_def) (simp add: b_def a)
  note u = ready_updateList [OF this]
  show "at_rest (ls_handleResize app s)" unfolding e by (rule u(1))
  have "same_choices s b" using fa by (simp add: same_choices_def ls_frame_def b_def list_frame setTargetSize_frame)
  with u(2) show "same_choices s (ls_handleResize app s)"
    unfolding e same_choices_def ls_frame_def lpart_def using drawn_trans by auto
  have "drawn_ui (ui_modify W_LIST (ls_ui s)) (ls_ui b)"
    by (simp add: b_def a_def ls_drawCollectorInfo_def ls_drawHeader_def ls_drawStatic_def header_defs Let_def drawn_modify)
  with u(2) show "drawn_ui (ui_modify W_LIST (ls_ui s)) (ls_ui (ls_handleResize app s))"
    unfolding e ls_frame_def using drawn_trans by blast
qed

lemma erased_rest:
  assumes "list_inv (ls_list s)" and "ls_currentSize s = getSize (ls_list s) \<or> ls_currentSize s = 0" and "window_fits s m"
  shows "at_rest (ls_handleResize app (ls_erase s))" and "same_choices s (ls_handleResize app (ls_erase s))"
proof -
  have "window_fits (ls_erase s) m" using assms(3) by (simp add: window_fits_def ls_erase_def)
  note h = handleResize_rest [of "ls_erase s", OF _ _ _ _ _ this]
  show "at_rest (ls_handleResize app (ls_erase s))" using assms by (intro h(1)) (simp_all add: ls_erase_def rows_linked_def)
  have "same_choices (ls_erase s) (ls_handleResize app (ls_erase s))" using assms by (intro h(2)) (simp_all add: ls_erase_def rows_linked_def)
  then show "same_choices s (ls_handleResize app (ls_erase s))" by (simp add: same_choices_def ls_erase_def)
qed


lemma setMinSize_size:
  assumes "sc_size sc = calculateSize tm sc"
  shows "sc_minSize (snd (setMinSize tm z sc)) = z" and "sc_maxSize (snd (setMinSize tm z sc)) = sc_maxSize sc"
    and "sc_size (snd (setMinSize tm z sc)) = calculateSize tm (snd (setMinSize tm z sc))"
    and "\<not> fst (setMinSize tm z sc) \<Longrightarrow> sc_size (snd (setMinSize tm z sc)) = sc_size sc"
  using assms by (simp_all add: setMinSize_def Let_def updateScreenRect_def sc_invalidate_def case_prod_beta calculateSize_def)
    (auto simp: Let_def calculateSize_def split: if_splits)

lemma ui_ok_setMinSize:
  assumes "ui_ok ui"
  shows "ui_ok (ui_upd W_LIST (\<lambda>_. snd (setMinSize (ui_term ui) z (ui_screen ui W_LIST))) ui)"
proof -
  have "ui_upd W_LIST (\<lambda>_. snd (setMinSize (ui_term ui) z (ui_screen ui W_LIST))) ui
      = ui_upd W_LIST (\<lambda>sc. snd (setMinSize (ui_term ui) z sc)) ui" by (simp add: ui_upd_def)
  moreover have "ui_ok (ui_upd W_LIST (\<lambda>sc. snd (setMinSize (ui_term ui) z sc)) ui)"
    using assms by (intro ui_ok_window view_setMinSize flags_kept) (auto simp: ui_ok_def)
  ultimately show ?thesis by simp
qed

lemma ui_wf_setMinSize:
  assumes "ui_wf ui"
  shows "ui_wf (ui_upd W_LIST (\<lambda>_. snd (setMinSize (ui_term ui) z (ui_screen ui W_LIST))) ui)"
proof -
  have "view_ok (ui_term ui) (snd (setMinSize (ui_term ui) z (ui_screen ui W_LIST)))"
    using assms by (intro view_setMinSize) (simp_all add: ui_wf_iff)
  with assms view_scroll_ok [OF this] show ?thesis by (auto simp: ui_wf_iff)
qed

lemma setMinWidth_spec:
  assumes "window_fits s m" and "MINIMUM_WIDTH \<le> m" and "list_inv (ls_list s)"
    and "ls_currentSize s = getSize (ls_list s) \<or> ls_currentSize s = 0"
  shows "window_fits (setMinWidth app s) (max MINIMUM_WIDTH (int (ls_columnsTotalWidth s)))"
    and "ui_ok (ls_ui s) \<Longrightarrow> ui_ok (ls_ui (setMinWidth app s))" and "ui_wf (ls_ui s) \<Longrightarrow> ui_wf (ls_ui (setMinWidth app s))"
    and "at_rest (setMinWidth app s) \<or> (\<exists>ui. setMinWidth app s = s\<lparr>ls_ui := ui\<rparr> \<and> sc_size (ui_screen ui W_LIST) = sc_size (ls_screen s))"
    and "ls_columns (setMinWidth app s) = ls_columns s" and "ls_sort (setMinWidth app s) = ls_sort s"
    and "ls_columnsTotalWidth (setMinWidth app s) = ls_columnsTotalWidth s"
    and "m_sortMode (ls_list (setMinWidth app s)) = m_sortMode (ls_list s)"
    and "m_isSortAscending (ls_list (setMinWidth app s)) = m_isSortAscending (ls_list s)"
proof -
  let ?w = "max MINIMUM_WIDTH (int (ls_columnsTotalWidth s))"
  let ?t = "setMinWidth app s"
  have min: "sc_minSize (ls_screen s) = mkPos m MINIMUM_HEIGHT" and size: "sc_size (ls_screen s) = calculateSize (ui_term (ls_ui s)) (ls_screen s)"
    and rest: "sc_maxSize (ls_screen s) = mkPos (- 1) (- 1)" "pos_y (ui_term (ls_ui s)) < 2 ^ 31"
    using assms(1) by (simp_all add: window_fits_def)
  have "window_fits ?t ?w \<and> (ui_ok (ls_ui s) \<longrightarrow> ui_ok (ls_ui ?t)) \<and> (ui_wf (ls_ui s) \<longrightarrow> ui_wf (ls_ui ?t)) \<and> (at_rest ?t \<or> (\<exists>ui. ?t = s\<lparr>ls_ui := ui\<rparr> \<and> sc_size (ui_screen ui W_LIST) = sc_size (ls_screen s)))
      \<and> ls_columns ?t = ls_columns s \<and> ls_sort ?t = ls_sort s \<and> ls_columnsTotalWidth ?t = ls_columnsTotalWidth s
      \<and> m_sortMode (ls_list ?t) = m_sortMode (ls_list s) \<and> m_isSortAscending (ls_list ?t) = m_isSortAscending (ls_list s)"
  proof (cases "m = int (ls_columnsTotalWidth s)")
    case True
    then have e: "?t = s" by (simp add: setMinWidth_def min Let_def)
    have "?w = m" using True assms(2) by simp
    with assms(1) have "\<exists>ui. s = s\<lparr>ls_ui := ui\<rparr> \<and> sc_size (ui_screen ui W_LIST) = sc_size (ls_screen s)" "window_fits s ?w"
      by (auto intro: exI [of _ "ls_ui s"])
    with e show ?thesis by simp
  next
    case False
    define x where "x = setMinSize (ui_term (ls_ui s)) (mkPos ?w MINIMUM_HEIGHT) (ls_screen s)"
    define a where "a = s\<lparr>ls_ui := ui_upd W_LIST (\<lambda>_. snd x) (ls_ui s)\<rparr>"
    note x = setMinSize_size [OF size, of "mkPos ?w MINIMUM_HEIGHT", folded x_def]
    have e: "?t = (if fst x then ls_handleResize app (ls_erase a) else a)"
      using False by (simp add: setMinWidth_def min Let_def case_prod_beta x_def a_def max_def not_le)
    have fit: "window_fits a ?w" using x rest by (simp add: window_fits_def a_def)
    have ok: "ui_ok (ls_ui s) \<longrightarrow> ui_ok (ls_ui a)" "ui_wf (ls_ui s) \<longrightarrow> ui_wf (ls_ui a)"
      using ui_ok_setMinSize ui_wf_setMinSize by (simp_all add: a_def x_def)
    show ?thesis
    proof (cases "fst x")
      case True
      have c: "ls_currentSize a = getSize (ls_list a) \<or> ls_currentSize a = 0" "list_inv (ls_list a)" using assms(3,4) by (simp_all add: a_def)
      note h = erased_rest [OF c(2,1) fit, of app]
      have d: "drawn_ui (ls_ui a) (ls_ui ?t)" using h(2) True e by (simp add: same_choices_def)
      with h True e ok fits_drawn [OF d fit] drawn_keeps(6) [OF d] drawn_wf [OF d] show ?thesis by (simp add: same_choices_def a_def)
    next
      case False
      with e fit ok x(4) show ?thesis by (auto simp: a_def)
    qed
  qed
  then show "window_fits ?t ?w" "ui_ok (ls_ui s) \<Longrightarrow> ui_ok (ls_ui ?t)" "ui_wf (ls_ui s) \<Longrightarrow> ui_wf (ls_ui ?t)" "at_rest ?t \<or> (\<exists>ui. ?t = s\<lparr>ls_ui := ui\<rparr> \<and> sc_size (ui_screen ui W_LIST) = sc_size (ls_screen s))"
    "ls_columns ?t = ls_columns s" "ls_sort ?t = ls_sort s" "ls_columnsTotalWidth ?t = ls_columnsTotalWidth s"
    "m_sortMode (ls_list ?t) = m_sortMode (ls_list s)" "m_isSortAscending (ls_list ?t) = m_isSortAscending (ls_list s)"
    by blast+
qed

text \<open>The line above the rows shows the columns again once it is drawn.\<close>

lemma drawListHeader_spec:
  assumes "drawn_base s" and "\<exists>cs. header_ok (s\<lparr>ls_header := (ls_header s)\<lparr>hd_columns := cs\<rparr>\<rparr>)"
  shows "drawn_base (ls_drawListHeader s) \<and> header_ok (ls_drawListHeader s)"
proof
  show "drawn_base (ls_drawListHeader s)" using assms(1) by (simp add: ls_drawListHeader_def write_fields)
  show "header_ok (ls_drawListHeader s)"
    using assms(2) by (cases "ls_header s") (auto simp: header_ok_def header_of_def ls_drawListHeader_def write_header_def ls_modify_def)
qed

text \<open>After the columns were changed in the dialog: the header still shows the old ones.\<close>

lemma updateColumns_inv:
  assumes "drawn_base s" and "\<exists>cs. header_ok (s\<lparr>ls_header := (ls_header s)\<lparr>hd_columns := cs\<rparr>\<rparr>)" and "ls_base s"
    and "window_fits s (max MINIMUM_WIDTH (int (ls_columnsTotalWidth s)))"
  shows "ls_inv (updateColumns app s)"
proof -
  let ?s = "s\<lparr>ls_columnsTotalWidth := getColumnsTotalWidth (dc_columns (ls_columns s))\<rparr>"
  let ?t = "setMinWidth app ?s"
  have fit: "window_fits ?s (max MINIMUM_WIDTH (int (ls_columnsTotalWidth s)))" using assms(4) by (simp add: window_fits_def)
  have pre: "list_inv (ls_list ?s)" "ui_ok (ls_ui ?s)" "ls_currentSize ?s = getSize (ls_list ?s) \<or> ls_currentSize ?s = 0"
    using assms(1,3) by (simp_all add: rest_defs ls_base_def)
  note t = setMinWidth_spec [OF fit _ pre(1,3), of app]
  have d: "drawn_base (ls_drawListHeader ?t) \<and> header_ok (ls_drawListHeader ?t)"
    using t(4)
  proof
    assume "at_rest ?t"
    then show ?thesis by (intro drawListHeader_spec exI [of _ "hd_columns (ls_header ?t)"]) (simp_all add: at_rest_def)
  next
    assume "\<exists>ui. ?t = ?s\<lparr>ls_ui := ui\<rparr> \<and> sc_size (ui_screen ui W_LIST) = sc_size (ls_screen ?s)"
    then obtain ui where ui: "?t = ?s\<lparr>ls_ui := ui\<rparr>" "sc_size (ui_screen ui W_LIST) = sc_size (ls_screen ?s)" by blast
    from assms(2) obtain cs where "header_ok (s\<lparr>ls_header := (ls_header s)\<lparr>hd_columns := cs\<rparr>\<rparr>)" by blast
    then show ?thesis unfolding ui(1) using assms(1) ui(2)
      by (intro drawListHeader_spec exI [of _ cs]) (simp_all add: base_ui header_ok_def header_of_def)
  qed simp
  moreover have "ls_base (ls_drawListHeader ?t)" "ls_columnsTotalWidth (ls_drawListHeader ?t) = getColumnsTotalWidth (dc_columns (ls_columns (ls_drawListHeader ?t)))"
    using t(2,5-9) pre assms(3) drawn_keeps(6) [OF drawn_modify [OF drawn_refl]] by (simp_all add: ls_base_def header_defs)
  moreover have "window_fits (ls_drawListHeader ?t) (max MINIMUM_WIDTH (int (ls_columnsTotalWidth (ls_drawListHeader ?t))))"
    using t(1,7) fits_drawn [of ?t "ls_drawListHeader ?t"] by (simp add: header_defs drawn_modify)
  ultimately show ?thesis by (simp add: updateColumns_def Let_def inv_restyled)
qed

lemma updateSortMode_inv:
  assumes "at_rest s" and "ui_ok (ls_ui s)" and "dc_ok (ls_columns s)" and "ds_ok (ls_sort s)"
    and "window_fits s (max MINIMUM_WIDTH (int (ls_columnsTotalWidth s)))"
    and "ls_columnsTotalWidth s = getColumnsTotalWidth (dc_columns (ls_columns s))"
  shows "ls_inv (updateSortMode s)"
proof -
  let ?l = "setSortMode (ds_sortMode (ls_sort s)) (ds_isSortAscending (ls_sort s)) (ls_list s)"
  have st: "shown_step net (ls_list s) ?l" for net by (rule sh_sort)
  have m: "m_targetSize ?l = m_targetSize (ls_list s)" "m_sortMode ?l = ds_sortMode (ls_sort s)" "m_isSortAscending ?l = ds_isSortAscending (ls_sort s)"
    by (auto simp: setSortMode_def updateCompareFunc_def Let_def list_frame)
  have "ready (s\<lparr>ls_list := ?l\<rparr>)"
    using assms(1) m drawable_step [OF st rest_drawable] by (intro ready_list) (auto simp: rest_defs)
  note u = ready_updateList [OF this]
  then have "drawn_ui (ls_ui s) (ls_ui (updateSortMode s))" by (simp add: ls_frame_def updateSortMode_def)
  with u m assms fits_drawn [OF this assms(5)] drawn_keeps(6) [OF this] show ?thesis
    by (simp add: ls_inv_def ls_base_def updateSortMode_def ls_frame_def lpart_def)
qed


section \<open>Dialogs and keys\<close>

lemma inv_resize_dialog: "ls_inv s \<Longrightarrow> w \<noteq> W_LIST \<Longrightarrow> ls_inv (resize_dialog app w s)"
  by (cases w) (auto simp: resize_dialog_def inv_set_details intro!: inv_set_columns inv_set_sort,
      auto simp: dc_draw_def ds_draw_def ls_inv_def ls_base_def ds_ok_def)

lemma pushDialog_list:
  assumes "w \<noteq> W_LIST"
  shows "ui_term (snd (pushDialog w ui)) = ui_term ui" and "sc_size (ui_screen (snd (pushDialog w ui)) W_LIST) = sc_size (ui_screen ui W_LIST)"
    and "sc_minSize (ui_screen (snd (pushDialog w ui)) W_LIST) = sc_minSize (ui_screen ui W_LIST)"
    and "sc_maxSize (ui_screen (snd (pushDialog w ui)) W_LIST) = sc_maxSize (ui_screen ui W_LIST)"
  using assms by (auto simp: pushDialog_def case_prod_beta Let_def sc_invalidate_def)

lemma inv_push:
  assumes "ls_inv s" and "w \<noteq> W_LIST"
  shows "ls_inv (ls_pushDialog app w s)"
proof -
  have "ls_inv (s\<lparr>ls_ui := snd (pushDialog w (ls_ui s))\<rparr>)"
    using assms ui_ok_push [of "ls_ui s" w] pushDialog_list [OF assms(2), of "ls_ui s"] by (intro inv_ui) (auto simp: ls_inv_def ls_base_def)
  with assms(2) show ?thesis by (simp add: ls_pushDialog_def case_prod_beta Let_def inv_resize_dialog)
qed

lemma removeDialog_list:
  "ui_term (removeDialog w ui) = ui_term ui" "sc_size (ui_screen (removeDialog w ui) v) = sc_size (ui_screen ui v)"
  "sc_minSize (ui_screen (removeDialog w ui) v) = sc_minSize (ui_screen ui v)" "sc_maxSize (ui_screen (removeDialog w ui) v) = sc_maxSize (ui_screen ui v)"
  by (auto simp: removeDialog_def case_prod_beta Let_def sc_invalidate_def)

lemma inv_remove: "ls_inv s \<Longrightarrow> ls_inv (ls_removeDialog w s)"
  unfolding ls_removeDialog_def using ui_ok_remove [of "ls_ui s" w]
  by (intro inv_ui) (auto simp: ls_inv_def ls_base_def removeDialog_list)

lemma dc_columns_close: "dc_columns (dc_close False dc) = dc_columns dc"
  by (simp add: dc_close_def dc_restoreConfig_def dc_draw_def)

lemma dc_columns_key: "dc_handleKey height ch dc = (b, c, dc') \<Longrightarrow> dc_columns dc' = dc_columns dc"
  by (auto simp: dc_handleKey_def Let_def dc_drawEntry_def dc_config_upd_def split: if_splits)

lemma ds_choice_close: "ds_sortMode (ds_close False ds) = ds_sortMode ds" "ds_isSortAscending (ds_close False ds) = ds_isSortAscending ds"
  by (simp_all add: ds_close_def ds_restoreConfig_def ds_draw_def)

lemma ds_choice_key:
  "ds_handleKey height ch ds = (b, c, ds') \<Longrightarrow> ds_sortMode ds' = ds_sortMode ds \<and> ds_isSortAscending ds' = ds_isSortAscending ds"
  by (auto simp: ds_handleKey_def Let_def ds_drawEntry_def split: if_splits)

lemma inv_columns_close:
  assumes "ls_inv s"
  shows "ls_inv (columns_close app b s)"
proof -
  let ?s = "ls_removeDialog W_COLUMNS s"
  have inv: "ls_inv ?s" using assms by (rule inv_remove)
  have ok: "dc_ok (dc_close b (ls_columns ?s))" using inv dc_ok_close by (simp add: ls_inv_def ls_base_def)
  show ?thesis
  proof (cases b)
    case True
    let ?t = "set_columns (dc_close True (ls_columns ?s)) ?s"
    have d: "drawn_ui (ls_ui ?s) (ls_ui ?t)" by (simp add: set_columns_def Let_def ls_modify_def drawn_modify)
    have e: "?t = ?s\<lparr>ls_columns := dc_close True (ls_columns ?s), ls_ui := ls_ui ?t\<rparr>" by (simp add: set_columns_def Let_def ls_modify_def)
    have "drawn_base ?t \<and> (\<exists>cs. header_ok (?t\<lparr>ls_header := (ls_header ?t)\<lparr>hd_columns := cs\<rparr>\<rparr>))"
      by (subst (1 2 3) e) (use inv drawn_keeps(3) [OF d] in \<open>simp add: base_ui ls_inv_def at_rest_def header_ok_def header_of_def\<close>)
    moreover have "ls_base ?t"
      using inv ok True drawn_keeps(6) [OF d] by (simp add: ls_inv_def ls_base_def) (simp add: set_columns_def Let_def ls_modify_def)
    moreover have "window_fits ?t (max MINIMUM_WIDTH (int (ls_columnsTotalWidth ?s)))" using inv fits_drawn [OF d] unfolding ls_inv_def by blast
    moreover have "ls_columnsTotalWidth ?t = ls_columnsTotalWidth ?s" by (simp add: set_columns_def Let_def ls_modify_def)
    ultimately show ?thesis using True updateColumns_inv by (simp add: columns_close_def Let_def)
  next
    case False
    then have "ls_inv (set_columns (dc_close False (ls_columns ?s)) ?s)" using inv ok by (intro inv_set_columns) (simp_all add: dc_columns_close)
    with False show ?thesis by (simp add: columns_close_def Let_def)
  qed
qed

lemma inv_sort_close:
  assumes "ls_inv s"
  shows "ls_inv (sort_close b s)"
proof -
  let ?s = "ls_removeDialog W_SORT s"
  have inv: "ls_inv ?s" using assms by (rule inv_remove)
  have ok: "ds_ok (ds_close b (ls_sort ?s))" using inv ds_ok_close by (simp add: ls_inv_def ls_base_def)
  show ?thesis
  proof (cases b)
    case True
    let ?t = "set_sort (ds_close True (ls_sort ?s)) ?s"
    have d: "drawn_ui (ls_ui ?s) (ls_ui ?t)" by (simp add: set_sort_def Let_def ls_modify_def drawn_modify)
    have e: "?t = ?s\<lparr>ls_sort := ds_close True (ls_sort ?s), ls_ui := ls_ui ?t\<rparr>" by (simp add: set_sort_def Let_def ls_modify_def)
    have "at_rest ?t" by (subst e) (use inv drawn_keeps(3) [OF d] in \<open>simp add: at_rest_ui ls_inv_def\<close>)
    moreover have "ls_columnsTotalWidth ?t = ls_columnsTotalWidth ?s" "ls_columns ?t = ls_columns ?s" "ls_sort ?t = ds_close True (ls_sort ?s)"
      by (simp_all add: set_sort_def Let_def ls_modify_def)
    ultimately have "ls_inv (updateSortMode ?t)"
      using inv ok True drawn_keeps(6) [OF d] fits_drawn [OF d] by (intro updateSortMode_inv) (auto simp: ls_inv_def ls_base_def)
    with True show ?thesis by (simp add: sort_close_def Let_def)
  next
    case False
    then have "ls_inv (set_sort (ds_close False (ls_sort ?s)) ?s)" using inv ok by (intro inv_set_sort) (simp_all add: ds_choice_close)
    with False show ?thesis by (simp add: sort_close_def Let_def)
  qed
qed

lemma inv_details: "ls_inv s \<Longrightarrow> ls_inv (details_close s)" "ls_inv s \<Longrightarrow> ls_inv (details_open app s)"
  by (simp_all add: details_close_def details_open_def Let_def inv_modify inv_remove inv_set_details inv_push)

text \<open>A list that asks for no refresh is shown already.\<close>

lemma quiet_shows: "drawable rs scr l \<Longrightarrow> \<not> m_isRefreshRequired l \<Longrightarrow> screen_shows rs scr l"
proof -
  assume d: "drawable rs scr l" "\<not> m_isRefreshRequired l"
  then have "\<not> isRefreshRequired (m_list l ! (m_scrollOffset l + i))" if "i < getSize l" for i
    using that by (auto simp: drawable_def flags_seen_def getSize_eq)
  with d row_ok_shown(2) show ?thesis by (auto simp: drawable_def screen_ok_def screen_shows_def stale_def)
qed

lemma inv_quiet:
  assumes "ls_inv s" and "shown_step net (ls_list s) l" and "lpart l = lpart (ls_list s)" and "noted (ls_list s) l" and "\<not> m_isRefreshRequired l"
    and "m_storage l = m_storage (ls_list s)" and "getResolvedPercentage l = getResolvedPercentage (ls_list s)"
  shows "ls_inv (s\<lparr>ls_list := l\<rparr>)"
proof -
  have rest: "at_rest s" "ls_base s" using assms(1) by (simp_all add: ls_inv_def)
  have l: "drawable (ls_style s) (ls_rows s) l" using drawable_step [OF assms(2) rest_drawable [OF rest(1)]] .
  have "m_list l = m_list (ls_list s)" "m_scrollOffset l = m_scrollOffset (ls_list s)" using assms(4,5) by (auto simp: noted_def)
  then have "getSize l = getSize (ls_list s)" by (simp add: getSize_eq)
  have linked: "rows_linked (s\<lparr>ls_list := l\<rparr>) = rows_linked s" "getListSize (s\<lparr>ls_list := l\<rparr>) = getListSize s"
    by (simp_all add: rows_linked_def getListSize_def)
  with \<open>getSize l = _\<close> rest l quiet_shows [OF l assms(5)] assms(3,6,7) \<open>m_scrollOffset l = _\<close> have "at_rest (s\<lparr>ls_list := l\<rparr>)"
    by (simp add: rest_defs lpart_def linked drawable_def)
  then show ?thesis using assms(3) by (intro frame_inv [OF assms(1)]) (simp_all add: ls_frame_def)
qed


lemma resolved_moves:
  "getResolvedPercentage (doScroll n l) = getResolvedPercentage l" "getResolvedPercentage (moveCursor n l) = getResolvedPercentage l"
proof -
  show s: "getResolvedPercentage (doScroll n l) = getResolvedPercentage l" for n l
    by (simp add: doScroll_def Let_def getResolvedPercentage_def list_frame)
  show "getResolvedPercentage (moveCursor n l) = getResolvedPercentage l"
    by (simp add: moveCursor_def Let_def s) (simp add: getResolvedPercentage_def list_frame)
qed

lemma inv_move_by:
  assumes "ls_inv s"
  shows "ls_inv (move_by n s)"
proof -
  let ?l = "if ls_showCursor s then moveCursor n (ls_list s) else doScroll n (ls_list s)"
  have st: "shown_step net (ls_list s) ?l" for net by (simp add: sh_cursor sh_scroll)
  have p: "lpart ?l = lpart (ls_list s)" by (simp add: lpart_ops)
  have "m_storage ?l = m_storage (ls_list s)" using dpart_moves(1,2) [of n "ls_list s"] by (simp add: dpart_def)
  moreover have "noted (ls_list s) ?l" by (simp add: noted_moveCursor noted_doScroll)
  ultimately have "ls_inv (s\<lparr>ls_list := ?l\<rparr>)" if "\<not> m_isRefreshRequired ?l"
    using that inv_quiet [OF assms st p] by (simp add: resolved_moves)
  then show ?thesis using inv_step [OF assms st p] by (simp add: move_by_def Let_def)
qed

lemma inv_initDetail:
  assumes "ls_inv s"
  shows "ls_inv (s\<lparr>ls_list := initConnectionDetail (ls_list s)\<rparr>)"
proof -
  let ?l = "initConnectionDetail (ls_list s)"
  have rest: "at_rest s" using assms by (simp add: ls_inv_def)
  have eqs: "m_list ?l = m_list (ls_list s)" "m_scrollOffset ?l = m_scrollOffset (ls_list s)" "m_cursorPos ?l = m_cursorPos (ls_list s)"
    "m_targetSize ?l = m_targetSize (ls_list s)" "m_storage ?l = m_storage (ls_list s)" "m_isRefreshRequired ?l = m_isRefreshRequired (ls_list s)"
    "getResolvedPercentage ?l = getResolvedPercentage (ls_list s)"
    by (simp_all add: initConnectionDetail_def Let_def getResolvedPercentage_def)
  have "list_inv ?l" using rest list_inv_step [OF step_detail] by (simp add: rest_defs)
  moreover have "flags_seen ?l = flags_seen (ls_list s)" "getSize ?l = getSize (ls_list s)"
    "screen_shows (ls_style s) (ls_rows s) ?l = screen_shows (ls_style s) (ls_rows s) (ls_list s)"
    by (simp_all add: flags_seen_def screen_shows_def getSize_eq eqs)
  moreover have "rows_linked (s\<lparr>ls_list := ?l\<rparr>) = rows_linked s" "getListSize (s\<lparr>ls_list := ?l\<rparr>) = getListSize s"
    by (simp_all add: rows_linked_def getListSize_def)
  ultimately have "at_rest (s\<lparr>ls_list := ?l\<rparr>)" using rest eqs by (simp add: rest_defs)
  then show ?thesis by (intro frame_inv [OF assms]) (simp_all add: ls_frame_def lpart_ops)
qed

text \<open>Changes of the words in the status line.\<close>

lemma inv_header:
  assumes "ls_inv s"
  shows "ls_inv (drawPausedState (s\<lparr>ls_pausedState := b\<rparr>))" and "ls_inv (drawSyncState (s\<lparr>ls_syncState := b\<rparr>))"
proof -
  have "ls_style (s\<lparr>ls_pausedState := b\<rparr>) = ls_style s" "ls_style (s\<lparr>ls_syncState := b\<rparr>) = ls_style s" by (simp_all add: ls_style_def)
  then have "at_rest (drawPausedState (s\<lparr>ls_pausedState := b\<rparr>))" "at_rest (drawSyncState (s\<lparr>ls_syncState := b\<rparr>))"
    using assms by (simp_all add: ls_inv_def at_rest_def drawPausedState_def drawSyncState_def write_fields)
      (simp_all add: header_defs)
  moreover have "ls_frame s (drawPausedState (s\<lparr>ls_pausedState := b\<rparr>))" "ls_frame s (drawSyncState (s\<lparr>ls_syncState := b\<rparr>))"
    by (simp_all add: ls_frame_def header_defs drawn_modify ls_style_def)
  ultimately show "ls_inv (drawPausedState (s\<lparr>ls_pausedState := b\<rparr>))" "ls_inv (drawSyncState (s\<lparr>ls_syncState := b\<rparr>))"
    using frame_inv [OF assms] by blast+
qed

lemma inv_toggle: "ls_inv s \<Longrightarrow> ls_inv (toggle_pause s)"
  by (simp add: toggle_pause_def Let_def inv_header)

lemma inv_toggle_cursor:
  assumes "ls_inv s"
  shows "ls_inv (ls_updateList (s\<lparr>ls_showCursor := b, ls_list := invalidateCursor (ls_list s)\<rparr>))"
proof -
  let ?s = "s\<lparr>ls_showCursor := b\<rparr>"
  have rest: "at_rest s" using assms by (simp add: ls_inv_def)
  have st: "ls_style ?s = (ls_style s)\<lparr>rs_showCursor := b\<rparr>" "header_ok ?s = header_ok s"
    by (simp_all add: ls_style_def header_ok_def header_of_def)
  have "drawable (ls_style ?s) (ls_rows ?s) (invalidateCursor (ls_list s))"
    unfolding st using rest_drawable [OF rest] invalidateCursor_inv flags_seen_step [OF step_invalidate_cursor] screen_ok_toggle
    by (simp add: drawable_def storage_moves)
  then have "ls_inv (ls_updateList (?s\<lparr>ls_list := invalidateCursor (ls_list s)\<rparr>))"
    using assms st(2) by (intro inv_drawn_list) (simp_all add: ls_inv_def at_rest_def ls_base_def window_fits_def)
  then show ?thesis by simp
qed

lemma inv_toggle_names:
  assumes "ls_inv s"
  shows "ls_inv (ls_updateList (ls_invalidateAllVisible (drawHostnameState (s\<lparr>ls_showHostname := b\<rparr>))))"
    and "ls_inv (ls_updateList (ls_invalidateAllVisible (drawPortnameState (s\<lparr>ls_showPortname := b\<rparr>))))"
proof -
  let ?h = "drawHostnameState (s\<lparr>ls_showHostname := b\<rparr>)" and ?p = "drawPortnameState (s\<lparr>ls_showPortname := b\<rparr>)"
  have base: "drawn_base ?h" "drawn_base ?p"
    using assms by (simp_all add: ls_inv_def at_rest_def drawHostnameState_def drawPortnameState_def write_fields)
  have header: "header_ok ?h" "header_ok ?p" using assms by (simp_all add: ls_inv_def at_rest_def header_defs)
  have ui: "drawn_ui (ls_ui s) (ls_ui ?h)" "drawn_ui (ls_ui s) (ls_ui ?p)" by (simp_all add: header_defs drawn_modify)
  have same: "ls_columns ?h = ls_columns s" "ls_columns ?p = ls_columns s" "ls_columnsTotalWidth ?h = ls_columnsTotalWidth s"
    "ls_columnsTotalWidth ?p = ls_columnsTotalWidth s" "ls_sort ?h = ls_sort s" "ls_sort ?p = ls_sort s" "ls_list ?h = ls_list s" "ls_list ?p = ls_list s"
    by (simp_all add: header_defs)
  have lb: "ls_base ?h" "ls_base ?p"
    using assms ui [THEN drawn_keeps(6)] by (simp_all add: ls_inv_def ls_base_def same)
  have inv: "window_fits s (max MINIMUM_WIDTH (int (ls_columnsTotalWidth s)))"
    "ls_columnsTotalWidth s = getColumnsTotalWidth (dc_columns (ls_columns s))"
    using assms by (auto simp only: ls_inv_def)
  show "ls_inv (ls_updateList (ls_invalidateAllVisible ?h))"
    by (rule inv_restyled [OF base(1) header(1) lb(1)]) (use fits_drawn [OF ui(1)] inv in \<open>simp_all only: same\<close>)
  show "ls_inv (ls_updateList (ls_invalidateAllVisible ?p))"
    by (rule inv_restyled [OF base(2) header(2) lb(2)]) (use fits_drawn [OF ui(2)] inv in \<open>simp_all only: same\<close>)
qed

lemma inv_handleKey: "ls_inv s \<Longrightarrow> ls_inv (snd (ls_handleKey app ch s))"
  by (simp add: ls_handleKey_def Let_def inv_move_by inv_initDetail inv_details inv_columns_close inv_sort_close inv_push inv_toggle_cursor
      inv_toggle_names inv_toggle split: option.split)

lemma inv_dialog_key:
  assumes "ls_inv s"
  shows "ls_inv (snd (dialog_handleKey app w ch s))"
proof (cases w)
  case W_COLUMNS
  obtain b c dc where k: "dc_handleKey (nat (getHeight (ui_screen (ls_ui s) W_COLUMNS))) ch (ls_columns s) = (b, c, dc)" by (metis prod.exhaust)
  have "ls_inv (set_columns dc s)"
    using assms dc_ok_handleKey [OF _ k] dc_columns_key [OF k] by (intro inv_set_columns [OF assms]) (simp_all add: ls_inv_def ls_base_def)
  with W_COLUMNS k show ?thesis by (simp add: dialog_handleKey_def Let_def inv_columns_close split: option.split)
next
  case W_SORT
  obtain b c ds where k: "ds_handleKey (nat (getHeight (ui_screen (ls_ui s) W_SORT))) ch (ls_sort s) = (b, c, ds)" by (metis prod.exhaust)
  have "ls_inv (set_sort ds s)"
    using assms ds_ok_handleKey [OF _ k] ds_choice_key [OF k] by (intro inv_set_sort [OF assms]) (simp_all add: ls_inv_def ls_base_def)
  with W_SORT k show ?thesis by (simp add: dialog_handleKey_def Let_def inv_sort_close split: option.split)
qed (use assms in \<open>simp_all add: dialog_handleKey_def Let_def case_prod_beta inv_handleKey inv_details\<close>)

lemma scroll_key_size:
  "sc_size (snd (scroll_key tm ch sc)) = sc_size sc" "sc_minSize (snd (scroll_key tm ch sc)) = sc_minSize sc"
  "sc_maxSize (snd (scroll_key tm ch sc)) = sc_maxSize sc"
  by (auto simp: scroll_key_def scrollScreenRectX_def scrollScreenRectY_def sc_invalidate_def Let_def split: key.split prod.split bool.split)

lemma inv_window_key:
  assumes "ls_inv s" and "w \<in> set (W_LIST # ui_dialogStack (ls_ui s))"
  shows "ls_inv (snd (window_onKey app ch w s))"
proof -
  let ?ui = "ui_upd w (\<lambda>_. snd (scroll_key (ui_term (ls_ui s)) ch (ui_screen (ls_ui s) w))) (ls_ui s)"
  have "?ui = ui_upd w (\<lambda>sc. snd (scroll_key (ui_term (ls_ui s)) ch sc)) (ls_ui s)" by (simp add: ui_upd_def)
  moreover have "ui_ok (ui_upd w (\<lambda>sc. snd (scroll_key (ui_term (ls_ui s)) ch sc)) (ls_ui s))"
    using assms by (intro ui_ok_window view_scroll flags_kept) (auto simp: ls_inv_def ls_base_def ui_ok_def)
  ultimately have "ls_inv (s\<lparr>ls_ui := ?ui\<rparr>)"
    using assms(1) by (intro inv_ui) (auto simp: scroll_key_size ui_upd_def)
  then show ?thesis using inv_dialog_key [OF assms(1)] by (simp add: window_onKey_def case_prod_beta Let_def)
qed

lemma unhandled_key:
  assumes "\<not> fst (window_onKey app ch w s)"
  shows "snd (window_onKey app ch w s) = s"
proof -
  have d: "\<not> fst (dialog_handleKey app w ch s)" "window_onKey app ch w s = dialog_handleKey app w ch s"
    using assms by (auto simp: window_onKey_def case_prod_beta Let_def split: if_splits)
  have l: "fst (ls_handleKey app ch s) \<or> snd (ls_handleKey app ch s) = s"
    by (simp only: ls_handleKey_def Let_def fst_conv snd_conv simp_thms split: if_split option.split)
  have dc: "closing = None \<and> dc' = dc" if "dc_handleKey h ch dc = (False, closing, dc')" for h closing dc dc'
    using that by (auto simp: dc_handleKey_def Let_def split: if_splits)
  have ds: "closing = None \<and> ds' = ds" if "ds_handleKey h ch ds = (False, closing, ds')" for h closing ds ds'
    using that by (auto simp: ds_handleKey_def Let_def split: if_splits)
  have dd: "fst (dd_handleKey ch) \<or> \<not> snd (dd_handleKey ch)" by (simp add: dd_handleKey_def)
  show ?thesis
    unfolding d(2)
  proof (cases w)
    case W_COLUMNS
    obtain h c x where k: "dc_handleKey (nat (getHeight (ui_screen (ls_ui s) W_COLUMNS))) ch (ls_columns s) = (h, c, x)" by (rule prod_cases3)
    moreover from k W_COLUMNS d(1) have h: "\<not> h" by (simp add: dialog_handleKey_def Let_def)
    moreover have "c = None \<and> x = ls_columns s" by (rule dc) (use k h in simp)
    ultimately show "snd (dialog_handleKey app w ch s) = s" using W_COLUMNS by (simp add: dialog_handleKey_def set_columns_def Let_def)
  next
    case W_SORT
    obtain h c x where k: "ds_handleKey (nat (getHeight (ui_screen (ls_ui s) W_SORT))) ch (ls_sort s) = (h, c, x)" by (rule prod_cases3)
    moreover from k W_SORT d(1) have h: "\<not> h" by (simp add: dialog_handleKey_def Let_def)
    moreover have "c = None \<and> x = ls_sort s" by (rule ds) (use k h in simp)
    ultimately show "snd (dialog_handleKey app w ch s) = s" using W_SORT by (simp add: dialog_handleKey_def set_sort_def Let_def)
  qed (use d(1) l dd in \<open>simp_all add: dialog_handleKey_def case_prod_beta Let_def\<close>)
qed

lemma inv_onKey_loop:
  assumes "ls_inv s" and "set ws \<subseteq> set (W_LIST # ui_dialogStack (ls_ui s))"
  shows "ls_inv (snd (onKey_loop app ch ws s))"
  using assms
proof (induction ws)
  case (Cons w ws)
  have "ls_inv (snd (window_onKey app ch w s))" using Cons.prems by (intro inv_window_key) auto
  moreover have "snd (window_onKey app ch w s) = s" if "\<not> fst (window_onKey app ch w s)" using that by (rule unhandled_key)
  ultimately show ?case using Cons by (auto simp: case_prod_beta Let_def)
qed simp

lemma inv_onKey: "ls_inv s \<Longrightarrow> ls_inv (snd (ls_onKey app ch s))"
  unfolding ls_onKey_def by (rule inv_onKey_loop) auto


section \<open>Resizing the terminal\<close>

lemma ui_ok_onResize:
  assumes "ui_ok ui" and "term_ok tm"
  shows "ui_ok (snd (ui_onResize tm ui))"
proof -
  have v: "(\<forall>w. scroll_ok (ui_screen (snd (ui_onResize tm ui)) w)) \<and>
      (\<forall>w \<in> set (W_LIST # ui_dialogStack ui). view_ok tm (ui_screen (snd (ui_onResize tm ui)) w))"
    using assms resize_windows_views [of "ui\<lparr>ui_term := tm\<rparr>" "W_LIST # ui_dialogStack ui"]
    unfolding ui_onResize_def ui_ok_def by (simp del: resize_windows.simps)
  have flag: "sc_isRefreshRequired (ui_screen (snd (resize_windows ws u)) w) = sc_isRefreshRequired (ui_screen u w)" for ws u w
    by (induction ws arbitrary: u) (simp_all add: case_prod_beta Let_def ui_upd_def)
  have "ui_term (snd (ui_onResize tm ui)) = tm" "ui_dialogStack (snd (ui_onResize tm ui)) = ui_dialogStack ui"
    "ui_painted (snd (ui_onResize tm ui)) = ui_painted ui"
    unfolding ui_onResize_def by (simp_all del: resize_windows.simps)
  moreover have "sc_isRefreshRequired (ui_screen (snd (ui_onResize tm ui)) W_LIST) = sc_isRefreshRequired (ui_screen ui W_LIST)"
    unfolding ui_onResize_def flag by simp
  ultimately show ?thesis using assms v unfolding ui_ok_def by simp
qed

lemma sc_onResize_size:
  "sc_minSize (snd (sc_onResize tm sc)) = sc_minSize sc" "sc_maxSize (snd (sc_onResize tm sc)) = sc_maxSize sc"
  "sc_size (snd (sc_onResize tm sc)) = calculateSize tm sc" "fst (sc_onResize tm sc) \<longleftrightarrow> calculateSize tm sc \<noteq> sc_size sc"
  by (auto simp: sc_onResize_def Let_def updateScreenRect_def case_prod_beta)

lemma resize_windows_set: "set (fst (resize_windows ws ui)) \<subseteq> set ws"
  by (induction ws arbitrary: ui) (auto simp: case_prod_beta Let_def)

lemma inv_fold_dialogs:
  "ls_inv s \<Longrightarrow> W_LIST \<notin> set ws \<Longrightarrow> ls_inv (foldl (\<lambda>s w. resize_dialog app w s) s ws)"
  by (induction ws arbitrary: s) (auto simp: inv_resize_dialog)

lemma inv_refresh: "ls_inv s \<Longrightarrow> ls_inv (ls_refreshScreen b s)"
proof -
  assume inv: "ls_inv s"
  have p: "ui_term (refreshScreen b u) = ui_term u \<and> sc_size (ui_screen (refreshScreen b u) w) = sc_size (ui_screen u w)
      \<and> sc_minSize (ui_screen (refreshScreen b u) w) = sc_minSize (ui_screen u w)
      \<and> sc_maxSize (ui_screen (refreshScreen b u) w) = sc_maxSize (ui_screen u w)" for b u w
  proof -
    have d: "ui_term (refresh_dialogs r ws u) = ui_term u \<and> sc_size (ui_screen (refresh_dialogs r ws u) w) = sc_size (ui_screen u w)
        \<and> sc_minSize (ui_screen (refresh_dialogs r ws u) w) = sc_minSize (ui_screen u w)
        \<and> sc_maxSize (ui_screen (refresh_dialogs r ws u) w) = sc_maxSize (ui_screen u w)" for r ws u
      by (induction r ws u rule: refresh_dialogs.induct) (auto simp: paint_def ui_upd_def sc_invalidate_def)
    then show ?thesis by (auto simp: refreshScreen_def refresh_def paint_def ui_upd_def sc_invalidate_def)
  qed
  show ?thesis
    unfolding ls_refreshScreen_def
    using inv ui_ok_refresh [of "ls_ui s" b] p by (intro inv_ui [OF inv]) (auto simp: ls_inv_def ls_base_def)
qed

lemma inv_resized:
  assumes "ls_inv s" and "term_ok tm" and "pos_y tm < 2 ^ 31"
  shows "ls_inv (foldl (\<lambda>s w. resize_dialog app w s) (s\<lparr>ls_ui := snd (ui_onResize tm (ls_ui s))\<rparr>) (fst (ui_onResize tm (ls_ui s))))"
proof -
  let ?u = "(ls_ui s)\<lparr>ui_term := tm\<rparr>" and ?st = "ui_dialogStack (ls_ui s)"
  let ?r = "sc_onResize tm (ls_screen s)"
  let ?v = "ui_upd W_LIST (\<lambda>_. snd ?r) ?u"
  have ok: "ui_ok (ls_ui s)" and fit: "window_fits s (max MINIMUM_WIDTH (int (ls_columnsTotalWidth s)))" and rest: "at_rest s"
    using assms(1) unfolding ls_inv_def ls_base_def by blast+
  have nin: "W_LIST \<notin> set ?st" using ok by (simp add: ui_ok_def)
  define ui where "ui = snd (ui_onResize tm (ls_ui s))"
  define rs where "rs = fst (resize_windows ?st ?v)"
  have e: "fst (ui_onResize tm (ls_ui s)) = (if fst ?r then W_LIST # rs else rs)" "ui = snd (resize_windows ?st ?v)"
    by (simp_all add: ui_onResize_def rs_def ui_def case_prod_beta Let_def)
  have rs: "W_LIST \<notin> set rs" using nin resize_windows_set unfolding rs_def by blast
  have uiok: "ui_ok ui" using ui_ok_onResize [OF ok assms(2)] by (simp add: ui_def)
  have scroll: "\<forall>w. scroll_ok (ui_screen ?v w)"
  proof
    fix w
    have "view_ok tm (snd ?r)" using ok assms(2) view_onResize by (simp add: ui_ok_def)
    then show "scroll_ok (ui_screen ?v w)" using ok view_scroll_ok by (auto simp: ui_ok_def ui_upd_def)
  qed
  have scr: "ui_screen ui W_LIST = snd ?r" "ui_term ui = tm"
    using resize_windows_views [of ?v ?st] scroll assms(2) nin e(2) by (auto simp: ui_upd_def)
  define a where "a = s\<lparr>ls_ui := ui\<rparr>"
  have fita: "window_fits a (max MINIMUM_WIDTH (int (ls_columnsTotalWidth a)))"
    using fit assms(3) by (simp add: window_fits_def a_def scr sc_onResize_size calculateSize_def)
  have base: "ls_base a" "ls_columnsTotalWidth a = getColumnsTotalWidth (dc_columns (ls_columns a))"
    using assms(1) uiok by (simp_all add: ls_inv_def ls_base_def a_def)
  have "ls_inv (if fst ?r then resize_dialog app W_LIST a else a)"
  proof (cases "fst ?r")
    case True
    have c: "list_inv (ls_list a)" "ls_currentSize a = getSize (ls_list a) \<or> ls_currentSize a = 0"
      using rest by (simp_all add: rest_defs a_def)
    note h = erased_rest [OF c fita, of app]
    let ?b = "ls_handleResize app (ls_erase a)"
    have d: "drawn_ui (ls_ui a) (ls_ui ?b)" using h(2) by (simp add: same_choices_def)
    have "window_fits ?b (max MINIMUM_WIDTH (int (ls_columnsTotalWidth ?b)))"
      using fits_drawn [OF d fita] h(2) by (simp add: same_choices_def)
    with h base drawn_keeps(6) [OF d] have "ls_inv ?b" unfolding ls_inv_def by (auto simp: ls_base_def same_choices_def)
    with True show ?thesis by (simp add: resize_dialog_def)
  next
    case False
    then have "sc_size (ui_screen ui W_LIST) = sc_size (ls_screen s)" using scr by (simp add: sc_onResize_size)
    with rest have "at_rest a" by (simp add: a_def at_rest_ui)
    with False fita base show ?thesis by (simp add: ls_inv_def)
  qed
  then have "ls_inv (foldl (\<lambda>s w. resize_dialog app w s) a (fst (ui_onResize tm (ls_ui s))))"
    using inv_fold_dialogs [OF _ rs] e(1) by (cases "fst ?r") simp_all
  then show ?thesis by (simp add: a_def ui_def)
qed

lemma inv_resizeScreen: "ls_inv s \<Longrightarrow> term_ok tm \<Longrightarrow> pos_y tm < 2 ^ 31 \<Longrightarrow> ls_inv (ls_resizeScreen app tm s)"
  using inv_resized by (simp add: ls_resizeScreen_def case_prod_beta Let_def inv_refresh)


section \<open>Runs\<close>

inductive ls_reach :: "inet \<Rightarrow> ListScreen \<Rightarrow> bool" for net where
  lr_create: "(data_step net)\<^sup>*\<^sup>* ConnectionList_init l \<Longrightarrow> term_ok tm \<Longrightarrow> pos_y tm < 2 ^ 31 \<Longrightarrow>
    ls_reach net (ls_refreshScreen False (ScreenConnectionList_create app tm l))"
| lr_data: "ls_reach net s \<Longrightarrow> (data_step net)\<^sup>*\<^sup>* (ls_list s) l \<Longrightarrow> ls_reach net (refreshConnectionList (s\<lparr>ls_list := l\<rparr>))"
| lr_key: "ls_reach net s \<Longrightarrow> ls_reach net (processKey app ch s)"
| lr_event: "ls_reach net s \<Longrightarrow> ls_reach net (onClientEvent app event s)"
| lr_resize: "ls_reach net s \<Longrightarrow> term_ok tm \<Longrightarrow> pos_y tm < 2 ^ 31 \<Longrightarrow> ls_reach net (ls_resizeScreen app tm s)"

lemma ls_inv_create:
  assumes "(data_step net)\<^sup>*\<^sup>* ConnectionList_init l" and "term_ok tm" and "pos_y tm < 2 ^ 31"
  shows "ls_inv (ScreenConnectionList_create app tm l)"
proof -
  let ?ui = "\<lparr>ui_term = tm, ui_screen = (\<lambda>w. Screen_create tm (fst (window_sizes w)) (snd (window_sizes w))), ui_dialogStack = [], ui_painted = []\<rparr>"
  define ui where "ui = ui_modify W_DETAILS (ui_modify W_COLUMNS (ui_modify W_SORT ?ui))"
  define s where "s = \<lparr>ls_ui = ui, ls_list = l, ls_rows = (\<lambda>_. None), ls_used = {}, ls_barShown = False, ls_header = blank_header,
               ls_keyBar = list_keyBar, ls_details = DialogConnectionDetails_create, ls_columns = DialogConnectionColumns_create,
               ls_sort = DialogConnectionSort_create, ls_columnsTotalWidth = getColumnsTotalWidth (dc_columns DialogConnectionColumns_create),
               ls_currentSize = 0, ls_connectionCount = 0,
               ls_scrollOffset = 0, ls_resolvedPercentage = - 1, ls_showCursor = True, ls_showHostname = True, ls_showPortname = True,
               ls_pausedState = False, ls_syncState = False, ls_calls = []\<rparr>"
  have l: "list_inv l" and lp: "lpart l = lpart ConnectionList_init"
    using data_steps(1) [OF assms(1), of undefined "\<lambda>_. None"] data_steps(2) [OF assms(1)] list_inv_init screen_ok_init
    by (auto simp: drawable_def)
  have d0: "drawn_ui ?ui ui" by (simp add: ui_def drawn_modify)
  have "ui_wf ?ui" using view_create view_scroll_ok assms(2) by (fastforce simp: ui_wf_iff)
  then have wf: "ui_wf (ls_ui s)" using drawn_wf [OF d0] by (simp add: s_def)
  have sz: "sc_minSize (Screen_create tm a b) = a" "sc_maxSize (Screen_create tm a b) = b"
    "sc_size (Screen_create tm a b) = calculateSize tm (Screen_create tm a b)" for a b
    by (simp_all add: Screen_create_def Let_def updateScreenRect_def case_prod_beta calculateSize_def)
  have fit: "window_fits s MINIMUM_WIDTH"
    using assms(3) drawn_keeps(1) [OF d0] drawn_keeps(3-5) [OF d0, of W_LIST]
    by (simp add: window_fits_def s_def sz window_sizes_def calculateSize_def)
  have pre: "list_inv (ls_list s)" "ls_currentSize s = getSize (ls_list s) \<or> ls_currentSize s = 0" using l by (simp_all add: s_def)
  define a where "a = setMinWidth app s"
  note t = setMinWidth_spec [OF fit order_refl pre, of app, folded a_def]
  define b where "b = (if (app_isClient app \<or> app_hasCollector app) \<and> app_isPaused app then a\<lparr>ls_pausedState := True\<rparr> else a)"
  have e: "ScreenConnectionList_create app tm l = ls_handleResize app b"
    by (simp add: ScreenConnectionList_create_def Let_def b_def a_def s_def ui_def DialogConnectionColumns_create_def)
  have same: "ls_ui b = ls_ui a" "ls_list b = ls_list a" "ls_rows b = ls_rows a" "ls_used b = ls_used a" "ls_currentSize b = ls_currentSize a"
    "ls_columns b = ls_columns s" "ls_sort b = ls_sort s" "ls_columnsTotalWidth b = ls_columnsTotalWidth s" "getListSize b = getListSize a"
    using t(5-7) by (simp_all add: b_def getListSize_def)
  have fitb: "window_fits b (max MINIMUM_WIDTH (int (ls_columnsTotalWidth s)))" using t(1) by (simp add: window_fits_def same)
  have st: "list_inv (ls_list a) \<and> rows_linked a \<and> ls_used a \<subseteq> {..<ls_currentSize a} \<and> ls_used a \<subseteq> {..<getListSize a} \<and>
      (ls_currentSize a = getSize (ls_list a) \<or> ls_currentSize a = 0)"
    using t(4)
  proof
    assume r: "at_rest a"
    then have "getSize (ls_list a) \<le> getListSize a" using getSize_target [of "ls_list a"] by (simp add: rest_defs)
    with r show ?thesis by (auto simp: rest_defs)
  qed (auto simp: s_def l rows_linked_def)
  then have "list_inv (ls_list b)" "rows_linked b" "ls_used b \<subseteq> {..<ls_currentSize b}" "ls_used b \<subseteq> {..<getListSize b}"
      "ls_currentSize b = getSize (ls_list b) \<or> ls_currentSize b = 0"
    by (simp_all add: same rows_linked_def)
  note h = handleResize_rest [OF this fitb, of app, folded e]
  let ?s = "ScreenConnectionList_create app tm l"
  have "ui_wf (ls_ui b)" using t(3) wf by (simp add: same)
  then have ok: "ui_ok (ls_ui ?s)" using drawn_keeps(6) [OF h(3)] by (simp add: ui_wf_def)
  have d: "drawn_ui (ls_ui b) (ls_ui ?s)" using h(2) by (simp add: same_choices_def)
  have "ls_columns ?s = DialogConnectionColumns_create" "ls_sort ?s = DialogConnectionSort_create"
    "ls_columnsTotalWidth ?s = ls_columnsTotalWidth s" "m_sortMode (ls_list ?s) = NONE" "\<not> m_isSortAscending (ls_list ?s)"
    using h(2) same t(8,9) lp by (simp_all add: same_choices_def s_def lpart_def ConnectionList_init_def updateCompareFunc_def)
  moreover have "ds_sortMode DialogConnectionSort_create = NONE" "\<not> ds_isSortAscending DialogConnectionSort_create"
    by (simp_all add: DialogConnectionSort_create_def ds_draw_def)
  ultimately show ?thesis
    using h(1) ok fits_drawn [OF d fitb] dc_ok_create ds_ok_create by (simp add: ls_inv_def ls_base_def) (simp add: s_def)
qed

lemma inv_clientEvent: "ls_inv s \<Longrightarrow> ls_inv (updateClientInfo app event s)"
  using inv_header(2) [OF inv_modify] by (simp add: updateClientInfo_def ls_drawCollectorInfo_def inv_modify inv_header Let_def)

lemma ls_reach_inv: "ls_reach net s \<Longrightarrow> ls_inv s"
proof (induction rule: ls_reach.induct)
  case (lr_create l tm app)
  then show ?case by (intro inv_refresh ls_inv_create)
next
  case (lr_data s l)
  have "drawable (ls_style s) (ls_rows s) l" "lpart l = lpart (ls_list s)"
    using data_steps [OF lr_data(2)] rest_drawable lr_data(3) by (simp_all add: ls_inv_def)
  then show ?case using inv_list [OF lr_data(3)] by (simp add: refreshConnectionList_def inv_refresh)
qed (simp_all add: processKey_def onClientEvent_def inv_refresh inv_onKey inv_clientEvent inv_resizeScreen)

lemma refreshed:
  assumes "ls_inv s"
  shows "\<not> ui_isRefreshRequired (ls_ui (ls_refreshScreen b s))"
proof -
  have ok: "ui_ok (ls_ui s)" using assms by (simp add: ls_inv_def ls_base_def)
  then have "ui_ok (ui_upd W_LIST sc_invalidate ((ls_ui s)\<lparr>ui_painted := []\<rparr>))" by (auto simp: ui_ok_def sc_invalidate_def)
  with ok show ?thesis using refresh_shows(3) by (simp add: ls_refreshScreen_def refreshScreen_def)
qed

lemma ls_reach_refreshed: "ls_reach net s \<Longrightarrow> \<not> ui_isRefreshRequired (ls_ui s)"
proof (induction rule: ls_reach.cases)
  case (lr_create l tm app)
  then show ?case using refreshed ls_inv_create by simp
next
  case (lr_data s l)
  have "drawable (ls_style s) (ls_rows s) l" "lpart l = lpart (ls_list s)"
    using data_steps [OF lr_data(3)] rest_drawable ls_reach_inv [OF lr_data(2)] by (simp_all add: ls_inv_def)
  then show ?case using inv_list [OF ls_reach_inv [OF lr_data(2)]] refreshed lr_data(1) by (simp add: refreshConnectionList_def)
next
  case (lr_key s app ch)
  then show ?case using refreshed [OF inv_onKey [OF ls_reach_inv]] by (simp add: processKey_def)
next
  case (lr_event s app event)
  then show ?case using refreshed [OF inv_clientEvent [OF ls_reach_inv]] by (simp add: onClientEvent_def)
next
  case (lr_resize s tm app)
  then show ?case using refreshed [OF inv_resized [OF ls_reach_inv]] by (simp add: ls_resizeScreen_def case_prod_beta Let_def)
qed



definition sample_app :: application where
  "sample_app = \<lparr>app_hasCollector = True, app_isClient = False, app_isConnected = False, app_isPaused = False, app_isSynchronized = False\<rparr>"

definition sample_screen :: ListScreen where
  "sample_screen = processKey sample_app (KEY_F 2) (ls_refreshScreen False (ScreenConnectionList_create sample_app (mkPos 100 30) ConnectionList_init))"


end
