(* ===== verification/Spec2Isabelle.thy ===== *)
theory Spec2Isabelle
  imports CharBuffer StreamReader MirrorProps CmdLineProps PollProps ListScreenProps
begin

text \<open>
  \<^bold>\<open>conntop\<close>: a monitor of network connections. A collector reads the connections of the kernel
  and reports them through a callback interface, either to the list that is shown on the screen or to a
  server, which sends snapshots and updates to clients; a client feeds the received data through the
  same interface into its own list. This library models these parts and proves what each of them
  promises and what they achieve together.

  \<^bold>\<open>Values and containers.\<close>
  \<^item> \<open>Prelude\<close>: lemma collections, strict weak orders, lists, hash maps and 32-bit flags.
  \<^item> \<open>StdMap\<close>: \<^verbatim>\<open>std::unordered_map\<close> as an association list; \<open>KString\<close>, \<open>CharBuffer\<close>, \<open>Country\<close>: the
    strings, the fixed text buffer and the country table of the files of the same name.
  \<^item> \<open>Address\<close>: \<^verbatim>\<open>Address.hpp\<close>, \<^verbatim>\<open>ASN.hpp\<close>, \<^verbatim>\<open>Port.hpp\<close>, \<^verbatim>\<open>WhoisData.cpp\<close>.
    \<^verbatim>\<open>inet_ntop\<close> and \<^verbatim>\<open>inet_pton\<close> are the argument \<open>inet\<close>; where their agreement matters
    it is the hypothesis \<open>inet_roundtrip\<close>.
  \<^item> \<open>Connection\<close>: \<^verbatim>\<open>Connection.hpp\<close> and the enumerations of \<^verbatim>\<open>Connection.cpp\<close>.
  \<^item> \<open>Storage\<close>: \<^verbatim>\<open>ConnectionStorage.hpp\<close>, four hash maps with their pointers as keys.

  \<^bold>\<open>The connection list\<close> (\<^verbatim>\<open>ConnectionList.cpp\<close>).
  \<^item> \<open>Compare\<close>: the comparison function of every sort mode is a strict weak order.
  \<^item> \<open>TopList\<close>, \<open>ConnList\<close>: the partial sort that fills the list, and every operation of the list.
  \<^item> \<open>ConnListInv\<close>, \<open>ConnListOps\<close>, \<open>ConnListProps\<close>: the invariant of reachable lists.

  \<^bold>\<open>Data on the wire.\<close>
  \<^item> \<open>Serialize\<close>, \<open>SerializeProps\<close>: \<^verbatim>\<open>ConnectionData::serialize\<close> and \<^verbatim>\<open>Deserialize\<close>
    over JSON values, and the callback interface \<^verbatim>\<open>IConnectionUpdateCallback\<close> as a record.
  \<^item> \<open>Replay\<close>: the locale \<open>update_callback\<close>, the contract of a receiver of connections, interpreted
    on the update serializer of the server (\<open>UpdateSerializer\<close>) and on the list (\<open>Replication\<close>).
  \<^item> \<open>Replication\<close>: replaying snapshots and updates copies the server's connections.
  \<^item> \<open>Conntrack\<close>, \<open>ConntrackProps\<close>: the Netfilter collector (\<^verbatim>\<open>Conntrack.cpp\<close>).

  \<^bold>\<open>Client and server\<close> (\<^verbatim>\<open>ClientServerProtocol.cpp\<close>, \<^verbatim>\<open>SocketReaderWriter.hpp\<close>,
  \<^verbatim>\<open>Server.cpp\<close>, \<^verbatim>\<open>Client.cpp\<close>).
  \<^item> \<open>Protocol\<close>: names and documents of the messages, and the handler that builds parsed values.
    RapidJSON's writer, the host name and the version are the argument \<open>app_env\<close>.
  \<^item> \<open>SocketRW\<close>: the writer; the results of \<^verbatim>\<open>send\<close> are arguments. A text that is
    shared and not owned has a version, so that the use of a replaced text is visible.
  \<^item> \<open>StreamReader\<close>: the reader with its array, \<^verbatim>\<open>MessageParser\<close> and RapidJSON's token
    loop with the chunk mode that this repository adds to it. Every access to the array checks its index, and
    an access out of range is an outcome of its own. A single transition of RapidJSON (reading one token
    and calling the handler) is an argument; that it consumes its token and stops at the terminating NUL
    is the hypothesis \<open>transition_ok\<close>.
  \<^item> \<open>ServerSess\<close>, \<open>ServerModel\<close>: sessions and the server; \<open>ServerProps\<close>: the locale
    \<open>server_callback\<close> between them, with the invariant of reachable servers (\<open>sv_clientsMoved\<close> counts
    the sessions at the front whose address has changed since they were accepted); \<open>ServerUpdates\<close>: what
    the periodic update sends, and what goes wrong with slow and departing clients.
  \<^item> \<open>ClientSess\<close>, \<open>ClientModel\<close>: session, connector and client; \<open>ClientProps\<close>: the locales
    \<open>client_callback\<close> and \<open>client_owner\<close>, and the invariant of reachable clients;
    \<open>ClientRules\<close>: connecting, ticks and timeouts.

  \<^bold>\<open>A whole session\<close>: collector, server and client over two channels of messages.
  \<^item> \<open>Wire\<close>: every document one end creates has the members and types the other end reads.
  \<^item> \<open>Link\<close>: well-formed streams from a server to a client, and that a client that follows one
    keeps its list equal to the server's connections.
  \<^item> \<open>System\<close>: the steps of collector, server and client (the relation \<open>sys_reach\<close>) and what
    the server's end contributes; \<open>Mirror\<close>: the invariant of both ends and the channels;
    \<open>Progress\<close>: everything queued can be sent, everything under way is accepted, and a new
    connection can become synchronized; \<open>MirrorProps\<close>: the properties, with a sample session.
    A channel carries whole messages and an output event sends all that is queued; RapidJSON's writer
    and parser agree (hypothesis \<open>readable\<close>), and so do \<^verbatim>\<open>inet_ntop\<close> and
    \<^verbatim>\<open>inet_pton\<close> (hypothesis \<open>inet_roundtrip\<close>). The server updates only when its queue
    is empty: what slow clients see otherwise is in \<open>ServerUpdates\<close>.

  \<^bold>\<open>Around them.\<close>
  \<^item> \<open>CmdLine\<close>, \<open>CmdLineProps\<close>: the options and the parser of the command line
    (\<^verbatim>\<open>CmdLine.cpp\<close>, \<^verbatim>\<open>CmdLineOptions.cpp\<close>): a written command line parses back, and
    what is accepted is consistent.
  \<^item> \<open>Poll\<close>, \<open>PollProps\<close>: the descriptor table with one-shot events, the request queue and the
    self-pipe (\<^verbatim>\<open>Platform/Unix/PollHandle.cpp\<close>, \<^verbatim>\<open>PollSystem.cpp\<close>,
    \<^verbatim>\<open>SelfPipe.cpp\<close>) as interleaved steps of the main thread and the poll thread, with the
    invariant of all interleavings. What \<^verbatim>\<open>poll\<close> reports is an argument.

  \<^bold>\<open>The user interface\<close> (\<^verbatim>\<open>UI_Curses\<close>).
  \<^item> \<open>ScreenModel\<close>, \<open>ScreenProps\<close>: windows, scrolling and the stack of dialogs (\<^verbatim>\<open>Screen.cpp\<close>);
    what a refresh leaves on the terminal. The size of the terminal is an argument.
  \<^item> \<open>Dialogs\<close>: the dialogs of the columns and of the sort mode; \<open>Details\<close>: the dialog with the
    details of a connection. Keys and states, and that every entry that looks different is drawn again.
    \<open>DetailsProps\<close>: this dialog and the list, which collects what has changed between two drawings; the
    dialog follows the connection where updates add to what was flagged before, and misses changes where
    they do not.
  \<^item> \<open>HumanSize\<close>: \<^verbatim>\<open>Util::GetHumanReadableSize\<close> with rounded floating-point numbers.
  \<^item> \<open>RowDraw\<close>, \<open>RowProps\<close>: the cells of a row of the list (\<^verbatim>\<open>drawListEntry\<close>). The functions of
    curses are the argument \<open>curses\<close>, their laws the locale \<open>curses_window\<close>, interpreted on a grid of
    cells; texts are assumed printable (\<open>row_printable\<close>).
  \<^item> \<open>ConnDraw\<close>: the drawing loop of \<^verbatim>\<open>ScreenConnectionList.cpp\<close>. A row of the screen is the text
    and colour of every column; an update draws the columns of its flags and leaves the others. Every operation
    of the list flags enough for the loop to show the current data.
  \<^item> \<open>ListScreen\<close>, \<open>ListScreenProps\<close>: the screen of the list as a whole, with its rows, status line, keys,
    dialogs and resizing, above all of these; the relation \<open>ls_reach\<close> of its runs and their invariant. The
    terminal has fewer than \<open>2 ^ 31\<close> lines, so that the unsigned size of the list does not wrap.

  \<^bold>\<open>Conventions.\<close> Objects are records, virtual functions the fields of a record, exceptions the left
  values of a sum; \<open>undefined_behaviour\<close> and \<open>assertion_failed\<close> stand for what the language and
  RapidJSON leave undefined. Counters, flags and timestamps are words of the width in the source.
  Loops are structural or have a termination proof; the loops of the parser, which may not return
  for an arbitrary transition, are partial, and that they return is proved from \<open>transition_ok\<close>. Where
  an iteration order of a hash map matters the model fixes one.

  \<^bold>\<open>Not modelled\<close>: calls of the operating system (sockets, threads), the resolver, the event system,
  GeoIP, logging, the line with the name of the collector or server, the cells of the details dialog and of
  the status line, the help screen, and the vendored libraries but for the token loop above. Their answers are
  arguments of the definitions that use them.
\<close>

end
